(* ===== verification/Prelude.thy ===== *)
theory Prelude
  imports Complex_Main "HOL-Library.Char_ord" "HOL-Library.List_Lexorder"
    "HOL-Library.Product_Lexorder" "HOL-Library.AList"
begin

text \<open>
  Shared ground of the development: the Python values the services exchange (strings, floats,
  messages built by f-strings, exceptions), the small part of the standard library they use,
  keyed-table lemmas for the database models, and the locale through which every state machine
  below proves its invariants.

  \<^item> A Python \<open>str\<close> is a \<open>string\<close> of ASCII characters; \<open>upper\<close>, \<open>lower\<close> and \<open>strip\<close> act on that
    range, which is the range \<open>sanitize_symbol\<close> admits for symbols.
  \<^item> A Python \<open>float\<close> is a \<open>pyfloat\<close>: a rational or one of the three special values. Comparisons
    are exactly those of IEEE 754 (every finite double is a rational, and a comparison with a
    NaN is false); arithmetic on finite values is exact, so rounding to 53 bits is not modelled.
    Where a component only does arithmetic on finite quantities (the paper ledger, the position
    cap) it uses \<open>rat\<close> directly.
  \<^item> A moment is an \<open>instant\<close>: microseconds since the epoch, in UTC, which is the resolution of
    \<open>datetime\<close> and of \<open>TIMESTAMPTZ\<close>.
  \<^item> A text assembled by an f-string is a \<open>msg\<close>, the list of its pieces: literal text, an
    interpolated integer, an interpolated float with its format specification, or \<open>str\<close> of a JSON
    value. Rendering a float in decimal is not modelled; equal pieces render to equal text.
\<close>

named_theorems table_simps \<open>rewriting of keyed tables\<close>
named_theorems step_intros \<open>facts about single operations that the invariants rest on\<close>

type_synonym instant = int
type_synonym seconds = rat

definition total_seconds :: "int \<Rightarrow> seconds" where
  "total_seconds us = of_int us / 1000000"

lemma total_seconds_mono: "a \<le> b \<Longrightarrow> total_seconds a \<le> total_seconds b"
  by (simp add: total_seconds_def divide_right_mono)

subsection \<open>Strings\<close>

definition upper_char :: "char \<Rightarrow> char" where
  "upper_char c = (let n = (of_char c :: nat) in if 97 \<le> n \<and> n \<le> 122 then char_of (n - 32) else c)"

definition lower_char :: "char \<Rightarrow> char" where
  "lower_char c = (let n = (of_char c :: nat) in if 65 \<le> n \<and> n \<le> 90 then char_of (n + 32) else c)"

definition upper :: "string \<Rightarrow> string" where
  "upper s = map upper_char s"

definition lower :: "string \<Rightarrow> string" where
  "lower s = map lower_char s"

text \<open>ASCII white space, as \<open>str.strip\<close> understands it.\<close>

definition is_space :: "char \<Rightarrow> bool" where
  "is_space c = (let n = (of_char c :: nat) in n = 32 \<or> (9 \<le> n \<and> n \<le> 13) \<or> (28 \<le> n \<and> n \<le> 31))"

definition strip :: "string \<Rightarrow> string" where
  "strip s = rev (dropWhile is_space (rev (dropWhile is_space s)))"

lemma of_char_less_256: "(of_char c :: nat) < 256"
  using nat_of_char_less_256 [of c] by simp

lemma of_char_of_nat: "n < 256 \<Longrightarrow> (of_char (char_of n :: char) :: nat) = n"
  by (simp add: of_char_of)

lemma upper_char_idem [simp]: "upper_char (upper_char c) = upper_char c"
  by (auto simp: upper_char_def Let_def of_char_of_nat)

lemma upper_idem [simp]: "upper (upper s) = upper s"
  by (simp add: upper_def)

lemma length_upper [simp]: "length (upper s) = length s"
  by (simp add: upper_def)

text \<open>Python's \<open>a or b\<close> on an optional string: \<open>None\<close> and the empty string are both falsy.\<close>

definition or_default :: "string option \<Rightarrow> string \<Rightarrow> string" where
  "or_default a d = (case a of None \<Rightarrow> d | Some x \<Rightarrow> if x = [] then d else x)"

lemma or_default_simps [simp]:
  "or_default None d = d"
  "x \<noteq> [] \<Longrightarrow> or_default (Some x) d = x"
  "or_default (Some []) d = d"
  by (auto simp: or_default_def)

subsection \<open>Floats\<close>

datatype pyfloat = Fin rat | PInf | NInf | NaN

fun f_lt :: "pyfloat \<Rightarrow> pyfloat \<Rightarrow> bool" where
  "f_lt NaN _ = False"
| "f_lt _ NaN = False"
| "f_lt (Fin a) (Fin b) = (a < b)"
| "f_lt NInf b = (b \<noteq> NInf)"
| "f_lt a PInf = (a \<noteq> PInf)"
| "f_lt _ _ = False"

fun f_eq :: "pyfloat \<Rightarrow> pyfloat \<Rightarrow> bool" where
  "f_eq NaN _ = False"
| "f_eq a b = (a = b)"

definition f_le :: "pyfloat \<Rightarrow> pyfloat \<Rightarrow> bool" where
  "f_le a b = (f_lt a b \<or> f_eq a b)"

definition f_ge :: "pyfloat \<Rightarrow> pyfloat \<Rightarrow> bool" where
  "f_ge a b = f_le b a"

definition f_gt :: "pyfloat \<Rightarrow> pyfloat \<Rightarrow> bool" where
  "f_gt a b = f_lt b a"

fun f_neg :: "pyfloat \<Rightarrow> pyfloat" where
  "f_neg (Fin a) = Fin (- a)"
| "f_neg PInf = NInf"
| "f_neg NInf = PInf"
| "f_neg NaN = NaN"

fun f_add :: "pyfloat \<Rightarrow> pyfloat \<Rightarrow> pyfloat" where
  "f_add NaN _ = NaN"
| "f_add _ NaN = NaN"
| "f_add (Fin a) (Fin b) = Fin (a + b)"
| "f_add PInf NInf = NaN"
| "f_add NInf PInf = NaN"
| "f_add PInf _ = PInf"
| "f_add _ PInf = PInf"
| "f_add NInf _ = NInf"
| "f_add _ NInf = NInf"

definition f_sub :: "pyfloat \<Rightarrow> pyfloat \<Rightarrow> pyfloat" where
  "f_sub a b = f_add a (f_neg b)"

fun f_mul :: "pyfloat \<Rightarrow> pyfloat \<Rightarrow> pyfloat" where
  "f_mul NaN _ = NaN"
| "f_mul _ NaN = NaN"
| "f_mul (Fin a) (Fin b) = Fin (a * b)"
| "f_mul PInf b = (if f_lt (Fin 0) b then PInf else if f_lt b (Fin 0) then NInf else NaN)"
| "f_mul a PInf = (if f_lt (Fin 0) a then PInf else if f_lt a (Fin 0) then NInf else NaN)"
| "f_mul NInf b = (if f_lt (Fin 0) b then NInf else if f_lt b (Fin 0) then PInf else NaN)"
| "f_mul a NInf = (if f_lt (Fin 0) a then NInf else if f_lt a (Fin 0) then PInf else NaN)"

text \<open>Python's two-argument \<open>max\<close>: the second argument only when it is strictly greater.\<close>

definition f_max :: "pyfloat \<Rightarrow> pyfloat \<Rightarrow> pyfloat" where
  "f_max a b = (if f_gt b a then b else a)"

lemma f_le_Fin [simp]: "f_le (Fin a) (Fin b) \<longleftrightarrow> a \<le> b"
  by (auto simp: f_le_def)

lemma f_ge_Fin [simp]: "f_ge (Fin a) (Fin b) \<longleftrightarrow> b \<le> a"
  by (simp add: f_ge_def)

lemma f_gt_Fin [simp]: "f_gt (Fin a) (Fin b) \<longleftrightarrow> b < a"
  by (simp add: f_gt_def)

lemma f_sub_Fin [simp]: "f_sub (Fin a) (Fin b) = Fin (a - b)"
  by (simp add: f_sub_def)

lemma f_max_Fin [simp]: "f_max (Fin a) (Fin b) = Fin (max a b)"
  by (simp add: f_max_def max_def)

lemma f_eq_NaN [simp]: "\<not> f_eq a NaN"
  by (cases a) auto

lemma f_lt_NaN [simp]: "\<not> f_lt a NaN" "\<not> f_lt NaN a"
  by (cases a; simp)+

lemma f_ge_NaN [simp]: "\<not> f_ge a NaN" "\<not> f_ge NaN a"
  by (auto simp: f_ge_def f_le_def)

lemma f_lt_irrefl [simp]: "\<not> f_lt a a"
  by (cases a) auto

text \<open>A \<open>not >=\<close> is not a \<open><\<close> for floats, but \<open><\<close> still excludes \<open>>=\<close>.\<close>

lemma f_lt_not_ge: "f_lt a b \<Longrightarrow> \<not> f_ge a b"
  by (cases a; cases b) (auto simp: f_ge_def f_le_def)

subsection \<open>Rounding\<close>

text \<open>Python's \<open>round(x, n)\<close>: to \<open>n\<close> decimals, ties to even.\<close>

definition round_half_even :: "rat \<Rightarrow> int" where
  "round_half_even x = (let f = \<lfloor>x\<rfloor>; d = x - of_int f in
     if d < 1/2 then f else if 1/2 < d then f + 1 else if even f then f else f + 1)"

text \<open>\<open>int(x)\<close> of a finite float: towards zero.\<close>

definition py_trunc :: "rat \<Rightarrow> int" where
  "py_trunc x = (if 0 \<le> x then \<lfloor>x\<rfloor> else \<lceil>x\<rceil>)"

definition py_round :: "nat \<Rightarrow> rat \<Rightarrow> rat" where
  "py_round n x = of_int (round_half_even (x * 10 ^ n)) / 10 ^ n"

lemma round_half_even_int [simp]: "round_half_even (of_int k) = k"
  by (simp add: round_half_even_def)

lemma round_half_even_close: "\<bar>of_int (round_half_even x) - x\<bar> \<le> 1/2"
proof -
  have "of_int \<lfloor>x\<rfloor> \<le> x" and "x < of_int \<lfloor>x\<rfloor> + 1" by linarith+
  then show ?thesis by (auto simp: round_half_even_def Let_def abs_le_iff)
qed

lemma round_half_even_nonneg: "0 \<le> x \<Longrightarrow> 0 \<le> round_half_even x"
  by (auto simp: round_half_even_def Let_def)

lemma round_half_even_mono:
  assumes "x \<le> y"
  shows "round_half_even x \<le> round_half_even y"
proof (cases "\<lfloor>x\<rfloor> = \<lfloor>y\<rfloor>")
  case True
  with assms show ?thesis by (auto simp: round_half_even_def Let_def)
next
  case False
  with assms have "\<lfloor>x\<rfloor> + 1 \<le> \<lfloor>y\<rfloor>" using floor_mono [OF assms] by linarith
  then show ?thesis by (auto simp: round_half_even_def Let_def)
qed

lemma py_round_mono: "x \<le> y \<Longrightarrow> py_round n x \<le> py_round n y"
  by (simp add: py_round_def divide_right_mono round_half_even_mono mult_right_mono)

lemma py_round_nonneg: "0 \<le> x \<Longrightarrow> 0 \<le> py_round n x"
  by (simp add: py_round_def round_half_even_nonneg)

subsection \<open>JSON values\<close>

text \<open>
  What a \<open>JSONB\<close> column or a \<open>dict[str, Any]\<close> holds. \<open>jget\<close> is \<open>dict.get\<close> with \<open>None\<close> for a missing
  key.
\<close>

datatype json =
    JNull
  | JBool bool
  | JInt int
  | JFloat pyfloat
  | JStr string
  | JList "json list"
  | JObj "(string \<times> json) list"

type_synonym jdict = "(string \<times> json) list"

definition jget :: "jdict \<Rightarrow> string \<Rightarrow> json" where
  "jget d k = (case map_of d k of None \<Rightarrow> JNull | Some v \<Rightarrow> v)"

fun json_truthy :: "json \<Rightarrow> bool" where
  "json_truthy JNull = False"
| "json_truthy (JBool b) = b"
| "json_truthy (JInt n) = (n \<noteq> 0)"
| "json_truthy (JFloat x) = (x \<noteq> Fin 0)"
| "json_truthy (JStr s) = (s \<noteq> [])"
| "json_truthy (JList xs) = (xs \<noteq> [])"
| "json_truthy (JObj d) = (d \<noteq> [])"

subsection \<open>Numbers in text\<close>

text \<open>
  \<open>float(s)\<close> and \<open>int(s)\<close> on a string: surrounding white space, a sign, decimal digits with single
  underscores between them, and for floats a fraction, an exponent, or \<open>inf\<close>, \<open>infinity\<close> and \<open>nan\<close>
  in any case. \<open>None\<close> is \<open>ValueError\<close>.
\<close>

definition is_digit :: "char \<Rightarrow> bool" where
  "is_digit c = (let n = (of_char c :: nat) in 48 \<le> n \<and> n \<le> 57)"

definition digits_value :: "string \<Rightarrow> nat" where
  "digits_value ds = foldl (\<lambda>v c. 10 * v + ((of_char c :: nat) - 48)) 0 ds"

text \<open>Reads a run of digits: the digits without underscores, and what follows them.\<close>

fun read_digits :: "string \<Rightarrow> string \<times> string" where
  "read_digits [] = ([], [])"
| "read_digits [c] = (if is_digit c then ([c], []) else ([], [c]))"
| "read_digits (c # e # s) =
     (if \<not> is_digit c then ([], c # e # s)
      else if e = CHR ''_'' then
        (case s of [] \<Rightarrow> ([c], [e])
         | g # s' \<Rightarrow> if is_digit g then (let (ds, r) = read_digits s in (c # ds, r)) else ([c], e # s))
      else (let (ds, r) = read_digits (e # s) in (c # ds, r)))"

fun read_sign :: "string \<Rightarrow> bool \<times> string" where
  "read_sign (c # s) = (if c = CHR ''-'' then (True, s) else if c = CHR ''+'' then (False, s) else (False, c # s))"
| "read_sign [] = (False, [])"

definition int_of_string :: "string \<Rightarrow> int option" where
  "int_of_string s =
     (let (neg, u) = read_sign (strip s); (ds, r) = read_digits u in
      if ds = [] \<or> r \<noteq> [] then None
      else Some (if neg then - int (digits_value ds) else int (digits_value ds)))"

definition scale10 :: "int \<Rightarrow> rat \<Rightarrow> rat" where
  "scale10 e x = (if 0 \<le> e then x * 10 ^ nat e else x / 10 ^ nat (- e))"

fun read_exponent :: "string \<Rightarrow> int option" where
  "read_exponent [] = Some 0"
| "read_exponent (c # s) =
     (if c \<noteq> CHR ''e'' then None
      else (let (neg, u) = read_sign s; (ds, r) = read_digits u in
            if ds = [] \<or> r \<noteq> [] then None
            else Some (if neg then - int (digits_value ds) else int (digits_value ds))))"

definition float_of_string :: "string \<Rightarrow> pyfloat option" where
  "float_of_string s =
     (let (neg, u) = read_sign (lower (strip s));
          signed = (\<lambda>x. if neg then f_neg x else x)
      in if u = ''inf'' \<or> u = ''infinity'' then Some (signed PInf)
         else if u = ''nan'' then Some NaN
         else
           (let (whole, r) = read_digits u;
                (frac, r') = (case r of c # r1 \<Rightarrow> if c = CHR ''.'' then read_digits r1 else ([], r)
                                      | [] \<Rightarrow> ([], []))
            in if whole = [] \<and> frac = [] then None
               else map_option
                 (\<lambda>e. signed (Fin (scale10 (e - int (length frac)) (of_nat (digits_value (whole @ frac))))))
                 (read_exponent r')))"

subsection \<open>Messages\<close>

datatype piece = S string | I int | F string pyfloat | J json

type_synonym msg = "piece list"

text \<open>A message is truthy when it renders to a non-empty string.\<close>

fun piece_nonempty :: "piece \<Rightarrow> bool" where
  "piece_nonempty (S s) = (s \<noteq> [])"
| "piece_nonempty (J v) = (v \<noteq> JStr [])"
| "piece_nonempty _ = True"

definition msg_truthy :: "msg \<Rightarrow> bool" where
  "msg_truthy m = list_ex piece_nonempty m"

definition msg_or :: "msg \<Rightarrow> msg \<Rightarrow> msg" where
  "msg_or a b = (if msg_truthy a then a else b)"

fun msg_join :: "string \<Rightarrow> msg list \<Rightarrow> msg" where
  "msg_join sep [] = []"
| "msg_join sep [m] = m"
| "msg_join sep (m # ms) = m @ [S sep] @ msg_join sep ms"

subsection \<open>Exceptions\<close>

text \<open>
  The exceptions the modelled code raises or handles. The four lifecycle errors below
  \<open>LifecycleStoreError\<close> are its subclasses in the source; \<open>DatabaseError\<close> stands for whatever the
  driver raises when the database cannot be reached, \<open>IntegrityError\<close> for a violated constraint.
\<close>

datatype exn =
    LifecycleStoreError msg
  | ConcurrentTransitionError msg
  | SleeveNotFoundError msg
  | ChallengerCannotGoLiveError msg
  | LifecycleUnavailableError msg
  | IntegrityError string
  | DatabaseError string
  | ValueError msg
  | TypeError string
  | PermissionError msg
  | HTTPException nat msg

fun exn_text :: "exn \<Rightarrow> msg" where
  "exn_text (LifecycleStoreError m) = m"
| "exn_text (ConcurrentTransitionError m) = m"
| "exn_text (SleeveNotFoundError m) = m"
| "exn_text (ChallengerCannotGoLiveError m) = m"
| "exn_text (LifecycleUnavailableError m) = m"
| "exn_text (IntegrityError s) = [S s]"
| "exn_text (DatabaseError s) = [S s]"
| "exn_text (ValueError m) = m"
| "exn_text (TypeError s) = [S s]"
| "exn_text (PermissionError m) = m"
| "exn_text (HTTPException c m) = [I (int c), S '': ''] @ m"

text \<open>Sequencing of calls that may raise.\<close>

definition bindE :: "exn + 'a \<Rightarrow> ('a \<Rightarrow> exn + 'b) \<Rightarrow> exn + 'b" where
  "bindE m f = (case m of Inl e \<Rightarrow> Inl e | Inr x \<Rightarrow> f x)"

lemma bindE_simps [simp]: "bindE (Inl e) f = Inl e" "bindE (Inr x) f = f x"
  by (simp_all add: bindE_def)

lemma bindE_Inr_iff: "bindE m f = Inr y \<longleftrightarrow> (\<exists>x. m = Inr x \<and> f x = Inr y)"
  by (cases m) auto

subsection \<open>Tables\<close>

text \<open>
  A database table is a list of rows in insertion order. \<open>update_where\<close> is an SQL \<open>UPDATE\<close>,
  \<open>rowcount\<close> the number of rows it touched.
\<close>

definition update_where :: "('r \<Rightarrow> bool) \<Rightarrow> ('r \<Rightarrow> 'r) \<Rightarrow> 'r list \<Rightarrow> 'r list" where
  "update_where p f rs = map (\<lambda>r. if p r then f r else r) rs"

definition rowcount :: "('r \<Rightarrow> bool) \<Rightarrow> 'r list \<Rightarrow> nat" where
  "rowcount p rs = length (filter p rs)"

lemma set_update_where [table_simps]:
  "set (update_where p f rs) = f ` {r \<in> set rs. p r} \<union> {r \<in> set rs. \<not> p r}"
  by (auto simp: update_where_def)

lemma map_update_where [table_simps]:
  "(\<And>r. p r \<Longrightarrow> k (f r) = k r) \<Longrightarrow> map k (update_where p f rs) = map k rs"
  by (auto simp: update_where_def)

lemma length_update_where [simp]: "length (update_where p f rs) = length rs"
  by (simp add: update_where_def)

lemma find_Some_mem: "find p rs = Some r \<Longrightarrow> r \<in> set rs \<and> p r"
  by (metis find_Some_iff nth_mem)

lemma find_key:
  assumes "distinct (map k rs)" and "r \<in> set rs"
  shows "find (\<lambda>x. k x = k r) rs = Some r"
  using assms by (induction rs) auto

lemma find_key_eq:
  assumes "distinct (map k rs)"
  shows "find (\<lambda>x. k x = v) rs = Some r \<longleftrightarrow> r \<in> set rs \<and> k r = v"
  using find_key [OF assms] find_Some_mem [of "\<lambda>x. k x = v" rs r] by auto

lemma filter_key:
  assumes "distinct (map k rs)" and "r \<in> set rs"
  shows "filter (\<lambda>x. k x = k r) rs = [r]"
  using assms by (induction rs) (auto simp: filter_empty_conv image_iff)

lemma rowcount_key:
  assumes d: "distinct (map k rs)" and r: "r \<in> set rs" and "p r"
    and sub: "\<And>x. p x \<Longrightarrow> k x = k r"
  shows "rowcount p rs = 1"
proof -
  have "filter p rs = filter p (filter (\<lambda>x. k x = k r) rs)"
    using sub by (auto simp: filter_filter intro: filter_cong)
  also have "\<dots> = [r]" using filter_key [OF d r] \<open>p r\<close> by simp
  finally show ?thesis by (simp add: rowcount_def)
qed

lemma rowcount_pos: "0 < rowcount p rs \<longleftrightarrow> (\<exists>r \<in> set rs. p r)"
  by (induction rs) (auto simp: rowcount_def)

subsection \<open>Dictionaries\<close>

text \<open>
  A Python \<open>dict\<close> whose iteration order matters is an association list in insertion order with
  distinct keys: \<open>d[k] = v\<close> is \<open>AList.update\<close>, \<open>d.pop(k, None)\<close> is \<open>AList.delete\<close>, \<open>d.get(k)\<close> is
  \<open>map_of\<close>.
\<close>

definition sum_values :: "('v \<Rightarrow> rat) \<Rightarrow> ('k \<times> 'v) list \<Rightarrow> rat" where
  "sum_values w xs = sum_list (map (\<lambda>kv. w (snd kv)) xs)"

lemma sum_values_simps [simp]:
  "sum_values w [] = 0"
  "sum_values w ((k, v) # xs) = w v + sum_values w xs"
  by (simp_all add: sum_values_def)

lemma sum_values_update:
  "sum_values w (AList.update a v xs)
     = sum_values w xs - (case map_of xs a of None \<Rightarrow> 0 | Some u \<Rightarrow> w u) + w v"
  by (induction xs) auto

lemma sum_values_delete:
  "distinct (map fst xs) \<Longrightarrow>
   sum_values w (AList.delete a xs)
     = sum_values w xs - (case map_of xs a of None \<Rightarrow> 0 | Some u \<Rightarrow> w u)"
proof (induction xs)
  case Nil
  then show ?case by simp
next
  case (Cons kv xs)
  show ?case
  proof (cases "fst kv = a")
    case True
    with Cons.prems have "map_of xs a = None"
      by (auto simp: map_of_eq_None_iff image_iff)
    with True Cons show ?thesis by (cases kv) simp
  next
    case False
    with Cons show ?thesis by (cases kv) auto
  qed
qed

lemma alist_update_mem: "(k, v) \<in> set (AList.update a x xs) \<Longrightarrow> (k, v) = (a, x) \<or> (k, v) \<in> set xs"
  by (induction xs) (auto split: if_splits)

lemma alist_delete_mem: "(k, v) \<in> set (AList.delete a xs) \<Longrightarrow> (k, v) \<in> set xs"
  by (auto simp: AList.delete_eq)

text \<open>Reading back a dictionary entry by entry.\<close>

lemma fold_update_distinct:
  "distinct (map fst (ys @ xs)) \<Longrightarrow> fold (\<lambda>(k, v). AList.update k v) xs ys = ys @ xs"
proof (induction xs arbitrary: ys)
  case (Cons kv xs)
  have "AList.update (fst kv) (snd kv) ys = ys @ [kv]"
    using Cons.prems by (induction ys) (auto simp: AList.update_conv')
  with Cons.IH [of "ys @ [kv]"] Cons.prems show ?case by (simp add: case_prod_unfold)
qed simp

subsection \<open>State machines\<close>

inductive reach :: "('s \<Rightarrow> bool) \<Rightarrow> ('s \<Rightarrow> 's \<Rightarrow> bool) \<Rightarrow> 's \<Rightarrow> bool" for init step where
  reach_init: "init s \<Longrightarrow> reach init step s"
| reach_step: "reach init step s \<Longrightarrow> step s t \<Longrightarrow> reach init step t"

text \<open>
  The contract under which a predicate is an invariant of a machine. Each stateful component
  below interprets it on its own initial states and step relation.
\<close>

locale invariant_system =
  fixes init :: "'s \<Rightarrow> bool"
    and step :: "'s \<Rightarrow> 's \<Rightarrow> bool"
    and inv :: "'s \<Rightarrow> bool"
  assumes init_inv: "init s \<Longrightarrow> inv s"
    and step_inv: "inv s \<Longrightarrow> step s t \<Longrightarrow> inv t"
begin

lemma reach_inv: "reach init step s \<Longrightarrow> inv s"
  by (induction rule: reach.induct) (blast intro: init_inv step_inv)+

lemma steps_inv: "step\<^sup>*\<^sup>* s t \<Longrightarrow> inv s \<Longrightarrow> inv t"
  by (induction rule: rtranclp_induct) (blast intro: step_inv)+

end

end
