(* ===== verification/Round_Trips.thy ===== *)
theory Round_Trips
  imports Prelude "HOL-Library.Multiset"
begin

text \<open>
  \<open>libs/attribution/src/attribution/roundtrips.py\<close>, the legs and round trips of \<open>models.py\<close>, and
  \<open>realized_series\<close> and \<open>performance_from_trades\<close> of \<open>report.py\<close>: from execution records to realised
  round trips and their figures. Quantities and prices are finite, so they are rationals. The
  square root that the figures take, \<open>x ** 0.5\<close> in floating point, is a parameter \<open>half_pow\<close>.
\<close>

subsection \<open>Data\<close>

text \<open>One execution record, as \<open>execution_rows\<close> returns it (the fields the pairing reads).\<close>

record exec_row =
  er_order_id :: string
  er_symbol :: string
  er_side :: string
  er_qty :: "rat option"
  er_filled_qty :: "rat option"
  er_strategy_id :: string
  er_strategy_version :: string
  er_environment :: string
  er_account_id :: string
  er_decision_price :: "rat option"
  er_fill_price :: "rat option"
  er_fees :: "rat option"
  er_filled :: bool
  er_outcome :: msg
  er_recorded_at :: instant

record leg =
  lg_side :: string
  lg_qty :: rat
  lg_decision_price :: "rat option"
  lg_fill_price :: "rat option"
  lg_at :: instant
  lg_fees :: rat
  lg_order_id :: string
  lg_outcome :: msg

definition leg_usable :: "leg \<Rightarrow> bool" where
  "leg_usable l = (case lg_fill_price l of None \<Rightarrow> False | Some p \<Rightarrow> 0 < p)"

type_synonym trip_scope = "string \<times> string \<times> string \<times> string \<times> string"

record round_trip =
  rt_scope :: trip_scope
  rt_entry :: leg
  rt_exit :: leg
  rt_qty :: rat

definition trip_direction :: "round_trip \<Rightarrow> rat" where
  "trip_direction t = (if upper (lg_side (rt_entry t)) = ''BUY'' then 1 else -1)"

definition realized_per_share :: "round_trip \<Rightarrow> rat option" where
  "realized_per_share t =
     (case (lg_fill_price (rt_entry t), lg_fill_price (rt_exit t)) of
        (Some pe, Some px) \<Rightarrow>
          if leg_usable (rt_entry t) \<and> leg_usable (rt_exit t) then Some (trip_direction t * (px - pe)) else None
      | _ \<Rightarrow> None)"

definition realized :: "round_trip \<Rightarrow> rat option" where
  "realized t = (case realized_per_share t of None \<Rightarrow> None | Some p \<Rightarrow> Some (p * rt_qty t))"

subsection \<open>Pairing\<close>

text \<open>\<open>a or b or 0.0\<close> on optional numbers: None and zero are both falsy.\<close>

definition num_or :: "rat option \<Rightarrow> rat \<Rightarrow> rat" where
  "num_or a b = (case a of None \<Rightarrow> b | Some x \<Rightarrow> if x = 0 then b else x)"

definition leg_of :: "exec_row \<Rightarrow> leg" where
  "leg_of r = \<lparr>lg_side = upper (er_side r), lg_qty = num_or (er_filled_qty r) (num_or (er_qty r) 0),
     lg_decision_price = er_decision_price r, lg_fill_price = er_fill_price r, lg_at = er_recorded_at r,
     lg_fees = num_or (er_fees r) 0, lg_order_id = er_order_id r, lg_outcome = er_outcome r\<rparr>"

definition side_direction :: "string \<Rightarrow> rat option" where
  "side_direction s = (if s = ''BUY'' then Some 1 else if s = ''SELL'' then Some (-1) else None)"

definition scope_of :: "exec_row \<Rightarrow> trip_scope" where
  "scope_of r = (er_strategy_id r, er_strategy_version r, upper (er_symbol r), er_environment r, er_account_id r)"

definition eligible :: "exec_row \<Rightarrow> bool" where
  "eligible r = (er_filled r \<and> er_fill_price r \<noteq> None \<and> er_fill_price r \<noteq> Some 0)"

text \<open>\<open>groups[key].append(row)\<close> on a \<open>defaultdict(list)\<close>, which keeps insertion order.\<close>

fun push :: "'k \<Rightarrow> 'v \<Rightarrow> ('k \<times> 'v list) list \<Rightarrow> ('k \<times> 'v list) list" where
  "push k v [] = [(k, [v])]"
| "push k v ((k', vs) # gs) = (if k = k' then (k', vs @ [v]) # gs else (k', vs) # push k v gs)"

definition group_rows :: "exec_row list \<Rightarrow> (trip_scope \<times> exec_row list) list" where
  "group_rows rows = fold (\<lambda>r gs. if eligible r then push (scope_of r) r gs else gs) rows []"

text \<open>The inner \<open>while\<close>: an opposing fill nets against the open lots, oldest first. It returns the
  trips, what remains of the fill and the lots that stay open.\<close>

function net :: "trip_scope \<Rightarrow> leg \<Rightarrow> rat \<Rightarrow> (leg \<times> rat) list \<Rightarrow> round_trip list \<times> rat \<times> (leg \<times> rat) list" where
  "net sc x remaining [] = ([], remaining, [])"
| "net sc x remaining ((e, avail) # os) =
     (if remaining \<le> 0 then ([], remaining, (e, avail) # os)
      else
        (let matched = min avail remaining;
             trip = \<lparr>rt_scope = sc, rt_entry = e, rt_exit = x, rt_qty = matched\<rparr>;
             (ts, rest, os') =
               (if avail - matched \<le> 0 then net sc x (remaining - matched) os
                else net sc x (remaining - matched) ((e, avail - matched) # os))
         in (trip # ts, rest, os')))"
  by pat_completeness auto
termination
  by (relation "measures [\<lambda>(_, _, _, os). length os, \<lambda>(_, _, r, _). if 0 < r then 1 else 0]")
    (auto simp: min_def split: if_splits)

type_synonym pairing = "round_trip list \<times> (leg \<times> rat) list \<times> rat"

definition fill_step :: "trip_scope \<Rightarrow> exec_row \<Rightarrow> pairing \<Rightarrow> pairing" where
  "fill_step sc row st =
     (case st of (trips, open_legs, open_direction) \<Rightarrow>
       (let x = leg_of row in
        if lg_qty x \<le> 0 then st
        else
          (case side_direction (lg_side x) of
             None \<Rightarrow> st
           | Some leg_direction \<Rightarrow>
               (let (ts, remaining, os) =
                      (if leg_direction = - open_direction then net sc x (lg_qty x) open_legs
                       else ([], lg_qty x, open_legs))
                in if 0 < remaining then (trips @ ts, os @ [(x, remaining)], leg_direction)
                   else if os = [] then (trips @ ts, os, 0)
                   else (trips @ ts, os, open_direction)))))"

definition pair_scope :: "trip_scope \<Rightarrow> exec_row list \<Rightarrow> pairing" where
  "pair_scope sc rows = fold (fill_step sc) (sort_key er_recorded_at rows) ([], [], 0)"

definition pair_round_trips :: "exec_row list \<Rightarrow> round_trip list" where
  "pair_round_trips rows =
     sort_key (\<lambda>t. lg_at (rt_exit t)) (concat (map (\<lambda>(sc, rs). fst (pair_scope sc rs)) (group_rows rows)))"

subsection \<open>Figures\<close>

definition realized_series :: "round_trip list \<Rightarrow> rat list" where
  "realized_series trips = List.map_filter realized (sort_key (\<lambda>t. lg_at (rt_exit t)) trips)"

definition MIN_SPAN_DAYS_TO_ANNUALISE :: rat where
  "MIN_SPAN_DAYS_TO_ANNUALISE = 5"

definition DAYS_PER_YEAR :: rat where
  "DAYS_PER_YEAR = 36525 / 100"

record performance =
  pf_trades :: nat
  pf_realized_total :: rat
  pf_sharpe :: "rat option"
  pf_sharpe_annualised :: "rat option"
  pf_sharpe_annualised_std_error :: "rat option"
  pf_trades_per_year :: "rat option"
  pf_span_days :: "rat option"
  pf_max_drawdown_amount :: "rat option"
  pf_max_cumulative_loss :: "rat option"
  pf_max_drawdown_pct :: "rat option"
  pf_win_rate :: "rat option"

text \<open>The loop over the series: (equity, peak, worst, trough).\<close>

fun drawdown_loop :: "rat list \<Rightarrow> rat \<times> rat \<times> rat \<times> rat \<Rightarrow> rat \<times> rat \<times> rat \<times> rat" where
  "drawdown_loop [] st = st"
| "drawdown_loop (v # vs) (equity, peak, worst, trough) =
     (let equity' = equity + v; peak' = max peak equity'
      in drawdown_loop vs (equity', peak', max worst (peak' - equity'), min trough equity'))"

definition annualised :: "(rat \<Rightarrow> rat) \<Rightarrow> round_trip list \<Rightarrow> rat option \<Rightarrow> nat
    \<Rightarrow> rat option \<times> rat option \<times> rat option \<times> rat option" where
  "annualised half_pow trips per_trade_sharpe n =
     (case per_trade_sharpe of
        None \<Rightarrow> (None, None, None, None)
      | Some sharpe \<Rightarrow>
          if n < 2 then (None, None, None, None)
          else
            (let exits = sort (map (\<lambda>t. lg_at (rt_exit t)) (filter (\<lambda>t. realized t \<noteq> None) trips)) in
             if length exits < 2 then (None, None, None, None)
             else
               (let span_days = total_seconds (last exits - hd exits) / 86400 in
                if span_days < MIN_SPAN_DAYS_TO_ANNUALISE then (None, None, None, Some (py_round 3 span_days))
                else
                  (let trades_per_year = (of_nat n - 1) * DAYS_PER_YEAR / span_days;
                       r = half_pow trades_per_year;
                       std_error = half_pow ((1 + sharpe ^ 2 / 2) / of_nat n)
                   in (Some (py_round 4 (sharpe * r)), Some (py_round 4 (std_error * r)),
                       Some (py_round 2 trades_per_year), Some (py_round 3 span_days))))))"

text \<open>\<open>if capital_base and capital_base > 0: round(worst / capital_base, 6)\<close>.\<close>

fun drawdown_fraction :: "rat \<Rightarrow> pyfloat option \<Rightarrow> rat option" where
  "drawdown_fraction worst (Some (Fin c)) = (if 0 < c then Some (py_round 6 (worst / c)) else None)"
| "drawdown_fraction worst (Some PInf) = Some 0"
| "drawdown_fraction worst _ = None"

definition performance_from_trades :: "(rat \<Rightarrow> rat) \<Rightarrow> round_trip list \<Rightarrow> pyfloat option \<Rightarrow> performance" where
  "performance_from_trades half_pow trips capital_base =
     (let series = realized_series trips; n = length series;
          blank = \<lparr>pf_trades = n, pf_realized_total = (if series = [] then 0 else py_round 4 (sum_list series)),
            pf_sharpe = None, pf_sharpe_annualised = None, pf_sharpe_annualised_std_error = None,
            pf_trades_per_year = None, pf_span_days = None, pf_max_drawdown_amount = None,
            pf_max_cumulative_loss = None, pf_max_drawdown_pct = None, pf_win_rate = None\<rparr>
      in if n < 2 then blank
         else
           (let mean = sum_list series / of_nat n;
                variance = sum_list (map (\<lambda>v. (v - mean) ^ 2) series) / of_nat n;
                deviation = half_pow variance;
                sharpe = (if 0 < deviation then Some (py_round 4 (mean / deviation)) else None);
                (equity, peak, worst, trough) = drawdown_loop series (0, 0, 0, 0);
                (ann, err, tpy, span) = annualised half_pow trips sharpe n
            in blank\<lparr>pf_sharpe := sharpe, pf_max_drawdown_amount := Some (py_round 4 worst),
                 pf_max_cumulative_loss := Some (py_round 4 trough),
                 pf_max_drawdown_pct := drawdown_fraction worst capital_base,
                 pf_win_rate := Some (py_round 4 (of_nat (length (filter (\<lambda>v. 0 < v) series)) / of_nat n)),
                 pf_sharpe_annualised := ann, pf_sharpe_annualised_std_error := err,
                 pf_trades_per_year := tpy, pf_span_days := span\<rparr>))"

subsection \<open>Conservation\<close>

text \<open>The legs the pairing works with: a positive quantity and a known side.\<close>

definition leg_dir :: "leg \<Rightarrow> rat" where
  "leg_dir l = (case side_direction (lg_side l) of None \<Rightarrow> 0 | Some d \<Rightarrow> d)"

definition accepted :: "exec_row \<Rightarrow> bool" where
  "accepted r = (0 < lg_qty (leg_of r) \<and> side_direction (lg_side (leg_of r)) \<noteq> None)"

text \<open>Sums of a per-unit weight over fills, over matched trips (both legs) and over open lots.\<close>

definition fills_weight :: "(leg \<Rightarrow> rat) \<Rightarrow> exec_row list \<Rightarrow> rat" where
  "fills_weight g rows = (\<Sum>r \<leftarrow> rows. if accepted r then g (leg_of r) * lg_qty (leg_of r) else 0)"

definition trips_weight :: "(leg \<Rightarrow> rat) \<Rightarrow> round_trip list \<Rightarrow> rat" where
  "trips_weight g ts = (\<Sum>t \<leftarrow> ts. (g (rt_entry t) + g (rt_exit t)) * rt_qty t)"

definition open_weight :: "(leg \<Rightarrow> rat) \<Rightarrow> (leg \<times> rat) list \<Rightarrow> rat" where
  "open_weight g os = (\<Sum>(l, q) \<leftarrow> os. g l * q)"

lemma weights_simps [simp]:
  "trips_weight g [] = 0" "trips_weight g (t # ts) = (g (rt_entry t) + g (rt_exit t)) * rt_qty t + trips_weight g ts"
  "trips_weight g (ts @ us) = trips_weight g ts + trips_weight g us"
  "open_weight g [] = 0" "open_weight g ((l, q) # os) = g l * q + open_weight g os"
  "open_weight g (os @ ps) = open_weight g os + open_weight g ps"
  "fills_weight g [] = 0"
  "fills_weight g (r # rs) = (if accepted r then g (leg_of r) * lg_qty (leg_of r) else 0) + fills_weight g rs"
  by (simp_all add: trips_weight_def open_weight_def fills_weight_def)

text \<open>Netting one fill conserves every weight.\<close>

lemma net_conserves:
  "net sc x q os = (ts, rest, os') \<Longrightarrow>
     g x * q + open_weight g os = trips_weight g ts + g x * rest + open_weight g os'"
proof (induction sc x q os arbitrary: ts rest os' rule: net.induct)
  case (1 sc x q)
  then show ?case by simp
next
  case (2 sc x q e avail os)
  show ?case
  proof (cases "q \<le> 0")
    case True
    with 2(3) show ?thesis by simp
  next
    case False
    let ?m = "min avail q"
    let ?os = "if avail - ?m \<le> 0 then os else (e, avail - ?m) # os"
    obtain ts1 where ts: "ts = \<lparr>rt_scope = sc, rt_entry = e, rt_exit = x, rt_qty = ?m\<rparr> # ts1"
      and n: "net sc x (q - ?m) ?os = (ts1, rest, os')"
      using 2(3) False by (auto simp: Let_def split: prod.splits if_splits)
    have "g x * (q - ?m) + open_weight g ?os = trips_weight g ts1 + g x * rest + open_weight g os'"
      using 2(1,2) False n by (cases "avail - ?m \<le> 0") auto
    moreover have "open_weight g ?os = g e * (avail - ?m) + open_weight g os" by (auto simp: min_def)
    ultimately show ?thesis by (simp add: ts algebra_simps)
  qed
qed

text \<open>A fill is never consumed beyond its quantity.\<close>

lemma net_rest: "net sc x q os = (ts, rest, os') \<Longrightarrow> 0 \<le> q \<Longrightarrow> 0 \<le> rest"
  by (induction sc x q os arbitrary: ts rest os' rule: net.induct)
    (auto simp: Let_def split: prod.splits if_splits)

lemma fill_step_conserves:
  assumes "fill_step sc r (trips, os, dir) = (trips', os', dir')"
  shows "trips_weight g trips' + open_weight g os' =
    trips_weight g trips + open_weight g os + (if accepted r then g (leg_of r) * lg_qty (leg_of r) else 0)"
proof (cases "accepted r")
  case False
  with assms show ?thesis by (auto simp: fill_step_def accepted_def Let_def split: if_splits option.splits)
next
  case True
  let ?x = "leg_of r"
  let ?n = "\<lambda>d. if d = - dir then net sc ?x (lg_qty ?x) os else ([], lg_qty ?x, os)"
  from True obtain d where d: "side_direction (lg_side ?x) = Some d" "0 < lg_qty ?x" by (auto simp: accepted_def)
  obtain ts rest os1 where n: "?n d = (ts, rest, os1)" by (metis prod_cases3)
  have c: "g ?x * lg_qty ?x + open_weight g os = trips_weight g ts + g ?x * rest + open_weight g os1"
    using n net_conserves [of sc ?x "lg_qty ?x" os ts rest os1 g] by (auto split: if_splits)
  have r0: "rest = 0" if "\<not> 0 < rest" using n d(2) that net_rest [of sc ?x "lg_qty ?x" os ts rest os1] by (auto split: if_splits)
  from assms d n have "trips' = trips @ ts" "os' = (if 0 < rest then os1 @ [(?x, rest)] else os1)"
    by (auto simp: fill_step_def Let_def split: if_splits)
  with c r0 True show ?thesis by auto
qed

lemma fold_conserves:
  "fold (fill_step sc) rows st = st' \<Longrightarrow>
     trips_weight g (fst st') + open_weight g (fst (snd st')) =
     trips_weight g (fst st) + open_weight g (fst (snd st)) + fills_weight g rows"
proof (induction rows arbitrary: st)
  case Nil
  then show ?case by simp
next
  case (Cons r rows)
  obtain trips os dir where st: "st = (trips, os, dir)" by (cases st)
  obtain trips1 os1 dir1 where st1: "fill_step sc r st = (trips1, os1, dir1)" by (metis prod_cases3)
  from Cons.IH [of "fill_step sc r st"] Cons.prems fill_step_conserves [OF st1 [unfolded st], of g]
  show ?case by (simp add: st1) (simp add: st)
qed

lemma fills_weight_mset: "fills_weight g rows = (\<Sum>r \<in># mset rows. if accepted r then g (leg_of r) * lg_qty (leg_of r) else 0)"
  by (simp only: fills_weight_def sum_mset_sum_list [symmetric] mset_map)

lemma pair_scope_conserves:
  "trips_weight g (fst (pair_scope sc rows)) + open_weight g (fst (snd (pair_scope sc rows))) = fills_weight g rows"
  using fold_conserves [OF refl, where sc = sc and rows = "sort_key er_recorded_at rows" and st = "([], [], 0)" and g = g]
  by (simp add: pair_scope_def fills_weight_mset)

text \<open>Grouping partitions the eligible rows.\<close>

lemma push_weight:
  "(\<Sum>(k, vs) \<leftarrow> push k v gs. fills_weight g vs) = fills_weight g [v] + (\<Sum>(k, vs) \<leftarrow> gs. fills_weight g vs)"
  by (induction k v gs rule: push.induct) (auto simp: fills_weight_def)

lemma group_weight:
  "(\<Sum>(k, vs) \<leftarrow> group_rows rows. fills_weight g vs) = fills_weight g (filter eligible rows)"
proof -
  have "(\<Sum>(k, vs) \<leftarrow> fold (\<lambda>r gs. if eligible r then push (scope_of r) r gs else gs) rows gs. fills_weight g vs)
      = (\<Sum>(k, vs) \<leftarrow> gs. fills_weight g vs) + fills_weight g (filter eligible rows)" for gs
    by (induction rows arbitrary: gs) (auto simp: push_weight)
  from this [of "[]"] show ?thesis by (simp add: group_rows_def)
qed

text \<open>The lots that are open when the rows end.\<close>

definition leftover :: "exec_row list \<Rightarrow> (leg \<times> rat) list" where
  "leftover rows = concat (map (\<lambda>(sc, rs). fst (snd (pair_scope sc rs))) (group_rows rows))"

lemma trips_weight_mset: "trips_weight g ts = (\<Sum>t \<in># mset ts. (g (rt_entry t) + g (rt_exit t)) * rt_qty t)"
  by (simp only: trips_weight_def sum_mset_sum_list [symmetric] mset_map)

lemma trips_weight_concat:
  "trips_weight g (concat tss) = (\<Sum>ts \<leftarrow> tss. trips_weight g ts)"
  "open_weight g (concat oss) = (\<Sum>os \<leftarrow> oss. open_weight g os)"
  by (induction tss) (auto, induction oss, auto)

lemma pairing_conserves:
  "trips_weight g (pair_round_trips rows) + open_weight g (leftover rows) = fills_weight g (filter eligible rows)"
proof -
  have "trips_weight g (pair_round_trips rows)
      = trips_weight g (concat (map (\<lambda>(sc, rs). fst (pair_scope sc rs)) (group_rows rows)))"
    by (simp only: trips_weight_mset pair_round_trips_def mset_sort)
  then have "trips_weight g (pair_round_trips rows)
      = (\<Sum>(sc, rs) \<leftarrow> group_rows rows. trips_weight g (fst (pair_scope sc rs)))"
    by (simp add: trips_weight_concat comp_def case_prod_unfold)
  moreover have "open_weight g (leftover rows)
      = (\<Sum>(sc, rs) \<leftarrow> group_rows rows. open_weight g (fst (snd (pair_scope sc rs))))"
    by (simp add: leftover_def trips_weight_concat comp_def case_prod_unfold)
  moreover have "(\<Sum>(sc, rs) \<leftarrow> gs. trips_weight g (fst (pair_scope sc rs))) +
      (\<Sum>(sc, rs) \<leftarrow> gs. open_weight g (fst (snd (pair_scope sc rs)))) = (\<Sum>(sc, rs) \<leftarrow> gs. fills_weight g rs)" for gs
  proof (induction gs)
    case (Cons p gs)
    then show ?case using pair_scope_conserves [of g "fst p" "snd p"] by (simp add: case_prod_unfold)
  qed simp
  ultimately show ?thesis by (simp add: group_weight)
qed

subsection \<open>Every trip is a real one\<close>

text \<open>
  A state of one scope's pairing that is right: the open lots are positive parts of fills already
  seen, all of the open direction; every trip pairs an earlier fill with a later one of the other
  side, both from this scope.
\<close>

definition trip_ok :: "trip_scope \<Rightarrow> exec_row set \<Rightarrow> round_trip \<Rightarrow> bool" where
  "trip_ok sc R t = (rt_scope t = sc \<and> 0 < rt_qty t \<and> leg_dir (rt_exit t) = - leg_dir (rt_entry t) \<and>
     leg_dir (rt_entry t) \<noteq> 0 \<and> lg_at (rt_entry t) \<le> lg_at (rt_exit t) \<and>
     (\<exists>e \<in> R. \<exists>x \<in> R. accepted e \<and> accepted x \<and> rt_entry t = leg_of e \<and> rt_exit t = leg_of x))"

definition lot_ok :: "exec_row set \<Rightarrow> rat \<Rightarrow> instant \<Rightarrow> leg \<times> rat \<Rightarrow> bool" where
  "lot_ok R dir now lot = (0 < snd lot \<and> leg_dir (fst lot) = dir \<and> dir \<noteq> 0 \<and> lg_at (fst lot) \<le> now \<and>
     (\<exists>e \<in> R. accepted e \<and> fst lot = leg_of e))"

lemma net_ok:
  assumes "net sc x q os = (ts, rest, os')"
    and "\<forall>lot \<in> set os. lot_ok R dir (lg_at x) lot" and "leg_dir x = - dir"
    and "r \<in> R" and "accepted r" and "x = leg_of r"
  shows "(\<forall>t \<in> set ts. trip_ok sc R t) \<and> (\<forall>lot \<in> set os'. lot_ok R dir (lg_at x) lot) \<and>
    (0 < rest \<longrightarrow> os' = [])"
  using assms
proof (induction sc x q os arbitrary: ts rest os' rule: net.induct)
  case (1 sc x q)
  then show ?case by simp
next
  case (2 sc x q e avail os)
  show ?case
  proof (cases "q \<le> 0")
    case True
    with 2 show ?thesis by simp
  next
    case False
    let ?m = "min avail q"
    let ?os = "if avail - ?m \<le> 0 then os else (e, avail - ?m) # os"
    let ?t = "\<lparr>rt_scope = sc, rt_entry = e, rt_exit = x, rt_qty = ?m\<rparr>"
    obtain ts1 where ts: "ts = ?t # ts1" and n: "net sc x (q - ?m) ?os = (ts1, rest, os')"
      using 2(3) False by (auto simp: Let_def split: prod.splits if_splits)
    have lot: "lot_ok R dir (lg_at x) (e, avail)" and lots: "\<forall>lot \<in> set ?os. lot_ok R dir (lg_at x) lot"
      using 2(4) by (auto simp: lot_ok_def)
    have "trip_ok sc R ?t"
      using lot False 2(5-8) by (auto simp: trip_ok_def lot_ok_def)
    moreover have "(\<forall>t \<in> set ts1. trip_ok sc R t) \<and> (\<forall>lot \<in> set os'. lot_ok R dir (lg_at x) lot) \<and>
        (0 < rest \<longrightarrow> os' = [])"
    proof (cases "avail - ?m \<le> 0")
      case True
      with 2(1) [OF False refl refl True] n lots 2(5-8) show ?thesis by simp
    next
      case nz: False
      with 2(2) [OF False refl refl nz] n lots 2(5-8) show ?thesis by simp
    qed
    ultimately show ?thesis by (simp add: ts)
  qed
qed

definition pairing_ok :: "trip_scope \<Rightarrow> exec_row set \<Rightarrow> instant \<Rightarrow> pairing \<Rightarrow> bool" where
  "pairing_ok sc R now st = (case st of (trips, os, dir) \<Rightarrow>
     (\<forall>t \<in> set trips. trip_ok sc R t) \<and> (\<forall>lot \<in> set os. lot_ok R dir now lot) \<and> (os = [] \<longrightarrow> dir = 0))"

lemma lot_ok_later: "lot_ok R dir now lot \<Longrightarrow> now \<le> now' \<Longrightarrow> lot_ok R dir now' lot"
  by (auto simp: lot_ok_def)

lemma fill_step_ok:
  assumes ok: "pairing_ok sc R now st" and r: "r \<in> R" and at: "now \<le> er_recorded_at r"
  shows "pairing_ok sc R (er_recorded_at r) (fill_step sc r st)"
proof -
  let ?x = "leg_of r"
  obtain trips os dir where st: "st = (trips, os, dir)" by (cases st)
  have x_at: "lg_at ?x = er_recorded_at r" by (simp add: leg_of_def)
  have lots: "\<forall>lot \<in> set os. lot_ok R dir (er_recorded_at r) lot" and flat: "os = [] \<longrightarrow> dir = 0"
    and trips: "\<forall>t \<in> set trips. trip_ok sc R t"
    using ok at by (auto simp: pairing_ok_def st intro: lot_ok_later)
  show ?thesis
  proof (cases "accepted r")
    case False
    with lots flat trips show ?thesis
      by (auto simp: pairing_ok_def st fill_step_def accepted_def Let_def split: if_splits option.splits)
  next
    case True
    then obtain d where d: "side_direction (lg_side ?x) = Some d" "0 < lg_qty ?x" by (auto simp: accepted_def)
    then have dx: "leg_dir ?x = d" "d = 1 \<or> d = -1" by (auto simp: leg_dir_def side_direction_def split: if_splits)
    have dir: "dir = 1 \<or> dir = -1" if "os \<noteq> []"
    proof -
      obtain lot where "lot \<in> set os" using \<open>os \<noteq> []\<close> by (cases os) auto
      with lots have "leg_dir (fst lot) = dir" "dir \<noteq> 0" by (auto simp: lot_ok_def)
      then show ?thesis by (auto simp: leg_dir_def side_direction_def split: if_splits option.splits)
    qed
    have new: "lot_ok R d (er_recorded_at r) (?x, q)" if "0 < q" for q
      using that r True dx x_at by (auto simp: lot_ok_def)
    show ?thesis
    proof (cases "d = - dir")
      case True
      obtain ts rest os1 where n: "net sc ?x (lg_qty ?x) os = (ts, rest, os1)" by (metis prod_cases3)
      from net_ok [OF n, of R dir r] lots x_at dx True r \<open>accepted r\<close>
      have "(\<forall>t \<in> set ts. trip_ok sc R t)" "(\<forall>lot \<in> set os1. lot_ok R dir (er_recorded_at r) lot)"
        "0 < rest \<longrightarrow> os1 = []" by auto
      with trips flat new [of rest] d True n show ?thesis
        by (auto simp: pairing_ok_def st fill_step_def Let_def)
    next
      case False
      with dx dir have "os = [] \<or> d = dir" by (cases "os = []") auto
      with False trips lots flat new [of "lg_qty ?x"] d show ?thesis
        by (auto simp: pairing_ok_def st fill_step_def Let_def)
    qed
  qed
qed

lemma fold_ok:
  "pairing_ok sc R now st \<Longrightarrow> sorted (map er_recorded_at rows) \<Longrightarrow> set rows \<subseteq> R \<Longrightarrow>
     (\<forall>r \<in> set rows. now \<le> er_recorded_at r) \<Longrightarrow> \<exists>now'. pairing_ok sc R now' (fold (fill_step sc) rows st)"
proof (induction rows arbitrary: now st)
  case Nil
  then show ?case by auto
next
  case (Cons r rows)
  from Cons.IH [OF fill_step_ok [OF Cons.prems(1)]] Cons.prems show ?case by simp
qed

lemma pair_scope_ok: "t \<in> set (fst (pair_scope sc rows)) \<Longrightarrow> trip_ok sc (set rows) t"
proof -
  assume t: "t \<in> set (fst (pair_scope sc rows))"
  let ?rows = "sort_key er_recorded_at rows"
  let ?now = "if rows = [] then 0 else Min (er_recorded_at ` set rows)"
  have "pairing_ok sc (set rows) ?now ([], [], 0)" by (simp add: pairing_ok_def)
  moreover have "\<forall>r \<in> set ?rows. ?now \<le> er_recorded_at r" by auto
  ultimately obtain now' where "pairing_ok sc (set rows) now' (pair_scope sc rows)"
    unfolding pair_scope_def using fold_ok [of sc "set rows" ?now "([], [], 0)" ?rows] by auto
  with t show ?thesis by (auto simp: pairing_ok_def split: prod.splits)
qed

lemma push_mem: "(k', vs) \<in> set (push k v gs) \<Longrightarrow>
   (k', vs) \<in> set gs \<or> k' = k \<and> (vs = [v] \<or> (\<exists>us. (k, us) \<in> set gs \<and> vs = us @ [v]))"
  by (induction k v gs rule: push.induct) (auto split: if_splits)

definition grouped :: "exec_row set \<Rightarrow> (trip_scope \<times> exec_row list) list \<Rightarrow> bool" where
  "grouped A gs = (\<forall>(sc, rs) \<in> set gs. \<forall>r \<in> set rs. r \<in> A \<and> eligible r \<and> scope_of r = sc)"

lemma grouped_push:
  assumes "grouped A gs" and "eligible a"
  shows "grouped (insert a A) (push (scope_of a) a gs)"
  unfolding grouped_def
proof clarify
  fix sc rs r assume g: "(sc, rs) \<in> set (push (scope_of a) a gs)" and r: "r \<in> set rs"
  from push_mem [OF g] consider "(sc, rs) \<in> set gs" | "sc = scope_of a" "rs = [a]"
    | us where "sc = scope_of a" "(sc, us) \<in> set gs" "rs = us @ [a]" by blast
  then show "r \<in> insert a A \<and> eligible r \<and> scope_of r = sc"
    using assms r by cases (auto simp: grouped_def)
qed

lemma grouped_fold:
  "grouped A gs \<Longrightarrow> grouped (A \<union> set rows) (fold (\<lambda>r gs. if eligible r then push (scope_of r) r gs else gs) rows gs)"
proof (induction rows arbitrary: A gs)
  case (Cons a rows)
  have "grouped (insert a A) (if eligible a then push (scope_of a) a gs else gs)"
    using Cons.prems grouped_push [of A gs a] by (auto simp: grouped_def)
  from Cons.IH [OF this] show ?case by simp
qed simp

lemma group_rows_scope:
  "(sc, rs) \<in> set (group_rows rows) \<Longrightarrow> r \<in> set rs \<Longrightarrow> r \<in> set rows \<and> eligible r \<and> scope_of r = sc"
  using grouped_fold [of "{}" "[]" rows] by (auto simp: grouped_def group_rows_def)

text \<open>With positive prices a trip realises the cash of its two legs.\<close>

lemma realized_trip:
  assumes t: "t \<in> set (pair_round_trips rows)"
    and pos: "\<forall>r \<in> set rows. \<forall>p. er_fill_price r = Some p \<longrightarrow> 0 \<le> p"
  shows "leg_dir (rt_exit t) = - leg_dir (rt_entry t)"
    and "realized t = Some ((- leg_dir (rt_entry t) * the (lg_fill_price (rt_entry t)) +
       - leg_dir (rt_exit t) * the (lg_fill_price (rt_exit t))) * rt_qty t)"
proof -
  from t obtain sc rs where g: "(sc, rs) \<in> set (group_rows rows)" and t': "t \<in> set (fst (pair_scope sc rs))"
    by (auto simp: pair_round_trips_def)
  from pair_scope_ok [OF t'] obtain e x where ex: "e \<in> set rs" "x \<in> set rs" "rt_entry t = leg_of e" "rt_exit t = leg_of x"
    and dir: "leg_dir (rt_exit t) = - leg_dir (rt_entry t)" and nz: "leg_dir (rt_entry t) \<noteq> 0"
    by (auto simp: trip_ok_def)
  show "leg_dir (rt_exit t) = - leg_dir (rt_entry t)" by (rule dir)
  have price: "\<exists>p > 0. er_fill_price r = Some p" if "r \<in> set rs" for r
    using group_rows_scope [OF g that] pos by (force simp: eligible_def)
  have "trip_direction t = leg_dir (rt_entry t)"
    using nz by (auto simp: trip_direction_def leg_dir_def side_direction_def ex leg_of_def
        split: if_splits option.splits)
  with price [OF ex(1)] price [OF ex(2)] dir show "realized t = Some ((- leg_dir (rt_entry t) * the (lg_fill_price (rt_entry t)) +
       - leg_dir (rt_exit t) * the (lg_fill_price (rt_exit t))) * rt_qty t)"
    by (auto simp: realized_def realized_per_share_def leg_usable_def ex leg_of_def algebra_simps)
qed

subsection \<open>Properties of the pairing\<close>

text \<open>
  a round trip never crosses a scope and never invents a trade. Every trip has a positive quantity,
  its two legs are two recorded fills of the same strategy, version, symbol, environment and account
  (so never one of paper and one live), on opposite sides, the entry not after the exit.
\<close>

theorem trips_stay_in_scope:
  assumes "t \<in> set (pair_round_trips rows)"
  shows "\<exists>e x. e \<in> set rows \<and> x \<in> set rows \<and> eligible e \<and> eligible x \<and> scope_of e = scope_of x \<and>
    rt_scope t = scope_of e \<and> rt_entry t = leg_of e \<and> rt_exit t = leg_of x \<and> 0 < rt_qty t \<and>
    {upper (er_side e), upper (er_side x)} = {''BUY'', ''SELL''} \<and> er_recorded_at e \<le> er_recorded_at x"
proof -
  from assms obtain sc rs where g: "(sc, rs) \<in> set (group_rows rows)" and t: "t \<in> set (fst (pair_scope sc rs))"
    by (auto simp: pair_round_trips_def)
  from pair_scope_ok [OF t] obtain e x where ex: "e \<in> set rs" "x \<in> set rs" "rt_entry t = leg_of e" "rt_exit t = leg_of x"
    and ok: "rt_scope t = sc" "0 < rt_qty t" "leg_dir (leg_of x) = - leg_dir (leg_of e)" "leg_dir (leg_of e) \<noteq> 0"
      "lg_at (leg_of e) \<le> lg_at (leg_of x)"
    by (auto simp: trip_ok_def)
  from group_rows_scope [OF g ex(1)] group_rows_scope [OF g ex(2)] ex ok show ?thesis
    by (intro exI [of _ e] exI [of _ x])
      (auto simp: leg_dir_def side_direction_def leg_of_def split: if_splits option.splits)
qed

text \<open>Two fills of one strategy: ten bought at 5, six sold at 7.\<close>

definition demo_fill :: "string \<Rightarrow> string \<Rightarrow> rat \<Rightarrow> rat \<Rightarrow> instant \<Rightarrow> exec_row" where
  "demo_fill oid side q p ts = \<lparr>er_order_id = oid, er_symbol = ''AAPL'', er_side = side, er_qty = Some q,
     er_filled_qty = Some q, er_strategy_id = ''sma'', er_strategy_version = ''v1'', er_environment = ''paper'',
     er_account_id = ''default'', er_decision_price = None, er_fill_price = Some p, er_fees = None,
     er_filled = True, er_outcome = [S ''filled''], er_recorded_at = ts\<rparr>"

definition demo_fills :: "exec_row list" where
  "demo_fills = [demo_fill ''a'' ''BUY'' 10 5 1, demo_fill ''b'' ''SELL'' 6 7 2]"

lemma demo_sides: "upper ''BUY'' = ''BUY''" "upper ''SELL'' = ''SELL''" "upper ''AAPL'' = ''AAPL''"
  by code_simp+

lemma demo_trips:
  "pair_round_trips demo_fills = [\<lparr>rt_scope = (''sma'', ''v1'', ''AAPL'', ''paper'', ''default''),
     rt_entry = leg_of (demo_fill ''a'' ''BUY'' 10 5 1), rt_exit = leg_of (demo_fill ''b'' ''SELL'' 6 7 2), rt_qty = 6\<rparr>]"
  by (simp add: pair_round_trips_def demo_fills_def group_rows_def demo_fill_def eligible_def scope_of_def
      pair_scope_def fill_step_def leg_of_def num_or_def side_direction_def demo_sides Let_def)

theorem trips_stay_in_scope_witness:
  "\<exists>e x. e \<in> set demo_fills \<and> x \<in> set demo_fills \<and> {upper (er_side e), upper (er_side x)} = {''BUY'', ''SELL''} \<and>
     rt_entry (hd (pair_round_trips demo_fills)) = leg_of e \<and> rt_exit (hd (pair_round_trips demo_fills)) = leg_of x \<and>
     rt_qty (hd (pair_round_trips demo_fills)) = 6"
proof -
  have "hd (pair_round_trips demo_fills) \<in> set (pair_round_trips demo_fills)" by (simp add: demo_trips)
  moreover have "rt_qty (hd (pair_round_trips demo_fills)) = 6" by (simp add: demo_trips)
  ultimately show ?thesis using trips_stay_in_scope by blast
qed

text \<open>The fills, trips and open lots of one scope.\<close>

definition scope_fills :: "trip_scope \<Rightarrow> exec_row list \<Rightarrow> exec_row list" where
  "scope_fills sc rows = filter (\<lambda>r. eligible r \<and> scope_of r = sc) rows"

definition scope_trips :: "trip_scope \<Rightarrow> exec_row list \<Rightarrow> round_trip list" where
  "scope_trips sc rows = filter (\<lambda>t. rt_scope t = sc) (pair_round_trips rows)"

definition scope_open :: "trip_scope \<Rightarrow> exec_row list \<Rightarrow> (leg \<times> rat) list" where
  "scope_open sc rows = (case map_of (group_rows rows) sc of None \<Rightarrow> [] | Some rs \<Rightarrow> fst (snd (pair_scope sc rs)))"

lemma push_lookup: "map_of (push k v gs) k' = (if k' = k then Some ((case map_of gs k of None \<Rightarrow> [] | Some vs \<Rightarrow> vs) @ [v]) else map_of gs k')"
  by (induction k v gs rule: push.induct) auto

lemma push_keys: "fst ` set (push k v gs) = insert k (fst ` set gs)"
  by (induction k v gs rule: push.induct) auto

lemma push_distinct: "distinct (map fst gs) \<Longrightarrow> distinct (map fst (push k v gs))"
  by (induction k v gs rule: push.induct) (auto simp: push_keys image_iff) 

lemma group_rows_snoc: "group_rows (rows @ [r]) = (if eligible r then push (scope_of r) r (group_rows rows) else group_rows rows)"
  by (simp add: group_rows_def)

lemma group_rows_distinct: "distinct (map fst (group_rows rows))"
proof (induction rows rule: rev_induct)
  case (snoc r rows)
  then show ?case by (simp add: group_rows_snoc push_distinct)
qed (simp add: group_rows_def)

lemma scope_fills_snoc: "scope_fills sc (rows @ [r]) = scope_fills sc rows @ (if eligible r \<and> scope_of r = sc then [r] else [])"
  by (simp add: scope_fills_def)

lemma group_rows_lookup: "map_of (group_rows rows) sc = (if scope_fills sc rows = [] then None else Some (scope_fills sc rows))"
proof (induction rows rule: rev_induct)
  case Nil
  show ?case by (simp add: group_rows_def scope_fills_def)
next
  case (snoc r rows)
  show ?case
    by (cases "eligible r"; cases "scope_of r = sc") (auto simp: group_rows_snoc push_lookup scope_fills_snoc snoc.IH)
qed

lemma sum_of_key:
  "distinct (map fst gs) \<Longrightarrow> (\<Sum>(k, v) \<leftarrow> gs. if k = k0 then h v else 0) = (case map_of gs k0 of None \<Rightarrow> 0 | Some v \<Rightarrow> (h v :: rat))"
proof (induction gs)
  case (Cons p gs)
  show ?case
  proof (cases "fst p = k0")
    case True
    with Cons.prems have "map_of gs k0 = None" by (force simp: map_of_eq_None_iff)
    with Cons True show ?thesis by (cases p) simp
  next
    case False
    with Cons show ?thesis by (cases p) simp
  qed
qed simp

lemma scope_trips_weight:
  "trips_weight g (scope_trips sc rows) = (case map_of (group_rows rows) sc of None \<Rightarrow> 0 | Some rs \<Rightarrow> trips_weight g (fst (pair_scope sc rs)))"
proof -
  have one: "filter (\<lambda>t. rt_scope t = sc) (fst (pair_scope k rs)) = (if k = sc then fst (pair_scope sc rs) else [])" for k rs
    using pair_scope_ok [of _ k rs] by (auto simp: filter_id_conv filter_empty_conv trip_ok_def)
  have "trips_weight g (scope_trips sc rows)
      = trips_weight g (filter (\<lambda>t. rt_scope t = sc) (concat (map (\<lambda>(k, rs). fst (pair_scope k rs)) (group_rows rows))))"
    by (simp only: trips_weight_mset scope_trips_def pair_round_trips_def mset_sort mset_filter)
  also have "\<dots> = (\<Sum>(k, rs) \<leftarrow> group_rows rows. if k = sc then trips_weight g (fst (pair_scope sc rs)) else 0)"
    by (simp add: filter_concat trips_weight_concat comp_def case_prod_unfold one if_distrib cong: if_cong)
  finally show ?thesis by (simp add: sum_of_key [OF group_rows_distinct])
qed

lemma pair_scope_open: "\<exists>dir. \<forall>(l, q) \<in> set (fst (snd (pair_scope sc rows))). leg_dir l = dir \<and> 0 < q \<and> l \<in> leg_of ` set rows"
proof -
  let ?rows = "sort_key er_recorded_at rows"
  let ?now = "if rows = [] then 0 else Min (er_recorded_at ` set rows)"
  have "pairing_ok sc (set rows) ?now ([], [], 0)" by (simp add: pairing_ok_def)
  moreover have "\<forall>r \<in> set ?rows. ?now \<le> er_recorded_at r" by auto
  ultimately obtain now' where "pairing_ok sc (set rows) now' (pair_scope sc rows)"
    unfolding pair_scope_def using fold_ok [of sc "set rows" ?now "([], [], 0)" ?rows] by auto
  then have "\<forall>lot \<in> set (fst (snd (pair_scope sc rows))). lot_ok (set rows) (snd (snd (pair_scope sc rows))) now' lot"
    by (simp add: pairing_ok_def case_prod_unfold)
  then show ?thesis by (intro exI [of _ "snd (snd (pair_scope sc rows))"]) (auto simp: lot_ok_def)
qed

text \<open>
  C34: pairing conserves quantity and money, scope by scope. In every scope (strategy, version, symbol,
  environment and account), for every weight \<open>g\<close> a unit of a leg may carry, the weight of the scope's
  fills is the weight of its trips (both legs) plus the weight of the lots it leaves open, so every unit
  of every accepted fill is either matched exactly once or still open, whatever the order and sizes of
  the fills. The legs of its trips are fills of that scope, and the open lots are positive and all on one
  side. With no negative price every trip has a result, and the results add up to the net cash of the
  scope's fills plus the cost of the lots that remain: exactly the cash when the scope is flat.
\<close>

theorem pairing_conserves_money:
  "fills_weight g (scope_fills sc rows) = trips_weight g (scope_trips sc rows) + open_weight g (scope_open sc rows) \<and>
   (\<forall>t \<in> set (scope_trips sc rows). {rt_entry t, rt_exit t} \<subseteq> leg_of ` set (scope_fills sc rows) \<and> 0 < rt_qty t) \<and>
   (\<exists>dir. \<forall>(l, q) \<in> set (scope_open sc rows). leg_dir l = dir \<and> 0 < q \<and> l \<in> leg_of ` set (scope_fills sc rows)) \<and>
   ((\<forall>r \<in> set rows. \<forall>p. er_fill_price r = Some p \<longrightarrow> 0 \<le> p) \<longrightarrow>
      (\<forall>t \<in> set (scope_trips sc rows). realized t \<noteq> None) \<and>
      sum_list (map (\<lambda>t. the (realized t)) (scope_trips sc rows))
        = fills_weight (\<lambda>l. - leg_dir l * the (lg_fill_price l)) (scope_fills sc rows)
          + open_weight (\<lambda>l. leg_dir l * the (lg_fill_price l)) (scope_open sc rows))"
proof (intro conjI impI)
  have all: "fills_weight h (scope_fills sc rows) = trips_weight h (scope_trips sc rows) + open_weight h (scope_open sc rows)" for h
    using pair_scope_conserves [of h sc "scope_fills sc rows"]
    by (auto simp: scope_trips_weight scope_open_def group_rows_lookup)
  then show "fills_weight g (scope_fills sc rows) = trips_weight g (scope_trips sc rows) + open_weight g (scope_open sc rows)" .
  show "\<forall>t \<in> set (scope_trips sc rows). {rt_entry t, rt_exit t} \<subseteq> leg_of ` set (scope_fills sc rows) \<and> 0 < rt_qty t"
    using trips_stay_in_scope [of _ rows] by (fastforce simp: scope_trips_def scope_fills_def)
  show "\<exists>dir. \<forall>(l, q) \<in> set (scope_open sc rows). leg_dir l = dir \<and> 0 < q \<and> l \<in> leg_of ` set (scope_fills sc rows)"
    using pair_scope_open [of sc "scope_fills sc rows"]
    by (cases "scope_fills sc rows = []") (simp_all add: scope_open_def group_rows_lookup)
  assume pos: "\<forall>r \<in> set rows. \<forall>p. er_fill_price r = Some p \<longrightarrow> 0 \<le> p"
  let ?ts = "scope_trips sc rows" and ?cash = "\<lambda>l. - leg_dir l * the (lg_fill_price l)"
  have trip: "realized t = Some ((?cash (rt_entry t) + ?cash (rt_exit t)) * rt_qty t)" if "t \<in> set ?ts" for t
    using realized_trip(2) [OF _ pos] that by (auto simp: scope_trips_def)
  then show "\<forall>t \<in> set ?ts. realized t \<noteq> None" by simp
  have "trips_weight ?cash ?ts = sum_list (map (\<lambda>t. the (realized t)) ?ts)"
    unfolding trips_weight_def by (rule arg_cong [of _ _ sum_list], rule map_cong) (simp_all add: trip)
  moreover have "open_weight ?cash os = - open_weight (\<lambda>l. leg_dir l * the (lg_fill_price l)) os" for os
    by (induction os) auto
  ultimately show "sum_list (map (\<lambda>t. the (realized t)) ?ts) = fills_weight ?cash (scope_fills sc rows)
      + open_weight (\<lambda>l. leg_dir l * the (lg_fill_price l)) (scope_open sc rows)"
    using all [of ?cash] by simp
qed

theorem pairing_conserves_money_witness:
  "let sc = (''sma'', ''v1'', ''AAPL'', ''paper'', ''default'') in
   sum_list (map (\<lambda>t. the (realized t)) (scope_trips sc demo_fills)) = 12 \<and>
   fills_weight (\<lambda>l. - leg_dir l * the (lg_fill_price l)) (scope_fills sc demo_fills)
     + open_weight (\<lambda>l. leg_dir l * the (lg_fill_price l)) (scope_open sc demo_fills) = 12"
proof -
  let ?sc = "(''sma'', ''v1'', ''AAPL'', ''paper'', ''default'')"
  have "\<forall>r \<in> set demo_fills. \<forall>p. er_fill_price r = Some p \<longrightarrow> 0 \<le> p" by (simp add: demo_fills_def demo_fill_def)
  with pairing_conserves_money [of "\<lambda>_. 1" ?sc demo_fills]
  have "sum_list (map (\<lambda>t. the (realized t)) (scope_trips ?sc demo_fills))
        = fills_weight (\<lambda>l. - leg_dir l * the (lg_fill_price l)) (scope_fills ?sc demo_fills)
          + open_weight (\<lambda>l. leg_dir l * the (lg_fill_price l)) (scope_open ?sc demo_fills)" by blast
  moreover have "sum_list (map (\<lambda>t. the (realized t)) (scope_trips ?sc demo_fills)) = 12"
    by (simp add: scope_trips_def demo_trips) (simp add: realized_def realized_per_share_def leg_of_def demo_fill_def
        leg_usable_def trip_direction_def demo_sides num_or_def)
  ultimately show ?thesis by simp
qed

subsection \<open>Properties of the figures\<close>

text \<open>The realised curve after \<open>k\<close> trades, and the loop over it.\<close>

definition equity_at :: "rat list \<Rightarrow> nat \<Rightarrow> rat" where
  "equity_at series k = sum_list (take k series)"

lemma equity_snoc: "equity_at (xs @ [x]) k = (if k \<le> length xs then equity_at xs k else equity_at xs (length xs) + x)"
  by (simp add: equity_at_def take_Cons')

lemma drawdown_loop_append: "drawdown_loop (xs @ ys) st = drawdown_loop ys (drawdown_loop xs st)"
  by (induction xs st rule: drawdown_loop.induct) (auto simp: Let_def)

lemma drawdown_loop_meaning:
  assumes "drawdown_loop xs (0, 0, 0, 0) = (e, p, w, t)"
  shows "e = equity_at xs (length xs) \<and> (\<exists>i \<le> length xs. p = equity_at xs i) \<and> (\<forall>i \<le> length xs. equity_at xs i \<le> p) \<and>
    (\<exists>i j. i \<le> j \<and> j \<le> length xs \<and> w = equity_at xs i - equity_at xs j) \<and>
    (\<forall>i j. i \<le> j \<and> j \<le> length xs \<longrightarrow> equity_at xs i - equity_at xs j \<le> w)"
  using assms
proof (induction xs arbitrary: e p w t rule: rev_induct)
  case Nil
  then show ?case by (auto simp: equity_at_def)
next
  case (snoc x xs)
  obtain e0 p0 w0 t0 where l: "drawdown_loop xs (0, 0, 0, 0) = (e0, p0, w0, t0)" by (metis prod_cases4)
  let ?n = "length xs" and ?E = "equity_at (xs @ [x])"
  note IH = snoc.IH [OF l]
  have st: "e = e0 + x" "p = max p0 (e0 + x)" "w = max w0 (max p0 (e0 + x) - (e0 + x))"
    using snoc.prems l by (auto simp: drawdown_loop_append Let_def)
  have E: "?E k = equity_at xs k" if "k \<le> ?n" for k using that by (simp add: equity_snoc)
  have En: "?E (Suc ?n) = e" using IH by (simp add: equity_snoc st)
  have p: "(\<exists>i \<le> Suc ?n. p = ?E i) \<and> (\<forall>i \<le> Suc ?n. ?E i \<le> p)"
  proof
    show "\<exists>i \<le> Suc ?n. p = ?E i"
      using IH E En st by (cases "p0 \<le> e0 + x") (auto simp: max_def le_Suc_eq)
    show "\<forall>i \<le> Suc ?n. ?E i \<le> p" using IH E En st by (auto simp: le_Suc_eq max_def)
  qed
  then obtain k where k: "k \<le> Suc ?n" "p = ?E k" by auto
  have "\<exists>i j. i \<le> j \<and> j \<le> Suc ?n \<and> w = ?E i - ?E j"
  proof (cases "w = w0")
    case True
    from IH obtain i j where "i \<le> j" "j \<le> ?n" "w0 = equity_at xs i - equity_at xs j" by blast
    with True E show ?thesis by (intro exI [of _ i] exI [of _ j]) simp
  next
    case False
    with st have "w = p - e" by (auto simp: max_def split: if_splits)
    with k En show ?thesis by (intro exI [of _ k] exI [of _ "Suc ?n"]) simp
  qed
  moreover have "?E i - ?E j \<le> w" if "i \<le> j" "j \<le> Suc ?n" for i j
  proof (cases "j = Suc ?n")
    case True
    with p that have "?E i - ?E j \<le> p - e" using En by simp
    with st show ?thesis by simp
  next
    case False
    with that have "i \<le> ?n" "j \<le> ?n" by simp_all
    with IH E that(1) have "?E i - ?E j \<le> w0" by simp
    with st show ?thesis by simp
  qed
  ultimately show ?case using p En by auto
qed

lemma performance_drawdown:
  assumes "2 \<le> length (realized_series trips)" and "drawdown_loop (realized_series trips) (0, 0, 0, 0) = (e, p, w, t)"
  shows "pf_max_drawdown_amount (performance_from_trades hp trips cb) = Some (py_round 4 w) \<and>
    pf_max_drawdown_pct (performance_from_trades hp trips cb) = drawdown_fraction w cb"
  using assms by (simp add: performance_from_trades_def Let_def not_less split: prod.splits)

text \<open>
  the drawdown trigger is fed the right number. With at least two realised trades,
  \<open>max_drawdown_amount\<close> is, to four decimals, the greatest fall of the realised curve from any point to
  any later one, the start at zero included; the percentage is that fall over the declared capital and
  is absent without a positive one.
\<close>

theorem drawdown_is_peak_to_trough:
  assumes "2 \<le> length (realized_series trips)"
  shows "\<exists>w. pf_max_drawdown_amount (performance_from_trades hp trips cb) = Some (py_round 4 w) \<and>
    w = Max {equity_at (realized_series trips) i - equity_at (realized_series trips) j |
             i j. i \<le> j \<and> j \<le> length (realized_series trips)} \<and>
    pf_max_drawdown_pct (performance_from_trades hp trips cb) = drawdown_fraction w cb"
proof -
  let ?xs = "realized_series trips"
  let ?S = "{equity_at ?xs i - equity_at ?xs j | i j. i \<le> j \<and> j \<le> length ?xs}"
  obtain e p w t where l: "drawdown_loop ?xs (0, 0, 0, 0) = (e, p, w, t)" by (metis prod_cases4)
  have "?S \<subseteq> (\<lambda>(i, j). equity_at ?xs i - equity_at ?xs j) ` ({..length ?xs} \<times> {..length ?xs})" by force
  then have fin: "finite ?S" by (rule finite_subset) simp
  have "w = Max ?S"
    using drawdown_loop_meaning [OF l] by (intro Max_eqI [OF fin, symmetric]) blast+
  with performance_drawdown [OF assms l, of hp cb] show ?thesis by blast
qed

definition demo_trip :: "rat \<Rightarrow> instant \<Rightarrow> round_trip" where
  "demo_trip px ts = \<lparr>rt_scope = (''sma'', ''v1'', ''AAPL'', ''live'', ''default''),
     rt_entry = leg_of (demo_fill ''a'' ''BUY'' 1 5 0), rt_exit = leg_of (demo_fill ''b'' ''SELL'' 1 px ts), rt_qty = 1\<rparr>"

lemma demo_series: "realized_series [demo_trip 7 1, demo_trip 2 3] = [2, -3]"
  by (simp add: realized_series_def List.map_filter_simps demo_trip_def realized_def realized_per_share_def
      leg_usable_def trip_direction_def leg_of_def demo_fill_def demo_sides num_or_def)

theorem drawdown_is_peak_to_trough_witness:
  "\<exists>w. pf_max_drawdown_amount (performance_from_trades (\<lambda>x. x) [demo_trip 7 1, demo_trip 2 3] None) = Some (py_round 4 w)"
  using drawdown_is_peak_to_trough [of "[demo_trip 7 1, demo_trip 2 3]" "\<lambda>x. x" None] by (auto simp: demo_series)

text \<open>Exits less than five days apart never give an annualised figure.\<close>

lemma annualised_short_span:
  assumes "\<forall>t \<in> set trips. ws \<le> lg_at (rt_exit t) \<and> lg_at (rt_exit t) \<le> we"
    and "total_seconds (we - ws) / 86400 < MIN_SPAN_DAYS_TO_ANNUALISE"
  shows "fst (annualised hp trips sharpe n) = None"
proof -
  let ?ex = "sort (map (\<lambda>t. lg_at (rt_exit t)) (filter (\<lambda>t. realized t \<noteq> None) trips))"
  have "total_seconds (last ?ex - hd ?ex) / 86400 < MIN_SPAN_DAYS_TO_ANNUALISE" if "?ex \<noteq> []"
  proof -
    have "last ?ex \<in> set ?ex" "hd ?ex \<in> set ?ex" using last_in_set [OF that] hd_in_set [OF that] by blast+
    then have "last ?ex \<le> we" "ws \<le> hd ?ex" using assms(1) by auto
    then have "total_seconds (last ?ex - hd ?ex) \<le> total_seconds (we - ws)" by (intro total_seconds_mono) simp
    with assms(2) show ?thesis by (simp add: divide_less_eq)
  qed
  then have "length ?ex < 2 \<or> total_seconds (last ?ex - hd ?ex) / 86400 < MIN_SPAN_DAYS_TO_ANNUALISE"
    by (cases "?ex = []") auto
  then show ?thesis by (auto simp: annualised_def Let_def split: option.splits)
qed

lemma performance_short_span:
  assumes "\<forall>t \<in> set trips. ws \<le> lg_at (rt_exit t) \<and> lg_at (rt_exit t) \<le> we"
    and "total_seconds (we - ws) / 86400 < MIN_SPAN_DAYS_TO_ANNUALISE"
  shows "pf_sharpe_annualised (performance_from_trades hp trips cb) = None"
proof (cases "length (realized_series trips) < 2")
  case True
  then show ?thesis by (simp add: performance_from_trades_def Let_def)
next
  case False
  have "a = None" if "annualised hp trips sharpe n = (a, b, c, d)" for sharpe n a b c d
    using annualised_short_span [OF assms, of hp sharpe n] that by simp
  with False show ?thesis by (auto simp: performance_from_trades_def Let_def split: prod.splits)
qed

end
