(* ===== verification/Order_Pricing.thy ===== *)
theory Order_Pricing
  imports Prelude
begin

text \<open>
  \<open>libs/contracts/src/contracts/execution.py\<close>: the pure helpers for limit prices, execution cost and
  order size, on finite prices.
\<close>

definition marketable_limit_price :: "rat option \<Rightarrow> string \<Rightarrow> rat \<Rightarrow> exn + rat option" where
  "marketable_limit_price reference_price side tolerance_bps =
     (case reference_price of
        None \<Rightarrow> Inr None
      | Some p \<Rightarrow>
          if p \<le> 0 then Inr None
          else if tolerance_bps < 0 then Inl (ValueError [S ''tolerance_bps must not be negative''])
          else
            (let drift = p * (tolerance_bps / 10000);
                 lim = (if upper side = ''BUY'' then p + drift else p - drift)
             in Inr (Some (py_round 4 (max lim (1 / 10000))))))"

definition limit_is_marketable :: "rat \<Rightarrow> rat \<Rightarrow> string \<Rightarrow> bool" where
  "limit_is_marketable limit_price market_price side =
     (if upper side = ''BUY'' then market_price \<le> limit_price else limit_price \<le> market_price)"

definition limit_fill_price :: "rat \<Rightarrow> rat \<Rightarrow> string \<Rightarrow> rat option" where
  "limit_fill_price limit_price market_price side =
     (if \<not> limit_is_marketable limit_price market_price side then None
      else if upper side = ''BUY'' then Some (min market_price limit_price)
      else Some (max market_price limit_price))"

definition implementation_shortfall_bps :: "rat option \<Rightarrow> rat option \<Rightarrow> string \<Rightarrow> rat option" where
  "implementation_shortfall_bps decision_price fill_price side =
     (case (decision_price, fill_price) of
        (Some dp, Some fp) \<Rightarrow>
          if dp \<le> 0 \<or> fp \<le> 0 then None
          else
            (let raw = (fp - dp) / dp;
                 signed = (if upper side = ''BUY'' then raw else - raw)
             in Some (py_round 4 (signed * 10000)))
      | _ \<Rightarrow> None)"

definition participation_capped_qty :: "int \<Rightarrow> rat option \<Rightarrow> rat \<Rightarrow> int" where
  "participation_capped_qty qty average_volume max_participation_pct =
     (if qty \<le> 0 then 0
      else
        (case average_volume of
           None \<Rightarrow> qty
         | Some v \<Rightarrow>
             if v \<le> 0 \<or> max_participation_pct \<le> 0 then qty
             else max 0 (min qty \<lfloor>v * max_participation_pct\<rfloor>)))"

definition average_daily_volume :: "rat option list \<Rightarrow> rat option \<Rightarrow> rat option" where
  "average_daily_volume bar_volumes bars_per_day =
     (let volumes = filter (\<lambda>v. 0 < v) (map (\<lambda>v. case v of None \<Rightarrow> 0 | Some x \<Rightarrow> x) bar_volumes) in
      if volumes = [] then None
      else Some (sum_list volumes / of_nat (length volumes) *
             (case bars_per_day of None \<Rightarrow> 1 | Some b \<Rightarrow> if b = 0 then 1 else b)))"

subsection \<open>Properties\<close>

lemma limit_fill_bounds:
  "limit_fill_price l m side = Some p \<Longrightarrow>
     p = m \<and> (if upper side = ''BUY'' then p \<le> l else l \<le> p)"
  by (auto simp: limit_fill_price_def limit_is_marketable_def min_def max_def split: if_splits)

lemma limit_fill_None:
  "limit_fill_price l m side = None \<longleftrightarrow> (if upper side = ''BUY'' then l < m else m < l)"
  by (auto simp: limit_fill_price_def limit_is_marketable_def)

text \<open>
  a marketable limit is priced to fill and to protect. Whenever one is quoted from a reference price
  of at least one tick of a tenth of a cent, the market standing exactly at the (rounded) reference
  fills it, at the market price; and a market that has moved away by more than the tolerance, rounded to
  the tick, does not.
\<close>

theorem marketable_limit_protects:
  assumes "marketable_limit_price (Some p) side tol = Inr (Some l)" and "1 / 10000 \<le> p"
  shows "limit_fill_price l (py_round 4 p) side = Some (py_round 4 p) \<and>
    (upper side = ''BUY'' \<longrightarrow> (\<forall>m. py_round 4 (p + p * (tol / 10000)) < m \<longrightarrow> limit_fill_price l m side = None)) \<and>
    (upper side \<noteq> ''BUY'' \<longrightarrow> (\<forall>m. m < py_round 4 (p - p * (tol / 10000)) \<longrightarrow> limit_fill_price l m side = None))"
proof -
  have tol: "0 \<le> tol" "0 < p" using assms by (auto simp: marketable_limit_price_def split: if_splits)
  have l: "l = py_round 4 (max (if upper side = ''BUY'' then p + p * (tol / 10000) else p - p * (tol / 10000)) (1 / 10000))"
    using assms(1) by (auto simp: marketable_limit_price_def Let_def split: if_splits)
  have drift: "0 \<le> p * (tol / 10000)" using tol by simp
  show ?thesis
  proof (cases "upper side = ''BUY''")
    case True
    have "1 / 10000 \<le> p + p * (tol / 10000)" using assms(2) drift by linarith
    with True l have l': "l = py_round 4 (p + p * (tol / 10000))" by (simp only: simp_thms if_True max_absorb1)
    have "py_round 4 p \<le> l" unfolding l' using drift by (intro py_round_mono) simp
    with True l' show ?thesis
      by (simp add: limit_fill_None limit_fill_price_def limit_is_marketable_def min_def)
  next
    case False
    have "l \<le> py_round 4 p" unfolding l using False drift assms(2) by (intro py_round_mono) (simp add: max_def)
    moreover have "py_round 4 (p - p * (tol / 10000)) \<le> l" unfolding l using False by (intro py_round_mono) simp
    ultimately show ?thesis
      using False by (auto simp: limit_fill_None limit_fill_price_def limit_is_marketable_def max_def)
  qed
qed

theorem marketable_limit_protects_witness:
  "limit_fill_price (1002 / 10) (py_round 4 100) ''buy'' = Some (py_round 4 100)"
proof -
  have "marketable_limit_price (Some 100) ''buy'' 20 = Inr (Some (1002 / 10))" by code_simp
  from marketable_limit_protects [OF this] show ?thesis by simp
qed

text \<open>
  a trimmed order never grows, never goes negative, and never exceeds its share of a known volume.
\<close>

theorem participation_cap_bounds:
  "0 \<le> participation_capped_qty q v pct \<and> participation_capped_qty q v pct \<le> max 0 q \<and>
   (\<forall>x. v = Some x \<and> 0 < x \<and> 0 < pct \<longrightarrow> of_int (participation_capped_qty q v pct) \<le> x * pct)"
proof -
  have "of_int (max 0 (min q \<lfloor>x * pct\<rfloor>)) \<le> x * pct" if "0 < x" "0 < pct" for x
  proof -
    have "of_int \<lfloor>x * pct\<rfloor> \<le> x * pct" by simp
    then have "of_int (min q \<lfloor>x * pct\<rfloor>) \<le> x * pct"
      by (metis min.cobounded2 of_int_le_iff order_trans)
    then show ?thesis using that by (simp add: max_def)
  qed
  then show ?thesis by (auto simp: participation_capped_qty_def split: option.splits)
qed

theorem participation_cap_bounds_witness:
  "of_int (participation_capped_qty 500 (Some 1000) (1 / 10)) \<le> (1000 :: rat) * (1 / 10)"
  using participation_cap_bounds [of 500 "Some 1000" "1 / 10"] by simp

end
