(* ===== verification/Execution_Journal.thy ===== *)
theory Execution_Journal
  imports Round_Trips Order_Pricing
begin

text \<open>
  The execution records of the journal (\<open>libs/journal/src/journal/store.py\<close>): \<open>record_execution\<close>, the
  book \<open>net_position\<close> derives from them, and \<open>execution_rows\<close>, with \<open>load_round_trips\<close> of
  \<open>libs/attribution/src/attribution/roundtrips.py\<close> on top. The archive is a list of rows in insertion
  order. A read or a write that fails inside SQLite is swallowed by the code and logged, so whether it
  succeeds is an argument. Columns that every caller leaves at their defaults are left out.
\<close>

subsection \<open>Data\<close>

record execution_quality =
  eq_order_id :: string
  eq_signal_id :: string
  eq_symbol :: string
  eq_side :: string
  eq_qty :: rat
  eq_order_type :: string
  eq_limit_price :: "rat option"
  eq_decision_price :: "rat option"
  eq_fill_price :: "rat option"
  eq_shortfall_bps :: "rat option"
  eq_filled :: bool
  eq_outcome :: msg
  eq_strategy_id :: string
  eq_strategy_version :: string
  eq_environment :: string
  eq_account_id :: string
  eq_broker :: string
  eq_fees :: rat
  eq_filled_qty :: rat
  eq_recorded_at :: instant

record journal =
  jn_enabled :: bool
  jn_executions :: "execution_quality list"

text \<open>The arguments of \<open>record_execution\<close> that a caller of the program passes.\<close>

record execution_report =
  rp_symbol :: string
  rp_side :: string
  rp_qty :: rat
  rp_decision_price :: "rat option"
  rp_fill_price :: "rat option"
  rp_order_type :: string
  rp_limit_price :: "rat option"
  rp_order_id :: string
  rp_signal_id :: string
  rp_outcome :: msg
  rp_strategy_id :: string
  rp_strategy_version :: string
  rp_environment :: string
  rp_account_id :: string
  rp_broker :: string

subsection \<open>Operations\<close>

definition execution_row_of :: "instant \<Rightarrow> execution_report \<Rightarrow> execution_quality" where
  "execution_row_of now r =
     (let filled = (case rp_fill_price r of None \<Rightarrow> False | Some p \<Rightarrow> 0 < p);
          shortfall = (if filled \<and> rp_decision_price r \<notin> {None, Some 0}
                       then implementation_shortfall_bps (rp_decision_price r) (rp_fill_price r) (rp_side r)
                       else None)
      in \<lparr>eq_order_id = rp_order_id r, eq_signal_id = rp_signal_id r, eq_symbol = upper (rp_symbol r),
          eq_side = upper (rp_side r), eq_qty = rp_qty r, eq_order_type = upper (rp_order_type r),
          eq_limit_price = rp_limit_price r, eq_decision_price = rp_decision_price r,
          eq_fill_price = rp_fill_price r, eq_shortfall_bps = shortfall, eq_filled = filled,
          eq_outcome = rp_outcome r, eq_strategy_id = rp_strategy_id r,
          eq_strategy_version = rp_strategy_version r, eq_environment = rp_environment r,
          eq_account_id = rp_account_id r, eq_broker = rp_broker r, eq_fees = 0,
          eq_filled_qty = (if filled then rp_qty r else 0), eq_recorded_at = now\<rparr>)"

definition record_execution :: "instant \<Rightarrow> bool \<Rightarrow> execution_report \<Rightarrow> journal \<Rightarrow> rat option \<times> journal" where
  "record_execution now write_ok r j =
     (let row = execution_row_of now r in
      (eq_shortfall_bps row,
       if jn_enabled j \<and> write_ok then j\<lparr>jn_executions := jn_executions j @ [row]\<rparr> else j))"

definition in_book :: "string \<Rightarrow> string \<Rightarrow> string \<Rightarrow> string \<Rightarrow> execution_quality \<Rightarrow> bool" where
  "in_book strategy_id symbol environment account_id r =
     (eq_strategy_id r = strategy_id \<and> eq_symbol r = upper symbol \<and> eq_environment r = environment \<and>
      eq_account_id r = account_id \<and> eq_filled r)"

text \<open>The grouped query: one total per side, summed with the sign of the side.\<close>

definition net_of_rows :: "execution_quality list \<Rightarrow> rat" where
  "net_of_rows rows =
     sum_list (map (\<lambda>side. let q = sum_list (map eq_filled_qty (filter (\<lambda>r. eq_side r = side) rows))
                          in if upper side = ''BUY'' then q else - q)
                (remdups (map eq_side rows)))"

definition net_position :: "bool \<Rightarrow> string \<Rightarrow> string \<Rightarrow> string \<Rightarrow> string \<Rightarrow> journal \<Rightarrow> rat option" where
  "net_position read_ok strategy_id symbol environment account_id j =
     (if \<not> jn_enabled j \<or> \<not> read_ok then None
      else Some (net_of_rows (filter (in_book strategy_id symbol environment account_id) (jn_executions j))))"

definition exec_row_of :: "execution_quality \<Rightarrow> exec_row" where
  "exec_row_of r = \<lparr>er_order_id = eq_order_id r, er_symbol = eq_symbol r, er_side = eq_side r,
     er_qty = Some (eq_qty r), er_filled_qty = Some (eq_filled_qty r), er_strategy_id = eq_strategy_id r,
     er_strategy_version = eq_strategy_version r, er_environment = eq_environment r,
     er_account_id = eq_account_id r, er_decision_price = eq_decision_price r, er_fill_price = eq_fill_price r,
     er_fees = Some (eq_fees r), er_filled = eq_filled r, er_outcome = eq_outcome r,
     er_recorded_at = eq_recorded_at r\<rparr>"

text \<open>An absent filter matches every row.\<close>

definition wanted :: "'a option \<Rightarrow> ('a \<Rightarrow> bool) \<Rightarrow> bool" where
  "wanted x p = (case x of None \<Rightarrow> True | Some v \<Rightarrow> p v)"

definition execution_rows ::
  "bool \<Rightarrow> string option \<Rightarrow> string option \<Rightarrow> string option \<Rightarrow> string option \<Rightarrow> string option \<Rightarrow>
   instant option \<Rightarrow> instant option \<Rightarrow> nat \<Rightarrow> journal \<Rightarrow> exec_row list" where
  "execution_rows read_ok strategy_id strategy_version symbol environment account_id window_start window_end limit j =
     (if \<not> jn_enabled j \<or> \<not> read_ok then []
      else map exec_row_of (take limit (sort_key eq_recorded_at (filter (\<lambda>r.
             wanted strategy_id (\<lambda>v. eq_strategy_id r = v) \<and> wanted strategy_version (\<lambda>v. eq_strategy_version r = v) \<and>
             wanted symbol (\<lambda>v. eq_symbol r = upper v) \<and> wanted environment (\<lambda>v. eq_environment r = v) \<and>
             wanted account_id (\<lambda>v. eq_account_id r = v) \<and> wanted window_start (\<lambda>v. v \<le> eq_recorded_at r) \<and>
             wanted window_end (\<lambda>v. eq_recorded_at r \<le> v)) (jn_executions j)))))"

definition load_round_trips ::
  "bool \<Rightarrow> string option \<Rightarrow> string option \<Rightarrow> string option \<Rightarrow> string option \<Rightarrow> string \<Rightarrow>
   instant option \<Rightarrow> instant option \<Rightarrow> nat \<Rightarrow> journal \<Rightarrow> round_trip list" where
  "load_round_trips read_ok strategy_id strategy_version symbol environment account_id window_start window_end limit j =
     pair_round_trips (execution_rows read_ok strategy_id strategy_version symbol environment (Some account_id)
       window_start window_end limit j)"

subsection \<open>The book as a signed sum\<close>

definition signed_fill :: "execution_quality \<Rightarrow> rat" where
  "signed_fill r = (if upper (eq_side r) = ''BUY'' then eq_filled_qty r else - eq_filled_qty r)"

lemma sum_by_key:
  fixes g :: "'a \<Rightarrow> rat"
  assumes "finite ks" and "f ` set xs \<subseteq> ks"
  shows "(\<Sum>k \<in> ks. sum_list (map g (filter (\<lambda>x. f x = k) xs))) = sum_list (map g xs)"
  using assms(2)
proof (induction xs)
  case (Cons x xs)
  have "(\<Sum>k \<in> ks. sum_list (map g (filter (\<lambda>x. f x = k) (x # xs)))) =
      (\<Sum>k \<in> ks. (if f x = k then g x else 0) + sum_list (map g (filter (\<lambda>x. f x = k) xs)))"
    by (intro sum.cong) auto
  also have "\<dots> = g x + sum_list (map g xs)"
    using Cons assms(1) by (simp add: sum.distrib)
  finally show ?case by simp
qed simp

lemma net_of_rows_eq: "net_of_rows rows = sum_list (map signed_fill rows)"
proof -
  have side: "(let q = sum_list (map eq_filled_qty (filter (\<lambda>r. eq_side r = k) rs)) in if upper k = ''BUY'' then q else - q)
      = sum_list (map signed_fill (filter (\<lambda>r. eq_side r = k) rs))" for k rs
    by (induction rs) (auto simp: signed_fill_def Let_def)
  have "net_of_rows rows = (\<Sum>k \<in> set (map eq_side rows). sum_list (map signed_fill (filter (\<lambda>r. eq_side r = k) rows)))"
    unfolding net_of_rows_def side by (simp add: sum_list_distinct_conv_sum_set)
  also have "\<dots> = sum_list (map signed_fill rows)" by (rule sum_by_key) auto
  finally show ?thesis .
qed

text \<open>What one report does to a book.\<close>

definition signed_report :: "execution_report \<Rightarrow> rat" where
  "signed_report r =
     (case rp_fill_price r of
        None \<Rightarrow> 0
      | Some p \<Rightarrow> if 0 < p then (if upper (rp_side r) = ''BUY'' then rp_qty r else - rp_qty r) else 0)"

lemma net_after_record:
  assumes "jn_enabled j" and "net_position True st sy en ac j = Some n"
  shows "net_position True st sy en ac (snd (record_execution now True r j)) =
    Some (n + (if rp_strategy_id r = st \<and> upper (rp_symbol r) = upper sy \<and> rp_environment r = en \<and> rp_account_id r = ac
               then signed_report r else 0))"
  using assms
  by (auto simp: net_position_def record_execution_def execution_row_of_def Let_def net_of_rows_eq in_book_def
      signed_report_def signed_fill_def split: option.splits)

lemma enabled_record [simp]: "jn_enabled (snd (record_execution now ok r j)) = jn_enabled j"
  by (simp add: record_execution_def Let_def)

subsection \<open>The book and the round trips\<close>

text \<open>A row as an accepted order leaves it: a fill has a positive price and quantity and a known side.\<close>

definition fill_row_ok :: "execution_quality \<Rightarrow> bool" where
  "fill_row_ok r = ((\<forall>p. eq_fill_price r = Some p \<longrightarrow> 0 \<le> p) \<and> (eq_filled r \<longrightarrow> (\<exists>p. eq_fill_price r = Some p \<and> 0 < p) \<and> 0 < eq_filled_qty r \<and>
     upper (eq_side r) \<in> {''BUY'', ''SELL''}))"

lemma record_keeps_fill_rows:
  assumes "\<forall>r \<in> set (jn_executions j). fill_row_ok r" and "0 < rp_qty r" and "upper (rp_side r) \<in> {''BUY'', ''SELL''}"
    and "\<And>p. rp_fill_price r = Some p \<Longrightarrow> 0 \<le> p"
  shows "\<forall>r \<in> set (jn_executions (snd (record_execution now ok r j))). fill_row_ok r"
  using assms
  by (auto simp: record_execution_def execution_row_of_def Let_def fill_row_ok_def split: option.splits)

lemma eligible_fill: "fill_row_ok r \<Longrightarrow> eligible (exec_row_of r) = eq_filled r"
  by (auto simp: eligible_def exec_row_of_def fill_row_ok_def)

lemma fill_weight:
  assumes "fill_row_ok r" and "eq_filled r"
  shows "fills_weight leg_dir [exec_row_of r] = signed_fill r"
proof -
  have q: "0 < eq_filled_qty r" and s: "upper (eq_side r) = ''BUY'' \<or> upper (eq_side r) = ''SELL''"
    using assms by (auto simp: fill_row_ok_def)
  have "leg_of (exec_row_of r) = (leg_of (exec_row_of r))\<lparr>lg_side := upper (eq_side r), lg_qty := eq_filled_qty r\<rparr>"
    using q by (simp add: leg_of_def exec_row_of_def num_or_def)
  then have l: "lg_side (leg_of (exec_row_of r)) = upper (eq_side r)" "lg_qty (leg_of (exec_row_of r)) = eq_filled_qty r"
    by (metis leg.select_convs(1,2) leg.update_convs(1,2) leg.surjective)+
  from s show ?thesis
    by (elim disjE) (simp_all add: fills_weight_def accepted_def l q leg_dir_def side_direction_def signed_fill_def)
qed

lemma signed_weight:
  assumes "\<forall>r \<in> set rs. fill_row_ok r"
  shows "fills_weight leg_dir (filter eligible (map exec_row_of rs)) = sum_list (map signed_fill (filter eq_filled rs))"
  using assms
proof (induction rs)
  case (Cons r rs)
  then show ?case using fill_weight [of r] by (auto simp: eligible_fill split: if_splits)
qed (simp add: fills_weight_def)

lemma open_is_net:
  assumes "\<forall>r \<in> set rows. \<forall>p. er_fill_price r = Some p \<longrightarrow> 0 \<le> p"
  shows "open_weight leg_dir (leftover rows) = fills_weight leg_dir (filter eligible rows)"
proof -
  have "trips_weight leg_dir (pair_round_trips rows) = sum_list (map (\<lambda>_. 0) (pair_round_trips rows))"
    unfolding trips_weight_def by (rule arg_cong [of _ _ sum_list], rule map_cong) (simp_all add: realized_trip [OF _ assms])
  with pairing_conserves [of leg_dir rows] show ?thesis by simp
qed

lemma sum_list_sort: "sum_list (map g (filter p (sort_key k rs))) = sum_list (map g (filter p rs))"
  for g :: "'a \<Rightarrow> rat"
proof -
  have "sum_mset (mset (map g (filter p (sort_key k rs)))) = sum_mset (mset (map g (filter p rs)))"
    by (simp only: mset_map mset_filter mset_sort)
  then show ?thesis by (simp only: sum_mset_sum_list)
qed

text \<open>
  C36: the position cap and the attribution read the same book. As long as the scope has no more rows than
  the read limit, the net position the execution service enforces against is exactly the signed quantity
  of the lots that the round-trip pairing leaves open over the same scope.
\<close>

theorem book_is_what_pairing_leaves_open:
  assumes "jn_enabled j" and "\<forall>r \<in> set (jn_executions j). fill_row_ok r" and "length (jn_executions j) \<le> limit"
  shows "net_position True st sy en ac j = Some (open_weight leg_dir (leftover
    (execution_rows True (Some st) None (Some sy) (Some en) (Some ac) None None limit j)))"
proof -
  let ?p = "\<lambda>r. eq_strategy_id r = st \<and> eq_symbol r = upper sy \<and> eq_environment r = en \<and> eq_account_id r = ac"
  let ?rs = "sort_key eq_recorded_at (filter ?p (jn_executions j))"
  have ok: "\<forall>r \<in> set ?rs. fill_row_ok r" using assms(2) by auto
  have "length ?rs \<le> limit" using assms(3) by (simp add: le_trans [OF length_filter_le])
  then have rows: "execution_rows True (Some st) None (Some sy) (Some en) (Some ac) None None limit j = map exec_row_of ?rs"
    using assms(1) by (simp add: execution_rows_def wanted_def)
  have price: "\<forall>r \<in> set (map exec_row_of ?rs). \<forall>p. er_fill_price r = Some p \<longrightarrow> 0 \<le> p"
    using ok by (auto simp: exec_row_of_def fill_row_ok_def)
  have "filter (in_book st sy en ac) (jn_executions j) = filter eq_filled (filter ?p (jn_executions j))"
    by (auto simp: in_book_def intro!: filter_cong)
  then show ?thesis
    using assms(1) by (simp add: net_position_def rows open_is_net [OF price] signed_weight [OF ok] net_of_rows_eq sum_list_sort
        del: filter_filter)
qed

text \<open>Ten bought and four sold by one strategy, and an order of another that missed.\<close>

definition demo_report :: "string \<Rightarrow> string \<Rightarrow> rat \<Rightarrow> rat option \<Rightarrow> execution_report" where
  "demo_report strategy side q p = \<lparr>rp_symbol = ''AAPL'', rp_side = side, rp_qty = q, rp_decision_price = None,
     rp_fill_price = p, rp_order_type = ''MARKET'', rp_limit_price = None, rp_order_id = [], rp_signal_id = [],
     rp_outcome = [], rp_strategy_id = strategy, rp_strategy_version = ''v1'', rp_environment = ''paper'',
     rp_account_id = ''default'', rp_broker = ''paper''\<rparr>"

definition demo_book :: journal where
  "demo_book = fold (\<lambda>(t, r) j. snd (record_execution t True r j))
     [(1, demo_report ''sma'' ''BUY'' 10 (Some 5)), (2, demo_report ''ema'' ''BUY'' 3 None),
      (3, demo_report ''sma'' ''SELL'' 4 (Some 7))] \<lparr>jn_enabled = True, jn_executions = []\<rparr>"

theorem book_is_what_pairing_leaves_open_witness:
  "net_position True ''sma'' ''aapl'' ''paper'' ''default'' demo_book = Some 6 \<and>
   open_weight leg_dir (leftover (execution_rows True (Some ''sma'') None (Some ''aapl'') (Some ''paper'') (Some ''default'')
     None None 5000 demo_book)) = 6"
proof -
  have a: "jn_enabled demo_book" "length (jn_executions demo_book) \<le> 5000" by code_simp+
  have b: "\<forall>r \<in> set (jn_executions demo_book). fill_row_ok r"
    by (simp add: demo_book_def record_execution_def execution_row_of_def demo_report_def fill_row_ok_def Let_def demo_sides)
  have c: "net_position True ''sma'' ''aapl'' ''paper'' ''default'' demo_book = Some 6" by code_simp
  from book_is_what_pairing_leaves_open [OF a(1) b a(2), of "''sma''" "''aapl''" "''paper''" "''default''"] c
  show ?thesis by simp
qed

end
