(* ===== verification/Paper_Broker.thy ===== *)
theory Paper_Broker
  imports Order_Pricing
begin

text \<open>
  \<open>libs/brokers/src/brokers/paper_broker.py\<close> and the result type of \<open>base.py\<close>: the fill simulator and its
  ledger. The market is a function \<open>mark\<close> from symbols to the price the source answers with, None when
  it has none or raises; the fresh order id (\<open>uuid4\<close>) and the clock are arguments. Every operation runs
  under the broker's lock, so operations are atomic; whether the state file could be written is the
  argument \<open>disk_ok\<close>. Money and quantities are exact.
\<close>

subsection \<open>State\<close>

datatype order_status = NEW | ACCEPTED | PARTIALLY_FILLED | FILLED | REJECTED | CANCELLED

record broker_result =
  br_status :: order_status
  br_external_order_id :: string
  br_fill_price :: "rat option"
  br_rejection_reason :: "msg option"

record execution_order_request =
  rq_signal_id :: string
  rq_symbol :: string
  rq_side :: string
  rq_qty :: int
  rq_order_type :: string
  rq_time_in_force :: string
  rq_stop_loss_rate :: "rat option"
  rq_take_profit_rate :: "rat option"
  rq_limit_price :: "rat option"
  rq_decision_price :: "rat option"
  rq_strategy_id :: string
  rq_account_id :: string
  rq_reduce_only :: bool
  rq_fields_set :: "string list"

record paper_position =
  pp_symbol :: string
  pp_qty :: rat
  pp_average_price :: rat
  pp_opened_at :: "instant option"

record paper_order =
  po_order_id :: string
  po_signal_id :: string
  po_symbol :: string
  po_side :: string
  po_qty :: rat
  po_fill_price :: rat
  po_notional :: rat
  po_submitted_at :: instant
  po_close :: bool

record paper_state =
  ps_cash :: rat
  ps_starting_cash :: rat
  ps_realized_pnl :: rat
  ps_positions :: "(string \<times> paper_position) list"
  ps_orders :: "paper_order list"

record paper_config =
  pc_max_qty :: int
  pc_starting_cash :: rat
  pc_slippage_bps :: rat

text \<open>The broker: its state in memory and what the state file holds.\<close>

record paper_broker =
  pb_state :: paper_state
  pb_disk :: "paper_state option"

definition fresh_state :: "paper_config \<Rightarrow> paper_state" where
  "fresh_state c = \<lparr>ps_cash = pc_starting_cash c, ps_starting_cash = pc_starting_cash c,
     ps_realized_pnl = 0, ps_positions = [], ps_orders = []\<rparr>"

subsection \<open>Pricing and the ledger\<close>

definition fill_price_at :: "paper_config \<Rightarrow> (string \<Rightarrow> rat option) \<Rightarrow> string \<Rightarrow> string \<Rightarrow> rat option" where
  "fill_price_at c mark symbol side =
     (case mark symbol of
        None \<Rightarrow> None
      | Some p \<Rightarrow>
          if p \<le> 0 then None
          else (let drift = p * (pc_slippage_bps c / 10000)
                in Some (py_round 6 (if side = ''BUY'' then p + drift else p - drift))))"

definition opened :: "string \<Rightarrow> rat \<Rightarrow> rat \<Rightarrow> instant \<Rightarrow> paper_position" where
  "opened symbol qty price now = \<lparr>pp_symbol = symbol, pp_qty = qty, pp_average_price = price, pp_opened_at = Some now\<rparr>"

definition apply_buy :: "instant \<Rightarrow> string \<Rightarrow> rat \<Rightarrow> rat \<Rightarrow> paper_state \<Rightarrow> paper_state" where
  "apply_buy now symbol qty price st =
     (let pos = ps_positions st;
          st' = (case map_of pos symbol of
                   None \<Rightarrow> st\<lparr>ps_positions := AList.update symbol (opened symbol qty price now) pos\<rparr>
                 | Some p \<Rightarrow>
                     if pp_qty p = 0 then st\<lparr>ps_positions := AList.update symbol (opened symbol qty price now) pos\<rparr>
                     else if 0 < pp_qty p then
                       (let total_cost = pp_average_price p * pp_qty p + price * qty; q = pp_qty p + qty
                        in st\<lparr>ps_positions := AList.update symbol
                                (p\<lparr>pp_qty := q, pp_average_price := total_cost / q\<rparr>) pos\<rparr>)
                     else
                       (let covered = min qty \<bar>pp_qty p\<bar>; q = pp_qty p + qty;
                            st1 = st\<lparr>ps_realized_pnl := ps_realized_pnl st + (pp_average_price p - price) * covered\<rparr>
                        in if 0 < q then st1\<lparr>ps_positions := AList.update symbol
                                           (p\<lparr>pp_qty := q, pp_average_price := price\<rparr>) pos\<rparr>
                           else if q = 0 then st1\<lparr>ps_positions := AList.delete symbol pos\<rparr>
                           else st1\<lparr>ps_positions := AList.update symbol (p\<lparr>pp_qty := q\<rparr>) pos\<rparr>))
      in st'\<lparr>ps_cash := ps_cash st' - price * qty\<rparr>)"

definition apply_sell :: "instant \<Rightarrow> string \<Rightarrow> rat \<Rightarrow> rat \<Rightarrow> paper_state \<Rightarrow> paper_state" where
  "apply_sell now symbol qty price st =
     (let pos = ps_positions st;
          st' = (case map_of pos symbol of
                   None \<Rightarrow> st\<lparr>ps_positions := AList.update symbol (opened symbol (- qty) price now) pos\<rparr>
                 | Some p \<Rightarrow>
                     if pp_qty p = 0 then st\<lparr>ps_positions := AList.update symbol (opened symbol (- qty) price now) pos\<rparr>
                     else if 0 < pp_qty p then
                       (let closed = min qty (pp_qty p); q = pp_qty p - qty;
                            st1 = st\<lparr>ps_realized_pnl := ps_realized_pnl st + (price - pp_average_price p) * closed\<rparr>
                        in if q = 0 then st1\<lparr>ps_positions := AList.delete symbol pos\<rparr>
                           else if q < 0 then st1\<lparr>ps_positions := AList.update symbol
                                           (p\<lparr>pp_qty := q, pp_average_price := price\<rparr>) pos\<rparr>
                           else st1\<lparr>ps_positions := AList.update symbol (p\<lparr>pp_qty := q\<rparr>) pos\<rparr>)
                     else
                       (let ttl = pp_average_price p * \<bar>pp_qty p\<bar> + price * qty; q = pp_qty p - qty
                        in st\<lparr>ps_positions := AList.update symbol
                                (p\<lparr>pp_qty := q, pp_average_price := ttl / \<bar>q\<bar>\<rparr>) pos\<rparr>))
      in st'\<lparr>ps_cash := ps_cash st' + price * qty\<rparr>)"

subsection \<open>Persistence\<close>

text \<open>What \<open>to_dict\<close> writes: everything, with the last 500 orders.\<close>

definition saved :: "paper_state \<Rightarrow> paper_state" where
  "saved st = st\<lparr>ps_orders := drop (length (ps_orders st) - 500) (ps_orders st)\<rparr>"

definition save_state :: "bool \<Rightarrow> paper_broker \<Rightarrow> paper_broker" where
  "save_state disk_ok b = (if disk_ok then b\<lparr>pb_disk := Some (saved (pb_state b))\<rparr> else b)"

text \<open>A dictionary comprehension: later keys win, first positions are kept.\<close>

definition from_dict :: "paper_state \<Rightarrow> paper_state" where
  "from_dict st = st\<lparr>ps_positions := fold (\<lambda>(k, p). AList.update (upper k) (p\<lparr>pp_symbol := upper (pp_symbol p)\<rparr>))
     (ps_positions st) []\<rparr>"

text \<open>\<open>_load_state\<close> on a file that is absent (None), unreadable (\<open>readable\<close> False) or a saved state.\<close>

definition load_state :: "paper_config \<Rightarrow> bool \<Rightarrow> paper_state option \<Rightarrow> paper_state" where
  "load_state c readable disk =
     (case disk of
        None \<Rightarrow> fresh_state c
      | Some st \<Rightarrow> if readable then from_dict st else fresh_state c)"

subsection \<open>Orders\<close>

definition reject :: "string \<Rightarrow> msg \<Rightarrow> broker_result" where
  "reject oid reason = \<lparr>br_status = REJECTED, br_external_order_id = oid, br_fill_price = None,
     br_rejection_reason = Some reason\<rparr>"

definition append_order :: "paper_order \<Rightarrow> paper_state \<Rightarrow> paper_state" where
  "append_order o' st = st\<lparr>ps_orders := ps_orders st @ [o']\<rparr>"

definition limit_price_of :: "execution_order_request \<Rightarrow> rat option" where
  "limit_price_of r = (case rq_limit_price r of
     None \<Rightarrow> None
   | Some l \<Rightarrow> if upper (rq_order_type r) = ''LIMIT'' \<and> l \<noteq> 0 then Some l else None)"

definition paper_place_order ::
  "paper_config \<Rightarrow> (string \<Rightarrow> rat option) \<Rightarrow> bool \<Rightarrow> string \<Rightarrow> instant \<Rightarrow> execution_order_request
     \<Rightarrow> paper_broker \<Rightarrow> broker_result \<times> paper_broker" where
  "paper_place_order c mark disk_ok oid now r b =
     (let symbol = upper (rq_symbol r) in
      if symbol = ''REJECT'' then (reject oid [S ''symbol_rejected''], b)
      else if pc_max_qty c < rq_qty r then (reject oid [S ''qty_limit_exceeded''], b)
      else
        (let side = upper (rq_side r) in
         if side \<notin> {''BUY'', ''SELL''} then (reject oid [S ''unsupported_side: '', S (rq_side r)], b)
         else
           (case fill_price_at c mark symbol side of
              None \<Rightarrow> (reject oid [S ''no_market_price''], b)
            | Some quote \<Rightarrow>
                (case (case limit_price_of r of None \<Rightarrow> Some quote | Some l \<Rightarrow> limit_fill_price l quote side) of
                   None \<Rightarrow> (\<lparr>br_status = CANCELLED, br_external_order_id = oid, br_fill_price = None,
                             br_rejection_reason = Some [S ''limit_not_marketable'']\<rparr>, b)
                 | Some price \<Rightarrow>
                     (let qty = of_int (rq_qty r); notional = price * qty; st = pb_state b in
                      if side = ''BUY'' \<and> ps_cash st < notional
                      then (reject oid [S ''insufficient_cash: need $'', F '',.2f'' (Fin notional), S '', have $'',
                                        F '',.2f'' (Fin (ps_cash st))], b)
                      else
                        (let st1 = (if side = ''BUY'' then apply_buy now symbol qty price st
                                    else apply_sell now symbol qty price st);
                             st2 = append_order \<lparr>po_order_id = oid, po_signal_id = rq_signal_id r, po_symbol = symbol,
                                     po_side = side, po_qty = qty, po_fill_price = price,
                                     po_notional = py_round 2 notional, po_submitted_at = now, po_close = False\<rparr> st1
                         in (\<lparr>br_status = ACCEPTED, br_external_order_id = oid, br_fill_price = Some price,
                              br_rejection_reason = None\<rparr>,
                             save_state disk_ok (b\<lparr>pb_state := st2\<rparr>))))))))"

definition resolve_symbol :: "string \<Rightarrow> string option \<Rightarrow> paper_state \<Rightarrow> string option" where
  "resolve_symbol position_id symbol st =
     (let held = set (map fst (ps_positions st)); candidate = upper position_id;
          named = (case symbol of None \<Rightarrow> None | Some s \<Rightarrow> if s = [] then None else Some (upper s)) in
      case (case named of None \<Rightarrow> None | Some s \<Rightarrow> if s \<in> held then Some s else None) of
        Some s \<Rightarrow> Some s
      | None \<Rightarrow>
          if candidate \<in> held then Some candidate
          else
            (case find (\<lambda>o'. upper (po_order_id o') = candidate \<and> upper (po_symbol o') \<in> held) (rev (ps_orders st)) of
               Some o' \<Rightarrow> Some (upper (po_symbol o'))
             | None \<Rightarrow> named))"

definition paper_close_position ::
  "paper_config \<Rightarrow> (string \<Rightarrow> rat option) \<Rightarrow> bool \<Rightarrow> string \<Rightarrow> instant \<Rightarrow> string \<Rightarrow> rat option \<Rightarrow> string option
     \<Rightarrow> paper_broker \<Rightarrow> paper_order option \<times> paper_broker" where
  "paper_close_position c mark disk_ok oid now position_id units symbol0 b =
     (let st = pb_state b in
      case resolve_symbol position_id symbol0 st of
        None \<Rightarrow> (None, b)
      | Some symbol \<Rightarrow>
          (case map_of (ps_positions st) symbol of
             None \<Rightarrow> (None, b)
           | Some p \<Rightarrow>
               if pp_qty p = 0 then (None, b)
               else
                 (let qty = (case units of None \<Rightarrow> \<bar>pp_qty p\<bar>
                             | Some u \<Rightarrow> if u = 0 then \<bar>pp_qty p\<bar> else min \<bar>u\<bar> \<bar>pp_qty p\<bar>);
                      side = (if 0 < pp_qty p then ''SELL'' else ''BUY'')
                  in case fill_price_at c mark symbol side of
                       None \<Rightarrow> (None, b)
                     | Some price \<Rightarrow>
                         (let st1 = (if side = ''SELL'' then apply_sell now symbol qty price st
                                     else apply_buy now symbol qty price st);
                              record = \<lparr>po_order_id = oid, po_signal_id = ''close-'' @ symbol, po_symbol = symbol,
                                po_side = side, po_qty = qty, po_fill_price = price,
                                po_notional = py_round 2 (price * qty), po_submitted_at = now, po_close = True\<rparr>
                          in (Some record, save_state disk_ok (b\<lparr>pb_state := append_order record st1\<rparr>))))))"

definition paper_reset :: "paper_config \<Rightarrow> bool \<Rightarrow> paper_broker \<Rightarrow> paper_broker" where
  "paper_reset c disk_ok b = save_state disk_ok (b\<lparr>pb_state := fresh_state c\<rparr>)"

definition paper_restart :: "paper_config \<Rightarrow> bool \<Rightarrow> paper_broker \<Rightarrow> paper_broker" where
  "paper_restart c readable b = b\<lparr>pb_state := load_state c readable (pb_disk b)\<rparr>"

subsection \<open>Account and positions\<close>

record broker_position =
  bp_symbol :: string
  bp_qty :: rat
  bp_position_id :: "string option"
  bp_market_value :: rat
  bp_average_price :: rat
  bp_unrealized_pnl :: rat

definition mark_or_cost :: "(string \<Rightarrow> rat option) \<Rightarrow> paper_position \<Rightarrow> rat" where
  "mark_or_cost mark p = (case mark (pp_symbol p) of None \<Rightarrow> pp_average_price p
     | Some m \<Rightarrow> if m = 0 then pp_average_price p else m)"

definition paper_positions :: "(string \<Rightarrow> rat option) \<Rightarrow> paper_state \<Rightarrow> broker_position list" where
  "paper_positions mark st =
     map (\<lambda>p. let m = mark_or_cost mark p in
            \<lparr>bp_symbol = pp_symbol p, bp_qty = pp_qty p, bp_position_id = None, bp_market_value = py_round 2 (m * pp_qty p),
             bp_average_price = py_round 6 (pp_average_price p),
             bp_unrealized_pnl = py_round 2 ((m - pp_average_price p) * pp_qty p)\<rparr>)
       (filter (\<lambda>p. pp_qty p \<noteq> 0) (map snd (ps_positions st)))"

record account_info =
  ai_buying_power :: rat
  ai_equity :: rat
  ai_cash :: rat
  ai_mode :: string

definition paper_account :: "(string \<Rightarrow> rat option) \<Rightarrow> paper_state \<Rightarrow> account_info" where
  "paper_account mark st =
     (let value = sum_list (map bp_market_value (paper_positions mark st)); cash = ps_cash st in
      \<lparr>ai_buying_power = py_round 2 (max cash 0), ai_equity = py_round 2 (cash + value),
       ai_cash = py_round 2 cash, ai_mode = ''paper''\<rparr>)"

subsection \<open>The ledger invariant\<close>

abbreviation cost_value :: "(string \<times> paper_position) list \<Rightarrow> rat" where
  "cost_value \<equiv> sum_values (\<lambda>p. pp_qty p * pp_average_price p)"

text \<open>Cash and positions at cost account for the starting cash and every realised result; a symbol has
  at most one position, and it is not flat.\<close>

definition ledger_ok :: "paper_state \<Rightarrow> bool" where
  "ledger_ok st = (distinct (map fst (ps_positions st)) \<and>
     (\<forall>(k, p) \<in> set (ps_positions st). pp_qty p \<noteq> 0 \<and> pp_symbol p = k \<and> upper k = k) \<and>
     ps_cash st + cost_value (ps_positions st) = ps_starting_cash st + ps_realized_pnl st)"

definition holding :: "paper_state \<Rightarrow> string \<Rightarrow> rat" where
  "holding st y = (case map_of (ps_positions st) y of None \<Rightarrow> 0 | Some p \<Rightarrow> pp_qty p)"

text \<open>Replacing or dropping one position: what must hold of the new value for the books to balance.\<close>

lemma ledger_put:
  assumes ok: "ledger_ok st" and p: "pp_qty p \<noteq> 0" "pp_symbol p = k" "upper k = k"
    and bal: "cash + pp_qty p * pp_average_price p - (case map_of (ps_positions st) k of None \<Rightarrow> 0
        | Some u \<Rightarrow> pp_qty u * pp_average_price u) = ps_cash st + (pnl - ps_realized_pnl st)"
  shows "ledger_ok (st\<lparr>ps_positions := AList.update k p (ps_positions st), ps_cash := cash, ps_realized_pnl := pnl\<rparr>)"
proof -
  have "distinct (map fst (AList.update k p (ps_positions st)))"
    using ok by (simp add: ledger_ok_def AList.distinct_update)
  moreover have "pp_qty v \<noteq> 0 \<and> pp_symbol v = a \<and> upper a = a" if "(a, v) \<in> set (AList.update k p (ps_positions st))" for a v
    using alist_update_mem [OF that] ok p by (auto simp: ledger_ok_def)
  moreover have "cash + cost_value (AList.update k p (ps_positions st)) = ps_starting_cash st + pnl"
    using ok bal by (simp add: ledger_ok_def sum_values_update)
  ultimately show ?thesis by (auto simp: ledger_ok_def)
qed

lemma ledger_drop:
  assumes ok: "ledger_ok st" and u: "map_of (ps_positions st) k = Some u"
    and bal: "cash - pp_qty u * pp_average_price u = ps_cash st + (pnl - ps_realized_pnl st)"
  shows "ledger_ok (st\<lparr>ps_positions := AList.delete k (ps_positions st), ps_cash := cash, ps_realized_pnl := pnl\<rparr>)"
proof -
  have "distinct (map fst (AList.delete k (ps_positions st)))"
    using ok by (simp add: ledger_ok_def AList.distinct_delete)
  moreover have "cash + cost_value (AList.delete k (ps_positions st)) = ps_starting_cash st + pnl"
    using ok bal u by (simp add: ledger_ok_def sum_values_delete)
  ultimately show ?thesis
    using ok by (auto simp: ledger_ok_def dest!: alist_delete_mem)
qed

lemma holding_put [simp]:
  "holding (st\<lparr>ps_positions := AList.update k p (ps_positions st), ps_cash := cash, ps_realized_pnl := pnl\<rparr>) y
     = (if y = k then pp_qty p else holding st y)"
  "holding (st\<lparr>ps_positions := AList.update k p (ps_positions st), ps_cash := cash\<rparr>) y
     = (if y = k then pp_qty p else holding st y)"
  by (simp_all add: holding_def AList.update_conv')

lemma holding_drop [simp]:
  "holding (st\<lparr>ps_positions := AList.delete k (ps_positions st), ps_cash := cash, ps_realized_pnl := pnl\<rparr>) y
     = (if y = k then 0 else holding st y)"
  by (simp add: holding_def AList.delete_conv')

lemma position_ok:
  "ledger_ok st \<Longrightarrow> map_of (ps_positions st) k = Some p \<Longrightarrow> pp_qty p \<noteq> 0 \<and> pp_symbol p = k \<and> upper k = k"
  by (auto simp: ledger_ok_def dest: map_of_SomeD)

text \<open>The effect of a buy: the books balance, the holding grows by the quantity, the cash pays for it.\<close>

lemma apply_buy_ok:
  assumes ok: "ledger_ok st" and q: "0 < qty" and k: "upper k = k"
  shows "ledger_ok (apply_buy now k qty price st) \<and>
    holding (apply_buy now k qty price st) y = holding st y + (if y = k then qty else 0) \<and>
    ps_cash (apply_buy now k qty price st) = ps_cash st - price * qty \<and>
    ps_orders (apply_buy now k qty price st) = ps_orders st"
proof (cases "map_of (ps_positions st) k")
  case None
  have "apply_buy now k qty price st = st\<lparr>ps_positions := AList.update k (opened k qty price now) (ps_positions st),
      ps_cash := ps_cash st - price * qty, ps_realized_pnl := ps_realized_pnl st\<rparr>"
    using None by (simp add: apply_buy_def)
  with None ledger_put [OF ok, of "opened k qty price now" k "ps_cash st - price * qty" "ps_realized_pnl st"] q k
  show ?thesis by (simp add: opened_def holding_def AList.update_conv')
next
  case (Some p)
  note p = position_ok [OF ok Some]
  have h: "holding st k = pp_qty p" using Some by (simp add: holding_def)
  show ?thesis
  proof (cases "0 < pp_qty p")
    case True
    let ?p = "p\<lparr>pp_qty := pp_qty p + qty, pp_average_price := (pp_average_price p * pp_qty p + price * qty) / (pp_qty p + qty)\<rparr>"
    have eq: "apply_buy now k qty price st = st\<lparr>ps_positions := AList.update k ?p (ps_positions st),
        ps_cash := ps_cash st - price * qty, ps_realized_pnl := ps_realized_pnl st\<rparr>"
      using Some True by (simp add: apply_buy_def Let_def)
    have "pp_qty ?p * pp_average_price ?p = pp_average_price p * pp_qty p + price * qty" using True q by simp
    with ledger_put [OF ok, of ?p k "ps_cash st - price * qty" "ps_realized_pnl st"] Some p True q h show ?thesis
      unfolding eq by (simp add: algebra_simps)
  next
    case False
    with p have neg: "pp_qty p < 0" by simp
    let ?pnl = "ps_realized_pnl st + (pp_average_price p - price) * min qty \<bar>pp_qty p\<bar>"
    consider "0 < pp_qty p + qty" | "pp_qty p + qty = 0" | "pp_qty p + qty < 0" by linarith
    then show ?thesis
    proof cases
      case 1
      let ?p = "p\<lparr>pp_qty := pp_qty p + qty, pp_average_price := price\<rparr>"
      have eq: "apply_buy now k qty price st = st\<lparr>ps_positions := AList.update k ?p (ps_positions st),
          ps_cash := ps_cash st - price * qty, ps_realized_pnl := ?pnl\<rparr>"
        using Some neg 1 by (simp add: apply_buy_def Let_def)
      from ledger_put [OF ok, of ?p k "ps_cash st - price * qty" ?pnl] Some p neg 1 h show ?thesis
        unfolding eq by (simp add: min_def algebra_simps)
    next
      case 2
      have eq: "apply_buy now k qty price st = st\<lparr>ps_positions := AList.delete k (ps_positions st),
          ps_cash := ps_cash st - price * qty, ps_realized_pnl := ?pnl\<rparr>"
        using Some neg 2 by (simp add: apply_buy_def Let_def)
      have "qty = - pp_qty p" using 2 by simp
      with ledger_drop [OF ok Some, of "ps_cash st - price * qty" ?pnl] neg h show ?thesis
        unfolding eq by (simp add: algebra_simps)
    next
      case 3
      let ?p = "p\<lparr>pp_qty := pp_qty p + qty\<rparr>"
      have eq: "apply_buy now k qty price st = st\<lparr>ps_positions := AList.update k ?p (ps_positions st),
          ps_cash := ps_cash st - price * qty, ps_realized_pnl := ?pnl\<rparr>"
        using Some neg 3 by (simp add: apply_buy_def Let_def)
      from ledger_put [OF ok, of ?p k "ps_cash st - price * qty" ?pnl] Some p neg 3 h show ?thesis
        unfolding eq by (simp add: min_def algebra_simps)
    qed
  qed
qed

text \<open>The effect of a sell, its mirror image.\<close>

lemma apply_sell_ok:
  assumes ok: "ledger_ok st" and q: "0 < qty" and k: "upper k = k"
  shows "ledger_ok (apply_sell now k qty price st) \<and>
    holding (apply_sell now k qty price st) y = holding st y - (if y = k then qty else 0) \<and>
    ps_cash (apply_sell now k qty price st) = ps_cash st + price * qty \<and>
    ps_orders (apply_sell now k qty price st) = ps_orders st"
proof (cases "map_of (ps_positions st) k")
  case None
  have "apply_sell now k qty price st = st\<lparr>ps_positions := AList.update k (opened k (- qty) price now) (ps_positions st),
      ps_cash := ps_cash st + price * qty, ps_realized_pnl := ps_realized_pnl st\<rparr>"
    using None by (simp add: apply_sell_def)
  with None ledger_put [OF ok, of "opened k (- qty) price now" k "ps_cash st + price * qty" "ps_realized_pnl st"] q k
  show ?thesis by (simp add: opened_def holding_def AList.update_conv')
next
  case (Some p)
  note p = position_ok [OF ok Some]
  have h: "holding st k = pp_qty p" using Some by (simp add: holding_def)
  show ?thesis
  proof (cases "0 < pp_qty p")
    case False
    with p have neg: "pp_qty p < 0" by simp
    let ?p = "p\<lparr>pp_qty := pp_qty p - qty,
        pp_average_price := (pp_average_price p * \<bar>pp_qty p\<bar> + price * qty) / \<bar>pp_qty p - qty\<bar>\<rparr>"
    have eq: "apply_sell now k qty price st = st\<lparr>ps_positions := AList.update k ?p (ps_positions st),
        ps_cash := ps_cash st + price * qty, ps_realized_pnl := ps_realized_pnl st\<rparr>"
      using Some neg by (simp add: apply_sell_def Let_def)
    have "\<bar>pp_qty p - qty\<bar> = - (pp_qty p - qty)" using neg q by simp
    then have "pp_qty ?p * pp_average_price ?p = pp_average_price p * pp_qty p - price * qty"
      using neg q by (simp add: field_simps)
    with ledger_put [OF ok, of ?p k "ps_cash st + price * qty" "ps_realized_pnl st"] Some p neg q h show ?thesis
      unfolding eq by (simp add: algebra_simps)
  next
    case True
    let ?pnl = "ps_realized_pnl st + (price - pp_average_price p) * min qty (pp_qty p)"
    consider "pp_qty p - qty < 0" | "pp_qty p - qty = 0" | "0 < pp_qty p - qty" by linarith
    then show ?thesis
    proof cases
      case 1
      let ?p = "p\<lparr>pp_qty := pp_qty p - qty, pp_average_price := price\<rparr>"
      have eq: "apply_sell now k qty price st = st\<lparr>ps_positions := AList.update k ?p (ps_positions st),
          ps_cash := ps_cash st + price * qty, ps_realized_pnl := ?pnl\<rparr>"
        using Some True 1 by (simp add: apply_sell_def Let_def)
      from ledger_put [OF ok, of ?p k "ps_cash st + price * qty" ?pnl] Some p True 1 h show ?thesis
        unfolding eq by (simp add: min_def algebra_simps)
    next
      case 2
      have eq: "apply_sell now k qty price st = st\<lparr>ps_positions := AList.delete k (ps_positions st),
          ps_cash := ps_cash st + price * qty, ps_realized_pnl := ?pnl\<rparr>"
        using Some True 2 by (simp add: apply_sell_def Let_def)
      have "qty = pp_qty p" using 2 by simp
      with ledger_drop [OF ok Some, of "ps_cash st + price * qty" ?pnl] h show ?thesis
        unfolding eq by (simp add: algebra_simps)
    next
      case 3
      let ?p = "p\<lparr>pp_qty := pp_qty p - qty\<rparr>"
      have eq: "apply_sell now k qty price st = st\<lparr>ps_positions := AList.update k ?p (ps_positions st),
          ps_cash := ps_cash st + price * qty, ps_realized_pnl := ?pnl\<rparr>"
        using Some True 3 by (simp add: apply_sell_def Let_def)
      from ledger_put [OF ok, of ?p k "ps_cash st + price * qty" ?pnl] Some p True 3 h show ?thesis
        unfolding eq by (simp add: min_def algebra_simps)
    qed
  qed
qed

subsection \<open>What one order does\<close>

definition signed_qty :: "execution_order_request \<Rightarrow> string \<Rightarrow> rat" where
  "signed_qty r y = (if y \<noteq> upper (rq_symbol r) then 0
     else if upper (rq_side r) = ''BUY'' then of_int (rq_qty r) else - of_int (rq_qty r))"

lemma save_state_sel [simp]: "pb_state (save_state ok b) = pb_state b"
  by (simp add: save_state_def)

lemma append_order_sel [simp]:
  "ps_cash (append_order o' st) = ps_cash st" "holding (append_order o' st) y = holding st y"
  "ledger_ok (append_order o' st) = ledger_ok st" "ps_positions (append_order o' st) = ps_positions st"
  "ps_orders (append_order o' st) = ps_orders st @ [o']"
  by (simp_all add: append_order_def holding_def ledger_ok_def)

text \<open>An accepted order, opened up: the price it got and the ledger operation it ran.\<close>

lemma place_order_accepted:
  assumes "paper_place_order c mark disk_ok oid now r b = (res, b')" and "br_status res = ACCEPTED"
  obtains quote price where "upper (rq_side r) \<in> {''BUY'', ''SELL''}"
    "fill_price_at c mark (upper (rq_symbol r)) (upper (rq_side r)) = Some quote"
    "case limit_price_of r of None \<Rightarrow> price = quote | Some l \<Rightarrow> limit_fill_price l quote (upper (rq_side r)) = Some price"
    "br_fill_price res = Some price" "rq_qty r \<le> pc_max_qty c"
    "upper (rq_side r) = ''BUY'' \<Longrightarrow> price * of_int (rq_qty r) \<le> ps_cash (pb_state b)"
    "pb_state b' = append_order \<lparr>po_order_id = oid, po_signal_id = rq_signal_id r, po_symbol = upper (rq_symbol r),
       po_side = upper (rq_side r), po_qty = of_int (rq_qty r), po_fill_price = price,
       po_notional = py_round 2 (price * of_int (rq_qty r)), po_submitted_at = now, po_close = False\<rparr>
       (if upper (rq_side r) = ''BUY'' then apply_buy now (upper (rq_symbol r)) (of_int (rq_qty r)) price (pb_state b)
        else apply_sell now (upper (rq_symbol r)) (of_int (rq_qty r)) price (pb_state b))"
    "b' = save_state disk_ok (b\<lparr>pb_state := pb_state b'\<rparr>)"
proof -
  from assms obtain quote where q: "fill_price_at c mark (upper (rq_symbol r)) (upper (rq_side r)) = Some quote"
    by (auto simp: paper_place_order_def reject_def Let_def split: if_splits option.splits)
  from assms q obtain price where p:
    "(case limit_price_of r of None \<Rightarrow> Some quote | Some l \<Rightarrow> limit_fill_price l quote (upper (rq_side r))) = Some price"
    by (auto simp: paper_place_order_def reject_def Let_def split: if_splits option.splits)
  show thesis
    by (rule that [of quote price])
      (use assms q p in \<open>auto simp: paper_place_order_def reject_def Let_def split: if_splits option.splits\<close>)
qed

lemma place_order_refused:
  "paper_place_order c mark disk_ok oid now r b = (res, b') \<Longrightarrow> br_status res \<noteq> ACCEPTED \<Longrightarrow>
     b' = b \<and> br_fill_price res = None \<and> br_status res \<in> {REJECTED, CANCELLED}"
  by (auto simp: paper_place_order_def reject_def Let_def split: if_splits option.splits)

lemma place_order_effect:
  assumes ok: "ledger_ok (pb_state b)" and q: "0 < rq_qty r"
    and pl: "paper_place_order c mark disk_ok oid now r b = (res, b')" and acc: "br_status res = ACCEPTED"
  shows "ledger_ok (pb_state b') \<and> (\<forall>y. holding (pb_state b') y = holding (pb_state b) y + signed_qty r y) \<and>
    (\<exists>price. br_fill_price res = Some price \<and>
      ps_cash (pb_state b') = ps_cash (pb_state b) - signed_qty r (upper (rq_symbol r)) * price)"
  using pl acc
proof (cases rule: place_order_accepted)
  case (1 quote price)
  have q': "0 < (of_int (rq_qty r) :: rat)" using q by simp
  show ?thesis
    using apply_buy_ok [OF ok q', of "upper (rq_symbol r)" now price]
      apply_sell_ok [OF ok q', of "upper (rq_symbol r)" now price] 1
    by (cases "upper (rq_side r) = ''BUY''") (auto simp: signed_qty_def)
qed

subsection \<open>What a close does\<close>

lemma close_position_Some:
  assumes "paper_close_position c mark disk_ok oid now pid units named b = (Some o', b')"
  obtains k p price where "map_of (ps_positions (pb_state b)) k = Some p" "po_symbol o' = k"
    "po_qty o' = (case units of None \<Rightarrow> \<bar>pp_qty p\<bar> | Some u \<Rightarrow> if u = 0 then \<bar>pp_qty p\<bar> else min \<bar>u\<bar> \<bar>pp_qty p\<bar>)"
    "pb_state b' = append_order o' (if 0 < pp_qty p then apply_sell now k (po_qty o') price (pb_state b)
       else apply_buy now k (po_qty o') price (pb_state b))"
    "b' = save_state disk_ok (b\<lparr>pb_state := pb_state b'\<rparr>)"
proof -
  from assms obtain k where k: "resolve_symbol pid named (pb_state b) = Some k"
    by (cases "resolve_symbol pid named (pb_state b)") (simp_all add: paper_close_position_def)
  with assms obtain p where p: "map_of (ps_positions (pb_state b)) k = Some p" "pp_qty p \<noteq> 0"
    by (cases "map_of (ps_positions (pb_state b)) k") (auto simp: paper_close_position_def Let_def split: if_splits)
  with assms k obtain price where
    price: "fill_price_at c mark k (if 0 < pp_qty p then ''SELL'' else ''BUY'') = Some price"
    by (cases "fill_price_at c mark k (if 0 < pp_qty p then ''SELL'' else ''BUY'')")
      (simp_all add: paper_close_position_def Let_def)
  from assms k p price show thesis
    by (intro that [of k p price]) (cases "0 < pp_qty p"; auto simp: paper_close_position_def Let_def)+
qed

lemma close_position_fill:
  assumes "paper_close_position c mark disk_ok oid now pid units (Some y) b = (Some o', b')"
    and "holding (pb_state b) (upper y) \<noteq> 0" and "y \<noteq> []"
  shows "po_symbol o' = upper y \<and> po_side o' = (if 0 < holding (pb_state b) (upper y) then ''SELL'' else ''BUY'') \<and>
    fill_price_at c mark (upper y) (po_side o') = Some (po_fill_price o') \<and> po_order_id o' = oid"
proof -
  from assms(2) obtain p where p: "map_of (ps_positions (pb_state b)) (upper y) = Some p"
    by (auto simp: holding_def split: option.splits)
  then have "upper y \<in> set (map fst (ps_positions (pb_state b)))" by (force dest: map_of_SomeD)
  with assms(3) have "resolve_symbol pid (Some y) (pb_state b) = Some (upper y)"
    by (simp add: resolve_symbol_def Let_def)
  with assms(1,2) p show ?thesis
    by (auto simp: paper_close_position_def holding_def Let_def split: option.splits if_splits)
qed

lemma close_position_effect:
  assumes ok: "ledger_ok (pb_state b)" and cl: "paper_close_position c mark disk_ok oid now pid units named b = (Some o', b')"
  shows "ledger_ok (pb_state b') \<and> 0 < po_qty o' \<and> po_qty o' \<le> \<bar>holding (pb_state b) (po_symbol o')\<bar> \<and>
    \<bar>holding (pb_state b') (po_symbol o')\<bar> = \<bar>holding (pb_state b) (po_symbol o')\<bar> - po_qty o' \<and>
    0 \<le> holding (pb_state b') (po_symbol o') * holding (pb_state b) (po_symbol o') \<and>
    (\<forall>y. y \<noteq> po_symbol o' \<longrightarrow> holding (pb_state b') y = holding (pb_state b) y)"
proof -
  let ?st = "pb_state b"
  obtain k p price where k: "map_of (ps_positions ?st) k = Some p"
    and o': "po_symbol o' = k" "po_qty o' = (case units of None \<Rightarrow> \<bar>pp_qty p\<bar>
        | Some u \<Rightarrow> if u = 0 then \<bar>pp_qty p\<bar> else min \<bar>u\<bar> \<bar>pp_qty p\<bar>)"
    and b': "pb_state b' = append_order o' (if 0 < pp_qty p then apply_sell now k (po_qty o') price ?st
        else apply_buy now k (po_qty o') price ?st)"
    by (rule close_position_Some [OF cl])
  note p = position_ok [OF ok k]
  have q: "0 < po_qty o'" "po_qty o' \<le> \<bar>pp_qty p\<bar>" using p by (auto simp: o'(2) split: option.splits)
  have h: "holding ?st k = pp_qty p" using k by (simp add: holding_def)
  show ?thesis
  proof (cases "0 < pp_qty p")
    case True
    with apply_sell_ok [OF ok q(1), of k now price] p q h show ?thesis
      by (auto simp: b' o'(1))
  next
    case False
    with p have neg: "pp_qty p < 0" by simp
    with apply_buy_ok [OF ok q(1), of k now price] p q h show ?thesis
      by (auto simp: b' o'(1) intro: mult_nonpos_nonpos)
  qed
qed

subsection \<open>The broker as a machine\<close>

inductive paper_step :: "paper_config \<Rightarrow> paper_broker \<Rightarrow> paper_broker \<Rightarrow> bool" for c where
  place: "0 < rq_qty r \<Longrightarrow> paper_place_order c mark disk_ok oid now r b = (res, b') \<Longrightarrow> paper_step c b b'"
| close: "paper_close_position c mark disk_ok oid now pid units named b = (res', b') \<Longrightarrow> paper_step c b b'"
| reset: "paper_step c b (paper_reset c disk_ok b)"
| restart: "paper_step c b (paper_restart c readable b)"

definition paper_init :: "paper_config \<Rightarrow> paper_broker \<Rightarrow> bool" where
  "paper_init c b = (b = \<lparr>pb_state = fresh_state c, pb_disk = None\<rparr>)"

definition books_ok :: "paper_broker \<Rightarrow> bool" where
  "books_ok b = (ledger_ok (pb_state b) \<and> (\<forall>st. pb_disk b = Some st \<longrightarrow> ledger_ok st))"

lemma ledger_fresh: "ledger_ok (fresh_state c)"
  by (simp add: ledger_ok_def fresh_state_def)

lemma ledger_saved: "ledger_ok (saved st) = ledger_ok st"
  by (simp add: ledger_ok_def saved_def)

text \<open>Loading what a good state saved gives it back, with its last 500 orders.\<close>

lemma from_dict_id:
  assumes "ledger_ok st"
  shows "from_dict st = st"
proof -
  have "fold (\<lambda>(k, p). AList.update (upper k) (p\<lparr>pp_symbol := upper (pp_symbol p)\<rparr>)) xs ys
      = fold (\<lambda>(k, p). AList.update k p) xs ys"
    if "\<forall>(k, p) \<in> set xs. pp_symbol p = k \<and> upper k = k" for xs and ys :: "(string \<times> paper_position) list"
    using that by (induction xs arbitrary: ys) (auto simp: case_prod_unfold)
  then have "fold (\<lambda>(k, p). AList.update (upper k) (p\<lparr>pp_symbol := upper (pp_symbol p)\<rparr>)) (ps_positions st) []
      = fold (\<lambda>(k, p). AList.update k p) (ps_positions st) []"
    using assms by (simp add: ledger_ok_def case_prod_unfold)
  with assms fold_update_distinct [of "[]" "ps_positions st"] show ?thesis
    by (simp add: from_dict_def ledger_ok_def)
qed

lemma books_save: "ledger_ok st \<Longrightarrow> books_ok b \<Longrightarrow> books_ok (save_state ok (b\<lparr>pb_state := st\<rparr>))"
  by (auto simp: books_ok_def save_state_def ledger_saved)

lemma books_step:
  assumes "books_ok b" and "paper_step c b b'"
  shows "books_ok b'"
  using assms(2)
proof cases
  case (place r mark disk_ok oid now res)
  show ?thesis
  proof (cases "br_status res = ACCEPTED")
    case True
    from place_order_effect [OF _ place(1,2) True] assms(1) have "ledger_ok (pb_state b')" by (simp add: books_ok_def)
    moreover have "b' = save_state disk_ok (b\<lparr>pb_state := pb_state b'\<rparr>)"
      by (rule place_order_accepted [OF place(2) True])
    ultimately show ?thesis using books_save [OF _ assms(1)] by metis
  next
    case False
    with place_order_refused [OF place(2)] assms(1) show ?thesis by simp
  qed
next
  case (close mark disk_ok oid now pid units named res')
  show ?thesis
  proof (cases res')
    case None
    with close assms(1) show ?thesis by (auto simp: paper_close_position_def Let_def split: option.splits if_splits)
  next
    case (Some o')
    with close_position_effect [OF _ close [unfolded Some]] assms(1)
    have "ledger_ok (pb_state b')" by (simp add: books_ok_def)
    moreover have "b' = save_state disk_ok (b\<lparr>pb_state := pb_state b'\<rparr>)"
      by (rule close_position_Some [OF close [unfolded Some]])
    ultimately show ?thesis using books_save [OF _ assms(1)] by metis
  qed
next
  case (reset disk_ok)
  with assms(1) show ?thesis by (simp add: paper_reset_def books_save ledger_fresh)
next
  case (restart readable)
  with assms(1) show ?thesis
    by (auto simp: books_ok_def paper_restart_def load_state_def ledger_fresh from_dict_id split: option.split)
qed

interpretation paper: invariant_system "paper_init c" "paper_step c" books_ok for c
proof
  show "books_ok b" if "paper_init c b" for b
    using that by (simp add: paper_init_def books_ok_def ledger_fresh)
  show "books_ok b'" if "books_ok b" "paper_step c b b'" for b b'
    using that by (rule books_step)
qed

subsection \<open>The contract of an order venue\<close>

text \<open>
  What the layers above a broker rely on: an accepted order moves the holding of its own symbol by its
  signed quantity and nothing else, a refused one changes nothing. From it, holdings are the net of
  the accepted orders, whatever the sequence.
\<close>

locale order_venue =
  fixes submit :: "'req \<Rightarrow> 'st \<Rightarrow> 'res \<times> 'st"
    and accepts :: "'res \<Rightarrow> bool"
    and good :: "'st \<Rightarrow> bool"
    and valid :: "'req \<Rightarrow> bool"
    and moves :: "'req \<Rightarrow> string \<Rightarrow> rat"
    and held :: "'st \<Rightarrow> string \<Rightarrow> rat"
  assumes accepted_moves: "good s \<Longrightarrow> valid r \<Longrightarrow> submit r s = (res, s') \<Longrightarrow> accepts res \<Longrightarrow>
      good s' \<and> held s' y = held s y + moves r y"
    and refused_keeps: "submit r s = (res, s') \<Longrightarrow> \<not> accepts res \<Longrightarrow> s' = s"
begin

primrec run :: "'req list \<Rightarrow> 'st \<Rightarrow> 'st" where
  "run [] s = s"
| "run (r # rs) s = run rs (snd (submit r s))"

primrec net_moves :: "'req list \<Rightarrow> 'st \<Rightarrow> string \<Rightarrow> rat" where
  "net_moves [] s y = 0"
| "net_moves (r # rs) s y = (if accepts (fst (submit r s)) then moves r y else 0) + net_moves rs (snd (submit r s)) y"

lemma held_is_net:
  "good s \<Longrightarrow> \<forall>r \<in> set rs. valid r \<Longrightarrow> good (run rs s) \<and> held (run rs s) y = held s y + net_moves rs s y"
proof (induction rs arbitrary: s)
  case (Cons r rs)
  obtain res s' where sub: "submit r s = (res, s')" by fastforce
  show ?case
  proof (cases "accepts res")
    case True
    with accepted_moves [OF Cons.prems(1) _ sub True] Cons sub show ?thesis by simp
  next
    case False
    with refused_keeps [OF sub] Cons sub show ?thesis by simp
  qed
qed simp

end

text \<open>One order with the market, disk and clock it meets.\<close>

type_synonym paper_request = "(string \<Rightarrow> rat option) \<times> bool \<times> string \<times> instant \<times> execution_order_request"

definition paper_submit :: "paper_config \<Rightarrow> paper_request \<Rightarrow> paper_broker \<Rightarrow> broker_result \<times> paper_broker" where
  "paper_submit c q b = (case q of (mark, disk_ok, oid, now, r) \<Rightarrow> paper_place_order c mark disk_ok oid now r b)"

interpretation paper_venue: order_venue "paper_submit c" "\<lambda>res. br_status res = ACCEPTED"
  "\<lambda>b. ledger_ok (pb_state b)" "\<lambda>(mark, ok, oid, now, r). 0 < rq_qty r"
  "\<lambda>(mark, ok, oid, now, r). signed_qty r" "\<lambda>b. holding (pb_state b)" for c
proof
  show "ledger_ok (pb_state s') \<and> holding (pb_state s') y
      = holding (pb_state s) y + (case r of (mark, ok, oid, now, r) \<Rightarrow> signed_qty r) y"
    if "ledger_ok (pb_state s)" "case r of (mark, ok, oid, now, r) \<Rightarrow> 0 < rq_qty r"
      "paper_submit c r s = (res, s')" "br_status res = ACCEPTED" for s r res s' y
    using that place_order_effect by (auto simp: paper_submit_def)
  show "s' = s" if "paper_submit c r s = (res, s')" "br_status res \<noteq> ACCEPTED" for s r res s'
    using that by (auto simp: paper_submit_def dest: place_order_refused split: prod.splits)
qed

subsection \<open>Properties\<close>

text \<open>
  C6: the paper ledger never invents or loses money. In every state reachable by orders, closes,
  resets and restarts, with prices moving and state files failing in any way, cash plus positions at cost
  equals the starting cash plus the realised profit and loss; so with no position open, cash is exactly
  the starting cash plus what was realised.
\<close>

theorem ledger_conserved:
  assumes "reach (paper_init c) (paper_step c) b"
  shows "ps_cash (pb_state b) + sum_list (map (\<lambda>(k, p). pp_qty p * pp_average_price p) (ps_positions (pb_state b)))
      = ps_starting_cash (pb_state b) + ps_realized_pnl (pb_state b) \<and>
    (ps_positions (pb_state b) = [] \<longrightarrow>
       ps_cash (pb_state b) = ps_starting_cash (pb_state b) + ps_realized_pnl (pb_state b))"
  using paper.reach_inv [OF assms]
  by (auto simp: books_ok_def ledger_ok_def sum_values_def case_prod_unfold)

definition demo_config :: paper_config where
  "demo_config = \<lparr>pc_max_qty = 1000, pc_starting_cash = 100000, pc_slippage_bps = 0\<rparr>"

definition demo_request :: "string \<Rightarrow> int \<Rightarrow> execution_order_request" where
  "demo_request side q = \<lparr>rq_signal_id = ''s'', rq_symbol = ''AAPL'', rq_side = side, rq_qty = q,
     rq_order_type = ''MARKET'', rq_time_in_force = ''DAY'', rq_stop_loss_rate = None, rq_take_profit_rate = None,
     rq_limit_price = None, rq_decision_price = None,
     rq_strategy_id = ''sma'', rq_account_id = ''default'', rq_reduce_only = False, rq_fields_set = []\<rparr>"

definition demo_fresh :: paper_broker where
  "demo_fresh = \<lparr>pb_state = fresh_state demo_config, pb_disk = None\<rparr>"

definition demo_bought :: paper_broker where
  "demo_bought = snd (paper_place_order demo_config (\<lambda>_. Some 5) True ''o1'' 1 (demo_request ''BUY'' 10) demo_fresh)"

lemma demo_broker_reach: "reach (paper_init demo_config) (paper_step demo_config) demo_bought"
proof -
  have i: "reach (paper_init demo_config) (paper_step demo_config) demo_fresh"
    by (rule reach_init) (simp add: paper_init_def demo_fresh_def)
  obtain res where r: "paper_place_order demo_config (\<lambda>_. Some 5) True ''o1'' 1 (demo_request ''BUY'' 10) demo_fresh
      = (res, demo_bought)"
    by (metis demo_bought_def prod.collapse)
  show ?thesis by (rule reach_step [OF i]) (rule paper_step.place [OF _ r], simp add: demo_request_def)
qed

theorem ledger_conserved_witness:
  "ps_cash (pb_state demo_bought) +
     sum_list (map (\<lambda>(k, p). pp_qty p * pp_average_price p) (ps_positions (pb_state demo_bought)))
   = ps_starting_cash (pb_state demo_bought) + ps_realized_pnl (pb_state demo_bought)"
  using ledger_conserved [OF demo_broker_reach] by simp

text \<open>
  an order does what it says or nothing. In a good state, an accepted order moves the holding of its
  symbol by exactly its signed quantity and the cash by exactly the fill, leaves every other holding
  alone, fills no worse than its limit, and a buy never spends more cash than there is. Any other answer
  is a rejection or a cancellation without a fill and leaves the broker, file included, as it was.
\<close>

theorem order_effect_exact:
  assumes "books_ok b" and "0 < rq_qty r"
    and "paper_place_order c mark disk_ok oid now r b = (res, b')"
  shows "(br_status res = ACCEPTED \<longrightarrow>
      (\<exists>price. br_fill_price res = Some price \<and>
         (\<forall>y. holding (pb_state b') y = holding (pb_state b) y + signed_qty r y) \<and>
         ps_cash (pb_state b') = ps_cash (pb_state b) - signed_qty r (upper (rq_symbol r)) * price \<and>
         (upper (rq_side r) = ''BUY'' \<longrightarrow> 0 \<le> ps_cash (pb_state b')) \<and>
         (\<forall>l. limit_price_of r = Some l \<longrightarrow> (if upper (rq_side r) = ''BUY'' then price \<le> l else l \<le> price)))) \<and>
    (br_status res \<noteq> ACCEPTED \<longrightarrow> b' = b \<and> br_fill_price res = None \<and> br_status res \<in> {REJECTED, CANCELLED})"
proof (cases "br_status res = ACCEPTED")
  case False
  with place_order_refused [OF assms(3)] show ?thesis by blast
next
  case True
  have eff: "(\<forall>y. holding (pb_state b') y = holding (pb_state b) y + signed_qty r y) \<and>
      (\<exists>price. br_fill_price res = Some price \<and>
        ps_cash (pb_state b') = ps_cash (pb_state b) - signed_qty r (upper (rq_symbol r)) * price)"
    using place_order_effect [OF _ assms(2,3) True] assms(1) by (simp add: books_ok_def)
  from assms(3) True show ?thesis
  proof (cases rule: place_order_accepted)
    case (1 quote price)
    have "if upper (rq_side r) = ''BUY'' then price \<le> l else l \<le> price" if "limit_price_of r = Some l" for l
      using 1(3) that limit_fill_bounds [of l quote "upper (rq_side r)" price] by (auto split: if_splits)
    with eff 1(4,6) True show ?thesis by (auto simp: signed_qty_def mult.commute)
  qed
qed

lemma demo_sell_accepted:
  "br_status (fst (paper_place_order demo_config (\<lambda>_. Some 5) True ''o2'' 2 (demo_request ''SELL'' 4) demo_bought)) = ACCEPTED"
  by code_simp

lemma demo_bought_holding: "holding (pb_state demo_bought) ''AAPL'' = 10" by code_simp

theorem order_effect_exact_witness:
  "\<exists>res b'. paper_place_order demo_config (\<lambda>_. Some 5) True ''o2'' 2 (demo_request ''SELL'' 4) demo_bought = (res, b') \<and>
     br_status res = ACCEPTED \<and> holding (pb_state b') ''AAPL'' = 6"
proof -
  obtain res b' where p: "paper_place_order demo_config (\<lambda>_. Some 5) True ''o2'' 2 (demo_request ''SELL'' 4) demo_bought
      = (res, b')" by fastforce
  have s: "signed_qty (demo_request ''SELL'' 4) ''AAPL'' = - 4" by code_simp
  have "books_ok demo_bought" by (rule paper.reach_inv [OF demo_broker_reach])
  from order_effect_exact [OF this _ p] p demo_sell_accepted demo_bought_holding s show ?thesis
    by (auto simp: demo_request_def)
qed

text \<open>
  a close only reduces. A close that returns a fill takes a positive quantity of the symbol it names,
  no more than is held, never flips the side, and touches no other holding; asked without units it leaves
  the position flat.
\<close>

theorem close_only_reduces:
  assumes "books_ok b" and "paper_close_position c mark disk_ok oid now pid units named b = (Some o', b')"
  shows "0 < po_qty o' \<and> po_qty o' \<le> \<bar>holding (pb_state b) (po_symbol o')\<bar> \<and>
    \<bar>holding (pb_state b') (po_symbol o')\<bar> = \<bar>holding (pb_state b) (po_symbol o')\<bar> - po_qty o' \<and>
    0 \<le> holding (pb_state b') (po_symbol o') * holding (pb_state b) (po_symbol o') \<and>
    (\<forall>y. y \<noteq> po_symbol o' \<longrightarrow> holding (pb_state b') y = holding (pb_state b) y) \<and>
    (units = None \<longrightarrow> holding (pb_state b') (po_symbol o') = 0)"
proof -
  have eff: "0 < po_qty o' \<and> po_qty o' \<le> \<bar>holding (pb_state b) (po_symbol o')\<bar> \<and>
    \<bar>holding (pb_state b') (po_symbol o')\<bar> = \<bar>holding (pb_state b) (po_symbol o')\<bar> - po_qty o' \<and>
    0 \<le> holding (pb_state b') (po_symbol o') * holding (pb_state b) (po_symbol o') \<and>
    (\<forall>y. y \<noteq> po_symbol o' \<longrightarrow> holding (pb_state b') y = holding (pb_state b) y)"
    using close_position_effect [OF _ assms(2)] assms(1) by (simp add: books_ok_def)
  from assms(2) show ?thesis
  proof (cases rule: close_position_Some)
    case (1 k p price)
    then have "units = None \<longrightarrow> po_qty o' = \<bar>holding (pb_state b) (po_symbol o')\<bar>" by (auto simp: holding_def)
    with eff show ?thesis by auto
  qed
qed

lemma demo_strings: "upper ''BUY'' = ''BUY''" "upper ''AAPL'' = ''AAPL''" "py_round 6 5 = 5"
  by code_simp+

lemma demo_bought_positions:
  "ps_positions (pb_state demo_bought) = [(''AAPL'', opened ''AAPL'' 10 5 1)]"
  by (simp add: demo_bought_def paper_place_order_def demo_request_def demo_config_def demo_fresh_def fresh_state_def
      fill_price_at_def limit_price_of_def demo_strings apply_buy_def Let_def)

theorem close_only_reduces_witness:
  "\<exists>o' b'. paper_close_position demo_config (\<lambda>_. Some 6) True ''o3'' 3 ''AAPL'' None None demo_bought = (Some o', b') \<and>
     holding (pb_state b') (po_symbol o') = 0"
proof -
  have "\<exists>o' b'. paper_close_position demo_config (\<lambda>_. Some 6) True ''o3'' 3 ''AAPL'' None None demo_bought = (Some o', b')"
    by (simp add: demo_bought_positions paper_close_position_def resolve_symbol_def fill_price_at_def demo_strings
        opened_def Let_def)
  then obtain o' b' where p: "paper_close_position demo_config (\<lambda>_. Some 6) True ''o3'' 3 ''AAPL'' None None demo_bought = (Some o', b')"
    by blast
  have "books_ok demo_bought" by (rule paper.reach_inv [OF demo_broker_reach])
  from close_only_reduces [OF this p] p show ?thesis by auto
qed

text \<open>
  holdings survive a restart. After a state has been saved, a process that reads the file back has
  the same cash, positions and realised result, and the last 500 orders.
\<close>

theorem restart_restores:
  assumes "books_ok b"
  shows "pb_state (paper_restart c True (save_state True b)) =
    pb_state b\<lparr>ps_orders := drop (length (ps_orders (pb_state b)) - 500) (ps_orders (pb_state b))\<rparr>"
  using assms from_dict_id [of "saved (pb_state b)"]
  by (simp add: books_ok_def paper_restart_def load_state_def save_state_def ledger_saved) (simp add: saved_def)

theorem restart_restores_witness:
  "ps_positions (pb_state (paper_restart demo_config True (save_state True demo_bought))) = ps_positions (pb_state demo_bought)"
  using restart_restores [OF paper.reach_inv [OF demo_broker_reach], of demo_config] by simp

text \<open>
  a position is the net of the accepted orders. From any good state, after any sequence of valid
  orders, each meeting its own market, clock and disk, every holding is what it was plus the signed
  quantities of exactly the accepted ones.
\<close>

theorem holdings_are_net_of_fills:
  assumes "ledger_ok (pb_state b)" and "\<forall>(mark, ok, oid, now, r) \<in> set rs. 0 < rq_qty r"
  shows "holding (pb_state (paper_venue.run c rs b)) y = holding (pb_state b) y + paper_venue.net_moves c rs b y"
  using paper_venue.held_is_net [OF assms] by blast

theorem holdings_are_net_of_fills_witness:
  "holding (pb_state (paper_venue.run demo_config [(\<lambda>_. Some 5, True, ''o1'', 1, demo_request ''BUY'' 10)] demo_fresh)) ''AAPL''
   = holding (pb_state demo_fresh) ''AAPL'' +
     paper_venue.net_moves demo_config [(\<lambda>_. Some 5, True, ''o1'', 1, demo_request ''BUY'' 10)] demo_fresh ''AAPL''"
  by (rule holdings_are_net_of_fills) (simp_all add: demo_fresh_def ledger_fresh demo_request_def)

end
