(* ===== verification/Routing.thy ===== *)
theory Routing
  imports Prelude
begin

text \<open>
  \<open>libs/lifecycle/src/lifecycle/routing.py\<close>: the pure decision which venue, if any, an order may
  reach. The intent and the route are the source's enums; the sleeve's state, its position
  environment and its origin are strings there and stay strings here, so the branch for an
  unrecognised state is part of the model.
\<close>

datatype order_intent = ENTRY | REDUCE_ONLY

datatype execution_route = BLOCKED | SHADOW | SIMULATED | LIVE

fun route_value :: "execution_route \<Rightarrow> string" where
  "route_value BLOCKED = ''blocked''"
| "route_value SHADOW = ''shadow''"
| "route_value SIMULATED = ''simulated''"
| "route_value LIVE = ''live''"

definition NON_LIVE_ROUTES :: "execution_route set" where
  "NON_LIVE_ROUTES = {BLOCKED, SHADOW, SIMULATED}"

definition POSITION_NONE :: string where
  "POSITION_NONE = ''none''"

definition POSITION_SIMULATED :: string where
  "POSITION_SIMULATED = ''simulated''"

definition POSITION_LIVE :: string where
  "POSITION_LIVE = ''live''"

lemmas position_defs = POSITION_NONE_def POSITION_SIMULATED_def POSITION_LIVE_def

record route_decision =
  route :: execution_route
  route_reason :: msg

definition places_order :: "route_decision \<Rightarrow> bool" where
  "places_order d = (route d \<in> {SIMULATED, LIVE})"

definition is_live :: "route_decision \<Rightarrow> bool" where
  "is_live d = (route d = LIVE)"

abbreviation decide :: "execution_route \<Rightarrow> msg \<Rightarrow> route_decision" where
  "decide r m \<equiv> \<lparr>route = r, route_reason = m\<rparr>"

definition position_route :: "string \<Rightarrow> execution_route" where
  "position_route position_environment =
     (if position_environment = POSITION_LIVE then LIVE
      else if position_environment = POSITION_SIMULATED then SIMULATED
      else SHADOW)"

definition resolve_route ::
  "string \<Rightarrow> order_intent \<Rightarrow> bool \<Rightarrow> string \<Rightarrow> bool \<Rightarrow> msg \<Rightarrow> string \<Rightarrow> route_decision" where
  "resolve_route state intent live_mode_enabled position_environment entries_halted halt_reason origin =
     (let reducing = (intent = REDUCE_ONLY);
          live_mode_enabled = (if origin = ''challenger'' \<and> \<not> reducing then False
                               else live_mode_enabled)
      in if reducing then
           (let r = position_route position_environment in
            if r = SHADOW
            then decide SHADOW [S ''reduce_only_but_no_position_environment'']
            else decide r [S ''reduce_only_exit_to_'', S (route_value r)])
         else if entries_halted then
           decide BLOCKED (msg_or halt_reason [S ''entries_halted''])
         else if state = ''candidate'' then decide SHADOW [S ''candidate_shadow_only'']
         else if state = ''paper'' then decide SIMULATED [S ''paper_sleeve'']
         else if state = ''live'' then
           (if \<not> live_mode_enabled then decide BLOCKED [S ''live_mode_disabled_by_operator'']
            else decide LIVE [S ''live_sleeve_live_mode_enabled''])
         else if state \<in> {''probation'', ''retired''} then
           decide BLOCKED [S ''sleeve_'', S state]
         else decide BLOCKED [S ''unknown_state_'', S state])"

text \<open>\<open>assert_not_live\<close> returns nothing, or raises.\<close>

definition assert_not_live :: "execution_route \<Rightarrow> string \<Rightarrow> exn + unit" where
  "assert_not_live r adapter_name =
     (if r \<notin> NON_LIVE_ROUTES then Inr ()
      else Inl (PermissionError [S ''Route '', S (route_value r),
                  S '' must not reach live adapter '', S adapter_name]))"

subsection \<open>What the router's clients rely on\<close>

lemma resolve_route_reduce:
  "resolve_route st REDUCE_ONLY lm pe h hr og =
     (let r = position_route pe in
      if r = SHADOW then decide SHADOW [S ''reduce_only_but_no_position_environment'']
      else decide r [S ''reduce_only_exit_to_'', S (route_value r)])"
  by (simp add: resolve_route_def Let_def)

lemma route_resolve_reduce [simp]:
  "route (resolve_route st REDUCE_ONLY lm pe h hr og) = position_route pe"
  by (simp add: resolve_route_reduce Let_def)

lemma route_resolve_entry:
  "route (resolve_route st ENTRY lm pe h hr og) =
     (if h then BLOCKED
      else if st = ''candidate'' then SHADOW
      else if st = ''paper'' then SIMULATED
      else if st = ''live'' \<and> lm \<and> og \<noteq> ''challenger'' then LIVE
      else BLOCKED)"
  by (simp add: resolve_route_def Let_def)

lemma position_route_not_blocked: "position_route pe \<noteq> BLOCKED"
  by (simp add: position_route_def)

lemma assert_not_live_Inr: "assert_not_live r n = Inr () \<longleftrightarrow> r = LIVE"
  by (cases r) (auto simp: assert_not_live_def NON_LIVE_ROUTES_def)

end
