(* ===== verification/Lifecycle_Store.thy ===== *)
theory Lifecycle_Store
  imports Routing
begin

text \<open>
  \<open>libs/lifecycle/src/lifecycle/store.py\<close> over the schema of \<open>migrations/\<close>: the shared lifecycle
  authority. The database is a record of tables; a method of \<open>PostgresLifecycleStore\<close> is a function
  from the database to an exception or a result with the new database. One method is one
  transaction: an \<open>Inl\<close> carries no new database because the transaction rolled back. Column
  constraints, unique keys and foreign keys of the migrations are checked at insertion and raise
  \<open>IntegrityError\<close>. \<open>now\<close> is the transaction's clock; \<open>digest\<close> stands for
  \<open>sha256(json.dumps(_, sort_keys=True))\<close>.
\<close>

subsection \<open>Rows\<close>

record sleeve =
  sl_id :: nat
  sl_strategy_id :: string
  sl_strategy_version :: string
  sl_symbol :: string
  sl_asset_class :: string
  sl_account_id :: string
  sl_state :: string
  sl_version :: int
  sl_since :: instant
  sl_reason :: msg
  sl_probation_count :: int
  sl_position_environment :: string
  sl_origin :: string

record sleeve_row = sleeve +
  sl_created_at :: instant
  sl_updated_at :: instant

record transition_row =
  tr_sleeve_id :: nat
  tr_seq :: int
  tr_from_state :: string
  tr_to_state :: string
  tr_reason :: msg
  tr_actor :: string
  tr_evidence_snapshot_id :: "nat option"
  tr_created_at :: instant

record evidence_scope =
  es_strategy_id :: string
  es_strategy_version :: string
  es_symbol :: string
  es_asset_class :: string
  es_environment :: string
  es_broker :: string
  es_account_id :: string
  es_portfolio_id :: string
  es_window_start :: instant
  es_window_end :: instant
  es_data_version :: string
  es_model_version :: string

record source_artifact =
  sa_id :: nat
  sa_kind :: string
  sa_content_hash :: string
  sa_created_at :: instant
  sa_produced_by :: "string option"

record evidence_row =
  ev_id :: nat
  ev_scope :: evidence_scope
  ev_metrics :: jdict
  ev_source_artifacts :: "source_artifact list"
  ev_content_hash :: string
  ev_created_at :: instant

record artifact_row =
  ar_id :: nat
  ar_kind :: string
  ar_strategy_id :: string
  ar_strategy_version :: string
  ar_symbol :: string
  ar_asset_class :: string
  ar_environment :: string
  ar_account_id :: string
  ar_window_start :: instant
  ar_window_end :: instant
  ar_data_version :: string
  ar_model_version :: string
  ar_payload :: "jdict option"
  ar_content_hash :: string
  ar_produced_by :: string
  ar_created_at :: instant

record challenger =
  ch_challenger_id :: string
  ch_strategy_id :: string
  ch_symbol :: string
  ch_base_version :: string
  ch_parameters :: json
  ch_rationale :: string
  ch_clamped :: "string list"
  ch_bounds_version :: string
  ch_generator :: string

record challenger_row =
  cr_id :: nat
  cr_campaign_id :: string
  cr_account_id :: string
  cr_challenger :: challenger
  cr_deflated_sharpe_campaign :: "pyfloat option"
  cr_deflated_sharpe_own_search :: "pyfloat option"
  cr_pooled_trials :: int
  cr_out_of_sample_sharpe :: "pyfloat option"
  cr_survived :: bool
  cr_created_at :: instant

record learning_report =
  lr_campaign_id :: string
  lr_strategy_id :: string
  lr_symbol :: string
  lr_base_version :: string
  lr_status :: string
  lr_as_of :: instant
  lr_content_hash :: "string option"
  lr_deployment_authority :: "bool option"
  lr_promotion_authority :: "bool option"

record learning_row =
  lc_id :: nat
  lc_account_id :: string
  lc_symbol :: string
  lc_report :: learning_report
  lc_content_hash :: string
  lc_deployment_authority :: bool
  lc_promotion_authority :: bool
  lc_created_at :: instant

record environment_row =
  en_live_mode_enabled :: bool
  en_updated_by :: string
  en_reason :: string
  en_updated_at :: instant

record reconciliation_row =
  rc_halted :: bool
  rc_consecutive_breaks :: int
  rc_first_failure_at :: "instant option"
  rc_last_ok_at :: "instant option"
  rc_last_checked_at :: "instant option"
  rc_last_error :: msg
  rc_halt_reason :: msg
  rc_cleared_by :: string
  rc_cleared_at :: "instant option"

record journal_health_row =
  jh_strategy_id :: string
  jh_symbol :: string
  jh_environment :: string
  jh_expected_observations :: int
  jh_actual_observations :: int
  jh_gap_count :: int
  jh_eligible_for_learning :: bool
  jh_last_gap_at :: "instant option"
  jh_status :: string

record db =
  sleeves :: "sleeve_row list"
  transitions_table :: "transition_row list"
  evidence_table :: "evidence_row list"
  artifacts :: "artifact_row list"
  challengers :: "challenger_row list"
  learning_cycle_table :: "learning_row list"
  environment :: "string \<rightharpoonup> environment_row"
  reconciliation :: "string \<times> string \<times> string \<rightharpoonup> reconciliation_row"
  journal_health :: "string \<times> instant \<times> instant \<rightharpoonup> journal_health_row"
  sleeve_id_seq :: nat
  evidence_id_seq :: nat
  artifact_id_seq :: nat
  challenger_id_seq :: nat
  learning_id_seq :: nat

definition empty_db :: db where
  "empty_db = \<lparr>sleeves = [], transitions_table = [], evidence_table = [], artifacts = [],
     challengers = [], learning_cycle_table = [], environment = Map.empty,
     reconciliation = Map.empty, journal_health = Map.empty, sleeve_id_seq = 1, evidence_id_seq = 1,
     artifact_id_seq = 1, challenger_id_seq = 1, learning_id_seq = 1\<rparr>"

record store_settings =
  cfg_account_id :: string
  cfg_dependency_grace_seconds :: int
  cfg_breaks_before_halt :: int

definition default_settings :: store_settings where
  "default_settings = \<lparr>cfg_account_id = ''default'', cfg_dependency_grace_seconds = 600,
     cfg_breaks_before_halt = 2\<rparr>"

definition STATES :: "string list" where
  "STATES = [''candidate'', ''paper'', ''live'', ''probation'', ''retired'']"

definition sleeve_key :: "string \<Rightarrow> string \<Rightarrow> string" where
  "sleeve_key strategy_id symbol = upper symbol @ '':'' @ strategy_id"

definition POSITION_ON_ENTRY :: "string \<rightharpoonup> string" where
  "POSITION_ON_ENTRY = [''paper'' \<mapsto> POSITION_SIMULATED, ''live'' \<mapsto> POSITION_LIVE]"

definition key_of :: "('a) sleeve_scheme \<Rightarrow> string" where
  "key_of s = sl_symbol s @ '':'' @ sl_strategy_id s"

definition can_enter :: "('a) sleeve_scheme \<Rightarrow> bool" where
  "can_enter s = (sl_state s \<in> {''paper'', ''live''})"

definition identity :: "('a) sleeve_scheme \<Rightarrow> string \<times> string \<times> string" where
  "identity s = (sl_strategy_id s, sl_symbol s, sl_account_id s)"

text \<open>The \<open>CHECK\<close> constraints of the \<open>sleeve\<close> table.\<close>

definition sleeve_checks :: "('a) sleeve_scheme \<Rightarrow> bool" where
  "sleeve_checks s =
     (sl_state s \<in> set STATES \<and>
      sl_position_environment s \<in> {''none'', ''simulated'', ''live''} \<and>
      sl_origin s \<in> {''human'', ''challenger''})"

subsection \<open>Reads\<close>

definition row_to_sleeve :: "sleeve_row \<Rightarrow> sleeve" where
  "row_to_sleeve r = \<lparr>sl_id = sl_id r, sl_strategy_id = sl_strategy_id r,
     sl_strategy_version = sl_strategy_version r, sl_symbol = sl_symbol r,
     sl_asset_class = sl_asset_class r, sl_account_id = sl_account_id r, sl_state = sl_state r,
     sl_version = sl_version r, sl_since = sl_since r, sl_reason = sl_reason r,
     sl_probation_count = sl_probation_count r,
     sl_position_environment = sl_position_environment r, sl_origin = sl_origin r\<rparr>"

definition select_identity :: "string \<Rightarrow> string \<Rightarrow> string \<Rightarrow> db \<Rightarrow> sleeve_row option" where
  "select_identity strategy_id symbol account d =
     find (\<lambda>r. identity r = (strategy_id, symbol, account)) (sleeves d)"

definition select_id :: "nat \<Rightarrow> db \<Rightarrow> sleeve_row option" where
  "select_id i d = find (\<lambda>r. sl_id r = i) (sleeves d)"

definition store_get :: "store_settings \<Rightarrow> string \<Rightarrow> string \<Rightarrow> string option \<Rightarrow> db \<Rightarrow> sleeve option" where
  "store_get cfg strategy_id symbol account_id d =
     map_option row_to_sleeve
       (select_identity strategy_id (upper symbol) (or_default account_id (cfg_account_id cfg)) d)"

definition store_require ::
  "store_settings \<Rightarrow> string \<Rightarrow> string \<Rightarrow> string option \<Rightarrow> db \<Rightarrow> exn + sleeve" where
  "store_require cfg strategy_id symbol account_id d =
     (case store_get cfg strategy_id symbol account_id d of
        None \<Rightarrow> Inl (SleeveNotFoundError [S (upper symbol), S '':'', S strategy_id, S '' is not registered''])
      | Some s \<Rightarrow> Inr s)"

text \<open>\<open>ORDER BY symbol, strategy_id\<close>, in the byte order of the C collation.\<close>

definition store_all :: "store_settings \<Rightarrow> string option \<Rightarrow> db \<Rightarrow> sleeve list" where
  "store_all cfg account_id d =
     map row_to_sleeve
       (sort_key (\<lambda>r. (sl_symbol r, sl_strategy_id r))
         (filter (\<lambda>r. sl_account_id r = or_default account_id (cfg_account_id cfg)) (sleeves d)))"

definition live_sleeves :: "store_settings \<Rightarrow> string option \<Rightarrow> db \<Rightarrow> sleeve list" where
  "live_sleeves cfg account_id d = filter (\<lambda>s. sl_state s = ''live'') (store_all cfg account_id d)"

definition store_transitions :: "nat \<Rightarrow> nat \<Rightarrow> db \<Rightarrow> transition_row list" where
  "store_transitions sleeve_id limit d =
     take limit (rev (sort_key tr_seq (filter (\<lambda>t. tr_sleeve_id t = sleeve_id) (transitions_table d))))"

definition paper_challengers :: "store_settings \<Rightarrow> string option \<Rightarrow> string option \<Rightarrow> db \<Rightarrow> sleeve list" where
  "paper_challengers cfg symbol account_id d =
     map row_to_sleeve
       (filter (\<lambda>r. sl_origin r = ''challenger'' \<and> sl_state r = ''paper'' \<and>
                 sl_account_id r = or_default account_id (cfg_account_id cfg) \<and>
                 (case symbol of None \<Rightarrow> True | Some s \<Rightarrow> sl_symbol r = upper s))
         (sleeves d))"

subsection \<open>The operator's live-mode switch\<close>

definition live_mode_enabled :: "store_settings \<Rightarrow> string option \<Rightarrow> db \<Rightarrow> bool" where
  "live_mode_enabled cfg account_id d =
     (case environment d (or_default account_id (cfg_account_id cfg)) of
        None \<Rightarrow> False
      | Some r \<Rightarrow> en_live_mode_enabled r)"

definition set_live_mode ::
  "store_settings \<Rightarrow> instant \<Rightarrow> bool \<Rightarrow> string \<Rightarrow> string \<Rightarrow> string option \<Rightarrow> db \<Rightarrow> bool \<times> db" where
  "set_live_mode cfg now enabled actor reason account_id d =
     (let account = or_default account_id (cfg_account_id cfg) in
      (enabled, d\<lparr>environment := (environment d)(account \<mapsto>
         \<lparr>en_live_mode_enabled = enabled, en_updated_by = actor, en_reason = reason,
          en_updated_at = now\<rparr>)\<rparr>))"

subsection \<open>Writes to the roster\<close>

definition append_transition ::
  "instant \<Rightarrow> nat \<Rightarrow> int \<Rightarrow> string \<Rightarrow> string \<Rightarrow> msg \<Rightarrow> string \<Rightarrow> nat option \<Rightarrow> db \<Rightarrow> exn + db" where
  "append_transition now sleeve_id seq from_state to_state reason actor evidence_snapshot_id d =
     (if sleeve_id \<notin> sl_id ` set (sleeves d) then Inl (IntegrityError ''transition_sleeve_id_fkey'')
      else if (case evidence_snapshot_id of None \<Rightarrow> False | Some e \<Rightarrow> e \<notin> ev_id ` set (evidence_table d))
      then Inl (IntegrityError ''transition_evidence_snapshot_id_fkey'')
      else if (sleeve_id, seq) \<in> (\<lambda>t. (tr_sleeve_id t, tr_seq t)) ` set (transitions_table d)
      then Inl (IntegrityError ''transition_seq_unique'')
      else Inr (d\<lparr>transitions_table := transitions_table d @
        [\<lparr>tr_sleeve_id = sleeve_id, tr_seq = seq, tr_from_state = from_state,
          tr_to_state = to_state, tr_reason = reason, tr_actor = actor,
          tr_evidence_snapshot_id = evidence_snapshot_id, tr_created_at = now\<rparr>]\<rparr>))"

text \<open>The last statements of every roster write: append the transition, re-read the row.\<close>

definition log_and_return ::
  "instant \<Rightarrow> nat \<Rightarrow> int \<Rightarrow> string \<Rightarrow> string \<Rightarrow> msg \<Rightarrow> string \<Rightarrow> nat option \<Rightarrow> db \<Rightarrow> exn + sleeve \<times> db" where
  "log_and_return now sleeve_id seq from_state to_state reason actor evidence_snapshot_id d =
     (case append_transition now sleeve_id seq from_state to_state reason actor evidence_snapshot_id d of
        Inl e \<Rightarrow> Inl e
      | Inr d' \<Rightarrow>
          (case select_id sleeve_id d' of
             None \<Rightarrow> Inl (TypeError ''NoneType'')
           | Some r \<Rightarrow> Inr (row_to_sleeve r, d')))"

definition store_register ::
  "store_settings \<Rightarrow> instant \<Rightarrow> string \<Rightarrow> string \<Rightarrow> string \<Rightarrow> string \<Rightarrow> string option \<Rightarrow> string \<Rightarrow> string
     \<Rightarrow> db \<Rightarrow> exn + sleeve \<times> db" where
  "store_register cfg now strategy_id symbol0 strategy_version asset_class account_id actor origin d =
     (let account = or_default account_id (cfg_account_id cfg); symbol = upper symbol0 in
      case select_identity strategy_id symbol account d of
        Some existing \<Rightarrow>
          if sl_state existing \<noteq> ''retired'' then Inr (row_to_sleeve existing, d)
          else
            (let new_version = sl_version existing + 1;
                 d' = d\<lparr>sleeves := update_where
                   (\<lambda>r. sl_id r = sl_id existing \<and> sl_version r = sl_version existing)
                   (\<lambda>r. r\<lparr>sl_state := ''candidate'', sl_version := new_version, sl_since := now,
                         sl_reason := [S ''re-registered''], sl_updated_at := now\<rparr>)
                   (sleeves d)\<rparr>
             in log_and_return now (sl_id existing) new_version (sl_state existing) ''candidate''
                  [S ''re-registered''] actor None d')
      | None \<Rightarrow>
          (let row = \<lparr>sl_id = sleeve_id_seq d, sl_strategy_id = strategy_id,
                 sl_strategy_version = strategy_version, sl_symbol = symbol,
                 sl_asset_class = asset_class, sl_account_id = account,
                 sl_state = ''candidate'', sl_version = 1, sl_since = now,
                 sl_reason = [S ''registered''], sl_probation_count = 0,
                 sl_position_environment = POSITION_NONE, sl_origin = origin,
                 sl_created_at = now, sl_updated_at = now\<rparr>
           in if \<not> sleeve_checks row then Inl (IntegrityError ''sleeve_origin_known'')
              else
                (case append_transition now (sl_id row) 1 ''none'' ''candidate'' [S ''registered''] actor None
                        (d\<lparr>sleeves := sleeves d @ [row], sleeve_id_seq := sleeve_id_seq d + 1\<rparr>) of
                   Inl e \<Rightarrow> Inl e
                 | Inr d' \<Rightarrow> Inr (row_to_sleeve row, d'))))"

definition store_transition ::
  "instant \<Rightarrow> sleeve \<Rightarrow> string \<Rightarrow> msg \<Rightarrow> string \<Rightarrow> nat option \<Rightarrow> int option \<Rightarrow> db \<Rightarrow> exn + sleeve \<times> db" where
  "store_transition now s to_state reason actor evidence_snapshot_id expected_version d =
     (if to_state \<notin> set STATES then Inl (LifecycleStoreError [S ''Unknown state '', S to_state])
      else
        (let expected = (case expected_version of None \<Rightarrow> sl_version s | Some v \<Rightarrow> v);
             new_version = expected + 1;
             probation_count = sl_probation_count s +
               (if to_state = ''probation'' \<and> sl_state s \<noteq> ''probation'' then 1 else 0);
             position_environment =
               (case POSITION_ON_ENTRY to_state of None \<Rightarrow> sl_position_environment s | Some p \<Rightarrow> p);
             hit = (\<lambda>r. sl_id r = sl_id s \<and> sl_version r = expected)
         in if to_state = ''live'' \<and> map_option sl_origin (select_id (sl_id s) d) = Some ''challenger''
            then Inl (ChallengerCannotGoLiveError [S (key_of s),
                   S '' was derived from a challenger proposal and cannot be promoted to live.''])
            else if rowcount hit (sleeves d) \<noteq> 1
            then Inl (ConcurrentTransitionError [S (key_of s),
                   S '' moved since it was read (expected version '', I expected, S ''); re-read and decide again''])
            else log_and_return now (sl_id s) new_version (sl_state s) to_state reason actor
                   evidence_snapshot_id
                   (d\<lparr>sleeves := update_where hit
                      (\<lambda>r. r\<lparr>sl_state := to_state, sl_version := new_version, sl_since := now,
                            sl_reason := reason, sl_probation_count := probation_count,
                            sl_position_environment := position_environment, sl_updated_at := now\<rparr>)
                      (sleeves d)\<rparr>)))"

definition automated_actors :: "string set" where
  "automated_actors = {''system'', ''learner'', ''auto'', ''automation''}"

definition adopt_challenger :: "instant \<Rightarrow> sleeve \<Rightarrow> string \<Rightarrow> string \<Rightarrow> db \<Rightarrow> exn + sleeve \<times> db" where
  "adopt_challenger now s actor reason d =
     (let named = strip actor in
      if named = [] \<or> lower named \<in> automated_actors
      then Inl (LifecycleStoreError [S ''adopt_challenger needs a named human actor''])
      else if strip reason = []
      then Inl (LifecycleStoreError [S ''adopt_challenger needs a reason''])
      else
        (case select_id (sl_id s) d of
           None \<Rightarrow> Inl (SleeveNotFoundError [S ''sleeve '', I (int (sl_id s)), S '' is gone''])
         | Some row \<Rightarrow>
             if sl_origin row \<noteq> ''challenger'' then Inr (row_to_sleeve row, d)
             else
               (let new_version = sl_version row + 1 in
                log_and_return now (sl_id s) new_version (sl_state row) (sl_state row)
                  [S ''challenger adopted: '', S (strip reason)] named None
                  (d\<lparr>sleeves := update_where
                      (\<lambda>r. sl_id r = sl_id s \<and> sl_version r = sl_version row)
                      (\<lambda>r. r\<lparr>sl_origin := ''human'', sl_version := new_version, sl_updated_at := now\<rparr>)
                      (sleeves d)\<rparr>))))"

subsection \<open>Proposals and learning audits\<close>

definition record_challenger_proposal ::
  "store_settings \<Rightarrow> instant \<Rightarrow> string \<Rightarrow> challenger \<Rightarrow> pyfloat option \<Rightarrow> pyfloat option \<Rightarrow> int
     \<Rightarrow> pyfloat option \<Rightarrow> bool \<Rightarrow> string option \<Rightarrow> db \<Rightarrow> nat \<times> db" where
  "record_challenger_proposal cfg now campaign_id c dsr_campaign dsr_own pooled_trials oos survived
     account_id d =
     (case find (\<lambda>r. cr_campaign_id r = campaign_id \<and>
                     ch_challenger_id (cr_challenger r) = ch_challenger_id c) (challengers d) of
        Some existing \<Rightarrow> (cr_id existing, d)
      | None \<Rightarrow>
          (challenger_id_seq d,
           d\<lparr>challengers := challengers d @
               [\<lparr>cr_id = challenger_id_seq d, cr_campaign_id = campaign_id,
                 cr_account_id = or_default account_id (cfg_account_id cfg),
                 cr_challenger = c\<lparr>ch_symbol := upper (ch_symbol c)\<rparr>,
                 cr_deflated_sharpe_campaign = dsr_campaign,
                 cr_deflated_sharpe_own_search = dsr_own,
                 cr_pooled_trials = pooled_trials, cr_out_of_sample_sharpe = oos,
                 cr_survived = survived, cr_created_at = now\<rparr>],
              challenger_id_seq := challenger_id_seq d + 1\<rparr>))"

definition challenger_proposals ::
  "string option \<Rightarrow> string option \<Rightarrow> string option \<Rightarrow> string option \<Rightarrow> string option \<Rightarrow> nat
     \<Rightarrow> db \<Rightarrow> challenger_row list" where
  "challenger_proposals strategy_id symbol campaign_id challenger_id account_id limit d =
     (let want = (\<lambda>a x. case a of None \<Rightarrow> True | Some v \<Rightarrow> x = v) in
      take limit (rev (sort_key cr_created_at
        (filter (\<lambda>r. want challenger_id (ch_challenger_id (cr_challenger r)) \<and>
                  want strategy_id (ch_strategy_id (cr_challenger r)) \<and>
                  want (map_option upper symbol) (ch_symbol (cr_challenger r)) \<and>
                  want campaign_id (cr_campaign_id r) \<and>
                  want account_id (cr_account_id r))
          (challengers d)))))"

definition learning_statuses :: "string set" where
  "learning_statuses = {''VETOED'', ''VETO_INCOMPLETE'', ''INSUFFICIENT_PAPER_EVIDENCE'',
     ''NO_CHALLENGERS'', ''RECORDED'', ''EVALUATED_UNRECORDED''}"

definition record_learning_cycle ::
  "store_settings \<Rightarrow> instant \<Rightarrow> learning_report \<Rightarrow> string option \<Rightarrow> db \<Rightarrow> exn + nat \<times> db" where
  "record_learning_cycle cfg now report account_id d =
     (if lr_deployment_authority report \<noteq> Some False
      then Inl (LifecycleStoreError [S ''a learning cycle cannot have deployment authority''])
      else if lr_promotion_authority report \<noteq> Some False
      then Inl (LifecycleStoreError [S ''a learning cycle cannot have promotion authority''])
      else
        (let content_hash = or_default (lr_content_hash report) [] in
         if length content_hash \<noteq> 64
         then Inl (LifecycleStoreError [S ''learning cycle requires a content hash''])
         else
           (case find (\<lambda>r. lr_campaign_id (lc_report r) = lr_campaign_id report)
                   (learning_cycle_table d) of
              Some existing \<Rightarrow> Inr (lc_id existing, d)
            | None \<Rightarrow>
                if lr_status report \<notin> learning_statuses
                then Inl (IntegrityError ''learning_cycle_status_check'')
                else Inr (learning_id_seq d,
                  d\<lparr>learning_cycle_table := learning_cycle_table d @
                      [\<lparr>lc_id = learning_id_seq d, lc_account_id = or_default account_id (cfg_account_id cfg),
                        lc_symbol = upper (lr_symbol report), lc_report = report,
                        lc_content_hash = content_hash, lc_deployment_authority = False,
                        lc_promotion_authority = False, lc_created_at = now\<rparr>],
                     learning_id_seq := learning_id_seq d + 1\<rparr>))))"

definition learning_cycles ::
  "store_settings \<Rightarrow> string option \<Rightarrow> string option \<Rightarrow> string option \<Rightarrow> nat \<Rightarrow> db \<Rightarrow> learning_row list" where
  "learning_cycles cfg strategy_id symbol account_id limit d =
     take limit (rev (sort_key (\<lambda>r. lr_as_of (lc_report r))
       (filter (\<lambda>r. lc_account_id r = or_default account_id (cfg_account_id cfg) \<and>
                 (case strategy_id of None \<Rightarrow> True | Some v \<Rightarrow> lr_strategy_id (lc_report r) = v) \<and>
                 (case symbol of None \<Rightarrow> True | Some v \<Rightarrow> lc_symbol r = upper v))
         (learning_cycle_table d))))"

subsection \<open>Evidence snapshots and validation artifacts\<close>

definition known_environments :: "string set" where
  "known_environments = {''backtest'', ''paper'', ''live''}"

definition record_evidence ::
  "(evidence_scope \<times> jdict \<times> source_artifact list \<Rightarrow> string) \<Rightarrow> instant \<Rightarrow> evidence_scope \<Rightarrow> jdict
     \<Rightarrow> source_artifact list \<Rightarrow> db \<Rightarrow> exn + nat \<times> db" where
  "record_evidence digest now scope metrics source_artifacts d =
     (let scope' = scope\<lparr>es_symbol := upper (es_symbol scope)\<rparr> in
      if es_environment scope \<notin> known_environments
      then Inl (IntegrityError ''evidence_environment_known'')
      else if es_window_end scope < es_window_start scope
      then Inl (IntegrityError ''evidence_window_ordered'')
      else Inr (evidence_id_seq d,
        d\<lparr>evidence_table := evidence_table d @
            [\<lparr>ev_id = evidence_id_seq d, ev_scope = scope', ev_metrics = metrics,
              ev_source_artifacts = source_artifacts,
              ev_content_hash = digest (scope', metrics, source_artifacts), ev_created_at = now\<rparr>],
           evidence_id_seq := evidence_id_seq d + 1\<rparr>))"

definition store_evidence :: "nat \<Rightarrow> db \<Rightarrow> evidence_row option" where
  "store_evidence snapshot_id d = find (\<lambda>r. ev_id r = snapshot_id) (evidence_table d)"

definition record_validation_artifact ::
  "store_settings \<Rightarrow> (artifact_row \<Rightarrow> string) \<Rightarrow> instant \<Rightarrow> artifact_row \<Rightarrow> string option \<Rightarrow> db
     \<Rightarrow> exn + nat \<times> db" where
  "record_validation_artifact cfg digest now a account_id d =
     (let row = a\<lparr>ar_id := artifact_id_seq d, ar_symbol := upper (ar_symbol a),
                  ar_account_id := or_default account_id (cfg_account_id cfg),
                  ar_content_hash := digest a, ar_created_at := now\<rparr>
      in if ar_kind a \<notin> {''walk_forward'', ''portfolio_correlation'', ''parameter_sensitivity''}
         then Inl (IntegrityError ''artifact_kind_known'')
         else if ar_environment a \<notin> known_environments
         then Inl (IntegrityError ''artifact_environment_known'')
         else if ar_window_end a < ar_window_start a
         then Inl (IntegrityError ''artifact_window_ordered'')
         else Inr (artifact_id_seq d, d\<lparr>artifacts := artifacts d @ [row], artifact_id_seq := artifact_id_seq d + 1\<rparr>))"

definition validation_artifact :: "nat \<Rightarrow> db \<Rightarrow> artifact_row option" where
  "validation_artifact artifact_id d = find (\<lambda>r. ar_id r = artifact_id) (artifacts d)"

end
