(* ===== verification/Halt_Latch.thy ===== *)
theory Halt_Latch
  imports Lifecycle_Store
begin

text \<open>
  The reconciliation halt and the journal-health rows of
  \<open>libs/lifecycle/src/lifecycle/store.py\<close>. A latched halt stops entries for one
  (account, broker, environment) until a named operator clears it.

  \<open>record_reconciliation\<close> reads the current state in one connection and writes the new one in a
  later transaction. \<open>itf\<close> is what other processes commit between the two; for a process that
  runs alone it is the identity.
\<close>

record reconciliation_halt =
  h_account_id :: string
  h_broker :: string
  h_environment :: string
  h_halted :: bool
  h_consecutive_breaks :: int
  h_first_failure_at :: "instant option"
  h_last_ok_at :: "instant option"
  h_last_checked_at :: "instant option"
  h_last_error :: msg
  h_halt_reason :: msg

definition reconciliation_state ::
  "store_settings \<Rightarrow> string \<Rightarrow> string \<Rightarrow> string option \<Rightarrow> db \<Rightarrow> reconciliation_halt" where
  "reconciliation_state cfg broker env account_id d =
     (let account = or_default account_id (cfg_account_id cfg) in
      case reconciliation d (account, broker, env) of
        None \<Rightarrow> \<lparr>h_account_id = account, h_broker = broker, h_environment = env, h_halted = False,
                 h_consecutive_breaks = 0, h_first_failure_at = None, h_last_ok_at = None,
                 h_last_checked_at = None, h_last_error = [], h_halt_reason = []\<rparr>
      | Some r \<Rightarrow> \<lparr>h_account_id = account, h_broker = broker, h_environment = env,
                 h_halted = rc_halted r, h_consecutive_breaks = rc_consecutive_breaks r,
                 h_first_failure_at = rc_first_failure_at r, h_last_ok_at = rc_last_ok_at r,
                 h_last_checked_at = rc_last_checked_at r, h_last_error = rc_last_error r,
                 h_halt_reason = rc_halt_reason r\<rparr>)"

text \<open>The Python part of \<open>record_reconciliation\<close>: the four values that the upsert writes.\<close>

definition reconciliation_verdict ::
  "store_settings \<Rightarrow> reconciliation_halt \<Rightarrow> bool \<Rightarrow> int \<Rightarrow> msg \<Rightarrow> bool \<Rightarrow> instant
     \<Rightarrow> bool \<times> int \<times> instant option \<times> msg" where
  "reconciliation_verdict cfg current ok breaks error dependency_available moment =
     (let first = (case h_first_failure_at current of None \<Rightarrow> moment | Some f \<Rightarrow> f) in
      if \<not> dependency_available then
        (let unavailable_for = total_seconds (moment - first) in
         if of_int (cfg_dependency_grace_seconds cfg) \<le> unavailable_for
         then (True, h_consecutive_breaks current, Some first,
               [S ''reconciliation dependency unavailable for '', I \<lfloor>unavailable_for\<rfloor>,
                S ''s (grace '', I (cfg_dependency_grace_seconds cfg), S ''s): ''] @ error)
         else (h_halted current, h_consecutive_breaks current, Some first, h_halt_reason current))
      else if ok then (h_halted current, 0, None, h_halt_reason current)
      else
        (let consecutive = h_consecutive_breaks current + 1 in
         if cfg_breaks_before_halt cfg \<le> consecutive
         then (True, consecutive, Some first,
               [I breaks, S '' position break(s) persisted across '', I consecutive, S '' checks''])
         else (h_halted current, consecutive, Some first, h_halt_reason current)))"

text \<open>Its SQL part: \<open>INSERT ... ON CONFLICT DO UPDATE\<close> of the row under the key.\<close>

fun upsert_reconciliation ::
  "bool \<times> int \<times> instant option \<times> msg \<Rightarrow> instant option \<Rightarrow> instant \<Rightarrow> msg
     \<Rightarrow> reconciliation_row option \<Rightarrow> reconciliation_row" where
  "upsert_reconciliation (halted, consecutive, first_failure_at, halt_reason) last_ok moment error None =
     \<lparr>rc_halted = halted, rc_consecutive_breaks = consecutive,
      rc_first_failure_at = first_failure_at, rc_last_ok_at = last_ok,
      rc_last_checked_at = Some moment, rc_last_error = error,
      rc_halt_reason = halt_reason, rc_cleared_by = [], rc_cleared_at = None\<rparr>"
| "upsert_reconciliation (halted, consecutive, first_failure_at, halt_reason) last_ok moment error (Some old) =
     old\<lparr>rc_halted := halted, rc_consecutive_breaks := consecutive,
         rc_first_failure_at := first_failure_at,
         rc_last_ok_at := (case last_ok of None \<Rightarrow> rc_last_ok_at old | Some t \<Rightarrow> Some t),
         rc_last_checked_at := Some moment, rc_last_error := error,
         rc_halt_reason := halt_reason\<rparr>"

definition record_reconciliation ::
  "store_settings \<Rightarrow> (db \<Rightarrow> db) \<Rightarrow> string \<Rightarrow> string \<Rightarrow> bool \<Rightarrow> int \<Rightarrow> msg \<Rightarrow> bool \<Rightarrow> string option
     \<Rightarrow> instant \<Rightarrow> db \<Rightarrow> reconciliation_halt \<times> db" where
  "record_reconciliation cfg itf broker env ok breaks error dependency_available account_id moment d =
     (let account = or_default account_id (cfg_account_id cfg);
          current = reconciliation_state cfg broker env (Some account) d;
          verdict = reconciliation_verdict cfg current ok breaks error dependency_available moment;
          last_ok = (if ok \<and> dependency_available then Some moment else None);
          d1 = itf d;
          key = (account, broker, env);
          d2 = d1\<lparr>reconciliation := (reconciliation d1)(key \<mapsto>
                 upsert_reconciliation verdict last_ok moment error (reconciliation d1 key))\<rparr>
      in (reconciliation_state cfg broker env (Some account) d2, d2))"

definition halt_entries ::
  "store_settings \<Rightarrow> instant \<Rightarrow> string \<Rightarrow> string \<Rightarrow> msg \<Rightarrow> string option \<Rightarrow> db \<Rightarrow> reconciliation_halt \<times> db" where
  "halt_entries cfg now broker env reason account_id d =
     (let account = or_default account_id (cfg_account_id cfg);
          key = (account, broker, env);
          row = (case reconciliation d key of
                   None \<Rightarrow> \<lparr>rc_halted = True, rc_consecutive_breaks = 1,
                            rc_first_failure_at = Some now, rc_last_ok_at = None,
                            rc_last_checked_at = Some now, rc_last_error = reason,
                            rc_halt_reason = reason, rc_cleared_by = [], rc_cleared_at = None\<rparr>
                 | Some old \<Rightarrow> old\<lparr>rc_halted := True,
                            rc_first_failure_at := (case rc_first_failure_at old of None \<Rightarrow> Some now | Some f \<Rightarrow> Some f),
                            rc_last_checked_at := Some now, rc_last_error := reason,
                            rc_halt_reason := reason\<rparr>);
          d' = d\<lparr>reconciliation := (reconciliation d)(key \<mapsto> row)\<rparr>
      in (reconciliation_state cfg broker env (Some account) d', d'))"

definition clear_reconciliation_halt ::
  "store_settings \<Rightarrow> instant \<Rightarrow> string \<Rightarrow> string \<Rightarrow> string \<Rightarrow> string option \<Rightarrow> db
     \<Rightarrow> exn + reconciliation_halt \<times> db" where
  "clear_reconciliation_halt cfg now broker env actor account_id d =
     (if strip actor = []
      then Inl (LifecycleStoreError [S ''Clearing a halt requires an identified actor''])
      else
        (let account = or_default account_id (cfg_account_id cfg); key = (account, broker, env) in
         case reconciliation d key of
           None \<Rightarrow> Inl (LifecycleStoreError [S ''No reconciliation state for '', S account, S ''/'',
                     S broker, S ''/'', S env])
         | Some old \<Rightarrow>
             (let d' = d\<lparr>reconciliation := (reconciliation d)(key \<mapsto>
                 old\<lparr>rc_halted := False, rc_consecutive_breaks := 0, rc_first_failure_at := None,
                     rc_halt_reason := [], rc_cleared_by := actor, rc_cleared_at := Some now\<rparr>)\<rparr>
              in Inr (reconciliation_state cfg broker env (Some account) d', d'))))"

definition record_journal_health ::
  "string \<Rightarrow> instant \<Rightarrow> instant \<Rightarrow> int \<Rightarrow> int \<Rightarrow> int \<Rightarrow> string \<Rightarrow> string \<Rightarrow> string \<Rightarrow> instant option
     \<Rightarrow> db \<Rightarrow> (string \<times> bool) \<times> db" where
  "record_journal_health scope_key window_start window_end expected actual gap_count strategy_id symbol
     env last_gap_at d =
     (let eligible = (gap_count = 0 \<and> expected \<le> actual);
          status = (if eligible then ''ok'' else if gap_count \<noteq> 0 then ''gap'' else ''incomplete'');
          key = (scope_key, window_start, window_end);
          row = (case journal_health d key of
                   None \<Rightarrow> \<lparr>jh_strategy_id = strategy_id, jh_symbol = upper symbol,
                            jh_environment = env, jh_expected_observations = expected,
                            jh_actual_observations = actual, jh_gap_count = gap_count,
                            jh_eligible_for_learning = eligible, jh_last_gap_at = last_gap_at,
                            jh_status = status\<rparr>
                 | Some old \<Rightarrow> old\<lparr>jh_expected_observations := expected,
                            jh_actual_observations := actual, jh_gap_count := gap_count,
                            jh_eligible_for_learning := eligible, jh_last_gap_at := last_gap_at,
                            jh_status := status\<rparr>)
      in ((status, eligible), d\<lparr>journal_health := (journal_health d)(key \<mapsto> row)\<rparr>))"

subsection \<open>One check\<close>

text \<open>The key of the latch the operations address.\<close>

abbreviation latch_key :: "store_settings \<Rightarrow> string option \<Rightarrow> string \<Rightarrow> string \<Rightarrow> string \<times> string \<times> string" where
  "latch_key cfg account_id broker env \<equiv> (or_default account_id (cfg_account_id cfg), broker, env)"

definition halted_at :: "string \<times> string \<times> string \<Rightarrow> db \<Rightarrow> bool" where
  "halted_at k d = (case reconciliation d k of None \<Rightarrow> False | Some r \<Rightarrow> rc_halted r)"

lemma or_default_idem [simp]: "or_default (Some (or_default a d)) d = or_default a d"
  by (cases a) (auto simp: or_default_def)

lemma h_halted_state:
  "h_halted (reconciliation_state cfg b e a d) = halted_at (latch_key cfg a b e) d"
  by (simp add: reconciliation_state_def halted_at_def Let_def split: option.split)

lemma verdict_keeps_halt:
  "h_halted current \<Longrightarrow> fst (reconciliation_verdict cfg current ok br er dep m)"
  by (simp add: reconciliation_verdict_def Let_def)

lemma verdict_ok:
  "reconciliation_verdict cfg current True br er True m = (h_halted current, 0, None, h_halt_reason current)"
  by (simp add: reconciliation_verdict_def Let_def)

lemma upsert_reconciliation_fields [simp]:
  "rc_halted (upsert_reconciliation v lo m er old) = fst v"
  "rc_consecutive_breaks (upsert_reconciliation v lo m er old) = fst (snd v)"
  "rc_first_failure_at (upsert_reconciliation v lo m er old) = fst (snd (snd v))"
  "rc_last_checked_at (upsert_reconciliation v lo m er old) = Some m"
  by (cases v; cases old; simp)+

lemma reconciliation_state_Some_default [simp]:
  "reconciliation_state cfg b e (Some (or_default a (cfg_account_id cfg))) d
     = reconciliation_state cfg b e a d"
  by (simp add: reconciliation_state_def)

lemma halted_record_reconciliation:
  "halted_at k (snd (record_reconciliation cfg itf b e ok br er dep a m d)) =
     (if k = latch_key cfg a b e
      then fst (reconciliation_verdict cfg (reconciliation_state cfg b e a d) ok br er dep m)
      else halted_at k (itf d))"
  by (simp add: record_reconciliation_def Let_def halted_at_def)

lemma state_record_reconciliation:
  "reconciliation_state cfg b e a (snd (record_reconciliation cfg itf b e ok br er dep a m d))
     = fst (record_reconciliation cfg itf b e ok br er dep a m d)"
  by (simp add: record_reconciliation_def Let_def)

lemma halted_halt_entries:
  "halted_at k (snd (halt_entries cfg now b e r a d)) = (k = latch_key cfg a b e \<or> halted_at k d)"
  by (auto simp: halt_entries_def Let_def halted_at_def split: option.split)

lemma clear_halt_cases:
  assumes "clear_reconciliation_halt cfg now b e actor a d = Inr (h, d')"
  shows "strip actor \<noteq> []" and "halted_at k d' = (k \<noteq> latch_key cfg a b e \<and> halted_at k d)"
  using assms
  by (auto simp: clear_reconciliation_halt_def Let_def halted_at_def split: if_splits option.splits)

subsection \<open>Sequences of checks, halts and clears\<close>

datatype latch_op =
    Check string string bool int msg bool "string option" instant
  | Halt instant string string msg "string option"
  | Clear instant string string string "string option"

text \<open>A refused clear raises and changes nothing.\<close>

fun latch_step :: "store_settings \<Rightarrow> latch_op \<Rightarrow> db \<Rightarrow> db" where
  "latch_step cfg (Check b e ok br er dep a m) d =
     snd (record_reconciliation cfg (\<lambda>d. d) b e ok br er dep a m d)"
| "latch_step cfg (Halt now b e r a) d = snd (halt_entries cfg now b e r a d)"
| "latch_step cfg (Clear now b e actor a) d =
     (case clear_reconciliation_halt cfg now b e actor a d of Inl _ \<Rightarrow> d | Inr (_, d') \<Rightarrow> d')"

definition latch_run :: "store_settings \<Rightarrow> latch_op list \<Rightarrow> db \<Rightarrow> db" where
  "latch_run cfg ops d = fold (latch_step cfg) ops d"

text \<open>The only operation that may release the latch at \<open>k\<close>: a clear by somebody with a name.\<close>

fun clears :: "store_settings \<Rightarrow> string \<times> string \<times> string \<Rightarrow> latch_op \<Rightarrow> bool" where
  "clears cfg k (Clear now b e actor a) = (k = latch_key cfg a b e \<and> strip actor \<noteq> [])"
| "clears cfg k _ = False"

lemma latch_step_halted:
  assumes "halted_at k d" and "\<not> clears cfg k op"
  shows "halted_at k (latch_step cfg op d)"
proof (cases op)
  case (Check b e ok br er dep a m)
  with assms show ?thesis
    by (auto simp: halted_record_reconciliation h_halted_state intro!: verdict_keeps_halt)
next
  case (Halt now b e r a)
  with assms show ?thesis by (simp add: halted_halt_entries)
next
  case (Clear now b e actor a)
  with assms show ?thesis
    by (auto split: sum.split dest: clear_halt_cases)
qed

lemma latch_run_halted:
  "halted_at k d \<Longrightarrow> (\<And>op. op \<in> set ops \<Longrightarrow> \<not> clears cfg k op) \<Longrightarrow> halted_at k (latch_run cfg ops d)"
  by (induction ops arbitrary: d) (auto simp: latch_run_def intro: latch_step_halted)

text \<open>What the breaks counter and the failure clock hold after one check.\<close>

definition breaks_at :: "string \<times> string \<times> string \<Rightarrow> db \<Rightarrow> int" where
  "breaks_at k d = (case reconciliation d k of None \<Rightarrow> 0 | Some r \<Rightarrow> rc_consecutive_breaks r)"

definition failing_since :: "string \<times> string \<times> string \<Rightarrow> db \<Rightarrow> instant option" where
  "failing_since k d = (case reconciliation d k of None \<Rightarrow> None | Some r \<Rightarrow> rc_first_failure_at r)"

lemma state_fields:
  "h_consecutive_breaks (reconciliation_state cfg b e a d) = breaks_at (latch_key cfg a b e) d"
  "h_first_failure_at (reconciliation_state cfg b e a d) = failing_since (latch_key cfg a b e) d"
  by (simp_all add: reconciliation_state_def breaks_at_def failing_since_def Let_def split: option.split)

lemma breaks_record_reconciliation:
  "breaks_at (latch_key cfg a b e) (snd (record_reconciliation cfg itf b e ok br er dep a m d))
     = fst (snd (reconciliation_verdict cfg (reconciliation_state cfg b e a d) ok br er dep m))"
  by (simp add: record_reconciliation_def Let_def breaks_at_def)

lemma failing_record_reconciliation:
  "failing_since (latch_key cfg a b e) (snd (record_reconciliation cfg itf b e ok br er dep a m d))
     = fst (snd (snd (reconciliation_verdict cfg (reconciliation_state cfg b e a d) ok br er dep m)))"
  by (simp add: record_reconciliation_def Let_def failing_since_def)

text \<open>A check at key \<open>k\<close> that found a break, and one that could not see the broker.\<close>

fun is_break :: "store_settings \<Rightarrow> string \<times> string \<times> string \<Rightarrow> latch_op \<Rightarrow> bool" where
  "is_break cfg k (Check b e ok br er dep a m) = (k = latch_key cfg a b e \<and> \<not> ok \<and> dep)"
| "is_break cfg k _ = False"

fun is_outage :: "store_settings \<Rightarrow> string \<times> string \<times> string \<Rightarrow> latch_op \<Rightarrow> bool" where
  "is_outage cfg k (Check b e ok br er dep a m) = (k = latch_key cfg a b e \<and> \<not> dep)"
| "is_outage cfg k _ = False"

fun check_time :: "latch_op \<Rightarrow> instant" where
  "check_time (Check b e ok br er dep a m) = m"
| "check_time (Halt now b e r a) = now"
| "check_time (Clear now b e actor a) = now"

lemma latch_step_break:
  assumes "is_break cfg k op"
  shows "breaks_at k (latch_step cfg op d) = breaks_at k d + 1"
    and "cfg_breaks_before_halt cfg \<le> breaks_at k d + 1 \<Longrightarrow> halted_at k (latch_step cfg op d)"
  using assms
  by (cases op; auto simp: breaks_record_reconciliation halted_record_reconciliation
      reconciliation_verdict_def Let_def state_fields)+

lemma latch_run_breaks:
  "(\<And>op. op \<in> set ops \<Longrightarrow> is_break cfg k op) \<Longrightarrow> breaks_at k (latch_run cfg ops d) = breaks_at k d + int (length ops)"
  by (induction ops arbitrary: d) (auto simp: latch_run_def latch_step_break(1))

lemma latch_step_outage:
  assumes "is_outage cfg k op"
  shows "failing_since k (latch_step cfg op d) =
           Some (case failing_since k d of None \<Rightarrow> check_time op | Some f \<Rightarrow> f)"
    and "failing_since k d = Some f \<Longrightarrow>
           of_int (cfg_dependency_grace_seconds cfg) \<le> total_seconds (check_time op - f) \<Longrightarrow>
           halted_at k (latch_step cfg op d)"
  using assms
  by (cases op; auto simp: failing_record_reconciliation halted_record_reconciliation
      reconciliation_verdict_def Let_def state_fields split: option.splits)+

lemma latch_run_outages:
  "failing_since k d = Some f \<Longrightarrow> (\<And>op. op \<in> set ops \<Longrightarrow> is_outage cfg k op) \<Longrightarrow>
   failing_since k (latch_run cfg ops d) = Some f"
  by (induction ops arbitrary: d) (auto simp: latch_run_def latch_step_outage(1))

subsection \<open>Properties\<close>

text \<open>
  C5: once latched, and with the operations run one after the other, a halt survives every further
  check (a clean one included), every further halt
  and every refused or unrelated clear; only a clear of the same latch by a named actor can end it.
\<close>

theorem halt_latches:
  assumes "halted_at k d"
    and "\<And>op. op \<in> set ops \<Longrightarrow> \<not> clears cfg k op"
  shows "halted_at k (latch_run cfg ops d)"
  using assms by (rule latch_run_halted)

definition demo_latched :: db where
  "demo_latched = snd (halt_entries default_settings 0 ''live'' ''live'' [S ''gap''] None empty_db)"

theorem halt_latches_witness:
  "halted_at (''default'', ''live'', ''live'')
     (latch_run default_settings
        [Check ''live'' ''live'' True 0 [] True None 5, Clear 6 ''live'' ''live'' '' '' None] demo_latched)"
  by (rule halt_latches)
    (auto simp: demo_latched_def halted_halt_entries default_settings_def strip_def is_space_def)

text \<open>
  breaks that persist latch the halt. After at least \<open>breaks_before_halt\<close> consecutive checks that
  found a divergence, entries are halted, whatever happened before, provided the counter was not
  negative to begin with.
\<close>

theorem persistent_breaks_halt:
  assumes "\<And>op. op \<in> set ops \<Longrightarrow> is_break cfg k op"
    and "ops \<noteq> []" and "cfg_breaks_before_halt cfg \<le> int (length ops)"
    and "0 \<le> breaks_at k d"
  shows "halted_at k (latch_run cfg ops d)"
proof -
  obtain ops' op where ops: "ops = ops' @ [op]" using assms(2) by (cases ops rule: rev_cases) auto
  have "breaks_at k (latch_run cfg ops' d) = breaks_at k d + int (length ops')"
    using assms(1) ops by (intro latch_run_breaks) auto
  then have "cfg_breaks_before_halt cfg \<le> breaks_at k (latch_run cfg ops' d) + 1"
    using assms(3,4) ops by simp
  with assms(1) ops have "halted_at k (latch_step cfg op (latch_run cfg ops' d))"
    by (intro latch_step_break(2)) auto
  then show ?thesis by (simp add: ops latch_run_def)
qed

theorem persistent_breaks_halt_witness:
  "halted_at (''default'', ''paper'', ''paper'')
     (latch_run default_settings
        [Check ''paper'' ''paper'' False 1 [] True None 5, Check ''paper'' ''paper'' False 1 [] True None 9]
        empty_db)"
  by (rule persistent_breaks_halt) (auto simp: default_settings_def breaks_at_def empty_db_def)

text \<open>
  an outage of the broker view latches the halt once it has lasted the grace period, measured from
  the first failed check even when further failed checks (or a restart of the process) lie between.
\<close>

theorem outage_halts_after_grace:
  assumes "is_outage cfg k first" and "failing_since k d = None"
    and "\<And>op. op \<in> set between \<Longrightarrow> is_outage cfg k op" and "is_outage cfg k late"
    and "of_int (cfg_dependency_grace_seconds cfg) \<le> total_seconds (check_time late - check_time first)"
  shows "halted_at k (latch_run cfg (first # between @ [late]) d)"
proof -
  have "failing_since k (latch_step cfg first d) = Some (check_time first)"
    using latch_step_outage(1) [OF assms(1)] assms(2) by simp
  then have "failing_since k (latch_run cfg between (latch_step cfg first d)) = Some (check_time first)"
    using assms(3) by (rule latch_run_outages)
  then have "halted_at k (latch_step cfg late (latch_run cfg between (latch_step cfg first d)))"
    using assms(4,5) by (intro latch_step_outage(2))
  then show ?thesis by (simp add: latch_run_def)
qed

theorem outage_halts_after_grace_witness:
  "halted_at (''default'', ''live'', ''live'')
     (latch_run default_settings
        (Check ''live'' ''live'' False 0 [S ''down''] False None 0 # [] @
         [Check ''live'' ''live'' False 0 [S ''down''] False None 600000000]) empty_db)"
  by (rule outage_halts_after_grace)
    (auto simp: default_settings_def failing_since_def empty_db_def total_seconds_def)

text \<open>
  the read-modify-write of \<open>record_reconciliation\<close> is not atomic. If another process latches a halt
  between its read and its write, a clean check erases that halt: no operator cleared it, and the
  latch is open afterwards.
\<close>

theorem clean_check_erases_concurrent_halt:
  assumes "\<not> halted_at (latch_key cfg a b e) d"
  shows "halted_at (latch_key cfg a b e) (snd (halt_entries cfg now b e r a d))
    \<and> \<not> halted_at (latch_key cfg a b e)
        (snd (record_reconciliation cfg (\<lambda>d. snd (halt_entries cfg now b e r a d)) b e True 0 [] True a m d))"
  using assms
  by (simp add: halted_halt_entries halted_record_reconciliation verdict_ok h_halted_state)

theorem clean_check_erases_concurrent_halt_witness:
  "\<not> halted_at (latch_key default_settings None ''live'' ''live'')
        (snd (record_reconciliation default_settings
           (\<lambda>d. snd (halt_entries default_settings 1 ''live'' ''live'' [S ''gap''] None d))
           ''live'' ''live'' True 0 [] True None 2 empty_db))"
  using clean_check_erases_concurrent_halt
    [where cfg = default_settings and a = None and b = "''live''" and e = "''live''" and d = empty_db
      and now = 1 and r = "[S ''gap'']" and m = 2]
  by (simp add: halted_at_def empty_db_def)

end
