(* ===== verification/Roster.thy ===== *)
theory Roster
  imports Halt_Latch
begin

text \<open>
  The lifecycle authority as a machine: any number of processes read sleeves, keep the snapshots
  they were given and write back through them. The invariant ties each roster row to its
  append-only transition log, states the challenger barrier, and says what a held snapshot is
  worth. It is proved for every reachable state of \<open>roster_step\<close>, which has one rule per writing
  method of the store.
\<close>

subsection \<open>Replaying the transition log\<close>

type_synonym summary = "int \<times> string \<times> string \<times> int"

definition row_summary :: "('a) sleeve_scheme \<Rightarrow> summary" where
  "row_summary r = (sl_version r, sl_state r, sl_position_environment r, sl_probation_count r)"

text \<open>
  One log entry applied to (version, state, position environment, probation count). \<open>None\<close> when the
  entry does not continue what came before: a wrong sequence number or a wrong \<open>from_state\<close>.
\<close>

fun replay1 :: "transition_row \<Rightarrow> summary \<Rightarrow> summary option" where
  "replay1 t (v, st, pe, pc) =
     (if tr_seq t = v + 1 \<and> tr_from_state t = st
      then Some (v + 1, tr_to_state t,
             (case POSITION_ON_ENTRY (tr_to_state t) of None \<Rightarrow> pe | Some p \<Rightarrow> p),
             pc + (if tr_to_state t = ''probation'' \<and> st \<noteq> ''probation'' then 1 else 0))
      else None)"

fun replay :: "transition_row list \<Rightarrow> summary \<Rightarrow> summary option" where
  "replay [] m = Some m"
| "replay (t # ts) m = (case replay1 t m of None \<Rightarrow> None | Some m' \<Rightarrow> replay ts m')"

definition unborn :: summary where
  "unborn = (0, ''none'', POSITION_NONE, 0)"

definition log_of :: "nat \<Rightarrow> db \<Rightarrow> transition_row list" where
  "log_of i d = filter (\<lambda>t. tr_sleeve_id t = i) (transitions_table d)"

lemma replay_append:
  "replay (ts @ us) m = (case replay ts m of None \<Rightarrow> None | Some m' \<Rightarrow> replay us m')"
  by (induction ts m rule: replay.induct) (auto split: option.split)

lemma replay1_version: "replay1 t m = Some m' \<Longrightarrow> fst m' = fst m + 1 \<and> tr_seq t = fst m'"
  by (cases m) (auto split: if_splits)

lemma replay_version: "replay ts m = Some m' \<Longrightarrow> fst m' = fst m + int (length ts)"
  by (induction ts m rule: replay.induct) (auto split: option.splits dest: replay1_version)

lemma replay_seq:
  "replay ts m = Some m' \<Longrightarrow> t \<in> set ts \<Longrightarrow> fst m < tr_seq t \<and> tr_seq t \<le> fst m'"
proof (induction ts m rule: replay.induct)
  case (1 m)
  then show ?case by simp
next
  case (2 u ts m)
  then obtain m1 where m1: "replay1 u m = Some m1" "replay ts m1 = Some m'"
    by (auto split: option.splits)
  then show ?case
    using "2.IH" [OF m1(1) m1(2)] "2.prems"(2) replay1_version [OF m1(1)] replay_version [OF m1(2)]
    by auto
qed

subsection \<open>The invariant\<close>

text \<open>A challenger's sleeve is never live and never holds a live position.\<close>

definition barrier :: "('a) sleeve_scheme \<Rightarrow> bool" where
  "barrier r = (sl_origin r = ''challenger'' \<longrightarrow>
     sl_state r \<noteq> ''live'' \<and> sl_position_environment r \<noteq> POSITION_LIVE)"

text \<open>A sleeve that may enter keeps its positions where its state says.\<close>

definition settled :: "('a) sleeve_scheme \<Rightarrow> bool" where
  "settled r = (\<forall>p. POSITION_ON_ENTRY (sl_state r) = Some p \<longrightarrow> sl_position_environment r = p)"

definition row_ok :: "('a) sleeve_scheme \<Rightarrow> bool" where
  "row_ok r = (sleeve_checks r \<and> barrier r \<and> settled r)"

definition roster_inv :: "db \<Rightarrow> bool" where
  "roster_inv d =
     (distinct (map sl_id (sleeves d)) \<and> distinct (map identity (sleeves d)) \<and>
      (\<forall>r \<in> set (sleeves d). sl_id r < sleeve_id_seq d \<and> row_ok r \<and>
         replay (log_of (sl_id r) d) unborn = Some (row_summary r)) \<and>
      (\<forall>t \<in> set (transitions_table d). tr_sleeve_id t \<in> sl_id ` set (sleeves d)))"

text \<open>What a snapshot handed out earlier is worth: its row is still there under the same identity,
  and unless the row's version moved on, the snapshot is exact.\<close>

definition snapshot_ok :: "db \<Rightarrow> sleeve \<Rightarrow> bool" where
  "snapshot_ok d s =
     (\<exists>r \<in> set (sleeves d). sl_id r = sl_id s \<and> identity r = identity s \<and>
        sl_version s \<le> sl_version r \<and> (sl_version s = sl_version r \<longrightarrow> s = row_to_sleeve r))"

lemma roster_invD:
  assumes "roster_inv d"
  shows "distinct (map sl_id (sleeves d))" and "distinct (map identity (sleeves d))"
    and "r \<in> set (sleeves d) \<Longrightarrow> row_ok r"
    and "r \<in> set (sleeves d) \<Longrightarrow> replay (log_of (sl_id r) d) unborn = Some (row_summary r)"
    and "r \<in> set (sleeves d) \<Longrightarrow> sl_id r < sleeve_id_seq d"
    and "t \<in> set (transitions_table d) \<Longrightarrow> tr_sleeve_id t \<in> sl_id ` set (sleeves d)"
  using assms by (auto simp: roster_inv_def)

lemma row_to_sleeve_sel [simp]:
  "sl_id (row_to_sleeve r) = sl_id r" "sl_version (row_to_sleeve r) = sl_version r"
  "sl_state (row_to_sleeve r) = sl_state r" "sl_origin (row_to_sleeve r) = sl_origin r"
  "sl_position_environment (row_to_sleeve r) = sl_position_environment r"
  "sl_probation_count (row_to_sleeve r) = sl_probation_count r"
  "sl_symbol (row_to_sleeve r) = sl_symbol r" "sl_strategy_id (row_to_sleeve r) = sl_strategy_id r"
  "sl_account_id (row_to_sleeve r) = sl_account_id r" "sl_reason (row_to_sleeve r) = sl_reason r"
  "identity (row_to_sleeve r) = identity r" "row_summary (row_to_sleeve r) = row_summary r"
  "key_of (row_to_sleeve r) = key_of r" "sl_strategy_version (row_to_sleeve r) = sl_strategy_version r"
  by (simp_all add: row_to_sleeve_def identity_def row_summary_def key_of_def)

lemma select_id_eq:
  "roster_inv d \<Longrightarrow> select_id i d = Some r \<longleftrightarrow> r \<in> set (sleeves d) \<and> sl_id r = i"
  unfolding select_id_def by (rule find_key_eq) (rule roster_invD(1))

lemma same_id:
  "roster_inv d \<Longrightarrow> r \<in> set (sleeves d) \<Longrightarrow> r' \<in> set (sleeves d) \<Longrightarrow> sl_id r = sl_id r' \<Longrightarrow> r = r'"
  using roster_invD(1) [of d] by (auto simp: distinct_map inj_on_def)

lemma same_identity:
  "roster_inv d \<Longrightarrow> r \<in> set (sleeves d) \<Longrightarrow> r' \<in> set (sleeves d) \<Longrightarrow> identity r = identity r' \<Longrightarrow> r = r'"
  using roster_invD(2) [of d] by (auto simp: distinct_map inj_on_def)

lemma log_seq_le:
  assumes "roster_inv d" and "r \<in> set (sleeves d)" and "t \<in> set (transitions_table d)"
    and "tr_sleeve_id t = sl_id r"
  shows "tr_seq t \<le> sl_version r"
  using replay_seq [OF roster_invD(4) [OF assms(1,2)]] assms(3,4)
  by (fastforce simp: log_of_def row_summary_def)

subsection \<open>One row moves\<close>

text \<open>
  Every write to an existing row has this shape: the row \<open>r\<close>, found by its id and its current
  version, becomes \<open>f r\<close>, and one log entry records it.
\<close>

definition moved :: "sleeve_row \<Rightarrow> (sleeve_row \<Rightarrow> sleeve_row) \<Rightarrow> transition_row \<Rightarrow> db \<Rightarrow> db" where
  "moved r f t d = d\<lparr>sleeves := update_where (\<lambda>x. sl_id x = sl_id r \<and> sl_version x = sl_version r) f (sleeves d),
     transitions_table := transitions_table d @ [t]\<rparr>"

definition legal_move :: "sleeve_row \<Rightarrow> (sleeve_row \<Rightarrow> sleeve_row) \<Rightarrow> transition_row \<Rightarrow> bool" where
  "legal_move r f t = (sl_id (f r) = sl_id r \<and> identity (f r) = identity r \<and> row_ok (f r) \<and>
     tr_sleeve_id t = sl_id r \<and> replay1 t (row_summary r) = Some (row_summary (f r)))"

lemma sleeves_moved:
  assumes "roster_inv d" and "r \<in> set (sleeves d)"
  shows "sleeves (moved r f t d) = map (\<lambda>x. if x = r then f r else x) (sleeves d)"
  using same_id [OF assms(1) _ assms(2)] by (auto simp: moved_def update_where_def)

lemma log_of_moved:
  "log_of i (moved r f t d) = log_of i d @ (if tr_sleeve_id t = i then [t] else [])"
  by (simp add: log_of_def moved_def)

lemma legal_move_version: "legal_move r f t \<Longrightarrow> sl_version (f r) = sl_version r + 1"
  by (auto simp: legal_move_def row_summary_def split: if_splits)

lemma moved_inv:
  assumes inv: "roster_inv d" and r: "r \<in> set (sleeves d)" and lm: "legal_move r f t"
  shows "roster_inv (moved r f t d)"
proof -
  let ?d = "moved r f t d"
  have sl: "sleeves ?d = map (\<lambda>x. if x = r then f r else x) (sleeves d)"
    by (rule sleeves_moved [OF inv r])
  have ids: "map sl_id (sleeves ?d) = map sl_id (sleeves d)"
    and idn: "map identity (sleeves ?d) = map identity (sleeves d)"
    using lm by (auto simp: sl legal_move_def)
  have "sl_id x < sleeve_id_seq d \<and> row_ok x \<and> replay (log_of (sl_id x) ?d) unborn = Some (row_summary x)"
    if x: "x \<in> set (sleeves ?d)" for x
  proof (cases "x = f r")
    case True
    with lm r roster_invD(4,5) [OF inv r] show ?thesis
      by (simp add: legal_move_def log_of_moved replay_append)
  next
    case False
    with x have x': "x \<in> set (sleeves d)" "x \<noteq> r" by (auto simp: sl split: if_splits)
    with inv r have "sl_id x \<noteq> sl_id r" using same_id by blast
    with lm x' roster_invD(3,4,5) [OF inv x'(1)] show ?thesis
      by (simp add: legal_move_def log_of_moved)
  qed
  moreover have "sl_id ` set (sleeves ?d) = sl_id ` set (sleeves d)" using ids by (metis set_map)
  moreover have "tr_sleeve_id u \<in> sl_id ` set (sleeves d)" if "u \<in> set (transitions_table ?d)" for u
    using that roster_invD(6) [OF inv] r lm by (auto simp: moved_def legal_move_def)
  ultimately show ?thesis
    using roster_invD(1,2) [OF inv] by (auto simp: roster_inv_def ids idn) (simp_all add: moved_def)
qed

lemma moved_snapshot:
  assumes inv: "roster_inv d" and r: "r \<in> set (sleeves d)" and lm: "legal_move r f t"
    and s: "snapshot_ok d s"
  shows "snapshot_ok (moved r f t d) s"
proof -
  obtain x where x: "x \<in> set (sleeves d)" "sl_id x = sl_id s" "identity x = identity s"
    "sl_version s \<le> sl_version x" "sl_version s = sl_version x \<Longrightarrow> s = row_to_sleeve x"
    using s by (auto simp: snapshot_ok_def)
  show ?thesis
  proof (cases "x = r")
    case True
    with x lm legal_move_version [OF lm] show ?thesis
      by (auto simp: snapshot_ok_def sleeves_moved [OF inv r] legal_move_def intro!: bexI [of _ "f r"])
  next
    case False
    with x show ?thesis
      by (auto simp: snapshot_ok_def sleeves_moved [OF inv r] intro!: bexI [of _ x])
  qed
qed

lemma moved_fresh:
  assumes "roster_inv d" and "r \<in> set (sleeves d)"
  shows "snapshot_ok (moved r f t d) (row_to_sleeve (f r))"
  using assms(2) by (force simp: snapshot_ok_def sleeves_moved [OF assms])

subsection \<open>The writing methods, as moves\<close>

lemma append_transition_Inr:
  assumes "append_transition now i q fs ts rs ac ev d = Inr d'"
  shows "d' = d\<lparr>transitions_table := transitions_table d @
           [\<lparr>tr_sleeve_id = i, tr_seq = q, tr_from_state = fs, tr_to_state = ts, tr_reason = rs,
             tr_actor = ac, tr_evidence_snapshot_id = ev, tr_created_at = now\<rparr>]\<rparr>"
    and "\<And>e. ev = Some e \<Longrightarrow> e \<in> ev_id ` set (evidence_table d)"
  using assms by (auto simp: append_transition_def split: if_splits option.splits)

text \<open>The log entry a roster write appends.\<close>

definition entry :: "instant \<Rightarrow> nat \<Rightarrow> int \<Rightarrow> string \<Rightarrow> string \<Rightarrow> msg \<Rightarrow> string \<Rightarrow> nat option \<Rightarrow> transition_row" where
  "entry now i q fs ts rs ac ev = \<lparr>tr_sleeve_id = i, tr_seq = q, tr_from_state = fs,
     tr_to_state = ts, tr_reason = rs, tr_actor = ac, tr_evidence_snapshot_id = ev,
     tr_created_at = now\<rparr>"

lemma entry_sel [simp]:
  "tr_sleeve_id (entry now i q fs ts rs ac ev) = i" "tr_seq (entry now i q fs ts rs ac ev) = q"
  "tr_from_state (entry now i q fs ts rs ac ev) = fs" "tr_to_state (entry now i q fs ts rs ac ev) = ts"
  "tr_actor (entry now i q fs ts rs ac ev) = ac"
  "tr_evidence_snapshot_id (entry now i q fs ts rs ac ev) = ev"
  by (simp_all add: entry_def)

text \<open>
  In a good state, the closing statements of a write to the row \<open>r\<close> succeed exactly when the cited
  evidence exists; the unique key on (sleeve, seq) and the foreign key on the sleeve never fire.
\<close>

lemma log_and_return_moved:
  assumes inv: "roster_inv d" and r: "r \<in> set (sleeves d)"
    and f: "sl_id (f r) = sl_id r"
  shows "log_and_return now (sl_id r) (sl_version r + 1) fs ts rs ac ev
           (d\<lparr>sleeves := update_where (\<lambda>x. sl_id x = sl_id r \<and> sl_version x = sl_version r) f (sleeves d)\<rparr>)
     = (if \<forall>e. ev = Some e \<longrightarrow> e \<in> ev_id ` set (evidence_table d)
        then Inr (row_to_sleeve (f r), moved r f (entry now (sl_id r) (sl_version r + 1) fs ts rs ac ev) d)
        else Inl (IntegrityError ''transition_evidence_snapshot_id_fkey''))"
proof -
  let ?u = "update_where (\<lambda>x. sl_id x = sl_id r \<and> sl_version x = sl_version r) f (sleeves d)"
  let ?t = "entry now (sl_id r) (sl_version r + 1) fs ts rs ac ev"
  have u: "?u = map (\<lambda>x. if x = r then f r else x) (sleeves d)"
    using sleeves_moved [OF inv r, of f ?t] by (simp add: moved_def)
  have ids: "map sl_id ?u = map sl_id (sleeves d)" using f by (auto simp: u)
  have mem: "f r \<in> set ?u" using r by (auto simp: u)
  have "find (\<lambda>x. sl_id x = sl_id (f r)) ?u = Some (f r)"
    using roster_invD(1) [OF inv] ids mem by (intro find_key) auto
  moreover have "sl_id r \<in> sl_id ` set ?u" using mem f by (metis imageI)
  moreover have "(sl_id r, sl_version r + 1) \<notin> (\<lambda>t. (tr_sleeve_id t, tr_seq t)) ` set (transitions_table d)"
    using log_seq_le [OF inv r] by force
  ultimately show ?thesis
    by (auto simp: log_and_return_def append_transition_def select_id_def f moved_def entry_def
        split: option.splits)
qed

lemma roster_position_cases:
  "POSITION_ON_ENTRY st = (if st = ''live'' then Some ''live'' else if st = ''paper'' then Some ''simulated'' else None)"
  by (simp add: POSITION_ON_ENTRY_def position_defs)

lemmas row_ok_defs = row_ok_def sleeve_checks_def barrier_def settled_def roster_position_cases
  position_defs STATES_def

definition retire_return :: "instant \<Rightarrow> sleeve_row \<Rightarrow> sleeve_row" where
  "retire_return now r = r\<lparr>sl_state := ''candidate'', sl_version := sl_version r + 1, sl_since := now,
     sl_reason := [S ''re-registered''], sl_updated_at := now\<rparr>"

definition step_to :: "instant \<Rightarrow> string \<Rightarrow> msg \<Rightarrow> sleeve_row \<Rightarrow> sleeve_row" where
  "step_to now to_state reason r = r\<lparr>sl_state := to_state, sl_version := sl_version r + 1,
     sl_since := now, sl_reason := reason,
     sl_probation_count := sl_probation_count r +
       (if to_state = ''probation'' \<and> sl_state r \<noteq> ''probation'' then 1 else 0),
     sl_position_environment :=
       (case POSITION_ON_ENTRY to_state of None \<Rightarrow> sl_position_environment r | Some p \<Rightarrow> p),
     sl_updated_at := now\<rparr>"

definition adopted :: "instant \<Rightarrow> sleeve_row \<Rightarrow> sleeve_row" where
  "adopted now r = r\<lparr>sl_origin := ''human'', sl_version := sl_version r + 1, sl_updated_at := now\<rparr>"

text \<open>The three kinds of move, each legal on a good row.\<close>

lemma retire_return_legal:
  "row_ok r \<Longrightarrow> legal_move r (retire_return now) (entry now (sl_id r) (sl_version r + 1) (sl_state r) ''candidate'' rs ac ev)"
  by (auto simp: legal_move_def retire_return_def row_ok_defs identity_def row_summary_def)

lemma step_to_legal:
  assumes "row_ok r" and "to_state \<in> set STATES" and "to_state = ''live'' \<longrightarrow> sl_origin r \<noteq> ''challenger''"
  shows "legal_move r (step_to now to_state reason)
           (entry now (sl_id r) (sl_version r + 1) (sl_state r) to_state rs ac ev)"
proof -
  let ?r = "step_to now to_state reason r"
  have "sl_state ?r = to_state" "sl_origin ?r = sl_origin r"
    "sl_position_environment ?r =
       (if to_state = ''live'' then ''live'' else if to_state = ''paper'' then ''simulated''
        else sl_position_environment r)"
    by (simp_all add: step_to_def roster_position_cases)
  with assms have "row_ok ?r"
    unfolding row_ok_def sleeve_checks_def barrier_def settled_def roster_position_cases position_defs
    by (simp split: if_splits)
  then show ?thesis
    by (simp add: legal_move_def step_to_def identity_def row_summary_def)
qed

lemma adopted_legal:
  "row_ok r \<Longrightarrow> legal_move r (adopted now) (entry now (sl_id r) (sl_version r + 1) (sl_state r) (sl_state r) rs ac ev)"
  by (auto simp: legal_move_def adopted_def row_ok_defs identity_def row_summary_def)

text \<open>\<open>update_where\<close> only looks at the function on the rows it hits.\<close>

lemma update_where_cong:
  "(\<And>x. p x \<Longrightarrow> f x = g x) \<Longrightarrow> update_where p f rs = update_where p g rs"
  by (simp add: update_where_def)

lemma store_transition_current:
  assumes inv: "roster_inv d" and r: "r \<in> set (sleeves d)" and "to_state \<in> set STATES"
  shows "store_transition now (row_to_sleeve r) to_state reason ac ev None d =
    (if to_state = ''live'' \<and> sl_origin r = ''challenger''
     then Inl (ChallengerCannotGoLiveError [S (key_of r),
            S '' was derived from a challenger proposal and cannot be promoted to live.''])
     else if \<forall>e. ev = Some e \<longrightarrow> e \<in> ev_id ` set (evidence_table d)
     then Inr (row_to_sleeve (step_to now to_state reason r),
            moved r (step_to now to_state reason)
              (entry now (sl_id r) (sl_version r + 1) (sl_state r) to_state reason ac ev) d)
     else Inl (IntegrityError ''transition_evidence_snapshot_id_fkey''))"
proof -
  let ?p = "\<lambda>x. sl_id x = sl_id r \<and> sl_version x = sl_version r"
  let ?f = "\<lambda>x. x\<lparr>sl_state := to_state, sl_version := sl_version r + 1, sl_since := now,
      sl_reason := reason, sl_probation_count := sl_probation_count r +
        (if to_state = ''probation'' \<and> sl_state r \<noteq> ''probation'' then 1 else 0),
      sl_position_environment :=
        (case POSITION_ON_ENTRY to_state of None \<Rightarrow> sl_position_environment r | Some p \<Rightarrow> p),
      sl_updated_at := now\<rparr>"
  have sel: "select_id (sl_id r) d = Some r" using select_id_eq [OF inv] r by blast
  have one: "rowcount ?p (sleeves d) = 1"
    by (rule rowcount_key [OF roster_invD(1) [OF inv] r]) auto
  have same: "update_where ?p ?f (sleeves d) = update_where ?p (step_to now to_state reason) (sleeves d)"
    unfolding update_where_def
  proof (rule map_cong [OF refl])
    fix x assume "x \<in> set (sleeves d)"
    then consider "x = r" | "\<not> ?p x" using same_id [OF inv _ r] by blast
    then show "(if ?p x then ?f x else x) = (if ?p x then step_to now to_state reason x else x)"
      by cases (simp_all only: step_to_def if_False)
  qed
  have lr: "log_and_return now (sl_id r) (sl_version r + 1) (sl_state r) to_state reason ac ev
      (d\<lparr>sleeves := update_where ?p ?f (sleeves d)\<rparr>)
    = (if \<forall>e. ev = Some e \<longrightarrow> e \<in> ev_id ` set (evidence_table d)
       then Inr (row_to_sleeve (step_to now to_state reason r),
              moved r (step_to now to_state reason)
                (entry now (sl_id r) (sl_version r + 1) (sl_state r) to_state reason ac ev) d)
       else Inl (IntegrityError ''transition_evidence_snapshot_id_fkey''))"
    unfolding same by (rule log_and_return_moved [OF inv r]) (simp add: step_to_def)
  show ?thesis
    using assms(3) unfolding store_transition_def Let_def
    by (simp only: row_to_sleeve_sel option.case sel option.map one lr not_True_eq_False if_False
        option.inject simp_thms)
qed

lemma store_transition_stale:
  assumes inv: "roster_inv d" and r: "r \<in> set (sleeves d)" "sl_id r = sl_id s"
    and "sl_version s \<noteq> sl_version r" and "to_state \<in> set STATES"
    and "to_state = ''live'' \<longrightarrow> sl_origin r \<noteq> ''challenger''"
  shows "store_transition now s to_state reason ac ev None d =
     Inl (ConcurrentTransitionError [S (key_of s),
       S '' moved since it was read (expected version '', I (sl_version s), S ''); re-read and decide again''])"
proof -
  have sel: "select_id (sl_id s) d = Some r" using select_id_eq [OF inv] r by blast
  have "rowcount (\<lambda>x. sl_id x = sl_id s \<and> sl_version x = sl_version s) (sleeves d) = 0"
    using same_id [OF inv _ r(1)] r(2) assms(4) by (auto simp: rowcount_def filter_empty_conv)
  with assms(5,6) sel show ?thesis by (simp add: store_transition_def Let_def)
qed

text \<open>A transition through a held snapshot either finds the row exactly as the snapshot has it and
  moves it, or raises.\<close>

lemma store_transition_Inr:
  assumes inv: "roster_inv d" and s: "snapshot_ok d s"
    and ok: "store_transition now s to_state reason ac ev None d = Inr (s', d')"
  obtains r where "r \<in> set (sleeves d)" and "s = row_to_sleeve r" and "to_state \<in> set STATES"
    and "to_state = ''live'' \<longrightarrow> sl_origin r \<noteq> ''challenger''"
    and "s' = row_to_sleeve (step_to now to_state reason r)"
    and "d' = moved r (step_to now to_state reason)
              (entry now (sl_id r) (sl_version r + 1) (sl_state r) to_state reason ac ev) d"
    and "\<And>e. ev = Some e \<Longrightarrow> e \<in> ev_id ` set (evidence_table d)"
proof -
  obtain r where r: "r \<in> set (sleeves d)" "sl_id r = sl_id s"
    and eq: "sl_version s = sl_version r \<Longrightarrow> s = row_to_sleeve r"
    using s by (auto simp: snapshot_ok_def)
  have st: "to_state \<in> set STATES" using ok by (auto simp: store_transition_def split: if_splits)
  have sel: "select_id (sl_id s) d = Some r" using select_id_eq [OF inv] r by blast
  have bar: "to_state = ''live'' \<longrightarrow> sl_origin r \<noteq> ''challenger''"
    using ok sel by (auto simp: store_transition_def Let_def split: if_splits)
  have "sl_version s = sl_version r"
    using store_transition_stale [OF inv r _ st bar] ok by fastforce
  with eq have s_eq: "s = row_to_sleeve r" by simp
  show thesis
    using ok st bar by (intro that [OF r(1) s_eq st bar])
      (auto simp: s_eq store_transition_current [OF inv r(1) st] split: if_splits)
qed

lemma adopt_challenger_Inr:
  assumes inv: "roster_inv d" and ok: "adopt_challenger now s actor reason d = Inr (s', d')"
  obtains (unchanged) r where "r \<in> set (sleeves d)" "sl_id r = sl_id s" "s' = row_to_sleeve r" "d' = d"
      "sl_origin r \<noteq> ''challenger''"
  | (adopted) r where "r \<in> set (sleeves d)" "sl_id r = sl_id s" "sl_origin r = ''challenger''"
      "strip actor \<noteq> []" "lower (strip actor) \<notin> automated_actors" "strip reason \<noteq> []"
      "s' = row_to_sleeve (adopted now r)"
      "d' = moved r (adopted now) (entry now (sl_id r) (sl_version r + 1) (sl_state r) (sl_state r)
              [S ''challenger adopted: '', S (strip reason)] (strip actor) None) d"
proof -
  from ok obtain r where sel: "select_id (sl_id s) d = Some r"
    by (auto simp: adopt_challenger_def Let_def split: if_splits option.splits)
  then have r: "r \<in> set (sleeves d)" "sl_id r = sl_id s" using select_id_eq [OF inv] by auto
  let ?p = "\<lambda>x. sl_id x = sl_id s \<and> sl_version x = sl_version r"
  have same: "update_where ?p (\<lambda>x. x\<lparr>sl_origin := ''human'', sl_version := sl_version r + 1,
      sl_updated_at := now\<rparr>) (sleeves d) = update_where ?p (adopted now) (sleeves d)"
    by (rule update_where_cong) (simp add: adopted_def)
  note lr = log_and_return_moved [OF inv r(1), of "adopted now", simplified r(2)]
  show thesis
  proof (cases "sl_origin r = ''challenger''")
    case True
    with ok sel r(2) show thesis
      by (intro adopted [OF r True])
        (auto simp: adopt_challenger_def Let_def same lr adopted_def split: if_splits)
  next
    case False
    with ok sel show thesis
      by (intro unchanged [OF r]) (auto simp: adopt_challenger_def Let_def split: if_splits)
  qed
qed

subsection \<open>Registration\<close>

definition born ::
  "instant \<Rightarrow> nat \<Rightarrow> string \<Rightarrow> string \<Rightarrow> string \<Rightarrow> string \<Rightarrow> string \<Rightarrow> string \<Rightarrow> sleeve_row" where
  "born now i strategy_id symbol strategy_version asset_class account origin =
     \<lparr>sl_id = i, sl_strategy_id = strategy_id, sl_strategy_version = strategy_version,
      sl_symbol = symbol, sl_asset_class = asset_class, sl_account_id = account,
      sl_state = ''candidate'', sl_version = 1, sl_since = now, sl_reason = [S ''registered''],
      sl_probation_count = 0, sl_position_environment = POSITION_NONE, sl_origin = origin,
      sl_created_at = now, sl_updated_at = now\<rparr>"

definition inserted :: "sleeve_row \<Rightarrow> transition_row \<Rightarrow> db \<Rightarrow> db" where
  "inserted r t d = d\<lparr>sleeves := sleeves d @ [r], sleeve_id_seq := sleeve_id_seq d + 1,
     transitions_table := transitions_table d @ [t]\<rparr>"

lemma born_sel [simp]:
  "sl_id (born now i st sy ve as ac og) = i" "identity (born now i st sy ve as ac og) = (st, sy, ac)"
  "sl_version (born now i st sy ve as ac og) = 1" "sl_state (born now i st sy ve as ac og) = ''candidate''"
  "sl_origin (born now i st sy ve as ac og) = og"
  "row_summary (born now i st sy ve as ac og) = (1, ''candidate'', POSITION_NONE, 0)"
  by (simp_all add: born_def identity_def row_summary_def)

lemma born_ok: "og \<in> {''human'', ''challenger''} \<Longrightarrow> row_ok (born now i st sy ve as ac og)"
  by (auto simp: born_def row_ok_defs)

lemma sleeve_checks_born:
  "sleeve_checks (born now i st sy ve as ac og) \<longleftrightarrow> og \<in> {''human'', ''challenger''}"
  by (simp add: born_def sleeve_checks_def STATES_def position_defs)

lemma fresh_log: "roster_inv d \<Longrightarrow> log_of (sleeve_id_seq d) d = []"
  using roster_invD(5,6) [of d] by (fastforce simp: log_of_def filter_empty_conv)

lemma inserted_inv:
  assumes inv: "roster_inv d" and og: "og \<in> {''human'', ''challenger''}"
    and new: "(st, sy, ac) \<notin> identity ` set (sleeves d)"
  shows "roster_inv (inserted (born now (sleeve_id_seq d) st sy ve as ac og)
           (entry now (sleeve_id_seq d) 1 ''none'' ''candidate'' rs actor ev) d)"
    (is "roster_inv (inserted ?r ?t d)")
proof -
  have fresh: "sl_id x < sleeve_id_seq d" if "x \<in> set (sleeves d)" for x
    using roster_invD(5) [OF inv that] .
  have log: "log_of i (inserted ?r ?t d) = log_of i d @ (if i = sleeve_id_seq d then [?t] else [])" for i
    by (simp add: log_of_def inserted_def)
  have "row_ok x \<and> sl_id x < sleeve_id_seq d + 1 \<and>
      replay (log_of (sl_id x) (inserted ?r ?t d)) unborn = Some (row_summary x)"
    if "x \<in> insert ?r (set (sleeves d))" for x
  proof (cases "x \<in> set (sleeves d)")
    case True
    with roster_invD(3,4) [OF inv True] fresh [OF True] show ?thesis by (simp add: log)
  next
    case False
    with that have "x = ?r" by simp
    with born_ok [OF og] fresh_log [OF inv] show ?thesis
      by (simp add: log unborn_def roster_position_cases)
  qed
  moreover have "distinct (map sl_id (sleeves d @ [?r]))"
    using roster_invD(1) [OF inv] fresh by fastforce
  moreover have "distinct (map identity (sleeves d @ [?r]))"
    using roster_invD(2) [OF inv] new by auto
  ultimately show ?thesis
    using roster_invD(6) [OF inv] by (auto simp: roster_inv_def inserted_def)
qed

lemma inserted_snapshot:
  "snapshot_ok d s \<Longrightarrow> snapshot_ok (inserted r t d) s"
  "snapshot_ok (inserted r t d) (row_to_sleeve r)"
  by (auto simp: snapshot_ok_def inserted_def)

lemma store_register_eq:
  assumes inv: "roster_inv d"
  shows "store_register cfg now st sy ve as a actor og d =
    (let account = or_default a (cfg_account_id cfg) in
     case select_identity st (upper sy) account d of
       Some r \<Rightarrow>
         if sl_state r \<noteq> ''retired'' then Inr (row_to_sleeve r, d)
         else Inr (row_to_sleeve (retire_return now r),
                moved r (retire_return now)
                  (entry now (sl_id r) (sl_version r + 1) (sl_state r) ''candidate''
                     [S ''re-registered''] actor None) d)
     | None \<Rightarrow>
         if og \<in> {''human'', ''challenger''}
         then (let r = born now (sleeve_id_seq d) st (upper sy) ve as account og in
               Inr (row_to_sleeve r,
                 inserted r (entry now (sleeve_id_seq d) 1 ''none'' ''candidate'' [S ''registered''] actor None) d))
         else Inl (IntegrityError ''sleeve_origin_known''))"
proof (cases "select_identity st (upper sy) (or_default a (cfg_account_id cfg)) d")
  case (Some r)
  then have r: "r \<in> set (sleeves d)" using find_Some_mem by (fastforce simp: select_identity_def)
  let ?p = "\<lambda>x. sl_id x = sl_id r \<and> sl_version x = sl_version r"
  have same: "update_where ?p (\<lambda>x. x\<lparr>sl_state := ''candidate'', sl_version := sl_version r + 1,
      sl_since := now, sl_reason := [S ''re-registered''], sl_updated_at := now\<rparr>) (sleeves d)
      = update_where ?p (retire_return now) (sleeves d)"
    by (rule update_where_cong) (simp add: retire_return_def)
  show ?thesis
    by (simp add: store_register_def Let_def Some same
        log_and_return_moved [OF inv r] retire_return_def [of now r])
next
  case None
  have "(sleeve_id_seq d, 1) \<notin> (\<lambda>t. (tr_sleeve_id t, tr_seq t)) ` set (transitions_table d)"
    using fresh_log [OF inv] by (auto simp: log_of_def filter_empty_conv)
  then show ?thesis
    using sleeve_checks_born
    by (simp add: store_register_def Let_def None append_transition_def born_def [symmetric]
        inserted_def entry_def)
qed

subsection \<open>The machine\<close>

text \<open>
  The state is the database with the set of snapshots the store has handed out. A transition or an
  adoption goes through such a snapshot, as every caller in the repository does (a \<open>Sleeve\<close> is only
  ever built from a row), and leaves \<open>expected_version\<close> unset, as every caller does. The rule
  \<open>check\<close> reads the latch in an arbitrary earlier database \<open>d0\<close> and writes into the current one.
\<close>

inductive roster_step :: "store_settings \<Rightarrow> db \<times> sleeve set \<Rightarrow> db \<times> sleeve set \<Rightarrow> bool" for cfg where
  read: "r \<in> set (sleeves d) \<Longrightarrow> roster_step cfg (d, K) (d, insert (row_to_sleeve r) K)"
| register: "store_register cfg now st sy ve as a actor og d = Inr (s, d') \<Longrightarrow>
    roster_step cfg (d, K) (d', insert s K)"
| transition: "s \<in> K \<Longrightarrow> store_transition now s to_state reason actor ev None d = Inr (s', d') \<Longrightarrow>
    roster_step cfg (d, K) (d', insert s' K)"
| adopt: "s \<in> K \<Longrightarrow> adopt_challenger now s actor reason' d = Inr (s', d') \<Longrightarrow>
    roster_step cfg (d, K) (d', insert s' K)"
| live_mode: "roster_step cfg (d, K) (snd (set_live_mode cfg now on actor why a d), K)"
| evidence: "record_evidence dig now scope metrics arts d = Inr (i, d') \<Longrightarrow> roster_step cfg (d, K) (d', K)"
| artifact: "record_validation_artifact cfg dig' now art a d = Inr (i, d') \<Longrightarrow>
    roster_step cfg (d, K) (d', K)"
| proposal: "roster_step cfg (d, K) (snd (record_challenger_proposal cfg now cid c x1 x2 n x3 b a d), K)"
| learning: "record_learning_cycle cfg now report a d = Inr (i, d') \<Longrightarrow> roster_step cfg (d, K) (d', K)"
| check: "roster_step cfg (d, K)
    (snd (record_reconciliation cfg (\<lambda>_. d) br en ok breaks err dep a m d0), K)"
| halt: "roster_step cfg (d, K) (snd (halt_entries cfg now br en why' a d), K)"
| clear: "clear_reconciliation_halt cfg now br en actor a d = Inr (h, d') \<Longrightarrow> roster_step cfg (d, K) (d', K)"
| health: "roster_step cfg (d, K) (snd (record_journal_health k ws we ex ac g st sy en lg d), K)"

definition roster_init :: "db \<times> sleeve set \<Rightarrow> bool" where
  "roster_init x = (x = (empty_db, {}))"

text \<open>Evidence ids come from their sequence.\<close>

definition evidence_inv :: "db \<Rightarrow> bool" where
  "evidence_inv d = (distinct (map ev_id (evidence_table d)) \<and>
     (\<forall>e \<in> set (evidence_table d). ev_id e < evidence_id_seq d))"

definition system_inv :: "db \<times> sleeve set \<Rightarrow> bool" where
  "system_inv x = (roster_inv (fst x) \<and> (\<forall>s \<in> snd x. snapshot_ok (fst x) s) \<and> evidence_inv (fst x))"

lemma log_and_return_evidence:
  "log_and_return now i q fs ts rs ac ev d = Inr (s, d') \<Longrightarrow>
     evidence_table d' = evidence_table d \<and> evidence_id_seq d' = evidence_id_seq d"
  by (auto simp: log_and_return_def append_transition_def split: if_splits sum.splits option.splits)

lemma roster_writes_evidence:
  "store_register cfg now st sy ve as a actor og d = Inr (s, d') \<Longrightarrow>
     evidence_table d' = evidence_table d \<and> evidence_id_seq d' = evidence_id_seq d"
  "store_transition now s to_state reason actor ev ver d = Inr (s', d') \<Longrightarrow>
     evidence_table d' = evidence_table d \<and> evidence_id_seq d' = evidence_id_seq d"
  "adopt_challenger now s actor reason' d = Inr (s', d') \<Longrightarrow>
     evidence_table d' = evidence_table d \<and> evidence_id_seq d' = evidence_id_seq d"
  by (auto simp: store_register_def store_transition_def adopt_challenger_def Let_def append_transition_def
      dest!: log_and_return_evidence split: if_splits sum.splits option.splits)

lemma evidence_inv_step:
  assumes "roster_step cfg (d, K) (d', K')" and "evidence_inv d"
  shows "evidence_inv d'"
  using assms
proof (cases rule: roster_step.cases)
  case (evidence dig now scope metrics arts i)
  with assms(2) show ?thesis
    by (fastforce simp: evidence_inv_def record_evidence_def Let_def less_Suc_eq split: if_splits)
qed (auto simp: evidence_inv_def set_live_mode_def Let_def record_validation_artifact_def
    record_challenger_proposal_def record_learning_cycle_def record_reconciliation_def
    halt_entries_def clear_reconciliation_halt_def record_journal_health_def
    dest!: roster_writes_evidence split: if_splits option.splits)

text \<open>Evidence is append-only as well, and no step takes a snapshot back.\<close>

lemma evidence_prefix_step:
  assumes "roster_step cfg (d, K) (d', K')"
  shows "\<exists>es. evidence_table d' = evidence_table d @ es" and "K \<subseteq> K'"
proof -
  show "\<exists>es. evidence_table d' = evidence_table d @ es"
    using assms
    by (cases rule: roster_step.cases)
      (auto simp: set_live_mode_def Let_def record_evidence_def record_validation_artifact_def
        record_challenger_proposal_def record_learning_cycle_def record_reconciliation_def
        halt_entries_def clear_reconciliation_halt_def record_journal_health_def
        dest!: roster_writes_evidence split: if_splits option.splits)
  show "K \<subseteq> K'" using assms by (cases rule: roster_step.cases) auto
qed

text \<open>Writes to the other tables leave the roster and its log alone.\<close>

definition same_roster :: "db \<Rightarrow> db \<Rightarrow> bool" where
  "same_roster d d' = (sleeves d' = sleeves d \<and> transitions_table d' = transitions_table d \<and>
     sleeve_id_seq d' = sleeve_id_seq d)"

lemma same_roster_inv:
  assumes "same_roster d d'"
  shows "roster_inv d' \<longleftrightarrow> roster_inv d" and "snapshot_ok d' s \<longleftrightarrow> snapshot_ok d s"
  using assms by (simp_all add: same_roster_def roster_inv_def snapshot_ok_def log_of_def)

lemma same_roster_frames [step_intros]:
  "same_roster d (snd (set_live_mode cfg now on actor why a d))"
  "record_evidence dig now scope metrics arts d = Inr (i, d') \<Longrightarrow> same_roster d d'"
  "record_validation_artifact cfg dig' now art a d = Inr (i, d') \<Longrightarrow> same_roster d d'"
  "same_roster d (snd (record_challenger_proposal cfg now cid c x1 x2 n x3 b a d))"
  "record_learning_cycle cfg now report a d = Inr (j, d') \<Longrightarrow> same_roster d d'"
  "same_roster d (snd (record_reconciliation cfg (\<lambda>_. d) br en ok breaks err dep a m d0))"
  "same_roster d (snd (halt_entries cfg now br en why' a d))"
  "clear_reconciliation_halt cfg now br en actor a d = Inr (h, d') \<Longrightarrow> same_roster d d'"
  "same_roster d (snd (record_journal_health k ws we ex ac g st sy en lg d))"
  by (auto simp: same_roster_def set_live_mode_def record_evidence_def Let_def
      record_validation_artifact_def record_challenger_proposal_def record_learning_cycle_def
      record_reconciliation_def halt_entries_def clear_reconciliation_halt_def
      record_journal_health_def split: if_splits option.splits)

text \<open>Every step either leaves the roster alone, moves one row legally, or inserts a new one.\<close>

lemma register_step:
  assumes inv: "roster_inv d" and ok: "store_register cfg now st sy ve as a actor og d = Inr (s, d')"
  obtains (found) r where "r \<in> set (sleeves d)" "s = row_to_sleeve r" "d' = d"
  | (returned) r where "r \<in> set (sleeves d)" "sl_state r = ''retired''" "s = row_to_sleeve (retire_return now r)"
      "d' = moved r (retire_return now)
          (entry now (sl_id r) (sl_version r + 1) (sl_state r) ''candidate'' [S ''re-registered''] actor None) d"
  | (birth) account where "og \<in> {''human'', ''challenger''}"
      "(st, upper sy, account) \<notin> identity ` set (sleeves d)"
      "s = row_to_sleeve (born now (sleeve_id_seq d) st (upper sy) ve as account og)"
      "d' = inserted (born now (sleeve_id_seq d) st (upper sy) ve as account og)
              (entry now (sleeve_id_seq d) 1 ''none'' ''candidate'' [S ''registered''] actor None) d"
proof (cases "select_identity st (upper sy) (or_default a (cfg_account_id cfg)) d")
  case (Some r)
  then have r: "r \<in> set (sleeves d)" using find_Some_mem by (fastforce simp: select_identity_def)
  show thesis
  proof (cases "sl_state r = ''retired''")
    case True
    with ok Some show thesis by (intro returned [OF r True]) (auto simp: store_register_eq [OF inv] Let_def)
  next
    case False
    with ok Some show thesis by (intro found [OF r]) (auto simp: store_register_eq [OF inv] Let_def)
  qed
next
  case None
  then have new: "(st, upper sy, or_default a (cfg_account_id cfg)) \<notin> identity ` set (sleeves d)"
    by (auto simp: select_identity_def find_None_iff)
  from ok None have og: "og \<in> {''human'', ''challenger''}"
    by (simp add: store_register_eq [OF inv] split: if_splits)
  from ok None og show thesis
    by (intro birth [OF og new]) (simp_all add: store_register_eq [OF inv] Let_def)
qed

lemma roster_step_cases:
  assumes inv: "system_inv (d, K)" and st: "roster_step cfg (d, K) (d', K')"
  obtains (frame) "same_roster d d'" "K' \<subseteq> K \<union> row_to_sleeve ` set (sleeves d)"
  | (move) r f t where "r \<in> set (sleeves d)" "legal_move r f t" "d' = moved r f t d"
      "K' = insert (row_to_sleeve (f r)) K"
      "sl_origin (f r) \<noteq> sl_origin r \<Longrightarrow> tr_actor t \<noteq> [] \<and> lower (tr_actor t) \<notin> automated_actors"
  | (insertion) r t where "r \<notin> set (sleeves d)" "row_ok r" "sl_state r = ''candidate''"
      "d' = inserted r t d" "roster_inv d'" "K' = insert (row_to_sleeve r) K"
  using st
proof (cases rule: roster_step.cases)
  case (read r)
  then show thesis by (intro frame) (auto simp: same_roster_def)
next
  case (register now st sy ve as a actor og s)
  from inv have ri: "roster_inv d" by (simp add: system_inv_def)
  from ri register(2) show thesis
  proof (cases rule: register_step)
    case (found r)
    with register(1) show thesis by (intro frame) (auto simp: same_roster_def)
  next
    case (returned r)
    with register(1) roster_invD(3) [OF ri] show thesis
      by (intro move [OF returned(1) retire_return_legal]) (auto simp: retire_return_def)
  next
    case (birth account)
    note ins = inserted_inv [OF ri birth(1,2)]
    have "born now (sleeve_id_seq d) st (upper sy) ve as account og \<notin> set (sleeves d)"
      using roster_invD(5) [OF ri] by fastforce
    from insertion [OF this born_ok [OF birth(1)] _ birth(4)] birth(3,4) register(1) ins
    show thesis by simp
  qed
next
  case (transition s now to_state reason actor ev s')
  from inv transition(2) have si: "roster_inv d" "snapshot_ok d s" by (auto simp: system_inv_def)
  from si transition(3) show thesis
  proof (cases rule: store_transition_Inr)
    case (1 r)
    with transition(1) roster_invD(3) [OF si(1)] show thesis
      by (intro move [OF 1(1) step_to_legal]) (auto simp: step_to_def)
  qed
next
  case (adopt s now actor reason' s')
  from inv have ri: "roster_inv d" by (simp add: system_inv_def)
  from ri adopt(3) show thesis
  proof (cases rule: adopt_challenger_Inr)
    case (unchanged r)
    with adopt(1) show thesis by (intro frame) (auto simp: same_roster_def)
  next
    case (adopted r)
    with adopt(1) roster_invD(3) [OF ri] show thesis
      by (intro move [OF adopted(1) adopted_legal]) auto
  qed
qed (rule frame; (auto intro: same_roster_frames)?)+


lemma system_inv_step:
  assumes inv: "system_inv x" and st: "roster_step cfg x y"
  shows "system_inv y"
proof -
  obtain d K d' K' where xy: "x = (d, K)" "y = (d', K')" by (cases x, cases y)
  from inv have ri: "roster_inv d" and sn: "\<And>s. s \<in> K \<Longrightarrow> snapshot_ok d s"
    by (auto simp: xy system_inv_def)
  from inv st have sys: "system_inv (d, K)" and step: "roster_step cfg (d, K) (d', K')"
    by (simp_all add: xy)
  then have ev: "evidence_inv d'" by (auto simp: system_inv_def intro: evidence_inv_step)
  from sys step have "system_inv (d', K')"
  proof (cases rule: roster_step_cases)
    case frame
    have "snapshot_ok d (row_to_sleeve r)" if "r \<in> set (sleeves d)" for r
      using that by (auto simp: snapshot_ok_def)
    with frame ri sn ev show ?thesis by (auto simp: system_inv_def same_roster_inv)
  next
    case (move r f t)
    with ri sn ev show ?thesis
      by (auto simp: system_inv_def intro: moved_inv moved_snapshot moved_fresh)
  next
    case (insertion r t)
    with sn ev show ?thesis by (auto simp: system_inv_def inserted_snapshot)
  qed
  then show ?thesis by (simp add: xy)
qed

interpretation roster: invariant_system roster_init "roster_step cfg" system_inv for cfg
proof
  show "system_inv s" if "roster_init s" for s
    using that by (simp add: roster_init_def system_inv_def roster_inv_def evidence_inv_def empty_db_def)
  show "system_inv t" if "system_inv s" "roster_step cfg s t" for s t
    using that by (rule system_inv_step)
qed

abbreviation reachable :: "store_settings \<Rightarrow> db \<Rightarrow> sleeve set \<Rightarrow> bool" where
  "reachable cfg d K \<equiv> reach roster_init (roster_step cfg) (d, K)"

lemma reachable_inv:
  assumes "reachable cfg d K"
  shows "roster_inv d" and "s \<in> K \<Longrightarrow> snapshot_ok d s" and "evidence_inv d"
  using roster.reach_inv [OF assms] by (auto simp: system_inv_def)

subsection \<open>A small roster for the witnesses\<close>

text \<open>A challenger's sleeve, registered and moved to paper.\<close>

definition demo_candidate :: sleeve_row where
  "demo_candidate = born 0 1 ''ch_1'' ''AAPL'' ''v1'' ''equity'' ''default'' ''challenger''"

definition demo_db1 :: db where
  "demo_db1 = inserted demo_candidate
     (entry 0 1 1 ''none'' ''candidate'' [S ''registered''] ''operator'' None) empty_db"

definition demo_paper :: sleeve_row where
  "demo_paper = step_to 5 ''paper'' [S ''promoted''] demo_candidate"

definition demo_db2 :: db where
  "demo_db2 = moved demo_candidate (step_to 5 ''paper'' [S ''promoted''])
     (entry 5 1 2 ''candidate'' ''paper'' [S ''promoted''] ''operator'' None) demo_db1"

lemmas demo_defs = demo_candidate_def demo_db1_def demo_paper_def demo_db2_def default_settings_def

lemma demo_rows [simp]:
  "sleeves empty_db = []" "sleeves demo_db1 = [demo_candidate]" "sleeves demo_db2 = [demo_paper]"
  by (simp_all add: demo_defs empty_db_def inserted_def moved_def update_where_def)

lemma demo_candidate_sel [simp]:
  "sl_id demo_candidate = 1" "sl_version demo_candidate = 1" "sl_state demo_candidate = ''candidate''"
  "sl_origin demo_candidate = ''challenger''"
  by (simp_all add: demo_candidate_def)

lemma demo_paper_sel [simp]:
  "sl_id demo_paper = 1" "sl_version demo_paper = 2" "sl_state demo_paper = ''paper''"
  "sl_origin demo_paper = ''challenger''"
  by (simp_all add: demo_paper_def step_to_def)

lemma empty_inv: "roster_inv empty_db"
  by (simp add: roster_inv_def empty_db_def)

lemma demo_upper: "upper ''aapl'' = ''AAPL''" "upper ''AAPL'' = ''AAPL''"
  by code_simp+

lemma demo_register:
  "store_register default_settings 0 ''ch_1'' ''aapl'' ''v1'' ''equity'' None ''operator'' ''challenger'' empty_db
     = Inr (row_to_sleeve demo_candidate, demo_db1)"
  by (simp add: store_register_eq [OF empty_inv] select_identity_def demo_defs demo_upper Let_def)
    (simp add: empty_db_def)

lemma demo_reachable1: "reachable default_settings demo_db1 {row_to_sleeve demo_candidate}"
  by (rule reach_step [OF reach_init], simp add: roster_init_def)
    (rule roster_step.register [OF demo_register])

lemma demo_transition:
  "store_transition 5 (row_to_sleeve demo_candidate) ''paper'' [S ''promoted''] ''operator'' None None demo_db1
     = Inr (row_to_sleeve demo_paper, demo_db2)"
  by (subst store_transition_current [OF reachable_inv(1) [OF demo_reachable1]])
    (simp_all add: STATES_def demo_paper_def demo_db2_def)

lemma demo_reachable2:
  "reachable default_settings demo_db2 {row_to_sleeve demo_paper, row_to_sleeve demo_candidate}"
  by (rule reach_step [OF demo_reachable1])
    (rule roster_step.transition [OF _ demo_transition], simp)

subsection \<open>Properties\<close>

text \<open>
  C3: the challenger barrier. In every reachable state a challenger-origin sleeve is not live and holds
  no live position, and every attempt to move it to live is refused by the store whatever snapshot
  (even a forged one), evidence or expected version the caller presents.
\<close>

theorem challenger_never_live:
  assumes "reachable cfg d K" and "r \<in> set (sleeves d)" and "sl_origin r = ''challenger''"
  shows "sl_state r \<noteq> ''live'' \<and> sl_position_environment r \<noteq> POSITION_LIVE \<and>
    (\<forall>now s reason ac ev ver. sl_id s = sl_id r \<longrightarrow>
       (\<exists>m. store_transition now s ''live'' reason ac ev ver d = Inl (ChallengerCannotGoLiveError m)))"
proof -
  note inv = reachable_inv(1) [OF assms(1)]
  have "select_id (sl_id r) d = Some r" using select_id_eq [OF inv] assms(2) by blast
  then have "\<exists>m. store_transition now s ''live'' reason ac ev ver d = Inl (ChallengerCannotGoLiveError m)"
    if "sl_id s = sl_id r" for now s reason ac ev ver
    using that assms(3) by (simp add: store_transition_def STATES_def)
  with roster_invD(3) [OF inv assms(2)] assms(3) show ?thesis
    by (simp add: row_ok_def barrier_def)
qed

theorem challenger_never_live_witness:
  "sl_state demo_paper \<noteq> ''live'' \<and> sl_position_environment demo_paper \<noteq> POSITION_LIVE"
  using challenger_never_live [OF demo_reachable2, of demo_paper] by simp

text \<open>
  C19: the transition log determines the roster. In every reachable state, replaying a sleeve's log
  entries in order, each checked to continue the one before, ends exactly in the row's version,
  state, position environment and probation count; there is one entry per version.
\<close>

theorem audit_log_replays:
  assumes "reachable cfg d K" and "r \<in> set (sleeves d)"
  shows "replay (log_of (sl_id r) d) unborn = Some (row_summary r) \<and>
    int (length (log_of (sl_id r) d)) = sl_version r"
  using roster_invD(4) [OF reachable_inv(1) [OF assms(1)] assms(2)]
    replay_version [of "log_of (sl_id r) d" unborn "row_summary r"]
  by (simp add: unborn_def row_summary_def)

theorem audit_log_replays_witness:
  "replay (log_of 1 demo_db2) unborn = Some (row_summary demo_paper)"
  using audit_log_replays [OF demo_reachable2, of demo_paper] by simp

text \<open>
  A transition that succeeds met exactly the row its snapshot was taken from: the new row is what is returned, one version
  up, every other row is untouched, and the log gains exactly one entry, which starts at the snapshot's state.
\<close>

lemma transition_from_snapshot:
  assumes "reachable cfg d K" and "s \<in> K"
    and "store_transition now s to_state reason ac ev None d = Inr (s', d')"
  shows "\<exists>r \<in> set (sleeves d). s = row_to_sleeve r \<and>
    (\<exists>r'. select_id (sl_id s) d' = Some r' \<and> s' = row_to_sleeve r' \<and>
       sl_state r' = to_state \<and> sl_version r' = sl_version s + 1 \<and> sl_origin r' = sl_origin s \<and>
       set (sleeves d') = insert r' (set (sleeves d) - {r})) \<and>
    (\<exists>t. transitions_table d' = transitions_table d @ [t] \<and> tr_from_state t = sl_state s \<and>
       tr_to_state t = to_state \<and> tr_seq t = sl_version s + 1 \<and> tr_actor t = ac \<and>
       tr_evidence_snapshot_id t = ev)"
proof -
  note inv = reachable_inv [OF assms(1)]
  obtain r where r: "r \<in> set (sleeves d)" and s: "s = row_to_sleeve r" and st: "to_state \<in> set STATES"
    and bar: "to_state = ''live'' \<longrightarrow> sl_origin r \<noteq> ''challenger''"
    and s': "s' = row_to_sleeve (step_to now to_state reason r)"
    and d': "d' = moved r (step_to now to_state reason)
              (entry now (sl_id r) (sl_version r + 1) (sl_state r) to_state reason ac ev) d"
    using store_transition_Inr [OF inv(1) inv(2) [OF assms(2)] assms(3)] by metis
  let ?r = "step_to now to_state reason r"
  have inv': "roster_inv d'"
    unfolding d' by (rule moved_inv [OF inv(1) r step_to_legal [OF roster_invD(3) [OF inv(1) r] st bar]])
  have sl: "sleeves d' = map (\<lambda>x. if x = r then ?r else x) (sleeves d)"
    unfolding d' by (rule sleeves_moved [OF inv(1) r])
  have "?r \<in> set (sleeves d')" "sl_id ?r = sl_id s" using r by (auto simp: sl s step_to_def)
  then have "select_id (sl_id s) d' = Some ?r" using select_id_eq [OF inv'] by blast
  moreover have "set (sleeves d') = insert ?r (set (sleeves d) - {r})" using r by (auto simp: sl)
  moreover have "transitions_table d' = transitions_table d @
      [entry now (sl_id r) (sl_version r + 1) (sl_state r) to_state reason ac ev]"
    by (simp add: d' moved_def)
  ultimately show ?thesis
    using r s s' by (intro bexI [OF _ r]) (auto simp: step_to_def)
qed

text \<open>
  a stale writer is refused. If the row's version has moved on since the snapshot was handed out,
  the transition raises \<open>ConcurrentTransitionError\<close> (or the challenger refusal) and, raising, commits
  nothing.
\<close>

theorem stale_transition_raises:
  assumes "reachable cfg d K" and "s \<in> K" and "to_state \<in> set STATES"
    and "select_id (sl_id s) d = Some r" and "sl_version r \<noteq> sl_version s"
  shows "\<exists>m. store_transition now s to_state reason ac ev None d = Inl (ConcurrentTransitionError m)
    \<or> (to_state = ''live'' \<and> sl_origin r = ''challenger'' \<and>
       store_transition now s to_state reason ac ev None d = Inl (ChallengerCannotGoLiveError m))"
proof -
  note inv = reachable_inv(1) [OF assms(1)]
  from assms(4) have r: "r \<in> set (sleeves d)" "sl_id r = sl_id s" using select_id_eq [OF inv] by auto
  show ?thesis
  proof (cases "to_state = ''live'' \<and> sl_origin r = ''challenger''")
    case True
    with assms(3,4) show ?thesis by (auto simp: store_transition_def)
  next
    case False
    with store_transition_stale [OF inv r _ assms(3)] assms(5) show ?thesis by auto
  qed
qed

theorem stale_transition_raises_witness:
  "\<exists>m. store_transition 9 (row_to_sleeve demo_candidate) ''retired'' [] ''operator'' None None demo_db2
       = Inl (ConcurrentTransitionError m)"
  using stale_transition_raises [OF demo_reachable2, of "row_to_sleeve demo_candidate" "''retired''" demo_paper]
  by (auto simp: STATES_def select_id_def)

text \<open>
  the record is append-only and identities are permanent. Every step of every process keeps the
  whole log as a prefix and adds at most one entry; every row keeps its id and its
  (strategy, symbol, account), and its version never goes down. A row's origin changes only in a step
  whose log entry names an actor that is neither blank nor one of the automated names.
\<close>

theorem roster_append_only:
  assumes "reachable cfg d K" and "roster_step cfg (d, K) (d', K')"
  shows "\<exists>ts. transitions_table d' = transitions_table d @ ts \<and> length ts \<le> 1 \<and>
    (\<forall>r \<in> set (sleeves d). \<exists>r' \<in> set (sleeves d'). sl_id r' = sl_id r \<and> identity r' = identity r \<and>
       sl_version r \<le> sl_version r' \<and>
       (sl_origin r' \<noteq> sl_origin r \<longrightarrow>
          (\<exists>t \<in> set ts. tr_actor t \<noteq> [] \<and> lower (tr_actor t) \<notin> automated_actors)))"
proof -
  have inv: "system_inv (d, K)" by (rule roster.reach_inv [OF assms(1)])
  then have ri: "roster_inv d" by (simp add: system_inv_def)
  from inv assms(2) show ?thesis
  proof (cases rule: roster_step_cases)
    case frame
    then show ?thesis by (intro exI [of _ "[]"]) (auto simp: same_roster_def)
  next
    case (move r f t)
    have "\<exists>x' \<in> set (sleeves d'). sl_id x' = sl_id x \<and> identity x' = identity x \<and>
        sl_version x \<le> sl_version x' \<and>
        (sl_origin x' \<noteq> sl_origin x \<longrightarrow> tr_actor t \<noteq> [] \<and> lower (tr_actor t) \<notin> automated_actors)"
      if x: "x \<in> set (sleeves d)" for x
    proof (cases "x = r")
      case True
      with move legal_move_version [OF move(2)] show ?thesis
        by (intro bexI [of _ "f r"]) (auto simp: legal_move_def sleeves_moved [OF ri move(1)])
    next
      case False
      with x move(3) show ?thesis
        by (intro bexI [of _ x]) (auto simp: sleeves_moved [OF ri move(1)])
    qed
    then show ?thesis using move(3) by (intro exI [of _ "[t]"]) (auto simp: moved_def)
  next
    case (insertion r t)
    then show ?thesis by (intro exI [of _ "[t]"]) (force simp: inserted_def)
  qed
qed

theorem roster_append_only_witness:
  "\<exists>ts. transitions_table demo_db2 = transitions_table demo_db1 @ ts \<and> length ts \<le> 1"
  using roster_append_only [OF demo_reachable1 roster_step.transition [OF _ demo_transition]] by auto

lemma snapshots_kept: "roster_step cfg x y \<Longrightarrow> snd x \<subseteq> snd y"
  by (induction rule: roster_step.induct) auto

lemma later_versions:
  assumes "(roster_step cfg)\<^sup>*\<^sup>* x y" and "reachable cfg (fst x) (snd x)" and "r \<in> set (sleeves (fst x))"
  shows "reachable cfg (fst y) (snd y) \<and> snd x \<subseteq> snd y \<and> (\<exists>r' \<in> set (sleeves (fst y)). sl_id r' = sl_id r \<and> sl_version r \<le> sl_version r')"
  using assms
proof (induction rule: rtranclp_induct)
  case (step y z)
  then obtain r1 where r1: "reachable cfg (fst y) (snd y)" "snd x \<subseteq> snd y" "r1 \<in> set (sleeves (fst y))" "sl_id r1 = sl_id r" "sl_version r \<le> sl_version r1" by blast
  have st: "roster_step cfg (fst y, snd y) (fst z, snd z)" using step(2) by simp
  from roster_append_only [OF r1(1) st] r1(3) obtain r2 where "r2 \<in> set (sleeves (fst z))" "sl_id r2 = sl_id r1" "sl_version r1 \<le> sl_version r2" by blast
  moreover have "reachable cfg (fst z) (snd z)" using r1(1) st by (meson reach_step)
  ultimately show ?case using r1 snapshots_kept [OF step(2)] by (metis order_trans subset_trans)
qed auto

lemma used_snapshot_refused:
  assumes "reachable cfg d K" and "s \<in> K" and "r \<in> set (sleeves d)" and "sl_id r = sl_id s" and "sl_version s < sl_version r"
  shows "\<exists>e. store_transition now s to_state reason ac ev None d = Inl e"
proof (cases "store_transition now s to_state reason ac ev None d")
  case (Inr p)
  note inv = reachable_inv [OF assms(1)]
  obtain s' d' where "p = (s', d')" by (cases p)
  with store_transition_Inr [OF inv(1) inv(2) [OF assms(2)]] Inr obtain x where "x \<in> set (sleeves d)" "s = row_to_sleeve x" by metis
  with assms(3-5) same_id [OF inv(1)] show ?thesis by fastforce
qed simp

text \<open>
  C27: no lost update. When a process moves a sleeve through a snapshot it was handed earlier, however many other
  processes wrote in between, the row at that moment is exactly the snapshot; the new row is what is returned, one version
  up, every other row is untouched, and the log gains exactly one entry, which starts at the snapshot's state. And of two
  transitions made from one read at most one lands: after the first, and after anything that any process does then, every
  further transition through the same snapshot, to whatever state, raises.
\<close>

theorem no_lost_update:
  assumes "reachable cfg d K" and "s \<in> K"
    and "store_transition now s to_state reason ac ev None d = Inr (s', d')"
  shows "(\<exists>r \<in> set (sleeves d). s = row_to_sleeve r \<and>
      (\<exists>r'. select_id (sl_id s) d' = Some r' \<and> s' = row_to_sleeve r' \<and>
         sl_state r' = to_state \<and> sl_version r' = sl_version s + 1 \<and> sl_origin r' = sl_origin s \<and>
         set (sleeves d') = insert r' (set (sleeves d) - {r})) \<and>
      (\<exists>t. transitions_table d' = transitions_table d @ [t] \<and> tr_from_state t = sl_state s \<and>
         tr_to_state t = to_state \<and> tr_seq t = sl_version s + 1 \<and> tr_actor t = ac \<and>
         tr_evidence_snapshot_id t = ev)) \<and>
    (\<forall>d2 K2 now2 to2 reason2 ac2 ev2. (roster_step cfg)\<^sup>*\<^sup>* (d', insert s' K) (d2, K2) \<longrightarrow>
       (\<exists>e. store_transition now2 s to2 reason2 ac2 ev2 None d2 = Inl e))"
proof -
  have landed: "\<exists>r \<in> set (sleeves d). s = row_to_sleeve r \<and>
      (\<exists>r'. select_id (sl_id s) d' = Some r' \<and> s' = row_to_sleeve r' \<and>
         sl_state r' = to_state \<and> sl_version r' = sl_version s + 1 \<and> sl_origin r' = sl_origin s \<and>
         set (sleeves d') = insert r' (set (sleeves d) - {r})) \<and>
      (\<exists>t. transitions_table d' = transitions_table d @ [t] \<and> tr_from_state t = sl_state s \<and>
         tr_to_state t = to_state \<and> tr_seq t = sl_version s + 1 \<and> tr_actor t = ac \<and>
         tr_evidence_snapshot_id t = ev)" by (rule transition_from_snapshot [OF assms])
  moreover have "\<exists>e. store_transition now2 s to2 reason2 ac2 ev2 None d2 = Inl e" if later: "(roster_step cfg)\<^sup>*\<^sup>* (d', insert s' K) (d2, K2)"
    for d2 K2 now2 to2 reason2 ac2 ev2
  proof -
    have re: "reachable cfg d' (insert s' K)" using assms(1) roster_step.transition [OF assms(2,3), of cfg] by (meson reach_step)
    from landed obtain r' where r': "select_id (sl_id s) d' = Some r'" "sl_version r' = sl_version s + 1" by blast
    then have mem: "r' \<in> set (sleeves d')" "sl_id r' = sl_id s" using select_id_eq [OF reachable_inv(1) [OF re]] by auto
    from later_versions [OF later] re mem(1) obtain r2 where "reachable cfg d2 K2" "insert s' K \<subseteq> K2"
      "r2 \<in> set (sleeves d2)" "sl_id r2 = sl_id r'" "sl_version r' \<le> sl_version r2" by auto
    with used_snapshot_refused [of cfg d2 K2 s r2] assms(2) mem r'(2) show ?thesis by auto
  qed
  ultimately show ?thesis by blast
qed

theorem no_lost_update_witness:
  "\<exists>e. store_transition 9 (row_to_sleeve demo_candidate) ''retired'' [] ''operator'' None None demo_db2 = Inl e"
  using no_lost_update [OF demo_reachable1 _ demo_transition] by blast

text \<open>
  registering again does not launder the record. For a known (strategy, symbol, account) the call
  returns the existing sleeve unchanged, unless it is retired; a retired one comes back as a candidate
  with its probation count, its position environment and its origin, whatever origin the caller named.
\<close>

theorem register_keeps_record:
  assumes "reachable cfg d K"
    and "select_identity st (upper sy) (or_default a (cfg_account_id cfg)) d = Some r"
  shows "\<exists>s d'. store_register cfg now st sy ve as a actor og d = Inr (s, d') \<and> sl_id s = sl_id r \<and>
    sl_probation_count s = sl_probation_count r \<and> sl_origin s = sl_origin r \<and>
    sl_position_environment s = sl_position_environment r \<and>
    (if sl_state r = ''retired'' then sl_state s = ''candidate'' \<and> sl_version s = sl_version r + 1
     else s = row_to_sleeve r \<and> d' = d)"
  using assms(2)
  by (simp add: store_register_eq [OF reachable_inv(1) [OF assms(1)]] retire_return_def)

theorem register_keeps_record_witness:
  "\<exists>s d'. store_register default_settings 7 ''ch_1'' ''AAPL'' ''v9'' ''equity'' None ''x'' ''human'' demo_db2
       = Inr (s, d') \<and> sl_origin s = ''challenger''"
  using register_keeps_record [OF demo_reachable2, where st = "''ch_1''" and sy = "''AAPL''" and a = None
      and r = demo_paper and now = 7 and ve = "''v9''" and as = "''equity''" and actor = "''x''" and og = "''human''"]
  by (auto simp: select_identity_def identity_def demo_paper_def step_to_def demo_candidate_def born_def
      default_settings_def demo_upper)

end
