(* ===== verification/Evidence.thy ===== *)
theory Evidence
  imports Roster
begin

text \<open>
  \<open>libs/lifecycle/src/lifecycle/evidence.py\<close>: promotion evidence derived by the server. The stored
  artifacts come from the modelled database. What the journal and the attribution library answer is
  an input of the model, the record \<open>journal_view\<close>: the dictionaries returned by
  \<open>scoped_execution_metrics\<close> and \<open>completeness\<close>, and the one of \<open>performance_from_trades\<close> or the
  exception raised on the way to it.
\<close>

subsection \<open>Values\<close>

text \<open>\<open>float(v)\<close> on a JSON value.\<close>

fun py_float :: "json \<Rightarrow> exn + pyfloat" where
  "py_float (JBool b) = Inr (Fin (if b then 1 else 0))"
| "py_float (JInt n) = Inr (Fin (of_int n))"
| "py_float (JFloat x) = Inr x"
| "py_float (JStr s) =
     (case float_of_string s of None \<Rightarrow> Inl (ValueError [S ''could not convert string to float: '', S s])
      | Some x \<Rightarrow> Inr x)"
| "py_float _ = Inl (TypeError ''float() argument must be a string or a real number'')"

fun f_round :: "nat \<Rightarrow> pyfloat \<Rightarrow> pyfloat" where
  "f_round n (Fin x) = Fin (py_round n x)"
| "f_round n x = x"

definition jget_default :: "jdict \<Rightarrow> string \<Rightarrow> json \<Rightarrow> json" where
  "jget_default d k v = (case map_of d k of None \<Rightarrow> v | Some x \<Rightarrow> x)"

definition json_or :: "json \<Rightarrow> json \<Rightarrow> json" where
  "json_or a b = (if json_truthy a then a else b)"

definition WALK_FORWARD :: string where
  "WALK_FORWARD = ''walk_forward''"

definition PORTFOLIO_CORRELATION :: string where
  "PORTFOLIO_CORRELATION = ''portfolio_correlation''"

text \<open>The scope dictionary: the window and version keys may be absent.\<close>

record derived_scope =
  ds_strategy_id :: string
  ds_strategy_version :: string
  ds_symbol :: string
  ds_asset_class :: string
  ds_environment :: string
  ds_broker :: string
  ds_account_id :: string
  ds_portfolio_id :: string
  ds_window :: "(instant \<times> instant) option"
  ds_data_version :: string
  ds_model_version :: string

record derived_evidence =
  de_scope :: derived_scope
  de_metrics :: jdict
  de_source_artifacts :: "source_artifact list"
  de_problems :: "msg list"

definition usable :: "derived_evidence \<Rightarrow> bool" where
  "usable e = (de_problems e = [])"

definition scope_matches :: "artifact_row \<Rightarrow> sleeve \<Rightarrow> string \<Rightarrow> msg option" where
  "scope_matches a s expected_kind =
     (if ar_kind a \<noteq> expected_kind then
        Some [S ''artifact '', I (int (ar_id a)), S '' is a '', S (ar_kind a), S '', expected '', S expected_kind]
      else if ar_strategy_id a \<noteq> sl_strategy_id s then
        Some [S ''artifact '', I (int (ar_id a)), S '' is for strategy '', S (ar_strategy_id a),
              S '', sleeve is '', S (sl_strategy_id s)]
      else if upper (ar_symbol a) \<noteq> upper (sl_symbol s) then
        Some [S ''artifact '', I (int (ar_id a)), S '' is for '', S (ar_symbol a),
              S '', sleeve is '', S (sl_symbol s)]
      else if sl_strategy_version s \<noteq> [] \<and> ar_strategy_version a \<noteq> sl_strategy_version s then
        Some [S ''artifact '', I (int (ar_id a)), S '' is for strategy version '', S (ar_strategy_version a),
              S '', sleeve is '', S (sl_strategy_version s)]
      else None)"

text \<open>The loop over the cited ids: the problems and the artifacts that passed, in citation order.\<close>

fun collect_artifacts :: "db \<Rightarrow> sleeve \<Rightarrow> nat list \<Rightarrow> msg list \<times> artifact_row list" where
  "collect_artifacts d s [] = ([], [])"
| "collect_artifacts d s (i # is) =
     (let (ps, as) = collect_artifacts d s is in
      case validation_artifact i d of
        None \<Rightarrow> ([S ''artifact '', I (int i), S '' does not exist''] # ps, as)
      | Some a \<Rightarrow>
          (case scope_matches a s WALK_FORWARD of
             Some m \<Rightarrow> (m # ps, as)
           | None \<Rightarrow> (ps, a # as)))"

text \<open>\<open>max(xs, key=k)\<close> of a non-empty list: the first element with the greatest key.\<close>

fun max_by :: "('a \<Rightarrow> 'k::linorder) \<Rightarrow> 'a \<Rightarrow> 'a list \<Rightarrow> 'a" where
  "max_by k best [] = best"
| "max_by k best (x # xs) = max_by k (if k best < k x then x else best) xs"

definition backtest_keys :: "string list" where
  "backtest_keys = [''deflated_sharpe_ratio'', ''probabilistic_sharpe_ratio'', ''out_of_sample_sharpe'',
     ''out_of_sample_return_pct'', ''out_of_sample_trades'', ''out_of_sample_max_drawdown_pct'',
     ''n_trials'', ''parameter_stability'', ''n_folds'']"

definition artifact_ref :: "artifact_row \<Rightarrow> bool \<Rightarrow> source_artifact" where
  "artifact_ref a with_producer = \<lparr>sa_id = ar_id a, sa_kind = ar_kind a,
     sa_content_hash = ar_content_hash a, sa_created_at = ar_created_at a,
     sa_produced_by = (if with_producer then Some (ar_produced_by a) else None)\<rparr>"

definition derive_backtest_evidence :: "db \<Rightarrow> sleeve \<Rightarrow> nat list \<Rightarrow> derived_evidence" where
  "derive_backtest_evidence d s artifact_ids =
     (let scope = \<lparr>ds_strategy_id = sl_strategy_id s, ds_strategy_version = sl_strategy_version s,
            ds_symbol = sl_symbol s, ds_asset_class = sl_asset_class s,
            ds_environment = ''backtest'', ds_broker = ''none'', ds_account_id = sl_account_id s,
            ds_portfolio_id = ''none'', ds_window = None, ds_data_version = [], ds_model_version = []\<rparr>
      in if artifact_ids = [] then
           \<lparr>de_scope = scope, de_metrics = [], de_source_artifacts = [],
            de_problems = [[S ''no validation artifact cited'']]\<rparr>
         else
           (case collect_artifacts d s artifact_ids of
              (problems, []) \<Rightarrow>
                \<lparr>de_scope = scope, de_metrics = [], de_source_artifacts = [],
                 de_problems = (if problems = [] then [[S ''no usable artifact'']] else problems)\<rparr>
            | (problems, a # as) \<Rightarrow>
                (let latest = max_by ar_created_at a as;
                     payload = (case ar_payload latest of None \<Rightarrow> [] | Some p \<Rightarrow> p)
                 in \<lparr>de_scope = scope\<lparr>ds_window := Some (Min (ar_window_start ` set (a # as)),
                                                       Max (ar_window_end ` set (a # as))),
                                    ds_data_version := ar_data_version latest,
                                    ds_model_version := ar_model_version latest\<rparr>,
                     de_metrics = map (\<lambda>k. (k, jget payload k)) backtest_keys,
                     de_source_artifacts = map (\<lambda>x. artifact_ref x True) (a # as),
                     de_problems = problems\<rparr>)))"

record journal_view =
  jv_execution :: jdict
  jv_performance :: "exn + jdict"
  jv_completeness :: jdict

definition paper_days :: "instant \<Rightarrow> instant \<Rightarrow> rat" where
  "paper_days window_start window_end = py_round 2 (max 0 (total_seconds (window_end - window_start) / 86400))"

text \<open>The correlation part: the problems it adds, the figure, the artifact reference.\<close>

definition derive_correlation ::
  "db \<Rightarrow> sleeve \<Rightarrow> nat option \<Rightarrow> msg list \<times> json \<times> source_artifact list" where
  "derive_correlation d s correlation_artifact_id =
     (case correlation_artifact_id of
        None \<Rightarrow> ([], JNull, [])
      | Some i \<Rightarrow>
          (case validation_artifact i d of
             None \<Rightarrow> ([[S ''correlation artifact '', I (int i), S '' does not exist'']], JNull, [])
           | Some a \<Rightarrow>
               (case scope_matches a s PORTFOLIO_CORRELATION of
                  Some m \<Rightarrow> ([m], JNull, [])
                | None \<Rightarrow> ([], jget (case ar_payload a of None \<Rightarrow> [] | Some p \<Rightarrow> p)
                                  ''max_correlation_with_live'', [artifact_ref a False]))))"

definition derive_paper_evidence ::
  "db \<Rightarrow> journal_view \<Rightarrow> sleeve \<Rightarrow> instant \<Rightarrow> instant \<Rightarrow> nat option \<Rightarrow> exn + derived_evidence" where
  "derive_paper_evidence d jv s window_start window_end correlation_artifact_id =
     (let ex = jv_execution jv; co = jv_completeness jv;
          scope = \<lparr>ds_strategy_id = sl_strategy_id s, ds_strategy_version = sl_strategy_version s,
            ds_symbol = sl_symbol s, ds_asset_class = sl_asset_class s,
            ds_environment = ''paper'', ds_broker = ''paper'', ds_account_id = sl_account_id s,
            ds_portfolio_id = sl_account_id s, ds_window = Some (window_start, window_end),
            ds_data_version = [], ds_model_version = sl_strategy_version s\<rparr>;
          p1 = (if json_truthy (jget ex ''available'') then []
                else [[S ''execution records unavailable: '', J (jget ex ''reason'')]]);
          (p2, performance) = (case jv_performance jv of
                Inl e \<Rightarrow> ([[S ''paper round-trip P&L unavailable: ''] @ exn_text e], [])
              | Inr p \<Rightarrow> ([], p));
          p3 = (if json_truthy (jget co ''available'') then []
                else [[S ''journal completeness unavailable: '', J (jget co ''reason'')]]);
          (p4, correlation, refs) = derive_correlation d s correlation_artifact_id
      in bindE (py_float (json_or (jget performance ''realized_total'') (JFloat (Fin 0)))) (\<lambda>realized.
         bindE (py_float (json_or (jget ex ''fees'') (JFloat (Fin 0)))) (\<lambda>fees.
         Inr \<lparr>de_scope = scope,
              de_metrics =
               [(''paper_days'', JFloat (Fin (paper_days window_start window_end))),
                (''paper_orders'', jget_default ex ''orders'' (JInt 0)),
                (''paper_fills'', jget_default ex ''fills'' (JInt 0)),
                (''paper_misses'', jget_default ex ''misses'' (JInt 0)),
                (''partial_fills'', jget_default ex ''partial_fills'' (JInt 0)),
                (''cancellations'', jget_default ex ''cancellations'' (JInt 0)),
                (''rejections'', jget_default ex ''rejections'' (JInt 0)),
                (''fill_rate'', jget ex ''fill_rate''),
                (''closed_round_trips'', jget_default performance ''trades'' (JInt 0)),
                (''gross_realized_pnl'', jget_default performance ''realized_total'' (JFloat (Fin 0))),
                (''realized_pnl'', JFloat (f_round 4 (f_sub realized fees))),
                (''execution_cash_effect'', jget_default ex ''execution_cash_effect'' (JFloat (Fin 0))),
                (''fees'', jget_default ex ''fees'' (JFloat (Fin 0))),
                (''measured_shortfall_bps'', jget ex ''mean_shortfall_bps''),
                (''worst_shortfall_bps'', jget ex ''worst_shortfall_bps''),
                (''journal_complete'', jget co ''complete''),
                (''journal_gap_count'', jget co ''gap_count''),
                (''max_correlation_with_live'', correlation)],
              de_source_artifacts = refs,
              de_problems = p1 @ p2 @ p3 @ p4\<rparr>)))"

subsection \<open>What the gates rely on\<close>

lemma scope_matches_None:
  "scope_matches a s k = None \<longleftrightarrow> ar_kind a = k \<and> ar_strategy_id a = sl_strategy_id s \<and>
     upper (ar_symbol a) = upper (sl_symbol s) \<and>
     (sl_strategy_version s = [] \<or> ar_strategy_version a = sl_strategy_version s)"
  by (simp add: scope_matches_def)

lemma collect_artifacts_sound:
  "a \<in> set (snd (collect_artifacts d s is)) \<Longrightarrow>
     a \<in> set (artifacts d) \<and> ar_id a \<in> set is \<and> scope_matches a s WALK_FORWARD = None"
  by (induction "is")
    (auto simp: validation_artifact_def dest: find_Some_mem split: option.splits prod.splits)

lemma collect_artifacts_complete:
  "fst (collect_artifacts d s is) = [] \<Longrightarrow> i \<in> set is \<Longrightarrow>
     \<exists>a. validation_artifact i d = Some a \<and> scope_matches a s WALK_FORWARD = None"
  by (induction "is") (auto split: option.splits prod.splits)

lemma max_by_mem: "max_by k a as \<in> insert a (set as)"
  by (induction k a as rule: max_by.induct) (auto split: if_splits)

lemma max_by_ge: "x \<in> insert a (set as) \<Longrightarrow> k x \<le> k (max_by k a as)"
proof (induction k a as arbitrary: x rule: max_by.induct)
  case (1 k best)
  then show ?case by simp
next
  case (2 k best y ys)
  have "k (if k best < k y then y else best) \<le> k (max_by k (if k best < k y then y else best) ys)"
    by (rule "2.IH") simp
  with "2.prems" "2.IH" [of x] show ?case by (auto split: if_splits)
qed

lemma jget_map: "k \<in> set ks \<Longrightarrow> jget (map (\<lambda>k. (k, f k)) ks) k = f k"
  by (induction ks) (auto simp: jget_def)

text \<open>
  Usable backtest evidence: every cited id names a stored walk-forward artifact of this sleeve, and
  the figures are those of the most recent one.
\<close>

lemma derive_backtest_usable:
  assumes "usable (derive_backtest_evidence d s is)"
  shows "is \<noteq> []"
    and "i \<in> set is \<Longrightarrow> \<exists>a. validation_artifact i d = Some a \<and> scope_matches a s WALK_FORWARD = None"
    and "\<exists>a \<in> set (artifacts d). ar_id a \<in> set is \<and> scope_matches a s WALK_FORWARD = None \<and>
           (\<forall>k \<in> set backtest_keys. jget (de_metrics (derive_backtest_evidence d s is)) k
               = jget (case ar_payload a of None \<Rightarrow> [] | Some p \<Rightarrow> p) k)"
proof -
  show ne: "is \<noteq> []" using assms by (auto simp: usable_def derive_backtest_evidence_def Let_def)
  obtain ps as where c: "collect_artifacts d s is = (ps, as)" by fastforce
  from assms ne c obtain a as' where as: "as = a # as'" and ps: "ps = []"
    by (cases as) (auto simp: usable_def derive_backtest_evidence_def Let_def split: if_splits)
  show "\<exists>a. validation_artifact i d = Some a \<and> scope_matches a s WALK_FORWARD = None" if "i \<in> set is"
    using collect_artifacts_complete [of d s "is" i] that c ps by simp
  let ?a = "max_by ar_created_at a as'"
  have "?a \<in> set (snd (collect_artifacts d s is))" using max_by_mem [of ar_created_at a as'] c as by simp
  from collect_artifacts_sound [OF this] show "\<exists>a \<in> set (artifacts d). ar_id a \<in> set is \<and>
      scope_matches a s WALK_FORWARD = None \<and>
      (\<forall>k \<in> set backtest_keys. jget (de_metrics (derive_backtest_evidence d s is)) k
         = jget (case ar_payload a of None \<Rightarrow> [] | Some p \<Rightarrow> p) k)"
    using ne c as
    by (intro bexI [of _ ?a]) (auto simp: derive_backtest_evidence_def Let_def jget_map)
qed

text \<open>The keys of the paper metrics; \<open>out_of_sample_sharpe\<close> is not one of them.\<close>

lemma paper_metrics_keys:
  assumes "derive_paper_evidence d jv s ws we c = Inr e"
  shows "jget (de_metrics e) ''out_of_sample_sharpe'' = JNull"
  using assms
  by (auto simp: derive_paper_evidence_def Let_def bindE_Inr_iff jget_def split: prod.splits)

end
