(* ===== verification/Gates.thy ===== *)
theory Gates
  imports Evidence
begin

text \<open>
  \<open>libs/lifecycle/src/lifecycle/gates.py\<close>: the promotion gates over derived evidence, with the
  threshold configuration they read from the environment. An evaluation is \<open>Inl\<close> where the code
  raises: \<open>float(v)\<close> on a metric that is no number, or formatting a missing \<open>paper_days\<close>.
\<close>

record gate_thresholds =
  min_deflated_sharpe :: pyfloat
  min_oos_trades :: int
  require_positive_oos_return :: bool
  min_paper_days :: pyfloat
  min_paper_orders :: int
  min_paper_fills :: int
  require_measured_costs :: bool
  require_complete_journal :: bool
  max_correlation_with_live :: pyfloat
  require_non_negative_paper_pnl :: bool

type_synonym os_environ = "string \<rightharpoonup> string"

definition env_float :: "os_environ \<Rightarrow> string \<Rightarrow> pyfloat \<Rightarrow> exn + pyfloat" where
  "env_float env name dflt =
     (case env name of
        None \<Rightarrow> Inr dflt
      | Some s \<Rightarrow> (case float_of_string s of
                    None \<Rightarrow> Inl (ValueError [S ''could not convert string to float: '', S s])
                  | Some x \<Rightarrow> Inr x))"

definition env_int :: "os_environ \<Rightarrow> string \<Rightarrow> int \<Rightarrow> exn + int" where
  "env_int env name dflt =
     (case env name of
        None \<Rightarrow> Inr dflt
      | Some s \<Rightarrow> (case int_of_string s of
                    None \<Rightarrow> Inl (ValueError [S ''invalid literal for int() with base 10: '', S s])
                  | Some n \<Rightarrow> Inr n))"

definition env_bool :: "os_environ \<Rightarrow> string \<Rightarrow> bool \<Rightarrow> bool" where
  "env_bool env name dflt =
     (case env name of None \<Rightarrow> dflt | Some s \<Rightarrow> lower s = ''true'')"

definition gate_thresholds_from_env :: "os_environ \<Rightarrow> exn + gate_thresholds" where
  "gate_thresholds_from_env env =
     bindE (env_float env ''LIFECYCLE_MIN_DSR'' (Fin (95/100))) (\<lambda>dsr.
     bindE (env_int env ''LIFECYCLE_MIN_OOS_TRADES'' 30) (\<lambda>oos.
     bindE (env_float env ''LIFECYCLE_MIN_PAPER_DAYS'' (Fin 20)) (\<lambda>days.
     bindE (env_int env ''LIFECYCLE_MIN_PAPER_ORDERS'' 20) (\<lambda>orders.
     bindE (env_int env ''LIFECYCLE_MIN_PAPER_FILLS'' 10) (\<lambda>fills.
     bindE (env_float env ''LIFECYCLE_MAX_CORRELATION'' (Fin (7/10))) (\<lambda>corr.
     Inr \<lparr>min_deflated_sharpe = dsr, min_oos_trades = oos,
          require_positive_oos_return = env_bool env ''LIFECYCLE_REQUIRE_POSITIVE_OOS'' True,
          min_paper_days = days, min_paper_orders = orders, min_paper_fills = fills,
          require_measured_costs = env_bool env ''LIFECYCLE_REQUIRE_MEASURED_COSTS'' True,
          require_complete_journal = env_bool env ''LIFECYCLE_REQUIRE_COMPLETE_JOURNAL'' True,
          max_correlation_with_live = corr,
          require_non_negative_paper_pnl = env_bool env ''LIFECYCLE_REQUIRE_PAPER_PNL'' True\<rparr>))))))"

definition default_thresholds :: gate_thresholds where
  "default_thresholds = \<lparr>min_deflated_sharpe = Fin (95/100), min_oos_trades = 30,
     require_positive_oos_return = True, min_paper_days = Fin 20, min_paper_orders = 20,
     min_paper_fills = 10, require_measured_costs = True, require_complete_journal = True,
     max_correlation_with_live = Fin (7/10), require_non_negative_paper_pnl = True\<rparr>"

record gate_result =
  allowed :: bool
  target :: "string option"
  passed :: "msg list"
  failed :: "msg list"

definition gate_reason :: "gate_result \<Rightarrow> msg" where
  "gate_reason g = (if allowed g then [S ''all '', I (int (length (passed g))), S '' gates passed'']
                    else msg_or (msg_join ''; '' (failed g)) [S ''no gate evaluated''])"

abbreviation fresh_result :: gate_result where
  "fresh_result \<equiv> \<lparr>allowed = False, target = None, passed = [], failed = []\<rparr>"

definition check :: "gate_result \<Rightarrow> bool \<Rightarrow> msg \<Rightarrow> gate_result" where
  "check g ok description =
     (if ok then g\<lparr>passed := passed g @ [description]\<rparr> else g\<lparr>failed := failed g @ [description]\<rparr>)"

definition num :: "jdict \<Rightarrow> string \<Rightarrow> exn + pyfloat option" where
  "num metrics key =
     (case jget metrics key of
        JNull \<Rightarrow> Inr None
      | v \<Rightarrow> bindE (py_float v) (\<lambda>x. Inr (Some x)))"

text \<open>The last two assignments of both evaluations.\<close>

definition conclude :: "string \<Rightarrow> gate_result \<Rightarrow> gate_result" where
  "conclude tgt g = g\<lparr>allowed := (failed g = []), target := (if failed g = [] then Some tgt else None)\<rparr>"

definition evaluate_to_paper :: "derived_evidence \<Rightarrow> gate_thresholds \<Rightarrow> exn + gate_result" where
  "evaluate_to_paper evidence t =
     (if \<not> usable evidence then Inr (fresh_result\<lparr>failed := de_problems evidence\<rparr>)
      else
        bindE (num (de_metrics evidence) ''deflated_sharpe_ratio'') (\<lambda>dsr.
        let r1 = check fresh_result
              (case dsr of None \<Rightarrow> False | Some x \<Rightarrow> f_ge x (min_deflated_sharpe t))
              (case dsr of
                 None \<Rightarrow> [S ''the cited artifact has no deflated Sharpe ratio'']
               | Some x \<Rightarrow> [S ''deflated Sharpe ratio '', F '''' x, S '' >= '', F '''' (min_deflated_sharpe t)])
        in bindE (num (de_metrics evidence) ''out_of_sample_trades'') (\<lambda>trades.
        let r2 = check r1
              (case trades of None \<Rightarrow> False | Some x \<Rightarrow> f_ge x (Fin (of_int (min_oos_trades t))))
              (case trades of
                 None \<Rightarrow> [S ''the cited artifact has no out-of-sample trade count'']
               | Some x \<Rightarrow> [S ''out-of-sample trades '', F ''g'' x, S '' >= '', I (min_oos_trades t)])
        in if require_positive_oos_return t then
             bindE (num (de_metrics evidence) ''out_of_sample_return_pct'') (\<lambda>ret.
             Inr (conclude ''paper'' (check r2
               (case ret of None \<Rightarrow> False | Some x \<Rightarrow> f_gt x (Fin 0))
               (case ret of
                  None \<Rightarrow> [S ''the cited artifact has no out-of-sample return'']
                | Some x \<Rightarrow> [S ''out-of-sample return '', F ''.2%'' x, S '' is positive'']))))
           else Inr (conclude ''paper'' r2))))"

text \<open>\<open>_num(m, k) or 0\<close>: a missing figure and a zero both become the integer zero.\<close>

definition num_or_zero :: "pyfloat option \<Rightarrow> pyfloat" where
  "num_or_zero x = (case x of None \<Rightarrow> Fin 0 | Some v \<Rightarrow> v)"

definition evaluate_to_live :: "derived_evidence \<Rightarrow> gate_thresholds \<Rightarrow> exn + gate_result" where
  "evaluate_to_live evidence t =
     (if \<not> usable evidence then Inr (fresh_result\<lparr>failed := de_problems evidence\<rparr>)
      else
        (let m = de_metrics evidence in
         bindE (num m ''paper_days'') (\<lambda>days.
         (case days of
            None \<Rightarrow> Inl (TypeError ''unsupported format string passed to NoneType.__format__'')
          | Some dy \<Rightarrow>
         (let r1 = check fresh_result (f_ge dy (min_paper_days t))
                [S ''paper traded for '', F ''.1f'' dy, S '' days >= '', F '''' (min_paper_days t)] in
         bindE (num m ''paper_orders'') (\<lambda>orders0.
         (let orders = num_or_zero orders0;
              r2 = check r1 (f_ge orders (Fin (of_int (min_paper_orders t))))
                [F ''g'' orders, S '' paper orders >= '', I (min_paper_orders t)] in
         bindE (num m ''paper_fills'') (\<lambda>fills0.
         (let fills = num_or_zero fills0;
              r3 = check r2 (f_ge fills (Fin (of_int (min_paper_fills t))))
                [F ''g'' fills, S '' simulated fills >= '', I (min_paper_fills t)] in
         bindE (if require_measured_costs t
                then bindE (num m ''measured_shortfall_bps'') (\<lambda>sf.
                  Inr (check r3 (sf \<noteq> None)
                    (case sf of
                       None \<Rightarrow> [S ''no measured execution cost - the backtest is still assuming one'']
                     | Some x \<Rightarrow> [S ''execution cost measured at '', F ''.2f'' x, S ''bps''])))
                else Inr r3) (\<lambda>r4.
         (let complete = jget m ''journal_complete'';
              r5 = (if require_complete_journal t
                    then check r4 (complete = JBool True)
                      (if json_truthy complete then [S ''journal complete over the evidence window'']
                       else [S ''journal has '', J (jget m ''journal_gap_count''),
                             S '' gap(s) in the evidence window''])
                    else r4) in
         bindE (if require_non_negative_paper_pnl t
                then bindE (num m ''realized_pnl'') (\<lambda>pnl.
                  Inr (check r5 (case pnl of None \<Rightarrow> False | Some x \<Rightarrow> f_ge x (Fin 0))
                    (case pnl of
                       None \<Rightarrow> [S ''no paper P&L recorded'']
                     | Some x \<Rightarrow> [S ''paper realized P&L after fees '', F '''' x, S '' is not negative''])))
                else Inr r5) (\<lambda>r6.
         bindE (num m ''max_correlation_with_live'') (\<lambda>corr.
         Inr (conclude ''live'' (check r6
           (case corr of None \<Rightarrow> False | Some x \<Rightarrow> f_lt x (max_correlation_with_live t))
           (case corr of
              None \<Rightarrow> [S ''correlation with live sleeves not measured'']
            | Some x \<Rightarrow> [S ''correlation with live sleeves '', F '''' x, S '' < '',
                         F '''' (max_correlation_with_live t)]))))))))))))))))"

subsection \<open>What an allowed result means\<close>

lemma failed_check [simp]: "failed (check g ok m) = [] \<longleftrightarrow> ok \<and> failed g = []"
  by (simp add: check_def)

lemma conclude_simps [simp]:
  "allowed (conclude tgt g) = (failed g = [])"
  "target (conclude tgt g) = (if failed g = [] then Some tgt else None)"
  "failed (conclude tgt g) = failed g"
  by (simp_all add: conclude_def)

lemma num_Inr_Some: "num m k = Inr (Some x) \<longleftrightarrow> jget m k \<noteq> JNull \<and> py_float (jget m k) = Inr x"
  by (cases "jget m k") (auto simp: num_def bindE_Inr_iff)

lemma num_Inr_None: "num m k = Inr None \<longleftrightarrow> jget m k = JNull"
  by (cases "jget m k") (auto simp: num_def bindE_Inr_iff)

text \<open>A gate on a figure holds when the figure is there and satisfies the comparison.\<close>

definition figure :: "jdict \<Rightarrow> string \<Rightarrow> (pyfloat \<Rightarrow> bool) \<Rightarrow> bool" where
  "figure m k p = (\<exists>x. num m k = Inr (Some x) \<and> p x)"

definition figure_or_zero :: "jdict \<Rightarrow> string \<Rightarrow> (pyfloat \<Rightarrow> bool) \<Rightarrow> bool" where
  "figure_or_zero m k p = (\<exists>x. num m k = Inr x \<and> p (num_or_zero x))"

lemma figure_case:
  "num m k = Inr v \<Longrightarrow> figure m k p = (case v of None \<Rightarrow> False | Some x \<Rightarrow> p x)"
  by (auto simp: figure_def split: option.split)

lemma figure_or_zero_case:
  "num m k = Inr v \<Longrightarrow> figure_or_zero m k p = p (num_or_zero v)"
  by (auto simp: figure_or_zero_def)

lemma figure_measured: "num m k = Inr v \<Longrightarrow> figure m k (\<lambda>_. True) = (v \<noteq> None)"
  by (auto simp: figure_def)

text \<open>The bar of each step, as a condition on the metrics.\<close>

definition paper_bar :: "gate_thresholds \<Rightarrow> jdict \<Rightarrow> bool" where
  "paper_bar t m =
     (figure m ''deflated_sharpe_ratio'' (\<lambda>x. f_ge x (min_deflated_sharpe t)) \<and>
      figure m ''out_of_sample_trades'' (\<lambda>x. f_ge x (Fin (of_int (min_oos_trades t)))) \<and>
      (require_positive_oos_return t \<longrightarrow> figure m ''out_of_sample_return_pct'' (\<lambda>x. f_gt x (Fin 0))))"

definition live_bar :: "gate_thresholds \<Rightarrow> jdict \<Rightarrow> bool" where
  "live_bar t m =
     (figure m ''paper_days'' (\<lambda>x. f_ge x (min_paper_days t)) \<and>
      figure_or_zero m ''paper_orders'' (\<lambda>x. f_ge x (Fin (of_int (min_paper_orders t)))) \<and>
      figure_or_zero m ''paper_fills'' (\<lambda>x. f_ge x (Fin (of_int (min_paper_fills t)))) \<and>
      (require_measured_costs t \<longrightarrow> figure m ''measured_shortfall_bps'' (\<lambda>_. True)) \<and>
      (require_complete_journal t \<longrightarrow> jget m ''journal_complete'' = JBool True) \<and>
      (require_non_negative_paper_pnl t \<longrightarrow> figure m ''realized_pnl'' (\<lambda>x. f_ge x (Fin 0))) \<and>
      figure m ''max_correlation_with_live'' (\<lambda>x. f_lt x (max_correlation_with_live t)))"

lemma evaluate_to_paper_allowed:
  assumes "evaluate_to_paper e t = Inr g"
  shows "(allowed g \<longleftrightarrow> usable e \<and> paper_bar t (de_metrics e)) \<and>
    target g = (if allowed g then Some ''paper'' else None)"
  using assms unfolding paper_bar_def
  by (cases "usable e"; cases "require_positive_oos_return t";
      auto simp: evaluate_to_paper_def Let_def bindE_Inr_iff figure_case)+

lemma evaluate_to_live_allowed:
  assumes "evaluate_to_live e t = Inr g"
  shows "(allowed g \<longleftrightarrow> usable e \<and> live_bar t (de_metrics e)) \<and>
    target g = (if allowed g then Some ''live'' else None)"
proof (cases "usable e")
  case False
  with assms show ?thesis by (auto simp: evaluate_to_live_def)
next
  case True
  let ?m = "de_metrics e"
  from True assms obtain dy where "num ?m ''paper_days'' = Inr (Some dy)"
    by (auto simp: evaluate_to_live_def Let_def bindE_Inr_iff split: option.splits)
  with True assms show ?thesis
    unfolding live_bar_def
    by (cases "require_measured_costs t"; cases "require_non_negative_paper_pnl t";
        cases "require_complete_journal t")
      (auto simp: evaluate_to_live_def Let_def bindE_Inr_iff figure_case figure_or_zero_case
        figure_measured)
qed

subsection \<open>Properties\<close>

text \<open>
  candidate to paper. The gate allows the step exactly when the evidence has no derivation problem
  and every required figure is present in the metrics and clears its threshold; a missing figure, or a
  NaN, never passes. The target is paper and nothing else.
\<close>

theorem paper_gate_exact:
  assumes "evaluate_to_paper e t = Inr g"
  shows "(allowed g \<longleftrightarrow> usable e \<and>
      (\<exists>x. num (de_metrics e) ''deflated_sharpe_ratio'' = Inr (Some x) \<and> f_ge x (min_deflated_sharpe t)) \<and>
      (\<exists>x. num (de_metrics e) ''out_of_sample_trades'' = Inr (Some x) \<and>
           f_ge x (Fin (of_int (min_oos_trades t)))) \<and>
      (require_positive_oos_return t \<longrightarrow>
         (\<exists>x. num (de_metrics e) ''out_of_sample_return_pct'' = Inr (Some x) \<and> f_gt x (Fin 0))))
    \<and> target g = (if allowed g then Some ''paper'' else None)"
  using evaluate_to_paper_allowed [OF assms] by (simp add: paper_bar_def figure_def)

definition demo_evidence :: derived_evidence where
  "demo_evidence = \<lparr>de_scope = undefined, de_metrics =
     [(''deflated_sharpe_ratio'', JFloat (Fin (97/100))), (''out_of_sample_trades'', JInt 42),
      (''out_of_sample_return_pct'', JFloat (Fin (3/100)))],
     de_source_artifacts = [], de_problems = []\<rparr>"

theorem paper_gate_exact_witness:
  "\<exists>g. evaluate_to_paper demo_evidence default_thresholds = Inr g \<and> allowed g"
proof -
  obtain g where g: "evaluate_to_paper demo_evidence default_thresholds = Inr g"
    by (simp add: evaluate_to_paper_def demo_evidence_def usable_def num_def jget_def Let_def
        default_thresholds_def)
  with paper_gate_exact [OF g] show ?thesis
    by (simp add: demo_evidence_def usable_def num_def jget_def default_thresholds_def)
qed

text \<open>
  C33: paper to live. The gate allows the step exactly when the evidence has no derivation problem and
  every gate that is switched on holds of the metrics: days, orders, fills, measured costs, a complete
  journal, non-negative profit and loss, and a measured correlation below the limit, which cannot be
  switched off.
\<close>

theorem live_gate_exact:
  assumes "evaluate_to_live e t = Inr g"
  shows "(allowed g \<longleftrightarrow> usable e \<and>
      (\<exists>x. num (de_metrics e) ''paper_days'' = Inr (Some x) \<and> f_ge x (min_paper_days t)) \<and>
      (\<exists>x. num (de_metrics e) ''paper_orders'' = Inr x \<and>
           f_ge (num_or_zero x) (Fin (of_int (min_paper_orders t)))) \<and>
      (\<exists>x. num (de_metrics e) ''paper_fills'' = Inr x \<and>
           f_ge (num_or_zero x) (Fin (of_int (min_paper_fills t)))) \<and>
      (require_measured_costs t \<longrightarrow> (\<exists>x. num (de_metrics e) ''measured_shortfall_bps'' = Inr (Some x))) \<and>
      (require_complete_journal t \<longrightarrow> jget (de_metrics e) ''journal_complete'' = JBool True) \<and>
      (require_non_negative_paper_pnl t \<longrightarrow>
         (\<exists>x. num (de_metrics e) ''realized_pnl'' = Inr (Some x) \<and> f_ge x (Fin 0))) \<and>
      (\<exists>x. num (de_metrics e) ''max_correlation_with_live'' = Inr (Some x) \<and>
           f_lt x (max_correlation_with_live t)))
    \<and> target g = (if allowed g then Some ''live'' else None)"
  using evaluate_to_live_allowed [OF assms] by (simp add: live_bar_def figure_def figure_or_zero_def)

definition demo_live_evidence :: derived_evidence where
  "demo_live_evidence = \<lparr>de_scope = undefined, de_metrics =
     [(''paper_days'', JFloat (Fin 25)), (''paper_orders'', JInt 40), (''paper_fills'', JInt 22),
      (''measured_shortfall_bps'', JFloat (Fin (3/2))), (''journal_complete'', JBool True),
      (''realized_pnl'', JFloat (Fin 120)), (''max_correlation_with_live'', JFloat (Fin (2/10)))],
     de_source_artifacts = [], de_problems = []\<rparr>"

theorem live_gate_exact_witness:
  "\<exists>g. evaluate_to_live demo_live_evidence default_thresholds = Inr g \<and> allowed g"
proof -
  obtain g where g: "evaluate_to_live demo_live_evidence default_thresholds = Inr g"
    by (simp add: evaluate_to_live_def demo_live_evidence_def usable_def num_def jget_def Let_def
        default_thresholds_def)
  with live_gate_exact [OF g] show ?thesis
    by (simp add: demo_live_evidence_def usable_def num_def jget_def default_thresholds_def
        num_or_zero_def)
qed

end
