(* ===== verification/Lifecycle_Service.thy ===== *)
theory Lifecycle_Service
  imports Gates
begin

text \<open>
  \<open>libs/lifecycle/src/lifecycle/service.py\<close>: the facade every caller goes through. A method of the
  service makes several store calls, each its own transaction, and other processes commit in
  between. The model makes that explicit: a \<open>world\<close> is the database with a schedule of what happens
  before each further store call, either the commits of other processes or an outage, in which the
  call raises. An exhausted schedule means that nothing else happens.

  Evidence derivation reads one snapshot of the artifact table (rows there never change). The
  clock \<open>now\<close> is read once per request.
\<close>

subsection \<open>Store calls in a concurrent world\<close>

datatype interval = Commits "db \<Rightarrow> db" | Unreachable string

record world =
  w_db :: db
  w_sched :: "interval list"

definition store_call :: "(db \<Rightarrow> exn + 'a \<times> db) \<Rightarrow> world \<Rightarrow> (exn + 'a) \<times> world" where
  "store_call m w =
     (let attempt = (\<lambda>d rest. case m d of
            Inl e \<Rightarrow> (Inl e, \<lparr>w_db = d, w_sched = rest\<rparr>)
          | Inr (x, d') \<Rightarrow> (Inr x, \<lparr>w_db = d', w_sched = rest\<rparr>))
      in case w_sched w of
           [] \<Rightarrow> attempt (w_db w) []
         | Commits f # rest \<Rightarrow> attempt (f (w_db w)) rest
         | Unreachable e # rest \<Rightarrow> (Inl (DatabaseError e), w\<lparr>w_sched := rest\<rparr>))"

definition store_read :: "(db \<Rightarrow> 'a) \<Rightarrow> world \<Rightarrow> (exn + 'a) \<times> world" where
  "store_read f w = store_call (\<lambda>d. Inr (f d, d)) w"

abbreviation quiet :: "db \<Rightarrow> world" where
  "quiet d \<equiv> \<lparr>w_db = d, w_sched = []\<rparr>"

lemma store_call_quiet [simp]:
  "store_call m (quiet d) = (case m d of Inl e \<Rightarrow> (Inl e, quiet d) | Inr (x, d') \<Rightarrow> (Inr x, quiet d'))"
  by (simp add: store_call_def)

lemma store_read_quiet [simp]: "store_read f (quiet d) = (Inr (f d), quiet d)"
  by (simp add: store_read_def)

subsection \<open>The pre-flight gate\<close>

definition NEXT_STATE :: "string \<rightharpoonup> string" where
  "NEXT_STATE = [''candidate'' \<mapsto> ''paper'', ''paper'' \<mapsto> ''live'', ''probation'' \<mapsto> ''paper'']"

record gate_answer =
  permitted :: bool
  answer_reason :: msg
  available :: bool

record lifecycle_service =
  sv_store :: "store_settings option"
  sv_thresholds :: gate_thresholds

definition svc_require :: "lifecycle_service \<Rightarrow> exn + store_settings" where
  "svc_require sv = (case sv_store sv of
     None \<Rightarrow> Inl (LifecycleUnavailableError [S ''No lifecycle authority configured.''])
   | Some cfg \<Rightarrow> Inr cfg)"

abbreviation unavailable_answer :: "exn \<Rightarrow> gate_answer" where
  "unavailable_answer e \<equiv> \<lparr>permitted = False, answer_reason = [S ''lifecycle_unavailable: ''] @ exn_text e,
     available = False\<rparr>"

abbreviation refuse :: "msg \<Rightarrow> gate_answer" where
  "refuse m \<equiv> \<lparr>permitted = False, answer_reason = m, available = True\<rparr>"

definition may_open ::
  "lifecycle_service \<Rightarrow> string \<Rightarrow> string \<Rightarrow> string option \<Rightarrow> world \<Rightarrow> gate_answer \<times> world" where
  "may_open sv strategy_id symbol account_id w =
     (case sv_store sv of
        None \<Rightarrow> (\<lparr>permitted = False, answer_reason = [S ''no_lifecycle_authority''], available = False\<rparr>, w)
      | Some cfg \<Rightarrow>
          (case store_read (store_get cfg strategy_id symbol account_id) w of
             (Inl e, w1) \<Rightarrow> (unavailable_answer e, w1)
           | (Inr None, w1) \<Rightarrow> (refuse [S ''sleeve_not_registered''], w1)
           | (Inr (Some s), w1) \<Rightarrow>
               if sl_state s \<notin> {''paper'', ''live''} then (refuse [S ''sleeve_'', S (sl_state s)], w1)
               else
                 (case (if sl_state s = ''live'' then store_read (live_mode_enabled cfg account_id) w1
                        else (Inr True, w1)) of
                    (Inl e, w2) \<Rightarrow> (unavailable_answer e, w2)
                  | (Inr False, w2) \<Rightarrow> (refuse [S ''live_mode_disabled_by_operator''], w2)
                  | (Inr True, w2) \<Rightarrow>
                      (let env = (if sl_state s = ''live'' then ''live'' else ''paper'') in
                       case store_read (reconciliation_state cfg env env account_id) w2 of
                         (Inl e, w3) \<Rightarrow> (unavailable_answer e, w3)
                       | (Inr h, w3) \<Rightarrow>
                           if h_halted h
                           then (refuse (msg_or (h_halt_reason h) [S ''entries_halted'']), w3)
                           else (\<lparr>permitted = True, answer_reason = [S (sl_state s)], available = True\<rparr>, w3)))))"

subsection \<open>Roster operations\<close>

definition svc_register ::
  "lifecycle_service \<Rightarrow> instant \<Rightarrow> string \<Rightarrow> string \<Rightarrow> string \<Rightarrow> string \<Rightarrow> string option \<Rightarrow> string \<Rightarrow> string
     \<Rightarrow> world \<Rightarrow> (exn + sleeve) \<times> world" where
  "svc_register sv now strategy_id symbol strategy_version asset_class account_id actor origin w =
     (case svc_require sv of
        Inl e \<Rightarrow> (Inl e, w)
      | Inr cfg \<Rightarrow> store_call (store_register cfg now strategy_id symbol strategy_version asset_class
                                account_id actor origin) w)"

definition svc_all :: "lifecycle_service \<Rightarrow> string option \<Rightarrow> world \<Rightarrow> (exn + sleeve list) \<times> world" where
  "svc_all sv account_id w =
     (case svc_require sv of
        Inl e \<Rightarrow> (Inl e, w)
      | Inr cfg \<Rightarrow> store_read (store_all cfg account_id) w)"

definition svc_paper_challengers :: "lifecycle_service \<Rightarrow> string \<Rightarrow> world \<Rightarrow> sleeve list \<times> world" where
  "svc_paper_challengers sv symbol w =
     (case sv_store sv of
        None \<Rightarrow> ([], w)
      | Some cfg \<Rightarrow>
          (case store_read (paper_challengers cfg (Some symbol) None) w of
             (Inl e, w') \<Rightarrow> ([], w')
           | (Inr ss, w') \<Rightarrow> (ss, w')))"

definition challenger_parameters :: "lifecycle_service \<Rightarrow> string \<Rightarrow> world \<Rightarrow> jdict option \<times> world" where
  "challenger_parameters sv challenger_id w =
     (case sv_store sv of
        None \<Rightarrow> (None, w)
      | Some cfg \<Rightarrow>
          (case store_read (challenger_proposals None None None (Some challenger_id) None 1) w of
             (Inl e, w') \<Rightarrow> (None, w')
           | (Inr [], w') \<Rightarrow> (None, w')
           | (Inr (r # _), w') \<Rightarrow>
               ((case ch_parameters (cr_challenger r) of JObj d \<Rightarrow> Some d | _ \<Rightarrow> None), w')))"

fun is_concurrent :: "exn \<Rightarrow> bool" where
  "is_concurrent (ConcurrentTransitionError m) = True"
| "is_concurrent _ = False"

definition demote ::
  "lifecycle_service \<Rightarrow> instant \<Rightarrow> string \<Rightarrow> string \<Rightarrow> string \<Rightarrow> msg \<Rightarrow> string \<Rightarrow> string option
     \<Rightarrow> world \<Rightarrow> (exn + sleeve) \<times> world" where
  "demote sv now strategy_id symbol to_state reason actor account_id w =
     (case svc_require sv of
        Inl e \<Rightarrow> (Inl e, w)
      | Inr cfg \<Rightarrow>
          (case store_read (store_get cfg strategy_id symbol account_id) w of
             (Inl e, w1) \<Rightarrow> (Inl e, w1)
           | (Inr None, w1) \<Rightarrow>
               (Inl (LifecycleUnavailableError [S symbol, S '':'', S strategy_id, S '' is not registered'']), w1)
           | (Inr (Some s), w1) \<Rightarrow>
               (case store_call (store_transition now s to_state reason actor None None) w1 of
                  (Inr s', w2) \<Rightarrow> (Inr s', w2)
                | (Inl e, w2) \<Rightarrow>
                    if \<not> is_concurrent e then (Inl e, w2)
                    else
                      (case store_read (store_get cfg strategy_id symbol account_id) w2 of
                         (Inl e, w3) \<Rightarrow> (Inl e, w3)
                       | (Inr None, w3) \<Rightarrow> (Inr s, w3)
                       | (Inr (Some fresh), w3) \<Rightarrow>
                           if sl_state fresh = to_state then (Inr fresh, w3)
                           else store_call (store_transition now fresh to_state reason actor None None) w3))))"

subsection \<open>Promotion\<close>

definition probation_result :: "derived_evidence \<Rightarrow> gate_result" where
  "probation_result evidence =
     (if de_problems evidence \<noteq> [] then fresh_result\<lparr>failed := de_problems evidence\<rparr>
      else fresh_result\<lparr>passed := [[S ''returning to paper to re-earn the live gates'']],
                        allowed := True, target := Some ''paper''\<rparr>)"

text \<open>\<open>timedelta(days=x)\<close> in microseconds.\<close>

fun days_delta :: "pyfloat \<Rightarrow> exn + int" where
  "days_delta (Fin x) = Inr (round_half_even (x * 86400000000))"
| "days_delta NaN = Inl (ValueError [S ''cannot convert float NaN to integer''])"
| "days_delta _ = Inl (ValueError [S ''cannot convert float infinity to integer''])"

text \<open>\<open>store.record_evidence(metrics=..., source_artifacts=..., **evidence.scope)\<close>: a scope without its
  window keys is a missing argument.\<close>

definition scope_kwargs :: "derived_scope \<Rightarrow> exn + evidence_scope" where
  "scope_kwargs s = (case ds_window s of
     None \<Rightarrow> Inl (TypeError ''missing required keyword-only arguments: window_start and window_end'')
   | Some (ws, we) \<Rightarrow> Inr \<lparr>es_strategy_id = ds_strategy_id s, es_strategy_version = ds_strategy_version s,
       es_symbol = ds_symbol s, es_asset_class = ds_asset_class s, es_environment = ds_environment s,
       es_broker = ds_broker s, es_account_id = ds_account_id s, es_portfolio_id = ds_portfolio_id s,
       es_window_start = ws, es_window_end = we, es_data_version = ds_data_version s,
       es_model_version = ds_model_version s\<rparr>)"

text \<open>The middle of \<open>promote\<close>: which evidence is derived for a sleeve, and what the gate says of it.\<close>

definition assess ::
  "gate_thresholds \<Rightarrow> (sleeve \<Rightarrow> instant \<Rightarrow> instant \<Rightarrow> journal_view) \<Rightarrow> instant \<Rightarrow> nat list \<Rightarrow> nat option
     \<Rightarrow> pyfloat option \<Rightarrow> sleeve \<Rightarrow> db \<Rightarrow> exn + derived_evidence \<times> gate_result" where
  "assess th journal now artifact_ids correlation_artifact_id paper_window_days s d =
     (if sl_state s = ''candidate'' then
        (let e = derive_backtest_evidence d s artifact_ids in
         bindE (evaluate_to_paper e th) (\<lambda>g. Inr (e, g)))
      else
        bindE (days_delta (case paper_window_days of Some x \<Rightarrow> x | None \<Rightarrow> f_mul (min_paper_days th) (Fin 2))) (\<lambda>window.
        bindE (derive_paper_evidence d (journal s (now - window) now) s (now - window) now
                 correlation_artifact_id) (\<lambda>e.
        bindE (if sl_state s = ''paper'' then evaluate_to_live e th else Inr (probation_result e)) (\<lambda>g.
        Inr (e, g)))))"

definition promote ::
  "lifecycle_service \<Rightarrow> (evidence_scope \<times> jdict \<times> source_artifact list \<Rightarrow> string)
     \<Rightarrow> (sleeve \<Rightarrow> instant \<Rightarrow> instant \<Rightarrow> journal_view) \<Rightarrow> instant \<Rightarrow> string \<Rightarrow> string \<Rightarrow> nat list \<Rightarrow> nat option
     \<Rightarrow> pyfloat option \<Rightarrow> string \<Rightarrow> string option \<Rightarrow> world \<Rightarrow> (exn + sleeve option \<times> gate_result) \<times> world" where
  "promote sv digest journal now strategy_id symbol artifact_ids correlation_artifact_id paper_window_days
     actor account_id w =
     (case svc_require sv of
        Inl e \<Rightarrow> (Inl e, w)
      | Inr cfg \<Rightarrow>
          (case store_read (store_get cfg strategy_id symbol account_id) w of
             (Inl e, w1) \<Rightarrow> (Inl e, w1)
           | (Inr None, w1) \<Rightarrow>
               (Inr (None, fresh_result\<lparr>failed := [[S ''sleeve is not registered'']]\<rparr>), w1)
           | (Inr (Some s), w1) \<Rightarrow>
               (case NEXT_STATE (sl_state s) of
                  None \<Rightarrow>
                    (Inr (Some s, fresh_result\<lparr>failed :=
                       [if sl_state s = ''live'' then [S ''already live'']
                        else [S ''retired sleeves must be re-registered before promotion'']]\<rparr>), w1)
                | Some tgt \<Rightarrow>
                    (case store_call (\<lambda>d. map_sum id (\<lambda>x. (x, d))
                            (assess (sv_thresholds sv) journal now artifact_ids correlation_artifact_id
                               paper_window_days s d)) w1 of
                       (Inl e, w2) \<Rightarrow> (Inl e, w2)
                     | (Inr (e, g), w2) \<Rightarrow>
                         if \<not> allowed g then (Inr (Some s, g), w2)
                         else
                           (case scope_kwargs (de_scope e) of
                              Inl ex \<Rightarrow> (Inl ex, w2)
                            | Inr scope \<Rightarrow>
                                (case store_call (record_evidence digest now scope (de_metrics e)
                                        (de_source_artifacts e)) w2 of
                                   (Inl ex, w3) \<Rightarrow> (Inl ex, w3)
                                 | (Inr snapshot_id, w3) \<Rightarrow>
                                     (case store_call (store_transition now s
                                             (case target g of None \<Rightarrow> tgt | Some t \<Rightarrow> t)
                                             ([S ''promoted: ''] @ gate_reason g) actor (Some snapshot_id) None) w3 of
                                        (Inl ex, w4) \<Rightarrow> (Inl ex, w4)
                                      | (Inr moved_sleeve, w4) \<Rightarrow> (Inr (Some moved_sleeve, g), w4))))))))"

subsection \<open>Lawful schedules\<close>

text \<open>
  Other processes go through the same store: what they commit between two of our calls is a
  sequence of steps of the roster machine. \<open>K\<close> are the snapshots handed out so far, ours included.
\<close>

definition lawful :: "store_settings \<Rightarrow> (db \<Rightarrow> db) \<Rightarrow> bool" where
  "lawful cfg f = (\<forall>d K. reachable cfg d K \<longrightarrow> (\<exists>K'. (roster_step cfg)\<^sup>*\<^sup>* (d, K) (f d, K')))"

definition sched_ok :: "store_settings \<Rightarrow> interval list \<Rightarrow> bool" where
  "sched_ok cfg sched = (\<forall>f. Commits f \<in> set sched \<longrightarrow> lawful cfg f)"

definition world_ok :: "store_settings \<Rightarrow> sleeve set \<Rightarrow> world \<Rightarrow> bool" where
  "world_ok cfg K w = (reachable cfg (w_db w) K \<and> sched_ok cfg (w_sched w))"

lemma sched_ok_simps [simp]:
  "sched_ok cfg []" "sched_ok cfg (Commits f # r) \<longleftrightarrow> lawful cfg f \<and> sched_ok cfg r"
  "sched_ok cfg (Unreachable e # r) \<longleftrightarrow> sched_ok cfg r"
  by (auto simp: sched_ok_def)

lemma steps_reachable:
  assumes "reachable cfg d K" and "(roster_step cfg)\<^sup>*\<^sup>* (d, K) (d', K')"
  shows "reachable cfg d' K' \<and> K \<subseteq> K' \<and> (\<exists>es. evidence_table d' = evidence_table d @ es)"
  using assms(2)
proof (induction rule: rtranclp_induct2)
  case refl
  with assms(1) show ?case by simp
next
  case (step d1 K1 d2 K2)
  with evidence_prefix_step [OF step(2)] show ?case by (auto intro: reach_step)
qed

lemma lawfulE:
  assumes "lawful cfg f" and "reachable cfg d K"
  obtains K' where "K \<subseteq> K'" and "reachable cfg (f d) K'" and "\<exists>es. evidence_table (f d) = evidence_table d @ es"
proof -
  obtain K' where "(roster_step cfg)\<^sup>*\<^sup>* (d, K) (f d, K')" using assms by (auto simp: lawful_def)
  from steps_reachable [OF assms(2) this] show thesis by (auto intro: that)
qed

text \<open>One store call in a good world: an outage, a raise at some later database, or a result there.\<close>

lemma store_call_cases:
  assumes w: "world_ok cfg K w" and c: "store_call m w = (res, w')"
  obtains (outage) e where "res = Inl (DatabaseError e)" "world_ok cfg K w'" "w_db w' = w_db w"
  | (call) d K' where "K \<subseteq> K'" "reachable cfg d K'" "sched_ok cfg (w_sched w')"
      "res = map_sum id fst (m d)" "w_db w' = (case m d of Inl e \<Rightarrow> d | Inr p \<Rightarrow> snd p)"
      "\<exists>es. evidence_table d = evidence_table (w_db w) @ es"
proof (cases "w_sched w")
  case Nil
  with w c show thesis
    by (intro call [of K "w_db w"]) (auto simp: store_call_def world_ok_def split: sum.splits)
next
  case (Cons i rest)
  show thesis
  proof (cases i)
    case (Unreachable e)
    with Cons w c show thesis by (intro outage [of e]) (auto simp: store_call_def world_ok_def)
  next
    case (Commits f)
    with Cons w have f: "lawful cfg f" "sched_ok cfg rest" "reachable cfg (w_db w) K"
      by (auto simp: world_ok_def)
    obtain K' where K': "K \<subseteq> K'" "reachable cfg (f (w_db w)) K'"
      "\<exists>es. evidence_table (f (w_db w)) = evidence_table (w_db w) @ es"
      using lawfulE [OF f(1,3)] .
    with Cons Commits c f show thesis
      by (intro call [OF K'(1,2)]) (auto simp: store_call_def split: sum.splits)
  qed
qed

lemma store_read_cases:
  assumes w: "world_ok cfg K w" and c: "store_read f w = (res, w')"
  obtains (outage) e where "res = Inl (DatabaseError e)" "world_ok cfg K w'" "w_db w' = w_db w"
  | (answer) d K' where "K \<subseteq> K'" "world_ok cfg K' w'" "w_db w' = d" "res = Inr (f d)"
      "\<exists>es. evidence_table d = evidence_table (w_db w) @ es"
  using w c unfolding store_read_def
proof (cases rule: store_call_cases)
  case (outage e)
  then show thesis by (rule that(1))
next
  case (call d K')
  then show thesis by (intro that(2) [of K' d]) (auto simp: world_ok_def)
qed

lemma store_read_Inr:
  assumes "world_ok cfg K w" and "store_read f w = (Inr v, w')"
  shows "\<exists>K'. K \<subseteq> K' \<and> world_ok cfg K' w' \<and> v = f (w_db w') \<and>
    (\<exists>es. evidence_table (w_db w') = evidence_table (w_db w) @ es)"
  using assms by (cases rule: store_read_cases) auto

lemma store_call_Inl:
  assumes "world_ok cfg K w" and "store_call m w = (Inl e, w')"
  shows "\<exists>K'. K \<subseteq> K' \<and> world_ok cfg K' w'"
  using assms
proof (cases rule: store_call_cases)
  case (call d K')
  then show ?thesis by (intro exI [of _ K']) (cases "m d"; auto simp: world_ok_def)
qed auto

text \<open>A sleeve read from the store becomes a snapshot of the reading process.\<close>

lemma store_get_Some:
  "store_get cfg st sy a d = Some s \<longleftrightarrow>
     (\<exists>r. select_identity st (upper sy) (or_default a (cfg_account_id cfg)) d = Some r \<and> s = row_to_sleeve r)"
  by (auto simp: store_get_def)

lemma get_snapshot:
  assumes "world_ok cfg K w" and "store_get cfg st sy a (w_db w) = Some s"
  shows "world_ok cfg (insert s K) w"
proof -
  obtain r where "r \<in> set (sleeves (w_db w))" "s = row_to_sleeve r"
    using assms(2) find_Some_mem by (fastforce simp: store_get_Some select_identity_def)
  with assms(1) show ?thesis
    by (auto simp: world_ok_def intro: reach_step roster_step.read)
qed

subsection \<open>What a sequence of reads sees\<close>

text \<open>The world after \<open>n\<close> store reads, and whether all of them were answered.\<close>

fun apply_interval :: "interval \<Rightarrow> db \<Rightarrow> db" where
  "apply_interval (Commits f) d = f d"
| "apply_interval (Unreachable e) d = d"

fun is_up :: "interval \<Rightarrow> bool" where
  "is_up (Commits f) = True"
| "is_up (Unreachable e) = False"

definition after :: "nat \<Rightarrow> world \<Rightarrow> world" where
  "after n w = \<lparr>w_db = fold apply_interval (take n (w_sched w)) (w_db w), w_sched = drop n (w_sched w)\<rparr>"

abbreviation db_after :: "nat \<Rightarrow> world \<Rightarrow> db" where
  "db_after n w \<equiv> w_db (after n w)"

definition up :: "nat \<Rightarrow> world \<Rightarrow> bool" where
  "up n w = list_all is_up (take n (w_sched w))"

lemma after_after [simp]: "after m (after n w) = after (n + m) w"
  by (simp add: after_def take_add add.commute [of m])

lemma up_Suc: "up (Suc n) w \<longleftrightarrow> up n w \<and> up (Suc 0) (after n w)"
  using take_add [of n "Suc 0" "w_sched w"] by (simp add: up_def after_def)

lemma up_0 [simp]: "up 0 w"
  by (simp add: up_def)

definition outage_text :: "world \<Rightarrow> string" where
  "outage_text w = (case w_sched w of Unreachable e # _ \<Rightarrow> e | _ \<Rightarrow> [])"

lemma store_read_after:
  "store_read f w = (if up (Suc 0) w then Inr (f (db_after (Suc 0) w)) else Inl (DatabaseError (outage_text w)),
     after (Suc 0) w)"
  by (cases w; cases "w_sched w"; cases "hd (w_sched w)")
    (auto simp: store_read_def store_call_def after_def up_def outage_text_def)

lemma store_call_after:
  assumes "up (Suc 0) w"
  shows "store_call m w = (case m (db_after (Suc 0) w) of
     Inl e \<Rightarrow> (Inl e, after (Suc 0) w)
   | Inr (x, d') \<Rightarrow> (Inr x, \<lparr>w_db = d', w_sched = drop (Suc 0) (w_sched w)\<rparr>))"
  using assms by (cases w; cases "w_sched w"; cases "hd (w_sched w)")
    (auto simp: store_call_def after_def up_def split: sum.splits)

lemma world_ok_after:
  assumes "world_ok cfg K w" and "up (Suc 0) w"
  shows "\<exists>K'. K \<subseteq> K' \<and> world_ok cfg K' (after (Suc 0) w)"
proof -
  have "store_read (\<lambda>d. ()) w = (Inr (), after (Suc 0) w)" using assms(2) by (simp add: store_read_after)
  from store_read_Inr [OF assms(1) this] show ?thesis by auto
qed

subsection \<open>Writes in a concurrent world\<close>

lemma get_row:
  assumes "store_get cfg st sy a d = Some s"
  obtains r where "r \<in> set (sleeves d)" and "s = row_to_sleeve r"
    and "identity r = (st, upper sy, or_default a (cfg_account_id cfg))"
  using assms find_Some_mem by (fastforce simp: store_get_Some select_identity_def)

text \<open>A sleeve once seen is found by every later read.\<close>

lemma get_again:
  assumes "world_ok cfg K w" and "s \<in> K" and "identity s = (st, upper sy, or_default a (cfg_account_id cfg))"
  shows "store_get cfg st sy a (w_db w) \<noteq> None"
proof -
  have "snapshot_ok (w_db w) s" using assms(1,2) reachable_inv(2) by (auto simp: world_ok_def)
  then show ?thesis
    using assms(3) by (auto simp: snapshot_ok_def store_get_def select_identity_def find_None_iff)
qed

lemma transition_call:
  assumes w: "world_ok cfg K w" and s: "s \<in> K"
    and c: "store_call (store_transition now s to_state reason actor ev None) w = (Inr s', w')"
  obtains d K' r where "K \<subseteq> K'" "reachable cfg d K'" "\<exists>es. evidence_table d = evidence_table (w_db w) @ es"
    "r \<in> set (sleeves d)" "s = row_to_sleeve r" "s' = row_to_sleeve (step_to now to_state reason r)"
    "to_state = ''live'' \<longrightarrow> sl_origin r \<noteq> ''challenger''"
    "w_db w' = moved r (step_to now to_state reason)
       (entry now (sl_id r) (sl_version r + 1) (sl_state r) to_state reason actor ev) d"
  using w c
proof (cases rule: store_call_cases)
  case (outage e)
  then show thesis by simp
next
  case (call d K')
  then obtain d' where ok: "store_transition now s to_state reason actor ev None d = Inr (s', d')"
    and d': "w_db w' = d'"
    by (cases "store_transition now s to_state reason actor ev None d") auto
  note inv = reachable_inv [OF call(2)]
  from call(1) s have "snapshot_ok d s" using inv(2) by blast
  from inv(1) this ok show thesis
  proof (cases rule: store_transition_Inr)
    case (1 r)
    with call d' show thesis by (intro that [OF call(1,2,6)]) auto
  qed
qed

lemma transition_lands:
  assumes "world_ok cfg K w" and "s \<in> K"
    and "store_call (store_transition now s to_state reason actor ev None) w = (Inr s', w')"
  shows "\<exists>r \<in> set (sleeves (w_db w')). s' = row_to_sleeve r \<and> sl_state r = to_state \<and> identity r = identity s"
  using assms
proof (cases rule: transition_call)
  case (1 d K' r)
  have "step_to now to_state reason r \<in> set (sleeves (w_db w'))"
    using 1(4) by (auto simp: 1(8) sleeves_moved [OF reachable_inv(1) [OF 1(2)] 1(4)])
  with 1(5,6) show ?thesis
    by (intro bexI) (auto simp: step_to_def identity_def)
qed

text \<open>Away from live, the only way a transition through a held snapshot fails is a lost race.\<close>

lemma transition_current_or_concurrent:
  assumes "reachable cfg d K" and "s \<in> K" and "to_state \<in> set STATES" and "to_state \<noteq> ''live''"
  shows "(\<exists>p. store_transition now s to_state reason actor None None d = Inr p) \<or>
    (\<exists>m. store_transition now s to_state reason actor None None d = Inl (ConcurrentTransitionError m))"
proof -
  note inv = reachable_inv [OF assms(1)]
  obtain r where r: "r \<in> set (sleeves d)" "sl_id r = sl_id s" "sl_version s = sl_version r \<longrightarrow> s = row_to_sleeve r"
    using inv(2) [OF assms(2)] by (auto simp: snapshot_ok_def)
  show ?thesis
  proof (cases "sl_version s = sl_version r")
    case True
    with r(3) assms(4) store_transition_current [OF inv(1) r(1) assms(3)] show ?thesis by simp
  next
    case False
    with store_transition_stale [OF inv(1) r(1,2) False assms(3)] assms(4) show ?thesis by simp
  qed
qed

lemma transition_fresh:
  assumes "reachable cfg d K" and "store_get cfg st sy a d = Some s" and "to_state \<in> set STATES"
    and "to_state = ''live'' \<longrightarrow> sl_origin s \<noteq> ''challenger''"
  shows "\<exists>r \<in> set (sleeves d). s = row_to_sleeve r \<and>
    store_transition now s to_state reason actor None None d =
      Inr (row_to_sleeve (step_to now to_state reason r),
           moved r (step_to now to_state reason)
             (entry now (sl_id r) (sl_version r + 1) (sl_state r) to_state reason actor None) d)"
proof -
  obtain r where r: "r \<in> set (sleeves d)" "s = row_to_sleeve r" by (rule get_row [OF assms(2)])
  with assms(4) show ?thesis
    using store_transition_current [OF reachable_inv(1) [OF assms(1)] r(1) assms(3)] by auto
qed

text \<open>With nobody else writing, a demotion is one transition without evidence.\<close>

lemma demote_quiet:
  assumes "reachable cfg d K" and "sv_store sv = Some cfg" and "store_get cfg st sy a d = Some s"
    and "to_state \<in> set STATES" and "to_state = ''live'' \<longrightarrow> sl_origin s \<noteq> ''challenger''"
  shows "\<exists>r \<in> set (sleeves d). s = row_to_sleeve r \<and>
    demote sv now st sy to_state reason actor a (quiet d) =
      (Inr (row_to_sleeve (step_to now to_state reason r)),
       quiet (moved r (step_to now to_state reason)
         (entry now (sl_id r) (sl_version r + 1) (sl_state r) to_state reason actor None) d))"
  using transition_fresh [OF assms(1,3,4,5), of now reason actor]
  by (auto simp: demote_def svc_require_def assms(2,3))

lemma demote_landed:
  assumes "world_ok cfg K w" and "sv_store sv = Some cfg"
    and "demote sv now st sy to_state reason actor a w = (Inr s', w')"
  shows "\<exists>r \<in> set (sleeves (w_db w')). s' = row_to_sleeve r \<and> sl_state r = to_state \<and>
    identity r = (st, upper sy, or_default a (cfg_account_id cfg))"
proof -
  let ?id = "(st, upper sy, or_default a (cfg_account_id cfg))"
  obtain res w1 where c1: "store_read (store_get cfg st sy a) w = (res, w1)" by fastforce
  from assms(3) c1 obtain s where res: "res = Inr (Some s)"
    by (auto simp: demote_def svc_require_def assms(2) split: sum.splits option.splits)
  obtain K1 where K1: "world_ok cfg K1 w1" "store_get cfg st sy a (w_db w1) = Some s"
    using store_read_Inr [OF assms(1) c1 [unfolded res]] by auto
  note ok1 = get_snapshot [OF K1]
  have s: "identity s = ?id" by (rule get_row [OF K1(2)]) simp
  obtain res2 w2 where c2: "store_call (store_transition now s to_state reason actor None None) w1 = (res2, w2)"
    by fastforce
  show ?thesis
  proof (cases res2)
    case (Inr s2)
    with assms(3) c1 c2 res have "s2 = s'" "w2 = w'" by (auto simp: demote_def svc_require_def assms(2))
    with transition_lands [OF ok1 _ c2 [unfolded Inr]] s show ?thesis by auto
  next
    case (Inl e)
    obtain K2 where ok2: "world_ok cfg K2 w2" "s \<in> K2"
      using store_call_Inl [OF ok1 c2 [unfolded Inl]] by auto
    obtain res3 w3 where c3: "store_read (store_get cfg st sy a) w2 = (res3, w3)" by fastforce
    from assms(3) c1 c2 c3 res Inl obtain x where res3: "res3 = Inr x"
      by (auto simp: demote_def svc_require_def assms(2) split: if_splits sum.splits)
    obtain K3 where ok3: "world_ok cfg K3 w3" "s \<in> K3" and x: "x = store_get cfg st sy a (w_db w3)"
      using store_read_Inr [OF ok2(1) c3 [unfolded res3]] ok2(2) by auto
    with get_again [OF ok3 s] obtain fresh where fresh: "store_get cfg st sy a (w_db w3) = Some fresh" by auto
    have f: "identity fresh = ?id" by (rule get_row [OF fresh]) simp
    show ?thesis
    proof (cases "sl_state fresh = to_state")
      case True
      with assms(3) c1 c2 c3 res res3 Inl x fresh have "s' = fresh" "w' = w3"
        by (auto simp: demote_def svc_require_def assms(2) split: if_splits)
      with True get_row [OF fresh] show ?thesis by (metis row_to_sleeve_sel(3))
    next
      case False
      with assms(3) c1 c2 c3 res res3 Inl x fresh
      have "store_call (store_transition now fresh to_state reason actor None None) w3 = (Inr s', w')"
        by (auto simp: demote_def svc_require_def assms(2) split: if_splits)
      from transition_lands [OF get_snapshot [OF ok3(1) fresh] _ this] f show ?thesis by auto
    qed
  qed
qed

subsection \<open>What an assessment is worth\<close>

lemma derived_scope_sleeve:
  "ds_strategy_id (de_scope (derive_backtest_evidence d s is)) = sl_strategy_id s \<and>
   ds_symbol (de_scope (derive_backtest_evidence d s is)) = sl_symbol s"
  "derive_paper_evidence d jv s ws we c = Inr e \<Longrightarrow>
     ds_strategy_id (de_scope e) = sl_strategy_id s \<and> ds_symbol (de_scope e) = sl_symbol s"
  by (auto simp: derive_backtest_evidence_def derive_paper_evidence_def Let_def bindE_Inr_iff
      split: prod.splits list.splits if_splits)

lemma probation_result_allowed:
  "allowed (probation_result e) \<longleftrightarrow> usable e" "target (probation_result e) = (if usable e then Some ''paper'' else None)"
  by (simp_all add: probation_result_def usable_def)

lemma assess_allowed:
  assumes "assess th journal now is c pw s d = Inr (e, g)" and "allowed g"
    and "NEXT_STATE (sl_state s) = Some tgt"
  shows "target g = Some tgt" and "usable e"
    and "sl_state s = ''candidate'' \<Longrightarrow> paper_bar th (de_metrics e)"
    and "sl_state s = ''paper'' \<Longrightarrow> live_bar th (de_metrics e)"
    and "ds_strategy_id (de_scope e) = sl_strategy_id s" and "ds_symbol (de_scope e) = sl_symbol s"
proof -
  consider (cand) "sl_state s = ''candidate''" "tgt = ''paper''" | (pap) "sl_state s = ''paper''" "tgt = ''live''"
    | (prob) "sl_state s = ''probation''" "tgt = ''paper''"
    using assms(3) by (auto simp: NEXT_STATE_def split: if_splits)
  then have "target g = Some tgt \<and> usable e \<and> (sl_state s = ''candidate'' \<longrightarrow> paper_bar th (de_metrics e)) \<and>
      (sl_state s = ''paper'' \<longrightarrow> live_bar th (de_metrics e)) \<and>
      ds_strategy_id (de_scope e) = sl_strategy_id s \<and> ds_symbol (de_scope e) = sl_symbol s"
  proof cases
    case cand
    with assms(1) have "evaluate_to_paper e th = Inr g" "e = derive_backtest_evidence d s is"
      by (auto simp: assess_def Let_def bindE_Inr_iff)
    with evaluate_to_paper_allowed [of e th g] assms(2) cand derived_scope_sleeve(1) show ?thesis by simp
  next
    case pap
    with assms(1) obtain jv ws we where "evaluate_to_live e th = Inr g" "derive_paper_evidence d jv s ws we c = Inr e"
      by (auto simp: assess_def Let_def bindE_Inr_iff)
    with evaluate_to_live_allowed [of e th g] assms(2) pap derived_scope_sleeve(2) show ?thesis by simp
  next
    case prob
    with assms(1) obtain jv ws we where "g = probation_result e" "derive_paper_evidence d jv s ws we c = Inr e"
      by (auto simp: assess_def Let_def bindE_Inr_iff)
    with assms(2) prob probation_result_allowed [of e] derived_scope_sleeve(2) show ?thesis by simp
  qed
  then show "target g = Some tgt" "usable e" "sl_state s = ''candidate'' \<Longrightarrow> paper_bar th (de_metrics e)"
    "sl_state s = ''paper'' \<Longrightarrow> live_bar th (de_metrics e)"
    "ds_strategy_id (de_scope e) = sl_strategy_id s" "ds_symbol (de_scope e) = sl_symbol s"
    by simp_all
qed

text \<open>The store calls of a promotion that is reported as allowed.\<close>

lemma promote_calls:
  assumes "sv_store sv = Some cfg"
    and "promote sv digest journal now st sy is c pw actor a w = (Inr (Some s', g), w')" and "allowed g"
  obtains s w1 tgt e0 w2 scope i w3 where
    "store_read (store_get cfg st sy a) w = (Inr (Some s), w1)"
    "NEXT_STATE (sl_state s) = Some tgt"
    "store_call (\<lambda>d. map_sum id (\<lambda>x. (x, d)) (assess (sv_thresholds sv) journal now is c pw s d)) w1 = (Inr (e0, g), w2)"
    "scope_kwargs (de_scope e0) = Inr scope"
    "store_call (record_evidence digest now scope (de_metrics e0) (de_source_artifacts e0)) w2 = (Inr i, w3)"
    "store_call (store_transition now s (case target g of None \<Rightarrow> tgt | Some t \<Rightarrow> t)
       ([S ''promoted: ''] @ gate_reason g) actor (Some i) None) w3 = (Inr s', w')"
  using assms
  by (auto simp: promote_def svc_require_def split: sum.splits option.splits prod.splits if_splits)

lemma read_only_call:
  "store_call (\<lambda>d. map_sum id (\<lambda>x. (x, d)) (m d)) w = (res, w') \<Longrightarrow> w' = after (Suc 0) w"
  by (cases w; cases "w_sched w"; cases "hd (w_sched w)")
    (auto simp: store_call_def after_def map_sum_def split: sum.splits)

lemma assess_call:
  assumes "world_ok cfg K w" and "store_call (\<lambda>d. map_sum id (\<lambda>x. (x, d)) (m d)) w = (Inr x, w')"
  obtains K' d where "K \<subseteq> K'" and "world_ok cfg K' w'" and "m d = Inr x"
  using assms
proof (cases rule: store_call_cases)
  case (call d K')
  then show thesis by (intro that) (auto simp: world_ok_def map_sum_def split: sum.splits)
qed simp

text \<open>Recording evidence stores the metrics under a fresh id, and nothing removes them.\<close>

lemma evidence_call:
  assumes w: "world_ok cfg K w" and c: "store_call (record_evidence digest now scope metrics arts) w = (Inr i, w')"
  shows "\<exists>K' e. K \<subseteq> K' \<and> world_ok cfg K' w' \<and> e \<in> set (evidence_table (w_db w')) \<and> ev_id e = i \<and>
    ev_metrics e = metrics \<and> ev_scope e = scope\<lparr>es_symbol := upper (es_symbol scope)\<rparr>"
  using w c
proof (cases rule: store_call_cases)
  case (outage e)
  then show ?thesis by simp
next
  case (call d K')
  let ?res = "record_evidence digest now scope metrics arts d"
  from call(4,5) obtain d' where ok: "?res = Inr (i, d')" and d': "w_db w' = d'" by (cases ?res) auto
  have "reachable cfg d' K'" by (rule reach_step [OF call(2)]) (rule roster_step.evidence [OF ok])
  with d' call(1,3) have "K \<subseteq> K' \<and> world_ok cfg K' w'" by (simp add: world_ok_def)
  moreover have "\<exists>e \<in> set (evidence_table d'). ev_id e = i \<and> ev_metrics e = metrics \<and>
      ev_scope e = scope\<lparr>es_symbol := upper (es_symbol scope)\<rparr>"
    using ok by (auto simp: record_evidence_def Let_def split: if_splits)
  ultimately show ?thesis using d' by blast
qed

lemma store_evidence_unique:
  assumes "evidence_inv d" and "e \<in> set (evidence_table d)"
  shows "store_evidence (ev_id e) d = Some e"
  using assms find_key_eq [of ev_id "evidence_table d" "ev_id e" e]
  by (simp add: evidence_inv_def store_evidence_def)

subsection \<open>A service for the witnesses\<close>

definition demo_service :: lifecycle_service where
  "demo_service = \<lparr>sv_store = Some default_settings, sv_thresholds = default_thresholds\<rparr>"

text \<open>Another process latches a halt while ours is at work.\<close>

definition demo_commit :: "db \<Rightarrow> db" where
  "demo_commit d = snd (halt_entries default_settings 6 ''live'' ''live'' [S ''drill''] None d)"

lemma demo_commit_lawful: "lawful default_settings demo_commit"
  unfolding lawful_def demo_commit_def by (blast intro: roster_step.halt)

lemma demo_get [simp]:
  "store_get default_settings ''ch_1'' ''AAPL'' None demo_db2 = Some (row_to_sleeve demo_paper)"
  by (simp add: store_get_def select_identity_def identity_def demo_paper_def step_to_def
      demo_candidate_def born_def default_settings_def demo_upper)

lemma demo_world_ok:
  "world_ok default_settings {row_to_sleeve demo_paper, row_to_sleeve demo_candidate} (quiet demo_db2)"
  by (simp add: world_ok_def demo_reachable2)

subsection \<open>Properties\<close>

text \<open>
  the pre-flight gate, exactly. An entry is permitted if and only if every read the gate makes is
  answered, the sleeve is registered, and either it is on paper and the paper latch is open, or it is
  live, the operator's live switch is on and the live latch is open, each condition holding in the
  database as the corresponding read found it, whatever other processes commit in between. Every other
  case, an outage at any read included, refuses; the gate itself writes nothing.
\<close>

theorem may_open_exact:
  "(permitted (fst (may_open sv st sy a w)) \<longleftrightarrow>
     (\<exists>cfg s. sv_store sv = Some cfg \<and> store_get cfg st sy a (db_after 1 w) = Some s \<and>
        (sl_state s = ''paper'' \<and> up 2 w \<and>
           \<not> h_halted (reconciliation_state cfg ''paper'' ''paper'' a (db_after 2 w)) \<or>
         sl_state s = ''live'' \<and> up 3 w \<and> live_mode_enabled cfg a (db_after 2 w) \<and>
           \<not> h_halted (reconciliation_state cfg ''live'' ''live'' a (db_after 3 w)))))
   \<and> (\<exists>n \<le> 3. snd (may_open sv st sy a w) = after n w)"
proof -
  have n: "(1::nat) = Suc 0" "(2::nat) = Suc (Suc 0)" "(3::nat) = Suc (Suc (Suc 0))" by simp_all
  note ups = up_Suc [of "Suc 0" w] up_Suc [of "Suc (Suc 0)" w]
  have ex: "\<exists>n \<le> Suc (Suc (Suc 0)). after m w = after n w" if "m \<le> Suc (Suc (Suc 0))" for m
    using that by blast
  show ?thesis
  proof (cases "sv_store sv")
    case None
    moreover have "w = after 0 w" by (simp add: after_def)
    ultimately show ?thesis using ex [of 0] by (simp add: may_open_def n)
  next
    case (Some cfg)
    show ?thesis
    proof (cases "store_get cfg st sy a (db_after (Suc 0) w)")
      case None
      with Some show ?thesis by (simp add: may_open_def store_read_after n ex)
    next
      case s: (Some s)
      consider "sl_state s \<notin> {''paper'', ''live''}" | "sl_state s = ''paper''" | "sl_state s = ''live''" by auto
      then show ?thesis
        by cases (simp_all add: may_open_def Some s store_read_after n ups ex Let_def split: bool.splits)
    qed
  qed
qed

text \<open>
  a demotion that returns has landed. Whatever other processes commit between its store calls,
  the sleeve returned is the row as it stands when the call ends, under the identity that was asked
  for, and it is in the requested state; the branch that would return the stale sleeve because the
  row disappeared is unreachable.
\<close>

theorem demote_lands:
  assumes "world_ok cfg K w" and "sv_store sv = Some cfg"
    and "demote sv now st sy to_state reason actor a w = (Inr s', w')"
  shows "\<exists>r \<in> set (sleeves (w_db w')). s' = row_to_sleeve r \<and> sl_state r = to_state \<and>
    identity r = (st, upper sy, or_default a (cfg_account_id cfg))"
  by (rule demote_landed [OF assms])

theorem demote_lands_witness:
  "\<exists>s' w'. demote demo_service 9 ''ch_1'' ''AAPL'' ''retired'' [] ''operator'' None (quiet demo_db2) = (Inr s', w') \<and>
     (\<exists>r \<in> set (sleeves (w_db w')). s' = row_to_sleeve r \<and> sl_state r = ''retired'')"
proof -
  have sv: "sv_store demo_service = Some default_settings" by (simp add: demo_service_def)
  obtain s' w' where d: "demote demo_service 9 ''ch_1'' ''AAPL'' ''retired'' [] ''operator'' None (quiet demo_db2) = (Inr s', w')"
    using demote_quiet [OF demo_reachable2 sv demo_get, of "''retired''" 9 "[]" "''operator''"]
    by (auto simp: STATES_def)
  from demote_lands [OF demo_world_ok sv d] d show ?thesis by auto
qed

text \<open>With at most one lost race the retry is answered.\<close>

lemma demote_returns_raced:
  assumes "world_ok cfg K w" and "sv_store sv = Some cfg" and "up 3 w" and "length (w_sched w) \<le> 3"
    and "store_get cfg st sy a (db_after 1 w) = Some s"
    and "to_state \<in> set STATES" and "to_state \<noteq> ''live''"
  shows "\<exists>s' w'. demote sv now st sy to_state reason actor a w = (Inr s', w')"
proof -
  let ?m = "\<lambda>s. store_transition now s to_state reason actor None None"
  have ups: "up (Suc 0) w" "up (Suc 0) (after (Suc 0) w)" "up (Suc 0) (after (Suc (Suc 0)) w)"
    using assms(3) up_Suc [of "Suc 0" w] up_Suc [of "Suc (Suc 0)" w] by (simp_all add: numeral_3_eq_3)
  have get: "store_get cfg st sy a (db_after (Suc 0) w) = Some s" using assms(5) by simp
  have c1: "store_read (store_get cfg st sy a) w = (Inr (Some s), after (Suc 0) w)"
    using ups(1) get by (simp add: store_read_after)
  obtain K1 where "world_ok cfg K1 (after (Suc 0) w)" using store_read_Inr [OF assms(1) c1] by auto
  from get_snapshot [OF this get] have ok1: "world_ok cfg (insert s K1) (after (Suc 0) w)" .
  have id_s: "identity s = (st, upper sy, or_default a (cfg_account_id cfg))" by (rule get_row [OF get]) simp
  from world_ok_after [OF ok1 ups(2)] obtain K2 where ok2: "world_ok cfg K2 (after 2 w)" "s \<in> K2"
    by (auto simp: numeral_2_eq_2)
  consider p where "?m s (db_after 2 w) = Inr p"
    | m where "?m s (db_after 2 w) = Inl (ConcurrentTransitionError m)"
    using transition_current_or_concurrent [OF _ ok2(2) assms(6,7)] ok2(1) by (metis world_ok_def)
  then show ?thesis
  proof cases
    case 1
    then show ?thesis
      by (cases p) (simp add: demote_def svc_require_def assms(2) c1 store_call_after [OF ups(2)] numeral_2_eq_2)
  next
    case 2
    from world_ok_after [OF ok2(1)] ups(3) obtain K3 where ok3: "world_ok cfg K3 (after 3 w)" "s \<in> K3"
      using ok2(2) by (auto simp: numeral_2_eq_2 numeral_3_eq_3)
    from get_again [OF ok3 id_s] obtain fresh where f: "store_get cfg st sy a (db_after 3 w) = Some fresh" by auto
    have after3: "after 3 w = quiet (db_after 3 w)" using assms(4) by (simp add: after_def)
    have c3: "store_read (store_get cfg st sy a) (after 2 w) = (Inr (Some fresh), after 3 w)"
      using ups(3) f by (simp add: store_read_after numeral_2_eq_2 numeral_3_eq_3)
    obtain p where p: "?m fresh (db_after 3 w) = Inr p"
      using transition_fresh [OF _ f assms(6), of K3 now reason actor] ok3(1) assms(7)
      by (auto simp: world_ok_def)
    have "store_call (?m s) (after (Suc 0) w) = (Inl (ConcurrentTransitionError m), after 2 w)"
      using 2 by (simp add: store_call_after [OF ups(2)] numeral_2_eq_2)
    moreover have "store_call (?m fresh) (after 3 w) = (Inr (fst p), quiet (snd p))"
      using p by (subst after3) (simp add: case_prod_beta)
    ultimately show ?thesis
      using c3 by (simp add: demote_def svc_require_def assms(2) c1)
  qed
qed

text \<open>
  C39: a demotion survives one lost race and lands. If the store answers, and other processes commit
  whatever they like before the first read, before the write and before the re-read, then a demotion
  of a registered sleeve to any state but live returns a sleeve, and that sleeve is a row of the table
  as it stands when the call ends, under the identity that was asked for and in the requested state:
  the commit that beat the first write does not leave the sleeve where it was.
\<close>

theorem demote_survives_one_race:
  assumes "world_ok cfg K w" and "sv_store sv = Some cfg" and "up 3 w" and "length (w_sched w) \<le> 3"
    and "store_get cfg st sy a (db_after 1 w) = Some s"
    and "to_state \<in> set STATES" and "to_state \<noteq> ''live''"
  shows "\<exists>s' w' r. demote sv now st sy to_state reason actor a w = (Inr s', w') \<and>
    r \<in> set (sleeves (w_db w')) \<and> s' = row_to_sleeve r \<and> sl_state r = to_state \<and>
    identity r = (st, upper sy, or_default a (cfg_account_id cfg))"
  using demote_returns_raced [OF assms, of now reason actor] demote_landed [OF assms(1,2)] by metis

text \<open>Here the commit in between moves the very sleeve: the first write loses and the retry lands.\<close>

definition demo_rival :: "db \<Rightarrow> db" where
  "demo_rival d = (if d = demo_db2 then
     moved demo_paper (step_to 7 ''probation'' [S ''rival''])
       (entry 7 1 3 ''paper'' ''probation'' [S ''rival''] ''operator'' None) demo_db2 else d)"

lemma demo_rival_lawful: "lawful default_settings demo_rival"
proof -
  have t: "store_transition 7 (row_to_sleeve demo_paper) ''probation'' [S ''rival''] ''operator'' None None demo_db2
      = Inr (row_to_sleeve (step_to 7 ''probation'' [S ''rival''] demo_paper), demo_rival demo_db2)"
    by (subst store_transition_current [OF reachable_inv(1) [OF demo_reachable2]])
      (simp_all add: STATES_def demo_rival_def)
  have "\<exists>K'. (roster_step default_settings)\<^sup>*\<^sup>* (demo_db2, K) (demo_rival demo_db2, K')" for K
  proof -
    have "roster_step default_settings (demo_db2, K) (demo_db2, insert (row_to_sleeve demo_paper) K)"
      by (rule roster_step.read) simp
    then have "(roster_step default_settings)\<^sup>*\<^sup>* (demo_db2, K) (demo_db2, insert (row_to_sleeve demo_paper) K)"
      by (rule r_into_rtranclp)
    then show ?thesis
      by (intro exI, elim rtranclp.rtrancl_into_rtrancl) (rule roster_step.transition [OF insertI1 t])
  qed
  then show ?thesis by (auto simp: lawful_def demo_rival_def)
qed

theorem demote_survives_one_race_witness:
  "\<exists>s' w' r. demote demo_service 9 ''ch_1'' ''AAPL'' ''retired'' [] ''operator'' None
     \<lparr>w_db = demo_db2, w_sched = [Commits (\<lambda>d. d), Commits demo_rival, Commits demo_commit]\<rparr> = (Inr s', w') \<and>
     r \<in> set (sleeves (w_db w')) \<and> s' = row_to_sleeve r \<and> sl_state r = ''retired'' \<and>
     identity r = (''ch_1'', upper ''AAPL'', or_default None (cfg_account_id default_settings))"
proof (rule demote_survives_one_race)
  show "world_ok default_settings {row_to_sleeve demo_paper, row_to_sleeve demo_candidate}
      \<lparr>w_db = demo_db2, w_sched = [Commits (\<lambda>d. d), Commits demo_rival, Commits demo_commit]\<rparr>"
    by (auto simp: world_ok_def demo_reachable2 demo_rival_lawful demo_commit_lawful) (auto simp: lawful_def)
qed (simp_all add: demo_service_def up_def after_def STATES_def)

text \<open>
  demotion is a way up. The same ungated path takes any registered sleeve that is not a
  challenger's, a candidate included, straight to live: the write is accepted and the log entry cites
  no evidence.
\<close>

theorem demote_reaches_live:
  assumes "reachable cfg d K" and "sv_store sv = Some cfg" and "store_get cfg st sy a d = Some s"
    and "sl_origin s \<noteq> ''challenger''"
  shows "\<exists>s' d' t. demote sv now st sy ''live'' reason actor a (quiet d) = (Inr s', quiet d') \<and>
    sl_state s' = ''live'' \<and> transitions_table d' = transitions_table d @ [t] \<and>
    tr_from_state t = sl_state s \<and> tr_to_state t = ''live'' \<and> tr_evidence_snapshot_id t = None"
  using demote_quiet [OF assms(1,2,3), of "''live''" now reason actor] assms(4)
  by (auto simp: STATES_def step_to_def moved_def)

definition demo_human :: sleeve_row where
  "demo_human = born 0 1 ''sma'' ''AAPL'' ''v1'' ''equity'' ''default'' ''human''"

definition demo_db3 :: db where
  "demo_db3 = inserted demo_human
     (entry 0 1 1 ''none'' ''candidate'' [S ''registered''] ''operator'' None) empty_db"

lemma demo_register3:
  "store_register default_settings 0 ''sma'' ''aapl'' ''v1'' ''equity'' None ''operator'' ''human'' empty_db
     = Inr (row_to_sleeve demo_human, demo_db3)"
  by (simp add: store_register_eq [OF empty_inv] select_identity_def demo_human_def demo_db3_def
      default_settings_def demo_upper Let_def) (simp add: empty_db_def)

lemma demo_reachable3: "reachable default_settings demo_db3 {row_to_sleeve demo_human}"
  by (rule reach_step [OF reach_init], simp add: roster_init_def)
    (rule roster_step.register [OF demo_register3])

lemma demo_get3 [simp]:
  "store_get default_settings ''sma'' ''AAPL'' None demo_db3 = Some (row_to_sleeve demo_human)"
  by (simp add: store_get_def select_identity_def identity_def demo_human_def demo_db3_def inserted_def
      empty_db_def born_def default_settings_def demo_upper)

theorem demote_reaches_live_witness:
  "\<exists>s' d'. demote demo_service 9 ''sma'' ''AAPL'' ''live'' [S ''manual''] ''operator'' None (quiet demo_db3)
     = (Inr s', quiet d') \<and> sl_state s' = ''live''"
  using demote_reaches_live [OF demo_reachable3, where sv = demo_service and st = "''sma''" and sy = "''AAPL''"
      and a = None and s = "row_to_sleeve demo_human" and now = 9 and reason = "[S ''manual'']" and actor = "''operator''"]
  by (auto simp: demo_service_def demo_human_def)

text \<open>
  C13: nothing moves up without stored evidence. When a promotion is reported as allowed, whatever
  other processes commit between its store calls, then the sleeve is one step up from where the log
  says it was, the last log entry is this promotion and cites an evidence row that is in the database,
  that row is scoped to this strategy and symbol, and its metrics clear the bar of the step: the paper
  bar from candidate, the live bar from paper. A challenger's sleeve is never the one that went live.
\<close>

theorem promote_only_on_evidence:
  assumes "world_ok cfg K w" and "sv_store sv = Some cfg"
    and "promote sv digest journal now st sy is c pw actor a w = (Inr (Some s', g), w')" and "allowed g"
  shows "\<exists>r \<in> set (sleeves (w_db w')). \<exists>ts t i e.
    s' = row_to_sleeve r \<and> identity r = (st, upper sy, or_default a (cfg_account_id cfg)) \<and>
    transitions_table (w_db w') = ts @ [t] \<and> tr_sleeve_id t = sl_id r \<and>
    tr_to_state t = sl_state r \<and> NEXT_STATE (tr_from_state t) = Some (sl_state r) \<and>
    tr_evidence_snapshot_id t = Some i \<and> store_evidence i (w_db w') = Some e \<and>
    es_strategy_id (ev_scope e) = st \<and> es_symbol (ev_scope e) = upper sy \<and>
    (tr_from_state t = ''candidate'' \<longrightarrow> paper_bar (sv_thresholds sv) (ev_metrics e)) \<and>
    (tr_from_state t = ''paper'' \<longrightarrow> live_bar (sv_thresholds sv) (ev_metrics e)) \<and>
    (sl_state r = ''live'' \<longrightarrow> sl_origin r \<noteq> ''challenger'')"
proof -
  let ?id = "(st, upper sy, or_default a (cfg_account_id cfg))"
  let ?assess = "\<lambda>s d. assess (sv_thresholds sv) journal now is c pw s d"
  obtain s w1 tgt e0 w2 scope i w3 where
    c1: "store_read (store_get cfg st sy a) w = (Inr (Some s), w1)" and
    nx: "NEXT_STATE (sl_state s) = Some tgt" and
    c2: "store_call (\<lambda>d. map_sum id (\<lambda>x. (x, d)) (?assess s d)) w1 = (Inr (e0, g), w2)" and
    sc: "scope_kwargs (de_scope e0) = Inr scope" and
    c3: "store_call (record_evidence digest now scope (de_metrics e0) (de_source_artifacts e0)) w2 = (Inr i, w3)" and
    c4: "store_call (store_transition now s (case target g of None \<Rightarrow> tgt | Some t \<Rightarrow> t)
           ([S ''promoted: ''] @ gate_reason g) actor (Some i) None) w3 = (Inr s', w')"
    by (rule promote_calls [OF assms(2-4)])
  obtain K1 where K1: "world_ok cfg K1 w1" "store_get cfg st sy a (w_db w1) = Some s"
    using store_read_Inr [OF assms(1) c1] by auto
  have id_s: "identity s = ?id" by (rule get_row [OF K1(2)]) simp
  obtain K2 d2 where K2: "insert s K1 \<subseteq> K2" "world_ok cfg K2 w2" and as: "?assess s d2 = Inr (e0, g)"
    by (rule assess_call [OF get_snapshot [OF K1] c2])
  note bar = assess_allowed [OF as assms(4) nx]
  obtain K3 e where e: "K2 \<subseteq> K3" "world_ok cfg K3 w3" "e \<in> set (evidence_table (w_db w3))" "ev_id e = i"
    "ev_metrics e = de_metrics e0" "ev_scope e = scope\<lparr>es_symbol := upper (es_symbol scope)\<rparr>"
    using evidence_call [OF K2(2) c3] by blast
  have scope: "es_strategy_id scope = st" "upper (es_symbol scope) = upper sy"
    using sc bar(5,6) id_s by (auto simp: scope_kwargs_def identity_def split: option.splits)
  have sK: "s \<in> K3" using K2(1) e(1) by auto
  from e(2) sK c4 show ?thesis
  proof (cases rule: transition_call)
    case (1 d K' r)
    let ?r = "step_to now tgt ([S ''promoted: ''] @ gate_reason g) r"
    have w': "w_db w' = moved r (step_to now tgt ([S ''promoted: ''] @ gate_reason g))
        (entry now (sl_id r) (sl_version r + 1) (sl_state r) tgt ([S ''promoted: ''] @ gate_reason g) actor (Some i)) d"
      using 1(8) by (simp add: bar(1))
    have "e \<in> set (evidence_table d)" using 1(3) e(3) by auto
    then have "store_evidence i d = Some e"
      using store_evidence_unique [OF reachable_inv(3) [OF 1(2)]] e(4) by blast
    then have "store_evidence i (w_db w') = Some e" by (simp add: w' moved_def store_evidence_def)
    moreover have "?r \<in> set (sleeves (w_db w'))"
      using 1(4) by (auto simp: w' sleeves_moved [OF reachable_inv(1) [OF 1(2)] 1(4)])
    moreover have "identity ?r = ?id" using id_s 1(5) by (simp add: step_to_def identity_def)
    ultimately show ?thesis
      using 1(5-7) nx bar(1,3,4) e(5,6) scope
      by (intro bexI [of _ ?r] exI [of _ "transitions_table d"]
            exI [of _ "entry now (sl_id r) (sl_version r + 1) (sl_state r) tgt ([S ''promoted: ''] @ gate_reason g) actor (Some i)"]
            exI [of _ i] exI [of _ e])
        (auto simp: step_to_def w' moved_def)
  qed
qed

text \<open>A candidate with one stored walk-forward run that clears the default paper bar.\<close>

definition demo_artifact :: artifact_row where
  "demo_artifact = \<lparr>ar_id = 0, ar_kind = ''walk_forward'', ar_strategy_id = ''sma'', ar_strategy_version = ''v1'',
     ar_symbol = ''AAPL'', ar_asset_class = ''equity'', ar_environment = ''backtest'', ar_account_id = ''default'',
     ar_window_start = 0, ar_window_end = 9, ar_data_version = ''d'', ar_model_version = ''m'',
     ar_payload = Some [(''deflated_sharpe_ratio'', JFloat (Fin (97/100))), (''out_of_sample_trades'', JInt 42),
       (''out_of_sample_return_pct'', JFloat (Fin (3/100)))],
     ar_content_hash = [], ar_produced_by = ''backtest'', ar_created_at = 0\<rparr>"

definition demo_db4 :: db where
  "demo_db4 = demo_db3\<lparr>artifacts := [demo_artifact\<lparr>ar_id := 1, ar_created_at := 3\<rparr>], artifact_id_seq := 2\<rparr>"

lemma demo_reachable4: "reachable default_settings demo_db4 {row_to_sleeve demo_human}"
proof -
  have "record_validation_artifact default_settings (\<lambda>_. []) 3 demo_artifact None demo_db3 = Inr (1, demo_db4)"
    by (simp add: record_validation_artifact_def demo_artifact_def demo_db4_def demo_db3_def inserted_def
        empty_db_def known_environments_def default_settings_def demo_upper or_default_def)
  from reach_step [OF demo_reachable3 roster_step.artifact [OF this]] show ?thesis .
qed

lemma demo_assess:
  "\<exists>e g. assess default_thresholds (\<lambda>_ _ _. \<lparr>jv_execution = [], jv_performance = Inr [], jv_completeness = []\<rparr>)
     9 [1] None None (row_to_sleeve demo_human) demo_db4 = Inr (e, g) \<and> allowed g \<and> target g = Some ''paper'' \<and>
     ds_window (de_scope e) = Some (0, 9) \<and> ds_environment (de_scope e) = ''backtest''"
  by (simp add: assess_def derive_backtest_evidence_def validation_artifact_def demo_db4_def demo_artifact_def
      scope_matches_def WALK_FORWARD_def demo_human_def born_def row_to_sleeve_def demo_upper Let_def
      evaluate_to_paper_def usable_def num_def jget_def backtest_keys_def default_thresholds_def)

theorem promote_only_on_evidence_witness:
  "\<exists>s' g w'. promote demo_service (\<lambda>_. []) (\<lambda>_ _ _. \<lparr>jv_execution = [], jv_performance = Inr [],
     jv_completeness = []\<rparr>) 9 ''sma'' ''AAPL'' [1] None None ''operator'' None (quiet demo_db4)
       = (Inr (Some s', g), w') \<and> (\<exists>i e. store_evidence i (w_db w') = Some e)"
proof -
  let ?j = "\<lambda>_ _ _. \<lparr>jv_execution = [], jv_performance = Inr [], jv_completeness = []\<rparr>"
  obtain e g where as: "assess default_thresholds ?j 9 [1] None None (row_to_sleeve demo_human) demo_db4 = Inr (e, g)"
    "allowed g" "target g = Some ''paper''" "ds_window (de_scope e) = Some (0, 9)"
    "ds_environment (de_scope e) = ''backtest''"
    using demo_assess by auto
  obtain scope where scope: "scope_kwargs (de_scope e) = Inr scope" "es_environment scope = ''backtest''"
    "es_window_start scope = 0" "es_window_end scope = 9"
    using as by (simp add: scope_kwargs_def)
  obtain i d5 where r: "record_evidence (\<lambda>_. []) 9 scope (de_metrics e) (de_source_artifacts e) demo_db4 = Inr (i, d5)"
    using scope by (simp add: record_evidence_def known_environments_def)
  then have i: "i \<in> ev_id ` set (evidence_table d5)" and sl: "sleeves d5 = [demo_human]"
    by (auto simp: record_evidence_def Let_def demo_db4_def demo_db3_def inserted_def empty_db_def split: if_splits)
  have r5: "reachable default_settings d5 {row_to_sleeve demo_human}"
    by (rule reach_step [OF demo_reachable4 roster_step.evidence [OF r]])
  have get: "store_get default_settings ''sma'' ''AAPL'' None demo_db4 = Some (row_to_sleeve demo_human)"
    using demo_get3 by (simp add: demo_db4_def store_get_def select_identity_def)
  obtain s' w' where p: "promote demo_service (\<lambda>_. []) ?j 9 ''sma'' ''AAPL'' [1] None None ''operator'' None (quiet demo_db4)
      = (Inr (Some s', g), w')"
    using as scope r i sl store_transition_current [OF reachable_inv(1) [OF r5], of demo_human "''paper''" 9 _ "''operator''" "Some i"]
    by (auto simp: promote_def svc_require_def demo_service_def get NEXT_STATE_def demo_human_def STATES_def)
  have "world_ok default_settings {row_to_sleeve demo_human} (quiet demo_db4)"
    by (simp add: world_ok_def demo_reachable4)
  from promote_only_on_evidence [OF this _ p as(2)] p show ?thesis by (auto simp: demo_service_def)
qed

text \<open>
  a refused promotion writes nothing. When the gates say no, or there is no step to take, the
  database after the call holds what the other processes committed before its at most two reads and
  nothing else: no evidence row, no transition, no version.
\<close>

theorem promote_refused_writes_nothing:
  assumes "promote sv digest journal now st sy is c pw actor a w = (Inr (x, g), w')" and "\<not> allowed g"
  shows "\<exists>n \<le> 2. w' = after n w"
proof -
  have "w' = after 1 w \<or> w' = after 2 w"
    using assms by (auto simp: promote_def svc_require_def store_read_after numeral_2_eq_2
        dest!: read_only_call split: sum.splits option.splits prod.splits if_splits)
  then show ?thesis by (metis one_le_numeral order_refl)
qed

theorem promote_refused_writes_nothing_witness:
  "\<exists>x g w'. promote demo_service (\<lambda>_. []) (\<lambda>_ _ _. \<lparr>jv_execution = [], jv_performance = Inr [],
     jv_completeness = []\<rparr>) 9 ''sma'' ''AAPL'' [] None None ''operator'' None (quiet demo_db3) = (Inr (x, g), w') \<and>
     (\<exists>n \<le> 2. w' = after n (quiet demo_db3))"
proof -
  let ?j = "\<lambda>_ _ _. \<lparr>jv_execution = [], jv_performance = Inr [], jv_completeness = []\<rparr>"
  obtain x g w' where p: "promote demo_service (\<lambda>_. []) ?j 9 ''sma'' ''AAPL'' [] None None ''operator'' None (quiet demo_db3)
      = (Inr (x, g), w')" "\<not> allowed g"
    by (simp add: promote_def svc_require_def demo_service_def NEXT_STATE_def demo_human_def assess_def
        derive_backtest_evidence_def evaluate_to_paper_def usable_def Let_def)
  from promote_refused_writes_nothing [OF p] p(1) show ?thesis by auto
qed

end
