(* ===== verification/Broker_Router.thy ===== *)
theory Broker_Router
  imports Lifecycle_Service
begin

text \<open>
  \<open>services/execution-service/src/execution_service/routing.py\<close> and \<open>get_broker\<close> of
  \<open>libs/brokers/src/brokers/__init__.py\<close>: the last say on where an order may go. The route is resolved
  from the shared lifecycle state on every order; the router's own state is the store it has managed
  to connect to, the live adapter it has built, and the last venues it has seen for each sleeve.
  Environment variables are the argument \<open>env\<close>; \<open>connect\<close> is the outcome of the store factory, should
  it be called.
\<close>

subsection \<open>Adapters\<close>

datatype adapter = EtoroBroker bool | AlpacaBroker bool | PaperBroker

text \<open>The Boolean of eToro is its demo flag, that of Alpaca its paper flag.\<close>

fun is_live_trading :: "adapter \<Rightarrow> bool" where
  "is_live_trading (EtoroBroker demo) = (\<not> demo)"
| "is_live_trading (AlpacaBroker paper) = (\<not> paper)"
| "is_live_trading PaperBroker = False"

fun type_name :: "adapter \<Rightarrow> string" where
  "type_name (EtoroBroker _) = ''EtoroBroker''"
| "type_name (AlpacaBroker _) = ''AlpacaBroker''"
| "type_name PaperBroker = ''PaperBroker''"

definition getenv :: "os_environ \<Rightarrow> string \<Rightarrow> string \<Rightarrow> string" where
  "getenv env name dflt = (case env name of None \<Rightarrow> dflt | Some v \<Rightarrow> v)"

definition get_broker :: "os_environ \<Rightarrow> adapter" where
  "get_broker env =
     (let broker_name = lower (strip (getenv env ''BROKER'' [])) in
      if broker_name = ''etoro'' \<and> getenv env ''ETORO_API_KEY'' [] \<noteq> [] \<and> getenv env ''ETORO_USER_KEY'' [] \<noteq> []
      then EtoroBroker (lower (getenv env ''ETORO_DEMO'' ''true'') = ''true'')
      else if broker_name \<in> {[], ''alpaca''} \<and> getenv env ''ALPACA_API_KEY'' [] \<noteq> [] \<and>
              getenv env ''ALPACA_SECRET_KEY'' [] \<noteq> []
      then AlpacaBroker (lower (getenv env ''ALPACA_PAPER'' ''true'') = ''true'')
      else PaperBroker)"

subsection \<open>The router\<close>

type_synonym route_key = "string \<times> string \<times> string"

record broker_router =
  rt_store :: "store_settings option"
  rt_has_factory :: bool
  rt_live :: "adapter option"
  rt_live_resolved :: bool
  rt_last_known_routes :: "route_key \<rightharpoonup> execution_route \<times> string"

record routed_order =
  ro_decision :: route_decision
  ro_adapter :: "adapter option"
  ro_adapter_name :: string
  ro_strategy_version :: string

definition ro_places_order :: "routed_order \<Rightarrow> bool" where
  "ro_places_order r = (places_order (ro_decision r) \<and> ro_adapter r \<noteq> None)"

abbreviation unrouted :: "execution_route \<Rightarrow> msg \<Rightarrow> routed_order" where
  "unrouted r m \<equiv> \<lparr>ro_decision = decide r m, ro_adapter = None, ro_adapter_name = ''none'', ro_strategy_version = []\<rparr>"

definition live_adapter :: "os_environ \<Rightarrow> broker_router \<Rightarrow> adapter option \<times> broker_router" where
  "live_adapter env rt =
     (if rt_live_resolved rt then (rt_live rt, rt)
      else
        (let a = get_broker env; l = (if is_live_trading a then Some a else None)
         in (l, rt\<lparr>rt_live := l, rt_live_resolved := True\<rparr>)))"

definition bind_adapter :: "os_environ \<Rightarrow> route_decision \<Rightarrow> string \<Rightarrow> broker_router \<Rightarrow> routed_order \<times> broker_router" where
  "bind_adapter env decision strategy_version rt =
     (case route decision of
        SIMULATED \<Rightarrow> (\<lparr>ro_decision = decision, ro_adapter = Some PaperBroker, ro_adapter_name = ''paper'',
                       ro_strategy_version = strategy_version\<rparr>, rt)
      | LIVE \<Rightarrow>
          (case live_adapter env rt of
             (None, rt') \<Rightarrow> (unrouted BLOCKED [S ''no_live_adapter_configured''], rt')
           | (Some a, rt') \<Rightarrow> (\<lparr>ro_decision = decision, ro_adapter = Some a, ro_adapter_name = type_name a,
                               ro_strategy_version = strategy_version\<rparr>, rt'))
      | _ \<Rightarrow> (unrouted (route decision) (route_reason decision), rt))"

definition authority_lost ::
  "os_environ \<Rightarrow> order_intent \<Rightarrow> msg \<Rightarrow> route_key \<Rightarrow> broker_router \<Rightarrow> routed_order \<times> broker_router" where
  "authority_lost env intent reason key rt =
     (if intent \<noteq> REDUCE_ONLY then (unrouted BLOCKED reason, rt)
      else
        (case rt_last_known_routes rt key of
           None \<Rightarrow> (unrouted BLOCKED ([S ''exit_route_unknown_during_''] @ reason), rt)
         | Some (r, version) \<Rightarrow> bind_adapter env (decide r ([S ''last_known_exit_during_''] @ reason)) version rt))"

definition resolve_store :: "exn + store_settings \<Rightarrow> broker_router \<Rightarrow> store_settings option \<times> broker_router" where
  "resolve_store connect rt =
     (if rt_store rt \<noteq> None \<or> \<not> rt_has_factory rt then (rt_store rt, rt)
      else
        (case connect of
           Inl e \<Rightarrow> (None, rt)
         | Inr cfg \<Rightarrow> (Some cfg, rt\<lparr>rt_store := Some cfg\<rparr>)))"

definition remember :: "route_key \<Rightarrow> sleeve \<Rightarrow> broker_router \<Rightarrow> broker_router" where
  "remember key s rt =
     (let pe = lower (sl_position_environment s) in
      if pe = ''live'' then rt\<lparr>rt_last_known_routes := (rt_last_known_routes rt)(key \<mapsto> (LIVE, sl_strategy_version s))\<rparr>
      else if pe \<in> {''paper'', ''simulated''}
      then rt\<lparr>rt_last_known_routes := (rt_last_known_routes rt)(key \<mapsto> (SIMULATED, sl_strategy_version s))\<rparr>
      else rt)"

definition lost_reason :: "exn \<Rightarrow> msg" where
  "lost_reason e = (case e of LifecycleUnavailableError m \<Rightarrow> m | _ \<Rightarrow> [S ''lifecycle_unavailable: ''] @ exn_text e)"

definition reconcile_max_age :: "os_environ \<Rightarrow> exn + int" where
  "reconcile_max_age env = bindE (env_int env ''RECONCILE_MAX_AGE_SECONDS'' 600) (\<lambda>n. Inr (max 30 n))"

text \<open>The three reads of \<open>route\<close>, in order; the first that raises ends them.\<close>

definition authority_view ::
  "store_settings \<Rightarrow> string \<Rightarrow> string \<Rightarrow> string \<Rightarrow> world \<Rightarrow> (exn + sleeve option \<times> bool \<times> reconciliation_halt) \<times> world" where
  "authority_view cfg strategy_id symbol account_id w =
     (case store_read (store_get cfg strategy_id symbol (Some account_id)) w of
        (Inl e, w1) \<Rightarrow> (Inl e, w1)
      | (Inr s, w1) \<Rightarrow>
          (case store_read (live_mode_enabled cfg (Some account_id)) w1 of
             (Inl e, w2) \<Rightarrow> (Inl e, w2)
           | (Inr live_mode, w2) \<Rightarrow>
               (let env = (if live_mode then ''live'' else ''paper'') in
                case store_read (reconciliation_state cfg env env (Some account_id)) w2 of
                  (Inl e, w3) \<Rightarrow> (Inl e, w3)
                | (Inr h, w3) \<Rightarrow> (Inr (s, live_mode, h), w3))))"

definition route_order ::
  "os_environ \<Rightarrow> exn + store_settings \<Rightarrow> instant \<Rightarrow> string \<Rightarrow> string \<Rightarrow> string \<Rightarrow> bool \<Rightarrow> broker_router \<Rightarrow> world
     \<Rightarrow> (exn + routed_order) \<times> broker_router \<times> world" where
  "route_order env connect now strategy_id symbol account_id reduce_only rt0 w =
     (let intent = (if reduce_only then REDUCE_ONLY else ENTRY);
          key = (strategy_id, upper symbol, account_id)
      in case resolve_store connect rt0 of
        (None, rt) \<Rightarrow>
          if rt_has_factory rt
          then (case authority_lost env intent [S ''lifecycle_authority_unreachable''] key rt of
                  (r, rt') \<Rightarrow> (Inr r, rt', w))
          else
            (Inr \<lparr>ro_decision = decide SIMULATED (if reduce_only then [S ''reduce_only_exit_to_simulated'']
                                                 else [S ''no_lifecycle_authority_simulated_only'']),
                  ro_adapter = Some PaperBroker, ro_adapter_name = ''paper'', ro_strategy_version = []\<rparr>, rt, w)
      | (Some cfg, rt) \<Rightarrow>
          (case authority_view cfg strategy_id symbol account_id w of
             (Inl e, w') \<Rightarrow> (case authority_lost env intent (lost_reason e) key rt of (r, rt') \<Rightarrow> (Inr r, rt', w'))
           | (Inr (None, _, _), w') \<Rightarrow> (Inr (unrouted BLOCKED [S ''sleeve_not_registered'']), rt, w')
           | (Inr (Some s, live_mode, h), w') \<Rightarrow>
               (let rt1 = remember key s rt;
                    decision = resolve_route (sl_state s) intent live_mode (sl_position_environment s)
                                 (h_halted h) (h_halt_reason h) (sl_origin s)
                in if intent = ENTRY \<and> route decision = LIVE then
                     (case reconcile_max_age env of
                        Inl e \<Rightarrow> (Inl e, rt1, w')
                      | Inr max_age \<Rightarrow>
                          (case h_last_checked_at h of
                             None \<Rightarrow> (Inr (unrouted BLOCKED [S ''live_reconciliation_not_run'']), rt1, w')
                           | Some checked \<Rightarrow>
                               (let age = total_seconds (now - checked) in
                                if of_int max_age < age
                                then (Inr (unrouted BLOCKED [S ''live_reconciliation_stale:'', I (py_trunc age), S ''s>'',
                                             I max_age, S ''s'']), rt1, w')
                                else (case bind_adapter env decision (sl_strategy_version s) rt1 of
                                        (r, rt2) \<Rightarrow> (Inr r, rt2, w')))))
                   else (case bind_adapter env decision (sl_strategy_version s) rt1 of (r, rt2) \<Rightarrow> (Inr r, rt2, w')))))"

definition operating_state ::
  "os_environ \<Rightarrow> exn + store_settings \<Rightarrow> instant \<Rightarrow> string \<Rightarrow> broker_router \<Rightarrow> world
     \<Rightarrow> (exn + string) \<times> broker_router \<times> world" where
  "operating_state env connect now account_id rt0 w =
     (case resolve_store connect rt0 of
        (None, rt) \<Rightarrow> (Inr (if rt_has_factory rt then ''STARTING'' else ''PAPER_ONLY''), rt, w)
      | (Some cfg, rt) \<Rightarrow>
          (case store_read (live_mode_enabled cfg (Some account_id)) w of
             (Inl e, w1) \<Rightarrow> (Inr ''EXIT_ONLY'', rt, w1)
           | (Inr False, w1) \<Rightarrow> (Inr ''READY'', rt, w1)
           | (Inr True, w1) \<Rightarrow>
               (case store_read (reconciliation_state cfg ''live'' ''live'' (Some account_id)) w1 of
                  (Inl e, w2) \<Rightarrow> (Inr ''EXIT_ONLY'', rt, w2)
                | (Inr h, w2) \<Rightarrow>
                    (case h_last_checked_at h of
                       None \<Rightarrow> (Inr ''RECONCILING'', rt, w2)
                     | Some checked \<Rightarrow>
                         if h_halted h then (Inr ''EXIT_ONLY'', rt, w2)
                         else
                           (case reconcile_max_age env of
                              Inl e \<Rightarrow> (Inl e, rt, w2)
                            | Inr max_age \<Rightarrow>
                                (Inr (if of_int max_age < total_seconds (now - checked) then ''EXIT_ONLY''
                                      else ''READY''), rt, w2))))))"

definition build_router :: "os_environ \<Rightarrow> exn + store_settings \<Rightarrow> broker_router" where
  "build_router env connect =
     (let blank = \<lparr>rt_store = None, rt_has_factory = False, rt_live = None, rt_live_resolved = False,
                   rt_last_known_routes = Map.empty\<rparr>
      in if strip (getenv env ''LIFECYCLE_DATABASE_URL'' []) = [] then blank
         else (case connect of
                 Inl e \<Rightarrow> blank\<lparr>rt_has_factory := True\<rparr>
               | Inr cfg \<Rightarrow> blank\<lparr>rt_store := Some cfg, rt_has_factory := True\<rparr>))"

subsection \<open>What a resolved order can be\<close>

lemma remember_sel [simp]:
  "rt_live (remember k s rt) = rt_live rt" "rt_live_resolved (remember k s rt) = rt_live_resolved rt"
  "rt_store (remember k s rt) = rt_store rt" "rt_has_factory (remember k s rt) = rt_has_factory rt"
  by (simp_all add: remember_def Let_def)

text \<open>The three reads as one: answered when all three are, each from its own database.\<close>

lemma authority_view_eq:
  "authority_view cfg st sy acct w =
     (if \<not> up 1 w then (Inl (DatabaseError (outage_text w)), after 1 w)
      else if \<not> up 2 w then (Inl (DatabaseError (outage_text (after 1 w))), after 2 w)
      else if \<not> up 3 w then (Inl (DatabaseError (outage_text (after 2 w))), after 3 w)
      else (let lm = live_mode_enabled cfg (Some acct) (db_after 2 w); e = (if lm then ''live'' else ''paper'') in
            (Inr (store_get cfg st sy (Some acct) (db_after 1 w), lm,
                  reconciliation_state cfg e e (Some acct) (db_after 3 w)), after 3 w)))"
proof -
  have n: "(1::nat) = Suc 0" "(2::nat) = Suc (Suc 0)" "(3::nat) = Suc (Suc (Suc 0))" by simp_all
  show ?thesis
    using up_Suc [of "Suc 0" w] up_Suc [of "Suc (Suc 0)" w]
    by (simp add: authority_view_def store_read_after n Let_def)
qed

lemma bind_adapter_cases:
  assumes "bind_adapter env dec v rt = (ro, rt')"
  shows "(ro_adapter ro = None \<or> (route dec = SIMULATED \<and> ro_adapter ro = Some PaperBroker) \<or>
      (route dec = LIVE \<and> ro_adapter ro = fst (live_adapter env rt))) \<and>
    rt_last_known_routes rt' = rt_last_known_routes rt"
  using assms
  by (auto simp: bind_adapter_def live_adapter_def Let_def split: execution_route.splits option.splits prod.splits if_splits)

lemma authority_lost_entry: "authority_lost env ENTRY m key rt = (unrouted BLOCKED m, rt)"
  by (simp add: authority_lost_def)

lemma entry_route_live:
  "route (resolve_route st ENTRY lm pe h hr og) = LIVE \<longleftrightarrow> \<not> h \<and> st = ''live'' \<and> lm \<and> og \<noteq> ''challenger''"
  by (auto simp: route_resolve_entry)

subsection \<open>Properties\<close>

text \<open>
  C1: no real-money entry without a licence. If an entry order is handed an adapter that trades real
  money, then the authority was connected and answered all three reads, and in the databases those reads
  saw the sleeve is live and not a challenger's, the operator's live switch is on, the live latch is open,
  and a reconciliation has been recorded no longer ago than the configured age.
\<close>

theorem live_entry_is_licensed:
  assumes "route_order env connect now st sy acct False rt w = (Inr ro, rt', w')"
    and "ro_adapter ro = Some a" and "is_live_trading a"
  shows "\<exists>cfg s c m. (rt_store rt = Some cfg \<or> rt_store rt = None \<and> connect = Inr cfg) \<and> up 3 w \<and>
    store_get cfg st sy (Some acct) (db_after 1 w) = Some s \<and> sl_state s = ''live'' \<and> sl_origin s \<noteq> ''challenger'' \<and>
    live_mode_enabled cfg (Some acct) (db_after 2 w) \<and>
    \<not> h_halted (reconciliation_state cfg ''live'' ''live'' (Some acct) (db_after 3 w)) \<and>
    h_last_checked_at (reconciliation_state cfg ''live'' ''live'' (Some acct) (db_after 3 w)) = Some c \<and>
    reconcile_max_age env = Inr m \<and> total_seconds (now - c) \<le> of_int m"
proof -
  obtain store rt0 where rs: "resolve_store connect rt = (store, rt0)" by fastforce
  show ?thesis
  proof (cases store)
    case None
    with assms rs show ?thesis by (auto simp: route_order_def authority_lost_entry split: if_splits)
  next
    case (Some cfg)
    have cfg: "rt_store rt = Some cfg \<or> rt_store rt = None \<and> connect = Inr cfg"
      using rs Some by (auto simp: resolve_store_def split: if_splits sum.splits)
    have u: "up 3 w"
      using assms rs Some by (auto simp: route_order_def authority_view_eq authority_lost_entry Let_def split: if_splits)
    have u2: "up 1 w" "up 2 w"
      using u up_Suc [of "Suc 0" w] up_Suc [of "Suc (Suc 0)" w] by (simp_all add: numeral_2_eq_2 numeral_3_eq_3)
    let ?lm = "live_mode_enabled cfg (Some acct) (db_after 2 w)"
    let ?e = "if ?lm then ''live'' else ''paper''"
    let ?h = "reconciliation_state cfg ?e ?e (Some acct) (db_after 3 w)"
    have view: "authority_view cfg st sy acct w = (Inr (store_get cfg st sy (Some acct) (db_after 1 w), ?lm, ?h), after 3 w)"
      using u u2 by (simp add: authority_view_eq Let_def)
    obtain s where s: "store_get cfg st sy (Some acct) (db_after 1 w) = Some s"
      using assms rs Some view by (cases "store_get cfg st sy (Some acct) (db_after 1 w)") (auto simp: route_order_def)
    let ?dec = "resolve_route (sl_state s) ENTRY ?lm (sl_position_environment s) (h_halted ?h) (h_halt_reason ?h) (sl_origin s)"
    have live: "route ?dec = LIVE"
    proof (rule ccontr)
      assume "route ?dec \<noteq> LIVE"
      with assms rs Some view s obtain r2 rt2 where "bind_adapter env ?dec (sl_strategy_version s)
          (remember (st, upper sy, acct) s rt0) = (ro, rt2)"
        by (auto simp: route_order_def Let_def split: prod.splits)
      from bind_adapter_cases [OF this] \<open>route ?dec \<noteq> LIVE\<close> assms(2,3) show False by auto
    qed
    then have lic: "\<not> h_halted ?h" "sl_state s = ''live''" ?lm "sl_origin s \<noteq> ''challenger''"
      unfolding entry_route_live by blast+
    obtain m c where "reconcile_max_age env = Inr m" "h_last_checked_at ?h = Some c" "total_seconds (now - c) \<le> of_int m"
      using assms rs Some view s live
      by (auto simp: route_order_def Let_def not_less split: sum.splits option.splits if_splits)
    with cfg u s lic show ?thesis by auto
  qed
qed

text \<open>A live sleeve, the live switch on, and a reconciliation just recorded.\<close>

definition demo_live_row :: sleeve_row where
  "demo_live_row = step_to 9 ''live'' [] demo_human"

definition demo_live_db :: db where
  "demo_live_db = empty_db\<lparr>sleeves := [demo_live_row],
     environment := [''default'' \<mapsto> \<lparr>en_live_mode_enabled = True, en_updated_by = ''op'', en_reason = [], en_updated_at = 0\<rparr>],
     reconciliation := [(''default'', ''live'', ''live'') \<mapsto>
       \<lparr>rc_halted = False, rc_consecutive_breaks = 0, rc_first_failure_at = None, rc_last_ok_at = Some 10,
        rc_last_checked_at = Some 10, rc_last_error = [], rc_halt_reason = [], rc_cleared_by = [], rc_cleared_at = None\<rparr>]\<rparr>"

definition demo_router :: broker_router where
  "demo_router = \<lparr>rt_store = Some default_settings, rt_has_factory = True, rt_live = Some (AlpacaBroker False),
     rt_live_resolved = True, rt_last_known_routes = Map.empty\<rparr>"

lemma demo_live_get:
  "store_get default_settings ''sma'' ''AAPL'' (Some ''default'') demo_live_db = Some (row_to_sleeve demo_live_row)"
  by (simp add: store_get_def select_identity_def identity_def demo_live_db_def demo_live_row_def step_to_def
      demo_human_def born_def default_settings_def demo_upper or_default_def)

lemma demo_lower: "lower ''live'' = ''live''" "lower ''simulated'' = ''simulated''"
  by code_simp+

lemma demo_route_live:
  "\<exists>ro rt' w'. route_order Map.empty (Inr default_settings) 20 ''sma'' ''AAPL'' ''default'' False demo_router (quiet demo_live_db)
     = (Inr ro, rt', w') \<and> ro_adapter ro = Some (AlpacaBroker False)"
proof -
  have "sl_state demo_live_row = ''live''" "sl_origin demo_live_row = ''human''"
    by (simp_all add: demo_live_row_def step_to_def demo_human_def)
  moreover have "live_mode_enabled default_settings (Some ''default'') demo_live_db"
    by (simp add: live_mode_enabled_def demo_live_db_def or_default_def)
  moreover have "\<not> h_halted (reconciliation_state default_settings ''live'' ''live'' (Some ''default'') demo_live_db)"
    "h_last_checked_at (reconciliation_state default_settings ''live'' ''live'' (Some ''default'') demo_live_db) = Some 10"
    by (simp_all add: reconciliation_state_def demo_live_db_def or_default_def)
  ultimately show ?thesis
    by (simp add: route_order_def resolve_store_def demo_router_def authority_view_def demo_live_get resolve_route_def
        reconcile_max_age_def env_int_def total_seconds_def bind_adapter_def live_adapter_def Let_def)
qed

theorem live_entry_is_licensed_witness:
  "\<exists>cfg s. store_get cfg ''sma'' ''AAPL'' (Some ''default'') (db_after 1 (quiet demo_live_db)) = Some s \<and>
     sl_state s = ''live'' \<and> live_mode_enabled cfg (Some ''default'') (db_after 2 (quiet demo_live_db))"
proof -
  obtain ro rt' w' where r: "route_order Map.empty (Inr default_settings) 20 ''sma'' ''AAPL'' ''default'' False demo_router
      (quiet demo_live_db) = (Inr ro, rt', w')" "ro_adapter ro = Some (AlpacaBroker False)"
    using demo_route_live by blast
  from live_entry_is_licensed [OF r] show ?thesis by auto
qed

text \<open>
  C28: an exit goes where the position is. While the authority answers, a reduce-only order for a
  registered sleeve is sent to the simulator for a simulated position and to the live adapter for a live
  one, whatever the sleeve's state, its origin, the live switch, the halt latch or the age of the last
  reconciliation say; the only thing that can stop it is that no live adapter is configured.
\<close>

theorem exits_follow_the_position:
  assumes "rt_store rt = Some cfg" and "up 3 w" and "store_get cfg st sy (Some acct) (db_after 1 w) = Some s"
  shows "\<exists>ro rt' w'. route_order env connect now st sy acct True rt w = (Inr ro, rt', w') \<and>
    (sl_position_environment s = POSITION_SIMULATED \<longrightarrow> ro_adapter ro = Some PaperBroker \<and> ro_places_order ro) \<and>
    (sl_position_environment s = POSITION_LIVE \<longrightarrow>
       ro_adapter ro = fst (live_adapter env rt) \<and> (ro_places_order ro \<longleftrightarrow> fst (live_adapter env rt) \<noteq> None)) \<and>
    (sl_position_environment s \<notin> {POSITION_SIMULATED, POSITION_LIVE} \<longrightarrow> ro_adapter ro = None)"
proof -
  have u: "up 1 w" "up 2 w"
    using assms(2) up_Suc [of "Suc 0" w] up_Suc [of "Suc (Suc 0)" w] by (simp_all add: numeral_2_eq_2 numeral_3_eq_3)
  have adapter: "fst (live_adapter env (remember k s rt)) = fst (live_adapter env rt)" for k
    by (simp add: live_adapter_def Let_def)
  show ?thesis
    using assms u adapter [of "(st, upper sy, acct)"]
    by (cases "fst (live_adapter env rt)") (auto simp: route_order_def resolve_store_def authority_view_eq Let_def bind_adapter_def
        resolve_route_reduce position_route_def position_defs ro_places_order_def places_order_def
        split: prod.splits option.splits)
qed

theorem exits_follow_the_position_witness:
  "\<exists>ro rt' w'. route_order Map.empty (Inr default_settings) 20 ''ch_1'' ''AAPL'' ''default'' True demo_router (quiet demo_db2)
     = (Inr ro, rt', w') \<and> ro_adapter ro = Some PaperBroker"
proof -
  have g: "store_get default_settings ''ch_1'' ''AAPL'' (Some ''default'') (db_after 1 (quiet demo_db2)) = Some (row_to_sleeve demo_paper)"
    using demo_get by (simp add: after_def store_get_def default_settings_def or_default_def)
  have "sl_position_environment (row_to_sleeve demo_paper) = POSITION_SIMULATED"
    by (simp add: demo_paper_def step_to_def roster_position_cases position_defs)
  with exits_follow_the_position [OF _ _ g, of demo_router] show ?thesis
    by (fastforce simp: demo_router_def up_def)
qed

text \<open>
  the paper latch is not enforced while live mode is on. With the live switch on, the router reads the
  live latch for every sleeve: a paper sleeve whose own latch is closed, which the pre-flight gate refuses,
  is still routed to the simulator.
\<close>

theorem paper_halt_not_enforced:
  assumes "sv_store sv = Some cfg" and "rt_store rt = Some cfg"
    and "store_get cfg st sy (Some acct) d = Some s" and "sl_state s = ''paper''"
    and "live_mode_enabled cfg (Some acct) d"
    and "h_halted (reconciliation_state cfg ''paper'' ''paper'' (Some acct) d)"
    and "\<not> h_halted (reconciliation_state cfg ''live'' ''live'' (Some acct) d)"
  shows "\<not> permitted (fst (may_open sv st sy (Some acct) (quiet d))) \<and>
    (\<exists>ro rt' w'. route_order env connect now st sy acct False rt (quiet d) = (Inr ro, rt', w') \<and>
       ro_adapter ro = Some PaperBroker \<and> ro_places_order ro)"
  using assms
  by (auto simp: may_open_def route_order_def resolve_store_def authority_view_def resolve_route_def Let_def
      bind_adapter_def ro_places_order_def places_order_def)

definition demo_paper_halted :: db where
  "demo_paper_halted = snd (halt_entries default_settings 6 ''paper'' ''paper'' [S ''drill''] None
     (snd (set_live_mode default_settings 5 True ''op'' [] None demo_db2)))"

theorem paper_halt_not_enforced_witness:
  "\<not> permitted (fst (may_open demo_service ''ch_1'' ''AAPL'' (Some ''default'') (quiet demo_paper_halted))) \<and>
   (\<exists>ro rt' w'. route_order Map.empty (Inr default_settings) 20 ''ch_1'' ''AAPL'' ''default'' False demo_router
      (quiet demo_paper_halted) = (Inr ro, rt', w') \<and> ro_adapter ro = Some PaperBroker)"
proof -
  have g: "store_get default_settings ''ch_1'' ''AAPL'' (Some ''default'') demo_paper_halted = Some (row_to_sleeve demo_paper)"
    using demo_get by (simp add: demo_paper_halted_def halt_entries_def set_live_mode_def Let_def
        store_get_def select_identity_def default_settings_def or_default_def)
  have r: "reconciliation demo_db2 = Map.empty"
    by (simp add: demo_db2_def demo_db1_def moved_def inserted_def empty_db_def)
  have h: "h_halted (reconciliation_state default_settings ''paper'' ''paper'' (Some ''default'') demo_paper_halted)"
    "\<not> h_halted (reconciliation_state default_settings ''live'' ''live'' (Some ''default'') demo_paper_halted)"
    unfolding h_halted_state demo_paper_halted_def halted_halt_entries
    by (simp_all add: or_default_def default_settings_def halted_at_def set_live_mode_def r)
  have l: "live_mode_enabled default_settings (Some ''default'') demo_paper_halted"
    by (simp add: live_mode_enabled_def demo_paper_halted_def halt_entries_def set_live_mode_def Let_def
        or_default_def default_settings_def)
  from paper_halt_not_enforced [OF _ _ g _ l h, of demo_service demo_router Map.empty "Inr default_settings" 20]
  show ?thesis by (auto simp: demo_service_def demo_router_def)
qed

end
