(* ===== verification/Live_Adapters.thy ===== *)
theory Live_Adapters
  imports Execution_Journal Paper_Broker Broker_Router
begin

text \<open>
  The two adapters of real venues: \<open>place_order\<close> and \<open>close_position\<close> of
  \<open>libs/brokers/src/brokers/alpaca_broker.py\<close> and \<open>libs/brokers/src/brokers/etoro_broker.py\<close>. The venue's
  client is not part of the program: what it answers to each request is an argument, a record of
  functions. The eToro instrument lookup is one of them (its cache only spares a second request), and so
  is the text of a JSON value. JSON has no infinities, so numbers in answers are finite.
\<close>

subsection \<open>Alpaca\<close>

datatype alpaca_order =
    LimitOrderRequest string int string string rat
  | MarketOrderRequest string int string string

text \<open>The fields of the order object that a close reads.\<close>

record alpaca_closed =
  al_id :: string
  al_qty :: "rat option"
  al_side :: string
  al_filled_avg_price :: "rat option"

record alpaca_client =
  al_submit :: "alpaca_order \<Rightarrow> exn + string"
  al_polls :: "(exn + rat option) list"
  al_close :: "string \<Rightarrow> rat option \<Rightarrow> exn + alpaca_closed"

text \<open>What a close reports, for any adapter: \<open>order_id\<close>, \<open>qty\<close>, \<open>side\<close>, \<open>fill_price\<close>.\<close>

record close_fill =
  cf_order_id :: string
  cf_qty :: rat
  cf_side :: string
  cf_fill_price :: "rat option"

definition alpaca_tif :: "string \<Rightarrow> string" where
  "alpaca_tif t = (if upper t \<in> {''DAY'', ''GTC'', ''IOC''} then upper t else ''DAY'')"

definition alpaca_request :: "execution_order_request \<Rightarrow> alpaca_order" where
  "alpaca_request r =
     (let side = (if upper (rq_side r) = ''BUY'' then ''BUY'' else ''SELL''); tif = alpaca_tif (rq_time_in_force r)
      in case limit_price_of r of
           Some l \<Rightarrow> LimitOrderRequest (rq_symbol r) (rq_qty r) side tif l
         | None \<Rightarrow> MarketOrderRequest (rq_symbol r) (rq_qty r) side tif)"

text \<open>The polls that happen before the deadline, in order; a failed poll is logged and repeated.\<close>

fun wait_for_fill :: "(exn + rat option) list \<Rightarrow> rat option" where
  "wait_for_fill [] = None"
| "wait_for_fill (Inr (Some p) # _) = Some p"
| "wait_for_fill (_ # ps) = wait_for_fill ps"

definition alpaca_place_order :: "bool \<Rightarrow> string \<Rightarrow> alpaca_client \<Rightarrow> execution_order_request \<Rightarrow> broker_result" where
  "alpaca_place_order paper uuid c r =
     (case al_submit c (alpaca_request r) of
        Inl e \<Rightarrow> reject uuid ([S ''alpaca_error: ''] @ exn_text e)
      | Inr oid \<Rightarrow> \<lparr>br_status = ACCEPTED, br_external_order_id = oid,
                   br_fill_price = (if paper then wait_for_fill (al_polls c) else None), br_rejection_reason = None\<rparr>)"

definition alpaca_close_position ::
  "alpaca_client \<Rightarrow> rat option \<Rightarrow> string \<Rightarrow> exn + close_fill option" where
  "alpaca_close_position c units symbol =
     (if symbol = [] then Inl (ValueError [S ''alpaca_close_requires_symbol''])
      else
        (case al_close c symbol units of
           Inl e \<Rightarrow> Inr None
         | Inr o' \<Rightarrow> Inr (Some \<lparr>cf_order_id = al_id o', cf_qty = num_or units (num_or (al_qty o') 0),
                              cf_side = upper (al_side o'), cf_fill_price = al_filled_avg_price o'\<rparr>)))"

subsection \<open>eToro\<close>

record etoro_open =
  eo_instrument_id :: int
  eo_is_buy :: bool
  eo_amount :: rat
  eo_stop_loss_rate :: "rat option"
  eo_take_profit_rate :: "rat option"

record etoro_client =
  et_instrument :: "string \<Rightarrow> exn + int"
  et_open :: "etoro_open \<Rightarrow> exn + jdict"
  et_close :: "string \<Rightarrow> int \<Rightarrow> rat option \<Rightarrow> exn + jdict"
  et_positions :: "broker_position list"
  et_text :: "json \<Rightarrow> string"

text \<open>A value that is an \<open>int\<close> or a \<open>float\<close>; a Boolean is an \<open>int\<close>.\<close>

fun json_number :: "json \<Rightarrow> rat option" where
  "json_number (JInt n) = Some (of_int n)"
| "json_number (JBool b) = Some (if b then 1 else 0)"
| "json_number (JFloat (Fin x)) = Some x"
| "json_number _ = None"

definition extract_fill_price :: "jdict \<Rightarrow> rat option" where
  "extract_fill_price payload =
     (case filter (\<lambda>v. v \<noteq> None) (map (\<lambda>k. json_number (jget payload k)) [''fillPrice'', ''price'', ''executedPrice'']) of
        [] \<Rightarrow> None
      | p # _ \<Rightarrow> p)"

text \<open>\<open>str(a or b or ... or dflt)\<close> over keys of an answer.\<close>

definition first_text :: "(json \<Rightarrow> string) \<Rightarrow> jdict \<Rightarrow> string list \<Rightarrow> string \<Rightarrow> string" where
  "first_text txt d keys dflt =
     (case filter json_truthy (map (jget d) keys) of [] \<Rightarrow> dflt | v # _ \<Rightarrow> txt v)"

definition etoro_place_order :: "string \<Rightarrow> etoro_client \<Rightarrow> execution_order_request \<Rightarrow> broker_result" where
  "etoro_place_order uuid c r =
     (case bindE (et_instrument c (rq_symbol r)) (\<lambda>i. et_open c
             \<lparr>eo_instrument_id = i, eo_is_buy = (upper (rq_side r) = ''BUY''), eo_amount = of_int (rq_qty r),
              eo_stop_loss_rate = rq_stop_loss_rate r, eo_take_profit_rate = rq_take_profit_rate r\<rparr>) of
        Inl e \<Rightarrow> reject uuid ([S ''etoro_error: ''] @ exn_text e)
      | Inr response \<Rightarrow>
          (let oid = first_text (et_text c) response [''positionId'', ''orderId'', ''id''] uuid in
           if response \<noteq> []
           then \<lparr>br_status = ACCEPTED, br_external_order_id = oid, br_fill_price = extract_fill_price response,
                 br_rejection_reason = None\<rparr>
           else \<lparr>br_status = REJECTED, br_external_order_id = oid, br_fill_price = extract_fill_price response,
                 br_rejection_reason = Some [S ''etoro_order_rejected'']\<rparr>))"

definition etoro_close_position ::
  "string \<Rightarrow> etoro_client \<Rightarrow> string \<Rightarrow> int \<Rightarrow> rat option \<Rightarrow> close_fill option" where
  "etoro_close_position uuid c position_id instrument_id units =
     (case et_close c position_id instrument_id units of
        Inl e \<Rightarrow> None
      | Inr response \<Rightarrow> Some \<lparr>cf_order_id = first_text (et_text c) response [''orderId'', ''id''] uuid,
          cf_qty = num_or units 0, cf_side = upper (first_text (et_text c) response [''side''] []),
          cf_fill_price = extract_fill_price response\<rparr>)"

subsection \<open>What the adapters promise\<close>

text \<open>
  The contract the execution service relies on: an order that is not rejected is accepted, a rejected
  one comes with a reason and without a fill.
\<close>

locale placing =
  fixes place :: "'c \<Rightarrow> execution_order_request \<Rightarrow> broker_result"
  assumes verdict: "br_status (place c r) \<in> {ACCEPTED, REJECTED}"
    and refused: "br_status (place c r) = REJECTED \<Longrightarrow> br_fill_price (place c r) = None \<and> br_rejection_reason (place c r) \<noteq> None"
    and accepted: "br_status (place c r) = ACCEPTED \<Longrightarrow> br_rejection_reason (place c r) = None"
begin

lemma fill_means_accepted: "br_fill_price (place c r) = Some p \<Longrightarrow> br_status (place c r) = ACCEPTED"
  using verdict [of c r] refused [of c r] by auto

lemma reason_iff_rejected: "br_rejection_reason (place c r) \<noteq> None \<longleftrightarrow> br_status (place c r) = REJECTED"
  using verdict [of c r] refused [of c r] accepted [of c r] by auto

end

lemma extract_fill_price_empty [simp]: "extract_fill_price [] = None"
  by (simp add: extract_fill_price_def jget_def)

interpretation alpaca: placing "alpaca_place_order paper uuid" for paper uuid
  by unfold_locales (auto simp: alpaca_place_order_def reject_def split: sum.splits)

interpretation etoro: placing "etoro_place_order uuid" for uuid
  by unfold_locales (auto simp: etoro_place_order_def reject_def Let_def split: sum.splits if_splits)

lemma live_alpaca_no_fill: "br_fill_price (alpaca_place_order False uuid c r) = None"
  by (simp add: alpaca_place_order_def reject_def split: sum.splits)

end
