(* ===== verification/Execution_Service.thy ===== *)
theory Execution_Service
  imports Live_Adapters
begin

text \<open>
  \<open>services/execution-service/src/execution_service/main.py\<close>: the two endpoints that reach a broker,
  \<open>create_order\<close> and \<open>close_order\<close>, with the position cap, the records they keep and the symbol check of
  \<open>libs/contracts/src/contracts/sanitize.py\<close>. The state is what the process shares between requests:
  its three tables, the journal, the simulator, the router with its cache, the lifecycle database, and,
  for the statements below, the list of every order handed to an adapter. What one call gets from outside
  (clock, fresh identifiers, prices, venue answers, whether journal and disk respond, the SHA-256 of the
  payload) is the record \<open>call\<close>.
\<close>

subsection \<open>State\<close>

record order_record =
  or_order_id :: string
  or_signal_id :: string
  or_symbol :: string
  or_side :: string
  or_qty :: int
  or_order_type :: string
  or_time_in_force :: string
  or_status :: order_status
  or_external_order_id :: string
  or_idempotency_key :: string
  or_payload_hash :: string
  or_rejection_reason :: "msg option"
  or_created_at :: instant

record fill_record =
  fl_fill_id :: string
  fl_order_id :: string
  fl_external_order_id :: string
  fl_signal_id :: string
  fl_symbol :: string
  fl_side :: string
  fl_qty :: int
  fl_price :: rat
  fl_filled_at :: instant

datatype event_payload =
    SubmittedOrder execution_order_request
  | BrokerOutcome "msg option"
  | RecordedFill fill_record
  | NotPlaced execution_route msg string string bool

record event_record =
  ee_order_id :: string
  ee_external_order_id :: string
  ee_signal_id :: string
  ee_symbol :: string
  ee_event_type :: string
  ee_order_status :: order_status
  ee_payload :: event_payload
  ee_created_at :: instant

record exec_state =
  xs_orders :: "order_record list"
  xs_fills :: "fill_record list"
  xs_events :: "event_record list"
  xs_journal :: journal
  xs_paper :: paper_broker
  xs_router :: broker_router
  xs_lifecycle :: world
  xs_sent :: "(string \<times> adapter \<times> execution_order_request) list"

record call =
  cl_environ :: os_environ
  cl_connect :: "exn + store_settings"
  cl_now :: instant
  cl_order_id :: string
  cl_external_id :: string
  cl_fill_id :: string
  cl_mark :: "string \<Rightarrow> rat option"
  cl_disk_ok :: bool
  cl_paper_config :: paper_config
  cl_alpaca :: alpaca_client
  cl_etoro :: etoro_client
  cl_journal_read :: bool
  cl_journal_write :: bool
  cl_max_position_qty :: int
  cl_digest :: "execution_order_request \<Rightarrow> string"

record order_response =
  os_order_id :: string
  os_external_order_id :: string
  os_signal_id :: string
  os_symbol :: string
  os_side :: string
  os_qty :: int
  os_order_type :: string
  os_time_in_force :: string
  os_status :: order_status
  os_created_at :: instant
  os_rejection_reason :: "msg option"

definition to_response :: "order_record \<Rightarrow> order_response" where
  "to_response o' = \<lparr>os_order_id = or_order_id o', os_external_order_id = or_external_order_id o',
     os_signal_id = or_signal_id o', os_symbol = or_symbol o', os_side = or_side o', os_qty = or_qty o',
     os_order_type = or_order_type o', os_time_in_force = or_time_in_force o', os_status = or_status o',
     os_created_at = or_created_at o', os_rejection_reason = or_rejection_reason o'\<rparr>"

subsection \<open>Helpers\<close>

definition symbol_char :: "char \<Rightarrow> bool" where
  "symbol_char c = (let n = of_char c :: nat in (65 \<le> n \<and> n \<le> 90) \<or> (48 \<le> n \<and> n \<le> 57) \<or> n = 46 \<or> n = 47)"

definition sanitize_symbol :: "string \<Rightarrow> exn + string" where
  "sanitize_symbol s =
     (let cleaned = upper (strip s) in
      if cleaned \<noteq> [] \<and> length cleaned \<le> 20 \<and> list_all symbol_char cleaned then Inr cleaned
      else Inl (HTTPException 422 [S ''Invalid symbol format: '', J (JStr s)]))"

fun status_value :: "order_status \<Rightarrow> string" where
  "status_value NEW = ''NEW''"
| "status_value ACCEPTED = ''ACCEPTED''"
| "status_value PARTIALLY_FILLED = ''PARTIALLY_FILLED''"
| "status_value FILLED = ''FILLED''"
| "status_value REJECTED = ''REJECTED''"
| "status_value CANCELLED = ''CANCELLED''"

definition find_key :: "string \<Rightarrow> exec_state \<Rightarrow> order_record option" where
  "find_key key st = find (\<lambda>o'. or_idempotency_key o' = key) (xs_orders st)"

text \<open>The three unique columns of the \<open>orders\<close> table.\<close>

definition insert_order :: "order_record \<Rightarrow> exec_state \<Rightarrow> exn + exec_state" where
  "insert_order o' st =
     (if list_ex (\<lambda>x. or_order_id x = or_order_id o' \<or> or_external_order_id x = or_external_order_id o' \<or>
                    or_idempotency_key x = or_idempotency_key o') (xs_orders st)
      then Inl (IntegrityError ''orders'')
      else Inr (st\<lparr>xs_orders := xs_orders st @ [o']\<rparr>))"

definition persist_event :: "order_record \<Rightarrow> string \<Rightarrow> event_payload \<Rightarrow> exec_state \<Rightarrow> exec_state" where
  "persist_event o' ty payload st = st\<lparr>xs_events := xs_events st @ [\<lparr>ee_order_id = or_order_id o',
     ee_external_order_id = or_external_order_id o', ee_signal_id = or_signal_id o', ee_symbol = or_symbol o',
     ee_event_type = ty, ee_order_status = or_status o', ee_payload = payload, ee_created_at = or_created_at o'\<rparr>]\<rparr>"

definition fill_of :: "string \<Rightarrow> order_record \<Rightarrow> rat \<Rightarrow> fill_record" where
  "fill_of fid o' price = \<lparr>fl_fill_id = fid, fl_order_id = or_order_id o', fl_external_order_id = or_external_order_id o',
     fl_signal_id = or_signal_id o', fl_symbol = or_symbol o', fl_side = or_side o', fl_qty = or_qty o', fl_price = price,
     fl_filled_at = or_created_at o'\<rparr>"

definition persist_fill :: "string \<Rightarrow> order_record \<Rightarrow> rat \<Rightarrow> exec_state \<Rightarrow> fill_record \<times> exec_state" where
  "persist_fill fid o' price st = (let f = fill_of fid o' price in (f, st\<lparr>xs_fills := xs_fills st @ [f]\<rparr>))"

definition environment_of_route :: "routed_order \<Rightarrow> string" where
  "environment_of_route routed = (if is_live (ro_decision routed) then ''live'' else ''paper'')"

definition dust :: rat where
  "dust = 1 / 1000000000"

definition signed_request :: "execution_order_request \<Rightarrow> rat" where
  "signed_request r = (if upper (rq_side r) = ''BUY'' then of_int (rq_qty r) else - of_int (rq_qty r))"

abbreviation plus_g :: "rat \<Rightarrow> piece" where
  "plus_g x \<equiv> F ''+g'' (Fin x)"

definition position_cap_refusal :: "call \<Rightarrow> execution_order_request \<Rightarrow> routed_order \<Rightarrow> journal \<Rightarrow> msg option" where
  "position_cap_refusal cl r routed j =
     (case net_position (cl_journal_read cl) (rq_strategy_id r) (rq_symbol r) (environment_of_route routed)
             (rq_account_id r) j of
        None \<Rightarrow> Some [S ''position_unknowable: the journal cannot say what this sleeve already holds, so the order is refused'']
      | Some held \<Rightarrow>
          (let signed = signed_request r; new_net = held + signed in
           if rq_reduce_only r then
             (if \<bar>held\<bar> \<le> dust then Some [S ''reduce_only_no_position'']
              else if 0 \<le> held * signed
              then Some [S ''reduce_only_wrong_side: holding '', plus_g held, S '', order '', plus_g signed,
                         S '' would increase exposure'']
              else if \<bar>held\<bar> + dust < \<bar>signed\<bar>
              then Some [S ''reduce_only_exceeds_position: holding '', plus_g held, S '', order '', plus_g signed,
                         S '' could reverse the position'']
              else if \<bar>held\<bar> + dust < \<bar>new_net\<bar> then Some [S ''reduce_only_invariant_failed'']
              else None)
           else
             (let cap = of_int (cl_max_position_qty cl) in
              if cap < \<bar>new_net\<bar> \<and> \<bar>held\<bar> < \<bar>new_net\<bar>
              then Some [S ''position_cap: '', plus_g held, S '' '', plus_g signed, S '' would hold '', plus_g new_net,
                         S '' against a cap of '', F ''g'' (Fin cap), S '' for '', S (rq_strategy_id r), S ''/'', S (rq_symbol r)]
              else None)))"

definition record_unplaced ::
  "call \<Rightarrow> execution_order_request \<Rightarrow> routed_order \<Rightarrow> string \<Rightarrow> string \<Rightarrow> msg option \<Rightarrow> exec_state
     \<Rightarrow> (exn + order_response) \<times> exec_state" where
  "record_unplaced cl r routed key payload_hash reason0 st =
     (let reason = (case reason0 of Some m \<Rightarrow> m | None \<Rightarrow> route_reason (ro_decision routed));
          rt = route (ro_decision routed);
          order = \<lparr>or_order_id = cl_order_id cl, or_signal_id = rq_signal_id r, or_symbol = rq_symbol r,
            or_side = rq_side r, or_qty = rq_qty r, or_order_type = rq_order_type r,
            or_time_in_force = rq_time_in_force r, or_status = REJECTED,
            or_external_order_id = ''unplaced-'' @ cl_external_id cl, or_idempotency_key = key,
            or_payload_hash = payload_hash,
            or_rejection_reason = Some ([S (route_value rt), S '': ''] @ reason), or_created_at = cl_now cl\<rparr>
      in case insert_order order st of
           Inl e \<Rightarrow> (Inl e, st)
         | Inr st' \<Rightarrow>
             (Inr (to_response order),
              persist_event order ''order.not_placed''
                (NotPlaced rt reason (rq_strategy_id r) (rq_account_id r) (rq_reduce_only r)) st'))"

definition adapter_place ::
  "call \<Rightarrow> adapter \<Rightarrow> execution_order_request \<Rightarrow> paper_broker \<Rightarrow> broker_result \<times> paper_broker" where
  "adapter_place cl a r pb =
     (case a of
        PaperBroker \<Rightarrow> paper_place_order (cl_paper_config cl) (cl_mark cl) (cl_disk_ok cl) (cl_external_id cl) (cl_now cl) r pb
      | AlpacaBroker paper \<Rightarrow> (alpaca_place_order paper (cl_external_id cl) (cl_alpaca cl) r, pb)
      | EtoroBroker demo \<Rightarrow> (etoro_place_order (cl_external_id cl) (cl_etoro cl) r, pb))"

text \<open>\<open>_record_execution_quality\<close>: the report, and its recording, which never raises.\<close>

definition quality_report :: "execution_order_request \<Rightarrow> order_record \<Rightarrow> broker_result \<Rightarrow> routed_order \<Rightarrow> execution_report" where
  "quality_report r o' res routed = \<lparr>rp_symbol = rq_symbol r, rp_side = rq_side r, rp_qty = of_int (rq_qty r),
     rp_decision_price = rq_decision_price r, rp_fill_price = br_fill_price res, rp_order_type = rq_order_type r,
     rp_limit_price = rq_limit_price r, rp_order_id = or_order_id o', rp_signal_id = rq_signal_id r,
     rp_outcome = (case br_rejection_reason res of
                     None \<Rightarrow> [S (lower (status_value (br_status res)))]
                   | Some m \<Rightarrow> msg_or m [S (lower (status_value (br_status res)))]),
     rp_strategy_id = rq_strategy_id r, rp_strategy_version = ro_strategy_version routed,
     rp_environment = environment_of_route routed, rp_account_id = rq_account_id r, rp_broker = ro_adapter_name routed\<rparr>"

definition journal_report :: "call \<Rightarrow> execution_report \<Rightarrow> exec_state \<Rightarrow> exec_state" where
  "journal_report cl rep st = st\<lparr>xs_journal := snd (record_execution (cl_now cl) (cl_journal_write cl) rep (xs_journal st))\<rparr>"

subsection \<open>Submitting an order\<close>

text \<open>
  From the moment all checks have passed. \<open>others\<close> is what other requests do between those checks and
  this request's own effects; it is the identity when requests do not overlap.
\<close>

definition submit_order ::
  "call \<Rightarrow> (exec_state \<Rightarrow> exec_state) \<Rightarrow> execution_order_request \<Rightarrow> string \<Rightarrow> string \<Rightarrow> routed_order \<Rightarrow> adapter \<Rightarrow> exec_state
     \<Rightarrow> (exn + order_response) \<times> exec_state" where
  "submit_order cl others r key payload_hash routed a st0 =
     (let st1 = others st0;
          (res, pb) = adapter_place cl a r (xs_paper st1);
          st2 = st1\<lparr>xs_paper := pb, xs_sent := xs_sent st1 @ [(key, a, r)]\<rparr>;
          order = \<lparr>or_order_id = cl_order_id cl, or_signal_id = rq_signal_id r, or_symbol = rq_symbol r,
            or_side = rq_side r, or_qty = rq_qty r, or_order_type = rq_order_type r,
            or_time_in_force = rq_time_in_force r, or_status = br_status res,
            or_external_order_id = br_external_order_id res, or_idempotency_key = key,
            or_payload_hash = payload_hash, or_rejection_reason = br_rejection_reason res, or_created_at = cl_now cl\<rparr>
      in case insert_order order st2 of
           Inl e \<Rightarrow>
             (case find_key key st2 of
                Some o' \<Rightarrow> if or_payload_hash o' = payload_hash then (Inr (to_response o'), st2)
                           else (Inl (HTTPException 409 [S ''Idempotency key payload mismatch'']), st2)
              | None \<Rightarrow> (Inl (HTTPException 409 [S ''Idempotency key payload mismatch'']), st2))
         | Inr st3 \<Rightarrow>
             (let st4 = persist_event order ''order.submitted'' (SubmittedOrder r) st3;
                  st5 = persist_event order (''order.'' @ lower (status_value (or_status order)))
                          (BrokerOutcome (br_rejection_reason res)) st4;
                  st6 = journal_report cl (quality_report r order res routed) st5;
                  st7 = (case br_fill_price res of
                           Some p \<Rightarrow>
                             if br_status res \<in> {ACCEPTED, FILLED, PARTIALLY_FILLED} then
                               (let (f, st') = persist_fill (cl_fill_id cl) order p st6
                                in persist_event order ''fill.recorded'' (RecordedFill f) st')
                             else st6
                         | None \<Rightarrow> st6)
              in (Inr (to_response order), st7)))"

definition explicit_identity :: "string list \<Rightarrow> bool" where
  "explicit_identity fields_set = ({''strategy_id'', ''account_id''} \<subseteq> set fields_set)"

definition create_order ::
  "call \<Rightarrow> (exec_state \<Rightarrow> exec_state) \<Rightarrow> execution_order_request \<Rightarrow> string \<Rightarrow> exec_state
     \<Rightarrow> (exn + order_response) \<times> exec_state" where
  "create_order cl others request key st =
     (case sanitize_symbol (rq_symbol request) of
        Inl e \<Rightarrow> (Inl e, st)
      | Inr symbol \<Rightarrow>
          (let r = request\<lparr>rq_symbol := symbol\<rparr>; payload_hash = cl_digest cl r in
           case find_key key st of
             Some o' \<Rightarrow>
               if or_payload_hash o' \<noteq> payload_hash
               then (Inl (HTTPException 409 [S ''Idempotency key payload mismatch'']), st)
               else (Inr (to_response o'), st)
           | None \<Rightarrow>
               (case route_order (cl_environ cl) (cl_connect cl) (cl_now cl) (rq_strategy_id r) (rq_symbol r)
                       (rq_account_id r) (rq_reduce_only r) (xs_router st) (xs_lifecycle st) of
                  (Inl e, rt, w) \<Rightarrow> (Inl e, st\<lparr>xs_router := rt, xs_lifecycle := w\<rparr>)
                | (Inr routed, rt, w) \<Rightarrow>
                    (let st1 = st\<lparr>xs_router := rt, xs_lifecycle := w\<rparr>; live = is_live (ro_decision routed) in
                     case ro_adapter routed of
                       None \<Rightarrow> record_unplaced cl r routed key payload_hash None st1
                     | Some a \<Rightarrow>
                         if \<not> ro_places_order routed then record_unplaced cl r routed key payload_hash None st1
                         else if live \<and> \<not> explicit_identity (rq_fields_set r)
                         then record_unplaced cl r routed key payload_hash
                                (Some [S ''live_order_requires_explicit_strategy_and_account'']) st1
                         else
                           (case position_cap_refusal cl r routed (xs_journal st1) of
                              Some reason \<Rightarrow> record_unplaced cl r routed key payload_hash (Some reason) st1
                            | None \<Rightarrow>
                                (case (if live then assert_not_live (route (ro_decision routed)) (ro_adapter_name routed)
                                       else Inr ()) of
                                   Inl e \<Rightarrow> (Inl e, st1)
                                 | Inr u \<Rightarrow> submit_order cl others r key payload_hash routed a st1))))))"

subsection \<open>Closing a position\<close>

record close_request =
  cq_symbol :: string
  cq_position_id :: string
  cq_signal_id :: string
  cq_units :: "rat option"
  cq_qty :: "rat option"
  cq_strategy_id :: string
  cq_account_id :: string
  cq_fields_set :: "string list"

record close_response =
  cs_status :: string
  cs_symbol :: string
  cs_position_id :: string
  cs_signal_id :: string
  cs_environment :: string
  cs_broker :: string

definition paper_close_fill :: "paper_order \<Rightarrow> close_fill" where
  "paper_close_fill o' = \<lparr>cf_order_id = po_order_id o', cf_qty = po_qty o', cf_side = po_side o',
     cf_fill_price = Some (po_fill_price o')\<rparr>"

text \<open>
  The calls on the adapter: the identity check and the instrument lookup that only eToro has, then the
  close. \<open>ValueError\<close> becomes 404; any other exception of the lookup is not caught.
\<close>

definition adapter_close ::
  "call \<Rightarrow> adapter \<Rightarrow> close_request \<Rightarrow> rat option \<Rightarrow> paper_broker \<Rightarrow> (exn + close_fill option) \<times> paper_broker" where
  "adapter_close cl a q units pb =
     (case a of
        PaperBroker \<Rightarrow>
          (case paper_close_position (cl_paper_config cl) (cl_mark cl) (cl_disk_ok cl) (cl_external_id cl) (cl_now cl)
                  (cq_position_id q) units (Some (cq_symbol q)) pb of
             (f, pb') \<Rightarrow> (Inr (map_option paper_close_fill f), pb'))
      | AlpacaBroker paper \<Rightarrow>
          (case alpaca_close_position (cl_alpaca cl) units (cq_symbol q) of
             Inl (ValueError m) \<Rightarrow> (Inl (HTTPException 404 m), pb)
           | x \<Rightarrow> (x, pb))
      | EtoroBroker demo \<Rightarrow>
          (case filter (\<lambda>p. upper (bp_symbol p) = cq_symbol q \<and> bp_position_id p = Some (cq_position_id q))
                  (et_positions (cl_etoro cl)) of
             [] \<Rightarrow> (Inl (HTTPException 409 [S ''position_id_does_not_match_symbol'']), pb)
           | p # _ \<Rightarrow>
               if (case units of None \<Rightarrow> False | Some u \<Rightarrow> \<bar>bp_qty p\<bar> < u)
               then (Inl (HTTPException 422 [S ''close_units_exceed_broker_position'']), pb)
               else
                 (case et_instrument (cl_etoro cl) (cq_symbol q) of
                    Inl (ValueError m) \<Rightarrow> (Inl (HTTPException 404 m), pb)
                  | Inl e \<Rightarrow> (Inl e, pb)
                  | Inr i \<Rightarrow> (Inr (etoro_close_position (cl_external_id cl) (cl_etoro cl) (cq_position_id q) i units), pb))))"

definition close_qty :: "close_fill \<Rightarrow> rat option \<Rightarrow> rat" where
  "close_qty f units = (if cf_qty f \<noteq> 0 then cf_qty f else num_or units 0)"

definition fill_confirmed :: "close_fill \<Rightarrow> rat option \<Rightarrow> bool" where
  "fill_confirmed f units = (cf_fill_price f \<notin> {None, Some 0} \<and> cf_side f \<noteq> [] \<and> 0 < close_qty f units)"

definition close_report :: "close_request \<Rightarrow> close_fill \<Rightarrow> rat option \<Rightarrow> routed_order \<Rightarrow> execution_report" where
  "close_report q f units routed = \<lparr>rp_symbol = cq_symbol q, rp_side = cf_side f, rp_qty = close_qty f units,
     rp_decision_price = None, rp_fill_price = cf_fill_price f, rp_order_type = ''MARKET'', rp_limit_price = None,
     rp_order_id = (if cf_order_id f \<noteq> [] then cf_order_id f else cq_position_id q), rp_signal_id = cq_signal_id q,
     rp_outcome = [S ''closed''], rp_strategy_id = cq_strategy_id q, rp_strategy_version = ro_strategy_version routed,
     rp_environment = environment_of_route routed, rp_account_id = cq_account_id q, rp_broker = ro_adapter_name routed\<rparr>"

definition close_order ::
  "call \<Rightarrow> close_request \<Rightarrow> exec_state \<Rightarrow> (exn + close_response) \<times> exec_state" where
  "close_order cl request st =
     (case sanitize_symbol (cq_symbol request) of
        Inl e \<Rightarrow> (Inl e, st)
      | Inr symbol \<Rightarrow>
          (let q = request\<lparr>cq_symbol := symbol\<rparr> in
           case route_order (cl_environ cl) (cl_connect cl) (cl_now cl) (cq_strategy_id q) (cq_symbol q)
                  (cq_account_id q) True (xs_router st) (xs_lifecycle st) of
             (Inl e, rt, w) \<Rightarrow> (Inl e, st\<lparr>xs_router := rt, xs_lifecycle := w\<rparr>)
           | (Inr routed, rt, w) \<Rightarrow>
               (let st1 = st\<lparr>xs_router := rt, xs_lifecycle := w\<rparr>;
                    unroutable = HTTPException 409 ([S ''close_not_routable: ''] @ route_reason (ro_decision routed)) in
                case ro_adapter routed of
                  None \<Rightarrow> (Inl unroutable, st1)
                | Some a \<Rightarrow>
                    if \<not> ro_places_order routed then (Inl unroutable, st1)
                    else if is_live (ro_decision routed) \<and> \<not> explicit_identity (cq_fields_set q)
                    then (Inl (HTTPException 422 [S ''live_close_requires_explicit_strategy_and_account'']), st1)
                    else
                      (let units = (case cq_units request of Some u \<Rightarrow> Some u | None \<Rightarrow> cq_qty request) in
                       case adapter_close cl a q units (xs_paper st1) of
                         (Inl e, pb) \<Rightarrow> (Inl e, st1\<lparr>xs_paper := pb\<rparr>)
                       | (Inr None, pb) \<Rightarrow> (Inl (HTTPException 502 [S ''position_close_failed'']), st1\<lparr>xs_paper := pb\<rparr>)
                       | (Inr (Some f), pb) \<Rightarrow>
                           (let st2 = st1\<lparr>xs_paper := pb\<rparr>; ok = fill_confirmed f units;
                                st3 = (if ok then journal_report cl (close_report q f units routed) st2 else st2)
                            in (Inr \<lparr>cs_status = (if ok then ''closed'' else ''close_submitted''), cs_symbol = cq_symbol q,
                                     cs_position_id = cq_position_id q, cs_signal_id = cq_signal_id q,
                                     cs_environment = environment_of_route routed, cs_broker = ro_adapter_name routed\<rparr>,
                                st3))))))"

end
