(* ===== verification/Order_Flow.thy ===== *)
theory Order_Flow
  imports Execution_Service
begin

text \<open>
  What the order endpoint of \<open>Execution_Service\<close> guarantees over its whole life: one order per idempotency
  key, and the position cap.
\<close>

subsection \<open>One call\<close>

lemma insert_order_Inr:
  "insert_order o' st = Inr st' \<longleftrightarrow>
     st' = st\<lparr>xs_orders := xs_orders st @ [o']\<rparr> \<and>
     or_order_id o' \<notin> or_order_id ` set (xs_orders st) \<and>
     or_external_order_id o' \<notin> or_external_order_id ` set (xs_orders st) \<and>
     or_idempotency_key o' \<notin> or_idempotency_key ` set (xs_orders st)"
  by (auto simp: insert_order_def list_ex_iff image_iff split: if_splits) metis+

lemma insert_order_Inl:
  assumes "insert_order o' st = Inl e"
  shows "or_order_id o' \<in> or_order_id ` set (xs_orders st) \<or>
    or_external_order_id o' \<in> or_external_order_id ` set (xs_orders st) \<or>
    or_idempotency_key o' \<in> or_idempotency_key ` set (xs_orders st)"
  using assms by (auto simp: insert_order_def list_ex_iff split: if_splits) (metis image_eqI)+

lemma find_key_None: "find_key key st = None \<longleftrightarrow> key \<notin> or_idempotency_key ` set (xs_orders st)"
  by (auto simp: find_key_def find_None_iff image_iff)

lemma find_key_Some: "find_key key st = Some o' \<Longrightarrow> o' \<in> set (xs_orders st) \<and> or_idempotency_key o' = key"
  by (auto simp: find_key_def find_Some_iff)

lemma find_append: "find p (xs @ [x]) = (case find p xs of Some y \<Rightarrow> Some y | None \<Rightarrow> if p x then Some x else None)"
  by (induction xs) auto

lemma find_key_inserted:
  "or_idempotency_key o' \<notin> or_idempotency_key ` set (xs_orders st) \<Longrightarrow>
   find_key (or_idempotency_key o') (st\<lparr>xs_orders := xs_orders st @ [o']\<rparr>) = Some o'"
  using find_key_None [of "or_idempotency_key o'" st] by (simp add: find_key_def find_append)

lemma find_key_orders: "xs_orders st = xs_orders st' \<Longrightarrow> find_key key st = find_key key st'"
  by (simp add: find_key_def)

lemma persist_sel [simp]:
  "xs_orders (persist_event o' ty p st) = xs_orders st" "xs_journal (persist_event o' ty p st) = xs_journal st"
  "xs_paper (persist_event o' ty p st) = xs_paper st" "xs_sent (persist_event o' ty p st) = xs_sent st"
  "xs_orders (journal_report cl rep st) = xs_orders st" "xs_paper (journal_report cl rep st) = xs_paper st"
  "xs_sent (journal_report cl rep st) = xs_sent st"
  "xs_journal (journal_report cl rep st) = snd (record_execution (cl_now cl) (cl_journal_write cl) rep (xs_journal st))"
  by (simp_all add: persist_event_def journal_report_def)

lemma persist_fill_sel [simp]:
  "xs_orders (snd (persist_fill fid o' p st)) = xs_orders st" "xs_journal (snd (persist_fill fid o' p st)) = xs_journal st"
  "xs_paper (snd (persist_fill fid o' p st)) = xs_paper st" "xs_sent (snd (persist_fill fid o' p st)) = xs_sent st"
  by (simp_all add: persist_fill_def Let_def)

text \<open>A call either keeps everything but the tables and the router, or passes every check and submits.\<close>

definition moved_on :: "exec_state \<Rightarrow> broker_router \<Rightarrow> world \<Rightarrow> exec_state" where
  "moved_on st rt w = st\<lparr>xs_router := rt, xs_lifecycle := w\<rparr>"

lemma moved_on_sel [simp]:
  "xs_orders (moved_on st rt w) = xs_orders st" "xs_journal (moved_on st rt w) = xs_journal st"
  "xs_paper (moved_on st rt w) = xs_paper st" "xs_sent (moved_on st rt w) = xs_sent st"
  by (simp_all add: moved_on_def)

definition passes :: "call \<Rightarrow> execution_order_request \<Rightarrow> string \<Rightarrow> exec_state \<Rightarrow> routed_order \<Rightarrow> adapter \<Rightarrow> broker_router \<Rightarrow> world \<Rightarrow> bool" where
  "passes cl r key st routed a rt w =
     (find_key key st = None \<and>
      route_order (cl_environ cl) (cl_connect cl) (cl_now cl) (rq_strategy_id r) (rq_symbol r) (rq_account_id r)
        (rq_reduce_only r) (xs_router st) (xs_lifecycle st) = (Inr routed, rt, w) \<and>
      ro_adapter routed = Some a \<and> ro_places_order routed \<and>
      (is_live (ro_decision routed) \<longrightarrow> explicit_identity (rq_fields_set r)) \<and>
      position_cap_refusal cl r routed (xs_journal st) = None)"

lemma record_unplaced_cases:
  assumes "record_unplaced cl r routed key h reason st = (res, st')"
  shows "xs_journal st' = xs_journal st \<and> xs_paper st' = xs_paper st \<and> xs_sent st' = xs_sent st \<and>
    ((\<exists>o'. or_idempotency_key o' = key \<and> or_payload_hash o' = h \<and> res = Inr (to_response o') \<and>
        key \<notin> or_idempotency_key ` set (xs_orders st) \<and> xs_orders st' = xs_orders st @ [o']) \<or>
     (\<exists>e. res = Inl e) \<and> st' = st)"
  using assms
  by (auto simp: record_unplaced_def Let_def insert_order_Inr split: sum.splits)

lemma create_order_cases:
  assumes "create_order cl others req key st = (res, st')"
  obtains (quiet) "xs_journal st' = xs_journal st" "xs_paper st' = xs_paper st" "xs_sent st' = xs_sent st"
      "\<And>resp sy. res = Inr resp \<Longrightarrow> sanitize_symbol (rq_symbol req) = Inr sy \<Longrightarrow>
         \<exists>o'. find_key key st' = Some o' \<and> or_payload_hash o' = cl_digest cl (req\<lparr>rq_symbol := sy\<rparr>) \<and> to_response o' = resp"
      "xs_orders st' = xs_orders st \<or> (\<exists>o'. xs_orders st' = xs_orders st @ [o'] \<and>
         or_idempotency_key o' = key \<and> find_key key st = None)"
  | (submit) sy routed a rt w where "sanitize_symbol (rq_symbol req) = Inr sy"
      "passes cl (req\<lparr>rq_symbol := sy\<rparr>) key st routed a rt w"
      "submit_order cl others (req\<lparr>rq_symbol := sy\<rparr>) key (cl_digest cl (req\<lparr>rq_symbol := sy\<rparr>)) routed a (moved_on st rt w)
         = (res, st')"
proof (cases "sanitize_symbol (rq_symbol req)")
  case (Inl e)
  with assms show thesis by (intro quiet) (auto simp: create_order_def)
next
  case (Inr sy)
  let ?r = "req\<lparr>rq_symbol := sy\<rparr>"
  show thesis
  proof (cases "find_key key st")
    case (Some o')
    with assms Inr show thesis by (intro quiet) (auto simp: create_order_def Let_def split: if_splits)
  next
    case None
    obtain x rt w where ro: "route_order (cl_environ cl) (cl_connect cl) (cl_now cl) (rq_strategy_id ?r) (rq_symbol ?r)
        (rq_account_id ?r) (rq_reduce_only ?r) (xs_router st) (xs_lifecycle st) = (x, rt, w)"
      by (metis prod_cases3)
    show thesis
    proof (cases x)
      case (Inl e)
      with assms Inr None ro show thesis by (intro quiet) (auto simp: create_order_def Let_def)
    next
      case r: (Inr routed)
      consider (unplaced) reason where "record_unplaced cl ?r routed key (cl_digest cl ?r) reason (moved_on st rt w) = (res, st')"
        | (failed) e where "res = Inl e" "st' = moved_on st rt w"
        | (go) a where "passes cl ?r key st routed a rt w"
            "submit_order cl others ?r key (cl_digest cl ?r) routed a (moved_on st rt w) = (res, st')"
        using assms Inr None ro r
        by (fastforce simp: create_order_def Let_def passes_def moved_on_def split: option.splits if_splits sum.splits)
      then show thesis
      proof cases
        case unplaced
        note u = record_unplaced_cases [OF unplaced]
        show thesis
        proof (cases res)
          case (Inl e)
          with u show thesis by (intro quiet) auto
        next
          case r: (Inr resp)
          from u r obtain o' where o': "or_idempotency_key o' = key" "or_payload_hash o' = cl_digest cl ?r"
            "resp = to_response o'" "xs_orders st' = xs_orders st @ [o']" by auto
          then have "find_key key st' = Some o'" using None by (simp add: find_key_def find_append)
          with u r o' Inr None show thesis by (intro quiet) auto
        qed
      next
        case failed
        then show thesis by (intro quiet) auto
      next
        case go
        with Inr show thesis by (intro submit)
      qed
    qed
  qed
qed

lemma submit_order_cases:
  assumes "submit_order cl others r key h routed a st = (res, st')"
    and pl: "adapter_place cl a r (xs_paper (others st)) = (bres, pb)"
  obtains (clash) "xs_orders st' = xs_orders (others st)" "xs_journal st' = xs_journal (others st)"
      "xs_paper st' = pb" "xs_sent st' = xs_sent (others st) @ [(key, a, r)]"
      "\<And>resp. res = Inr resp \<Longrightarrow> \<exists>o'. find_key key st' = Some o' \<and> or_payload_hash o' = h \<and> to_response o' = resp"
      "cl_order_id cl \<in> or_order_id ` set (xs_orders (others st)) \<or>
       br_external_order_id bres \<in> or_external_order_id ` set (xs_orders (others st)) \<or>
       key \<in> or_idempotency_key ` set (xs_orders (others st))"
  | (placed) o' where "xs_orders st' = xs_orders (others st) @ [o']" "or_idempotency_key o' = key"
      "or_payload_hash o' = h" "res = Inr (to_response o')" "key \<notin> or_idempotency_key ` set (xs_orders (others st))"
      "xs_journal st' = snd (record_execution (cl_now cl) (cl_journal_write cl) (quality_report r o' bres routed)
         (xs_journal (others st)))"
      "xs_paper st' = pb" "xs_sent st' = xs_sent (others st) @ [(key, a, r)]"
proof -
  let ?st = "(others st)\<lparr>xs_paper := pb, xs_sent := xs_sent (others st) @ [(key, a, r)]\<rparr>"
  let ?o = "\<lparr>or_order_id = cl_order_id cl, or_signal_id = rq_signal_id r, or_symbol = rq_symbol r,
            or_side = rq_side r, or_qty = rq_qty r, or_order_type = rq_order_type r,
            or_time_in_force = rq_time_in_force r, or_status = br_status bres,
            or_external_order_id = br_external_order_id bres, or_idempotency_key = key,
            or_payload_hash = h, or_rejection_reason = br_rejection_reason bres, or_created_at = cl_now cl\<rparr>"
  show thesis
  proof (cases "insert_order ?o ?st")
    case (Inl e)
    from assms Inl insert_order_Inl [OF Inl] show thesis
      by (intro clash) (auto simp: submit_order_def Let_def find_key_def split: if_splits option.splits)
  next
    case (Inr st3)
    with assms show thesis
      by (intro placed [of ?o]) (auto simp: submit_order_def Let_def insert_order_Inr case_prod_unfold split: option.splits)
  qed
qed

lemma find_key_appended:
  fixes st st' :: exec_state
  assumes "xs_orders st' = xs_orders st @ [o']" and "key \<notin> or_idempotency_key ` set (xs_orders st)"
    and "or_idempotency_key o' = key"
  shows "find_key key st' = Some o'"
  using assms find_key_None [of key st] by (simp add: find_key_def find_append)

text \<open>An answered call leaves its key behind, with the digest of its payload and its answer.\<close>

lemma answered_key:
  assumes "create_order cl others req key st = (Inr resp, st')" and "sanitize_symbol (rq_symbol req) = Inr sy"
  shows "\<exists>o'. find_key key st' = Some o' \<and> or_payload_hash o' = cl_digest cl (req\<lparr>rq_symbol := sy\<rparr>) \<and> to_response o' = resp"
  using assms(1)
proof (cases rule: create_order_cases)
  case quiet
  with assms show ?thesis by blast
next
  case (submit sy' routed a rt w)
  obtain bres pb where "adapter_place cl a (req\<lparr>rq_symbol := sy'\<rparr>) (xs_paper (others (moved_on st rt w))) = (bres, pb)"
    by fastforce
  from submit(3) this show ?thesis
  proof (cases rule: submit_order_cases)
    case clash
    with submit(1) assms(2) show ?thesis by auto
  next
    case (placed o')
    from find_key_appended [OF placed(1,5,2)] placed(3,4) submit(1) assms(2) show ?thesis by auto
  qed
qed

lemma create_order_known:
  assumes "sanitize_symbol (rq_symbol req) = Inr sy" and "find_key key st = Some o'"
  shows "create_order cl others req key st =
    (if or_payload_hash o' = cl_digest cl (req\<lparr>rq_symbol := sy\<rparr>) then Inr (to_response o')
     else Inl (HTTPException 409 [S ''Idempotency key payload mismatch'']), st)"
  using assms by (simp add: create_order_def Let_def)

subsection \<open>Idempotency\<close>

text \<open>
  an answered key is used up. Once a request has been answered, with a fill, a rejection or a refusal,
  the next request under the same key changes nothing and reaches no broker, whatever the route, the cap
  or the venue would say by then: the same payload gets the same answer again, any other payload a 409.
\<close>

theorem answered_key_is_used_up:
  assumes "create_order cl others req key st = (Inr resp, st')"
    and "sanitize_symbol (rq_symbol req) = Inr sy" and "sanitize_symbol (rq_symbol req') = Inr sy'"
    and "cl_digest cl' = cl_digest cl"
  shows "create_order cl' others' req' key st' =
    (if cl_digest cl (req'\<lparr>rq_symbol := sy'\<rparr>) = cl_digest cl (req\<lparr>rq_symbol := sy\<rparr>) then Inr resp
     else Inl (HTTPException 409 [S ''Idempotency key payload mismatch'']), st')"
proof -
  obtain o' where o': "find_key key st' = Some o'" "or_payload_hash o' = cl_digest cl (req\<lparr>rq_symbol := sy\<rparr>)"
    "to_response o' = resp"
    using answered_key [OF assms(1,2)] by blast
  from create_order_known [OF assms(3) o'(1)] show ?thesis by (simp add: o' assms(4))
qed

subsection \<open>The service as a machine\<close>

text \<open>
  Identifiers are fresh: a UUID has not been used before, and a venue does not hand out the same order
  number twice.
\<close>

definition fresh_ids :: "call \<Rightarrow> exec_state \<Rightarrow> bool" where
  "fresh_ids cl st = (cl_order_id cl \<notin> or_order_id ` set (xs_orders st) \<and>
     (\<forall>a r. br_external_order_id (fst (adapter_place cl a r (xs_paper st))) \<notin> or_external_order_id ` set (xs_orders st)))"

text \<open>
  Requests one after the other; between them the lifecycle database moves and the process may restart
  with another router.
\<close>

inductive exec_step :: "exec_state \<Rightarrow> exec_state \<Rightarrow> bool" where
  order: "fresh_ids cl st \<Longrightarrow> create_order cl (\<lambda>s. s) req key st = (res, st') \<Longrightarrow> exec_step st st'"
| close: "close_order cl q st = (cres, st') \<Longrightarrow> exec_step st st'"
| outside: "exec_step st (moved_on st rt w)"

definition exec_init :: "exec_state \<Rightarrow> bool" where
  "exec_init st = (xs_orders st = [] \<and> xs_sent st = [])"

definition sent_once :: "exec_state \<Rightarrow> bool" where
  "sent_once st = (distinct (map fst (xs_sent st)) \<and> fst ` set (xs_sent st) \<subseteq> or_idempotency_key ` set (xs_orders st))"

lemma close_order_keeps:
  assumes "close_order cl q st = (res, st')"
  shows "xs_orders st' = xs_orders st \<and> xs_sent st' = xs_sent st"
  using assms
  by (auto simp: close_order_def Let_def split: sum.splits prod.splits option.splits if_splits)

lemma create_order_sent_once:
  assumes "sent_once st" and "fresh_ids cl st" and "create_order cl (\<lambda>s. s) req key st = (res, st')"
  shows "sent_once st'"
  using assms(3)
proof (cases rule: create_order_cases)
  case quiet
  from quiet(5) assms(1) show ?thesis by (auto simp: sent_once_def quiet(3))
next
  case (submit sy routed a rt w)
  let ?r = "req\<lparr>rq_symbol := sy\<rparr>"
  have key: "key \<notin> or_idempotency_key ` set (xs_orders st)"
    using submit(2) find_key_None by (auto simp: passes_def)
  obtain bres pb where pl: "adapter_place cl a ?r (xs_paper (moved_on st rt w)) = (bres, pb)" by fastforce
  have ext: "br_external_order_id bres \<notin> or_external_order_id ` set (xs_orders st)"
    using assms(2) pl by (metis fresh_ids_def fst_conv moved_on_sel(3))
  from submit(3) pl show ?thesis
  proof (cases rule: submit_order_cases)
    case clash
    with key ext assms(2) show ?thesis by (auto simp: fresh_ids_def)
  next
    case (placed o')
    with key assms(1) show ?thesis by (auto simp: sent_once_def image_iff)
  qed
qed

interpretation exec: invariant_system exec_init exec_step sent_once
proof unfold_locales
  show "sent_once s" if "exec_init s" for s using that by (simp add: exec_init_def sent_once_def)
  show "sent_once t" if "sent_once s" and "exec_step s t" for s t
    using that(2)
  proof cases
    case (order cl req key res)
    from create_order_sent_once [OF that(1) order] show ?thesis .
  next
    case (close cl q cres)
    from close_order_keeps [OF close] that(1) show ?thesis by (simp add: sent_once_def)
  next
    case (outside rt w)
    with that(1) show ?thesis by (simp add: sent_once_def)
  qed
qed

text \<open>A process without a lifecycle database: every order goes to the simulator.\<close>

definition demo_call :: "string \<Rightarrow> call" where
  "demo_call uuid = \<lparr>cl_environ = Map.empty, cl_connect = Inl (DatabaseError []), cl_now = 1, cl_order_id = uuid,
     cl_external_id = uuid, cl_fill_id = uuid, cl_mark = (\<lambda>_. Some 5), cl_disk_ok = True, cl_paper_config = demo_config,
     cl_alpaca = \<lparr>al_submit = (\<lambda>_. Inr uuid), al_polls = [], al_close = (\<lambda>_ _. Inl (DatabaseError []))\<rparr>,
     cl_etoro = \<lparr>et_instrument = (\<lambda>_. Inl (ValueError [])), et_open = (\<lambda>_. Inl (ValueError [])),
       et_close = (\<lambda>_ _ _. Inl (ValueError [])), et_positions = [], et_text = (\<lambda>_. uuid)\<rparr>,
     cl_journal_read = True, cl_journal_write = True, cl_max_position_qty = 12, cl_digest = rq_side\<rparr>"

definition demo_exec :: exec_state where
  "demo_exec = \<lparr>xs_orders = [], xs_fills = [], xs_events = [], xs_journal = \<lparr>jn_enabled = True, jn_executions = []\<rparr>,
     xs_paper = demo_fresh, xs_router = \<lparr>rt_store = None, rt_has_factory = False, rt_live = None, rt_live_resolved = False,
       rt_last_known_routes = Map.empty\<rparr>, xs_lifecycle = quiet empty_db, xs_sent = []\<rparr>"

definition demo_exec1 :: exec_state where
  "demo_exec1 = snd (create_order (demo_call ''u1'') (\<lambda>s. s) (demo_request ''BUY'' 10) ''k1'' demo_exec)"

definition demo_answer :: order_response where
  "demo_answer = (case fst (create_order (demo_call ''u1'') (\<lambda>s. s) (demo_request ''BUY'' 10) ''k1'' demo_exec) of
     Inr resp \<Rightarrow> resp | Inl e \<Rightarrow> to_response (last (xs_orders demo_exec1)))"

lemma demo_order:
  "create_order (demo_call ''u1'') (\<lambda>s. s) (demo_request ''BUY'' 10) ''k1'' demo_exec = (Inr demo_answer, demo_exec1)"
proof -
  have "\<not> isl (fst (create_order (demo_call ''u1'') (\<lambda>s. s) (demo_request ''BUY'' 10) ''k1'' demo_exec))" by code_simp
  then show ?thesis
    by (cases "create_order (demo_call ''u1'') (\<lambda>s. s) (demo_request ''BUY'' 10) ''k1'' demo_exec")
      (auto simp: demo_answer_def demo_exec1_def split: sum.splits)
qed

lemma demo_symbol: "sanitize_symbol (rq_symbol (demo_request side q)) = Inr ''AAPL''"
  unfolding demo_request_def by code_simp

lemma demo_fresh_ids: "fresh_ids (demo_call ''u1'') demo_exec"
  by (simp add: fresh_ids_def demo_exec_def)

lemma demo_exec_reach: "reach exec_init exec_step demo_exec1"
proof -
  have "reach exec_init exec_step demo_exec" by (rule reach_init) (simp add: exec_init_def demo_exec_def)
  from this exec_step.order [OF demo_fresh_ids demo_order] show ?thesis by (rule reach_step)
qed

theorem answered_key_is_used_up_witness:
  "create_order (demo_call ''u2'') (\<lambda>s. s) (demo_request ''BUY'' 10) ''k1'' demo_exec1 = (Inr demo_answer, demo_exec1) \<and>
   create_order (demo_call ''u3'') (\<lambda>s. s) (demo_request ''SELL'' 10) ''k1'' demo_exec1
     = (Inl (HTTPException 409 [S ''Idempotency key payload mismatch'']), demo_exec1)"
proof -
  have d: "cl_digest (demo_call u) = cl_digest (demo_call ''u1'')" for u by (simp add: demo_call_def)
  have x: "cl_digest (demo_call ''u1'') ((demo_request ''SELL'' 10)\<lparr>rq_symbol := ''AAPL''\<rparr>)
      \<noteq> cl_digest (demo_call ''u1'') ((demo_request ''BUY'' 10)\<lparr>rq_symbol := ''AAPL''\<rparr>)"
    by (simp add: demo_call_def demo_request_def)
  show ?thesis
    using answered_key_is_used_up [OF demo_order demo_symbol demo_symbol d [of "''u2''"], where others' = "\<lambda>s. s"]
      answered_key_is_used_up [OF demo_order demo_symbol demo_symbol d [of "''u3''"], where others' = "\<lambda>s. s"] x
    by simp
qed

text \<open>
  C8: one order per key. However many requests arrive, in whatever order and with whatever keys, with
  closes, lifecycle changes and restarts of the router between them, no idempotency key is ever handed to
  an adapter twice, and every order handed to one is on record under its key.
\<close>

theorem one_order_per_key:
  assumes "reach exec_init exec_step st"
  shows "distinct (map fst (xs_sent st)) \<and> fst ` set (xs_sent st) \<subseteq> or_idempotency_key ` set (xs_orders st)"
  using exec.reach_inv [OF assms] by (simp add: sent_once_def)

theorem one_order_per_key_witness:
  "map fst (xs_sent demo_exec1) = [''k1''] \<and> fst ` set (xs_sent demo_exec1) \<subseteq> or_idempotency_key ` set (xs_orders demo_exec1)"
proof -
  have "map fst (xs_sent demo_exec1) = [''k1'']" by code_simp
  with one_order_per_key [OF demo_exec_reach] show ?thesis by blast
qed

subsection \<open>The position cap\<close>

lemma cap_passed:
  assumes "position_cap_refusal cl r routed j = None"
  obtains held where "net_position (cl_journal_read cl) (rq_strategy_id r) (rq_symbol r) (environment_of_route routed)
      (rq_account_id r) j = Some held"
    "rq_reduce_only r \<Longrightarrow> held * signed_request r < 0 \<and> \<bar>signed_request r\<bar> \<le> \<bar>held\<bar> + dust"
    "\<not> rq_reduce_only r \<Longrightarrow> \<bar>held + signed_request r\<bar> \<le> of_int (cl_max_position_qty cl) \<or>
       \<bar>held + signed_request r\<bar> \<le> \<bar>held\<bar>"
  using assms by (auto simp: position_cap_refusal_def Let_def split: option.splits if_splits)

lemma reducing_bound:
  fixes h s d :: rat
  assumes "h * s < 0" and "\<bar>s\<bar> \<le> \<bar>h\<bar> + d" and "0 \<le> d"
  shows "\<bar>h + s\<bar> \<le> max \<bar>h\<bar> d"
  using assms by (auto simp: mult_less_0_iff abs_if max_def split: if_splits)

lemma sent_submits:
  assumes "create_order cl others req key st = (res, st')" and "xs_sent st' \<noteq> xs_sent st"
  obtains sy routed a rt w where "sanitize_symbol (rq_symbol req) = Inr sy"
    "passes cl (req\<lparr>rq_symbol := sy\<rparr>) key st routed a rt w"
    "submit_order cl others (req\<lparr>rq_symbol := sy\<rparr>) key (cl_digest cl (req\<lparr>rq_symbol := sy\<rparr>)) routed a (moved_on st rt w)
       = (res, st')"
  using assms by (cases rule: create_order_cases) auto

text \<open>
  nothing reaches a broker past the cap. If an order was handed to an adapter, the journal could say what
  the sleeve holds; an entry leaves it within the cap or no larger than it was; a reduce-only order is
  against the position and leaves it no larger than it was, up to the rounding tolerance.
\<close>

theorem sent_orders_respect_cap:
  assumes "create_order cl others req key st = (res, st')" and "xs_sent st' \<noteq> xs_sent st"
  shows "\<exists>sy en held. sanitize_symbol (rq_symbol req) = Inr sy \<and>
    net_position (cl_journal_read cl) (rq_strategy_id req) sy en (rq_account_id req) (xs_journal st) = Some held \<and>
    (if rq_reduce_only req
     then held * signed_request req < 0 \<and> \<bar>held + signed_request req\<bar> \<le> max \<bar>held\<bar> dust
     else \<bar>held + signed_request req\<bar> \<le> max \<bar>held\<bar> (of_int (cl_max_position_qty cl)))"
proof -
  obtain sy routed a rt w where s: "sanitize_symbol (rq_symbol req) = Inr sy"
    "passes cl (req\<lparr>rq_symbol := sy\<rparr>) key st routed a rt w" by (rule sent_submits [OF assms])
  have [simp]: "signed_request (req\<lparr>rq_symbol := sy\<rparr>) = signed_request req" by (simp add: signed_request_def)
  from s(2) have "position_cap_refusal cl (req\<lparr>rq_symbol := sy\<rparr>) routed (xs_journal st) = None" by (simp add: passes_def)
  then obtain held where h: "net_position (cl_journal_read cl) (rq_strategy_id req) sy (environment_of_route routed)
      (rq_account_id req) (xs_journal st) = Some held"
    "rq_reduce_only req \<Longrightarrow> held * signed_request req < 0 \<and> \<bar>signed_request req\<bar> \<le> \<bar>held\<bar> + dust"
    "\<not> rq_reduce_only req \<Longrightarrow> \<bar>held + signed_request req\<bar> \<le> of_int (cl_max_position_qty cl) \<or>
       \<bar>held + signed_request req\<bar> \<le> \<bar>held\<bar>"
    by (rule cap_passed) auto
  have "rq_reduce_only req \<Longrightarrow> \<bar>held + signed_request req\<bar> \<le> max \<bar>held\<bar> dust"
    using h(2) reducing_bound [of held "signed_request req" dust] by (simp add: dust_def)
  with s(1) h show ?thesis by (intro exI [of _ sy] exI [of _ "environment_of_route routed"] exI [of _ held]) (auto simp: le_max_iff_disj)
qed

theorem sent_orders_respect_cap_witness:
  "\<exists>en held. net_position True ''sma'' ''AAPL'' en ''default'' (xs_journal demo_exec) = Some held \<and> \<bar>held + 10\<bar> \<le> max \<bar>held\<bar> 12"
proof -
  have "xs_sent demo_exec1 \<noteq> xs_sent demo_exec" by code_simp
  moreover have "signed_request (demo_request ''BUY'' 10) = 10" by code_simp
  ultimately show ?thesis
    using sent_orders_respect_cap [OF demo_order] demo_symbol [of "''BUY''" 10]
    by (auto simp: demo_call_def demo_request_def)
qed

text \<open>A run of the endpoint under one cap, whatever the journal answers and whether it records.\<close>

inductive capped_step :: "int \<Rightarrow> exec_state \<Rightarrow> exec_state \<Rightarrow> bool" for cap where
  order: "cl_max_position_qty cl = cap \<Longrightarrow> create_order cl (\<lambda>s. s) req key st = (res, st') \<Longrightarrow> capped_step cap st st'"
| outside: "capped_step cap st (moved_on st rt w)"

definition capped_init :: "exec_state \<Rightarrow> exec_state \<Rightarrow> bool" where
  "capped_init st0 st = (st = st0 \<and> jn_enabled (xs_journal st0))"

definition within_cap :: "int \<Rightarrow> exec_state \<Rightarrow> exec_state \<Rightarrow> bool" where
  "within_cap cap st0 st = (jn_enabled (xs_journal st) \<and>
     (\<forall>sid sy en ac. \<exists>n0 n. net_position True sid sy en ac (xs_journal st0) = Some n0 \<and>
        net_position True sid sy en ac (xs_journal st) = Some n \<and> \<bar>n\<bar> \<le> max (of_int cap) \<bar>n0\<bar>))"

lemma signed_quality:
  "signed_report (quality_report r o' res routed) \<in> {0, signed_request r}"
  by (auto simp: signed_report_def quality_report_def signed_request_def split: option.splits)

lemma quality_scope [simp]:
  "rp_strategy_id (quality_report r o' res routed) = rq_strategy_id r" "rp_symbol (quality_report r o' res routed) = rq_symbol r"
  "rp_environment (quality_report r o' res routed) = environment_of_route routed"
  "rp_account_id (quality_report r o' res routed) = rq_account_id r"
  by (simp_all add: quality_report_def)

lemma net_position_upper: "upper sy = upper sy' \<Longrightarrow> net_position ok sid sy en ac j = net_position ok sid sy' en ac j"
  by (simp add: net_position_def in_book_def [abs_def])

lemma passed_within_cap:
  assumes "position_cap_refusal cl r routed j = None"
    and "net_position True (rq_strategy_id r) (rq_symbol r) (environment_of_route routed) (rq_account_id r) j = Some n"
  shows "\<bar>n + signed_request r\<bar> \<le> max (of_int (cl_max_position_qty cl)) \<bar>n\<bar>"
proof -
  from assms(1) obtain held where held: "net_position (cl_journal_read cl) (rq_strategy_id r) (rq_symbol r) (environment_of_route routed)
      (rq_account_id r) j = Some held" by (auto simp: position_cap_refusal_def split: option.splits)
  then have n: "held = n" using assms(2) by (auto simp: net_position_def split: if_splits)
  show ?thesis
  proof (cases "rq_reduce_only r")
    case True
    with assms(1) held n have "dust < \<bar>n\<bar>" "n * signed_request r < 0" "\<bar>signed_request r\<bar> \<le> \<bar>n\<bar> + dust"
      by (auto simp: position_cap_refusal_def Let_def not_le not_less split: if_splits)
    then have "\<bar>n + signed_request r\<bar> \<le> \<bar>n\<bar>" using reducing_bound [of n "signed_request r" dust] by (simp add: dust_def)
    then show ?thesis by simp
  next
    case False
    with assms(1) held n show ?thesis by (auto simp: position_cap_refusal_def Let_def split: if_splits)
  qed
qed

lemma capped_order:
  assumes inv: "within_cap (cl_max_position_qty cl) st0 st"
    and ord: "create_order cl (\<lambda>s. s) req key st = (res, st')"
  shows "within_cap (cl_max_position_qty cl) st0 st'"
  using ord
proof (cases rule: create_order_cases)
  case quiet
  with inv show ?thesis by (simp add: within_cap_def)
next
  case (submit sy routed a rt w)
  let ?r = "req\<lparr>rq_symbol := sy\<rparr>" and ?cap = "of_int (cl_max_position_qty cl) :: rat"
  obtain bres pb where pl: "adapter_place cl a ?r (xs_paper (moved_on st rt w)) = (bres, pb)" by fastforce
  from submit(3) pl show ?thesis
  proof (cases rule: submit_order_cases)
    case clash
    with inv show ?thesis by (simp add: within_cap_def)
  next
    case (placed o')
    have en: "jn_enabled (xs_journal st)" using inv by (simp add: within_cap_def)
    have "\<exists>n0 n. net_position True sid s en ac (xs_journal st0) = Some n0 \<and> net_position True sid s en ac (xs_journal st') = Some n \<and> \<bar>n\<bar> \<le> max ?cap \<bar>n0\<bar>"
      for sid s en ac
    proof (cases "cl_journal_write cl")
      case False
      then have "xs_journal st' = xs_journal st" using placed(6) by (simp add: record_execution_def Let_def)
      with inv show ?thesis unfolding within_cap_def by simp
    next
      case True
      obtain n0 n where n: "net_position True sid s en ac (xs_journal st0) = Some n0" "net_position True sid s en ac (xs_journal st) = Some n" "\<bar>n\<bar> \<le> max ?cap \<bar>n0\<bar>"
        using inv unfolding within_cap_def by blast
      have step: "\<bar>n + signed_request ?r\<bar> \<le> max ?cap \<bar>n\<bar>"
        if "rq_strategy_id ?r = sid" "upper (rq_symbol ?r) = upper s" "environment_of_route routed = en" "rq_account_id ?r = ac"
        using passed_within_cap [of cl ?r routed "xs_journal st" n] submit(2) n that net_position_upper [OF that(2)]
        by (simp add: passes_def)
      from net_after_record [OF \<open>jn_enabled (xs_journal st)\<close> n(2), of "cl_now cl" "quality_report ?r o' bres routed"]
        signed_quality [of ?r o' bres routed] step n placed(6) True
      show ?thesis by (auto simp: le_max_iff_disj)
    qed
    with en placed(6) show ?thesis by (simp add: within_cap_def)
  qed
qed

interpretation capped: invariant_system "capped_init st0" "capped_step cap" "within_cap cap st0" for st0 cap
proof unfold_locales
  show "within_cap cap st0 s" if "capped_init st0 s" for s
    using that by (auto simp: capped_init_def within_cap_def net_position_def)
  show "within_cap cap st0 t" if "within_cap cap st0 s" and "capped_step cap s t" for s t
    using that(2)
  proof cases
    case (order cl req key res)
    with capped_order that(1) show ?thesis by blast
  next
    case (outside rt w)
    with that(1) show ?thesis by (simp add: within_cap_def)
  qed
qed

text \<open>
  C4: signals that repeat do not stack in the journal's book. Whatever orders the endpoint answers one after the other under one cap,
  for whatever sleeves, reduce-only or not, filled or not, with the journal read or not and written or not,
  the net position on record of a sleeve is at every moment within the cap on either side, or, where the book
  started beyond the cap, no larger than it started. The book is what the journal records of the orders: closes and
  overlapping requests are not steps of this run, and a fill that never gets on record is not in it.
\<close>

theorem book_never_exceeds_cap:
  assumes "reach (capped_init st0) (capped_step cap) st"
  shows "\<exists>n0 n. net_position True sid sy en ac (xs_journal st0) = Some n0 \<and> net_position True sid sy en ac (xs_journal st) = Some n \<and>
    \<bar>n\<bar> \<le> max (of_int cap) \<bar>n0\<bar>"
  using capped.reach_inv [OF assms] by (simp add: within_cap_def)

theorem book_never_exceeds_cap_witness:
  "\<exists>n. net_position True ''sma'' ''AAPL'' ''paper'' ''default'' (xs_journal demo_exec1) = Some n \<and> \<bar>n\<bar> \<le> 12"
proof -
  have i: "reach (capped_init demo_exec) (capped_step 12) demo_exec"
    by (rule reach_init) (simp add: capped_init_def demo_exec_def)
  have "capped_step 12 demo_exec demo_exec1"
    by (rule capped_step.order [OF _ demo_order]) (simp_all add: demo_call_def)
  moreover have "net_position True ''sma'' ''AAPL'' ''paper'' ''default'' (xs_journal demo_exec) = Some 0" by code_simp
  ultimately show ?thesis using book_never_exceeds_cap [OF reach_step [OF i]] by fastforce
qed

end
