(* ===== verification/Order_Books.thy ===== *)
theory Order_Books
  imports Order_Flow
begin

text \<open>
  The simulator's holdings and the journal's book are two records of the same orders. They agree over
  every run of the execution service's endpoints; the last part shows where that agreement, the cap and
  the idempotency of \<open>Order_Flow\<close> end.
\<close>

subsection \<open>The simulator and the journal\<close>

text \<open>The venue an adapter is and the route that led to it.\<close>

definition router_ok :: "broker_router \<Rightarrow> bool" where
  "router_ok rt = (\<forall>a. rt_live rt = Some a \<longrightarrow> is_live_trading a)"

lemma bind_adapter_route:
  assumes "router_ok rt" and "bind_adapter env dec v rt = (ro, rt')"
  shows "router_ok rt' \<and> (\<forall>a. ro_adapter ro = Some a \<longrightarrow> (is_live (ro_decision ro) \<longleftrightarrow> a \<noteq> PaperBroker))"
  using assms
  by (auto simp: bind_adapter_def live_adapter_def router_ok_def is_live_def Let_def
      split: execution_route.splits option.splits prod.splits if_splits)

lemma authority_lost_route:
  assumes "router_ok rt" and "authority_lost env intent reason key rt = (ro, rt')"
  shows "router_ok rt' \<and> (\<forall>a. ro_adapter ro = Some a \<longrightarrow> (is_live (ro_decision ro) \<longleftrightarrow> a \<noteq> PaperBroker))"
  using assms bind_adapter_route [OF assms(1)]
  by (auto simp: authority_lost_def split: option.splits if_splits prod.splits)

lemma router_ok_remember: "router_ok (remember k s rt) = router_ok rt"
  by (simp add: router_ok_def)

lemma route_order_adapter:
  assumes "router_ok rt" and "route_order env connect now st sy ac red rt w = (x, rt', w')"
  shows "router_ok rt' \<and> (\<forall>ro a. x = Inr ro \<longrightarrow> ro_adapter ro = Some a \<longrightarrow> (is_live (ro_decision ro) \<longleftrightarrow> a \<noteq> PaperBroker))"
proof -
  obtain store rt0 where rs: "resolve_store connect rt = (store, rt0)" by fastforce
  then have ok0: "router_ok rt0"
    using assms(1) by (auto simp: resolve_store_def router_ok_def split: if_splits sum.splits)
  show ?thesis
    using assms(2) rs authority_lost_route [OF ok0] bind_adapter_route [of "remember _ _ rt0", unfolded router_ok_remember, OF ok0] ok0
    by (auto simp: route_order_def Let_def is_live_def router_ok_remember split: option.splits if_splits prod.splits sum.splits)
qed

text \<open>Per symbol, the filled quantity of every simulated order on record, over all sleeves.\<close>

definition paper_book :: "string \<Rightarrow> journal \<Rightarrow> rat" where
  "paper_book y j = sum_list (map signed_fill
     (filter (\<lambda>r. eq_symbol r = y \<and> eq_environment r = ''paper'' \<and> eq_filled r) (jn_executions j)))"

lemma paper_book_record:
  assumes "jn_enabled j"
  shows "paper_book y (snd (record_execution now True rep j)) =
    paper_book y j + (if upper (rp_symbol rep) = y \<and> rp_environment rep = ''paper'' then signed_report rep else 0)"
  using assms
  by (auto simp: paper_book_def record_execution_def execution_row_of_def Let_def signed_fill_def signed_report_def
      split: option.splits)

text \<open>Prices the simulator fills at are positive after rounding.\<close>

definition prices_ok :: "call \<Rightarrow> bool" where
  "prices_ok cl = (\<forall>y side p. fill_price_at (cl_paper_config cl) (cl_mark cl) y side = Some p \<longrightarrow> 0 < p)"

definition mirrored :: "exec_state \<Rightarrow> bool" where
  "mirrored st = (books_ok (xs_paper st) \<and> jn_enabled (xs_journal st) \<and> router_ok (xs_router st) \<and>
     (\<forall>y. holding (pb_state (xs_paper st)) y = paper_book y (xs_journal st)))"

lemma sanitized_upper: "sanitize_symbol s = Inr sy \<Longrightarrow> upper sy = sy \<and> sy \<noteq> []"
  by (auto simp: sanitize_symbol_def Let_def split: if_splits)

lemma paper_order_mirrors:
  assumes "books_ok pb" and "0 < rq_qty r" and "\<And>l. rq_limit_price r = Some l \<Longrightarrow> 0 < l" and "prices_ok cl"
    and "adapter_place cl PaperBroker r pb = (bres, pb')" and "environment_of_route routed = ''paper''"
  shows "books_ok pb' \<and> (\<forall>y. holding (pb_state pb') y = holding (pb_state pb) y +
    (if upper (rq_symbol r) = y then signed_report (quality_report r o' bres routed) else 0))"
proof -
  let ?c = "cl_paper_config cl"
  have pl: "paper_place_order ?c (cl_mark cl) (cl_disk_ok cl) (cl_external_id cl) (cl_now cl) r pb = (bres, pb')"
    using assms(5) by (simp add: adapter_place_def)
  have ok': "books_ok pb'" by (rule paper.step_inv [OF assms(1) paper_step.place [OF assms(2) pl]])
  show ?thesis
  proof (cases "br_status bres = ACCEPTED")
    case False
    with place_order_refused [OF pl] ok' show ?thesis by (simp add: signed_report_def quality_report_def)
  next
    case True
    have h: "\<forall>y. holding (pb_state pb') y = holding (pb_state pb) y + signed_qty r y"
      using place_order_effect [OF _ assms(2) pl True] assms(1) by (simp add: books_ok_def)
    from pl True obtain price where "br_fill_price bres = Some price" "0 < price" "upper (rq_side r) \<in> {''BUY'', ''SELL''}"
    proof (cases rule: place_order_accepted)
      case (1 quote price)
      have "0 < quote" using 1(2) assms(4) by (simp add: prices_ok_def)
      then have "0 < price"
        using 1(3) assms(3) by (auto simp: limit_fill_price_def limit_price_of_def split: option.splits if_splits)
      with 1 that show ?thesis by blast
    qed
    then have "signed_report (quality_report r o' bres routed) = signed_request r"
      by (simp add: signed_report_def quality_report_def signed_request_def)
    with h ok' show ?thesis by (auto simp: signed_qty_def signed_request_def)
  qed
qed

lemma order_mirrors:
  assumes inv: "mirrored st" and cl: "fresh_ids cl st" "prices_ok cl" "cl_journal_write cl" "0 < rq_qty req"
    and lim: "\<And>l. rq_limit_price req = Some l \<Longrightarrow> 0 < l"
    and ord: "create_order cl (\<lambda>s. s) req key st = (res, st')" and rt': "router_ok (xs_router st')"
  shows "mirrored st'"
  using ord
proof (cases rule: create_order_cases)
  case quiet
  with inv rt' show ?thesis by (simp add: mirrored_def)
next
  case (submit sy routed a rt w)
  let ?r = "req\<lparr>rq_symbol := sy\<rparr>"
  have key: "key \<notin> or_idempotency_key ` set (xs_orders st)" using submit(2) find_key_None by (auto simp: passes_def)
  have live: "is_live (ro_decision routed) \<longleftrightarrow> a \<noteq> PaperBroker"
    using route_order_adapter [of "xs_router st"] inv submit(2) by (auto simp: passes_def mirrored_def)
  obtain bres pb where pl: "adapter_place cl a ?r (xs_paper (moved_on st rt w)) = (bres, pb)" by fastforce
  have ext: "br_external_order_id bres \<notin> or_external_order_id ` set (xs_orders st)"
    using cl(1) pl by (metis fresh_ids_def fst_conv moved_on_sel(3))
  from submit(3) pl show ?thesis
  proof (cases rule: submit_order_cases)
    case clash
    with key ext cl(1) show ?thesis by (auto simp: fresh_ids_def)
  next
    case (placed o')
    let ?rep = "quality_report ?r o' bres routed"
    have j: "paper_book y (xs_journal st') = paper_book y (xs_journal st) +
        (if upper sy = y \<and> environment_of_route routed = ''paper'' then signed_report ?rep else 0)" for y
      using paper_book_record [of "xs_journal st" y "cl_now cl" ?rep] placed(6) cl(3) inv by (simp add: mirrored_def)
    show ?thesis
    proof (cases "a = PaperBroker")
      case True
      have env: "environment_of_route routed = ''paper''" using live True by (simp add: environment_of_route_def)
      have "books_ok pb \<and> (\<forall>y. holding (pb_state pb) y = holding (pb_state (xs_paper st)) y +
          (if upper (rq_symbol ?r) = y then signed_report ?rep else 0))"
        by (rule paper_order_mirrors [OF _ _ _ cl(2) _ env]) (use inv cl(4) lim pl True in \<open>auto simp: mirrored_def\<close>)
      with inv rt' j env placed(6,7) show ?thesis by (simp add: mirrored_def)
    next
      case False
      then have "pb = xs_paper st" using pl by (cases a) (auto simp: adapter_place_def)
      moreover have "environment_of_route routed = ''live''" using live False by (simp add: environment_of_route_def)
      ultimately show ?thesis using inv rt' j placed(6,7) by (simp add: mirrored_def)
    qed
  qed
qed

lemma close_position_None: "paper_close_position c mark ok oid now pid units named b = (None, b') \<Longrightarrow> b' = b"
  by (auto simp: paper_close_position_def Let_def split: option.splits if_splits)

lemma live_close_paper: "a \<noteq> PaperBroker \<Longrightarrow> snd (adapter_close cl a q units pb) = pb"
  by (cases a) (simp_all add: adapter_close_def split: sum.split exn.split list.split)

lemma failed_close_paper:
  assumes "adapter_close cl a q units pb = (x, pb')" and "\<And>f. x \<noteq> Inr (Some f)"
  shows "pb' = pb"
proof (cases "a = PaperBroker")
  case True
  with assms show ?thesis
    by (auto simp: adapter_close_def split: prod.splits dest: close_position_None) (metis close_position_None option.exhaust)
next
  case False
  with assms(1) live_close_paper [of a cl q units pb] show ?thesis by simp
qed

lemma close_order_cases:
  assumes "close_order cl q st = (res, st')"
  obtains (quiet) e where "res = Inl e" "xs_journal st' = xs_journal st" "xs_paper st' = xs_paper st"
  | (closed) sy routed a rt w units f where "sanitize_symbol (cq_symbol q) = Inr sy"
      "route_order (cl_environ cl) (cl_connect cl) (cl_now cl) (cq_strategy_id q) sy (cq_account_id q) True
         (xs_router st) (xs_lifecycle st) = (Inr routed, rt, w)" "ro_adapter routed = Some a"
      "units = (case cq_units q of Some u \<Rightarrow> Some u | None \<Rightarrow> cq_qty q)"
      "adapter_close cl a (q\<lparr>cq_symbol := sy\<rparr>) units (xs_paper st) = (Inr (Some f), xs_paper st')"
      "xs_journal st' = (if fill_confirmed f units
         then snd (record_execution (cl_now cl) (cl_journal_write cl) (close_report (q\<lparr>cq_symbol := sy\<rparr>) f units routed) (xs_journal st))
         else xs_journal st)"
      "res = Inr \<lparr>cs_status = (if fill_confirmed f units then ''closed'' else ''close_submitted''), cs_symbol = sy,
         cs_position_id = cq_position_id q, cs_signal_id = cq_signal_id q,
         cs_environment = environment_of_route routed, cs_broker = ro_adapter_name routed\<rparr>"
proof (cases "sanitize_symbol (cq_symbol q)")
  case (Inl e)
  with assms show thesis by (intro quiet) (auto simp: close_order_def)
next
  case sy: (Inr sy)
  let ?q = "q\<lparr>cq_symbol := sy\<rparr>" and ?units = "case cq_units q of Some u \<Rightarrow> Some u | None \<Rightarrow> cq_qty q"
  obtain x rt w where ro: "route_order (cl_environ cl) (cl_connect cl) (cl_now cl) (cq_strategy_id q) sy (cq_account_id q) True
      (xs_router st) (xs_lifecycle st) = (x, rt, w)" by (metis prod_cases3)
  show thesis
  proof (cases "\<exists>routed a f pb. x = Inr routed \<and> ro_adapter routed = Some a \<and> ro_places_order routed \<and>
      (is_live (ro_decision routed) \<longrightarrow> explicit_identity (cq_fields_set q)) \<and>
      adapter_close cl a ?q ?units (xs_paper st) = (Inr (Some f), pb)")
    case True
    then obtain routed a f pb where c: "x = Inr routed" "ro_adapter routed = Some a" "ro_places_order routed"
      "is_live (ro_decision routed) \<longrightarrow> explicit_identity (cq_fields_set q)"
      "adapter_close cl a ?q ?units (xs_paper st) = (Inr (Some f), pb)" by blast
    have "res = Inr \<lparr>cs_status = (if fill_confirmed f ?units then ''closed'' else ''close_submitted''), cs_symbol = sy,
         cs_position_id = cq_position_id q, cs_signal_id = cq_signal_id q,
         cs_environment = environment_of_route routed, cs_broker = ro_adapter_name routed\<rparr> \<and> xs_paper st' = pb \<and>
       xs_journal st' = (if fill_confirmed f ?units
         then snd (record_execution (cl_now cl) (cl_journal_write cl) (close_report ?q f ?units routed) (xs_journal st))
         else xs_journal st)"
      using assms sy ro c by (auto simp: close_order_def Let_def)
    with sy ro c show thesis by (intro closed) auto
  next
    case False
    have "(\<exists>e. res = Inl e) \<and> xs_journal st' = xs_journal st \<and> xs_paper st' = xs_paper st"
    proof (cases x)
      case (Inl e)
      with assms sy ro show ?thesis by (auto simp: close_order_def Let_def)
    next
      case (Inr routed)
      have "(\<exists>e. res = Inl e) \<and> xs_journal st' = xs_journal st \<and> xs_paper st' = xs_paper st" if "ro_adapter routed = Some a" for a
      proof -
        obtain y pb where y: "adapter_close cl a ?q ?units (xs_paper st) = (y, pb)" by fastforce
        show ?thesis
        proof (cases "ro_places_order routed \<and> (is_live (ro_decision routed) \<longrightarrow> explicit_identity (cq_fields_set q))")
          case True
          with False Inr that y have no: "y \<noteq> Inr (Some f)" for f by blast
          then have pb: "pb = xs_paper st" using failed_close_paper [OF y] by blast
          from no consider e where "y = Inl e" | "y = Inr None" by (metis option.exhaust sum.exhaust)
          then show ?thesis
          proof cases
            case 1
            with assms sy ro Inr that y True pb show ?thesis by (auto simp: close_order_def Let_def)
          next
            case 2
            with assms sy ro Inr that y True pb show ?thesis by (auto simp: close_order_def Let_def)
          qed
        next
          case no: False
          with assms sy ro Inr that show ?thesis by (auto simp: close_order_def Let_def split: if_splits)
        qed
      qed
      with assms sy ro Inr show ?thesis by (cases "ro_adapter routed") (auto simp: close_order_def Let_def)
    qed
    with quiet show thesis by blast
  qed
qed

text \<open>What the service journals of a close of a symbol that the simulator holds.\<close>

lemma paper_close_reported:
  assumes ok: "ledger_ok (pb_state b)" and pr: "prices_ok cl" and sy: "upper sy = sy" "sy \<noteq> []"
    and c: "paper_close_position (cl_paper_config cl) (cl_mark cl) (cl_disk_ok cl) (cl_external_id cl) (cl_now cl)
      pid units (Some sy) b = (Some o', b')" and h: "holding (pb_state b) sy \<noteq> 0"
  shows "fill_confirmed (paper_close_fill o') units"
    and "signed_report (close_report q (paper_close_fill o') units routed) =
      (if 0 < holding (pb_state b) sy then - po_qty o' else po_qty o')"
    and "holding (pb_state b') y = holding (pb_state b) y +
      (if sy = y then signed_report (close_report q (paper_close_fill o') units routed) else 0)"
proof -
  note eff = close_position_effect [OF ok c]
    and fill = close_position_fill [OF c, unfolded sy, OF h sy(2)]
  have pos: "0 < po_fill_price o'" using fill pr by (auto simp: prices_ok_def)
  show "fill_confirmed (paper_close_fill o') units"
    and rep: "signed_report (close_report q (paper_close_fill o') units routed) =
      (if 0 < holding (pb_state b) sy then - po_qty o' else po_qty o')"
    using pos eff fill
    by (auto simp: fill_confirmed_def close_qty_def paper_close_fill_def signed_report_def close_report_def demo_sides
        split: if_splits)
  show "holding (pb_state b') y = holding (pb_state b) y +
      (if sy = y then signed_report (close_report q (paper_close_fill o') units routed) else 0)"
    using eff fill h unfolding rep by (cases "y = sy") (auto simp: abs_if zero_le_mult_iff split: if_splits)
qed

text \<open>
  A close hits the symbol it names, whenever it hits anything. The simulator falls back on the position identifier when it
  holds nothing of the symbol, and may then close another one (\<open>close_books_the_wrong_symbol\<close> below).
\<close>

definition close_on_target :: "close_request \<Rightarrow> exec_state \<Rightarrow> bool" where
  "close_on_target q st = (\<forall>sy s. sanitize_symbol (cq_symbol q) = Inr sy \<and>
     resolve_symbol (cq_position_id q) (Some sy) (pb_state (xs_paper st)) = Some s \<longrightarrow> s = sy)"

lemma closed_is_held:
  assumes "paper_close_position c mark ok oid now pid units symbol b = (Some o', b')" and "resolve_symbol pid symbol (pb_state b) = Some s"
  shows "holding (pb_state b) s \<noteq> 0"
  using assms by (auto simp: paper_close_position_def holding_def Let_def split: option.splits if_splits)

lemma closed_resolves:
  "paper_close_position c mark ok oid now pid units symbol b = (Some o', b') \<Longrightarrow> \<exists>s. resolve_symbol pid symbol (pb_state b) = Some s"
  by (cases "resolve_symbol pid symbol (pb_state b)") (auto simp: paper_close_position_def Let_def)

lemma close_mirrors:
  assumes inv: "mirrored st" and cl: "prices_ok cl" "cl_journal_write cl"
    and target: "close_on_target q st"
    and clo: "close_order cl q st = (res, st')" and rt': "router_ok (xs_router st')"
  shows "mirrored st'"
  using clo
proof (cases rule: close_order_cases)
  case quiet
  with inv rt' show ?thesis by (simp add: mirrored_def)
next
  case (closed sy routed a rt w units f)
  let ?q = "q\<lparr>cq_symbol := sy\<rparr>" and ?rep = "close_report (q\<lparr>cq_symbol := sy\<rparr>) f units routed"
  note sy = sanitized_upper [OF closed(1)]
  have live: "is_live (ro_decision routed) \<longleftrightarrow> a \<noteq> PaperBroker"
    using route_order_adapter [of "xs_router st"] inv closed(2,3) by (auto simp: mirrored_def)
  have j: "paper_book y (xs_journal st') = paper_book y (xs_journal st) +
      (if fill_confirmed f units \<and> sy = y \<and> environment_of_route routed = ''paper'' then signed_report ?rep else 0)"
    "jn_enabled (xs_journal st')" for y
    using paper_book_record [of "xs_journal st" y "cl_now cl" ?rep] closed(6) cl(2) inv sy
    by (auto simp: mirrored_def close_report_def)
  show ?thesis
  proof (cases "a = PaperBroker")
    case False
    then have "xs_paper st' = xs_paper st" using live_close_paper [of a cl ?q units "xs_paper st"] closed(5) by simp
    moreover have "environment_of_route routed = ''live''" using live False by (simp add: environment_of_route_def)
    ultimately show ?thesis using inv rt' j by (simp add: mirrored_def)
  next
    case True
    let ?b = "xs_paper st" and ?b' = "xs_paper st'"
    from closed(5) True obtain o' where o': "paper_close_position (cl_paper_config cl) (cl_mark cl) (cl_disk_ok cl)
        (cl_external_id cl) (cl_now cl) (cq_position_id q) units (Some sy) ?b = (Some o', ?b')" "f = paper_close_fill o'"
      by (auto simp: adapter_close_def split: prod.splits)
    have h: "holding (pb_state ?b) sy \<noteq> 0"
      using closed_resolves [OF o'(1)] closed_is_held [OF o'(1)] target closed(1) unfolding close_on_target_def by blast
    have ok: "ledger_ok (pb_state ?b)" "books_ok ?b" using inv by (simp_all add: mirrored_def books_ok_def)
    note rep = paper_close_reported [OF ok(1) cl(1) sy [THEN conjunct1] sy [THEN conjunct2] o'(1) h]
    have "holding (pb_state ?b') y = holding (pb_state ?b) y + (if sy = y then signed_report ?rep else 0)" for y
      unfolding o'(2) by (rule rep(3))
    moreover have "books_ok ?b'" by (rule paper.step_inv [OF ok(2) paper_step.close [OF o'(1)]])
    moreover have "environment_of_route routed = ''paper''" using live True by (simp add: environment_of_route_def)
    ultimately show ?thesis using inv rt' j rep(1) by (simp add: mirrored_def o'(2))
  qed
qed

lemma persist_router [simp]:
  "xs_router (persist_event o' ty p st) = xs_router st" "xs_router (journal_report cl rep st) = xs_router st"
  "xs_router (snd (persist_fill fid o' pr st)) = xs_router st" "xs_router (moved_on st rt w) = rt"
  by (simp_all add: persist_event_def journal_report_def persist_fill_def moved_on_def Let_def)

lemma submit_router: "submit_order cl (\<lambda>s. s) r key h routed a st = (res, st') \<Longrightarrow> xs_router st' = xs_router st"
  by (auto simp: submit_order_def Let_def insert_order_Inr case_prod_unfold split: sum.splits option.splits if_splits)

lemma unplaced_router: "record_unplaced cl r routed key h reason st = (res, st') \<Longrightarrow> xs_router st' = xs_router st"
  by (auto simp: record_unplaced_def Let_def insert_order_Inr split: sum.splits)

lemma create_order_router:
  assumes "router_ok (xs_router st)" and "create_order cl (\<lambda>s. s) req key st = (res, st')"
  shows "router_ok (xs_router st')"
proof (cases "sanitize_symbol (rq_symbol req)")
  case (Inl e)
  with assms show ?thesis by (auto simp: create_order_def)
next
  case (Inr sy)
  obtain x rt w where ro: "route_order (cl_environ cl) (cl_connect cl) (cl_now cl) (rq_strategy_id req) sy (rq_account_id req)
      (rq_reduce_only req) (xs_router st) (xs_lifecycle st) = (x, rt, w)" by (metis prod_cases3)
  have ok: "router_ok rt" using route_order_adapter [OF assms(1) ro] by blast
  have "st' = st \<or> xs_router st' = rt"
    using assms(2) Inr ro
    by (cases x; cases "find_key key st")
      (auto simp: create_order_def Let_def dest!: submit_router unplaced_router split: sum.splits option.splits if_splits)
  with ok assms(1) show ?thesis by auto
qed

lemma close_order_router:
  assumes "router_ok (xs_router st)" and "close_order cl q st = (res, st')"
  shows "router_ok (xs_router st')"
proof (cases "sanitize_symbol (cq_symbol q)")
  case (Inl e)
  with assms show ?thesis by (auto simp: close_order_def)
next
  case (Inr sy)
  obtain x rt w where ro: "route_order (cl_environ cl) (cl_connect cl) (cl_now cl) (cq_strategy_id q) sy (cq_account_id q) True
      (xs_router st) (xs_lifecycle st) = (x, rt, w)" by (metis prod_cases3)
  have ok: "router_ok rt" using route_order_adapter [OF assms(1) ro] by blast
  have "xs_router st' = rt"
    using assms(2) Inr ro
    by (cases x) (auto simp: close_order_def Let_def split: sum.splits option.splits prod.splits if_splits)
  with ok show ?thesis by simp
qed

text \<open>
  Runs of both endpoints with prices that round to a positive number, limits that are positive, and a
  journal that records; a close names a symbol that the simulator holds.
\<close>

inductive book_step :: "exec_state \<Rightarrow> exec_state \<Rightarrow> bool" where
  order: "fresh_ids cl st \<Longrightarrow> prices_ok cl \<Longrightarrow> cl_journal_write cl \<Longrightarrow> 0 < rq_qty req \<Longrightarrow>
    (\<And>l. rq_limit_price req = Some l \<Longrightarrow> 0 < l) \<Longrightarrow> create_order cl (\<lambda>s. s) req key st = (res, st') \<Longrightarrow> book_step st st'"
| close: "prices_ok cl \<Longrightarrow> cl_journal_write cl \<Longrightarrow> close_on_target q st \<Longrightarrow>
    close_order cl q st = (cres, st') \<Longrightarrow> book_step st st'"
| outside: "router_ok rt \<Longrightarrow> book_step st (moved_on st rt w)"

definition book_init :: "exec_state \<Rightarrow> bool" where
  "book_init st = ((\<exists>c. paper_init c (xs_paper st)) \<and> xs_journal st = \<lparr>jn_enabled = True, jn_executions = []\<rparr> \<and>
     router_ok (xs_router st))"

interpretation books: invariant_system book_init book_step mirrored
proof unfold_locales
  show "mirrored s" if "book_init s" for s
    using that paper.init_inv
    by (auto simp: book_init_def mirrored_def paper_init_def paper_book_def holding_def fresh_state_def books_ok_def ledger_ok_def)
  show "mirrored t" if "mirrored s" and "book_step s t" for s t
    using that(2)
  proof cases
    case (order cl req key res)
    have "router_ok (xs_router t)" using create_order_router [OF _ order(6)] that(1) by (simp add: mirrored_def)
    with order that(1) show ?thesis by (intro order_mirrors [OF that(1) order(1-4) _ order(6)]) auto
  next
    case (close cl q cres)
    have "router_ok (xs_router t)" using close_order_router [OF _ close(4)] that(1) by (simp add: mirrored_def)
    with close_mirrors [OF that(1) close] show ?thesis .
  next
    case (outside rt w)
    with that(1) show ?thesis by (simp add: mirrored_def)
  qed
qed

text \<open>
  C18: two records, one position. Over any run of orders with positive quantities and limits and of closes that hit the symbol they
  name or nothing, handled one after the other, routed to the simulator or to a live venue, accepted or refused, with
  positive prices and every journal write recorded, what the simulator holds of each symbol is exactly the net of the paper
  fills on record for that symbol over all sleeves; live fills never leak into it.
\<close>

theorem simulator_mirrors_journal:
  assumes "reach book_init book_step st"
  shows "holding (pb_state (xs_paper st)) y = paper_book y (xs_journal st)"
  using books.reach_inv [OF assms] by (simp add: mirrored_def)

lemma demo_prices: "prices_ok (demo_call u)"
  by (simp add: prices_ok_def demo_call_def fill_price_at_def demo_config_def demo_strings Let_def)

lemma demo_books_reach: "reach book_init book_step demo_exec1"
proof -
  have i: "reach book_init book_step demo_exec"
    by (rule reach_init) (auto simp: book_init_def demo_exec_def demo_fresh_def paper_init_def router_ok_def)
  have "book_step demo_exec demo_exec1"
    by (rule book_step.order [OF demo_fresh_ids demo_prices _ _ _ demo_order]) (simp_all add: demo_call_def demo_request_def)
  from reach_step [OF i this] show ?thesis .
qed

theorem simulator_mirrors_journal_witness:
  "holding (pb_state (xs_paper demo_exec1)) ''AAPL'' = paper_book ''AAPL'' (xs_journal demo_exec1) \<and>
   paper_book ''AAPL'' (xs_journal demo_exec1) = 10"
proof -
  have "paper_book ''AAPL'' (xs_journal demo_exec1) = 10" by code_simp
  with simulator_mirrors_journal [OF demo_books_reach, of "''AAPL''"] show ?thesis by simp
qed

subsection \<open>Where the guarantees end\<close>

lemma passes_submits:
  assumes "sanitize_symbol (rq_symbol req) = Inr sy" and "passes cl (req\<lparr>rq_symbol := sy\<rparr>) key st routed a rt w"
  shows "create_order cl others req key st = submit_order cl others (req\<lparr>rq_symbol := sy\<rparr>) key
    (cl_digest cl (req\<lparr>rq_symbol := sy\<rparr>)) routed a (moved_on st rt w)"
  using assms
  by (auto simp: create_order_def passes_def moved_on_def Let_def is_live_def assert_not_live_Inr split: sum.splits)
    (metis assert_not_live_Inr old.sum.distinct(1))

lemma submit_sends:
  "xs_sent (snd (submit_order cl others r key h routed a st)) = xs_sent (others st) @ [(key, a, r)]"
proof -
  obtain res st' where s: "submit_order cl others r key h routed a st = (res, st')" by fastforce
  obtain bres pb where "adapter_place cl a r (xs_paper (others st)) = (bres, pb)" by fastforce
  from s this show ?thesis by (cases rule: submit_order_cases) (simp_all add: s)
qed

text \<open>
  two requests under one key can both trade. The key is looked up before the order is placed and recorded
  after; when a second copy of a request arrives in between and passes the same checks, both copies are
  handed to an adapter, although at most one of them is put on record.
\<close>

theorem concurrent_twins_both_trade:
  assumes "sanitize_symbol (rq_symbol req) = Inr sy"
    and "passes cl (req\<lparr>rq_symbol := sy\<rparr>) key st routed a rt w"
    and "passes cl' (req\<lparr>rq_symbol := sy\<rparr>) key (moved_on st rt w) routed' a' rt' w'"
  shows "xs_sent (snd (create_order cl (\<lambda>s. snd (create_order cl' (\<lambda>s. s) req key s)) req key st)) =
    xs_sent st @ [(key, a', req\<lparr>rq_symbol := sy\<rparr>), (key, a, req\<lparr>rq_symbol := sy\<rparr>)]"
  using passes_submits [OF assms(1,2)] passes_submits [OF assms(1,3)] by (simp add: submit_sends)

definition demo_routed :: routed_order where
  "demo_routed = \<lparr>ro_decision = decide SIMULATED [S ''no_lifecycle_authority_simulated_only''], ro_adapter = Some PaperBroker,
     ro_adapter_name = ''paper'', ro_strategy_version = []\<rparr>"

lemma demo_moved: "moved_on demo_exec (xs_router demo_exec) (xs_lifecycle demo_exec) = demo_exec"
  by (simp add: moved_on_def)

lemma demo_passes:
  "passes (demo_call u) ((demo_request ''BUY'' 10)\<lparr>rq_symbol := ''AAPL''\<rparr>) ''k1'' demo_exec demo_routed PaperBroker
     (xs_router demo_exec) (xs_lifecycle demo_exec)"
proof -
  have "signed_request ((demo_request ''BUY'' 10)\<lparr>rq_symbol := ''AAPL''\<rparr>) = 10" by code_simp
  then show ?thesis
    by (simp add: passes_def find_key_def demo_exec_def route_order_def resolve_store_def demo_request_def demo_routed_def
        ro_places_order_def places_order_def is_live_def position_cap_refusal_def net_position_def net_of_rows_def demo_call_def
        Let_def)
qed

theorem concurrent_twins_both_trade_witness:
  "map fst (xs_sent (snd (create_order (demo_call ''u1'') (\<lambda>s. snd (create_order (demo_call ''u2'') (\<lambda>s. s)
      (demo_request ''BUY'' 10) ''k1'' s)) (demo_request ''BUY'' 10) ''k1'' demo_exec))) = [''k1'', ''k1'']"
  using concurrent_twins_both_trade [OF demo_symbol demo_passes [of "''u1''"], of "demo_call ''u2''"]
    demo_passes [of "''u2''"]
  by (simp add: demo_moved) (simp add: demo_exec_def)

text \<open>
  a live Alpaca position is invisible to the cap. The adapter reports no fill price in live mode, so a
  live order that was handed to Alpaca moves no sleeve's book: the cap's verdict on every later request is
  what it was before, and while the book says flat, every reduce-only order of the sleeve is refused.
\<close>

theorem live_alpaca_book_never_moves:
  assumes "create_order cl (\<lambda>s. s) req key st = (res, st')"
    and "xs_sent st' = xs_sent st @ [(key, AlpacaBroker False, r)]"
  shows "net_position ok sid y en ac (xs_journal st') = net_position ok sid y en ac (xs_journal st) \<and>
    position_cap_refusal cl' r' routed' (xs_journal st') = position_cap_refusal cl' r' routed' (xs_journal st) \<and>
    (rq_reduce_only r' \<and> net_position (cl_journal_read cl') (rq_strategy_id r') (rq_symbol r')
       (environment_of_route routed') (rq_account_id r') (xs_journal st) = Some 0 \<longrightarrow>
     position_cap_refusal cl' r' routed' (xs_journal st') = Some [S ''reduce_only_no_position''])"
proof -
  have same: "filter (in_book sid y en ac) (jn_executions (xs_journal st')) = filter (in_book sid y en ac) (jn_executions (xs_journal st))
      \<and> jn_enabled (xs_journal st') = jn_enabled (xs_journal st)" for sid y en ac
    using assms(1)
  proof (cases rule: create_order_cases)
    case quiet
    with assms(2) show ?thesis by simp
  next
    case (submit sy routed a rt w)
    have a: "a = AlpacaBroker False" using assms(2) submit_sends [of cl "\<lambda>s. s"] submit(3) by (metis append1_eq_conv moved_on_sel(4) prod.inject snd_conv)
    obtain bres pb where pl: "adapter_place cl a (req\<lparr>rq_symbol := sy\<rparr>) (xs_paper (moved_on st rt w)) = (bres, pb)" by fastforce
    have np: "br_fill_price bres = None" using pl live_alpaca_no_fill by (auto simp: a adapter_place_def)
    from submit(3) pl show ?thesis
      by (cases rule: submit_order_cases)
        (auto simp: record_execution_def execution_row_of_def quality_report_def np in_book_def Let_def)
  qed
  have np: "net_position ok sid y en ac (xs_journal st') = net_position ok sid y en ac (xs_journal st)" for ok sid y en ac
    using same by (simp add: net_position_def)
  show ?thesis by (simp add: np position_cap_refusal_def dust_def)
qed

definition demo_live_exec :: exec_state where
  "demo_live_exec = demo_exec\<lparr>xs_router := demo_router, xs_lifecycle := quiet demo_live_db\<rparr>"

definition demo_live_request :: execution_order_request where
  "demo_live_request = (demo_request ''BUY'' 10)\<lparr>rq_fields_set := [''strategy_id'', ''account_id'']\<rparr>"

definition demo_live_exec1 :: exec_state where
  "demo_live_exec1 = snd (create_order ((demo_call ''u1'')\<lparr>cl_now := 20\<rparr>) (\<lambda>s. s) demo_live_request ''k1'' demo_live_exec)"

theorem live_alpaca_book_never_moves_witness:
  "map fst (xs_sent demo_live_exec1) = [''k1''] \<and>
   net_position True ''sma'' ''AAPL'' ''live'' ''default'' (xs_journal demo_live_exec1) =
     net_position True ''sma'' ''AAPL'' ''live'' ''default'' (xs_journal demo_live_exec)"
proof -
  obtain res where r: "create_order ((demo_call ''u1'')\<lparr>cl_now := 20\<rparr>) (\<lambda>s. s) demo_live_request ''k1'' demo_live_exec
      = (res, demo_live_exec1)"
    by (metis demo_live_exec1_def prod.collapse)
  have s: "xs_sent demo_live_exec1 = xs_sent demo_live_exec @ [(''k1'', AlpacaBroker False, demo_live_request)]" by code_simp
  have "map fst (xs_sent demo_live_exec1) = [''k1'']" by code_simp
  with live_alpaca_book_never_moves [OF r s] show ?thesis by blast
qed

text \<open>
  a close takes what the other sleeves hold. Asked to close one sleeve's position without a quantity, the
  service closes everything the simulator holds of the symbol, whichever sleeve bought it, and books the
  whole of it to the sleeve that asked: its book is off by exactly what the others hold.
\<close>

theorem close_takes_whole_symbol:
  assumes "mirrored st" and "prices_ok cl" and "cl_journal_write cl"
    and "sanitize_symbol (cq_symbol q) = Inr sy" and "holding (pb_state (xs_paper st)) sy \<noteq> 0"
    and "cq_units q = None" and "cq_qty q = None"
    and "close_order cl q st = (Inr resp, st')" and "cs_environment resp = ''paper''" and "cs_status resp = ''closed''"
    and "net_position True (cq_strategy_id q) sy ''paper'' (cq_account_id q) (xs_journal st) = Some n"
  shows "holding (pb_state (xs_paper st')) sy = 0 \<and>
    net_position True (cq_strategy_id q) sy ''paper'' (cq_account_id q) (xs_journal st') =
      Some (n - holding (pb_state (xs_paper st)) sy)"
  using assms(8)
proof (cases rule: close_order_cases)
  case (closed sy' routed a rt w units f)
  have sy: "sy' = sy" "upper sy = sy" "sy \<noteq> []" and un: "units = None"
    using closed(1,4) assms(4,6,7) sanitized_upper [OF assms(4)] by simp_all
  have env: "environment_of_route routed = ''paper''" and conf: "fill_confirmed f units"
    using closed(7) assms(9,10) by (auto split: if_splits)
  have a: "a = PaperBroker"
    using route_order_adapter [of "xs_router st"] assms(1) closed(2,3) env
    by (auto simp: mirrored_def environment_of_route_def split: if_splits)
  have ok: "ledger_ok (pb_state (xs_paper st))" "jn_enabled (xs_journal st)" using assms(1) by (simp_all add: mirrored_def books_ok_def)
  from closed(5) obtain o' where o': "paper_close_position (cl_paper_config cl) (cl_mark cl) (cl_disk_ok cl) (cl_external_id cl)
      (cl_now cl) (cq_position_id q) units (Some sy) (xs_paper st) = (Some o', xs_paper st')" "f = paper_close_fill o'"
    by (auto simp: adapter_close_def a sy split: prod.splits)
  have q: "po_qty o' = \<bar>holding (pb_state (xs_paper st)) sy\<bar>"
  proof -
    obtain k p price where k: "map_of (ps_positions (pb_state (xs_paper st))) k = Some p" "po_symbol o' = k"
      "po_qty o' = (case units of None \<Rightarrow> \<bar>pp_qty p\<bar> | Some u \<Rightarrow> if u = 0 then \<bar>pp_qty p\<bar> else min \<bar>u\<bar> \<bar>pp_qty p\<bar>)"
      by (rule close_position_Some [OF o'(1)])
    moreover have "po_symbol o' = sy" using close_position_fill [OF o'(1)] assms(5) sy by simp
    ultimately show ?thesis by (simp add: un holding_def)
  qed
  note rep = paper_close_reported(2) [OF ok(1) assms(2) sy(2,3) o'(1) assms(5), folded o'(2), where q = "q\<lparr>cq_symbol := sy\<rparr>" and routed = routed]
    and held = paper_close_reported(3) [OF ok(1) assms(2) sy(2,3) o'(1) assms(5), folded o'(2), where q = "q\<lparr>cq_symbol := sy\<rparr>" and routed = routed]
  have "signed_report (close_report (q\<lparr>cq_symbol := sy\<rparr>) f units routed) = - holding (pb_state (xs_paper st)) sy"
    using rep q by (auto split: if_splits)
  with held [of sy] net_after_record [OF ok(2) assms(11), of "cl_now cl" "close_report (q\<lparr>cq_symbol := sy\<rparr>) f units routed"]
    closed(6) conf env assms(3) show ?thesis by (simp add: sy close_report_def)
qed simp

text \<open>A second strategy buys three; then the first one closes.\<close>

definition demo_exec2 :: exec_state where
  "demo_exec2 = snd (create_order (demo_call ''u2'') (\<lambda>s. s) ((demo_request ''BUY'' 3)\<lparr>rq_strategy_id := ''ema''\<rparr>) ''k2'' demo_exec1)"

definition demo_close :: close_request where
  "demo_close = \<lparr>cq_symbol = ''AAPL'', cq_position_id = ''u1'', cq_signal_id = ''stop'', cq_units = None, cq_qty = None,
     cq_strategy_id = ''sma'', cq_account_id = ''default'', cq_fields_set = []\<rparr>"

definition demo_exec3 :: exec_state where
  "demo_exec3 = snd (close_order (demo_call ''u3'') demo_close demo_exec2)"

lemma demo_fresh_ids2: "fresh_ids (demo_call ''u2'') demo_exec1"
proof -
  have o: "map (\<lambda>x. (or_order_id x, or_external_order_id x)) (xs_orders demo_exec1) = [(''u1'', ''u1'')]" by code_simp
  then have ids: "or_order_id ` set (xs_orders demo_exec1) = {''u1''}" "or_external_order_id ` set (xs_orders demo_exec1) = {''u1''}"
    by auto
  have "br_external_order_id (fst (adapter_place (demo_call ''u2'') a r (xs_paper demo_exec1))) = ''u2''" for a r
    by (cases a) (auto simp: adapter_place_def demo_call_def alpaca_place_order_def etoro_place_order_def reject_def
        paper_place_order_def Let_def split: option.splits)
  then show ?thesis by (simp add: fresh_ids_def ids) (simp add: demo_call_def)
qed

lemma demo_mirrored: "mirrored demo_exec2"
proof -
  obtain res where r: "create_order (demo_call ''u2'') (\<lambda>s. s) ((demo_request ''BUY'' 3)\<lparr>rq_strategy_id := ''ema''\<rparr>) ''k2'' demo_exec1
      = (res, demo_exec2)" by (metis demo_exec2_def prod.collapse)
  have "book_step demo_exec1 demo_exec2"
    by (rule book_step.order [OF demo_fresh_ids2 demo_prices _ _ _ r]) (simp_all add: demo_call_def demo_request_def)
  from books.reach_inv [OF reach_step [OF demo_books_reach this]] show ?thesis .
qed

theorem close_takes_whole_symbol_witness:
  "holding (pb_state (xs_paper demo_exec3)) ''AAPL'' = 0 \<and>
   net_position True ''sma'' ''AAPL'' ''paper'' ''default'' (xs_journal demo_exec3) = Some (- 3)"
proof -
  have ok: "case fst (close_order (demo_call ''u3'') demo_close demo_exec2) of Inl e \<Rightarrow> False
      | Inr x \<Rightarrow> cs_environment x = ''paper'' \<and> cs_status x = ''closed''" by code_simp
  then obtain resp where r: "close_order (demo_call ''u3'') demo_close demo_exec2 = (Inr resp, demo_exec3)"
    "cs_environment resp = ''paper''" "cs_status resp = ''closed''"
    by (cases "close_order (demo_call ''u3'') demo_close demo_exec2") (auto simp: demo_exec3_def split: sum.splits)
  have h: "holding (pb_state (xs_paper demo_exec2)) ''AAPL'' = 13"
    "net_position True ''sma'' ''AAPL'' ''paper'' ''default'' (xs_journal demo_exec2) = Some 10"
    "sanitize_symbol (cq_symbol demo_close) = Inr ''AAPL''" by code_simp+
  from close_takes_whole_symbol [OF demo_mirrored demo_prices _ h(3) _ _ _ r] h show ?thesis
    by (simp add: demo_call_def demo_close_def)
qed

text \<open>
  A close that names a symbol nobody holds and the position of another one sells the other and books the sale to the symbol
  it named: the simulator is flat and the journal still long.
\<close>

lemma close_books_the_wrong_symbol:
  "holding (pb_state (xs_paper (snd (close_order (demo_call ''u3'') (demo_close\<lparr>cq_symbol := ''MSFT''\<rparr>) demo_exec1)))) ''AAPL'' = 0 \<and>
   paper_book ''AAPL'' (xs_journal (snd (close_order (demo_call ''u3'') (demo_close\<lparr>cq_symbol := ''MSFT''\<rparr>) demo_exec1))) = 10"
  by code_simp

end
