(* ===== verification/Portfolio.thy ===== *)
theory Portfolio
  imports Order_Books
begin

text \<open>
  \<open>services/portfolio-service/src/portfolio_service/reconcile.py\<close> and \<open>main.py\<close>: positions derived from the
  fills of the execution service (\<open>fill_record\<close>, read in time order by \<open>execution_reader.py\<close>), the snapshot
  and the tables the endpoint keeps. The SHA-256 of the inputs is an argument.
\<close>

subsection \<open>One symbol\<close>

record position_state =
  ss_net_qty :: int
  ss_average_cost :: rat
  ss_realized_pnl :: rat
  ss_last_fill_price :: rat

definition flat_state :: position_state where
  "flat_state = \<lparr>ss_net_qty = 0, ss_average_cost = 0, ss_realized_pnl = 0, ss_last_fill_price = 0\<rparr>"

definition signed_fill_qty :: "fill_record \<Rightarrow> int" where
  "signed_fill_qty f = (if upper (fl_side f) = ''BUY'' then fl_qty f else - fl_qty f)"

definition apply_fill :: "fill_record \<Rightarrow> position_state \<Rightarrow> position_state" where
  "apply_fill f st0 =
     (let q = signed_fill_qty f; p = fl_price f; st = st0\<lparr>ss_last_fill_price := p\<rparr>; n = ss_net_qty st; avg = ss_average_cost st in
      if n = 0 \<or> (0 < n \<and> 0 < q) \<or> (n < 0 \<and> q < 0) then
        (let new_qty = n + q; total_cost = of_int \<bar>n\<bar> * avg + of_int \<bar>q\<bar> * p
         in st\<lparr>ss_net_qty := new_qty, ss_average_cost := (if new_qty = 0 then 0 else total_cost / of_int \<bar>new_qty\<bar>)\<rparr>)
      else
        (let closing = of_int (min \<bar>n\<bar> \<bar>q\<bar>);
             gain = (if 0 < n then closing * (p - avg) else closing * (avg - p));
             st' = st\<lparr>ss_realized_pnl := ss_realized_pnl st + gain\<rparr>; remaining = n + q
         in if remaining = 0 then st'\<lparr>ss_net_qty := 0, ss_average_cost := 0\<rparr>
            else if (0 < n \<and> 0 < remaining) \<or> (n < 0 \<and> remaining < 0) then st'\<lparr>ss_net_qty := remaining\<rparr>
            else st'\<lparr>ss_net_qty := remaining, ss_average_cost := p\<rparr>))"

definition compute_unrealized :: "int \<Rightarrow> rat \<Rightarrow> rat \<Rightarrow> rat" where
  "compute_unrealized n avg price =
     (if 0 < n then of_int n * (price - avg) else if n < 0 then of_int \<bar>n\<bar> * (avg - price) else 0)"

subsection \<open>The portfolio\<close>

record portfolio_position =
  pn_symbol :: string
  pn_net_qty :: int
  pn_average_cost :: rat
  pn_realized_pnl :: rat
  pn_unrealized_pnl :: rat
  pn_market_price :: rat
  pn_market_value :: rat
  pn_updated_at :: instant

record portfolio_snapshot =
  sn_as_of :: instant
  sn_positions :: "portfolio_position list"
  sn_realized_pnl :: rat
  sn_unrealized_pnl :: rat
  sn_gross_exposure :: rat

record reconcile_request =
  pr_latest_quotes :: "string \<Rightarrow> rat option"
  pr_as_of :: "instant option"

record reconcile_response =
  rs_snapshot :: portfolio_snapshot
  rs_processed_fill_count :: nat
  rs_idempotent :: bool
  rs_reconcile_key :: string

text \<open>\<open>positions.setdefault(symbol, ...)\<close> followed by \<open>_apply_fill\<close>, over the fills in time order.\<close>

definition book_fill :: "fill_record \<Rightarrow> (string \<times> position_state) list \<Rightarrow> (string \<times> position_state) list" where
  "book_fill f ps = AList.update (fl_symbol f)
     (apply_fill f (case map_of ps (fl_symbol f) of None \<Rightarrow> flat_state | Some s \<Rightarrow> s)) ps"

definition derive_positions :: "fill_record list \<Rightarrow> (string \<times> position_state) list" where
  "derive_positions fills = fold book_fill (sort_key (\<lambda>f. (fl_filled_at f, fl_fill_id f)) fills) []"

definition default_as_of :: "instant \<Rightarrow> fill_record list \<Rightarrow> instant" where
  "default_as_of now fills = (if fills = [] then now else Max (fl_filled_at ` set fills))"

definition position_row :: "reconcile_request \<Rightarrow> instant \<Rightarrow> string \<times> position_state \<Rightarrow> portfolio_position" where
  "position_row req as_of kv =
     (let s = snd kv;
          market_price = (case pr_latest_quotes req (fst kv) of Some p \<Rightarrow> p
            | None \<Rightarrow> if ss_last_fill_price s \<noteq> 0 then ss_last_fill_price s else ss_average_cost s)
      in \<lparr>pn_symbol = fst kv, pn_net_qty = ss_net_qty s, pn_average_cost = py_round 6 (ss_average_cost s),
          pn_realized_pnl = py_round 6 (ss_realized_pnl s),
          pn_unrealized_pnl = py_round 6 (compute_unrealized (ss_net_qty s) (ss_average_cost s) market_price),
          pn_market_price = py_round 6 market_price, pn_market_value = py_round 6 (of_int (ss_net_qty s) * market_price),
          pn_updated_at = as_of\<rparr>)"

definition mark_price :: "reconcile_request \<Rightarrow> string \<times> position_state \<Rightarrow> rat" where
  "mark_price req kv =
     (case pr_latest_quotes req (fst kv) of Some p \<Rightarrow> p
      | None \<Rightarrow> if ss_last_fill_price (snd kv) \<noteq> 0 then ss_last_fill_price (snd kv) else ss_average_cost (snd kv))"

text \<open>The loop over the sorted symbols skips a flat one before it adds anything.\<close>

definition open_positions :: "fill_record list \<Rightarrow> (string \<times> position_state) list" where
  "open_positions fills = filter (\<lambda>kv. ss_net_qty (snd kv) \<noteq> 0) (sort_key fst (derive_positions fills))"

definition reconcile_portfolio ::
  "(fill_record list \<times> reconcile_request \<Rightarrow> string) \<Rightarrow> instant \<Rightarrow> fill_record list \<Rightarrow> reconcile_request \<Rightarrow> reconcile_response" where
  "reconcile_portfolio digest now fills req =
     (let as_of = (case pr_as_of req of Some t \<Rightarrow> t | None \<Rightarrow> default_as_of now fills); ops = open_positions fills in
      \<lparr>rs_snapshot = \<lparr>sn_as_of = as_of, sn_positions = map (position_row req as_of) ops,
         sn_realized_pnl = py_round 6 (sum_list (map (\<lambda>kv. ss_realized_pnl (snd kv)) ops)),
         sn_unrealized_pnl = py_round 6 (sum_list (map (\<lambda>kv.
            compute_unrealized (ss_net_qty (snd kv)) (ss_average_cost (snd kv)) (mark_price req kv)) ops)),
         sn_gross_exposure = py_round 6 (sum_list (map (\<lambda>kv. \<bar>of_int (ss_net_qty (snd kv)) * mark_price req kv\<bar>) ops))\<rparr>,
       rs_processed_fill_count = length fills, rs_idempotent = False, rs_reconcile_key = digest (fills, req)\<rparr>)"

subsection \<open>The service\<close>

record portfolio_db =
  pt_positions :: "portfolio_position list"
  pt_snapshots :: "reconcile_response list"

definition reconcile_endpoint ::
  "(fill_record list \<times> reconcile_request \<Rightarrow> string) \<Rightarrow> instant \<Rightarrow> fill_record list \<Rightarrow> reconcile_request \<Rightarrow> portfolio_db
     \<Rightarrow> reconcile_response \<times> portfolio_db" where
  "reconcile_endpoint digest now fills req db =
     (let response = reconcile_portfolio digest now (sort_key (\<lambda>f. (fl_filled_at f, fl_fill_id f)) fills) req in
      case find (\<lambda>r. rs_reconcile_key r = rs_reconcile_key response) (pt_snapshots db) of
        Some existing \<Rightarrow> (existing\<lparr>rs_idempotent := True\<rparr>, db)
      | None \<Rightarrow> (response, db\<lparr>pt_positions := sn_positions (rs_snapshot response), pt_snapshots := pt_snapshots db @ [response]\<rparr>))"

definition list_positions :: "portfolio_db \<Rightarrow> portfolio_position list" where
  "list_positions db = sort_key pn_symbol (pt_positions db)"

subsection \<open>Accounting\<close>

text \<open>What a symbol's fills add up to: shares, and the cash paid for them.\<close>

definition shares :: "string \<Rightarrow> fill_record list \<Rightarrow> int" where
  "shares y fills = sum_list (map signed_fill_qty (filter (\<lambda>f. fl_symbol f = y) fills))"

definition paid :: "string \<Rightarrow> fill_record list \<Rightarrow> rat" where
  "paid y fills = sum_list (map (\<lambda>f. of_int (signed_fill_qty f) * fl_price f) (filter (\<lambda>f. fl_symbol f = y) fills))"

definition state_of :: "string \<Rightarrow> (string \<times> position_state) list \<Rightarrow> position_state" where
  "state_of y ps = (case map_of ps y of None \<Rightarrow> flat_state | Some s \<Rightarrow> s)"

lemma apply_fill_qty: "ss_net_qty (apply_fill f st) = ss_net_qty st + signed_fill_qty f"
  by (simp add: apply_fill_def Let_def)

definition balanced :: "position_state \<Rightarrow> rat \<Rightarrow> bool" where
  "balanced st cash = (of_int (ss_net_qty st) * ss_average_cost st - ss_realized_pnl st = cash)"

lemma apply_fill_balanced:
  assumes "balanced st cash"
  shows "balanced (apply_fill f st) (cash + of_int (signed_fill_qty f) * fl_price f)"
proof -
  define n q a r p where v: "n = ss_net_qty st" "q = signed_fill_qty f" "a = ss_average_cost st" "r = ss_realized_pnl st" "p = fl_price f"
  have bal: "of_int n * a - r = cash" using assms by (simp add: balanced_def v)
  consider (add) "n = 0 \<or> (0 < n \<and> 0 < q) \<or> (n < 0 \<and> q < 0)" | (long) "0 < n" "q \<le> 0" | (short) "n < 0" "0 \<le> q"
    by linarith
  then show ?thesis
  proof cases
    case add
    then have "of_int (n + q) * (if n + q = 0 then 0 else (of_int \<bar>n\<bar> * a + of_int \<bar>q\<bar> * p) / of_int \<bar>n + q\<bar>) =
        of_int n * a + of_int q * p" by (auto simp: abs_if field_simps)
    moreover have "ss_average_cost (apply_fill f st) = (if n + q = 0 then 0 else (of_int \<bar>n\<bar> * a + of_int \<bar>q\<bar> * p) / of_int \<bar>n + q\<bar>)"
      "ss_realized_pnl (apply_fill f st) = r"
      using add by (simp_all add: apply_fill_def Let_def flip: v)
    ultimately show ?thesis using bal by (simp only: balanced_def apply_fill_qty flip: v)
  next
    case long
    with bal show ?thesis
      by (auto simp: balanced_def apply_fill_def Let_def min_def abs_if algebra_simps add_eq_0_iff simp flip: v)
  next
    case short
    with bal show ?thesis
      by (auto simp: balanced_def apply_fill_def Let_def min_def abs_if algebra_simps add_eq_0_iff simp flip: v)
  qed
qed

lemma state_of_book:
  "state_of y (book_fill f ps) = (if fl_symbol f = y then apply_fill f (state_of y ps) else state_of y ps)"
  by (simp add: state_of_def book_fill_def update_conv')

lemma fold_book:
  "ss_net_qty (state_of y (fold book_fill fs ps)) = ss_net_qty (state_of y ps) + shares y fs"
  by (induction fs arbitrary: ps) (simp_all add: shares_def state_of_book apply_fill_qty)

lemma fold_book_balanced:
  "balanced (state_of y ps) cash \<Longrightarrow> balanced (state_of y (fold book_fill fs ps)) (cash + paid y fs)"
proof (induction fs arbitrary: ps cash)
  case (Cons f fs)
  have "balanced (state_of y (book_fill f ps)) (if fl_symbol f = y then cash + of_int (signed_fill_qty f) * fl_price f else cash)"
    using Cons.prems by (simp add: state_of_book apply_fill_balanced)
  from Cons.IH [OF this] show ?case by (auto simp: paid_def add.assoc)
qed (simp add: paid_def)

lemma sum_list_filter_sort:
  fixes g :: "'a \<Rightarrow> 'b :: comm_monoid_add"
  shows "sum_list (map g (filter p (sort_key k xs))) = sum_list (map g (filter p xs))"
proof -
  have "sum_mset (mset (map g (filter p (sort_key k xs)))) = sum_mset (mset (map g (filter p xs)))"
    by (simp only: mset_map mset_filter mset_sort)
  then show ?thesis by (simp only: sum_mset_sum_list)
qed

lemma derive_shares: "ss_net_qty (state_of y (derive_positions fills)) = shares y fills"
  by (simp add: derive_positions_def fold_book) (simp add: shares_def sum_list_filter_sort state_of_def flat_state_def)

lemma derive_balanced: "balanced (state_of y (derive_positions fills)) (paid y fills)"
proof -
  have "balanced (state_of y []) 0" by (simp add: balanced_def state_of_def flat_state_def)
  from fold_book_balanced [OF this, of "sort_key (\<lambda>f. (fl_filled_at f, fl_fill_id f)) fills"] show ?thesis
    by (simp add: derive_positions_def paid_def sum_list_filter_sort)
qed

lemma distinct_book: "distinct (map fst ps) \<Longrightarrow> distinct (map fst (fold book_fill fs ps))"
  by (induction fs arbitrary: ps) (simp_all add: book_fill_def distinct_update)

lemma distinct_derive: "distinct (map fst (derive_positions fills))"
  by (simp add: derive_positions_def distinct_book)

lemma open_positions_mem:
  "(y, s) \<in> set (open_positions fills) \<longleftrightarrow> map_of (derive_positions fills) y = Some s \<and> ss_net_qty s \<noteq> 0"
  using distinct_derive [of fills] by (auto simp: open_positions_def map_of_eq_Some_iff)

lemma open_position_state: "(y, s) \<in> set (open_positions fills) \<Longrightarrow> s = state_of y (derive_positions fills)"
  by (simp add: open_positions_mem state_of_def)

lemma open_position_held: "shares y fills \<noteq> 0 \<longleftrightarrow> (\<exists>s. (y, s) \<in> set (open_positions fills))"
  using derive_shares [of y fills]
  by (auto simp: open_positions_mem state_of_def flat_state_def split: option.splits)

subsection \<open>Properties\<close>

text \<open>
  C20: The derived ledger accounts for every fill. For every symbol and any set of fills, in any order, with
  reversals and closes: the net quantity is the signed sum of the fills, and the cost of what is held less the
  realised profit is exactly the cash the fills paid.
\<close>

theorem ledger_accounts_for_every_fill:
  "ss_net_qty (state_of y (derive_positions fills)) = shares y fills \<and>
   of_int (ss_net_qty (state_of y (derive_positions fills))) * ss_average_cost (state_of y (derive_positions fills))
     - ss_realized_pnl (state_of y (derive_positions fills)) = paid y fills"
  using derive_shares derive_balanced by (simp add: balanced_def)

text \<open>
  The snapshot lists what is held and nothing else. A symbol appears in it, once, exactly when its fills do
  not net to zero, with that net quantity.
\<close>

theorem snapshot_lists_holdings:
  "distinct (map pn_symbol (sn_positions (rs_snapshot (reconcile_portfolio digest now fills req)))) \<and>
   (\<forall>y n. (\<exists>r \<in> set (sn_positions (rs_snapshot (reconcile_portfolio digest now fills req))). pn_symbol r = y \<and> pn_net_qty r = n) \<longleftrightarrow>
     n = shares y fills \<and> n \<noteq> 0)"
proof -
  let ?rows = "sn_positions (rs_snapshot (reconcile_portfolio digest now fills req))"
  have "map pn_symbol ?rows = map fst (open_positions fills)"
    by (simp add: reconcile_portfolio_def Let_def position_row_def)
  moreover have "distinct (map fst (open_positions fills))"
    using distinct_derive [of fills] by (auto simp: open_positions_def distinct_map inj_on_def)
  moreover have "(\<exists>r \<in> set ?rows. pn_symbol r = y \<and> pn_net_qty r = n) \<longleftrightarrow> (\<exists>s. (y, s) \<in> set (open_positions fills) \<and> ss_net_qty s = n)" for y n
    by (force simp: reconcile_portfolio_def Let_def position_row_def)
  moreover have "(\<exists>s. (y, s) \<in> set (open_positions fills) \<and> ss_net_qty s = n) \<longleftrightarrow> n = shares y fills \<and> n \<noteq> 0" for y n
    using derive_shares [of y fills] open_position_held [of y fills] open_position_state [of y _ fills] by metis
  ultimately show ?thesis by simp
qed

text \<open>
  Profit on a closed position disappears from the total. The realised total of a snapshot counts only
  symbols still held: a symbol whose fills net to zero adds nothing, although its realised profit is what its
  sales brought over what its purchases cost.
\<close>

theorem closed_profit_not_reported:
  assumes "shares y fills = 0"
  shows "sn_realized_pnl (rs_snapshot (reconcile_portfolio digest now fills req)) =
      py_round 6 (sum_list (map (\<lambda>kv. ss_realized_pnl (snd kv)) (filter (\<lambda>kv. fst kv \<noteq> y) (open_positions fills)))) \<and>
    ss_realized_pnl (state_of y (derive_positions fills)) = - paid y fills"
proof -
  have "filter (\<lambda>kv. fst kv \<noteq> y) (open_positions fills) = open_positions fills"
    using open_position_held [of y fills] assms by (auto simp: filter_id_conv)
  moreover have "ss_realized_pnl (state_of y (derive_positions fills)) = - paid y fills"
    using derive_balanced [of y fills] derive_shares [of y fills] assms by (simp add: balanced_def)
  ultimately show ?thesis by (simp add: reconcile_portfolio_def Let_def)
qed

definition demo_ledger_fill :: "string \<Rightarrow> string \<Rightarrow> int \<Rightarrow> rat \<Rightarrow> instant \<Rightarrow> fill_record" where
  "demo_ledger_fill fid side q p t = \<lparr>fl_fill_id = fid, fl_order_id = fid, fl_external_order_id = fid, fl_signal_id = fid,
     fl_symbol = ''AAPL'', fl_side = side, fl_qty = q, fl_price = p, fl_filled_at = t\<rparr>"

definition demo_ledger_fills :: "fill_record list" where
  "demo_ledger_fills = [demo_ledger_fill ''f1'' ''BUY'' 10 100 1, demo_ledger_fill ''f2'' ''SELL'' 10 150 2]"

definition no_quotes :: reconcile_request where
  "no_quotes = \<lparr>pr_latest_quotes = (\<lambda>_. None), pr_as_of = None\<rparr>"

theorem closed_profit_not_reported_witness:
  "sn_realized_pnl (rs_snapshot (reconcile_portfolio (\<lambda>_. []) 0 demo_ledger_fills no_quotes)) = 0 \<and>
   ss_realized_pnl (state_of ''AAPL'' (derive_positions demo_ledger_fills)) = 500"
proof -
  have "shares ''AAPL'' demo_ledger_fills = 0" "paid ''AAPL'' demo_ledger_fills = - 500" "open_positions demo_ledger_fills = []" by code_simp+
  moreover have "py_round 6 0 = 0" by code_simp
  ultimately show ?thesis using closed_profit_not_reported [of "''AAPL''" demo_ledger_fills "\<lambda>_. []" 0 no_quotes] by simp
qed

end
