(* ===== verification/Reconciliation.thy ===== *)
theory Reconciliation
  imports Portfolio
begin

text \<open>
  \<open>services/autonomy-orchestrator/src/autonomy_orchestrator/reconciliation.py\<close>: the comparison of the broker's
  positions with the derived ledger, the counter that decides when a divergence is believed, and the job
  \<open>_run_reconciliation\<close> of \<open>main.py\<close> that writes the verdict to the latch of the lifecycle store. What the two
  services answer is an argument: rows with the JSON fields the comparison reads, or the exception.
\<close>

subsection \<open>Comparison\<close>

record view_row =
  vr_symbol :: string
  vr_account_id :: "string option"
  vr_broker :: "string option"
  vr_asset_class :: "string option"
  vr_qty :: "rat option"
  vr_net_qty :: "rat option"

type_synonym position_key = "string \<times> string \<times> string \<times> string"

record position_break =
  pk_key :: position_key
  pk_broker_qty :: rat
  pk_ledger_qty :: rat

definition QTY_TOLERANCE :: rat where
  "QTY_TOLERANCE = 1 / 10 ^ 6"

definition break_kind :: "position_break \<Rightarrow> string" where
  "break_kind b = (if pk_ledger_qty b = 0 then ''untracked_position''
     else if pk_broker_qty b = 0 then ''phantom_position'' else ''quantity_mismatch'')"

definition break_identity :: "position_break \<Rightarrow> msg" where
  "break_identity b = (case pk_key b of (symbol, account, broker, _) \<Rightarrow>
     [S symbol] @ (if account \<noteq> [] then [S '' acct='', S account] else []) @
     (if broker \<noteq> [] then [S '' broker='', S broker] else []))"

definition describe_break :: "position_break \<Rightarrow> msg" where
  "describe_break b = break_identity b @ [S '': broker '', F ''g'' (Fin (pk_broker_qty b)), S '' vs ledger '',
     F ''g'' (Fin (pk_ledger_qty b)), S '' ('', S (break_kind b), S '')'']"

definition first_qty :: "rat option list \<Rightarrow> rat" where
  "first_qty qs = (case filter (\<lambda>q. q \<noteq> None) qs of Some x # _ \<Rightarrow> x | _ \<Rightarrow> 0)"

definition text_or_empty :: "string option \<Rightarrow> string" where
  "text_or_empty x = (case x of None \<Rightarrow> [] | Some s \<Rightarrow> s)"

definition row_key :: "view_row \<Rightarrow> position_key" where
  "row_key r = (upper (strip (vr_symbol r)), upper (text_or_empty (vr_account_id r)),
     lower (text_or_empty (vr_broker r)), lower (text_or_empty (vr_asset_class r)))"

definition aggregate :: "(view_row \<Rightarrow> rat) \<Rightarrow> view_row list \<Rightarrow> (position_key \<times> rat) list" where
  "aggregate q rows = fold (\<lambda>r totals. if strip (vr_symbol r) = [] then totals
     else AList.update (row_key r) ((case map_of totals (row_key r) of None \<Rightarrow> 0 | Some t \<Rightarrow> t) + q r) totals) rows []"

definition broker_qty_of :: "view_row \<Rightarrow> rat" where
  "broker_qty_of r = first_qty [vr_qty r, vr_net_qty r]"

definition ledger_qty_of :: "view_row \<Rightarrow> rat" where
  "ledger_qty_of r = first_qty [vr_net_qty r, vr_qty r]"

definition total_of :: "(position_key \<times> rat) list \<Rightarrow> position_key \<Rightarrow> rat" where
  "total_of totals k = (case map_of totals k of None \<Rightarrow> 0 | Some t \<Rightarrow> t)"

definition compare_positions :: "view_row list \<Rightarrow> view_row list \<Rightarrow> position_break list" where
  "compare_positions broker_positions ledger_positions =
     (let broker = aggregate broker_qty_of broker_positions; ledger = aggregate ledger_qty_of ledger_positions
      in map (\<lambda>k. \<lparr>pk_key = k, pk_broker_qty = total_of broker k, pk_ledger_qty = total_of ledger k\<rparr>)
           (filter (\<lambda>k. QTY_TOLERANCE < \<bar>total_of broker k - total_of ledger k\<bar>)
             (sort (remdups (map fst broker @ map fst ledger)))))"

subsection \<open>The reconciler\<close>

record reconciliation_result =
  rz_checked_at :: instant
  rz_ok :: bool
  rz_breaks :: "position_break list"
  rz_broker_symbols :: nat
  rz_ledger_symbols :: nat
  rz_error :: "msg option"
  rz_consecutive_breaks :: int
  rz_halted :: bool

record reconciler =
  rn_breaks_before_halt :: int
  rn_consecutive_breaks :: int
  rn_last_result :: "reconciliation_result option"

definition entries_blocked :: "reconciler \<Rightarrow> bool" where
  "entries_blocked rn = (rn_breaks_before_halt rn \<le> rn_consecutive_breaks rn)"

text \<open>What the two services answered: the first exception, or both views.\<close>

type_synonym views = "exn + view_row list \<times> view_row list"

definition reconciler_check :: "instant \<Rightarrow> views \<Rightarrow> reconciler \<Rightarrow> reconciliation_result \<times> reconciler" where
  "reconciler_check now answers rn =
     (case answers of
        Inl e \<Rightarrow>
          (let res = \<lparr>rz_checked_at = now, rz_ok = False, rz_breaks = [], rz_broker_symbols = 0, rz_ledger_symbols = 0,
                      rz_error = Some (exn_text e), rz_consecutive_breaks = rn_consecutive_breaks rn,
                      rz_halted = entries_blocked rn\<rparr>
           in (res, rn\<lparr>rn_last_result := Some res\<rparr>))
      | Inr (broker_positions, ledger_positions) \<Rightarrow>
          (let breaks = compare_positions broker_positions ledger_positions;
               rn' = rn\<lparr>rn_consecutive_breaks := (if breaks \<noteq> [] then rn_consecutive_breaks rn + 1 else 0)\<rparr>;
               res = \<lparr>rz_checked_at = now, rz_ok = (breaks = []), rz_breaks = breaks,
                      rz_broker_symbols = length broker_positions, rz_ledger_symbols = length ledger_positions,
                      rz_error = None, rz_consecutive_breaks = rn_consecutive_breaks rn', rz_halted = entries_blocked rn'\<rparr>
           in (res, rn'\<lparr>rn_last_result := Some res\<rparr>)))"

definition reconciler_reset :: "reconciler \<Rightarrow> reconciler" where
  "reconciler_reset rn = rn\<lparr>rn_consecutive_breaks := 0, rn_last_result := None\<rparr>"

subsection \<open>The scheduled job\<close>

record audit_event =
  ae_event_type :: string
  ae_symbol :: string
  ae_signal_id :: string
  ae_decision :: string
  ae_reasoning :: msg

text \<open>
  \<open>_run_reconciliation\<close>: the check, then, when the store is configured and answers, the durable verdict
  under the environment the account is in; a store that fails is logged and the verdict stays the process's
  own. Whatever diverged or failed is audited.
\<close>

definition run_reconciliation ::
  "store_settings option \<Rightarrow> bool \<Rightarrow> string \<Rightarrow> instant \<Rightarrow> views \<Rightarrow> reconciler \<Rightarrow> db
     \<Rightarrow> reconciliation_result \<times> audit_event list \<times> reconciler \<times> db" where
  "run_reconciliation store answers_store account_id now answers rn d =
     (let (res0, rn') = reconciler_check now answers rn;
          (res, d') =
            (case store of
               None \<Rightarrow> (res0, d)
             | Some cfg \<Rightarrow>
                 if answers_store then
                   (let env = (if live_mode_enabled cfg (Some account_id) d then ''live'' else ''paper'');
                        (durable, d1) = record_reconciliation cfg id env env (rz_ok res0) (int (length (rz_breaks res0)))
                          (case rz_error res0 of None \<Rightarrow> [] | Some m \<Rightarrow> m) (rz_error res0 = None) (Some account_id)
                          (rz_checked_at res0) d
                    in (res0\<lparr>rz_consecutive_breaks := h_consecutive_breaks durable, rz_halted := h_halted durable\<rparr>, d1))
                 else (res0, d));
          events = (if rz_breaks res \<noteq> [] \<or> (\<exists>m \<in> set_option (rz_error res). msg_truthy m) then
              [\<lparr>ae_event_type = ''reconciliation.break'', ae_symbol = [], ae_signal_id = [], ae_decision = ''ALERT'',
                ae_reasoning = (if rz_breaks res \<noteq> [] then msg_join ''; '' (map describe_break (take 5 (rz_breaks res)))
                  else [S ''dependency_unavailable: ''] @ (case rz_error res of None \<Rightarrow> [] | Some m \<Rightarrow> m))\<rparr>] else [])
      in (res, events, rn', d'))"

subsection \<open>Totals\<close>

definition total :: "(view_row \<Rightarrow> rat) \<Rightarrow> view_row list \<Rightarrow> position_key \<Rightarrow> rat" where
  "total q rows k = sum_list (map q (filter (\<lambda>r. strip (vr_symbol r) \<noteq> [] \<and> row_key r = k) rows))"

lemma aggregate_fold:
  "total_of (fold (\<lambda>r totals. if strip (vr_symbol r) = [] then totals
     else AList.update (row_key r) ((case map_of totals (row_key r) of None \<Rightarrow> 0 | Some t \<Rightarrow> t) + q r) totals) rows ts) k
   = total_of ts k + total q rows k"
proof (induction rows arbitrary: ts)
  case (Cons r rows)
  then show ?case by (simp add: total_def total_of_def update_conv')
qed (simp add: total_def)

lemma total_aggregate: "total_of (aggregate q rows) k = total q rows k"
  by (simp add: aggregate_def aggregate_fold) (simp add: total_of_def)

lemma total_of_absent: "k \<notin> set (map fst ts) \<Longrightarrow> total_of ts k = 0"
  by (simp add: total_of_def map_of_eq_None_iff [THEN iffD2])

lemma compare_mem:
  "b \<in> set (compare_positions bs ls) \<longleftrightarrow>
   pk_broker_qty b = total broker_qty_of bs (pk_key b) \<and> pk_ledger_qty b = total ledger_qty_of ls (pk_key b) \<and>
   QTY_TOLERANCE < \<bar>total broker_qty_of bs (pk_key b) - total ledger_qty_of ls (pk_key b)\<bar>"
proof -
  have "k \<in> set (map fst (aggregate broker_qty_of bs)) \<union> set (map fst (aggregate ledger_qty_of ls))"
    if "QTY_TOLERANCE < \<bar>total broker_qty_of bs k - total ledger_qty_of ls k\<bar>" for k
  proof (rule ccontr)
    assume "\<not> ?thesis"
    then have "total broker_qty_of bs k = 0" "total ledger_qty_of ls k = 0"
      using total_of_absent total_aggregate by (metis UnCI)+
    with that show False by (simp add: QTY_TOLERANCE_def)
  qed
  then show ?thesis by (cases b) (auto simp: compare_positions_def total_aggregate Let_def)
qed

lemma compare_distinct: "distinct (map pk_key (compare_positions bs ls))"
  by (simp add: compare_positions_def Let_def comp_def)

subsection \<open>Properties\<close>

text \<open>
  Reconciliation reports exactly the divergences. A key (symbol, account, broker, asset class) is reported,
  once, exactly when the summed quantities of its rows on the two sides differ by more than the tolerance,
  with those two sums, however many lots either side reports and in whatever order.
\<close>

theorem breaks_exact:
  "distinct (map pk_key (compare_positions bs ls)) \<and>
   (\<forall>b. b \<in> set (compare_positions bs ls) \<longleftrightarrow>
     pk_broker_qty b = total broker_qty_of bs (pk_key b) \<and> pk_ledger_qty b = total ledger_qty_of ls (pk_key b) \<and>
     QTY_TOLERANCE < \<bar>pk_broker_qty b - pk_ledger_qty b\<bar>)"
  using compare_distinct compare_mem by metis

text \<open>A run of checks, and how many of the last views it could read diverged without a clean one between.\<close>

definition run_checks :: "(instant \<times> views) list \<Rightarrow> reconciler \<Rightarrow> reconciler" where
  "run_checks cs rn = fold (\<lambda>(t, v) r. snd (reconciler_check t v r)) cs rn"

definition diverged :: "views \<Rightarrow> bool" where
  "diverged v = (case v of Inl e \<Rightarrow> False | Inr (bs, ls) \<Rightarrow> compare_positions bs ls \<noteq> [])"

definition seen :: "(instant \<times> views) list \<Rightarrow> views list" where
  "seen cs = filter (\<lambda>v. \<not> isl v) (map snd cs)"

definition trailing :: "views list \<Rightarrow> nat" where
  "trailing vs = length (takeWhile diverged (rev vs))"

lemma check_counter:
  "rn_consecutive_breaks (snd (reconciler_check t v rn)) =
     (if isl v then rn_consecutive_breaks rn else if diverged v then rn_consecutive_breaks rn + 1 else 0)"
  "rn_breaks_before_halt (snd (reconciler_check t v rn)) = rn_breaks_before_halt rn"
  by (auto simp: reconciler_check_def diverged_def Let_def split: sum.splits)

lemma takeWhile_snoc_rev: "takeWhile p (rev (vs @ [v])) = (if p v then v # takeWhile p (rev vs) else [])"
  by simp

lemma run_checks_counter:
  "rn_consecutive_breaks rn = 0 \<Longrightarrow> rn_consecutive_breaks (run_checks cs rn) = int (trailing (seen cs)) \<and>
   rn_breaks_before_halt (run_checks cs rn) = rn_breaks_before_halt rn"
proof (induction cs rule: rev_induct)
  case (snoc c cs)
  then show ?case
    by (cases c) (auto simp: run_checks_def check_counter seen_def trailing_def)
qed (simp add: run_checks_def seen_def trailing_def)

text \<open>
  C32: A divergence must persist to be believed. After any run of checks a fresh reconciler blocks entries exactly
  when at least the configured number of the latest readable views diverged in a row; a view that could not be
  read neither counts nor resets, and one clean view resets.
\<close>

theorem entries_blocked_iff_persistent:
  assumes "rn_consecutive_breaks rn = 0"
  shows "entries_blocked (run_checks cs rn) \<longleftrightarrow> rn_breaks_before_halt rn \<le> int (length (takeWhile diverged (rev (seen cs))))"
  using run_checks_counter [OF assms] by (simp add: entries_blocked_def trailing_def)

definition fresh_reconciler :: reconciler where
  "fresh_reconciler = \<lparr>rn_breaks_before_halt = 2, rn_consecutive_breaks = 0, rn_last_result = None\<rparr>"

definition demo_row :: "rat \<Rightarrow> view_row" where
  "demo_row q = \<lparr>vr_symbol = '' aapl'', vr_account_id = None, vr_broker = None, vr_asset_class = None, vr_qty = Some q, vr_net_qty = None\<rparr>"

theorem entries_blocked_iff_persistent_witness:
  "entries_blocked (run_checks [(1, Inr ([demo_row 100, demo_row 50], [demo_row 100])), (2, Inl (DatabaseError ''down'')),
     (3, Inr ([demo_row 150], []))] fresh_reconciler)"
proof -
  let ?cs = "[(1 :: instant, Inr ([demo_row 100, demo_row 50], [demo_row 100]) :: views), (2, Inl (DatabaseError ''down'')), (3, Inr ([demo_row 150], []))]"
  have "length (takeWhile diverged (rev (seen ?cs))) = 2" by code_simp
  moreover have "rn_consecutive_breaks fresh_reconciler = 0" "rn_breaks_before_halt fresh_reconciler = 2" by (simp_all add: fresh_reconciler_def)
  ultimately show ?thesis using entries_blocked_iff_persistent [of fresh_reconciler ?cs] by simp
qed

subsection \<open>Closes and the ledger\<close>

text \<open>The rows of \<open>/v1/positions\<close> and of \<open>/v1/portfolio/positions\<close> as the comparison sees them.\<close>

definition row_of_broker :: "broker_position \<Rightarrow> view_row" where
  "row_of_broker p = \<lparr>vr_symbol = bp_symbol p, vr_account_id = None, vr_broker = None, vr_asset_class = None,
     vr_qty = Some (bp_qty p), vr_net_qty = None\<rparr>"

definition row_of_ledger :: "portfolio_position \<Rightarrow> view_row" where
  "row_of_ledger p = \<lparr>vr_symbol = pn_symbol p, vr_account_id = None, vr_broker = None, vr_asset_class = None,
     vr_qty = None, vr_net_qty = Some (of_int (pn_net_qty p))\<rparr>"

text \<open>What a check reads after the portfolio service has just derived its positions.\<close>

definition views_of :: "(fill_record list \<times> reconcile_request \<Rightarrow> string) \<Rightarrow> instant \<Rightarrow> reconcile_request \<Rightarrow> (string \<Rightarrow> rat option) \<Rightarrow> exec_state \<Rightarrow> views" where
  "views_of digest now req mark st =
     Inr (map row_of_broker (paper_positions mark (pb_state (xs_paper st))),
          map row_of_ledger (sn_positions (rs_snapshot (reconcile_portfolio digest now (xs_fills st) req))))"

lemma close_keeps_fills: "close_order cl q st = (res, st') \<Longrightarrow> xs_fills st' = xs_fills st"
  by (auto simp: close_order_def journal_report_def Let_def split: sum.splits prod.splits option.splits if_splits)

definition clean :: "string \<Rightarrow> bool" where
  "clean y = (y \<noteq> [] \<and> strip y = y \<and> upper y = y)"

definition clean_symbols :: "exec_state \<Rightarrow> bool" where
  "clean_symbols st = (list_all (\<lambda>f. clean (fl_symbol f)) (xs_fills st) \<and>
     list_all (\<lambda>(y, p). clean y) (ps_positions (pb_state (xs_paper st))))"

lemma total_one_symbol:
  assumes "\<And>r. r \<in> set rows \<Longrightarrow> clean (vr_symbol r) \<and> vr_account_id r = None \<and> vr_broker r = None \<and> vr_asset_class r = None"
  shows "total q rows (y, [], [], []) = sum_list (map q (filter (\<lambda>r. vr_symbol r = y) rows))"
proof -
  have "filter (\<lambda>r. strip (vr_symbol r) \<noteq> [] \<and> row_key r = (y, [], [], [])) rows = filter (\<lambda>r. vr_symbol r = y) rows"
    using assms by (intro filter_cong) (auto simp: row_key_def clean_def text_or_empty_def upper_def lower_def)
  then show ?thesis by (simp add: total_def)
qed

lemma held_sum:
  "distinct (map fst xs) \<Longrightarrow> \<forall>(a, p) \<in> set xs. pp_symbol p = a \<Longrightarrow>
   sum_list (map pp_qty (filter (\<lambda>p. pp_symbol p = y) (map snd xs))) = (case map_of xs y of None \<Rightarrow> 0 | Some p \<Rightarrow> pp_qty p)"
proof (induction xs)
  case (Cons kp xs)
  have "filter (\<lambda>p. pp_symbol p = y) (map snd xs) = []" if "fst kp = y"
    using Cons.prems that by (force simp: filter_empty_conv image_iff)
  with Cons show ?case by (cases kp) auto
qed simp

lemma broker_total:
  assumes "ledger_ok ps" and "list_all (\<lambda>(y, p). clean y) (ps_positions ps)"
  shows "total broker_qty_of (map row_of_broker (paper_positions mark ps)) (y, [], [], []) = holding ps y"
proof -
  have ok: "distinct (map fst (ps_positions ps))" "\<forall>(a, p) \<in> set (ps_positions ps). pp_symbol p = a"
    and nz: "\<forall>p \<in> set (map snd (ps_positions ps)). pp_qty p \<noteq> 0"
    using assms(1) by (auto simp: ledger_ok_def)
  have all: "filter (\<lambda>p. pp_qty p \<noteq> 0) (map snd (ps_positions ps)) = map snd (ps_positions ps)"
    using nz by (simp add: filter_id_conv)
  have rows: "map row_of_broker (paper_positions mark ps) = map (\<lambda>p. \<lparr>vr_symbol = pp_symbol p, vr_account_id = None, vr_broker = None,
      vr_asset_class = None, vr_qty = Some (pp_qty p), vr_net_qty = None\<rparr>) (map snd (ps_positions ps))"
    unfolding paper_positions_def all by (simp add: row_of_broker_def Let_def)
  have "clean (pp_symbol (snd kp))" if "kp \<in> set (ps_positions ps)" for kp
    using assms(2) ok(2) that by (cases kp) (auto simp: list_all_iff)
  then have "total broker_qty_of (map row_of_broker (paper_positions mark ps)) (y, [], [], [])
      = sum_list (map broker_qty_of (filter (\<lambda>r. vr_symbol r = y) (map row_of_broker (paper_positions mark ps))))"
    by (intro total_one_symbol) (auto simp: rows)
  also have "\<dots> = sum_list (map pp_qty (filter (\<lambda>p. pp_symbol p = y) (map snd (ps_positions ps))))"
    unfolding rows by (simp add: broker_qty_of_def first_qty_def filter_map comp_def)
  also have "\<dots> = holding ps y" using held_sum [OF ok] by (simp add: holding_def)
  finally show ?thesis .
qed

lemma open_symbol_filled:
  assumes "(y, s) \<in> set (open_positions fills)"
  shows "\<exists>f \<in> set fills. fl_symbol f = y"
proof (rule ccontr)
  assume "\<not> ?thesis"
  then have "filter (\<lambda>f. fl_symbol f = y) fills = []" by (auto simp: filter_empty_conv)
  then have "shares y fills = 0" by (simp add: shares_def)
  with assms show False using open_position_held by blast
qed

lemma ledger_total:
  assumes "list_all (\<lambda>f. clean (fl_symbol f)) fills"
  shows "total ledger_qty_of (map row_of_ledger (sn_positions (rs_snapshot (reconcile_portfolio digest now fills req)))) (y, [], [], [])
    = of_int (shares y fills)"
proof -
  let ?ops = "open_positions fills"
  have rows: "map row_of_ledger (sn_positions (rs_snapshot (reconcile_portfolio digest now fills req))) =
      map (\<lambda>kv. \<lparr>vr_symbol = fst kv, vr_account_id = None, vr_broker = None, vr_asset_class = None,
        vr_qty = None, vr_net_qty = Some (of_int (ss_net_qty (snd kv)))\<rparr>) ?ops"
    by (simp add: reconcile_portfolio_def Let_def row_of_ledger_def position_row_def)
  have "clean (fst kv)" if "kv \<in> set ?ops" for kv
    using open_symbol_filled [of "fst kv" "snd kv" fills] that assms by (auto simp: list_all_iff)
  then have "total ledger_qty_of (map row_of_ledger (sn_positions (rs_snapshot (reconcile_portfolio digest now fills req)))) (y, [], [], [])
      = sum_list (map ledger_qty_of (filter (\<lambda>r. vr_symbol r = y) (map row_of_ledger (sn_positions (rs_snapshot (reconcile_portfolio digest now fills req))))))"
    by (intro total_one_symbol) (auto simp: rows)
  also have "\<dots> = sum_list (map (\<lambda>kv. of_int (ss_net_qty (snd kv))) (filter (\<lambda>kv. fst kv = y) ?ops))"
    unfolding rows by (simp add: ledger_qty_of_def first_qty_def filter_map comp_def)
  also have "\<dots> = of_int (shares y fills)"
  proof (cases "\<exists>s. (y, s) \<in> set ?ops")
    case True
    then obtain s where s: "(y, s) \<in> set ?ops" by blast
    have "distinct (map fst ?ops)" using distinct_derive [of fills] by (auto simp: open_positions_def distinct_map inj_on_def)
    from filter_key [OF this s] show ?thesis
      using open_position_state [OF s] derive_shares [of y fills] by simp
  next
    case False
    then have "filter (\<lambda>kv. fst kv = y) ?ops = []" by (auto simp: filter_empty_conv)
    with False show ?thesis using open_position_held [of y fills] by auto
  qed
  finally show ?thesis .
qed

lemma trailing_replicate: "diverged v \<Longrightarrow> \<not> isl v \<Longrightarrow> trailing (seen (replicate n (t, v))) = n"
  by (simp add: trailing_def seen_def takeWhile_replicate)

text \<open>
  A close never reaches the ledger. Closing a position writes to the journal but records no fill, and the
  portfolio is derived from fills alone. So once the broker no longer holds a symbol whose fills do not net to
  zero, reconciliation reports a phantom position of the whole quantity, at once and at every later check, and
  when nothing else changes the reconciler blocks all new entries.
\<close>

theorem close_never_reaches_ledger:
  assumes "close_order cl q st = (res, st')" and "ledger_ok (pb_state (xs_paper st'))" and "clean_symbols st'"
    and "shares y (xs_fills st) \<noteq> 0" and "holding (pb_state (xs_paper st')) y = 0" and "rn_consecutive_breaks rn = 0"
    and "views_of digest now req mark st' = Inr (bs, ls)" and "rn_breaks_before_halt rn \<le> int n"
  shows "\<lparr>pk_key = (y, [], [], []), pk_broker_qty = 0, pk_ledger_qty = of_int (shares y (xs_fills st))\<rparr> \<in> set (compare_positions bs ls) \<and>
    entries_blocked (run_checks (replicate n (now, views_of digest now req mark st')) rn)"
proof -
  have v: "bs = map row_of_broker (paper_positions mark (pb_state (xs_paper st')))"
    "ls = map row_of_ledger (sn_positions (rs_snapshot (reconcile_portfolio digest now (xs_fills st') req)))"
    using assms(7) by (simp_all add: views_of_def)
  have b: "total broker_qty_of bs (y, [], [], []) = 0"
    using broker_total [OF assms(2)] assms(3,5) by (simp add: v clean_symbols_def)
  have l: "total ledger_qty_of ls (y, [], [], []) = of_int (shares y (xs_fills st))"
    using ledger_total [of "xs_fills st'"] assms(3) close_keeps_fills [OF assms(1)] by (simp add: v clean_symbols_def)
  have "1 \<le> \<bar>of_int (shares y (xs_fills st)) :: rat\<bar>" using assms(4) by linarith
  then have "QTY_TOLERANCE < \<bar>0 - of_int (shares y (xs_fills st))\<bar>" by (simp add: QTY_TOLERANCE_def)
  then have brk: "\<lparr>pk_key = (y, [], [], []), pk_broker_qty = 0, pk_ledger_qty = of_int (shares y (xs_fills st))\<rparr> \<in> set (compare_positions bs ls)"
    using b l by (simp add: compare_mem)
  then have "diverged (views_of digest now req mark st')" by (auto simp: diverged_def assms(7))
  moreover have "\<not> isl (views_of digest now req mark st')" by (simp add: assms(7))
  ultimately have "trailing (seen (replicate n (now, views_of digest now req mark st'))) = n" by (rule trailing_replicate)
  with run_checks_counter [OF assms(6)] assms(8) brk show ?thesis by (simp add: entries_blocked_def)
qed

theorem close_never_reaches_ledger_witness:
  "shares ''AAPL'' (xs_fills demo_exec2) = 13 \<and> holding (pb_state (xs_paper demo_exec3)) ''AAPL'' = 0 \<and>
   entries_blocked (run_checks (replicate 2 (9, views_of (\<lambda>_. []) 9 no_quotes (\<lambda>_. None) demo_exec3)) fresh_reconciler)"
proof -
  obtain res where r: "close_order (demo_call ''u3'') demo_close demo_exec2 = (res, demo_exec3)"
    by (metis demo_exec3_def prod.collapse)
  have p: "ps_positions (pb_state (xs_paper demo_exec3)) = []" by code_simp
  have f: "map fl_symbol (xs_fills demo_exec3) = [''AAPL'', ''AAPL'']" by code_simp
  then have "list_all (\<lambda>y. clean y) (map fl_symbol (xs_fills demo_exec3))" by (simp only: f) code_simp
  then have c: "clean_symbols demo_exec3" using p by (simp add: clean_symbols_def list_all_length)
  have k: "ledger_ok (pb_state (xs_paper demo_exec3))" by code_simp
  have n: "shares ''AAPL'' (xs_fills demo_exec2) = 13" by code_simp
  have h: "holding (pb_state (xs_paper demo_exec3)) ''AAPL'' = 0" using p by (simp add: holding_def)
  obtain bs ls where v: "views_of (\<lambda>_. []) 9 no_quotes (\<lambda>_. None) demo_exec3 = Inr (bs, ls)" by (simp add: views_of_def)
  from close_never_reaches_ledger [OF r k c _ h _ v, of fresh_reconciler 2] n h show ?thesis by (simp add: fresh_reconciler_def)
qed

end
