(* ===== verification/Day_Trades.thy ===== *)
theory Day_Trades
  imports Prelude
begin

text \<open>
  \<open>services/autonomy-orchestrator/src/autonomy_orchestrator/day_trade_tracker.py\<close>: the pattern-day-trader
  budget. A session is a calendar date in market time, represented by its ordinal (\<open>date.toordinal\<close>); the
  conversion of a moment to its session is the time-zone database's and happens before the calls below.
  Dictionaries are association lists; the state file holds both of them.
\<close>

subsection \<open>The rolling window\<close>

definition FINRA_DAY_TRADE_LIMIT :: int where
  "FINRA_DAY_TRADE_LIMIT = 4"

definition ROLLING_SESSIONS :: nat where
  "ROLLING_SESSIONS = 5"

text \<open>\<open>date.weekday\<close>: Monday is 0; ordinal 1 is a Monday.\<close>

definition weekday :: "int \<Rightarrow> int" where
  "weekday d = (d + 6) mod 7"

abbreviation workday :: "int \<Rightarrow> bool" where
  "workday d \<equiv> weekday d < 5"

lemma weekday_bounds: "0 \<le> weekday d" "weekday d < 7"
  by (simp_all add: weekday_def)

lemma weekend_step: "\<not> workday d \<Longrightarrow> weekday (d - 1) < weekday d"
  unfolding weekday_def by presburger

function window_loop :: "nat \<Rightarrow> int list \<Rightarrow> int \<Rightarrow> int list" where
  "window_loop sessions dates cursor =
     (if length dates < sessions
      then window_loop sessions (if workday cursor then dates @ [cursor] else dates) (cursor - 1)
      else dates)"
  by pat_completeness auto
termination
  by (relation "measures [\<lambda>(n, ds, c). n - length ds, \<lambda>(n, ds, c). nat (weekday c)]")
    (auto simp: weekday_bounds intro: weekend_step split: if_splits)

declare window_loop.simps [simp del]

definition business_window :: "int \<Rightarrow> nat \<Rightarrow> int list" where
  "business_window today sessions = window_loop sessions [today] (today - 1)"

text \<open>The working days strictly between two dates.\<close>

definition between :: "int \<Rightarrow> int \<Rightarrow> int set" where
  "between d e = {w. d < w \<and> w < e \<and> workday w}"

lemma finite_between [simp]: "finite (between d e)"
  by (rule finite_subset [of _ "{d<..<e}"]) (auto simp: between_def)

lemma between_step:
  "d \<le> c \<Longrightarrow> between d (c + 1) = (if workday c \<and> d < c then insert c (between d c) else between d c)"
  by (auto simp: between_def order.order_iff_strict)

lemma between_simps [simp]: "c \<notin> between d c" "between c c = {}"
  by (auto simp: between_def)

lemma window_loop_set:
  "set (window_loop n ds c) = set ds \<union> {d. d \<le> c \<and> workday d \<and> card (between d (c + 1)) < n - length ds}"
proof (induction n ds c rule: window_loop.induct)
  case (1 n ds c)
  show ?case
  proof (cases "length ds < n")
    case False
    then show ?thesis by (subst window_loop.simps) simp
  next
    case True
    let ?ds = "if workday c then ds @ [c] else ds"
    have step: "d < c \<Longrightarrow> card (between d (c + 1)) = (if workday c then Suc (card (between d c)) else card (between d c))" for d
      by (auto simp: between_step)
    have "set (window_loop n ds c) = set (window_loop n ?ds (c - 1))" using True by (subst window_loop.simps) simp
    also have "\<dots> = set ?ds \<union> {d. d \<le> c - 1 \<and> workday d \<and> card (between d c) < n - length ?ds}"
      using 1 [OF True] by simp
    also have "\<dots> = set ds \<union> {d. d \<le> c \<and> workday d \<and> card (between d (c + 1)) < n - length ds}"
      using True step by (auto simp: between_step [of c c] le_less)
    finally show ?thesis .
  qed
qed

lemma window_loop_length: "length ds \<le> n \<Longrightarrow> length (window_loop n ds c) = n"
proof (induction n ds c rule: window_loop.induct)
  case (1 n ds c)
  then show ?case by (cases "length ds < n") (subst window_loop.simps; force)+
qed

lemma window_loop_distinct:
  "distinct ds \<Longrightarrow> \<forall>d \<in> set ds. c < d \<Longrightarrow> distinct (window_loop n ds c)"
proof (induction n ds c rule: window_loop.induct)
  case (1 n ds c)
  then show ?case by (cases "length ds < n") (subst window_loop.simps; force)+
qed

lemma in_window:
  assumes "0 < n"
  shows "d \<in> set (business_window t n) \<longleftrightarrow> d = t \<or> d < t \<and> workday d \<and> card (between d t) < n - 1"
  using assms by (auto simp: business_window_def window_loop_set)

subsection \<open>The tracker\<close>

record pdt_settings =
  pdt_enabled :: bool
  equity_threshold_usd :: rat
  max_day_trades :: int

definition default_pdt :: pdt_settings where
  "default_pdt = \<lparr>pdt_enabled = True, equity_threshold_usd = 25000, max_day_trades = FINRA_DAY_TRADE_LIMIT - 1\<rparr>"

record pdt_decision =
  pd_allowed :: bool
  pd_reason :: msg
  pd_day_trades_used :: int
  pd_day_trades_remaining :: int
  pd_equity :: "rat option"
  pd_open_today :: int

type_synonym open_sessions = "(string \<times> int) list"
type_synonym trade_counts = "(int \<times> int) list"

record tracker =
  dt_open_sessions :: open_sessions
  dt_day_trades :: trade_counts
  dt_file :: "(open_sessions \<times> trade_counts) option"

definition save_tracker :: "bool \<Rightarrow> tracker \<Rightarrow> tracker" where
  "save_tracker disk_ok t = (if disk_ok then t\<lparr>dt_file := Some (dt_open_sessions t, dt_day_trades t)\<rparr> else t)"

definition count_locked :: "int \<Rightarrow> tracker \<Rightarrow> int" where
  "count_locked today t =
     (let w = business_window today ROLLING_SESSIONS
      in sum_list (map snd (filter (\<lambda>(day, n). day \<in> set w) (dt_day_trades t))))"

definition prune_locked :: "int \<Rightarrow> tracker \<Rightarrow> tracker" where
  "prune_locked today t =
     (let w = business_window today (ROLLING_SESSIONS * 3)
      in t\<lparr>dt_day_trades := filter (\<lambda>(day, n). day \<in> set w) (dt_day_trades t)\<rparr>)"

definition record_open :: "bool \<Rightarrow> string \<Rightarrow> int \<Rightarrow> tracker \<Rightarrow> tracker" where
  "record_open disk_ok symbol today t =
     save_tracker disk_ok
       (if map_of (dt_open_sessions t) (upper symbol) \<noteq> None then t
        else t\<lparr>dt_open_sessions := dt_open_sessions t @ [(upper symbol, today)]\<rparr>)"

definition record_close :: "bool \<Rightarrow> string \<Rightarrow> int \<Rightarrow> tracker \<Rightarrow> bool \<times> tracker" where
  "record_close disk_ok symbol today t =
     (let key = upper symbol; opened_on = map_of (dt_open_sessions t) key;
          t1 = t\<lparr>dt_open_sessions := AList.delete key (dt_open_sessions t)\<rparr>;
          is_day_trade = (opened_on = Some today);
          t2 = (if is_day_trade
                then t1\<lparr>dt_day_trades := AList.update today
                         ((case map_of (dt_day_trades t1) today of None \<Rightarrow> 0 | Some n \<Rightarrow> n) + 1) (dt_day_trades t1)\<rparr>
                else t1)
      in (is_day_trade, save_tracker disk_ok (prune_locked today t2)))"

definition open_today :: "int \<Rightarrow> tracker \<Rightarrow> int" where
  "open_today today t = int (length (filter (\<lambda>(s, opened). opened = today) (dt_open_sessions t)))"

definition check_entry :: "pdt_settings \<Rightarrow> rat option \<Rightarrow> int \<Rightarrow> tracker \<Rightarrow> pdt_decision" where
  "check_entry cfg equity today t =
     (if \<not> pdt_enabled cfg
      then \<lparr>pd_allowed = True, pd_reason = [S ''pdt_disabled''], pd_day_trades_used = 0, pd_day_trades_remaining = 0,
            pd_equity = equity, pd_open_today = 0\<rparr>
      else
        (let used = count_locked today t; opn = open_today today t; committed = used + opn;
             remaining = max 0 (max_day_trades cfg - committed) in
         if (case equity of None \<Rightarrow> False | Some e \<Rightarrow> equity_threshold_usd cfg \<le> e)
         then \<lparr>pd_allowed = True, pd_reason = [S ''above_pdt_equity_threshold''], pd_day_trades_used = used,
               pd_day_trades_remaining = remaining, pd_equity = equity, pd_open_today = opn\<rparr>
         else if max_day_trades cfg \<le> committed
         then \<lparr>pd_allowed = False,
               pd_reason = [S ''pdt_day_trade_limit ('', I used, S '' taken''] @
                 (if opn \<noteq> 0 then [S '' + '', I opn, S '' open today''] else []) @
                 [S '' of '', I (max_day_trades cfg), S '' in '', I (int ROLLING_SESSIONS), S '' sessions)''],
               pd_day_trades_used = used, pd_day_trades_remaining = 0, pd_equity = equity, pd_open_today = opn\<rparr>
         else \<lparr>pd_allowed = True, pd_reason = [S ''within_day_trade_budget''], pd_day_trades_used = used,
               pd_day_trades_remaining = remaining, pd_equity = equity, pd_open_today = opn\<rparr>))"

definition reset_tracker :: "bool \<Rightarrow> tracker \<Rightarrow> tracker" where
  "reset_tracker disk_ok t = save_tracker disk_ok (t\<lparr>dt_open_sessions := [], dt_day_trades := []\<rparr>)"

text \<open>A new process reads the state file, if there is one it can read.\<close>

definition load_tracker :: "bool \<Rightarrow> int \<Rightarrow> (open_sessions \<times> trade_counts) option \<Rightarrow> tracker" where
  "load_tracker readable today disk =
     (let blank = \<lparr>dt_open_sessions = [], dt_day_trades = [], dt_file = disk\<rparr> in
      case disk of
        None \<Rightarrow> blank
      | Some (os, ts) \<Rightarrow>
          if readable
          then prune_locked today (blank\<lparr>dt_open_sessions := fold (\<lambda>(k, v). AList.update (upper k) v) os [],
                                         dt_day_trades := ts\<rparr>)
          else blank)"

subsection \<open>The budget\<close>

lemma window_length: "0 < n \<Longrightarrow> length (business_window t n) = n"
  by (simp add: business_window_def window_loop_length)

lemma window_distinct: "distinct (business_window t n)"
  by (simp add: business_window_def window_loop_distinct)

lemma window_later:
  assumes "0 < n" and "d \<le> t" and "t \<le> t'" and "d \<in> set (business_window t' n)"
  shows "d \<in> set (business_window t n)"
proof -
  have "card (between d t) \<le> card (between d t')"
    using assms(3) by (intro card_mono finite_between) (auto simp: between_def)
  with assms show ?thesis by (auto simp: in_window)
qed

lemma window_longer: "0 < n \<Longrightarrow> n \<le> m \<Longrightarrow> set (business_window t n) \<subseteq> set (business_window t m)"
  by (auto simp: in_window)

definition sum_in :: "int set \<Rightarrow> trade_counts \<Rightarrow> int" where
  "sum_in ds ts = sum_list (map snd (filter (\<lambda>(day, n). day \<in> ds) ts))"

lemma count_sum_in: "count_locked today t = sum_in (set (business_window today ROLLING_SESSIONS)) (dt_day_trades t)"
  by (simp add: count_locked_def sum_in_def Let_def)

lemma sum_in_bump:
  "distinct (map fst ts) \<Longrightarrow> d \<in> ds \<Longrightarrow>
   sum_in ds (AList.update d ((case map_of ts d of None \<Rightarrow> 0 | Some n \<Rightarrow> n) + 1) ts) = sum_in ds ts + 1"
  by (induction ts) (auto simp: sum_in_def)

lemma sum_in_filter: "ds \<subseteq> ds' \<Longrightarrow> sum_in ds (filter (\<lambda>(day, n). day \<in> ds') ts) = sum_in ds ts"
  unfolding sum_in_def by (auto intro!: arg_cong [of _ _ sum_list] arg_cong [of _ _ "map snd"] filter_cong)

lemma sum_in_mono:
  "\<forall>(d, n) \<in> set ts. 0 \<le> n \<and> (d \<in> ds \<longrightarrow> d \<in> ds') \<Longrightarrow> sum_in ds ts \<le> sum_in ds' ts"
  by (induction ts) (auto simp: sum_in_def)

lemma open_today_delete:
  "distinct (map fst os) \<Longrightarrow> map_of os k = Some d \<Longrightarrow>
   length (filter (\<lambda>(s, opened). opened = d) os) = Suc (length (filter (\<lambda>(s, opened). opened = d) (AList.delete k os)))"
proof (induction os)
  case (Cons kv os)
  show ?case
  proof (cases "fst kv = k")
    case True
    then have "AList.delete k (kv # os) = os"
      using Cons.prems(1) by (cases kv) (auto simp: delete_id)
    with True Cons.prems show ?thesis by (cases kv) auto
  next
    case False
    with Cons show ?thesis by (cases kv) auto
  qed
qed simp

lemma open_today_delete_le:
  "length (filter p (AList.delete k os)) \<le> length (filter p os)"
  by (induction os) auto

lemma prune_sel [simp]:
  "dt_open_sessions (prune_locked today t) = dt_open_sessions t"
  "dt_file (prune_locked today t) = dt_file t"
  by (simp_all add: prune_locked_def Let_def)

lemma save_sel [simp]:
  "dt_open_sessions (save_tracker ok t) = dt_open_sessions t" "dt_day_trades (save_tracker ok t) = dt_day_trades t"
  by (simp_all add: save_tracker_def)

text \<open>
  What the tracker must know at a date, for the day trades that really happened (\<open>made\<close>, the session of
  each): the counts agree with them in the window of today and of every later day, and together with the
  positions opened today and still open they fit the budget.
\<close>

definition logged_in :: "int \<Rightarrow> int list \<Rightarrow> int" where
  "logged_in today made = int (length (filter (\<lambda>d. d \<in> set (business_window today ROLLING_SESSIONS)) made))"

definition opened_on :: "int \<Rightarrow> open_sessions \<Rightarrow> int" where
  "opened_on today os = int (length (filter (\<lambda>(s, opened). opened = today) os))"

definition counts_ok :: "int \<Rightarrow> int list \<Rightarrow> trade_counts \<Rightarrow> bool" where
  "counts_ok today made ts = (distinct (map fst ts) \<and> (\<forall>(d, n) \<in> set ts. d \<le> today) \<and>
     (\<forall>later \<ge> today. sum_in (set (business_window later ROLLING_SESSIONS)) ts = logged_in later made))"

definition sessions_ok :: "int \<Rightarrow> open_sessions \<Rightarrow> bool" where
  "sessions_ok today os = (distinct (map fst os) \<and> (\<forall>(k, d) \<in> set os. upper k = k \<and> d \<le> today))"

lemma in_window_today [simp]: "d \<in> set (business_window d ROLLING_SESSIONS)"
  by (simp add: in_window ROLLING_SESSIONS_def)

lemma counts_prune:
  assumes "counts_ok today made ts"
  shows "counts_ok today made (filter (\<lambda>(day, n). day \<in> set (business_window today (ROLLING_SESSIONS * 3))) ts)"
proof -
  have "sum_in (set (business_window later ROLLING_SESSIONS)) (filter (\<lambda>(day, n). day \<in> set (business_window today (ROLLING_SESSIONS * 3))) ts)
      = sum_in (set (business_window later ROLLING_SESSIONS)) ts" if "today \<le> later" for later
  proof -
    have "d \<in> set (business_window today (ROLLING_SESSIONS * 3))"
      if "d \<in> set (business_window later ROLLING_SESSIONS)" "d \<le> today" for d
      using window_later [OF _ that(2) \<open>today \<le> later\<close> that(1)] window_longer [of ROLLING_SESSIONS "ROLLING_SESSIONS * 3" today]
      by (auto simp: ROLLING_SESSIONS_def)
    then show ?thesis using assms unfolding sum_in_def counts_ok_def
      by (auto intro!: arg_cong [of _ _ sum_list] arg_cong [of _ _ "map snd"] filter_cong)
  qed
  with assms show ?thesis by (auto simp: counts_ok_def distinct_map inj_on_def)
qed

lemma counts_bump:
  assumes "counts_ok today made ts"
  shows "counts_ok today (made @ [today]) (AList.update today ((case map_of ts today of None \<Rightarrow> 0 | Some n \<Rightarrow> n) + 1) ts)"
proof -
  have "sum_in ds (AList.update today v ts) = sum_in ds ts" if "today \<notin> ds" for ds v
    using that by (induction ts) (auto simp: sum_in_def)
  with assms show ?thesis
    by (auto simp: counts_ok_def distinct_update sum_in_bump logged_in_def dest!: alist_update_mem)
qed

lemma counts_later: "counts_ok today made ts \<Longrightarrow> today \<le> later \<Longrightarrow> counts_ok later made ts"
  by (fastforce simp: counts_ok_def)

lemma logged_later:
  assumes "\<forall>d \<in> set made. d \<le> today" and "today \<le> later"
  shows "logged_in later made \<le> logged_in today made"
proof -
  have "filter (\<lambda>d. d \<in> set (business_window later ROLLING_SESSIONS)) made
      = filter (\<lambda>d. d \<in> set (business_window later ROLLING_SESSIONS)) (filter (\<lambda>d. d \<in> set (business_window today ROLLING_SESSIONS)) made)"
    using assms by (auto simp: ROLLING_SESSIONS_def intro!: filter_cong intro: window_later)
  then show ?thesis unfolding logged_in_def by (metis length_filter_le of_nat_le_iff)
qed

lemma opened_later: "sessions_ok today os \<Longrightarrow> today < later \<Longrightarrow> opened_on later os = 0"
  by (fastforce simp: sessions_ok_def opened_on_def filter_empty_conv)

text \<open>
  One account below the equity threshold (or of unknown equity): positions are opened only after
  \<open>check_entry\<close> said yes, closed at any time, the date moves on, and the process restarts from its file,
  which it could write and read. The list is a ghost: it collects the day trades and no restart touches it.
\<close>

inductive pdt_step :: "pdt_settings \<Rightarrow> int \<times> int list \<times> tracker \<Rightarrow> int \<times> int list \<times> tracker \<Rightarrow> bool" for cfg where
  pdt_open: "pd_allowed (check_entry cfg equity today t) \<Longrightarrow>
    (case equity of None \<Rightarrow> True | Some e \<Rightarrow> e < equity_threshold_usd cfg) \<Longrightarrow>
    pdt_step cfg (today, made, t) (today, made, record_open True symbol today t)"
| pdt_close: "record_close True symbol today t = (is_day_trade, t') \<Longrightarrow>
    pdt_step cfg (today, made, t) (today, if is_day_trade then made @ [today] else made, t')"
| pdt_tick: "today \<le> later \<Longrightarrow> pdt_step cfg (today, made, t) (later, made, t)"
| pdt_restart: "pdt_step cfg (today, made, t) (today, made, load_tracker True today (dt_file t))"

definition pdt_init :: "pdt_settings \<Rightarrow> int \<times> int list \<times> tracker \<Rightarrow> bool" where
  "pdt_init cfg s = (pdt_enabled cfg \<and> 0 \<le> max_day_trades cfg \<and>
     s = (fst s, [], \<lparr>dt_open_sessions = [], dt_day_trades = [], dt_file = None\<rparr>))"

definition file_ok :: "int \<Rightarrow> int list \<Rightarrow> tracker \<Rightarrow> bool" where
  "file_ok today made t = (case dt_file t of
     None \<Rightarrow> dt_open_sessions t = [] \<and> dt_day_trades t = []
   | Some (os, ts) \<Rightarrow> os = dt_open_sessions t \<and> counts_ok today made ts)"

definition budget_inv :: "pdt_settings \<Rightarrow> int \<times> int list \<times> tracker \<Rightarrow> bool" where
  "budget_inv cfg s = (case s of (today, made, t) \<Rightarrow> pdt_enabled cfg \<and> (\<forall>d \<in> set made. d \<le> today) \<and>
     sessions_ok today (dt_open_sessions t) \<and> counts_ok today made (dt_day_trades t) \<and> file_ok today made t \<and>
     logged_in today made + opened_on today (dt_open_sessions t) \<le> max_day_trades cfg)"

lemma file_ok_saved: "counts_ok today made (dt_day_trades t) \<Longrightarrow> file_ok today made (save_tracker True t)"
  by (simp add: file_ok_def save_tracker_def)

lemma open_keeps_budget:
  assumes inv: "budget_inv cfg (today, made, t)" and "pd_allowed (check_entry cfg equity today t)"
    and "case equity of None \<Rightarrow> True | Some e \<Rightarrow> e < equity_threshold_usd cfg"
  shows "budget_inv cfg (today, made, record_open True symbol today t)"
proof -
  have "count_locked today t = logged_in today made" using inv by (simp add: budget_inv_def counts_ok_def count_sum_in)
  then have lt: "logged_in today made + opened_on today (dt_open_sessions t) < max_day_trades cfg"
    using assms by (auto simp: check_entry_def budget_inv_def opened_on_def open_today_def Let_def split: option.splits if_splits)
  show ?thesis
  proof (cases "map_of (dt_open_sessions t) (upper symbol)")
    case None
    then have "upper symbol \<notin> fst ` set (dt_open_sessions t)" by (simp add: map_of_eq_None_iff)
    with None inv lt show ?thesis
      by (simp add: budget_inv_def record_open_def file_ok_saved sessions_ok_def opened_on_def)
  next
    case (Some d)
    with inv lt show ?thesis by (simp add: budget_inv_def record_open_def file_ok_saved)
  qed
qed

lemma close_keeps_budget:
  assumes inv: "budget_inv cfg (today, made, t)" and close: "record_close True symbol today t = (is_day_trade, t')"
  shows "budget_inv cfg (today, if is_day_trade then made @ [today] else made, t')"
proof -
  let ?os = "AList.delete (upper symbol) (dt_open_sessions t)"
  have os: "sessions_ok today ?os"
    using inv by (auto simp: budget_inv_def sessions_ok_def distinct_delete dest!: alist_delete_mem)
  have ts: "counts_ok today made (dt_day_trades t)" using inv by (simp add: budget_inv_def)
  show ?thesis
  proof (cases "map_of (dt_open_sessions t) (upper symbol) = Some today")
    case True
    have "opened_on today (dt_open_sessions t) = opened_on today ?os + 1"
      using open_today_delete [OF _ True] inv by (simp add: opened_on_def budget_inv_def sessions_ok_def)
    moreover have "logged_in today (made @ [today]) = logged_in today made + 1" by (simp add: logged_in_def)
    ultimately show ?thesis
      using True inv close os counts_prune [OF counts_bump [OF ts]]
      by (auto simp: budget_inv_def record_close_def Let_def file_ok_saved prune_locked_def)
  next
    case False
    have "opened_on today ?os \<le> opened_on today (dt_open_sessions t)"
      by (simp add: opened_on_def open_today_delete_le)
    then show ?thesis
      using False inv close os counts_prune [OF ts]
      by (auto simp: budget_inv_def record_close_def Let_def file_ok_saved prune_locked_def)
  qed
qed

lemma tick_keeps_budget:
  assumes inv: "budget_inv cfg (today, made, t)" and le: "today \<le> later"
  shows "budget_inv cfg (later, made, t)"
proof -
  have "logged_in later made \<le> logged_in today made" using inv le by (intro logged_later) (simp_all add: budget_inv_def)
  moreover have "opened_on later (dt_open_sessions t) \<le> opened_on today (dt_open_sessions t)"
    using opened_later [of today "dt_open_sessions t" later] inv le
    by (cases "today = later") (auto simp: budget_inv_def opened_on_def)
  moreover have "sessions_ok later (dt_open_sessions t)" using inv le by (fastforce simp: budget_inv_def sessions_ok_def)
  moreover have "file_ok later made t" using inv le by (auto simp: budget_inv_def file_ok_def counts_later split: option.splits)
  ultimately show ?thesis using inv le counts_later [of today made "dt_day_trades t" later] by (auto simp: budget_inv_def)
qed

lemma reload_sessions:
  assumes "sessions_ok today os"
  shows "fold (\<lambda>(k, v). AList.update (upper k) v) os [] = os"
proof -
  have "fold (\<lambda>(k, v). AList.update (upper k) v) os ys = fold (\<lambda>(k, v). AList.update k v) os ys"
    if "\<forall>(k, d) \<in> set os. upper k = k" for ys and os :: open_sessions
    using that by (induction os arbitrary: ys) auto
  moreover have "\<forall>(k, d) \<in> set os. upper k = k" using assms by (auto simp: sessions_ok_def)
  ultimately show ?thesis using fold_update_distinct [of "[]" os] assms by (simp add: sessions_ok_def)
qed

lemma restart_keeps_budget:
  assumes "budget_inv cfg (today, made, t)"
  shows "budget_inv cfg (today, made, load_tracker True today (dt_file t))"
proof (cases "dt_file t")
  case None
  with assms show ?thesis by (auto simp: budget_inv_def load_tracker_def file_ok_def)
next
  case (Some f)
  then obtain ts where f: "dt_file t = Some (dt_open_sessions t, ts)" "counts_ok today made ts"
    using assms by (cases f) (auto simp: budget_inv_def file_ok_def)
  then show ?thesis
    using assms counts_prune [OF f(2)] reload_sessions [of today "dt_open_sessions t"]
    by (simp add: budget_inv_def load_tracker_def file_ok_def prune_locked_def)
qed

interpretation pdt: invariant_system "pdt_init cfg" "pdt_step cfg" "budget_inv cfg" for cfg
proof
  fix s assume "pdt_init cfg s"
  then show "budget_inv cfg s"
    by (cases s) (simp add: pdt_init_def budget_inv_def sessions_ok_def counts_ok_def file_ok_def sum_in_def logged_in_def opened_on_def)
next
  fix s s' assume inv: "budget_inv cfg s" and step: "pdt_step cfg s s'"
  from step inv show "budget_inv cfg s'"
    by cases (auto simp only: intro: open_keeps_budget close_keeps_budget tick_keeps_budget restart_keeps_budget)
qed

subsection \<open>Properties\<close>

text \<open>
  C40: The rolling window \<open>business_window\<close> computes, for any number of sessions asked for, terminates with exactly
  that many different dates; they are today, even on a week-end, and the latest working days before it: a
  working day is in it exactly when fewer than \<open>sessions - 1\<close> working days lie between it and today.
\<close>

theorem window_is_latest_sessions:
  assumes "0 < sessions"
  shows "card (set (business_window today sessions)) = sessions \<and>
    (\<forall>d. d \<in> set (business_window today sessions) \<longleftrightarrow>
      d = today \<or> d < today \<and> workday d \<and> card (between d today) < sessions - 1)"
  using in_window [OF assms] by (simp add: distinct_card window_distinct window_length assms)

text \<open>Sunday 2023-01-01 has ordinal 738521: the window holds it and the working week before it.\<close>

theorem window_is_latest_sessions_witness:
  "(0::nat) < ROLLING_SESSIONS \<and> weekday 738521 = 6 \<and>
   business_window 738521 ROLLING_SESSIONS = [738521, 738519, 738518, 738517, 738516] \<and>
   card (set (business_window 738521 ROLLING_SESSIONS)) = ROLLING_SESSIONS"
proof -
  have "(0::nat) < ROLLING_SESSIONS" "weekday 738521 = 6"
    "business_window 738521 ROLLING_SESSIONS = [738521, 738519, 738518, 738517, 738516]" by code_simp+
  then show ?thesis using window_is_latest_sessions [of ROLLING_SESSIONS 738521] by blast
qed

text \<open>
  An account whose equity is unknown or below the threshold never takes more day trades than the budget
  within the five sessions of the rolling window, whatever it opens after \<open>check_entry\<close> allowed it, in
  whatever order it closes, however the days pass and however often the process restarts from its state
  file: the day trades of the window, with the positions opened today that would become day trades when they
  are stopped out, are at most \<open>max_day_trades\<close>.
\<close>

theorem day_trades_stay_in_budget:
  assumes "reach (pdt_init cfg) (pdt_step cfg) (today, made, t)"
  shows "logged_in today made + open_today today t \<le> max_day_trades cfg \<and> count_locked today t = logged_in today made"
proof -
  have "budget_inv cfg (today, made, t)" using assms by (rule pdt.reach_inv)
  then show ?thesis by (auto simp: budget_inv_def counts_ok_def count_sum_in open_today_def opened_on_def)
qed

definition blank_tracker :: tracker where
  "blank_tracker = \<lparr>dt_open_sessions = [], dt_day_trades = [], dt_file = None\<rparr>"

definition demo_opened :: tracker where
  "demo_opened = record_open True ''spy'' 738522 blank_tracker"

definition demo_closed :: tracker where
  "demo_closed = snd (record_close True ''SPY'' 738522 demo_opened)"

text \<open>One day trade on a Monday, then a restart.\<close>

lemma demo_pdt_reach:
  "reach (pdt_init default_pdt) (pdt_step default_pdt) (738522, [738522], load_tracker True 738522 (dt_file demo_closed))"
proof -
  let ?R = "reach (pdt_init default_pdt) (pdt_step default_pdt)"
  have "?R (738522, [], blank_tracker)"
    by (rule reach_init) (simp add: pdt_init_def default_pdt_def blank_tracker_def FINRA_DAY_TRADE_LIMIT_def)
  moreover have "pdt_step default_pdt (738522, [], blank_tracker) (738522, [], demo_opened)"
    unfolding demo_opened_def by (rule pdt_open [of _ None]) (simp_all, code_simp)
  ultimately have "?R (738522, [], demo_opened)" by (rule reach_step)
  moreover have "record_close True ''SPY'' 738522 demo_opened = (True, demo_closed)" by code_simp
  then have "pdt_step default_pdt (738522, [], demo_opened) (738522, [738522], demo_closed)"
    using pdt_close [where made = "[]"] by fastforce
  ultimately have "?R (738522, [738522], demo_closed)" by (rule reach_step)
  then show ?thesis using pdt_restart by (rule reach_step)
qed

theorem day_trades_stay_in_budget_witness:
  "logged_in 738522 [738522] + open_today 738522 (load_tracker True 738522 (dt_file demo_closed)) \<le> 3 \<and>
   count_locked 738522 (load_tracker True 738522 (dt_file demo_closed)) = 1"
proof -
  have "max_day_trades default_pdt = 3" "logged_in 738522 [738522] = 1" by code_simp+
  then show ?thesis using day_trades_stay_in_budget [OF demo_pdt_reach] by simp
qed

end
