(* ===== verification/Risk_Monitors.thy ===== *)
theory Risk_Monitors
  imports Prelude
begin

text \<open>
  \<open>services/autonomy-orchestrator/src/autonomy_orchestrator/stop_loss_monitor.py\<close> and
  \<open>take_profit_monitor.py\<close>: the records that watch open positions, their keys, the state file and the check
  that closes what has reached its price. The two monitors are the same code over two record types, so the
  operations are stated once, for any extension of the common fields. The price source and the close
  request are arguments that may read and change the world around the monitor.
\<close>

subsection \<open>Keys\<close>

text \<open>\<open>json.dumps\<close> of a string with \<open>ensure_ascii\<close>, and of a list of strings with compact separators.\<close>

definition hex_digit :: "nat \<Rightarrow> char" where
  "hex_digit n = (if n < 10 then char_of (48 + n) else char_of (87 + n))"

definition json_char :: "char \<Rightarrow> string" where
  "json_char c =
     (let n = (of_char c :: nat); bs = CHR 0x5C in
      if n = 34 then [bs, c] else if n = 92 then [bs, c]
      else if n = 10 then [bs, CHR ''n''] else if n = 13 then [bs, CHR ''r''] else if n = 9 then [bs, CHR ''t'']
      else if n = 12 then [bs, CHR ''f''] else if n = 8 then [bs, CHR ''b'']
      else if 32 \<le> n \<and> n \<le> 126 then [c]
      else [bs, CHR ''u'', CHR ''0'', CHR ''0'', hex_digit (n div 16), hex_digit (n mod 16)])"

definition json_string :: "string \<Rightarrow> string" where
  "json_string s = CHR 0x22 # concat (map json_char s) @ [CHR 0x22]"

fun comma_join :: "string list \<Rightarrow> string" where
  "comma_join [] = []"
| "comma_join [s] = s"
| "comma_join (s # ss) = s @ CHR '','' # comma_join ss"

definition json_strings :: "string list \<Rightarrow> string" where
  "json_strings ss = CHR ''['' # comma_join (map json_string ss) @ [CHR '']'']"

text \<open>A decoder for one escaped character, which the proofs use to show that nothing is confused.\<close>

definition unhex :: "char \<Rightarrow> nat" where
  "unhex c = (let n = of_char c in if n < 58 then n - 48 else n - 87)"

fun unescape :: "string \<Rightarrow> (char \<times> string) option" where
  "unescape (b # e # s) =
     (if b \<noteq> CHR 0x5C then Some (b, e # s)
      else if e = CHR ''n'' then Some (CHR 0x0A, s) else if e = CHR ''r'' then Some (CHR 0x0D, s)
      else if e = CHR ''t'' then Some (CHR 0x09, s) else if e = CHR ''f'' then Some (CHR 0x0C, s)
      else if e = CHR ''b'' then Some (CHR 0x08, s)
      else if e = CHR ''u'' then
        (case s of z # y # h # l # r \<Rightarrow> Some (char_of (16 * unhex h + unhex l), r) | _ \<Rightarrow> None)
      else Some (e, s))"
| "unescape _ = None"

lemma of_char_eq: "(of_char c :: nat) = n \<Longrightarrow> c = char_of n"
  by (metis char_of_char)

lemma unhex_digit: "n < 16 \<Longrightarrow> unhex (hex_digit n) = n"
  by (simp add: unhex_def hex_digit_def Let_def of_char_of)

lemma of_char_less: "(of_char c :: nat) < 256"
  using of_char_of [of "of_char c :: nat"] by (metis char_of_char mod_less_divisor zero_less_numeral)

lemma special_chars:
  "char_of (34 :: nat) = CHR 0x22" "char_of (92 :: nat) = CHR 0x5C" "char_of (10 :: nat) = CHR 0x0A"
  "char_of (13 :: nat) = CHR 0x0D" "char_of (9 :: nat) = CHR 0x09" "char_of (12 :: nat) = CHR 0x0C"
  "char_of (8 :: nat) = CHR 0x08"
  by code_simp+

lemma json_special:
  "json_char (CHR 0x22) = [CHR 0x5C, CHR 0x22]" "json_char (CHR 0x5C) = [CHR 0x5C, CHR 0x5C]"
  "json_char (CHR 0x0A) = [CHR 0x5C, CHR ''n'']" "json_char (CHR 0x0D) = [CHR 0x5C, CHR ''r'']"
  "json_char (CHR 0x09) = [CHR 0x5C, CHR ''t'']" "json_char (CHR 0x0C) = [CHR 0x5C, CHR ''f'']"
  "json_char (CHR 0x08) = [CHR 0x5C, CHR ''b'']"
  by code_simp+

lemma unescape_special:
  assumes "t \<noteq> []" and "of_char c \<in> {34, 92, 10, 13, 9, 12, 8 :: nat}"
  shows "unescape (json_char c @ t) = Some (c, t)"
proof -
  have "c \<in> {CHR 0x22, CHR 0x5C, CHR 0x0A, CHR 0x0D, CHR 0x09, CHR 0x0C, CHR 0x08}"
    using assms(2) by (auto dest!: of_char_eq simp: special_chars)
  with assms(1) show ?thesis by (cases t) (auto simp: json_special)
qed

lemma unescape_char:
  assumes "t \<noteq> []"
  shows "unescape (json_char c @ t) = Some (c, t)"
proof (cases "of_char c \<in> {34, 92, 10, 13, 9, 12, 8 :: nat}")
  case False
  let ?n = "of_char c :: nat"
  obtain e t' where t: "t = e # t'" using assms by (cases t) auto
  have "?n div 16 < 16" "?n mod 16 < 16" using of_char_less [of c] by (simp_all add: less_mult_imp_div_less)
  then have hex: "unhex (hex_digit (?n div 16)) = ?n div 16" "unhex (hex_digit (?n mod 16)) = ?n mod 16"
    by (simp_all add: unhex_digit)
  have whole: "char_of (16 * (?n div 16) + ?n mod 16) = c" by (simp add: char_of_char)
  have b: "c \<noteq> CHR 0x5C" using False by auto
  show ?thesis
  proof (cases "32 \<le> ?n \<and> ?n \<le> 126")
    case True
    with False have "json_char c = [c]" by (simp add: json_char_def Let_def)
    with b t show ?thesis by simp
  next
    case not_printable: False
    with False have "json_char c = [CHR 0x5C, CHR ''u'', CHR ''0'', CHR ''0'', hex_digit (?n div 16), hex_digit (?n mod 16)]"
      by (auto simp: json_char_def Let_def)
    with hex whole show ?thesis by simp
  qed
qed (use assms unescape_special in blast)

lemma json_char_head: "json_char c = d # s \<Longrightarrow> d \<noteq> CHR 0x22"
  by (auto simp: json_char_def Let_def split: if_splits)

lemma json_char_nonempty [simp]: "json_char c \<noteq> []"
  by (simp add: json_char_def Let_def)

lemma json_string_split:
  "concat (map json_char s) @ CHR 0x22 # r = concat (map json_char t) @ CHR 0x22 # r' \<Longrightarrow> s = t \<and> r = r'"
proof (induction s arbitrary: t)
  case Nil
  then show ?case
  proof (cases t)
    case (Cons d t')
    with Nil show ?thesis by (cases "json_char d") (auto dest: json_char_head)
  qed simp
next
  case (Cons c s)
  show ?case
  proof (cases t)
    case Nil
    with Cons.prems show ?thesis by (cases "json_char c") (auto dest: json_char_head)
  next
    case (Cons d t')
    let ?u = "concat (map json_char s) @ CHR 0x22 # r" and ?v = "concat (map json_char t') @ CHR 0x22 # r'"
    have "json_char c @ ?u = json_char d @ ?v" using Cons.prems unfolding \<open>t = d # t'\<close> by (simp only: list.map concat.simps append_assoc)
    moreover have "unescape (json_char c @ ?u) = Some (c, ?u)" "unescape (json_char d @ ?v) = Some (d, ?v)"
      by (rule unescape_char, simp)+
    ultimately have "Some (c, ?u) = Some (d, ?v)" by metis
    then have "c = d" "?u = ?v" by (unfold option.inject prod.inject) blast+
    then show ?thesis using Cons.IH [of t'] \<open>t = d # t'\<close> by blast
  qed
qed

lemma json_string_prefix: "json_string s @ r = json_string t @ r' \<Longrightarrow> s = t \<and> r = r'"
  using json_string_split [of s r t r'] by (simp add: json_string_def)

lemma json_string_inj: "json_string s = json_string t \<longleftrightarrow> s = t"
  using json_string_prefix [of s "[]" t "[]"] by auto

lemma json_strings_four:
  "json_strings [a, b, c, d] = json_strings [a', b', c', d'] \<longleftrightarrow> a = a' \<and> b = b' \<and> c = c' \<and> d = d'"
  by (auto simp: json_strings_def json_string_inj dest!: json_string_prefix)

subsection \<open>Records and monitors\<close>

record risk_record =
  rr_symbol :: string
  rr_entry_price :: rat
  rr_position_id :: string
  rr_qty :: rat
  rr_side :: string
  rr_strategy_id :: string
  rr_account_id :: string
  rr_created_at :: instant

record stop_loss_record = risk_record +
  stop_price :: rat

record take_profit_record = risk_record +
  target_price :: rat
  target_gain_usd :: rat

definition or_default_account :: "string \<Rightarrow> string" where
  "or_default_account a = (if a = [] then ''default'' else a)"

definition record_key :: "string \<Rightarrow> string \<Rightarrow> string \<Rightarrow> string \<Rightarrow> string" where
  "record_key account strategy symbol position_id =
     (if strategy = [] then upper symbol
      else json_strings [or_default_account account, strategy, upper symbol, position_id])"

definition risk_record_key :: "'a risk_record_scheme \<Rightarrow> string" where
  "risk_record_key r = record_key (rr_account_id r) (rr_strategy_id r) (rr_symbol r) (rr_position_id r)"

type_synonym 'r book = "(string \<times> 'r) list"

record 'r monitor =
  mo_records :: "'r book"
  mo_has_path :: bool
  mo_file :: "'r book option"

definition save_records :: "bool \<Rightarrow> 'r monitor \<Rightarrow> 'r monitor" where
  "save_records disk_ok m = (if mo_has_path m \<and> disk_ok then m\<lparr>mo_file := Some (mo_records m)\<rparr> else m)"

definition stored_key :: "string \<Rightarrow> string" where
  "stored_key k = (if take 1 k = ''['' then k else upper k)"

text \<open>An unreadable file, or one with a row that does not validate, starts the monitor empty.\<close>

definition load_records :: "bool \<Rightarrow> bool \<Rightarrow> 'r book option \<Rightarrow> 'r book" where
  "load_records readable has_path file =
     (if \<not> has_path then []
      else
        (case file of
           None \<Rightarrow> []
         | Some rows \<Rightarrow> if readable then fold (\<lambda>(k, r). AList.update (stored_key k) r) rows [] else []))"

definition start_monitor :: "bool \<Rightarrow> bool \<Rightarrow> 'r book option \<Rightarrow> 'r monitor" where
  "start_monitor readable has_path file =
     \<lparr>mo_records = load_records readable has_path file, mo_has_path = has_path, mo_file = file\<rparr>"

definition register_record :: "bool \<Rightarrow> 'a risk_record_scheme \<Rightarrow> 'a risk_record_scheme monitor \<Rightarrow> 'a risk_record_scheme monitor" where
  "register_record disk_ok r m =
     save_records disk_ok (m\<lparr>mo_records := AList.update (risk_record_key r) r (mo_records m)\<rparr>)"

definition get_record ::
  "string \<Rightarrow> string \<Rightarrow> string \<Rightarrow> string \<Rightarrow> 'a risk_record_scheme monitor \<Rightarrow> 'a risk_record_scheme option" where
  "get_record symbol strategy_id account_id position_id m =
     (if strategy_id \<noteq> [] then map_of (mo_records m) (record_key account_id strategy_id symbol position_id)
      else (case filter (\<lambda>r. upper (rr_symbol r) = upper symbol) (map snd (mo_records m)) of
              [r] \<Rightarrow> Some r
            | _ \<Rightarrow> None))"

definition remove_record ::
  "bool \<Rightarrow> string \<Rightarrow> string \<Rightarrow> string \<Rightarrow> string \<Rightarrow> 'a risk_record_scheme monitor \<Rightarrow> 'a risk_record_scheme monitor" where
  "remove_record disk_ok symbol strategy_id account_id position_id m =
     save_records disk_ok (m\<lparr>mo_records :=
       (if strategy_id \<noteq> [] then AList.delete (record_key account_id strategy_id symbol position_id) (mo_records m)
        else filter (\<lambda>(k, r). upper (rr_symbol r) \<noteq> upper symbol) (mo_records m))\<rparr>)"

definition remove_key :: "bool \<Rightarrow> string \<Rightarrow> 'r monitor \<Rightarrow> 'r monitor" where
  "remove_key disk_ok key m = save_records disk_ok (m\<lparr>mo_records := AList.delete key (mo_records m)\<rparr>)"

definition stop_breached :: "'a stop_loss_record_scheme \<Rightarrow> rat \<Rightarrow> bool" where
  "stop_breached r price = (if upper (rr_side r) = ''SELL'' then stop_price r \<le> price else price \<le> stop_price r)"

definition target_reached :: "'a take_profit_record_scheme \<Rightarrow> rat \<Rightarrow> bool" where
  "target_reached r price = (if upper (rr_side r) = ''SELL'' then price \<le> target_price r else target_price r \<le> price)"

text \<open>The body of \<open>check_all\<close> over the snapshot of the records it starts from.\<close>

primrec check_records ::
  "bool \<Rightarrow> ('a risk_record_scheme \<Rightarrow> rat \<Rightarrow> bool) \<Rightarrow> (string \<Rightarrow> 'w \<Rightarrow> exn + rat option) \<Rightarrow>
   ('a risk_record_scheme \<Rightarrow> 'w \<Rightarrow> bool \<times> 'w) \<Rightarrow> 'a risk_record_scheme book \<Rightarrow>
   string list \<Rightarrow> 'a risk_record_scheme monitor \<Rightarrow> 'w \<Rightarrow> string list \<times> 'a risk_record_scheme monitor \<times> 'w" where
  "check_records disk_ok hit price trigger [] fired m w = (fired, m, w)"
| "check_records disk_ok hit price trigger (kr # rest) fired m w =
     (case price (upper (rr_symbol (snd kr))) w of
        Inr (Some p) \<Rightarrow>
          if hit (snd kr) p then
            (case trigger (snd kr) w of
               (True, w') \<Rightarrow> check_records disk_ok hit price trigger rest (fired @ [fst kr]) (remove_key disk_ok (fst kr) m) w'
             | (False, w') \<Rightarrow> check_records disk_ok hit price trigger rest fired m w')
          else check_records disk_ok hit price trigger rest fired m w
      | _ \<Rightarrow> check_records disk_ok hit price trigger rest fired m w)"

definition check_all ::
  "bool \<Rightarrow> ('a risk_record_scheme \<Rightarrow> rat \<Rightarrow> bool) \<Rightarrow> (string \<Rightarrow> 'w \<Rightarrow> exn + rat option) \<Rightarrow>
   ('a risk_record_scheme \<Rightarrow> 'w \<Rightarrow> bool \<times> 'w) \<Rightarrow> 'a risk_record_scheme monitor \<Rightarrow> 'w
     \<Rightarrow> string list \<times> 'a risk_record_scheme monitor \<times> 'w" where
  "check_all disk_ok hit price trigger m w = check_records disk_ok hit price trigger (mo_records m) [] m w"

subsection \<open>One record per position\<close>

lemma json_strings_head [simp]: "take (Suc 0) (json_strings ss) = ''[''"
  by (simp add: json_strings_def)

lemma record_key_stored [simp]: "stored_key (record_key a s y p) = record_key a s y p"
  by (simp add: stored_key_def record_key_def)

lemma record_key_eq:
  "s \<noteq> [] \<Longrightarrow> s' \<noteq> [] \<Longrightarrow>
   record_key a s y p = record_key a' s' y' p' \<longleftrightarrow>
     or_default_account a = or_default_account a' \<and> s = s' \<and> upper y = upper y' \<and> p = p'"
  by (simp add: record_key_def json_strings_four)

lemma save_records_sel [simp]:
  "mo_records (save_records ok m) = mo_records m" "mo_has_path (save_records ok m) = mo_has_path m"
  by (simp_all add: save_records_def)

definition book_ok :: "'a risk_record_scheme book \<Rightarrow> bool" where
  "book_ok b = (distinct (map fst b) \<and> (\<forall>(k, r) \<in> set b. k = risk_record_key r))"

lemma book_ok_delete: "book_ok b \<Longrightarrow> book_ok (AList.delete k b)"
  by (auto simp: book_ok_def distinct_delete dest!: alist_delete_mem)

lemma book_ok_update: "book_ok b \<Longrightarrow> book_ok (AList.update (risk_record_key r) r b)"
  by (auto simp: book_ok_def distinct_update dest!: alist_update_mem)

lemma book_ok_filter: "book_ok b \<Longrightarrow> book_ok (filter p b)"
  by (auto simp: book_ok_def distinct_map inj_on_def)

text \<open>What a check leaves and what it fires, by the loop.\<close>

definition justified ::
  "('a risk_record_scheme \<Rightarrow> rat \<Rightarrow> bool) \<Rightarrow> (string \<Rightarrow> 'w \<Rightarrow> exn + rat option) \<Rightarrow>
   ('a risk_record_scheme \<Rightarrow> 'w \<Rightarrow> bool \<times> 'w) \<Rightarrow> 'a risk_record_scheme \<Rightarrow> 'w \<Rightarrow> bool" where
  "justified hit price trigger r w =
     ((case price (upper (rr_symbol r)) w of Inr (Some p) \<Rightarrow> hit r p | _ \<Rightarrow> False) \<and> fst (trigger r w))"

lemma check_records_fires:
  "justified hit price trigger (snd kr) w \<Longrightarrow>
   check_records ok hit price trigger (kr # rest) fired m w =
     check_records ok hit price trigger rest (fired @ [fst kr]) (remove_key ok (fst kr) m) (snd (trigger (snd kr) w))"
  by (cases "trigger (snd kr) w") (auto simp: justified_def split: sum.splits option.splits)

lemma check_records_skips:
  "\<not> justified hit price trigger (snd kr) w \<Longrightarrow>
   \<exists>u. check_records ok hit price trigger (kr # rest) fired m w = check_records ok hit price trigger rest fired m u"
  by (cases "trigger (snd kr) w") (auto simp: justified_def split: sum.splits option.splits bool.splits)

definition pruned :: "bool \<Rightarrow> string list \<Rightarrow> 'r monitor \<Rightarrow> 'r monitor" where
  "pruned ok ks m = fold (remove_key ok) ks m"

lemma pruned_records: "mo_records (pruned ok ks m) = filter (\<lambda>(k, r). k \<notin> set ks) (mo_records m)"
  by (induction ks arbitrary: m) (auto simp: pruned_def remove_key_def AList.delete_eq intro!: filter_cong)

lemma check_records_outcome:
  assumes "check_records ok hit price trigger rest fired m w = (fired', m', w')"
  shows "\<exists>new. fired' = fired @ new \<and> m' = pruned ok new m \<and>
    (\<forall>k \<in> set new. \<exists>r u. (k, r) \<in> set rest \<and> justified hit price trigger r u)"
  using assms
proof (induction rest arbitrary: fired m w)
  case Nil
  then show ?case by (auto simp: pruned_def)
next
  case (Cons kr rest)
  show ?case
  proof (cases "justified hit price trigger (snd kr) w")
    case True
    with Cons obtain new where "fired' = fired @ fst kr # new" "m' = pruned ok new (remove_key ok (fst kr) m)"
      "\<forall>k \<in> set new. \<exists>r u. (k, r) \<in> set rest \<and> justified hit price trigger r u"
      by (fastforce simp del: check_records.simps simp: check_records_fires)
    with True show ?thesis
      by (intro exI [of _ "fst kr # new"]) (cases kr; fastforce simp: pruned_def)
  next
    case False
    then obtain u where "check_records ok hit price trigger rest fired m u = (fired', m', w')"
      using Cons.prems check_records_skips by metis
    with Cons.IH show ?thesis by fastforce
  qed
qed

lemma check_records_certain:
  assumes "check_records ok hit price trigger rest fired m w = (fired', m', w')" and "(k, r) \<in> set rest"
    and "\<And>u. justified hit price trigger r u"
  shows "k \<in> set fired'"
  using assms(1,2)
proof (induction rest arbitrary: fired m w)
  case (Cons kr rest)
  show ?case
  proof (cases "kr = (k, r)")
    case True
    have "check_records ok hit price trigger rest (fired @ [k]) (remove_key ok k m) (snd (trigger r w)) = (fired', m', w')"
      using Cons.prems(1) True check_records_fires [of hit price trigger kr w ok rest fired m] assms(3) by simp
    from check_records_outcome [OF this] show ?thesis by auto
  next
    case False
    then obtain f' n u where "check_records ok hit price trigger rest f' n u = (fired', m', w')"
      using Cons.prems(1) check_records_fires [of hit price trigger kr w ok rest fired m]
        check_records_skips [of hit price trigger kr w ok rest fired m] by metis
    with Cons.IH Cons.prems(2) False show ?thesis by auto
  qed
qed simp

subsection \<open>The monitor over time\<close>

text \<open>A check sees feed and venue through answers that may differ from request to request: a counter.\<close>

inductive monitor_step :: "('a risk_record_scheme \<Rightarrow> rat \<Rightarrow> bool) \<Rightarrow> 'a risk_record_scheme monitor \<Rightarrow> 'a risk_record_scheme monitor \<Rightarrow> bool"
  for hit where
  mon_register: "monitor_step hit m (register_record True r m)"
| mon_remove: "monitor_step hit m (remove_record True symbol strategy_id account_id position_id m)"
| mon_remove_key: "monitor_step hit m (remove_key True key m)"
| mon_check: "check_all True hit price trigger m (w :: nat) = (fired, m', w') \<Longrightarrow> monitor_step hit m m'"
| mon_restart: "monitor_step hit m (start_monitor True True (mo_file m))"

definition monitor_init :: "'r monitor \<Rightarrow> bool" where
  "monitor_init m = (m = start_monitor True True None)"

definition monitor_inv :: "'a risk_record_scheme monitor \<Rightarrow> bool" where
  "monitor_inv m = (mo_has_path m \<and> book_ok (mo_records m) \<and>
     (case mo_file m of None \<Rightarrow> mo_records m = [] | Some f \<Rightarrow> f = mo_records m))"

lemma monitor_inv_saved:
  "mo_has_path m \<Longrightarrow> book_ok (mo_records m) \<Longrightarrow> monitor_inv (save_records True m)"
  by (simp add: monitor_inv_def save_records_def)

lemma monitor_inv_remove_key: "monitor_inv m \<Longrightarrow> monitor_inv (remove_key True k m)"
  unfolding remove_key_def by (rule monitor_inv_saved) (simp_all add: monitor_inv_def book_ok_delete)

lemma monitor_inv_pruned: "monitor_inv m \<Longrightarrow> monitor_inv (pruned True ks m)"
  by (induction ks arbitrary: m) (simp_all add: pruned_def monitor_inv_remove_key)

lemma load_fold:
  "\<forall>(k, r) \<in> set b. k = risk_record_key r \<Longrightarrow>
   fold (\<lambda>(k, r). AList.update (stored_key k) r) b ys = fold (\<lambda>(k, r). AList.update k r) b ys"
  by (induction b arbitrary: ys) (auto simp: risk_record_key_def)

lemma load_own_file: "book_ok b \<Longrightarrow> load_records True True (Some b) = b"
  using fold_update_distinct [of "[]" b] by (simp add: load_records_def book_ok_def load_fold)

lemma restart_same:
  assumes "monitor_inv m"
  shows "start_monitor True True (mo_file m) = m"
proof -
  have "load_records True True (mo_file m) = mo_records m"
    using assms by (cases "mo_file m") (simp_all add: monitor_inv_def load_own_file, simp add: load_records_def)
  with assms show ?thesis by (simp add: start_monitor_def monitor_inv_def)
qed

interpretation watch: invariant_system "monitor_init :: 'a risk_record_scheme monitor \<Rightarrow> bool" "monitor_step hit" monitor_inv
  for hit :: "'a risk_record_scheme \<Rightarrow> rat \<Rightarrow> bool"
proof
  fix m :: "'a risk_record_scheme monitor"
  assume "monitor_init m"
  then show "monitor_inv m"
    by (simp add: monitor_init_def monitor_inv_def start_monitor_def load_records_def book_ok_def)
next
  fix m m' :: "'a risk_record_scheme monitor"
  assume inv: "monitor_inv m"
  assume "monitor_step hit m m'"
  then show "monitor_inv m'"
  proof cases
    case (mon_register r)
    with inv show ?thesis
      by (simp add: register_record_def) (rule monitor_inv_saved; simp add: monitor_inv_def book_ok_update)
  next
    case (mon_remove symbol strategy_id account_id position_id)
    with inv show ?thesis
      by (simp add: remove_record_def) (intro conjI impI monitor_inv_saved; simp add: monitor_inv_def book_ok_delete book_ok_filter)
  next
    case (mon_remove_key key)
    with inv show ?thesis by (simp add: monitor_inv_remove_key)
  next
    case (mon_check price trigger w fired w')
    from check_records_outcome [OF mon_check [unfolded check_all_def]] inv show ?thesis
      by (auto simp: monitor_inv_pruned)
  next
    case mon_restart
    with inv show ?thesis by (simp add: restart_same)
  qed
qed

subsection \<open>Properties\<close>

text \<open>
  A stop or target is dropped only when its price was reached and its close was accepted. A check leaves
  exactly the records it did not fire, unchanged and in order, whatever the prices, outages and answers were;
  each record it fired was at its price and had its close accepted; and a record that is at its price with a
  venue that accepts the close is fired, however many others are checked before it.
\<close>

theorem check_fires_exactly:
  assumes "check_all ok hit price trigger m w = (fired, m', w')"
  shows "mo_records m' = filter (\<lambda>(k, r). k \<notin> set fired) (mo_records m) \<and>
    (\<forall>k \<in> set fired. \<exists>r u. (k, r) \<in> set (mo_records m) \<and> justified hit price trigger r u) \<and>
    (\<forall>(k, r) \<in> set (mo_records m). (\<forall>u. justified hit price trigger r u) \<longrightarrow> k \<in> set fired)"
proof -
  note loop = assms [unfolded check_all_def]
  have "\<forall>(k, r) \<in> set (mo_records m). (\<forall>u. justified hit price trigger r u) \<longrightarrow> k \<in> set fired"
    using check_records_certain [OF loop] by blast
  with check_records_outcome [OF loop] show ?thesis by (auto simp: pruned_records)
qed

definition demo_stop :: "string \<Rightarrow> string \<Rightarrow> rat \<Rightarrow> stop_loss_record" where
  "demo_stop symbol side stop = \<lparr>rr_symbol = symbol, rr_entry_price = 100, rr_position_id = ''p1'', rr_qty = 5,
     rr_side = side, rr_strategy_id = ''sma'', rr_account_id = [], rr_created_at = 0, stop_price = stop\<rparr>"

definition demo_watch :: "stop_loss_record monitor" where
  "demo_watch = register_record True (demo_stop ''spy'' ''BUY'' 95) (register_record True (demo_stop ''qqq'' ''SELL'' 105)
     (register_record True (demo_stop ''iwm'' ''BUY'' 95) (start_monitor True True None)))"

definition demo_ticks :: "string \<Rightarrow> unit \<Rightarrow> exn + rat option" where
  "demo_ticks y u = (if y = ''SPY'' then Inr (Some 94) else if y = ''QQQ'' then Inr (Some 104) else Inr None)"

theorem check_fires_exactly_witness:
  "fst (check_all True stop_breached demo_ticks (\<lambda>r u. (True, u)) demo_watch ()) = [record_key [] ''sma'' ''SPY'' ''p1''] \<and>
   map snd (mo_records (fst (snd (check_all True stop_breached demo_ticks (\<lambda>r u. (True, u)) demo_watch ()))))
     = [demo_stop ''iwm'' ''BUY'' 95, demo_stop ''qqq'' ''SELL'' 105]"
proof -
  let ?c = "check_all True stop_breached demo_ticks (\<lambda>r u. (True, u)) demo_watch ()"
  have f: "fst ?c = [record_key [] ''sma'' ''SPY'' ''p1'']" by code_simp
  obtain fired m' w' where c: "?c = (fired, m', w')" by (cases ?c)
  from check_fires_exactly [OF c] have "mo_records (fst (snd ?c)) = filter (\<lambda>(k, r). k \<notin> set (fst ?c)) (mo_records demo_watch)"
    unfolding c by simp
  moreover have "map snd (filter (\<lambda>(k, r). k \<notin> {record_key [] ''sma'' ''SPY'' ''p1''}) (mo_records demo_watch))
      = [demo_stop ''iwm'' ''BUY'' 95, demo_stop ''qqq'' ''SELL'' 105]" by code_simp
  ultimately show ?thesis using f by simp
qed

text \<open>
  Protection survives a restart. After any registrations, removals, checks and earlier restarts with a state
  file that could be written, a new process watches exactly the records the old one watched, each under its
  own key.
\<close>

theorem protection_survives_restart:
  assumes "reach monitor_init (monitor_step hit) m"
  shows "start_monitor True True (mo_file m) = m \<and> (\<forall>(k, r) \<in> set (mo_records m). k = risk_record_key r)"
  using watch.reach_inv [OF assms] restart_same by (auto simp: monitor_inv_def book_ok_def)

theorem protection_survives_restart_witness:
  "start_monitor True True (mo_file demo_watch) = demo_watch \<and> length (mo_records demo_watch) = 3"
proof -
  have "reach monitor_init (monitor_step stop_breached) demo_watch"
    unfolding demo_watch_def by (rule reach_step, rule reach_step, rule reach_step, rule reach_init) (auto simp: monitor_init_def intro: mon_register)
  moreover have "length (mo_records demo_watch) = 3" by code_simp
  ultimately show ?thesis using protection_survives_restart by blast
qed

text \<open>
  Registering protects one position and disturbs no other. Looking up any position of any sleeve after a
  registration finds the new record exactly when account, sleeve, symbol (in either case) and position agree
  with it, and otherwise what was there before: no two positions share a key, whatever characters their
  identifiers contain.
\<close>

theorem register_then_get:
  assumes "strategy \<noteq> []" and "rr_strategy_id r \<noteq> []"
  shows "get_record symbol strategy account position_id (register_record ok r m) =
    (if or_default_account account = or_default_account (rr_account_id r) \<and> strategy = rr_strategy_id r \<and>
        upper symbol = upper (rr_symbol r) \<and> position_id = rr_position_id r
     then Some r else get_record symbol strategy account position_id m)"
  using assms
  by (simp add: get_record_def register_record_def risk_record_key_def record_key_eq update_conv')

theorem register_then_get_witness:
  "get_record ''SPY'' ''sma'' ''default'' ''p1'' demo_watch = Some (demo_stop ''spy'' ''BUY'' 95) \<and>
   get_record ''QQQ'' ''sma'' ''default'' ''p1'' demo_watch = Some (demo_stop ''qqq'' ''SELL'' 105)"
proof -
  have "upper ''spy'' = ''SPY''" "upper ''SPY'' = ''SPY''" "upper ''qqq'' = ''QQQ''" "upper ''QQQ'' = ''QQQ''" by code_simp+
  then show ?thesis unfolding demo_watch_def by (simp add: register_then_get demo_stop_def or_default_account_def)
qed

end
