(* ===== verification/Risk_Jobs.thy ===== *)
theory Risk_Jobs
  imports Reconciliation Day_Trades Risk_Monitors
begin

text \<open>
  The orchestrator's state and the jobs that close positions
  (\<open>services/autonomy-orchestrator/src/autonomy_orchestrator/main.py\<close>): the stop and target checks with what
  they do after a close, the exit signals, the monthly limits and the registration of protection for a new
  position. A close is the request to the execution service of \<open>Execution_Service\<close>, so these jobs and the
  books behind them are one model. The shared price source answers nothing rather than raising.
  Notifications and log lines are left out.
\<close>

subsection \<open>State\<close>

record orchestrator =
  oc_stops :: "stop_loss_record monitor"
  oc_targets :: "take_profit_record monitor"
  oc_tracker :: tracker
  oc_reconciler :: reconciler
  oc_month_loss :: rat
  oc_month_profit :: rat
  oc_reset_month :: "int \<times> int"
  oc_weekly_used :: rat
  oc_trades_today :: int
  oc_audit :: "audit_event list"
  oc_acted :: "string list"

record orchestrator_settings =
  og_account_id :: string
  og_monthly_loss_limit_usd :: rat
  og_monthly_profit_target_usd :: rat
  og_take_profit_target_usd :: rat

definition DEFAULT_LIVE_STRATEGY :: string where
  "DEFAULT_LIVE_STRATEGY = ''ema_rsi_macd''"

text \<open>\<open>_audit\<close>: an event reaches the audit log when the service answers.\<close>

definition audit :: "bool \<Rightarrow> audit_event \<Rightarrow> orchestrator \<Rightarrow> orchestrator" where
  "audit online e oc = (if online then oc\<lparr>oc_audit := oc_audit oc @ [e]\<rparr> else oc)"

subsection \<open>Closing through the execution service\<close>

text \<open>The constraints of \<open>ClosePositionRequest\<close>; a body that violates them is answered 422.\<close>

definition close_valid :: "close_request \<Rightarrow> bool" where
  "close_valid q =
     (let len = (\<lambda>s n. s \<noteq> [] \<and> length s \<le> n); pos = (\<lambda>x. case x of None \<Rightarrow> True | Some v \<Rightarrow> (0 :: rat) < v) in
      len (cq_symbol q) 32 \<and> len (cq_position_id q) 128 \<and> len (cq_signal_id q) 128 \<and> pos (cq_units q) \<and> pos (cq_qty q) \<and>
      len (cq_strategy_id q) 128 \<and> len (cq_account_id q) 128)"

text \<open>One POST to \<open>/v1/orders/close\<close>: nothing when the service cannot be reached, else its answer.\<close>

definition post_close :: "bool \<Rightarrow> call \<Rightarrow> close_request \<Rightarrow> exec_state \<Rightarrow> (exn + close_response) option \<times> exec_state" where
  "post_close online cl q st =
     (if \<not> online then (None, st)
      else if \<not> close_valid q then (Some (Inl (HTTPException 422 [S ''validation error''])), st)
      else (case close_order cl q st of (r, st') \<Rightarrow> (Some r, st')))"

definition exit_payload :: "string \<Rightarrow> 'a risk_record_scheme \<Rightarrow> close_request" where
  "exit_payload uuid r = \<lparr>cq_symbol = rr_symbol r, cq_position_id = rr_position_id r, cq_signal_id = uuid, cq_units = None,
     cq_qty = (if rr_qty r \<noteq> 0 then Some (rr_qty r) else None),
     cq_strategy_id = (if rr_strategy_id r \<noteq> [] then rr_strategy_id r else DEFAULT_LIVE_STRATEGY),
     cq_account_id = rr_account_id r,
     cq_fields_set = [''signal_id'', ''symbol'', ''qty'', ''position_id'', ''strategy_id'', ''account_id'']\<rparr>"

text \<open>\<open>_trigger_exit\<close> and \<open>_trigger_close\<close>: any 2xx answer counts.\<close>

definition trigger_exit ::
  "('a risk_record_scheme \<Rightarrow> bool) \<Rightarrow> ('a risk_record_scheme \<Rightarrow> call) \<Rightarrow> 'a risk_record_scheme \<Rightarrow> exec_state \<Rightarrow> bool \<times> exec_state" where
  "trigger_exit online cl r st =
     (case post_close (online r) (cl r) (exit_payload (cl_order_id (cl r)) r) st of
        (Some (Inr resp), st') \<Rightarrow> (True, st')
      | (_, st') \<Rightarrow> (False, st'))"

subsection \<open>After a close\<close>

definition realized_pnl_of :: "'a risk_record_scheme \<Rightarrow> rat option \<Rightarrow> rat option" where
  "realized_pnl_of r exit_price =
     (case exit_price of
        None \<Rightarrow> None
      | Some p \<Rightarrow>
          if rr_qty r \<le> 0 \<or> rr_entry_price r \<le> 0 then None
          else Some ((p - rr_entry_price r) * rr_qty r * (if upper (rr_side r) = ''SELL'' then - 1 else 1)))"

text \<open>
  \<open>_clear_risk_records\<close> reads four attributes of its argument with defaults for missing ones; a string has
  none of them.
\<close>

record cleared =
  ca_symbol :: string
  ca_strategy_id :: string
  ca_account_id :: string
  ca_position_id :: string

definition attributes_of_record :: "'a risk_record_scheme \<Rightarrow> cleared" where
  "attributes_of_record r = \<lparr>ca_symbol = rr_symbol r, ca_strategy_id = rr_strategy_id r,
     ca_account_id = or_default_account (rr_account_id r), ca_position_id = rr_position_id r\<rparr>"

definition attributes_of_text :: "string \<Rightarrow> cleared" where
  "attributes_of_text s = \<lparr>ca_symbol = [], ca_strategy_id = [], ca_account_id = ''default'', ca_position_id = []\<rparr>"

definition clear_risk_records :: "bool \<Rightarrow> cleared \<Rightarrow> orchestrator \<Rightarrow> orchestrator" where
  "clear_risk_records disk_ok a oc = oc\<lparr>
     oc_stops := remove_record disk_ok (ca_symbol a) (ca_strategy_id a) (ca_account_id a) (ca_position_id a) (oc_stops oc),
     oc_targets := remove_record disk_ok (ca_symbol a) (ca_strategy_id a) (ca_account_id a) (ca_position_id a) (oc_targets oc)\<rparr>"

definition settle_close :: "bool \<Rightarrow> int \<Rightarrow> 'a risk_record_scheme \<Rightarrow> orchestrator \<Rightarrow> orchestrator" where
  "settle_close disk_ok today r oc =
     (let oc1 = clear_risk_records disk_ok (attributes_of_record r) oc
      in oc1\<lparr>oc_tracker := snd (record_close disk_ok (upper (rr_symbol r)) today (oc_tracker oc1))\<rparr>)"

subsection \<open>The scheduled checks\<close>

definition attribute_stop :: "bool \<Rightarrow> int \<Rightarrow> (string \<Rightarrow> rat option) \<Rightarrow> stop_loss_record book \<Rightarrow> string \<Rightarrow> orchestrator \<Rightarrow> orchestrator" where
  "attribute_stop disk_ok today price tracked key oc =
     (case map_of tracked key of
        None \<Rightarrow> oc
      | Some r \<Rightarrow>
          (let oc1 = settle_close disk_ok today r oc in
           case realized_pnl_of r (price (upper (rr_symbol r))) of
             None \<Rightarrow> oc1
           | Some pnl \<Rightarrow> oc1\<lparr>oc_month_loss := oc_month_loss oc1 + max 0 (- pnl)\<rparr>))"

definition attribute_target :: "bool \<Rightarrow> int \<Rightarrow> (string \<Rightarrow> rat option) \<Rightarrow> take_profit_record book \<Rightarrow> string \<Rightarrow> orchestrator \<Rightarrow> orchestrator" where
  "attribute_target disk_ok today price tracked key oc =
     (case map_of tracked key of
        None \<Rightarrow> oc
      | Some r \<Rightarrow>
          (let oc1 = settle_close disk_ok today r oc in
           case realized_pnl_of r (price (upper (rr_symbol r))) of
             None \<Rightarrow> oc1
           | Some pnl \<Rightarrow> oc1\<lparr>oc_month_profit := oc_month_profit oc1 + max 0 pnl\<rparr>))"

definition run_stop_loss_check ::
  "bool \<Rightarrow> int \<Rightarrow> (string \<Rightarrow> exec_state \<Rightarrow> rat option) \<Rightarrow> (stop_loss_record \<Rightarrow> bool) \<Rightarrow> (stop_loss_record \<Rightarrow> call)
     \<Rightarrow> orchestrator \<Rightarrow> exec_state \<Rightarrow> orchestrator \<times> exec_state" where
  "run_stop_loss_check disk_ok today price online cl oc st =
     (let tracked = mo_records (oc_stops oc);
          (triggered, m, st') = check_all disk_ok stop_breached (\<lambda>y w. Inr (price y w)) (trigger_exit online cl) (oc_stops oc) st
      in (fold (attribute_stop disk_ok today (\<lambda>y. price y st') tracked) triggered (oc\<lparr>oc_stops := m\<rparr>), st'))"

definition run_take_profit_check ::
  "bool \<Rightarrow> int \<Rightarrow> (string \<Rightarrow> exec_state \<Rightarrow> rat option) \<Rightarrow> (take_profit_record \<Rightarrow> bool) \<Rightarrow> (take_profit_record \<Rightarrow> call)
     \<Rightarrow> orchestrator \<Rightarrow> exec_state \<Rightarrow> orchestrator \<times> exec_state" where
  "run_take_profit_check disk_ok today price online cl oc st =
     (let tracked = mo_records (oc_targets oc);
          (triggered, m, st') = check_all disk_ok target_reached (\<lambda>y w. Inr (price y w)) (trigger_exit online cl) (oc_targets oc) st
      in (fold (attribute_target disk_ok today (\<lambda>y. price y st') tracked) triggered (oc\<lparr>oc_targets := m\<rparr>), st'))"

subsection \<open>Exit signals\<close>

record exit_signal =
  ex_signal_id :: string
  ex_symbol :: string
  ex_strategy :: string
  ex_research_summary :: "string option"

definition exit_close :: "string \<Rightarrow> exit_signal \<Rightarrow> close_request" where
  "exit_close position_id s = \<lparr>cq_symbol = ex_symbol s, cq_position_id = position_id, cq_signal_id = ex_signal_id s,
     cq_units = None, cq_qty = None,
     cq_strategy_id = (if ex_strategy s \<noteq> [] then ex_strategy s else DEFAULT_LIVE_STRATEGY), cq_account_id = ''default'',
     cq_fields_set = [''symbol'', ''position_id'', ''signal_id'', ''strategy_id'']\<rparr>"

text \<open>
  One exit signal: skipped when the ledger has no such position, when the service cannot be reached or when it
  refuses. \<open>held\<close> maps a symbol to the position id the ledger knows, if any.
\<close>

definition exit_one ::
  "bool \<Rightarrow> bool \<Rightarrow> int \<Rightarrow> (string \<Rightarrow> string option option) \<Rightarrow> (string \<Rightarrow> bool) \<Rightarrow> (string \<Rightarrow> call) \<Rightarrow> exit_signal
     \<Rightarrow> nat \<times> orchestrator \<times> exec_state \<Rightarrow> nat \<times> orchestrator \<times> exec_state" where
  "exit_one audit_up disk_ok today held online cl s acc =
     (case acc of (n_closed, oc, st) \<Rightarrow>
       (case held (upper (ex_symbol s)) of
          None \<Rightarrow> acc
        | Some pid \<Rightarrow>
            (let position_id = (case pid of None \<Rightarrow> ex_symbol s | Some p \<Rightarrow> if p = [] then ex_symbol s else p) in
             case post_close (online (ex_signal_id s)) (cl (ex_signal_id s)) (exit_close position_id s) st of
               (Some (Inr resp), st') \<Rightarrow>
                 (let oc1 = clear_risk_records disk_ok (attributes_of_text (ex_symbol s)) oc;
                      oc2 = oc1\<lparr>oc_tracker := snd (record_close disk_ok (ex_symbol s) today (oc_tracker oc1))\<rparr>;
                      oc3 = audit audit_up \<lparr>ae_event_type = ''trade.closed'', ae_symbol = ex_symbol s,
                              ae_signal_id = ex_signal_id s, ae_decision = ''EXIT'',
                              ae_reasoning = [S (case ex_research_summary s of None \<Rightarrow> ''exit_signal_executed''
                                | Some x \<Rightarrow> if x = [] then ''exit_signal_executed'' else x)]\<rparr> oc2
                  in (Suc n_closed, oc3\<lparr>oc_acted := oc_acted oc3 @ [ex_signal_id s]\<rparr>, st'))
             | (_, st') \<Rightarrow> (n_closed, oc, st'))))"

definition process_exit_signals ::
  "bool \<Rightarrow> bool \<Rightarrow> int \<Rightarrow> (string \<Rightarrow> string option option) \<Rightarrow> (string \<Rightarrow> bool) \<Rightarrow> (string \<Rightarrow> call) \<Rightarrow> exit_signal list
     \<Rightarrow> orchestrator \<Rightarrow> exec_state \<Rightarrow> nat \<times> orchestrator \<times> exec_state" where
  "process_exit_signals audit_up disk_ok today held online cl signals oc st =
     fold (exit_one audit_up disk_ok today held online cl) signals (0, oc, st)"

subsection \<open>Monthly limits\<close>

definition check_monthly_reset :: "int \<times> int \<Rightarrow> orchestrator \<Rightarrow> orchestrator" where
  "check_monthly_reset month oc =
     (if month \<noteq> oc_reset_month oc then oc\<lparr>oc_month_loss := 0, oc_month_profit := 0, oc_reset_month := month\<rparr> else oc)"

definition monthly_limits_ok :: "orchestrator_settings \<Rightarrow> int \<times> int \<Rightarrow> orchestrator \<Rightarrow> bool \<times> orchestrator" where
  "monthly_limits_ok s month oc =
     (let oc' = check_monthly_reset month oc in
      (\<not> og_monthly_loss_limit_usd s \<le> oc_month_loss oc' \<and> \<not> og_monthly_profit_target_usd s \<le> oc_month_profit oc', oc'))"

subsection \<open>What a stop check does\<close>

lemma or_default_account_idem [simp]: "or_default_account (or_default_account a) = or_default_account a"
  by (simp add: or_default_account_def)

lemma key_of_attributes:
  "record_key (ca_account_id (attributes_of_record r)) (ca_strategy_id (attributes_of_record r)) (ca_symbol (attributes_of_record r))
     (ca_position_id (attributes_of_record r)) = risk_record_key r"
  by (simp add: attributes_of_record_def risk_record_key_def record_key_def)

lemma clear_record_sel:
  assumes "rr_strategy_id r \<noteq> []"
  shows "mo_records (oc_stops (clear_risk_records ok (attributes_of_record r) oc)) = AList.delete (risk_record_key r) (mo_records (oc_stops oc))"
    "mo_records (oc_targets (clear_risk_records ok (attributes_of_record r) oc)) = AList.delete (risk_record_key r) (mo_records (oc_targets oc))"
  using assms key_of_attributes [of r] by (simp_all add: clear_risk_records_def remove_record_def) (simp_all add: attributes_of_record_def)

lemma settle_close_sel:
  assumes "rr_strategy_id r \<noteq> []"
  shows "mo_records (oc_stops (settle_close ok today r oc)) = AList.delete (risk_record_key r) (mo_records (oc_stops oc))"
    "mo_records (oc_targets (settle_close ok today r oc)) = AList.delete (risk_record_key r) (mo_records (oc_targets oc))"
    "oc_month_loss (settle_close ok today r oc) = oc_month_loss oc"
    "oc_month_profit (settle_close ok today r oc) = oc_month_profit oc"
  using clear_record_sel [OF assms, of ok oc] by (simp_all add: settle_close_def Let_def) (simp_all add: clear_risk_records_def)

definition loss_of :: "(string \<Rightarrow> rat option) \<Rightarrow> 'a risk_record_scheme \<Rightarrow> rat" where
  "loss_of price r = (case realized_pnl_of r (price (upper (rr_symbol r))) of None \<Rightarrow> 0 | Some pnl \<Rightarrow> max 0 (- pnl))"

definition scoped_book :: "'a risk_record_scheme book \<Rightarrow> bool" where
  "scoped_book b = (book_ok b \<and> (\<forall>(k, r) \<in> set b. rr_strategy_id r \<noteq> []))"

lemma attribute_stop_sel:
  assumes "scoped_book tracked" and "map_of tracked k = Some r"
  shows "mo_records (oc_stops (attribute_stop ok today price tracked k oc)) = AList.delete k (mo_records (oc_stops oc))"
    "mo_records (oc_targets (attribute_stop ok today price tracked k oc)) = AList.delete k (mo_records (oc_targets oc))"
    "oc_month_loss (attribute_stop ok today price tracked k oc) = oc_month_loss oc + loss_of price r"
proof -
  have k: "k = risk_record_key r" "rr_strategy_id r \<noteq> []"
    using assms map_of_SomeD [OF assms(2)] by (auto simp: scoped_book_def book_ok_def)
  show "mo_records (oc_stops (attribute_stop ok today price tracked k oc)) = AList.delete k (mo_records (oc_stops oc))"
    "mo_records (oc_targets (attribute_stop ok today price tracked k oc)) = AList.delete k (mo_records (oc_targets oc))"
    "oc_month_loss (attribute_stop ok today price tracked k oc) = oc_month_loss oc + loss_of price r"
    using settle_close_sel [OF k(2), of ok today oc, folded k(1)]
    by (simp_all add: attribute_stop_def assms(2) loss_of_def Let_def split: option.split)
qed















definition demo_protected :: stop_loss_record where
  "demo_protected = \<lparr>rr_symbol = ''AAPL'', rr_entry_price = 100, rr_position_id = ''u1'', rr_qty = 10, rr_side = ''BUY'',
     rr_strategy_id = ''sma'', rr_account_id = ''default'', rr_created_at = 0, stop_price = 95\<rparr>"

definition demo_oc :: orchestrator where
  "demo_oc = \<lparr>oc_stops = register_record True demo_protected (start_monitor True True None), oc_targets = start_monitor True True None,
     oc_tracker = blank_tracker, oc_reconciler = fresh_reconciler, oc_month_loss = 0, oc_month_profit = 0, oc_reset_month = (1, 2026),
     oc_weekly_used = 0, oc_trades_today = 0, oc_audit = [], oc_acted = []\<rparr>"

definition demo_drop :: "string \<Rightarrow> exec_state \<Rightarrow> rat option" where
  "demo_drop y u = Some 90"

lemma demo_scoped: "scoped_book (mo_records (oc_stops demo_oc))"
  by (simp add: demo_oc_def register_record_def start_monitor_def load_records_def scoped_book_def book_ok_def demo_protected_def)


subsection \<open>Where protection and positions part\<close>

lemma close_submitted_no_fill:
  assumes "close_order cl q st = (Inr resp, st')" and "cs_status resp = ''close_submitted''"
  shows "xs_journal st' = xs_journal st"
  using assms(1) by (cases rule: close_order_cases) (use assms(2) in \<open>auto split: if_splits\<close>)

text \<open>
  A stop is dropped before its fill is known. The close endpoint answers \<open>close_submitted\<close> when the venue took
  the order but reported no fill; the monitor takes the answer for an exit and forgets the stop, while the
  sleeve's book still holds the position: nothing watches it any more.
\<close>

theorem stop_dropped_before_fill:
  assumes "scoped_book (mo_records (oc_stops oc))" and "mo_records (oc_stops oc) = [(k, r)]"
    and "online r" and "close_valid (exit_payload (cl_order_id (cl r)) r)"
    and "price (upper (rr_symbol r)) st = Some p" and "stop_breached r p"
    and "close_order (cl r) (exit_payload (cl_order_id (cl r)) r) st = (Inr resp, st')" and "cs_status resp = ''close_submitted''"
  shows "snd (run_stop_loss_check ok today price online cl oc st) = st' \<and>
    mo_records (oc_stops (fst (run_stop_loss_check ok today price online cl oc st))) = [] \<and>
    net_position read sid y en ac (xs_journal st') = net_position read sid y en ac (xs_journal st)"
proof -
  have t: "trigger_exit online cl r st = (True, st')"
    using assms(3,4,7) by (simp add: trigger_exit_def post_close_def)
  have k: "k = risk_record_key r" "rr_strategy_id r \<noteq> []" using assms(1,2) by (simp_all add: scoped_book_def book_ok_def)
  have c: "check_all ok stop_breached (\<lambda>y w. Inr (price y w)) (trigger_exit online cl) (oc_stops oc) st = ([k], remove_key ok k (oc_stops oc), st')"
    using assms(2,5,6) t by (simp add: check_all_def)
  have "mo_records (oc_stops (attribute_stop ok today (\<lambda>y. price y st') (mo_records (oc_stops oc)) k (oc\<lparr>oc_stops := remove_key ok k (oc_stops oc)\<rparr>)))
      = AList.delete k (mo_records (remove_key ok k (oc_stops oc)))"
    using attribute_stop_sel(1) [OF assms(1), of k r] assms(2) by simp
  then have "mo_records (oc_stops (fst (run_stop_loss_check ok today price online cl oc st))) = []"
    using c assms(2) by (simp add: run_stop_loss_check_def remove_key_def)
  moreover have "snd (run_stop_loss_check ok today price online cl oc st) = st'" using c by (simp add: run_stop_loss_check_def)
  ultimately show ?thesis using close_submitted_no_fill [OF assms(7,8)] by simp
qed

text \<open>A live sleeve at a venue that takes the close and reports no price yet.\<close>

definition slow_venue :: alpaca_client where
  "slow_venue = \<lparr>al_submit = (\<lambda>_. Inr ''a1''), al_polls = [],
     al_close = (\<lambda>y u. Inr \<lparr>al_id = ''a2'', al_qty = Some 10, al_side = ''sell'', al_filled_avg_price = None\<rparr>)\<rparr>"

definition slow_call :: call where
  "slow_call = (demo_call ''u9'')\<lparr>cl_now := 20, cl_alpaca := slow_venue\<rparr>"

theorem stop_dropped_before_fill_witness:
  "mo_records (oc_stops demo_oc) \<noteq> [] \<and>
   mo_records (oc_stops (fst (run_stop_loss_check True 1 demo_drop (\<lambda>r. True) (\<lambda>r. slow_call) demo_oc demo_live_exec))) = []"
proof -
  let ?q = "exit_payload (cl_order_id slow_call) demo_protected"
  have ok: "case fst (close_order slow_call ?q demo_live_exec) of Inl e \<Rightarrow> False | Inr x \<Rightarrow> cs_status x = ''close_submitted''"
    by code_simp
  then obtain resp st' where r: "close_order slow_call ?q demo_live_exec = (Inr resp, st')" "cs_status resp = ''close_submitted''"
    by (cases "close_order slow_call ?q demo_live_exec") (auto split: sum.splits)
  have b: "mo_records (oc_stops demo_oc) = [(risk_record_key demo_protected, demo_protected)]"
    by (simp add: demo_oc_def register_record_def start_monitor_def load_records_def)
  have v: "close_valid ?q" by code_simp
  have s: "stop_breached demo_protected 90" "demo_drop (upper (rr_symbol demo_protected)) demo_live_exec = Some 90"
    by (code_simp, simp add: demo_drop_def)
  from stop_dropped_before_fill [where price = demo_drop and st = demo_live_exec and online = "\<lambda>r. True" and cl = "\<lambda>r. slow_call",
      OF demo_scoped b _ v s(2,1) r] b show ?thesis by simp
qed

text \<open>
  An exit signal cannot close a live position. The request it makes names the sleeve but not the account, and
  the execution service refuses a live close without both: whatever the venue, the answer is 422 and nothing is
  sent.
\<close>

theorem exit_signal_cannot_close_live:
  assumes "close_valid (exit_close pid s)" and "sanitize_symbol (ex_symbol s) = Inr sy"
    and "route_order (cl_environ cl) (cl_connect cl) (cl_now cl) (cq_strategy_id (exit_close pid s)) sy ''default'' True
           (xs_router st) (xs_lifecycle st) = (Inr routed, rt, w)"
    and "ro_adapter routed = Some a" and "ro_places_order routed" and "is_live (ro_decision routed)"
  shows "post_close True cl (exit_close pid s) st =
    (Some (Inl (HTTPException 422 [S ''live_close_requires_explicit_strategy_and_account''])), st\<lparr>xs_router := rt, xs_lifecycle := w\<rparr>)"
proof -
  have "\<not> explicit_identity (cq_fields_set (exit_close pid s))" by (simp add: explicit_identity_def exit_close_def)
  with assms show ?thesis
    by (simp add: post_close_def close_order_def Let_def) (simp add: exit_close_def)
qed

definition demo_exit :: exit_signal where
  "demo_exit = \<lparr>ex_signal_id = ''s9'', ex_symbol = ''AAPL'', ex_strategy = ''sma'', ex_research_summary = None\<rparr>"

theorem exit_signal_cannot_close_live_witness:
  "\<exists>rt w. post_close True slow_call (exit_close ''p'' demo_exit) demo_live_exec =
    (Some (Inl (HTTPException 422 [S ''live_close_requires_explicit_strategy_and_account''])), demo_live_exec\<lparr>xs_router := rt, xs_lifecycle := w\<rparr>)"
proof -
  let ?ro = "route_order (cl_environ slow_call) (cl_connect slow_call) (cl_now slow_call) (cq_strategy_id (exit_close ''p'' demo_exit)) ''AAPL''
     ''default'' True (xs_router demo_live_exec) (xs_lifecycle demo_live_exec)"
  have "case fst ?ro of Inl e \<Rightarrow> False | Inr ro \<Rightarrow> ro_adapter ro \<noteq> None \<and> ro_places_order ro \<and> is_live (ro_decision ro)" by code_simp
  then obtain routed a rt w where r: "?ro = (Inr routed, rt, w)" "ro_adapter routed = Some a" "ro_places_order routed" "is_live (ro_decision routed)"
    by (cases ?ro) (auto split: sum.splits)
  have "close_valid (exit_close ''p'' demo_exit)" "sanitize_symbol (ex_symbol demo_exit) = Inr ''AAPL''" by code_simp+
  from exit_signal_cannot_close_live [OF this r] show ?thesis by blast
qed

text \<open>
  An exit signal leaves the protection of the position it closed. The clean-up after an exit signal is given
  the symbol where it expects a record, so it finds no attributes and removes nothing: however many positions
  the pass closes, every stop and target is still watched afterwards and will fire on a position that is gone.
\<close>

theorem exit_signals_leave_protection:
  assumes "process_exit_signals au ok today held online cl signals oc st = (n, oc', st')"
    and "\<forall>(k, r) \<in> set (mo_records (oc_stops oc)). rr_symbol r \<noteq> []" and "\<forall>(k, r) \<in> set (mo_records (oc_targets oc)). rr_symbol r \<noteq> []"
  shows "mo_records (oc_stops oc') = mo_records (oc_stops oc) \<and> mo_records (oc_targets oc') = mo_records (oc_targets oc)"
proof -
  have up: "upper y = [] \<longleftrightarrow> y = []" for y by (simp add: upper_def)
  have keep: "filter (\<lambda>(k, r). rr_symbol r \<noteq> []) xs = xs" if "\<forall>(k, r) \<in> set xs. rr_symbol r \<noteq> []" for xs :: "'z risk_record_scheme book"
    using that by (simp add: filter_id_conv)
  have one: "mo_records (oc_stops (fst (snd (exit_one au ok today held online cl s acc)))) = mo_records (oc_stops (fst (snd acc))) \<and>
      mo_records (oc_targets (fst (snd (exit_one au ok today held online cl s acc)))) = mo_records (oc_targets (fst (snd acc)))"
    if "\<forall>(k, r) \<in> set (mo_records (oc_stops (fst (snd acc)))). rr_symbol r \<noteq> []"
      "\<forall>(k, r) \<in> set (mo_records (oc_targets (fst (snd acc)))). rr_symbol r \<noteq> []" for s acc
    using that keep
    by (cases acc) (auto simp: exit_one_def clear_risk_records_def remove_record_def attributes_of_text_def audit_def Let_def up
      upper_def split: option.splits prod.splits sum.splits)
  have "mo_records (oc_stops (fst (snd (fold (exit_one au ok today held online cl) signals acc)))) = mo_records (oc_stops (fst (snd acc))) \<and>
      mo_records (oc_targets (fst (snd (fold (exit_one au ok today held online cl) signals acc)))) = mo_records (oc_targets (fst (snd acc)))"
    if "\<forall>(k, r) \<in> set (mo_records (oc_stops (fst (snd acc)))). rr_symbol r \<noteq> []"
      "\<forall>(k, r) \<in> set (mo_records (oc_targets (fst (snd acc)))). rr_symbol r \<noteq> []" for acc
    using that
  proof (induction signals arbitrary: acc)
    case (Cons s signals)
    show ?case using Cons.IH [of "exit_one au ok today held online cl s acc"] one [OF Cons.prems, of s] Cons.prems by simp
  qed simp
  from this [of "(0, oc, st)"] assms show ?thesis by (simp add: process_exit_signals_def)
qed

theorem exit_signals_leave_protection_witness:
  "\<exists>oc' st'. process_exit_signals True True 1 (\<lambda>y. Some None) (\<lambda>i. True) (\<lambda>i. demo_call ''u9'') [demo_exit] demo_oc demo_exec1 = (1, oc', st') \<and>
     holding (pb_state (xs_paper st')) ''AAPL'' = 0 \<and> mo_records (oc_stops oc') = [(risk_record_key demo_protected, demo_protected)]"
proof -
  let ?p = "process_exit_signals True True 1 (\<lambda>y. Some None) (\<lambda>i. True) (\<lambda>i. demo_call ''u9'') [demo_exit] demo_oc demo_exec1"
  obtain n oc' st' where r: "?p = (n, oc', st')" by (metis prod_cases3)
  have "fst ?p = 1 \<and> holding (pb_state (xs_paper (snd (snd ?p)))) ''AAPL'' = 0" by code_simp
  moreover have b: "mo_records (oc_stops demo_oc) = [(risk_record_key demo_protected, demo_protected)]" "mo_records (oc_targets demo_oc) = []"
    by (simp_all add: demo_oc_def register_record_def start_monitor_def load_records_def)
  then have "mo_records (oc_stops oc') = mo_records (oc_stops demo_oc)"
    using exit_signals_leave_protection [OF r] by (simp add: demo_protected_def)
  ultimately show ?thesis using r b by simp
qed

end
