(* ===== verification/Indicators.thy ===== *)
theory Indicators
  imports Prelude
begin

text \<open>
  \<open>libs/market_data/src/market_data/indicators.py\<close>: the indicators that sizing, stops and the trading rules
  read, over exact rationals. The loops are folds over the same lists. Periods are positive, as every
  caller's is (Python divides by them). Bollinger bands are in \<open>Indicator_Series\<close>; the summary record
  assembled from all of them is not modelled.
\<close>

record ohlcv_bar =
  ba_symbol :: string
  ba_timestamp :: instant
  ba_open :: rat
  ba_high :: rat
  ba_low :: rat
  ba_close :: rat
  ba_volume :: rat

subsection \<open>Smoothing\<close>

definition mean_of :: "rat list \<Rightarrow> rat" where
  "mean_of xs = sum_list xs / of_nat (length xs)"

text \<open>\<open>atr = (atr * (period - 1) + x) / period\<close> over a list.\<close>

definition wilder :: "nat \<Rightarrow> rat list \<Rightarrow> rat \<Rightarrow> rat" where
  "wilder period xs seed = fold (\<lambda>x a. (a * (of_nat period - 1) + x) / of_nat period) xs seed"

text \<open>\<open>ema = (price - ema) * multiplier + ema\<close> over a list.\<close>

definition ema_run :: "rat \<Rightarrow> rat list \<Rightarrow> rat \<Rightarrow> rat" where
  "ema_run multiplier xs seed = fold (\<lambda>x e. (x - e) * multiplier + e) xs seed"

definition multiplier_of :: "nat \<Rightarrow> rat" where
  "multiplier_of period = 2 / (of_nat period + 1)"

subsection \<open>The indicators\<close>

definition compute_rsi :: "rat list \<Rightarrow> nat \<Rightarrow> rat" where
  "compute_rsi closes period =
     (if length closes < period + 1 then 50
      else
        (let deltas = map (\<lambda>i. closes ! i - closes ! (i - 1)) [1..<length closes];
             gains = map (\<lambda>d. max d 0) deltas;
             losses = map (\<lambda>d. \<bar>min d 0\<bar>) deltas;
             avg_gain = wilder period (drop period gains) (sum_list (take period gains) / of_nat period);
             avg_loss = wilder period (drop period losses) (sum_list (take period losses) / of_nat period)
         in if avg_loss = 0 then 100 else 100 - 100 / (1 + avg_gain / avg_loss)))"

definition compute_ema :: "rat list \<Rightarrow> nat \<Rightarrow> rat" where
  "compute_ema closes period =
     (if closes = [] then 0
      else if length closes < period then last closes
      else ema_run (multiplier_of period) (drop period closes) (sum_list (take period closes) / of_nat period))"

text \<open>The loop over \<open>range(slow, len(closes))\<close>: both averages and the series of their differences.\<close>

definition macd_series :: "rat \<Rightarrow> rat \<Rightarrow> rat list \<Rightarrow> rat \<times> rat \<times> rat list \<Rightarrow> rat \<times> rat \<times> rat list" where
  "macd_series mult_fast mult_slow prices =
     fold (\<lambda>price (ema_fast, ema_slow, series).
       (let f = (price - ema_fast) * mult_fast + ema_fast; s = (price - ema_slow) * mult_slow + ema_slow
        in (f, s, series @ [f - s]))) prices"

definition compute_macd :: "rat list \<Rightarrow> nat \<Rightarrow> nat \<Rightarrow> nat \<Rightarrow> rat \<times> rat \<times> rat" where
  "compute_macd closes fast slow signal_period =
     (if length closes < slow + signal_period then (0, 0, 0)
      else
        (let (f, s, series) = macd_series (multiplier_of fast) (multiplier_of slow) (drop slow closes)
               (sum_list (take fast closes) / of_nat fast, sum_list (take slow closes) / of_nat slow, [])
         in if length series < signal_period then (if series = [] then 0 else last series, 0, 0)
            else
              (let sig = ema_run (multiplier_of signal_period) (drop signal_period series)
                           (sum_list (take signal_period series) / of_nat signal_period)
               in (last series, sig, last series - sig))))"

definition true_ranges :: "rat list \<Rightarrow> rat list \<Rightarrow> rat list \<Rightarrow> rat list" where
  "true_ranges highs lows closes =
     map (\<lambda>i. max (highs ! i - lows ! i) (max \<bar>highs ! i - closes ! (i - 1)\<bar> \<bar>lows ! i - closes ! (i - 1)\<bar>)) [1..<length closes]"

definition compute_atr :: "rat list \<Rightarrow> rat list \<Rightarrow> rat list \<Rightarrow> nat \<Rightarrow> rat" where
  "compute_atr highs lows closes period =
     (if length highs < 2 \<or> length lows < 2 \<or> length closes < 2
      then (if highs \<noteq> [] \<and> lows \<noteq> [] then last highs - last lows else 0)
      else
        (let tr_list = true_ranges highs lows closes in
         if length tr_list < period then sum_list (map (\<lambda>i. highs ! i - lows ! i) [0..<length highs]) / of_nat (length highs)
         else wilder period (drop period tr_list) (sum_list (take period tr_list) / of_nat period)))"

definition ADX_NEUTRAL :: rat where
  "ADX_NEUTRAL = 25"

definition adx_is_computable :: "nat \<Rightarrow> nat \<Rightarrow> bool" where
  "adx_is_computable bars_count period = (period + 2 \<le> bars_count)"

definition plus_dms :: "rat list \<Rightarrow> rat list \<Rightarrow> nat \<Rightarrow> rat list" where
  "plus_dms highs lows n = map (\<lambda>i. let up_move = highs ! i - highs ! (i - 1); down_move = lows ! (i - 1) - lows ! i
     in if down_move < up_move \<and> 0 < up_move then up_move else 0) [1..<n]"

definition minus_dms :: "rat list \<Rightarrow> rat list \<Rightarrow> nat \<Rightarrow> rat list" where
  "minus_dms highs lows n = map (\<lambda>i. let up_move = highs ! i - highs ! (i - 1); down_move = lows ! (i - 1) - lows ! i
     in if up_move < down_move \<and> 0 < down_move then down_move else 0) [1..<n]"

definition directional :: "rat \<Rightarrow> rat \<Rightarrow> rat \<Rightarrow> rat" where
  "directional atr plus_smooth minus_smooth =
     (let plus_di = (if 0 < atr then 100 * plus_smooth / atr else 0);
          minus_di = (if 0 < atr then 100 * minus_smooth / atr else 0);
          di_sum = plus_di + minus_di
      in if 0 < di_sum then 100 * \<bar>plus_di - minus_di\<bar> / di_sum else 0)"

definition dx_step :: "rat \<Rightarrow> rat \<times> rat \<times> rat \<Rightarrow> rat \<times> rat \<times> rat \<times> rat list \<Rightarrow> rat \<times> rat \<times> rat \<times> rat list" where
  "dx_step period x st =
     (case (x, st) of ((tr, plus_dm, minus_dm), (atr, p, m, dxs)) \<Rightarrow>
       (let atr' = atr - atr / period + tr; p' = p - p / period + plus_dm; m' = m - m / period + minus_dm
        in (atr', p', m', dxs @ [directional atr' p' m'])))"

definition compute_adx :: "rat list \<Rightarrow> rat list \<Rightarrow> rat list \<Rightarrow> nat \<Rightarrow> rat" where
  "compute_adx highs lows closes period =
     (if length highs < period + 2 \<or> length lows < period + 2 \<or> length closes < period + 2 then ADX_NEUTRAL
      else
        (let trs = true_ranges highs lows closes; ps = plus_dms highs lows (length closes); ms = minus_dms highs lows (length closes) in
         if length trs < period then ADX_NEUTRAL
         else
           (let (_, _, _, dx_list) = fold (dx_step (of_nat period)) (drop period (zip trs (zip ps ms)))
                  (sum_list (take period trs), sum_list (take period ps), sum_list (take period ms), []);
                seed = (if period \<le> length dx_list then sum_list (take period dx_list) / of_nat period else mean_of dx_list)
            in if dx_list = [] then ADX_NEUTRAL else wilder period (drop period dx_list) seed)))"

definition detect_patterns :: "rat list \<Rightarrow> rat list \<Rightarrow> rat list \<Rightarrow> rat list \<Rightarrow> string list" where
  "detect_patterns opens highs lows closes =
     (if length opens < 2 \<or> length highs < 2 \<or> length lows < 2 \<or> length closes < 2 then []
      else
        (let opn = last opens; h = last highs; low = last lows; c = last closes;
             body = \<bar>c - opn\<bar>; candle_range = (if h \<noteq> low then h - low else 1 / 10 ^ 9);
             upper_shadow = h - max opn c; lower_shadow = min opn c - low;
             po = opens ! (length opens - 2); pc = closes ! (length closes - 2)
         in (if body \<le> candle_range / 10 then [''doji''] else []) @
            (if 2 * body \<le> lower_shadow \<and> upper_shadow \<le> body \<and> 0 < body then [''hammer''] else []) @
            (if 2 * body \<le> upper_shadow \<and> lower_shadow \<le> body \<and> 0 < body then [''shooting_star''] else []) @
            (if pc < po \<and> opn < c \<and> po \<le> c \<and> opn \<le> pc then [''bullish_engulfing''] else []) @
            (if po < pc \<and> c < opn \<and> c \<le> po \<and> pc \<le> opn then [''bearish_engulfing''] else [])))"

definition bb_position :: "rat \<Rightarrow> rat \<Rightarrow> rat \<Rightarrow> rat" where
  "bb_position price up lo = (if up - lo \<le> 0 then 1 / 2 else max 0 (min 1 ((price - lo) / (up - lo))))"

definition derive_signal_tags :: "rat \<Rightarrow> rat \<Rightarrow> rat \<Rightarrow> rat \<Rightarrow> rat \<Rightarrow> rat \<Rightarrow> string list" where
  "derive_signal_tags price rsi macd_hist ema_20 ema_50 bb_pos =
     (if 70 < rsi then [''overbought''] else if rsi < 30 then [''oversold''] else []) @
     (if 0 < macd_hist then [''macd_bullish''] else if macd_hist < 0 then [''macd_bearish''] else []) @
     (if ema_20 < price then [''above_ema20''] else []) @ (if ema_50 < price then [''above_ema50''] else []) @
     (if 8 / 10 < bb_pos then [''near_upper_band''] else if bb_pos < 2 / 10 then [''near_lower_band''] else [])"

definition derive_trend :: "rat \<Rightarrow> rat \<Rightarrow> rat \<Rightarrow> rat \<Rightarrow> rat \<Rightarrow> string" where
  "derive_trend rsi macd_hist ema_20 ema_50 price =
     (let bullish = length (filter id [ema_20 < price, ema_50 < price, ema_50 < ema_20, 0 < macd_hist, 55 < rsi]);
          bearish = length (filter id [price < ema_20, price < ema_50, ema_20 < ema_50, macd_hist < 0, rsi < 45])
      in if 3 \<le> bullish then ''bullish'' else if 3 \<le> bearish then ''bearish'' else ''neutral'')"

subsection \<open>Bounds\<close>

definition inside :: "rat \<Rightarrow> rat \<Rightarrow> rat \<Rightarrow> bool" where
  "inside lo hi x = (lo \<le> x \<and> x \<le> hi)"

lemma convex_inside:
  assumes "inside lo hi a" and "inside lo hi x" and "0 \<le> t" and "t \<le> 1"
  shows "inside lo hi ((x - a) * t + a)"
proof -
  have "(x - a) * t + a = t * x + (1 - t) * a" by (simp add: algebra_simps)
  moreover have "t * lo + (1 - t) * lo \<le> t * x + (1 - t) * a" "t * x + (1 - t) * a \<le> t * hi + (1 - t) * hi"
    using assms by (auto simp: inside_def intro!: add_mono mult_left_mono)
  moreover have "t * z + (1 - t) * z = z" for z by (simp add: algebra_simps)
  ultimately show ?thesis by (simp only: inside_def)
qed

lemma ema_run_inside:
  "list_all (inside lo hi) xs \<Longrightarrow> inside lo hi a \<Longrightarrow> 0 \<le> t \<Longrightarrow> t \<le> 1 \<Longrightarrow> inside lo hi (ema_run t xs a)"
  by (induction xs arbitrary: a) (simp_all add: ema_run_def convex_inside)

lemma wilder_ema_run:
  assumes "0 < period"
  shows "wilder period xs a = ema_run (1 / of_nat period) xs a"
proof -
  have "(e * (of_nat period - 1) + x) / of_nat period = (x - e) * (1 / of_nat period) + e" for x e :: rat
    using assms by (simp add: field_simps)
  then show ?thesis by (simp only: wilder_def ema_run_def)
qed

lemma wilder_inside:
  "0 < period \<Longrightarrow> list_all (inside lo hi) xs \<Longrightarrow> inside lo hi a \<Longrightarrow> inside lo hi (wilder period xs a)"
  by (simp add: wilder_ema_run ema_run_inside)

lemma sum_inside:
  "list_all (inside lo hi) xs \<Longrightarrow> of_nat (length xs) * lo \<le> sum_list xs \<and> sum_list xs \<le> of_nat (length xs) * hi"
  by (induction xs) (auto simp: inside_def algebra_simps)

lemma mean_inside:
  assumes "list_all (inside lo hi) xs" and "xs \<noteq> []"
  shows "inside lo hi (sum_list xs / of_nat (length xs))"
  using sum_inside [OF assms(1)] assms(2) by (simp add: inside_def pos_le_divide_eq pos_divide_le_eq mult.commute)

lemma seed_inside:
  assumes "list_all (inside lo hi) xs" and "0 < period" and "period \<le> length xs"
  shows "inside lo hi (sum_list (take period xs) / of_nat period)"
proof -
  have "list_all (inside lo hi) (take period xs)" using assms(1) by (auto simp: list_all_iff dest: in_set_takeD)
  moreover have "take period xs \<noteq> []" using assms(2,3) by auto
  ultimately have "inside lo hi (sum_list (take period xs) / of_nat (length (take period xs)))" by (rule mean_inside)
  with assms(3) show ?thesis by (simp add: min_absorb2)
qed

lemma list_all_drop: "list_all p xs \<Longrightarrow> list_all p (drop n xs)"
  by (auto simp: list_all_iff dest: in_set_dropD)

lemma smoothed_inside:
  "list_all (inside lo hi) xs \<Longrightarrow> 0 < period \<Longrightarrow> period \<le> length xs \<Longrightarrow>
   inside lo hi (wilder period (drop period xs) (sum_list (take period xs) / of_nat period))"
  by (simp add: wilder_inside seed_inside list_all_drop)

lemma rsi_bounds:
  assumes "0 < period"
  shows "inside 0 100 (compute_rsi closes period)"
proof (cases "length closes < period + 1")
  case False
  let ?ds = "map (\<lambda>i. closes ! i - closes ! (i - 1)) [1..<length closes]"
  have nn: "0 \<le> wilder period (drop period xs) (sum_list (take period xs) / of_nat period)"
    if "\<forall>x \<in> set xs. 0 \<le> x" and "length xs = length closes - 1" for xs
  proof -
    have "list_all (inside 0 (sum_list xs)) xs"
      using that(1) member_le_sum_list [of _ xs] by (auto simp: list_all_iff inside_def)
    from smoothed_inside [OF this assms] show ?thesis using False that(2) by (simp add: inside_def)
  qed
  have g: "0 \<le> wilder period (drop period (map (\<lambda>d. max d 0) ?ds)) (sum_list (take period (map (\<lambda>d. max d 0) ?ds)) / of_nat period)"
    by (rule nn) auto
  have l: "0 \<le> wilder period (drop period (map (\<lambda>d. \<bar>min d 0\<bar>) ?ds)) (sum_list (take period (map (\<lambda>d. \<bar>min d 0\<bar>) ?ds)) / of_nat period)"
    by (rule nn) auto
  have shape: "inside 0 100 (100 - 100 / (1 + a / b))" if "0 \<le> a" "0 \<le> b" for a b
  proof -
    have "1 \<le> 1 + a / b" using that by simp
    then have "100 / (1 + a / b) \<le> 100" "0 \<le> 100 / (1 + a / b)" by (simp_all add: divide_le_eq)
    then show ?thesis by (simp add: inside_def)
  qed
  show ?thesis using False g l shape unfolding compute_rsi_def Let_def by (auto simp: inside_def)
qed (simp add: compute_rsi_def inside_def)


lemma ema_bounds:
  assumes "0 < period" and "list_all (inside lo hi) closes" and "closes \<noteq> []"
  shows "inside lo hi (compute_ema closes period)"
proof -
  have "multiplier_of period \<le> 1" "0 \<le> multiplier_of period"
    using assms(1) by (simp_all add: multiplier_of_def divide_le_eq)
  with assms show ?thesis
    by (auto simp: compute_ema_def seed_inside list_all_drop ema_run_inside) (auto simp: list_all_iff)
qed

lemma true_range_nonneg: "\<forall>x \<in> set (true_ranges hs ls cs). 0 \<le> x"
  by (auto simp: true_ranges_def le_max_iff_disj)

lemma length_true_ranges [simp]: "length (true_ranges hs ls cs) = length cs - 1"
  by (simp add: true_ranges_def)

lemma nonneg_inside: "\<forall>x \<in> set xs. 0 \<le> x \<Longrightarrow> list_all (inside 0 (sum_list xs)) xs"
  using member_le_sum_list [of _ xs] by (auto simp: list_all_iff inside_def)

lemma atr_nonneg:
  assumes "0 < period" and "length lows = length highs" and "\<forall>i < length highs. lows ! i \<le> highs ! i"
  shows "0 \<le> compute_atr highs lows closes period"
proof -
  have "0 \<le> last highs - last lows" if "highs \<noteq> []" "lows \<noteq> []"
    using that assms(2,3) by (simp add: last_conv_nth)
  moreover have "0 \<le> sum_list (map (\<lambda>i. highs ! i - lows ! i) [0..<length highs]) / of_nat (length highs)"
    using assms(3) by (intro divide_nonneg_nonneg sum_list_nonneg) auto
  moreover have "0 \<le> wilder period (drop period trs) (sum_list (take period trs) / of_nat period)"
    if "trs = true_ranges highs lows closes" "\<not> length trs < period" for trs
    using smoothed_inside [OF nonneg_inside [OF true_range_nonneg] assms(1)] that by (simp add: inside_def)
  ultimately show ?thesis by (auto simp: compute_atr_def Let_def)
qed

lemma directional_bounds:
  assumes "0 \<le> p" and "0 \<le> m"
  shows "inside 0 100 (directional a p m)"
proof -
  have "inside 0 100 (if 0 < x + y then 100 * \<bar>x - y\<bar> / (x + y) else 0)" if "0 \<le> x" "0 \<le> y" for x y :: rat
  proof -
    have "\<bar>x - y\<bar> \<le> x + y" using that by simp
    then show ?thesis by (simp add: inside_def pos_divide_le_eq)
  qed
  moreover have "0 \<le> (if 0 < a then 100 * z / a else 0)" if "0 \<le> z" for z :: rat using that by simp
  ultimately show ?thesis unfolding directional_def Let_def using assms by blast
qed

lemma dx_step_pair:
  "dx_step period (tr, q, n) (a, p, m, dxs) = (a - a / period + tr, p - p / period + q, m - m / period + n,
     dxs @ [directional (a - a / period + tr) (p - p / period + q) (m - m / period + n)])"
  by (simp add: dx_step_def Let_def)

lemma dx_fold:
  assumes "1 \<le> period" and "\<forall>(tr, p, m) \<in> set xs. 0 \<le> p \<and> 0 \<le> m" and "0 \<le> p" and "0 \<le> m" and "list_all (inside 0 100) dxs"
    and "fold (dx_step period) xs (a, p, m, dxs) = (a', p', m', dxs')"
  shows "list_all (inside 0 100) dxs'"
  using assms(2-)
proof (induction xs arbitrary: a p m dxs)
  case (Cons x xs)
  obtain tr q n where x: "x = (tr, q, n)" by (cases x)
  have "z / period \<le> z" if "0 \<le> z" for z using that assms(1) by (simp add: divide_le_eq mult_le_cancel_left1)
  then have "0 \<le> p - p / period + q" "0 \<le> m - m / period + n" using Cons.prems x by (auto intro: add_nonneg_nonneg)
  moreover have "fold (dx_step period) xs (a - a / period + tr, p - p / period + q, m - m / period + n,
      dxs @ [directional (a - a / period + tr) (p - p / period + q) (m - m / period + n)]) = (a', p', m', dxs')"
    using Cons.prems(5) x by (simp add: dx_step_pair)
  ultimately show ?case
    using Cons.prems(1,4) Cons.IH [of "p - p / period + q" "m - m / period + n" "dxs @ [directional (a - a / period + tr) (p - p / period + q) (m - m / period + n)]"
      "a - a / period + tr"] directional_bounds [of "p - p / period + q" "m - m / period + n" "a - a / period + tr"]
    by simp
qed simp

lemma adx_bounds:
  assumes "0 < period"
  shows "inside 0 100 (compute_adx highs lows closes period)"
proof -
  let ?trs = "true_ranges highs lows closes" and ?ps = "plus_dms highs lows (length closes)" and ?ms = "minus_dms highs lows (length closes)"
  have ps: "\<forall>x \<in> set ?ps. 0 \<le> x" and ms: "\<forall>x \<in> set ?ms. 0 \<le> x" by (auto simp: plus_dms_def minus_dms_def Let_def)
  obtain a p m dxs where f: "fold (dx_step (of_nat period)) (drop period (zip ?trs (zip ?ps ?ms)))
      (sum_list (take period ?trs), sum_list (take period ?ps), sum_list (take period ?ms), []) = (a, p, m, dxs)"
    by (metis prod_cases4)
  have "list_all (inside 0 100) dxs"
  proof (rule dx_fold [OF _ _ _ _ _ f])
    show "\<forall>(tr, p, m) \<in> set (drop period (zip ?trs (zip ?ps ?ms))). 0 \<le> p \<and> 0 \<le> m"
      using ps ms by (force dest!: in_set_dropD simp: set_zip)
    show "0 \<le> sum_list (take period ?ps)" "0 \<le> sum_list (take period ?ms)"
      using ps ms by (auto intro!: sum_list_nonneg dest: in_set_takeD)
  qed (use assms in auto)
  then have "inside 0 100 (wilder period (drop period dxs)
      (if period \<le> length dxs then sum_list (take period dxs) / of_nat period else mean_of dxs))" if "dxs \<noteq> []"
    using that assms by (intro wilder_inside list_all_drop) (auto simp: seed_inside mean_inside mean_of_def)
  with f show ?thesis by (auto simp: compute_adx_def Let_def ADX_NEUTRAL_def inside_def)
qed

text \<open>
  The indicators stay in their ranges on any series: the relative strength and the directional index
  between 0 and 100, an exponential average between the lowest and the highest price it averages, and the
  average true range not negative on bars whose low is not above their high.
\<close>

theorem indicators_in_range:
  assumes "0 < period" and "list_all (inside lo hi) closes" and "closes \<noteq> []" and "length lows = length highs"
    and "\<forall>i < length highs. lows ! i \<le> highs ! i"
  shows "inside 0 100 (compute_rsi closes period) \<and> inside lo hi (compute_ema closes period) \<and>
    0 \<le> compute_atr highs lows closes period \<and> inside 0 100 (compute_adx highs lows closes period)"
  using assms by (simp add: rsi_bounds ema_bounds atr_nonneg adx_bounds)

theorem indicators_in_range_witness:
  "inside 0 100 (compute_rsi [10, 11, 9, 12] 2) \<and> inside 9 12 (compute_ema [10, 11, 9, 12] 2) \<and>
   0 \<le> compute_atr [11, 12, 11, 13] [9, 10, 8, 11] [10, 11, 9, 12] 2 \<and>
   inside 0 100 (compute_adx [11, 12, 11, 13] [9, 10, 8, 11] [10, 11, 9, 12] 2)"
  by (rule indicators_in_range) (auto simp: inside_def less_Suc_eq numeral_eq_Suc)

end
