(* ===== verification/Risk_Engine.thy ===== *)
theory Risk_Engine
  imports Indicators
begin

text \<open>
  The policy configuration both services read (\<open>config/policy-baseline.yaml\<close>), the trading-hours test of
  \<open>services/autonomy-orchestrator/src/autonomy_orchestrator/policy_config.py\<close> and the whole of
  \<open>risk_engine.py\<close>. A key the file may lack is an option and the code's default is applied where the code
  applies it. The local time comes from the time-zone database, so a call takes it as an argument: the name
  of the day and the microseconds since midnight, or nothing when the zone cannot be read. Malformed hours
  raise \<open>ValueError\<close>, as does a size outside the range the result admits.
\<close>

subsection \<open>Configuration\<close>

record trading_hours =
  th_enabled :: "bool option"
  th_days :: "string list option"
  th_start :: "string option"
  th_end :: "string option"

record policy_config =
  pc_kill_switch :: bool
  pc_symbol_allowlist :: "string list"
  pc_weekly_notional_cap_usd :: "rat option"
  pc_max_concurrent_positions :: "int option"
  pc_max_position_size_pct :: "rat option"
  pc_risk_per_trade_pct :: "rat option"
  pc_atr_stop_multiplier :: "rat option"
  pc_max_daily_drawdown_pct :: "rat option"
  pc_max_sector_concentration :: "int option"
  pc_stop_loss_pct :: "rat option"
  pc_take_profit_pct :: "rat option"
  pc_close_positions_eod :: bool
  pc_tier3_usd :: "rat option"
  pc_tier1_usd :: "rat option"
  pc_trading_hours :: trading_hours

definition get_or :: "'a option \<Rightarrow> 'a \<Rightarrow> 'a" where
  "get_or x d = (case x of None \<Rightarrow> d | Some v \<Rightarrow> v)"

lemma get_or_simps [simp]: "get_or None d = d" "get_or (Some v) d = v"
  by (simp_all add: get_or_def)

definition allowed_symbols :: "policy_config \<Rightarrow> string list" where
  "allowed_symbols c = map upper (pc_symbol_allowlist c)"

text \<open>\<open>str.split(":")\<close>, and a pair of integers read from it; \<open>datetime.replace\<close> checks the ranges.\<close>

fun split_on :: "char \<Rightarrow> string \<Rightarrow> string list" where
  "split_on d [] = [[]]"
| "split_on d (c # s) = (if c = d then [] # split_on d s
     else (case split_on d s of [] \<Rightarrow> [[c]] | p # ps \<Rightarrow> (c # p) # ps))"

definition clock_time :: "string \<Rightarrow> exn + int" where
  "clock_time s =
     (case map int_of_string (split_on (CHR '':'') s) of
        [Some h, Some m] \<Rightarrow>
          if 0 \<le> h \<and> h < 24 \<and> 0 \<le> m \<and> m < 60 then Inr ((h * 60 + m) * 60000000)
          else Inl (ValueError [S ''hour or minute out of range''])
      | _ \<Rightarrow> Inl (ValueError [S ''malformed trading hours'']))"

type_synonym local_time = "(string \<times> int) option"

definition weekdays :: "string list" where
  "weekdays = [''Mon'', ''Tue'', ''Wed'', ''Thu'', ''Fri'']"

definition is_market_hours :: "policy_config \<Rightarrow> local_time \<Rightarrow> exn + bool" where
  "is_market_hours c now =
     (let th = pc_trading_hours c in
      if \<not> get_or (th_enabled th) True then Inr True
      else
        (case now of
           None \<Rightarrow> Inr True
         | Some (day, t) \<Rightarrow>
             if day \<notin> set (get_or (th_days th) weekdays) then Inr False
             else bindE (clock_time (get_or (th_start th) ''09:30'')) (\<lambda>start.
                  bindE (clock_time (get_or (th_end th) ''16:00'')) (\<lambda>stop. Inr (start \<le> t \<and> t \<le> stop)))))"

subsection \<open>Signals and assessments\<close>

datatype candidate_action = BUY | SELL | HOLD | EXIT

record signal_candidate =
  sg_signal_id :: string
  sg_symbol :: string
  sg_ts :: instant
  sg_candidate_action :: candidate_action
  sg_confidence :: rat
  sg_size_pct :: rat
  sg_risk_score :: string
  sg_strategy :: string
  sg_ta_as_of :: "instant option"
  sg_research_summary :: "string option"

record risk_assessment =
  ra_approved :: bool
  ra_reason :: msg
  ra_adjusted_size_pct :: rat
  ra_tier :: int

record portfolio_state =
  pf_positions :: "string option list"
  pf_buying_power :: rat
  pf_daily_drawdown_pct :: rat

definition SECTOR_MAP :: "(string \<times> string) list" where
  "SECTOR_MAP = [(''SPY'', ''equity_index''), (''QQQ'', ''equity_index''), (''IWM'', ''equity_index''),
     (''TLT'', ''bonds''), (''BND'', ''bonds''), (''SHY'', ''bonds''), (''GLD'', ''commodities''),
     (''AAPL'', ''tech''), (''MSFT'', ''tech''), (''GOOGL'', ''tech''), (''AMZN'', ''tech''), (''NVDA'', ''tech''),
     (''META'', ''tech'')]"

definition sector_of :: "string \<Rightarrow> string" where
  "sector_of symbol = get_or (map_of SECTOR_MAP (upper symbol)) ''other''"

definition compute_atr_size_pct :: "rat \<Rightarrow> rat \<Rightarrow> rat \<Rightarrow> rat \<Rightarrow> rat \<Rightarrow> rat" where
  "compute_atr_size_pct atr entry_price buying_power risk_per_trade_pct atr_stop_multiplier =
     (if atr \<le> 0 \<or> entry_price \<le> 0 \<or> buying_power \<le> 0 then 0
      else
        (let stop_distance = atr * atr_stop_multiplier in
         if stop_distance \<le> 0 then 0
         else
           (let shares = (buying_power * risk_per_trade_pct) / stop_distance; notional = shares * entry_price
            in notional / buying_power)))"

definition refused :: "msg \<Rightarrow> int \<Rightarrow> exn + risk_assessment" where
  "refused reason tier = Inr \<lparr>ra_approved = False, ra_reason = reason, ra_adjusted_size_pct = 0, ra_tier = tier\<rparr>"

definition max_size :: "policy_config \<Rightarrow> rat" where
  "max_size c = get_or (pc_max_position_size_pct c) 5 / 100"

definition sized :: "policy_config \<Rightarrow> portfolio_state \<Rightarrow> ohlcv_bar list option \<Rightarrow> rat \<Rightarrow> rat" where
  "sized c pf price_bars size_pct =
     (let plain = min size_pct (max_size c) in
      case price_bars of
        None \<Rightarrow> plain
      | Some bars \<Rightarrow>
          if length bars < 15 then plain
          else
            (let atr = compute_atr (map ba_high bars) (map ba_low bars) (map ba_close bars) 14;
                 atr_size = compute_atr_size_pct atr (last (map ba_close bars)) (pf_buying_power pf)
                              (get_or (pc_risk_per_trade_pct c) (1 / 100)) (get_or (pc_atr_stop_multiplier c) 2)
             in if 0 < atr_size then min atr_size (max_size c) else plain))"

definition sector_count :: "string \<Rightarrow> portfolio_state \<Rightarrow> int" where
  "sector_count sector pf = int (length (filter (\<lambda>p. sector_of (get_or p []) = sector) (pf_positions pf)))"

definition decision_tier :: "policy_config \<Rightarrow> rat \<Rightarrow> int" where
  "decision_tier c amount =
     (if get_or (pc_tier3_usd c) 500 \<le> amount then 3 else if get_or (pc_tier1_usd c) 200 \<le> amount then 2 else 1)"

definition evaluate_risk ::
  "signal_candidate \<Rightarrow> portfolio_state \<Rightarrow> rat \<Rightarrow> policy_config \<Rightarrow> ohlcv_bar list option \<Rightarrow> local_time \<Rightarrow> exn + risk_assessment" where
  "evaluate_risk sg pf weekly_spend c price_bars now =
     (if pc_kill_switch c then refused [S ''kill_switch_active''] 3
      else if upper (sg_symbol sg) \<notin> set (allowed_symbols c) then refused [S ''symbol_not_allowed''] 3
      else
        bindE (is_market_hours c now) (\<lambda>is_open.
          if \<not> is_open then refused [S ''outside_trading_hours''] 2
          else if get_or (pc_weekly_notional_cap_usd c) 0 < weekly_spend + pf_buying_power pf * sg_size_pct sg
          then refused [S ''weekly_notional_cap_exceeded''] 3
          else if get_or (pc_max_concurrent_positions c) 10 \<le> int (length (pf_positions pf))
          then refused [S ''max_concurrent_positions_reached''] 2
          else
            (let adjusted = sized c pf price_bars (sg_size_pct sg); sector = sector_of (sg_symbol sg) in
             if get_or (pc_max_daily_drawdown_pct c) 3 / 100 < pf_daily_drawdown_pct pf
             then refused [S ''daily_drawdown_limit''] 3
             else if sector \<noteq> ''other'' \<and> get_or (pc_max_sector_concentration c) 2 \<le> sector_count sector pf
             then refused [S ''sector_concentration_limit ('', S sector, S '')''] 1
             else
               (let size = py_round 4 adjusted in
                if 0 \<le> size \<and> size \<le> 1
                then Inr \<lparr>ra_approved = True, ra_reason = [S ''approved''], ra_adjusted_size_pct = size,
                          ra_tier = decision_tier c (pf_buying_power pf * adjusted)\<rparr>
                else Inl (ValueError [S ''adjusted_size_pct out of range''])))))"

subsection \<open>Properties\<close>

lemma evaluate_risk_approved:
  assumes "evaluate_risk sg pf spend c bars now = Inr ra" and "ra_approved ra"
  shows "\<not> pc_kill_switch c" "upper (sg_symbol sg) \<in> set (allowed_symbols c)" "is_market_hours c now = Inr True"
    "spend + pf_buying_power pf * sg_size_pct sg \<le> get_or (pc_weekly_notional_cap_usd c) 0"
    "int (length (pf_positions pf)) < get_or (pc_max_concurrent_positions c) 10"
    "pf_daily_drawdown_pct pf \<le> get_or (pc_max_daily_drawdown_pct c) 3 / 100"
    "sector_of (sg_symbol sg) = ''other'' \<or> sector_count (sector_of (sg_symbol sg)) pf < get_or (pc_max_sector_concentration c) 2"
    "ra_adjusted_size_pct ra = py_round 4 (sized c pf bars (sg_size_pct sg))"
    "ra_tier ra = decision_tier c (pf_buying_power pf * sized c pf bars (sg_size_pct sg))"
    "0 \<le> ra_adjusted_size_pct ra" "ra_adjusted_size_pct ra \<le> 1"
  using assms by (auto simp: evaluate_risk_def refused_def bindE_Inr_iff Let_def split: if_splits)

lemma sized_le_cap: "sized c pf bars x \<le> max_size c"
  by (auto simp: sized_def Let_def split: option.splits)

lemma py_round_grid: "x * 10 ^ n \<in> \<int> \<Longrightarrow> py_round n x = x"
  by (auto simp: py_round_def elim!: Ints_cases) (simp add: field_simps flip: of_int_mult)

lemma py_round_le_grid: "x \<le> y \<Longrightarrow> y * 10 ^ n \<in> \<int> \<Longrightarrow> py_round n x \<le> y"
  using py_round_mono [of x y n] py_round_grid [of y n] by simp

end
