(* ===== verification/Policy_Rules.thy ===== *)
theory Policy_Rules
  imports Risk_Engine
begin

text \<open>
  \<open>services/policy-service/src/policy_service/\<close>: the settings and the configuration merged with environment
  variables (\<open>config.py\<close>), the rule evaluation (\<open>rules.py\<close>) and the records the endpoint keeps
  (\<open>main.py\<close>). The environment is a map from names to text; floats read from it are finite. The answers of
  the audit log (the week's spending) and of the exchange clock are arguments.
\<close>

subsection \<open>Settings\<close>

type_synonym environ = "string \<Rightarrow> string option"

record policy_settings =
  st_max_size_pct :: rat
  st_confidence_floor :: rat
  st_max_data_age_seconds :: int
  st_min_liquidity_score :: rat
  st_max_daily_drawdown_pct :: rat
  st_auto_approve_low_risk :: bool
  st_auto_reject_high_risk :: bool
  st_use_alpaca_clock :: bool
  st_alpaca_api_key :: string

text \<open>\<open>float(text)\<close> for a finite value; anything else is not a usable setting and raises.\<close>

definition to_float :: "string \<Rightarrow> exn + rat" where
  "to_float s = (case float_of_string s of Some (Fin x) \<Rightarrow> Inr x | _ \<Rightarrow> Inl (ValueError [S ''could not convert string to float'']))"

definition env_rat :: "environ \<Rightarrow> string \<Rightarrow> rat \<Rightarrow> exn + rat" where
  "env_rat env name d = (case env name of None \<Rightarrow> Inr d | Some s \<Rightarrow> to_float s)"

definition env_true :: "environ \<Rightarrow> string \<Rightarrow> bool \<Rightarrow> bool" where
  "env_true env name d = (case env name of None \<Rightarrow> d | Some s \<Rightarrow> lower s = ''true'')"

definition policy_settings_of :: "environ \<Rightarrow> exn + policy_settings" where
  "policy_settings_of env =
     bindE (env_rat env ''POLICY_MAX_SIZE_PCT'' (2 / 100)) (\<lambda>size.
     bindE (env_rat env ''POLICY_CONFIDENCE_FLOOR'' (60 / 100)) (\<lambda>floor.
     bindE (case env ''POLICY_MAX_DATA_AGE_SECONDS'' of None \<Rightarrow> Inr 30
            | Some s \<Rightarrow> (case int_of_string s of Some n \<Rightarrow> Inr n | None \<Rightarrow> Inl (ValueError [S ''invalid literal for int()'']))) (\<lambda>age.
     bindE (env_rat env ''POLICY_MIN_LIQUIDITY_SCORE'' (70 / 100)) (\<lambda>liq.
     bindE (env_rat env ''POLICY_MAX_DAILY_DRAWDOWN_PCT'' (3 / 100)) (\<lambda>dd.
     Inr \<lparr>st_max_size_pct = size, st_confidence_floor = floor, st_max_data_age_seconds = age,
          st_min_liquidity_score = liq, st_max_daily_drawdown_pct = dd,
          st_auto_approve_low_risk = env_true env ''POLICY_AUTO_APPROVE_LOW'' True,
          st_auto_reject_high_risk = env_true env ''POLICY_AUTO_REJECT_HIGH'' True,
          st_use_alpaca_clock = env_true env ''POLICY_USE_ALPACA_CLOCK'' False,
          st_alpaca_api_key = get_or (env ''ALPACA_API_KEY'') []\<rparr>)))))"

definition merged_policy_config :: "environ \<Rightarrow> policy_settings \<Rightarrow> policy_config \<Rightarrow> exn + policy_config" where
  "merged_policy_config env st baseline =
     bindE (env_rat env ''POLICY_MAX_SIZE_PCT'' (get_or (pc_max_position_size_pct baseline) (st_max_size_pct st * 100))) (\<lambda>size.
     bindE (env_rat env ''POLICY_MAX_DAILY_DRAWDOWN_PCT''
              (get_or (pc_max_daily_drawdown_pct baseline) (st_max_daily_drawdown_pct st * 100))) (\<lambda>dd.
     bindE (case env ''POLICY_WEEKLY_CAP_USD'' of
              None \<Rightarrow> Inr (pc_weekly_notional_cap_usd baseline)
            | Some s \<Rightarrow> if s = [] then Inr (pc_weekly_notional_cap_usd baseline) else map_sum id Some (to_float s)) (\<lambda>cap.
     (let c = baseline\<lparr>pc_max_position_size_pct := Some size, pc_max_daily_drawdown_pct := Some dd,
                       pc_kill_switch := env_true env ''POLICY_KILL_SWITCH'' (pc_kill_switch baseline),
                       pc_weekly_notional_cap_usd := cap\<rparr>
      in Inr (if env_true env ''POLICY_DISABLE_TRADING_HOURS'' False
              then c\<lparr>pc_trading_hours := (pc_trading_hours c)\<lparr>th_enabled := Some False\<rparr>\<rparr> else c)))))"

subsection \<open>Requests and decisions\<close>

record policy_request =
  pq_signal_id :: string
  pq_symbol :: string
  pq_candidate_action :: candidate_action
  pq_confidence :: rat
  pq_size_pct :: rat
  pq_data_age_seconds :: int
  pq_market_open :: bool
  pq_event_blackout_active :: bool
  pq_liquidity_score :: rat
  pq_symbol_allowed :: bool
  pq_gross_exposure_pct :: rat
  pq_daily_drawdown_pct :: rat
  pq_risk_score :: string

record policy_decision =
  pd_signal_id :: string
  pd_decision :: string
  pd_reasons :: "string list"
  pd_approved_size_pct :: rat
  pd_tier :: int

text \<open>What the evaluation asks of the world outside.\<close>

record policy_inputs =
  pi_weekly_spend :: rat
  pi_alpaca_open :: bool
  pi_now :: local_time

definition size_cap :: "policy_settings \<Rightarrow> policy_config \<Rightarrow> rat" where
  "size_cap st c = get_or (pc_max_position_size_pct c) (st_max_size_pct st * 100) / 100"

text \<open>The hard rules in the order of the code, each with the reason it appends when it holds.\<close>

definition hard_rules ::
  "policy_settings \<Rightarrow> policy_config \<Rightarrow> policy_inputs \<Rightarrow> bool \<Rightarrow> policy_request \<Rightarrow> (bool \<times> string) list" where
  "hard_rules st c inp in_hours q =
     (let alpaca = (st_use_alpaca_clock st \<and> st_alpaca_api_key st \<noteq> []) in
      [(st_max_data_age_seconds st < pq_data_age_seconds q, ''stale_data''),
       (size_cap st c < pq_size_pct q, ''max_size_exceeded''),
       (pq_liquidity_score q < st_min_liquidity_score st, ''liquidity_too_low''),
       (alpaca \<and> \<not> pi_alpaca_open inp, ''alpaca_market_closed''),
       (\<not> alpaca \<and> \<not> pq_market_open q, ''market_closed''),
       (pq_event_blackout_active q, ''event_blackout''),
       (pc_kill_switch c, ''kill_switch_active''),
       (allowed_symbols c \<noteq> [] \<and> upper (pq_symbol q) \<notin> set (allowed_symbols c) \<or> \<not> pq_symbol_allowed q,
        ''symbol_not_allowed''),
       (\<not> in_hours, ''outside_trading_hours''),
       (get_or (pc_max_daily_drawdown_pct c) (st_max_daily_drawdown_pct st * 100) / 100 \<le> pq_daily_drawdown_pct q,
        ''daily_drawdown_limit''),
       (get_or (pc_weekly_notional_cap_usd c) 0 < pi_weekly_spend inp + pq_size_pct q * 100000,
        ''weekly_notional_cap_exceeded'')])"

definition hard_reasons ::
  "policy_settings \<Rightarrow> policy_config \<Rightarrow> policy_inputs \<Rightarrow> bool \<Rightarrow> policy_request \<Rightarrow> string list" where
  "hard_reasons st c inp in_hours q = map snd (filter fst (hard_rules st c inp in_hours q))"

text \<open>The decision and the rules it hit.\<close>

definition decide_policy ::
  "policy_request \<Rightarrow> string \<Rightarrow> string list \<Rightarrow> rat \<Rightarrow> int \<Rightarrow> policy_decision \<times> string list" where
  "decide_policy q d reasons sz tier =
     (\<lparr>pd_signal_id = pq_signal_id q, pd_decision = d, pd_reasons = reasons, pd_approved_size_pct = sz, pd_tier = tier\<rparr>, reasons)"

text \<open>\<open>_within_trading_hours\<close> differs from the orchestrator's test in one point: an absent section means open.\<close>

definition within_trading_hours :: "bool \<Rightarrow> policy_config \<Rightarrow> local_time \<Rightarrow> exn + bool" where
  "within_trading_hours section_present c now = (if \<not> section_present then Inr True else is_market_hours c now)"

definition graded ::
  "policy_settings \<Rightarrow> policy_config \<Rightarrow> policy_inputs \<Rightarrow> bool \<Rightarrow> policy_request \<Rightarrow> policy_decision \<times> string list" where
  "graded st c inp in_hours q =
     (let hard = hard_reasons st c inp in_hours q; sz = min (pq_size_pct q) (size_cap st c);
          tier = decision_tier c (sz * 100000)
      in if hard \<noteq> [] then decide_policy q ''REJECT'' hard 0 3
         else if pq_risk_score q = ''LOW'' \<and> st_auto_approve_low_risk st
         then decide_policy q ''APPROVE'' [''low_risk_auto_approved''] sz tier
         else if pq_confidence q < st_confidence_floor st
         then decide_policy q ''REVIEW'' [''confidence_below_floor''] sz tier
         else decide_policy q ''APPROVE'' [] sz tier)"

definition evaluate_policy ::
  "environ \<Rightarrow> policy_settings \<Rightarrow> bool \<Rightarrow> policy_config \<Rightarrow> policy_inputs \<Rightarrow> policy_request \<Rightarrow> exn + policy_decision \<times> string list" where
  "evaluate_policy env st section_present baseline inp q =
     bindE (merged_policy_config env st baseline) (\<lambda>c.
       if pq_risk_score q = ''HIGH'' \<and> st_auto_reject_high_risk st
       then Inr (decide_policy q ''REJECT'' [''high_risk_auto_reject''] 0 1)
       else
         bindE (within_trading_hours (section_present \<or> env_true env ''POLICY_DISABLE_TRADING_HOURS'' False) c (pi_now inp))
           (\<lambda>in_hours. Inr (graded st c inp in_hours q)))"

subsection \<open>What the endpoint keeps\<close>

record policy_db =
  pb_evaluations :: "(policy_decision \<times> string) list"
  pb_rule_hits :: "(nat \<times> string) list"

text \<open>An evaluation's id is its position; each rule hit names it.\<close>

definition persist_decision :: "policy_request \<Rightarrow> policy_decision \<Rightarrow> string list \<Rightarrow> policy_db \<Rightarrow> policy_db" where
  "persist_decision q d hits db =
     (let eid = Suc (length (pb_evaluations db)) in
      db\<lparr>pb_evaluations := pb_evaluations db @ [(d, pq_symbol q)],
         pb_rule_hits := pb_rule_hits db @ map (\<lambda>r. (eid, r)) hits\<rparr>)"

definition evaluate_endpoint ::
  "environ \<Rightarrow> policy_settings \<Rightarrow> bool \<Rightarrow> policy_config \<Rightarrow> policy_inputs \<Rightarrow> policy_request \<Rightarrow> policy_db
     \<Rightarrow> (exn + policy_decision) \<times> policy_db" where
  "evaluate_endpoint env st section_present baseline inp q db =
     (case evaluate_policy env st section_present baseline inp q of
        Inl e \<Rightarrow> (Inl e, db)
      | Inr (d, hits) \<Rightarrow> (Inr d, persist_decision q d hits db))"

subsection \<open>Properties\<close>

lemma merged_size:
  assumes "merged_policy_config env st b = Inr c"
  shows "env_rat env ''POLICY_MAX_SIZE_PCT'' (get_or (pc_max_position_size_pct b) (st_max_size_pct st * 100)) = Inr (100 * size_cap st c)"
proof -
  from assms obtain x y z where "env_rat env ''POLICY_MAX_SIZE_PCT'' (get_or (pc_max_position_size_pct b) (st_max_size_pct st * 100)) = Inr x"
    and c: "Inr c = (Inr (if env_true env ''POLICY_DISABLE_TRADING_HOURS'' False then y\<lparr>pc_trading_hours := z\<rparr> else y) :: exn + policy_config)"
    and "pc_max_position_size_pct y = Some x"
    unfolding merged_policy_config_def bindE_Inr_iff Let_def by (elim exE conjE) (rule that, assumption, erule sym, simp)
  moreover from c have "pc_max_position_size_pct c = pc_max_position_size_pct y" by (simp split: if_splits)
  ultimately show ?thesis by (simp add: size_cap_def)
qed

lemma no_hard_reasons: "hard_reasons st c inp in_hours q = [] \<longleftrightarrow> list_all (\<lambda>r. \<not> fst r) (hard_rules st c inp in_hours q)"
  by (simp add: hard_reasons_def filter_empty_conv list_all_iff)

lemma evaluate_policy_cases [consumes 2, case_names auto_reject rules]:
  assumes "evaluate_policy env st present b inp q = Inr (d, hits)" and "merged_policy_config env st b = Inr c"
  obtains "pq_risk_score q = ''HIGH''" "st_auto_reject_high_risk st" "(d, hits) = decide_policy q ''REJECT'' [''high_risk_auto_reject''] 0 1"
  | in_hours where "\<not> (pq_risk_score q = ''HIGH'' \<and> st_auto_reject_high_risk st)"
      "within_trading_hours (present \<or> env_true env ''POLICY_DISABLE_TRADING_HOURS'' False) c (pi_now inp) = Inr in_hours"
      "(d, hits) = graded st c inp in_hours q"
proof (cases "pq_risk_score q = ''HIGH'' \<and> st_auto_reject_high_risk st")
  case True
  with assms show thesis by (intro that(1)) (simp_all add: evaluate_policy_def)
next
  case False
  then obtain h where "graded st c inp h q = (d, hits)"
    "within_trading_hours (present \<or> env_true env ''POLICY_DISABLE_TRADING_HOURS'' False) c (pi_now inp) = Inr h"
    using assms by (simp only: evaluate_policy_def bindE_simps bindE_Inr_iff if_False) (metis sum.inject(2))
  with False show thesis by (intro that(2) [of h]) simp_all
qed

lemma graded_approve:
  assumes "(d, hits) = graded st c inp h q" and "pd_decision d = ''APPROVE''"
  shows "hard_reasons st c inp h q = [] \<and> pd_approved_size_pct d = min (pq_size_pct q) (size_cap st c) \<and>
    (pq_risk_score q = ''LOW'' \<and> st_auto_approve_low_risk st \<or> st_confidence_floor st \<le> pq_confidence q)"
  using assms by (simp add: graded_def decide_policy_def Let_def split: if_splits)

lemma graded_shape:
  assumes "(d, hits) = graded st c inp h q"
  shows "hits = pd_reasons d" "pd_decision d \<in> {''APPROVE'', ''REJECT'', ''REVIEW''}"
    "pd_decision d = ''REJECT'' \<Longrightarrow> pd_reasons d \<noteq> [] \<and> pd_approved_size_pct d = 0"
  using assms by (simp_all add: graded_def decide_policy_def Let_def split: if_splits)

text \<open>
  C26: The service approves exactly the clean requests. A request is approved if and only if it is not automatically rejected for
  high risk, its data is fresh enough, its size is within the cap, the instrument is liquid enough, the market is open by the
  exchange's clock where that is configured and by the request otherwise, no event blackout is active, the kill switch is
  off, the symbol is allowed, the trading hours have begun and not ended, the day's drawdown is below its limit, the
  week's spending with this order stays within its cap, and it is either of low risk where that is approved
  automatically or confident enough. The approved size is the requested one; a rejection names a reason and approves nothing.
\<close>

theorem policy_approves_only_clean:
  assumes "evaluate_policy env st present b inp q = Inr (d, hits)" and "merged_policy_config env st b = Inr c"
  shows "(pd_decision d = ''APPROVE'' \<longleftrightarrow>
      \<not> (pq_risk_score q = ''HIGH'' \<and> st_auto_reject_high_risk st) \<and>
      pq_data_age_seconds q \<le> st_max_data_age_seconds st \<and>
      pq_size_pct q \<le> get_or (pc_max_position_size_pct c) (st_max_size_pct st * 100) / 100 \<and>
      st_min_liquidity_score st \<le> pq_liquidity_score q \<and>
      (if st_use_alpaca_clock st \<and> st_alpaca_api_key st \<noteq> [] then pi_alpaca_open inp else pq_market_open q) \<and>
      \<not> pq_event_blackout_active q \<and> \<not> pc_kill_switch c \<and>
      (pc_symbol_allowlist c = [] \<or> upper (pq_symbol q) \<in> upper ` set (pc_symbol_allowlist c)) \<and> pq_symbol_allowed q \<and>
      within_trading_hours (present \<or> env_true env ''POLICY_DISABLE_TRADING_HOURS'' False) c (pi_now inp) = Inr True \<and>
      pq_daily_drawdown_pct q < get_or (pc_max_daily_drawdown_pct c) (st_max_daily_drawdown_pct st * 100) / 100 \<and>
      pi_weekly_spend inp + pq_size_pct q * 100000 \<le> get_or (pc_weekly_notional_cap_usd c) 0 \<and>
      (pq_risk_score q = ''LOW'' \<and> st_auto_approve_low_risk st \<or> st_confidence_floor st \<le> pq_confidence q)) \<and>
    (pd_decision d = ''APPROVE'' \<longrightarrow> pd_approved_size_pct d = pq_size_pct q) \<and>
    (pd_decision d = ''REJECT'' \<longrightarrow> pd_reasons d \<noteq> [] \<and> pd_approved_size_pct d = 0) \<and>
    pd_decision d \<in> {''APPROVE'', ''REJECT'', ''REVIEW''} \<and> hits = pd_reasons d"
  using assms
proof (cases rule: evaluate_policy_cases)
  case (rules h)
  have clean: "hard_reasons st c inp h q = [] \<longleftrightarrow> h \<and>
      pq_data_age_seconds q \<le> st_max_data_age_seconds st \<and>
      pq_size_pct q \<le> get_or (pc_max_position_size_pct c) (st_max_size_pct st * 100) / 100 \<and>
      st_min_liquidity_score st \<le> pq_liquidity_score q \<and>
      (if st_use_alpaca_clock st \<and> st_alpaca_api_key st \<noteq> [] then pi_alpaca_open inp else pq_market_open q) \<and>
      \<not> pq_event_blackout_active q \<and> \<not> pc_kill_switch c \<and>
      (pc_symbol_allowlist c = [] \<or> upper (pq_symbol q) \<in> upper ` set (pc_symbol_allowlist c)) \<and> pq_symbol_allowed q \<and>
      pq_daily_drawdown_pct q < get_or (pc_max_daily_drawdown_pct c) (st_max_daily_drawdown_pct st * 100) / 100 \<and>
      pi_weekly_spend inp + pq_size_pct q * 100000 \<le> get_or (pc_weekly_notional_cap_usd c) 0"
    unfolding no_hard_reasons hard_rules_def size_cap_def allowed_symbols_def Let_def by (auto simp: not_less not_le)
  have approve: "pd_decision d = ''APPROVE'' \<longleftrightarrow> hard_reasons st c inp h q = [] \<and>
      (pq_risk_score q = ''LOW'' \<and> st_auto_approve_low_risk st \<or> st_confidence_floor st \<le> pq_confidence q)"
    using rules(3) by (auto simp: graded_def decide_policy_def Let_def split: if_splits)
  have size: "pd_decision d = ''APPROVE'' \<longrightarrow> pd_approved_size_pct d = pq_size_pct q"
    using graded_approve [OF rules(3)] approve clean by (auto simp: size_cap_def)
  show ?thesis
    using rules(1) graded_shape [OF rules(3)] size unfolding approve clean rules(2) by (cases h) simp_all
qed (simp add: decide_policy_def)

definition no_env :: environ where
  "no_env = (\<lambda>_. None)"

text \<open>The shipped \<open>policy-baseline.yaml\<close>, with a short allow list.\<close>

definition baseline :: policy_config where
  "baseline = \<lparr>pc_kill_switch = False, pc_symbol_allowlist = [''AAPL'', ''MSFT'', ''NVDA'', ''TSLA''],
     pc_weekly_notional_cap_usd = Some 37500, pc_max_concurrent_positions = Some 10, pc_max_position_size_pct = Some 15,
     pc_risk_per_trade_pct = Some (1 / 10), pc_atr_stop_multiplier = None, pc_max_daily_drawdown_pct = Some 3,
     pc_max_sector_concentration = Some 2, pc_stop_loss_pct = Some (15 / 1000), pc_take_profit_pct = Some (4 / 100),
     pc_close_positions_eod = False, pc_tier3_usd = Some 500, pc_tier1_usd = Some 200,
     pc_trading_hours = \<lparr>th_enabled = Some True, th_days = Some weekdays, th_start = Some ''09:30'', th_end = Some ''16:00''\<rparr>\<rparr>"

definition default_settings_policy :: policy_settings where
  "default_settings_policy = \<lparr>st_max_size_pct = 2 / 100, st_confidence_floor = 60 / 100, st_max_data_age_seconds = 30,
     st_min_liquidity_score = 70 / 100, st_max_daily_drawdown_pct = 3 / 100, st_auto_approve_low_risk = True,
     st_auto_reject_high_risk = True, st_use_alpaca_clock = False, st_alpaca_api_key = []\<rparr>"

definition demo_inputs :: policy_inputs where
  "demo_inputs = \<lparr>pi_weekly_spend = 0, pi_alpaca_open = True, pi_now = Some (''Mon'', 36000000000)\<rparr>"

definition demo_query :: "rat \<Rightarrow> policy_request" where
  "demo_query sz = \<lparr>pq_signal_id = ''s1'', pq_symbol = ''aapl'', pq_candidate_action = BUY, pq_confidence = 8 / 10,
     pq_size_pct = sz, pq_data_age_seconds = 5, pq_market_open = True, pq_event_blackout_active = False,
     pq_liquidity_score = 95 / 100, pq_symbol_allowed = True, pq_gross_exposure_pct = 0, pq_daily_drawdown_pct = 0,
     pq_risk_score = ''MEDIUM''\<rparr>"

definition demo_decision :: policy_decision where
  "demo_decision = \<lparr>pd_signal_id = ''s1'', pd_decision = ''APPROVE'', pd_reasons = [], pd_approved_size_pct = 1 / 10, pd_tier = 3\<rparr>"

theorem policy_approves_only_clean_witness:
  "evaluate_policy no_env default_settings_policy True baseline demo_inputs (demo_query (1 / 10)) = Inr (demo_decision, []) \<and>
   merged_policy_config no_env default_settings_policy baseline = Inr baseline \<and>
   pi_weekly_spend demo_inputs + pq_size_pct (demo_query (1 / 10)) * 100000 \<le> get_or (pc_weekly_notional_cap_usd baseline) 0"
proof -
  have c: "merged_policy_config no_env default_settings_policy baseline = Inr baseline" by code_simp
  have e: "evaluate_policy no_env default_settings_policy True baseline demo_inputs (demo_query (1 / 10)) = Inr (demo_decision, [])"
    by code_simp
  have "pd_decision demo_decision = ''APPROVE''" by (simp add: demo_decision_def)
  with policy_approves_only_clean [OF e c] e c show ?thesis by blast
qed

text \<open>
  What the risk engine sizes, the policy service accepts. Both services clamp to the same configured cap;
  when the cap is a whole multiple of a hundredth of a percent, the size the risk engine approves, after its
  rounding to four digits, never trips the size rule of the policy service, whatever the price bars were.
\<close>

theorem risk_size_passes_policy:
  assumes "evaluate_risk sg pf spend c bars now = Inr ra" and "ra_approved ra"
    and "merged_policy_config env st c = Inr c'" and "env ''POLICY_MAX_SIZE_PCT'' = None"
    and "pc_max_position_size_pct c = Some cap" and "cap * 100 \<in> \<int>"
  shows "\<not> size_cap st c' < ra_adjusted_size_pct ra \<and> 0 \<le> ra_adjusted_size_pct ra"
proof -
  have "size_cap st c' = cap / 100" using merged_size [OF assms(3)] assms(4,5) by (simp add: env_rat_def)
  moreover have "max_size c = cap / 100" using assms(5) by (simp add: max_size_def)
  moreover have "ra_adjusted_size_pct ra \<le> cap / 100"
    unfolding evaluate_risk_approved(8) [OF assms(1,2)]
    by (rule py_round_le_grid) (use sized_le_cap [of c pf bars "sg_size_pct sg"] assms(5,6) in \<open>simp_all add: max_size_def mult.commute [of 100]\<close>)
  ultimately show ?thesis using evaluate_risk_approved(10) [OF assms(1,2)] by simp
qed

definition demo_signal :: "rat \<Rightarrow> signal_candidate" where
  "demo_signal sz = \<lparr>sg_signal_id = ''s1'', sg_symbol = ''AAPL'', sg_ts = 0, sg_candidate_action = BUY, sg_confidence = 8 / 10,
     sg_size_pct = sz, sg_risk_score = ''MEDIUM'', sg_strategy = ''sma'', sg_ta_as_of = Some 0, sg_research_summary = None\<rparr>"

definition demo_price_bars :: "ohlcv_bar list" where
  "demo_price_bars = replicate 15 \<lparr>ba_symbol = ''AAPL'', ba_timestamp = 0, ba_open = 100, ba_high = 101, ba_low = 99,
     ba_close = 100, ba_volume = 1000\<rparr>"

definition demo_portfolio :: portfolio_state where
  "demo_portfolio = \<lparr>pf_positions = [Some ''TSLA''], pf_buying_power = 100000, pf_daily_drawdown_pct = 0\<rparr>"

definition demo_risk :: risk_assessment where
  "demo_risk = \<lparr>ra_approved = True, ra_reason = [S ''approved''], ra_adjusted_size_pct = 15 / 100, ra_tier = 3\<rparr>"

lemma demo_risk_eq:
  "evaluate_risk (demo_signal (1 / 100)) demo_portfolio 36000 baseline (Some demo_price_bars) (Some (''Mon'', 36000000000)) = Inr demo_risk"
  by code_simp

theorem risk_size_passes_policy_witness:
  "\<not> size_cap default_settings_policy baseline < ra_adjusted_size_pct demo_risk \<and> ra_adjusted_size_pct demo_risk = 15 / 100"
proof -
  have c: "merged_policy_config no_env default_settings_policy baseline = Inr baseline" by code_simp
  have "(15 :: rat) * 100 = of_int 1500" by simp
  then have i: "(15 :: rat) * 100 \<in> \<int>" by (metis Ints_of_int)
  have "pc_max_position_size_pct baseline = Some 15" "no_env ''POLICY_MAX_SIZE_PCT'' = None" "ra_approved demo_risk"
    by (simp_all add: baseline_def no_env_def demo_risk_def)
  from risk_size_passes_policy [OF demo_risk_eq this(3) c this(2,1) i] show ?thesis by (simp add: demo_risk_def)
qed

text \<open>
  The weekly cap does not bound what is ordered. The check counts the size the signal asked for, but the
  position sizing that follows may enlarge the order up to the position cap: with the shipped configuration, a
  signal of one percent is approved and ordered at fifteen, beyond the week's cap.
\<close>

theorem weekly_cap_escaped_by_sizing:
  "evaluate_risk (demo_signal (1 / 100)) demo_portfolio 36000 baseline (Some demo_price_bars) (Some (''Mon'', 36000000000)) = Inr demo_risk \<and>
   ra_approved demo_risk \<and>
   get_or (pc_weekly_notional_cap_usd baseline) 0 < 36000 + pf_buying_power demo_portfolio * ra_adjusted_size_pct demo_risk"
  using demo_risk_eq by (simp add: demo_risk_def baseline_def demo_portfolio_def)

text \<open>
  The same variable means a fraction in one place and a percentage in the other. When
  \<open>POLICY_MAX_SIZE_PCT\<close> is set, the settings read it as the fraction of the account a position may take, while
  the merged configuration takes it as a percentage: the cap that is enforced is a hundredth of the setting.
\<close>

theorem env_cap_is_a_hundredth:
  assumes "policy_settings_of env = Inr st" and "merged_policy_config env st b = Inr c"
    and "env ''POLICY_MAX_SIZE_PCT'' = Some text"
  shows "size_cap st c = st_max_size_pct st / 100"
proof -
  have f: "env_rat env ''POLICY_MAX_SIZE_PCT'' d = to_float text" for d using assms(3) by (simp add: env_rat_def)
  from assms(1) have "to_float text = Inr (st_max_size_pct st)"
    unfolding policy_settings_of_def bindE_Inr_iff f by (elim exE conjE) (simp only: sum.inject, erule subst, simp)
  with merged_size [OF assms(2)] f show ?thesis by simp
qed

definition fraction_env :: environ where
  "fraction_env = [''POLICY_MAX_SIZE_PCT'' \<mapsto> ''0.02'']"

theorem env_cap_is_a_hundredth_witness:
  "policy_settings_of fraction_env = Inr default_settings_policy \<and>
   size_cap default_settings_policy (baseline\<lparr>pc_max_position_size_pct := Some (2 / 100)\<rparr>) = 2 / 10000"
proof -
  have s: "policy_settings_of fraction_env = Inr default_settings_policy" by code_simp
  have m: "merged_policy_config fraction_env default_settings_policy baseline = Inr (baseline\<lparr>pc_max_position_size_pct := Some (2 / 100)\<rparr>)"
    by code_simp
  have "fraction_env ''POLICY_MAX_SIZE_PCT'' = Some ''0.02''" by code_simp
  from env_cap_is_a_hundredth [OF s m this] s show ?thesis by (simp add: default_settings_policy_def)
qed

end
