(* ===== verification/Trading_Cycle.thy ===== *)
theory Trading_Cycle
  imports Risk_Jobs Policy_Rules
begin

text \<open>
  The trading cycle of the orchestrator (\<open>run_cycle\<close> of
  \<open>services/autonomy-orchestrator/src/autonomy_orchestrator/main.py\<close>): deferred approvals, the signals with
  reconciliation, day-trade budget, risk engine, policy service and lifecycle gate before each order, the
  order itself sent to the execution service, the protection registered for it, and the exits. What the cycle
  reads from outside (configuration file, clocks, signals, quotes, bars, answers of the other services and
  whether they can be reached) is the record \<open>cycle_env\<close>; the policy service's answer is a function of the
  request, which the composed statements instantiate with \<open>evaluate_policy\<close>. Notifications, log lines and
  the one-time validation of the allow list are left out.
\<close>

subsection \<open>Inputs and progress\<close>

record cycle_env =
  cy_settings :: orchestrator_settings
  cy_pdt :: pdt_settings
  cy_config :: policy_config
  cy_local :: local_time
  cy_today :: int
  cy_now :: instant
  cy_month :: "int \<times> int"
  cy_eod :: bool
  cy_disk :: bool
  cy_audit_up :: bool
  cy_approval_up :: bool
  cy_weekly_answer :: rat
  cy_approved :: "signal_candidate list option"
  cy_pending :: "signal_candidate list"
  cy_exits :: "exit_signal list"
  cy_exits_eod :: "exit_signal list"
  cy_held :: "string \<Rightarrow> string option option"
  cy_positions :: "string option list"
  cy_buying_power :: rat
  cy_equity :: "rat option"
  cy_views :: views
  cy_bars :: "string \<Rightarrow> ohlcv_bar list option"
  cy_quote :: "string \<Rightarrow> rat option"
  cy_blackout :: "string \<Rightarrow> exn + bool"
  cy_policy :: "policy_request \<Rightarrow> exn + policy_decision"
  cy_lifecycle :: lifecycle_service
  cy_online :: "string \<Rightarrow> bool"
  cy_call :: "string \<Rightarrow> call"
  cy_use_limit_orders :: bool
  cy_limit_tolerance_bps :: rat
  cy_max_adv_participation :: rat
  cy_bars_per_day :: rat

record cycle_summary =
  su_signals :: nat
  su_approved :: nat
  su_rejected :: nat
  su_review :: nat
  su_executed :: nat
  su_paper_only :: nat
  su_closed :: nat

record progress =
  pg_summary :: cycle_summary
  pg_weekly_spend :: rat
  pg_oc :: orchestrator
  pg_st :: exec_state
  pg_reviews :: "(signal_candidate \<times> int) list"
  pg_decisions :: "(string \<times> string \<times> string \<times> msg) list"

text \<open>A failure of the policy service halts the cycle; any other exception leaves it.\<close>

datatype cycle_error = HaltCycle msg | RaiseCycle exn

datatype cycle_status = Completed | Halted msg | Raised exn

fun side_of :: "candidate_action \<Rightarrow> string" where
  "side_of BUY = ''BUY''"
| "side_of SELL = ''SELL''"
| "side_of HOLD = ''HOLD''"
| "side_of EXIT = ''EXIT''"

definition strategy_of :: "signal_candidate \<Rightarrow> string" where
  "strategy_of sg = (if sg_strategy sg \<noteq> [] then sg_strategy sg else DEFAULT_LIVE_STRATEGY)"

definition portfolio_of :: "cycle_env \<Rightarrow> portfolio_state" where
  "portfolio_of env = \<lparr>pf_positions = cy_positions env, pf_buying_power = cy_buying_power env, pf_daily_drawdown_pct = 0\<rparr>"

definition tell :: "cycle_env \<Rightarrow> string \<Rightarrow> signal_candidate \<Rightarrow> string \<Rightarrow> msg \<Rightarrow> progress \<Rightarrow> progress" where
  "tell env kind sg decision reasoning pg = pg\<lparr>pg_oc := audit (cy_audit_up env)
     \<lparr>ae_event_type = kind, ae_symbol = sg_symbol sg, ae_signal_id = sg_signal_id sg, ae_decision = decision,
      ae_reasoning = reasoning\<rparr> (pg_oc pg)\<rparr>"

definition jot :: "string \<Rightarrow> string \<Rightarrow> signal_candidate \<Rightarrow> msg \<Rightarrow> progress \<Rightarrow> progress" where
  "jot stage outcome sg reason pg = pg\<lparr>pg_decisions := pg_decisions pg @ [(stage, outcome, sg_symbol sg, reason)]\<rparr>"

definition count_rejected :: "progress \<Rightarrow> progress" where
  "count_rejected pg = pg\<lparr>pg_summary := (pg_summary pg)\<lparr>su_rejected := su_rejected (pg_summary pg) + 1\<rparr>\<rparr>"

definition mark_acted :: "cycle_env \<Rightarrow> signal_candidate \<Rightarrow> progress \<Rightarrow> progress" where
  "mark_acted env sg pg =
     (if cy_online env (''act-'' @ sg_signal_id sg)
      then pg\<lparr>pg_oc := (pg_oc pg)\<lparr>oc_acted := oc_acted (pg_oc pg) @ [sg_signal_id sg]\<rparr>\<rparr> else pg)"

subsection \<open>Asking the policy service\<close>

definition policy_query :: "cycle_env \<Rightarrow> signal_candidate \<Rightarrow> risk_assessment \<Rightarrow> bool \<Rightarrow> bool \<Rightarrow> policy_request" where
  "policy_query env sg risk blackout market_open =
     \<lparr>pq_signal_id = sg_signal_id sg, pq_symbol = sg_symbol sg, pq_candidate_action = sg_candidate_action sg,
      pq_confidence = sg_confidence sg,
      pq_size_pct = (if ra_adjusted_size_pct risk \<noteq> 0 then ra_adjusted_size_pct risk else sg_size_pct sg),
      pq_data_age_seconds = max 0 (py_trunc (total_seconds (cy_now env - (case sg_ta_as_of sg of None \<Rightarrow> 0 | Some t \<Rightarrow> t)))),
      pq_market_open = market_open, pq_event_blackout_active = blackout, pq_liquidity_score = 95 / 100,
      pq_symbol_allowed = (upper (sg_symbol sg) \<in> set (allowed_symbols (cy_config env))),
      pq_gross_exposure_pct = min (of_nat (length (cy_positions env)) / 10) 1,
      pq_daily_drawdown_pct = pf_daily_drawdown_pct (portfolio_of env), pq_risk_score = sg_risk_score sg\<rparr>"

definition policy_evaluate :: "cycle_env \<Rightarrow> signal_candidate \<Rightarrow> risk_assessment \<Rightarrow> cycle_error + policy_decision" where
  "policy_evaluate env sg risk =
     (case cy_blackout env (sg_symbol sg) of
        Inl e \<Rightarrow> Inl (RaiseCycle e)
      | Inr blackout \<Rightarrow>
          (case is_market_hours (cy_config env) (cy_local env) of
             Inl e \<Rightarrow> Inl (RaiseCycle e)
           | Inr market_open \<Rightarrow>
               (case cy_policy env (policy_query env sg risk blackout market_open) of
                  Inl e \<Rightarrow> Inl (HaltCycle ([S ''Policy service unreachable: ''] @ exn_text e))
                | Inr d \<Rightarrow> Inr d)))"

subsection \<open>Placing an order\<close>

text \<open>The constraints of \<open>ExecutionOrderRequest\<close>; a body that violates them is answered 422.\<close>

definition order_valid :: "execution_order_request \<Rightarrow> bool" where
  "order_valid r =
     (let len = (\<lambda>s n. s \<noteq> [] \<and> length s \<le> n); pos = (\<lambda>x. case x of None \<Rightarrow> True | Some v \<Rightarrow> (0 :: rat) < v) in
      len (rq_signal_id r) 128 \<and> len (rq_symbol r) 32 \<and> 0 < rq_qty r \<and> rq_qty r \<le> 1000000 \<and>
      rq_order_type r \<in> {''MARKET'', ''LIMIT''} \<and> rq_time_in_force r \<in> {''DAY'', ''GTC'', ''IOC''} \<and>
      pos (rq_stop_loss_rate r) \<and> pos (rq_take_profit_rate r) \<and> pos (rq_limit_price r) \<and> pos (rq_decision_price r) \<and>
      len (rq_strategy_id r) 128 \<and> len (rq_account_id r) 128)"

record placed_order =
  pl_response :: order_response
  pl_amount_usd :: rat
  pl_entry_price :: rat
  pl_qty :: int

definition order_amount :: "cycle_env \<Rightarrow> risk_assessment \<Rightarrow> rat" where
  "order_amount env risk = py_round 2 (cy_buying_power env * ra_adjusted_size_pct risk)"

definition order_qty :: "cycle_env \<Rightarrow> risk_assessment \<Rightarrow> rat \<Rightarrow> ohlcv_bar list option \<Rightarrow> int" where
  "order_qty env risk price bars =
     (let qty = py_trunc (order_amount env risk / price);
          adv = average_daily_volume (map (\<lambda>b. Some (ba_volume b)) (get_or bars [])) (Some (cy_bars_per_day env));
          capped = participation_capped_qty qty adv (cy_max_adv_participation env)
      in if capped < qty then capped else qty)"

definition order_of ::
  "cycle_env \<Rightarrow> signal_candidate \<Rightarrow> rat \<Rightarrow> int \<Rightarrow> rat option \<Rightarrow> execution_order_request" where
  "order_of env sg price qty limit_price =
     \<lparr>rq_signal_id = sg_signal_id sg, rq_symbol = sg_symbol sg, rq_side = side_of (sg_candidate_action sg), rq_qty = qty,
      rq_order_type = (if limit_price = None then ''MARKET'' else ''LIMIT''),
      rq_time_in_force = (if limit_price = None then ''DAY'' else ''IOC''),
      rq_stop_loss_rate = Some (price * (1 - get_or (pc_stop_loss_pct (cy_config env)) (3 / 100))),
      rq_take_profit_rate = Some (price * (1 + get_or (pc_take_profit_pct (cy_config env)) (6 / 100))),
      rq_limit_price = limit_price, rq_decision_price = Some price, rq_strategy_id = strategy_of sg,
      rq_account_id = og_account_id (cy_settings env), rq_reduce_only = False,
      rq_fields_set = [''signal_id'', ''symbol'', ''side'', ''qty'', ''order_type'', ''time_in_force'', ''limit_price'',
        ''decision_price'', ''stop_loss_rate'', ''take_profit_rate'', ''strategy_id'', ''account_id'']\<rparr>"

definition order_key :: "signal_candidate \<Rightarrow> string" where
  "order_key sg = ''orchestrator-'' @ sg_signal_id sg"

text \<open>The result is the body of the answer, or the reason of a locally made rejection.\<close>

definition submit_signal ::
  "cycle_env \<Rightarrow> signal_candidate \<Rightarrow> risk_assessment \<Rightarrow> ohlcv_bar list option \<Rightarrow> exec_state
     \<Rightarrow> (exn + msg + placed_order) \<times> exec_state" where
  "submit_signal env sg risk bars st =
     (case cy_quote env (sg_symbol sg) of
        None \<Rightarrow> (Inr (Inl [S ''no_quote_for_sizing'']), st)
      | Some price \<Rightarrow>
          if price \<le> 0 then (Inr (Inl [S ''no_quote_for_sizing'']), st)
          else
            (let qty = order_qty env risk price bars in
             if qty < 1 then (Inr (Inl [S ''qty_below_one_share'']), st)
             else
               (case (if cy_use_limit_orders env
                      then marketable_limit_price (Some price) (side_of (sg_candidate_action sg)) (cy_limit_tolerance_bps env)
                      else Inr None) of
                  Inl e \<Rightarrow> (Inl e, st)
                | Inr limit_price \<Rightarrow>
                    (let r = order_of env sg price qty limit_price; key = order_key sg in
                     if \<not> cy_online env key then (Inr (Inl [S ''execution_unreachable'']), st)
                     else if \<not> order_valid r then (Inr (Inl [S ''execution_unreachable: 422'']), st)
                     else
                       (case create_order (cy_call env key) (\<lambda>s. s) r key st of
                          (Inl e, st') \<Rightarrow> (Inr (Inl ([S ''execution_unreachable: ''] @ exn_text e)), st')
                        | (Inr resp, st') \<Rightarrow>
                            (Inr (Inr \<lparr>pl_response = resp, pl_amount_usd = order_amount env risk, pl_entry_price = price,
                                       pl_qty = qty\<rparr>), st'))))))"

definition order_accepted :: "msg + placed_order \<Rightarrow> bool" where
  "order_accepted o' = (case o' of Inl m \<Rightarrow> False | Inr p \<Rightarrow> os_status (pl_response p) \<notin> {REJECTED, CANCELLED})"

definition rejection_of :: "msg + placed_order \<Rightarrow> msg" where
  "rejection_of o' = (case o' of Inl m \<Rightarrow> m
     | Inr p \<Rightarrow> (case os_rejection_reason (pl_response p) of None \<Rightarrow> [S ''broker_rejected''] | Some m \<Rightarrow> msg_or m [S ''broker_rejected'']))"

subsection \<open>Protecting a new position\<close>

definition position_id_of :: "string \<Rightarrow> placed_order \<Rightarrow> string" where
  "position_id_of symbol p =
     (if os_external_order_id (pl_response p) \<noteq> [] then os_external_order_id (pl_response p)
      else if os_order_id (pl_response p) \<noteq> [] then os_order_id (pl_response p) else symbol)"

definition stop_distance :: "rat \<Rightarrow> ohlcv_bar list option \<Rightarrow> rat" where
  "stop_distance ep bars =
     (case bars of
        None \<Rightarrow> ep * (2 / 100)
      | Some bs \<Rightarrow>
          if bs = [] then ep * (2 / 100)
          else (let atr = compute_atr (map ba_high bs) (map ba_low bs) (map ba_close bs) 14
                in if 0 < atr then atr * 2 else ep * (2 / 100)))"

definition stop_for :: "cycle_env \<Rightarrow> signal_candidate \<Rightarrow> placed_order \<Rightarrow> ohlcv_bar list option \<Rightarrow> stop_loss_record" where
  "stop_for env sg p bars =
     (let ep = pl_entry_price p; side = side_of (sg_candidate_action sg); d = stop_distance ep bars in
      \<lparr>rr_symbol = sg_symbol sg, rr_entry_price = ep, rr_position_id = position_id_of (sg_symbol sg) p,
       rr_qty = of_int (pl_qty p), rr_side = side, rr_strategy_id = strategy_of sg,
       rr_account_id = og_account_id (cy_settings env), rr_created_at = cy_now env,
       stop_price = (if side = ''SELL'' then ep + d else ep - d)\<rparr>)"

definition target_for :: "cycle_env \<Rightarrow> signal_candidate \<Rightarrow> placed_order \<Rightarrow> take_profit_record" where
  "target_for env sg p =
     (let ep = pl_entry_price p; side = side_of (sg_candidate_action sg); qty = of_int (pl_qty p);
          gain = (if 0 < qty then og_take_profit_target_usd (cy_settings env) / qty else ep * (6 / 100)) in
      \<lparr>rr_symbol = sg_symbol sg, rr_entry_price = ep, rr_position_id = position_id_of (sg_symbol sg) p,
       rr_qty = qty, rr_side = side, rr_strategy_id = strategy_of sg,
       rr_account_id = og_account_id (cy_settings env), rr_created_at = cy_now env,
       target_price = (if side = ''SELL'' then ep - gain else ep + gain),
       target_gain_usd = og_take_profit_target_usd (cy_settings env)\<rparr>)"

text \<open>\<open>_register_stop_loss\<close> and \<open>_register_take_profit\<close>; an order without an entry price gets neither.\<close>

definition protect :: "cycle_env \<Rightarrow> signal_candidate \<Rightarrow> placed_order \<Rightarrow> ohlcv_bar list option \<Rightarrow> orchestrator \<Rightarrow> orchestrator" where
  "protect env sg p bars oc =
     (if pl_entry_price p \<le> 0 then oc
      else oc\<lparr>oc_stops := register_record (cy_disk env) (stop_for env sg p bars) (oc_stops oc),
              oc_targets := register_record (cy_disk env) (target_for env sg p) (oc_targets oc)\<rparr>)"

definition note_open :: "cycle_env \<Rightarrow> signal_candidate \<Rightarrow> orchestrator \<Rightarrow> orchestrator" where
  "note_open env sg oc = oc\<lparr>oc_tracker := record_open (cy_disk env) (sg_symbol sg) (cy_today env) (oc_tracker oc)\<rparr>"

text \<open>The bookkeeping of an accepted order, shared by both paths.\<close>

definition enter :: "cycle_env \<Rightarrow> signal_candidate \<Rightarrow> placed_order \<Rightarrow> ohlcv_bar list option \<Rightarrow> progress \<Rightarrow> progress" where
  "enter env sg p bars pg =
     (let oc1 = protect env sg p bars (note_open env sg (pg_oc pg)); spend = pg_weekly_spend pg + pl_amount_usd p
      in pg\<lparr>pg_oc := oc1\<lparr>oc_weekly_used := spend\<rparr>, pg_weekly_spend := spend\<rparr>)"

subsection \<open>One signal\<close>

definition reject_signal :: "cycle_env \<Rightarrow> signal_candidate \<Rightarrow> string \<Rightarrow> msg \<Rightarrow> progress \<Rightarrow> progress" where
  "reject_signal env sg decision reason pg = tell env ''signal.rejected'' sg decision reason (count_rejected pg)"

definition paper_only :: "cycle_env \<Rightarrow> signal_candidate \<Rightarrow> msg \<Rightarrow> progress \<Rightarrow> progress" where
  "paper_only env sg gate pg =
     mark_acted env sg (tell env ''signal.paper_only'' sg ''PAPER'' gate (jot ''lifecycle_gate'' ''not_traded'' sg gate
       (pg\<lparr>pg_summary := (pg_summary pg)\<lparr>su_paper_only := su_paper_only (pg_summary pg) + 1\<rparr>\<rparr>)))"

definition executed :: "cycle_env \<Rightarrow> signal_candidate \<Rightarrow> placed_order \<Rightarrow> ohlcv_bar list option \<Rightarrow> progress \<Rightarrow> progress" where
  "executed env sg p bars pg =
     (let pg1 = enter env sg p bars (jot ''order'' ''executed'' sg [S ''order_submitted''] pg); su = pg_summary pg1 in
      mark_acted env sg (tell env ''trade.executed'' sg ''APPROVE'' [S ''order_submitted'']
        (pg1\<lparr>pg_oc := (pg_oc pg1)\<lparr>oc_trades_today := oc_trades_today (pg_oc pg1) + 1\<rparr>,
             pg_summary := su\<lparr>su_approved := su_approved su + 1, su_executed := su_executed su + 1\<rparr>\<rparr>)))"

text \<open>The lifecycle gate, the order and what follows from its answer.\<close>

definition trade_signal ::
  "cycle_env \<Rightarrow> signal_candidate \<Rightarrow> risk_assessment \<Rightarrow> ohlcv_bar list option \<Rightarrow> progress \<Rightarrow> progress \<times> cycle_error option" where
  "trade_signal env sg risk bars pg =
     (case may_open (cy_lifecycle env) (strategy_of sg) (sg_symbol sg) None (xs_lifecycle (pg_st pg)) of
        (answer, w) \<Rightarrow>
          (let pg1 = pg\<lparr>pg_st := (pg_st pg)\<lparr>xs_lifecycle := w\<rparr>\<rparr> in
           if \<not> permitted answer then (paper_only env sg (answer_reason answer) pg1, None)
           else
             (case submit_signal env sg risk bars (pg_st pg1) of
                (Inl e, st') \<Rightarrow> (pg1\<lparr>pg_st := st'\<rparr>, Some (RaiseCycle e))
              | (Inr (Inl reason), st') \<Rightarrow> (reject_signal env sg ''REJECT'' reason (pg1\<lparr>pg_st := st'\<rparr>), None)
              | (Inr (Inr p), st') \<Rightarrow>
                  if \<not> order_accepted (Inr p) then (reject_signal env sg ''REJECT'' (rejection_of (Inr p)) (pg1\<lparr>pg_st := st'\<rparr>), None)
                  else (executed env sg p bars (pg1\<lparr>pg_st := st'\<rparr>), None))))"

definition review_signal :: "cycle_env \<Rightarrow> signal_candidate \<Rightarrow> risk_assessment \<Rightarrow> progress \<Rightarrow> progress" where
  "review_signal env sg risk pg =
     tell env ''signal.review'' sg ''PENDING'' [S ''approval_required'']
       (pg\<lparr>pg_summary := (pg_summary pg)\<lparr>su_review := su_review (pg_summary pg) + 1\<rparr>,
           pg_reviews := (if cy_approval_up env then pg_reviews pg @ [(sg, ra_tier risk)] else pg_reviews pg)\<rparr>)"

definition pdt_check :: "cycle_env \<Rightarrow> progress \<Rightarrow> pdt_decision" where
  "pdt_check env pg = check_entry (cy_pdt env) (cy_equity env) (cy_today env) (oc_tracker (pg_oc pg))"

definition assess_signal :: "cycle_env \<Rightarrow> signal_candidate \<Rightarrow> progress \<Rightarrow> exn + risk_assessment" where
  "assess_signal env sg pg = evaluate_risk sg (portfolio_of env) (pg_weekly_spend pg) (cy_config env) (cy_bars env (sg_symbol sg)) (cy_local env)"

definition handle_signal :: "cycle_env \<Rightarrow> bool \<Rightarrow> signal_candidate \<Rightarrow> progress \<Rightarrow> progress \<times> cycle_error option" where
  "handle_signal env halted sg pg =
     (let pg0 = pg\<lparr>pg_summary := (pg_summary pg)\<lparr>su_signals := su_signals (pg_summary pg) + 1\<rparr>\<rparr>; pdt = pdt_check env pg0 in
      if halted then (count_rejected pg0, None)
      else if \<not> pd_allowed pdt
      then (reject_signal env sg ''REJECT'' (pd_reason pdt) (jot ''pdt'' ''rejected'' sg (pd_reason pdt) pg0), None)
      else
        (case assess_signal env sg pg0 of
           Inl e \<Rightarrow> (pg0, Some (RaiseCycle e))
         | Inr risk \<Rightarrow>
             if \<not> ra_approved risk
             then (reject_signal env sg ''REJECT'' (ra_reason risk) (jot ''risk'' ''rejected'' sg (ra_reason risk) pg0), None)
             else
               (case policy_evaluate env sg risk of
                  Inl e \<Rightarrow> (pg0, Some e)
                | Inr policy \<Rightarrow>
                    if pd_decision policy = ''APPROVE'' \<and> ra_tier risk < 3
                    then trade_signal env sg risk (cy_bars env (sg_symbol sg)) pg0
                    else if pd_decision policy = ''REVIEW'' \<or> 3 \<le> ra_tier risk then (review_signal env sg risk pg0, None)
                    else (reject_signal env sg (pd_decision policy) (msg_join ''; '' (map (\<lambda>x. [S x]) (pd_reasons policy))) pg0, None))))"

fun signal_loop :: "cycle_env \<Rightarrow> bool \<Rightarrow> signal_candidate list \<Rightarrow> progress \<Rightarrow> progress \<times> cycle_error option" where
  "signal_loop env halted [] pg = (pg, None)"
| "signal_loop env halted (sg # sgs) pg =
     (case handle_signal env halted sg pg of
        (pg', Some e) \<Rightarrow> (pg', Some e)
      | (pg', None) \<Rightarrow> signal_loop env halted sgs pg')"

subsection \<open>Deferred approvals\<close>

definition execute_approved :: "cycle_env \<Rightarrow> signal_candidate \<Rightarrow> progress \<Rightarrow> progress \<times> cycle_error option" where
  "execute_approved env sg pg =
     (case assess_signal env sg pg of
        Inl e \<Rightarrow> (pg, Some (RaiseCycle e))
      | Inr risk \<Rightarrow>
          if \<not> ra_approved risk
          then (tell env ''approval.stale_rejected'' sg ''REJECT'' ([S ''deferred approval failed re-check: ''] @ ra_reason risk) pg, None)
          else
            (case policy_evaluate env sg risk of
               Inl e \<Rightarrow> (pg, Some e)
             | Inr policy \<Rightarrow>
                 if pd_decision policy \<noteq> ''APPROVE''
                 then (tell env ''approval.stale_rejected'' sg ''REJECT'' [S ''deferred approval failed policy re-check''] pg, None)
                 else
                   (case submit_signal env sg risk (cy_bars env (sg_symbol sg)) (pg_st pg) of
                      (Inl e, st') \<Rightarrow> (pg\<lparr>pg_st := st'\<rparr>, Some (RaiseCycle e))
                    | (Inr (Inl reason), st') \<Rightarrow> (pg\<lparr>pg_st := st'\<rparr>, None)
                    | (Inr (Inr p), st') \<Rightarrow>
                        if \<not> order_accepted (Inr p) then (pg\<lparr>pg_st := st'\<rparr>, None)
                        else (mark_acted env sg (tell env ''trade.executed.approval'' sg ''APPROVED'' [S ''approval executed after re-check'']
                               (enter env sg p (cy_bars env (sg_symbol sg)) (pg\<lparr>pg_st := st'\<rparr>))), None))))"

fun approval_loop :: "cycle_env \<Rightarrow> signal_candidate list \<Rightarrow> progress \<Rightarrow> progress \<times> cycle_error option" where
  "approval_loop env [] pg = (pg, None)"
| "approval_loop env (sg # sgs) pg =
     (if \<not> pd_allowed (pdt_check env pg) then (pg, None)
      else
        (case execute_approved env sg pg of
           (pg', Some e) \<Rightarrow> (pg', Some e)
         | (pg', None) \<Rightarrow> approval_loop env sgs pg'))"

definition process_approvals :: "cycle_env \<Rightarrow> progress \<Rightarrow> progress \<times> cycle_error option" where
  "process_approvals env pg =
     (case cy_approved env of
        None \<Rightarrow> (pg, None)
      | Some rows \<Rightarrow>
          if pc_kill_switch (cy_config env) then (pg, None)
          else
            (let (ok, oc) = monthly_limits_ok (cy_settings env) (cy_month env) (pg_oc pg);
                 pg1 = pg\<lparr>pg_oc := oc, pg_weekly_spend := cy_weekly_answer env\<rparr>; pdt = pdt_check env pg1 in
             if \<not> ok then (pg1, None)
             else if \<not> pd_allowed pdt then (fold (\<lambda>sg. tell env ''signal.rejected'' sg ''REJECT'' (pd_reason pdt)) rows pg1, None)
             else approval_loop env rows pg1))"

subsection \<open>A cycle\<close>

definition weekly_spend_safe :: "cycle_env \<Rightarrow> orchestrator \<Rightarrow> rat" where
  "weekly_spend_safe env oc =
     (if cy_weekly_answer env = 0 \<and> 0 < oc_weekly_used oc then oc_weekly_used oc else cy_weekly_answer env)"

definition no_progress :: "rat \<Rightarrow> orchestrator \<Rightarrow> exec_state \<Rightarrow> progress" where
  "no_progress spend oc st = \<lparr>pg_summary = \<lparr>su_signals = 0, su_approved = 0, su_rejected = 0, su_review = 0, su_executed = 0,
       su_paper_only = 0, su_closed = 0\<rparr>, pg_weekly_spend = spend, pg_oc = oc, pg_st = st, pg_reviews = [], pg_decisions = []\<rparr>"

definition status_of :: "cycle_error option \<Rightarrow> cycle_status" where
  "status_of e = (case e of None \<Rightarrow> Completed | Some (HaltCycle m) \<Rightarrow> Halted m | Some (RaiseCycle x) \<Rightarrow> Raised x)"

definition close_exits :: "cycle_env \<Rightarrow> exit_signal list \<Rightarrow> progress \<Rightarrow> nat \<times> progress" where
  "close_exits env exits pg =
     (case process_exit_signals (cy_audit_up env) (cy_disk env) (cy_today env) (cy_held env) (cy_online env) (cy_call env) exits
             (pg_oc pg) (pg_st pg) of
        (n, oc, st) \<Rightarrow> (n, pg\<lparr>pg_oc := oc, pg_st := st,
          pg_summary := (pg_summary pg)\<lparr>su_executed := su_executed (pg_summary pg) + n\<rparr>\<rparr>))"

text \<open>The cycle after the deferred approvals.\<close>

definition direct_path :: "cycle_env \<Rightarrow> rat \<Rightarrow> progress \<Rightarrow> progress \<times> cycle_error option" where
  "direct_path env spend pg =
     (let (ok, oc) = monthly_limits_ok (cy_settings env) (cy_month env) (pg_oc pg) in
      if \<not> ok then (pg\<lparr>pg_oc := oc\<rparr>, None)
      else
        (let signals = filter (\<lambda>sg. sg_candidate_action sg \<noteq> EXIT) (cy_pending env);
             (res, rn) = reconciler_check (cy_now env) (cy_views env) (oc_reconciler oc);
             pg1 = pg\<lparr>pg_oc := oc\<lparr>oc_reconciler := rn\<rparr>, pg_weekly_spend := spend,
               pg_decisions := pg_decisions pg @ (if rz_halted res then [(''reconcile'', ''rejected'', [],
                 [S ''position break persisted - new entries blocked''])] else [])\<rparr> in
         case signal_loop env (rz_halted res) signals pg1 of
           (pg2, Some e) \<Rightarrow> (pg2, Some e)
         | (pg2, None) \<Rightarrow>
             (let (n, pg3) = close_exits env (cy_exits env) pg2; pg4 = pg3\<lparr>pg_summary := (pg_summary pg3)\<lparr>su_closed := n\<rparr>\<rparr> in
              (if pc_close_positions_eod (cy_config env) \<and> cy_eod env then snd (close_exits env (cy_exits_eod env) pg4) else pg4, None))))"

text \<open>
  The approvals read configuration, clock and services at their own moment, hence their own environment. The
  kill switch ends the cycle before anything else; the summary is audited at the end of every other one.
\<close>

definition run_cycle :: "cycle_env \<Rightarrow> cycle_env \<Rightarrow> orchestrator \<Rightarrow> exec_state \<Rightarrow> cycle_status \<times> progress" where
  "run_cycle ea env oc st =
     (if pc_kill_switch (cy_config env) then (Halted [S ''kill_switch_active''], no_progress 0 oc st)
      else
        (let spend = weekly_spend_safe env oc; pg = no_progress spend (oc\<lparr>oc_weekly_used := spend\<rparr>) st;
             (pg', e) = (case process_approvals ea pg of
                           (pg1, Some e) \<Rightarrow> (pg1, Some e)
                         | (pg1, None) \<Rightarrow> direct_path env spend pg1)
         in (status_of e, pg'\<lparr>pg_oc := audit (cy_audit_up env) \<lparr>ae_event_type = ''orchestrator.cycle'', ae_symbol = [],
               ae_signal_id = [], ae_decision = ''SUMMARY'', ae_reasoning = [S ''cycle completed'']\<rparr> (pg_oc pg')\<rparr>)))"

end
