(* ===== verification/Cycle_Safety.thy ===== *)
theory Cycle_Safety
  imports Trading_Cycle
begin

text \<open>
  What a trading cycle guarantees: which orders it can send, that the day-trade budget of \<open>Day_Trades\<close> holds
  for the whole orchestrator, and that the protection it registers stands on the right side of the entry.
\<close>

subsection \<open>Bookkeeping keeps the books\<close>

lemma bookkeeping_state [simp]:
  "pg_st (tell env k sg d m pg) = pg_st pg" "pg_st (jot a b sg m pg) = pg_st pg" "pg_st (count_rejected pg) = pg_st pg"
  "pg_st (mark_acted env sg pg) = pg_st pg" "pg_st (enter env sg p bars pg) = pg_st pg"
  "pg_st (reject_signal env sg d m pg) = pg_st pg" "pg_st (paper_only env sg m pg) = pg_st pg"
  "pg_st (executed env sg p bars pg) = pg_st pg" "pg_st (review_signal env sg risk pg) = pg_st pg"
  by (simp_all add: tell_def jot_def count_rejected_def mark_acted_def enter_def reject_signal_def paper_only_def
    executed_def review_signal_def Let_def)

lemma audit_tracker [simp]: "oc_tracker (audit u e oc) = oc_tracker oc"
  by (simp add: audit_def)

lemma bookkeeping_tracker [simp]:
  "oc_tracker (pg_oc (tell env k sg d m pg)) = oc_tracker (pg_oc pg)" "pg_oc (jot a b sg m pg) = pg_oc pg"
  "pg_oc (count_rejected pg) = pg_oc pg" "oc_tracker (pg_oc (mark_acted env sg pg)) = oc_tracker (pg_oc pg)"
  by (simp_all add: tell_def jot_def count_rejected_def mark_acted_def)

lemma outcome_tracker [simp]:
  "oc_tracker (pg_oc (reject_signal env sg d m pg)) = oc_tracker (pg_oc pg)"
  "oc_tracker (pg_oc (paper_only env sg m pg)) = oc_tracker (pg_oc pg)"
  "oc_tracker (pg_oc (review_signal env sg risk pg)) = oc_tracker (pg_oc pg)"
  "oc_tracker (pg_oc (enter env sg p bars pg)) = record_open (cy_disk env) (sg_symbol sg) (cy_today env) (oc_tracker (pg_oc pg))"
  "oc_tracker (pg_oc (executed env sg p bars pg)) = record_open (cy_disk env) (sg_symbol sg) (cy_today env) (oc_tracker (pg_oc pg))"
  by (simp_all add: reject_signal_def paper_only_def review_signal_def enter_def executed_def protect_def note_open_def Let_def)

subsection \<open>Every order passed every gate\<close>

lemma create_order_sends:
  assumes "create_order cl (\<lambda>s. s) req key st = (res, st')"
  shows "xs_sent st' = xs_sent st \<or> (\<exists>sy a. xs_sent st' = xs_sent st @ [(key, a, req\<lparr>rq_symbol := sy\<rparr>)])"
  using assms
proof (cases rule: create_order_cases)
  case (submit sy routed a rt w)
  then show ?thesis
    using submit_sends [of cl "\<lambda>s. s" "req\<lparr>rq_symbol := sy\<rparr>" key "cl_digest cl (req\<lparr>rq_symbol := sy\<rparr>)" routed a "moved_on st rt w"]
    by auto
qed simp

lemma qty_within_amount:
  assumes "0 < price" and "1 \<le> order_qty env risk price bars"
  shows "of_int (order_qty env risk price bars) * price \<le> order_amount env risk"
proof -
  let ?q = "py_trunc (order_amount env risk / price)"
  have "order_qty env risk price bars \<le> max 0 ?q"
    by (auto simp: order_qty_def participation_capped_qty_def Let_def split: option.splits)
  with assms(2) have q: "order_qty env risk price bars \<le> ?q" "0 < ?q" by auto
  then have "of_int ?q \<le> order_amount env risk / price" by (auto simp: py_trunc_def split: if_splits)
  then have "of_int (order_qty env risk price bars) \<le> order_amount env risk / price"
    using q(1) by (meson of_int_le_iff order_trans)
  then show ?thesis using assms(1) by (simp add: pos_le_divide_eq)
qed

lemma submit_signal_sends:
  assumes "submit_signal env sg risk bars st = (res, st')"
  shows "xs_sent st' = xs_sent st \<or> (\<exists>price qty limit sy a. cy_quote env (sg_symbol sg) = Some price \<and> 0 < price \<and>
    qty = order_qty env risk price bars \<and> 1 \<le> qty \<and>
    xs_sent st' = xs_sent st @ [(order_key sg, a, (order_of env sg price qty limit)\<lparr>rq_symbol := sy\<rparr>)])"
proof (cases "cy_quote env (sg_symbol sg)")
  case None
  with assms show ?thesis by (simp add: submit_signal_def)
next
  case (Some price)
  let ?q = "order_qty env risk price bars"
  show ?thesis
  proof (cases "price \<le> 0 \<or> ?q < 1")
    case True
    with assms Some show ?thesis by (auto simp: submit_signal_def Let_def split: if_splits)
  next
    case False
    with assms Some consider "st' = st"
      | lim res' where "create_order (cy_call env (order_key sg)) (\<lambda>s. s) (order_of env sg price ?q lim)
          (order_key sg) st = (res', st')"
      by (auto simp: submit_signal_def Let_def split: sum.splits if_splits prod.splits)
    then show ?thesis
    proof cases
      case (2 lim res')
      from create_order_sends [OF this] False Some show ?thesis by auto
    qed simp
  qed
qed

text \<open>The gates of the direct path, each answered at the state the signal met.\<close>

definition entry_cleared :: "cycle_env \<Rightarrow> progress \<Rightarrow> signal_candidate \<Rightarrow> execution_order_request \<Rightarrow> bool" where
  "entry_cleared env pg sg r = (\<exists>risk policy price limit sy.
     pd_allowed (check_entry (cy_pdt env) (cy_equity env) (cy_today env) (oc_tracker (pg_oc pg))) \<and>
     evaluate_risk sg (portfolio_of env) (pg_weekly_spend pg) (cy_config env) (cy_bars env (sg_symbol sg)) (cy_local env) = Inr risk \<and> ra_approved risk \<and>
     policy_evaluate env sg risk = Inr policy \<and> pd_decision policy = ''APPROVE'' \<and> ra_tier risk < 3 \<and>
     permitted (fst (may_open (cy_lifecycle env) (strategy_of sg) (sg_symbol sg) None (xs_lifecycle (pg_st pg)))) \<and>
     cy_quote env (sg_symbol sg) = Some price \<and>
     (let qty = order_qty env risk price (cy_bars env (sg_symbol sg)) in
      r = (order_of env sg price qty limit)\<lparr>rq_symbol := sy\<rparr> \<and> 1 \<le> qty \<and> of_int qty * price \<le> order_amount env risk))"

lemma trade_signal_sends:
  assumes "trade_signal env sg risk bars pg = (pg', e)"
  shows "xs_sent (pg_st pg') = xs_sent (pg_st pg) \<or> permitted (fst (may_open (cy_lifecycle env) (strategy_of sg) (sg_symbol sg) None (xs_lifecycle (pg_st pg)))) \<and>
    (\<exists>price limit sy a. cy_quote env (sg_symbol sg) = Some price \<and> 0 < price \<and> 1 \<le> order_qty env risk price bars \<and>
      xs_sent (pg_st pg') = xs_sent (pg_st pg) @
        [(order_key sg, a, (order_of env sg price (order_qty env risk price bars) limit)\<lparr>rq_symbol := sy\<rparr>)])"
proof -
  obtain answer w where m: "may_open (cy_lifecycle env) (strategy_of sg) (sg_symbol sg) None (xs_lifecycle (pg_st pg)) = (answer, w)"
    by (rule prod.exhaust)
  obtain res st' where s: "submit_signal env sg risk bars ((pg_st pg)\<lparr>xs_lifecycle := w\<rparr>) = (res, st')" by (rule prod.exhaust)
  show ?thesis
  proof (cases "permitted answer")
    case True
    with assms m s have "pg_st pg' = st'"
      by (auto simp: trade_signal_def Let_def split: sum.splits if_splits)
    with submit_signal_sends [OF s] m True show ?thesis by auto
  next
    case False
    with assms m show ?thesis by (auto simp: trade_signal_def Let_def)
  qed
qed

lemma handle_signal_sends:
  assumes "handle_signal env halted sg pg = (pg', e)"
  shows "xs_sent (pg_st pg') = xs_sent (pg_st pg) \<or>
    \<not> halted \<and> (\<exists>a r. xs_sent (pg_st pg') = xs_sent (pg_st pg) @ [(order_key sg, a, r)] \<and> entry_cleared env pg sg r)"
proof -
  let ?pg0 = "pg\<lparr>pg_summary := (pg_summary pg)\<lparr>su_signals := su_signals (pg_summary pg) + 1\<rparr>\<rparr>"
  consider "pg_st pg' = pg_st pg"
    | risk policy where "\<not> halted" "pd_allowed (pdt_check env ?pg0)" "assess_signal env sg ?pg0 = Inr risk" "ra_approved risk"
        "policy_evaluate env sg risk = Inr policy" "pd_decision policy = ''APPROVE''" "ra_tier risk < 3"
        "trade_signal env sg risk (cy_bars env (sg_symbol sg)) ?pg0 = (pg', e)"
    using assms by (auto simp: handle_signal_def Let_def split: if_splits sum.splits)
  then show ?thesis
  proof cases
    case (2 risk policy)
    from trade_signal_sends [OF 2(8)] show ?thesis
    proof (elim disjE conjE exE)
      fix price limit sy a
      let ?q = "order_qty env risk price (cy_bars env (sg_symbol sg))"
      let ?r = "(order_of env sg price ?q limit)\<lparr>rq_symbol := sy\<rparr>"
      assume g: "permitted (fst (may_open (cy_lifecycle env) (strategy_of sg) (sg_symbol sg) None (xs_lifecycle (pg_st ?pg0))))"
        "cy_quote env (sg_symbol sg) = Some price" "0 < price" "1 \<le> ?q"
      have "entry_cleared env pg sg ?r"
        unfolding entry_cleared_def Let_def
        using 2(2-7) g qty_within_amount [OF g(3,4)] by (intro exI conjI) (auto simp: pdt_check_def assess_signal_def)
      moreover assume "xs_sent (pg_st pg') = xs_sent (pg_st ?pg0) @ [(order_key sg, a, ?r)]"
      ultimately show ?thesis using 2(1) by auto
    qed simp
  qed simp
qed

lemma signal_loop_append:
  "signal_loop env halted (xs @ ys) pg =
     (case signal_loop env halted xs pg of (pg', Some e) \<Rightarrow> (pg', Some e) | (pg', None) \<Rightarrow> signal_loop env halted ys pg')"
  by (induction xs arbitrary: pg) (auto split: prod.splits option.splits)

text \<open>An order of a run: the signal it belongs to, and the state the run had reached when that signal came up.\<close>

definition cleared_when_met ::
  "cycle_env \<Rightarrow> bool \<Rightarrow> signal_candidate list \<Rightarrow> progress \<Rightarrow> string \<times> adapter \<times> execution_order_request \<Rightarrow> bool" where
  "cleared_when_met env halted sgs pg = (\<lambda>(key, a, r). \<exists>before sg after pg1. sgs = before @ sg # after \<and>
     signal_loop env halted before pg = (pg1, None) \<and> key = order_key sg \<and> entry_cleared env pg1 sg r)"

lemma cleared_earlier: "cleared_when_met env halted sgs pg x \<Longrightarrow> cleared_when_met env halted (sgs @ [sg]) pg x"
  unfolding cleared_when_met_def by (cases x) (simp, metis append_Cons append_assoc)

lemma cleared_last:
  "signal_loop env halted sgs pg = (pg1, None) \<Longrightarrow> entry_cleared env pg1 sg r \<Longrightarrow> cleared_when_met env halted (sgs @ [sg]) pg (order_key sg, a, r)"
  unfolding cleared_when_met_def by auto

text \<open>
  C2: Everything the direct path of a cycle hands to a broker passed every gate at the moment its signal came up. Each
  order of a run belongs to one of its signals and carries that signal's idempotency key; with the tracker, the week's
  spending and the lifecycle database as the signals before it left them, the day-trade guard allowed the entry, the
  risk engine approved and sized it, the policy service approved it below the tier that needs a person and the
  lifecycle authority permitted the sleeve, and the order is for the quantity computed from that size and the quote, whose cost
  does not exceed the sized amount. While a position break persists the path sends nothing, and it never sends
  more orders than it has signals.
\<close>

theorem entries_pass_every_gate:
  assumes "signal_loop env halted sgs pg = (pg', e)"
  shows "\<exists>new. xs_sent (pg_st pg') = xs_sent (pg_st pg) @ new \<and> (halted \<longrightarrow> new = []) \<and> length new \<le> length sgs \<and>
    (\<forall>x \<in> set new. cleared_when_met env halted sgs pg x)"
  using assms
proof (induction sgs arbitrary: pg' e rule: rev_induct)
  case (snoc sg sgs)
  obtain pg1 e1 where l: "signal_loop env halted sgs pg = (pg1, e1)" by (rule prod.exhaust)
  from snoc.IH [OF l] obtain new where new: "xs_sent (pg_st pg1) = xs_sent (pg_st pg) @ new" "halted \<longrightarrow> new = []" "length new \<le> length sgs"
    and old: "\<forall>x \<in> set new. cleared_when_met env halted (sgs @ [sg]) pg x" using cleared_earlier by blast
  show ?case
  proof (cases e1)
    case None
    obtain pg2 e2 where h: "handle_signal env halted sg pg1 = (pg2, e2)" by (rule prod.exhaust)
    with snoc.prems l None have pg': "pg' = pg2" by (auto simp: signal_loop_append split: option.splits)
    from handle_signal_sends [OF h] show ?thesis
    proof (elim disjE conjE exE)
      assume "xs_sent (pg_st pg2) = xs_sent (pg_st pg1)"
      with new old pg' show ?thesis by (intro exI [of _ new]) auto
    next
      fix a r
      assume o: "\<not> halted" "xs_sent (pg_st pg2) = xs_sent (pg_st pg1) @ [(order_key sg, a, r)]" "entry_cleared env pg1 sg r"
      with cleared_last l None new old pg' show ?thesis by (intro exI [of _ "new @ [(order_key sg, a, r)]"]) auto
    qed
  next
    case (Some x)
    with snoc.prems l have "pg' = pg1" by (simp add: signal_loop_append)
    with new old show ?thesis by (intro exI [of _ new]) auto
  qed
qed simp

subsection \<open>The day-trade budget\<close>

text \<open>
  The environment the guarantee is about: the state file can be written, the account is below the threshold or
  its equity unknown, and the settings are those of the tracker.
\<close>

definition small_account :: "pdt_settings \<Rightarrow> int \<Rightarrow> cycle_env \<Rightarrow> bool" where
  "small_account cfg today env = (cy_pdt env = cfg \<and> cy_today env = today \<and> cy_disk env \<and>
     (case cy_equity env of None \<Rightarrow> True | Some x \<Rightarrow> x < equity_threshold_usd cfg))"

definition follows :: "pdt_settings \<Rightarrow> int \<Rightarrow> tracker \<Rightarrow> tracker \<Rightarrow> bool" where
  "follows cfg today t t' = (\<forall>made. \<exists>made'. (pdt_step cfg)\<^sup>*\<^sup>* (today, made, t) (today, made', t'))"

lemma follows_refl [simp]: "follows cfg today t t"
  by (auto simp: follows_def)

lemma follows_trans: "follows cfg today t u \<Longrightarrow> follows cfg today u v \<Longrightarrow> follows cfg today t v"
  unfolding follows_def by (meson rtranclp_trans)

lemma follows_open:
  "small_account cfg today env \<Longrightarrow> pd_allowed (check_entry (cy_pdt env) (cy_equity env) (cy_today env) t) \<Longrightarrow>
   follows cfg today t (record_open (cy_disk env) y (cy_today env) t)"
  by (auto simp: follows_def small_account_def intro!: exI r_into_rtranclp pdt_open)

lemma follows_close: "follows cfg today t (snd (record_close True y today t))"
  unfolding follows_def by (metis pdt_close prod.collapse r_into_rtranclp)

lemma trade_signal_tracker:
  "trade_signal env sg risk bars pg = (pg', e) \<Longrightarrow> oc_tracker (pg_oc pg') = oc_tracker (pg_oc pg) \<or>
   oc_tracker (pg_oc pg') = record_open (cy_disk env) (sg_symbol sg) (cy_today env) (oc_tracker (pg_oc pg))"
  by (auto simp: trade_signal_def Let_def split: sum.splits if_splits prod.splits)

lemma handle_signal_follows:
  assumes "handle_signal env halted sg pg = (pg', e)" and "small_account cfg today env"
  shows "follows cfg today (oc_tracker (pg_oc pg)) (oc_tracker (pg_oc pg'))"
proof -
  let ?pg0 = "pg\<lparr>pg_summary := (pg_summary pg)\<lparr>su_signals := su_signals (pg_summary pg) + 1\<rparr>\<rparr>"
  consider "oc_tracker (pg_oc pg') = oc_tracker (pg_oc pg)"
    | risk where "pd_allowed (pdt_check env ?pg0)" "trade_signal env sg risk (cy_bars env (sg_symbol sg)) ?pg0 = (pg', e)"
    using assms by (auto simp: handle_signal_def Let_def split: if_splits sum.splits)
  then show ?thesis
  proof cases
    case (2 risk)
    from trade_signal_tracker [OF 2(2)] follows_open [OF assms(2), of "oc_tracker (pg_oc pg)"] 2(1) show ?thesis by (auto simp: pdt_check_def)
  qed simp
qed

lemma signal_loop_follows:
  assumes "signal_loop env halted sgs pg = (pg', e)" and "small_account cfg today env"
  shows "follows cfg today (oc_tracker (pg_oc pg)) (oc_tracker (pg_oc pg'))"
  using assms(1)
proof (induction sgs arbitrary: pg)
  case (Cons sg sgs)
  obtain pg1 e1 where h: "handle_signal env halted sg pg = (pg1, e1)" by (rule prod.exhaust)
  from handle_signal_follows [OF h assms(2)] Cons h show ?case
    by (cases e1) (auto intro: follows_trans)
qed simp

lemma execute_approved_follows:
  assumes "execute_approved env sg pg = (pg', e)" and "small_account cfg today env" and "pd_allowed (pdt_check env pg)"
  shows "follows cfg today (oc_tracker (pg_oc pg)) (oc_tracker (pg_oc pg'))"
proof -
  have "oc_tracker (pg_oc pg') = oc_tracker (pg_oc pg) \<or>
      oc_tracker (pg_oc pg') = record_open (cy_disk env) (sg_symbol sg) (cy_today env) (oc_tracker (pg_oc pg))"
    using assms(1) by (auto simp: execute_approved_def split: sum.splits if_splits prod.splits)
  with follows_open [OF assms(2), of "oc_tracker (pg_oc pg)"] assms(3) show ?thesis by (auto simp: pdt_check_def)
qed

lemma approval_loop_follows:
  assumes "approval_loop env sgs pg = (pg', e)" and "small_account cfg today env"
  shows "follows cfg today (oc_tracker (pg_oc pg)) (oc_tracker (pg_oc pg'))"
  using assms(1)
proof (induction sgs arbitrary: pg)
  case (Cons sg sgs)
  show ?case
  proof (cases "pd_allowed (pdt_check env pg)")
    case True
    obtain pg1 e1 where h: "execute_approved env sg pg = (pg1, e1)" by (rule prod.exhaust)
    from execute_approved_follows [OF h assms(2) True] Cons h True show ?thesis
      by (cases e1) (auto intro: follows_trans)
  qed (use Cons in simp)
qed simp

lemma monthly_tracker: "monthly_limits_ok s m oc = (ok, oc') \<Longrightarrow> oc_tracker oc' = oc_tracker oc"
  by (auto simp: monthly_limits_ok_def check_monthly_reset_def Let_def)

lemma process_approvals_follows:
  assumes "process_approvals env pg = (pg', e)" and "small_account cfg today env"
  shows "follows cfg today (oc_tracker (pg_oc pg)) (oc_tracker (pg_oc pg'))"
proof -
  have tells: "oc_tracker (pg_oc (fold (\<lambda>sg. tell env k sg d m) rows p)) = oc_tracker (pg_oc p)" for k d m rows p
    by (induction rows arbitrary: p) simp_all
  obtain ok oc where m: "monthly_limits_ok (cy_settings env) (cy_month env) (pg_oc pg) = (ok, oc)" by (rule prod.exhaust)
  then have "oc_tracker oc = oc_tracker (pg_oc pg)" by (rule monthly_tracker)
  with assms m approval_loop_follows [of env _ "pg\<lparr>pg_oc := oc, pg_weekly_spend := cy_weekly_answer env\<rparr>" pg' e cfg today]
  show ?thesis by (auto simp: process_approvals_def Let_def tells split: option.splits if_splits)
qed

lemma exit_one_follows:
  "follows cfg today (oc_tracker (fst (snd acc))) (oc_tracker (fst (snd (exit_one au True today held online cl s acc))))"
  by (cases acc) (auto simp: exit_one_def clear_risk_records_def Let_def follows_close split: option.splits prod.splits sum.splits)

lemma exits_follow:
  assumes "process_exit_signals au True today held online cl signals oc st = (n, oc', st')"
  shows "follows cfg today (oc_tracker oc) (oc_tracker oc')"
proof -
  have "follows cfg today (oc_tracker (fst (snd acc))) (oc_tracker (fst (snd (fold (exit_one au True today held online cl) signals acc))))" for acc
  proof (induction signals arbitrary: acc)
    case (Cons s signals)
    show ?case unfolding fold_simps(2) by (rule follows_trans [OF exit_one_follows Cons.IH])
  qed simp
  from this [of "(0, oc, st)"] assms show ?thesis by (simp add: process_exit_signals_def)
qed

lemma close_exits_follow:
  assumes "close_exits env exits pg = (n, pg')" and "small_account cfg today env"
  shows "follows cfg today (oc_tracker (pg_oc pg)) (oc_tracker (pg_oc pg'))"
  using assms exits_follow by (fastforce simp: close_exits_def small_account_def split: prod.splits)

lemma direct_path_follows:
  assumes "direct_path env spend pg = (pg', e)" and "small_account cfg today env"
  shows "follows cfg today (oc_tracker (pg_oc pg)) (oc_tracker (pg_oc pg'))"
proof -
  obtain ok oc where m: "monthly_limits_ok (cy_settings env) (cy_month env) (pg_oc pg) = (ok, oc)" by (rule prod.exhaust)
  obtain res rn where r: "reconciler_check (cy_now env) (cy_views env) (oc_reconciler oc) = (res, rn)" by (rule prod.exhaust)
  let ?pg1 = "pg\<lparr>pg_oc := oc\<lparr>oc_reconciler := rn\<rparr>, pg_weekly_spend := spend, pg_decisions := pg_decisions pg @
    (if rz_halted res then [(''reconcile'', ''rejected'', [], [S ''position break persisted - new entries blocked''])] else [])\<rparr>"
  obtain pg2 e2 where l: "signal_loop env (rz_halted res) (filter (\<lambda>sg. sg_candidate_action sg \<noteq> EXIT) (cy_pending env)) ?pg1 = (pg2, e2)"
    by (rule prod.exhaust)
  obtain n pg3 where c: "close_exits env (cy_exits env) pg2 = (n, pg3)" by (rule prod.exhaust)
  let ?pg4 = "pg3\<lparr>pg_summary := (pg_summary pg3)\<lparr>su_closed := n\<rparr>\<rparr>"
  obtain k pg5 where c': "close_exits env (cy_exits_eod env) ?pg4 = (k, pg5)" by (rule prod.exhaust)
  have "pg' = pg\<lparr>pg_oc := oc\<rparr> \<or> pg' = pg2 \<or> pg' = ?pg4 \<or> pg' = pg5"
    using assms(1) m r l c c' by (auto simp: direct_path_def Let_def split: if_splits option.splits)
  with monthly_tracker [OF m] signal_loop_follows [OF l assms(2)] close_exits_follow [OF c assms(2)] close_exits_follow [OF c' assms(2)]
  show ?thesis by (auto intro: follows_trans)
qed

lemma run_cycle_follows:
  assumes "run_cycle ea env oc st = (status, pg)" and "small_account cfg today ea" and "small_account cfg today env"
  shows "follows cfg today (oc_tracker oc) (oc_tracker (pg_oc pg))"
proof (cases "pc_kill_switch (cy_config env)")
  case True
  with assms show ?thesis by (auto simp: run_cycle_def no_progress_def)
next
  case False
  let ?spend = "weekly_spend_safe env oc" let ?pg = "no_progress ?spend (oc\<lparr>oc_weekly_used := ?spend\<rparr>) st"
  obtain pg1 e1 where a: "process_approvals ea ?pg = (pg1, e1)" by (rule prod.exhaust)
  obtain pg2 e2 where d: "direct_path env ?spend pg1 = (pg2, e2)" by (rule prod.exhaust)
  have "oc_tracker (pg_oc pg) = oc_tracker (pg_oc pg1) \<or> oc_tracker (pg_oc pg) = oc_tracker (pg_oc pg2)"
    using assms(1) False a d by (auto simp: run_cycle_def Let_def split: option.splits)
  moreover have "follows cfg today (oc_tracker oc) (oc_tracker (pg_oc pg1))"
    using process_approvals_follows [OF a assms(2)] by (simp add: no_progress_def)
  ultimately show ?thesis using direct_path_follows [OF d assms(3)] by (auto intro: follows_trans)
qed

lemma settle_follows: "follows cfg today (oc_tracker oc) (oc_tracker (settle_close True today r oc))"
  using follows_close by (simp add: settle_close_def clear_risk_records_def Let_def)

lemma attribute_follows:
  "follows cfg today (oc_tracker oc) (oc_tracker (attribute_stop True today price tracked k oc))"
  "follows cfg today (oc_tracker oc) (oc_tracker (attribute_target True today price tracked' k oc))"
  by (simp_all add: attribute_stop_def attribute_target_def settle_follows Let_def split: option.splits)

lemma fold_follows:
  assumes "\<And>k oc. follows cfg today (oc_tracker oc) (oc_tracker (f k oc))"
  shows "follows cfg today (oc_tracker oc) (oc_tracker (fold f ks oc))"
proof (induction ks arbitrary: oc)
  case (Cons k ks)
  show ?case unfolding fold_simps(2) by (rule follows_trans [OF assms Cons.IH])
qed simp

lemma stop_check_follows:
  assumes "run_stop_loss_check True today price online cl oc st = (oc', st')"
  shows "follows cfg today (oc_tracker oc) (oc_tracker oc')"
proof -
  obtain ks m where "oc' = fold (attribute_stop True today (\<lambda>y. price y st') (mo_records (oc_stops oc))) ks (oc\<lparr>oc_stops := m\<rparr>)"
    using assms by (auto simp: run_stop_loss_check_def Let_def split: prod.splits)
  then show ?thesis using fold_follows [OF attribute_follows(1), of cfg today "oc\<lparr>oc_stops := m\<rparr>"] by simp
qed

lemma target_check_follows:
  assumes "run_take_profit_check True today price online cl oc st = (oc', st')"
  shows "follows cfg today (oc_tracker oc) (oc_tracker oc')"
proof -
  obtain ks m where "oc' = fold (attribute_target True today (\<lambda>y. price y st') (mo_records (oc_targets oc))) ks (oc\<lparr>oc_targets := m\<rparr>)"
    using assms by (auto simp: run_take_profit_check_def Let_def split: prod.splits)
  then show ?thesis using fold_follows [OF attribute_follows(2), of cfg today "oc\<lparr>oc_targets := m\<rparr>"] by simp
qed

text \<open>
  The orchestrator as a machine: cycles, the two scheduled checks, the passing of days and restarts, after which
  everything but the tracker's file may be different.
\<close>

inductive orchestrator_step :: "pdt_settings \<Rightarrow> int \<times> orchestrator \<times> exec_state \<Rightarrow> int \<times> orchestrator \<times> exec_state \<Rightarrow> bool" for cfg where
  cycle: "run_cycle ea env oc st = (status, pg) \<Longrightarrow> small_account cfg today ea \<Longrightarrow> small_account cfg today env \<Longrightarrow>
    orchestrator_step cfg (today, oc, st) (today, pg_oc pg, pg_st pg)"
| stops: "run_stop_loss_check True today price online cl oc st = (oc', st') \<Longrightarrow>
    orchestrator_step cfg (today, oc, st) (today, oc', st')"
| targets: "run_take_profit_check True today price online' cl' oc st = (oc', st') \<Longrightarrow>
    orchestrator_step cfg (today, oc, st) (today, oc', st')"
| next_day: "today \<le> later \<Longrightarrow> orchestrator_step cfg (today, oc, st) (later, oc, st)"
| restart: "oc_tracker oc' = load_tracker True today (dt_file (oc_tracker oc)) \<Longrightarrow>
    orchestrator_step cfg (today, oc, st) (today, oc', st')"

definition orchestrator_init :: "pdt_settings \<Rightarrow> int \<times> orchestrator \<times> exec_state \<Rightarrow> bool" where
  "orchestrator_init cfg s = (pdt_enabled cfg \<and> 0 \<le> max_day_trades cfg \<and> oc_tracker (fst (snd s)) = blank_tracker)"

definition tracked_budget :: "pdt_settings \<Rightarrow> int \<times> orchestrator \<times> exec_state \<Rightarrow> bool" where
  "tracked_budget cfg s = (\<exists>made. reach (pdt_init cfg) (pdt_step cfg) (fst s, made, oc_tracker (fst (snd s))))"

lemma follows_reach:
  assumes "follows cfg today t t'" and "reach (pdt_init cfg) (pdt_step cfg) (today, made, t)"
  shows "\<exists>made'. reach (pdt_init cfg) (pdt_step cfg) (today, made', t')"
proof -
  have "reach (pdt_init cfg) (pdt_step cfg) s'" if "(pdt_step cfg)\<^sup>*\<^sup>* s s'" "reach (pdt_init cfg) (pdt_step cfg) s" for s s'
    using that by (induction rule: rtranclp_induct) (auto intro: reach_step)
  with assms show ?thesis unfolding follows_def by blast
qed

interpretation orchestrator: invariant_system "orchestrator_init cfg" "orchestrator_step cfg" "tracked_budget cfg" for cfg
proof
  fix s :: "int \<times> orchestrator \<times> exec_state"
  assume "orchestrator_init cfg s"
  then have "pdt_init cfg (fst s, [], oc_tracker (fst (snd s)))" by (simp add: orchestrator_init_def pdt_init_def blank_tracker_def)
  then show "tracked_budget cfg s" unfolding tracked_budget_def by (blast intro: reach_init)
next
  fix s s' assume inv: "tracked_budget cfg s" and step: "orchestrator_step cfg s s'"
  from step inv show "tracked_budget cfg s'"
  proof cases
    case (cycle ea env oc st status pg today)
    with inv show ?thesis using run_cycle_follows follows_reach by (fastforce simp: tracked_budget_def)
  next
    case (stops today price online cl oc st oc' st')
    with inv show ?thesis using stop_check_follows follows_reach by (fastforce simp: tracked_budget_def)
  next
    case (targets today price online cl oc st oc' st')
    with inv show ?thesis using target_check_follows follows_reach by (fastforce simp: tracked_budget_def)
  next
    case (next_day today later oc st)
    with inv show ?thesis using pdt_tick by (fastforce simp: tracked_budget_def intro: reach_step)
  next
    case (restart oc' today oc st st')
    with inv show ?thesis using pdt_restart by (fastforce simp: tracked_budget_def intro: reach_step)
  qed
qed

text \<open>
  C7: The whole orchestrator stays within the day-trade budget. However cycles with their deferred approvals and
  their exits, stop checks, target checks, days and restarts follow each other, a small account's tracker is
  always in a state of the guarded tracker alone, so the day trades of the rolling window and today's open
  positions together stay within the limit.
\<close>

theorem orchestrator_stays_in_budget:
  assumes "reach (orchestrator_init cfg) (orchestrator_step cfg) (today, oc, st)"
  shows "(\<exists>made. reach (pdt_init cfg) (pdt_step cfg) (today, made, oc_tracker oc)) \<and>
    count_locked today (oc_tracker oc) + open_today today (oc_tracker oc) \<le> max_day_trades cfg"
proof -
  from orchestrator.reach_inv [OF assms] obtain made where r: "reach (pdt_init cfg) (pdt_step cfg) (today, made, oc_tracker oc)"
    by (auto simp: tracked_budget_def)
  from pdt.reach_inv [OF r] have "count_locked today (oc_tracker oc) + open_today today (oc_tracker oc) \<le> max_day_trades cfg"
    by (auto simp: budget_inv_def counts_ok_def count_sum_in open_today_def opened_on_def)
  with r show ?thesis by blast
qed

subsection \<open>Protection\<close>

text \<open>
  Protection stands on the right side of the entry. For an accepted order with a positive price and a
  positive target, neither the registered stop nor the registered target is reached at the entry price; a long
  position is stopped by every price at or below its stop and reaches its target upwards, a short one the
  other way round.
\<close>

theorem protection_is_clear_of_entry:
  assumes "0 < pl_entry_price p" and "0 < og_take_profit_target_usd (cy_settings env)"
  shows "\<not> stop_breached (stop_for env sg p bars) (pl_entry_price p) \<and> \<not> target_reached (target_for env sg p) (pl_entry_price p) \<and>
    (sg_candidate_action sg = SELL \<longrightarrow> pl_entry_price p < stop_price (stop_for env sg p bars) \<and> target_price (target_for env sg p) < pl_entry_price p) \<and>
    (sg_candidate_action sg \<noteq> SELL \<longrightarrow> stop_price (stop_for env sg p bars) < pl_entry_price p \<and> pl_entry_price p < target_price (target_for env sg p))"
proof -
  have d: "0 < stop_distance (pl_entry_price p) bars" using assms(1) by (simp add: stop_distance_def Let_def split: option.splits)
  have g: "0 < (if 0 < (of_int (pl_qty p) :: rat) then og_take_profit_target_usd (cy_settings env) / of_int (pl_qty p) else pl_entry_price p * (6 / 100))"
    using assms by simp
  have side: "upper (side_of a) = side_of a" for a by (cases a) (simp_all, code_simp+)
  show ?thesis
  proof (cases "sg_candidate_action sg = SELL")
    case True
    with d g side [of SELL] show ?thesis by (simp add: stop_breached_def target_reached_def stop_for_def target_for_def Let_def)
  next
    case False
    then have "side_of (sg_candidate_action sg) \<noteq> ''SELL''" by (cases "sg_candidate_action sg") simp_all
    with False d g side show ?thesis by (simp add: stop_breached_def target_reached_def stop_for_def target_for_def Let_def)
  qed
qed

subsection \<open>A cycle of one account\<close>

definition demo_policy :: "policy_request \<Rightarrow> exn + policy_decision" where
  "demo_policy q = map_sum id fst (evaluate_policy no_env default_settings_policy True baseline demo_inputs q)"

definition demo_pick :: "rat \<Rightarrow> signal_candidate" where
  "demo_pick confidence = (demo_signal (5 / 100))\<lparr>sg_strategy := ''ch_1'', sg_confidence := confidence\<rparr>"

definition demo_env :: "signal_candidate list \<Rightarrow> signal_candidate list \<Rightarrow> cycle_env" where
  "demo_env approved pending = \<lparr>cy_settings = \<lparr>og_account_id = ''default'', og_monthly_loss_limit_usd = 500,
       og_monthly_profit_target_usd = 500, og_take_profit_target_usd = 50\<rparr>,
     cy_pdt = default_pdt, cy_config = baseline, cy_local = Some (''Mon'', 36000000000), cy_today = 738522, cy_now = 0,
     cy_month = (1, 2026), cy_eod = False, cy_disk = True, cy_audit_up = True, cy_approval_up = True, cy_weekly_answer = 0,
     cy_approved = Some approved, cy_pending = pending, cy_exits = [], cy_exits_eod = [], cy_held = (\<lambda>_. None), cy_positions = [],
     cy_buying_power = 1000, cy_equity = None, cy_views = Inr ([], []), cy_bars = (\<lambda>_. None), cy_quote = (\<lambda>_. Some 5),
     cy_blackout = (\<lambda>_. Inr False), cy_policy = demo_policy, cy_lifecycle = demo_service, cy_online = (\<lambda>_. True),
     cy_call = (\<lambda>_. demo_call ''u1''), cy_use_limit_orders = True, cy_limit_tolerance_bps = 10, cy_max_adv_participation = 1 / 100,
     cy_bars_per_day = 1\<rparr>"

definition demo_start :: exec_state where
  "demo_start = demo_exec\<lparr>xs_lifecycle := quiet demo_db2\<rparr>"

definition idle_oc :: orchestrator where
  "idle_oc = demo_oc\<lparr>oc_stops := start_monitor True True None\<rparr>"

definition demo_cycle :: "cycle_status \<times> progress" where
  "demo_cycle = run_cycle (demo_env [] []) (demo_env [] [demo_pick (8 / 10)]) idle_oc demo_start"

lemma demo_cycle_done:
  "fst demo_cycle = Completed \<and> map fst (xs_sent (pg_st (snd demo_cycle))) = [order_key (demo_pick (8 / 10))] \<and>
   open_today 738522 (oc_tracker (pg_oc (snd demo_cycle))) = 1"
  by code_simp

definition demo_loop :: "progress \<times> cycle_error option" where
  "demo_loop = signal_loop (demo_env [] []) False [demo_pick (8 / 10)] (no_progress 0 idle_oc demo_start)"

theorem entries_pass_every_gate_witness:
  "\<exists>x. xs_sent (pg_st (fst demo_loop)) = [x] \<and> cleared_when_met (demo_env [] []) False [demo_pick (8 / 10)] (no_progress 0 idle_oc demo_start) x"
proof -
  have l: "length (xs_sent (pg_st (fst demo_loop))) = 1" by code_simp
  have z: "xs_sent (pg_st (no_progress 0 idle_oc demo_start)) = []" by (simp add: no_progress_def demo_start_def demo_exec_def)
  obtain pg' e where r: "signal_loop (demo_env [] []) False [demo_pick (8 / 10)] (no_progress 0 idle_oc demo_start) = (pg', e)"
    by (rule prod.exhaust)
  from entries_pass_every_gate [OF r] z have
    "\<forall>x \<in> set (xs_sent (pg_st pg')). cleared_when_met (demo_env [] []) False [demo_pick (8 / 10)] (no_progress 0 idle_oc demo_start) x"
    by auto
  moreover obtain x where "xs_sent (pg_st pg') = [x]" using l r by (auto simp: demo_loop_def length_Suc_conv)
  ultimately show ?thesis using r by (simp add: demo_loop_def)
qed

theorem orchestrator_stays_in_budget_witness:
  "reach (orchestrator_init default_pdt) (orchestrator_step default_pdt) (738522, pg_oc (snd demo_cycle), pg_st (snd demo_cycle)) \<and>
   count_locked 738522 (oc_tracker (pg_oc (snd demo_cycle))) + 1 \<le> 3"
proof -
  have "reach (orchestrator_init default_pdt) (orchestrator_step default_pdt) (738522, idle_oc, demo_start)"
    by (rule reach_init) (simp add: orchestrator_init_def default_pdt_def FINRA_DAY_TRADE_LIMIT_def idle_oc_def demo_oc_def)
  moreover have "small_account default_pdt 738522 (demo_env xs ys)" for xs ys by (simp add: small_account_def demo_env_def)
  then have "orchestrator_step default_pdt (738522, idle_oc, demo_start) (738522, pg_oc (snd demo_cycle), pg_st (snd demo_cycle))"
    by (intro cycle [of "demo_env [] []" "demo_env [] [demo_pick (8 / 10)]" _ _ "fst demo_cycle"]) (simp_all add: demo_cycle_def)
  ultimately have r: "reach (orchestrator_init default_pdt) (orchestrator_step default_pdt) (738522, pg_oc (snd demo_cycle), pg_st (snd demo_cycle))"
    by (rule reach_step)
  have "max_day_trades default_pdt = 3" by code_simp
  with r demo_cycle_done orchestrator_stays_in_budget [OF r] show ?thesis by simp
qed

definition demo_placed :: placed_order where
  "demo_placed = \<lparr>pl_response = demo_answer, pl_amount_usd = 50, pl_entry_price = 5, pl_qty = 10\<rparr>"

theorem protection_is_clear_of_entry_witness:
  "stop_price (stop_for (demo_env [] []) (demo_pick (8 / 10)) demo_placed None) < 5 \<and>
   5 < target_price (target_for (demo_env [] []) (demo_pick (8 / 10)) demo_placed)"
  using protection_is_clear_of_entry [of demo_placed "demo_env [] []" "demo_pick (8 / 10)" None]
  by (simp add: demo_placed_def demo_env_def demo_pick_def demo_signal_def)

subsection \<open>Where approvals end\<close>

lemma low_confidence_not_approved:
  assumes "evaluate_policy penv st present b inp q = Inr (d, hits)" and "pq_confidence q < st_confidence_floor st"
    and "\<not> (pq_risk_score q = ''LOW'' \<and> st_auto_approve_low_risk st)"
  shows "pd_decision d \<noteq> ''APPROVE''"
proof -
  from assms(1) obtain c where "merged_policy_config penv st b = Inr c" by (auto simp: evaluate_policy_def bindE_Inr_iff)
  with assms(1) show ?thesis
  proof (cases rule: evaluate_policy_cases)
    case (rules h)
    from graded_approve [OF rules(3)] assms(2,3) show ?thesis by auto
  qed (simp add: decide_policy_def)
qed

lemma execute_approved_idle:
  assumes "\<And>q. cy_policy env q = map_sum id fst (evaluate_policy penv st present b inp q)"
    and "sg_confidence sg < st_confidence_floor st" and "\<not> (sg_risk_score sg = ''LOW'' \<and> st_auto_approve_low_risk st)"
  shows "pg_st (fst (execute_approved env sg pg)) = pg_st pg"
proof -
  have "pd_decision d \<noteq> ''APPROVE''" if p: "policy_evaluate env sg risk = Inr d" for risk d
  proof -
    from p obtain q where q: "cy_policy env q = Inr d" "pq_confidence q = sg_confidence sg" "pq_risk_score q = sg_risk_score sg"
      by (auto simp: policy_evaluate_def policy_query_def split: sum.splits)
    with assms(1) obtain hits where "evaluate_policy penv st present b inp q = Inr (d, hits)"
      by (cases "evaluate_policy penv st present b inp q") auto
    from low_confidence_not_approved [OF this] q assms(2,3) show ?thesis by simp
  qed
  then show ?thesis by (auto simp: execute_approved_def split: sum.splits)
qed

text \<open>
  A person's approval of an uncertain signal is never carried out. A signal the policy service sent to review
  because its confidence is below the floor is judged by the same rule again when the approval is processed;
  with the policy service's own evaluation as the answer, no such approved signal ever reaches the execution
  service, whatever the portfolio and the market are by then.
\<close>

theorem uncertain_approvals_never_execute:
  assumes "\<And>q. cy_policy env q = map_sum id fst (evaluate_policy penv st present b inp q)"
    and "cy_approved env = Some rows"
    and "\<forall>sg \<in> set rows. sg_confidence sg < st_confidence_floor st \<and> \<not> (sg_risk_score sg = ''LOW'' \<and> st_auto_approve_low_risk st)"
  shows "pg_st (fst (process_approvals env pg)) = pg_st pg"
proof -
  have loop: "pg_st (fst (approval_loop env rs pg)) = pg_st pg" if "set rs \<subseteq> set rows" for rs pg
    using that
  proof (induction rs arbitrary: pg)
    case (Cons sg rs)
    have "pg_st (fst (execute_approved env sg pg)) = pg_st pg" using Cons.prems assms(3) by (intro execute_approved_idle [OF assms(1)]) auto
    with Cons show ?case by (auto split: prod.splits option.splits)
  qed simp
  have tells: "pg_st (fold (\<lambda>sg. tell env k sg d m) rs pg) = pg_st pg" for k d m rs pg
    by (induction rs arbitrary: pg) simp_all
  show ?thesis using loop [of rows] assms(2) by (simp add: process_approvals_def Let_def tells split: prod.splits)
qed

text \<open>The signal is queued for review; its approval is then answered as stale.\<close>

theorem uncertain_approvals_never_execute_witness:
  "map fst (pg_reviews (fst (handle_signal (demo_env [] []) False (demo_pick (1 / 2)) (no_progress 0 idle_oc demo_start)))) = [demo_pick (1 / 2)] \<and>
   pg_st (fst (process_approvals (demo_env [demo_pick (1 / 2)] []) (no_progress 0 idle_oc demo_start))) = demo_start \<and>
   map ae_event_type (oc_audit (pg_oc (fst (process_approvals (demo_env [demo_pick (1 / 2)] []) (no_progress 0 idle_oc demo_start)))))
     = [''approval.stale_rejected'']"
proof -
  let ?env = "demo_env [demo_pick (1 / 2)] []"
  have "cy_policy ?env q = map_sum id fst (evaluate_policy no_env default_settings_policy True baseline demo_inputs q)" for q
    by (simp add: demo_env_def demo_policy_def)
  then have "pg_st (fst (process_approvals ?env (no_progress 0 idle_oc demo_start))) = demo_start"
    using uncertain_approvals_never_execute [where env = ?env and rows = "[demo_pick (1 / 2)]" and pg = "no_progress 0 idle_oc demo_start"]
    by (simp add: demo_env_def demo_pick_def demo_signal_def default_settings_policy_def no_progress_def)
  moreover have "map fst (pg_reviews (fst (handle_signal (demo_env [] []) False (demo_pick (1 / 2)) (no_progress 0 idle_oc demo_start)))) = [demo_pick (1 / 2)]"
    by code_simp
  moreover have "map ae_event_type (oc_audit (pg_oc (fst (process_approvals ?env (no_progress 0 idle_oc demo_start))))) = [''approval.stale_rejected'']"
    by code_simp
  ultimately show ?thesis by blast
qed

end
