(* ===== verification/Health.thy ===== *)
theory Health
  imports Lifecycle_Service Round_Trips
begin

text \<open>
  \<open>libs/lifecycle/src/lifecycle/health.py\<close>: the demotion triggers and the scheduled sweep that applies
  them, with the part of \<open>libs/journal/src/journal/store.py\<close> it reads, \<open>completeness\<close>, over the table of
  recorded bars. The live round trips of each sleeve (the answer of \<open>load_round_trips\<close>, or the
  exception it raises) are an input of the sweep; their figures are those of theory \<open>Round_Trips\<close>.
\<close>

subsection \<open>Journal completeness\<close>

record bar_observation =
  bo_symbol :: string
  bo_timeframe :: string
  bo_ts :: instant

text \<open>\<open>SELECT DISTINCT bar_ts ... ORDER BY bar_ts\<close>.\<close>

definition select_bars :: "bar_observation list \<Rightarrow> string \<Rightarrow> string \<Rightarrow> instant \<Rightarrow> instant \<Rightarrow> instant list" where
  "select_bars bars symbol timeframe window_start window_end =
     sort (remdups (map bo_ts (filter (\<lambda>b. bo_symbol b = upper symbol \<and> bo_timeframe b = timeframe \<and>
        window_start \<le> bo_ts b \<and> bo_ts b \<le> window_end) bars)))"

definition minutes_between :: "instant \<Rightarrow> instant \<Rightarrow> rat" where
  "minutes_between a b = total_seconds (b - a) / 60"

record completeness_report =
  cp_expected_observations :: int
  cp_actual_observations :: int
  cp_gaps :: "(instant \<times> instant \<times> rat) list"
  cp_stale_minutes :: "rat option"
  cp_stale :: bool
  cp_complete :: bool
  cp_last_gap_at :: "instant option"

datatype completeness_answer = Unavailable msg | Completeness completeness_report

definition bar_gaps :: "rat \<Rightarrow> instant list \<Rightarrow> (instant \<times> instant \<times> rat) list" where
  "bar_gaps tolerance stamps =
     map (\<lambda>(a, b). (a, b, py_round 2 (minutes_between a b)))
       (filter (\<lambda>(a, b). tolerance < minutes_between a b) (zip stamps (tl stamps)))"

text \<open>The journal is the table of bars, \<open>Inl\<close> when the read raises; \<open>enabled\<close> is its switch.\<close>

definition completeness ::
  "bool \<Rightarrow> exn + bar_observation list \<Rightarrow> string \<Rightarrow> string \<Rightarrow> instant \<Rightarrow> instant \<Rightarrow> rat \<Rightarrow> completeness_answer" where
  "completeness enabled bars symbol timeframe window_start window_end expected_interval_minutes =
     (if \<not> enabled then Unavailable [S ''journal_disabled'']
      else
        (case bars of
           Inl e \<Rightarrow> Unavailable (exn_text e)
         | Inr bs \<Rightarrow>
             (let stamps = select_bars bs symbol timeframe window_start window_end;
                  actual = int (length stamps);
                  span_minutes = minutes_between window_start window_end;
                  expected = (if 0 < expected_interval_minutes
                              then max 1 (py_trunc (span_minutes / expected_interval_minutes)) else actual);
                  tolerance = expected_interval_minutes * (3 / 2);
                  gaps = bar_gaps tolerance stamps;
                  stale_minutes = (if stamps = [] then None
                                   else Some (py_round 2 (minutes_between (last stamps) window_end)));
                  stale = (case stale_minutes of None \<Rightarrow> False | Some m \<Rightarrow> tolerance < m);
                  last_gap_at = (if stale \<and> stamps \<noteq> [] then Some (last stamps)
                                 else if gaps = [] then None else Some (fst (snd (last gaps))))
              in Completeness \<lparr>cp_expected_observations = expected, cp_actual_observations = actual,
                   cp_gaps = gaps, cp_stale_minutes = stale_minutes, cp_stale = stale,
                   cp_complete = (stamps \<noteq> [] \<and> gaps = [] \<and> \<not> stale), cp_last_gap_at = last_gap_at\<rparr>)))"

subsection \<open>Thresholds and metrics\<close>

record health_thresholds =
  max_live_drawdown_pct :: pyfloat
  max_live_drawdown_amount :: "pyfloat option"
  capital_base :: "pyfloat option"
  min_live_trades_before_decay_check :: int
  sharpe_decay_sigmas :: pyfloat
  min_sharpe_decay :: pyfloat
  max_losing_win_rate :: pyfloat
  journal_gap_grace_minutes :: pyfloat

definition default_health :: health_thresholds where
  "default_health = \<lparr>max_live_drawdown_pct = Fin (15/100), max_live_drawdown_amount = None, capital_base = None,
     min_live_trades_before_decay_check = 20, sharpe_decay_sigmas = Fin 1, min_sharpe_decay = Fin (5/10),
     max_losing_win_rate = Fin (2/10), journal_gap_grace_minutes = Fin 60\<rparr>"

text \<open>One override: an unset or blank variable keeps the default, an unparseable one raises.\<close>

definition override :: "(string \<Rightarrow> 'a option) \<Rightarrow> string \<Rightarrow> os_environ \<Rightarrow> string \<Rightarrow> 'a \<Rightarrow> exn + 'a" where
  "override cast kind env variable dflt =
     (case env variable of
        None \<Rightarrow> Inr dflt
      | Some raw \<Rightarrow>
          if strip raw = [] then Inr dflt
          else (case cast raw of
                  None \<Rightarrow> Inl (ValueError [S variable, S ''='', S raw, S '' is not a valid '', S kind])
                | Some v \<Rightarrow> Inr v))"

definition health_from_env :: "os_environ \<Rightarrow> exn + health_thresholds" where
  "health_from_env env =
     (let flt = override float_of_string ''float'' env;
          opt = override (\<lambda>s. map_option Some (float_of_string s)) ''float'' env;
          d = default_health in
      bindE (flt ''LIFECYCLE_MAX_LIVE_DRAWDOWN'' (max_live_drawdown_pct d)) (\<lambda>pct.
      bindE (opt ''LIFECYCLE_MAX_LIVE_DRAWDOWN_USD'' (max_live_drawdown_amount d)) (\<lambda>amount.
      bindE (opt ''LIFECYCLE_CAPITAL_BASE_USD'' (capital_base d)) (\<lambda>base.
      bindE (override int_of_string ''int'' env ''LIFECYCLE_MIN_LIVE_TRADES''
               (min_live_trades_before_decay_check d)) (\<lambda>trades.
      bindE (flt ''LIFECYCLE_SHARPE_DECAY_SIGMAS'' (sharpe_decay_sigmas d)) (\<lambda>sigmas.
      bindE (flt ''LIFECYCLE_MIN_SHARPE_DECAY'' (min_sharpe_decay d)) (\<lambda>decay.
      bindE (flt ''LIFECYCLE_MAX_LOSING_WIN_RATE'' (max_losing_win_rate d)) (\<lambda>win.
      bindE (flt ''JOURNAL_GAP_GRACE_MINUTES'' (journal_gap_grace_minutes d)) (\<lambda>grace.
      Inr \<lparr>max_live_drawdown_pct = pct, max_live_drawdown_amount = amount, capital_base = base,
           min_live_trades_before_decay_check = trades, sharpe_decay_sigmas = sigmas,
           min_sharpe_decay = decay, max_losing_win_rate = win, journal_gap_grace_minutes = grace\<rparr>)))))))))"

text \<open>\<open>validated_sharpe\<close> is whatever the evidence row holds under its key.\<close>

record live_metrics =
  lm_trades :: int
  lm_sharpe :: "pyfloat option"
  lm_sharpe_annualised :: "pyfloat option"
  lm_sharpe_annualised_std_error :: "pyfloat option"
  lm_trades_per_year :: "pyfloat option"
  lm_span_days :: "pyfloat option"
  lm_max_drawdown_pct :: "pyfloat option"
  lm_max_drawdown_amount :: "pyfloat option"
  lm_validated_sharpe :: json
  lm_realized_total :: "pyfloat option"
  lm_win_rate :: "pyfloat option"

definition no_metrics :: live_metrics where
  "no_metrics = \<lparr>lm_trades = 0, lm_sharpe = None, lm_sharpe_annualised = None,
     lm_sharpe_annualised_std_error = None, lm_trades_per_year = None, lm_span_days = None,
     lm_max_drawdown_pct = None, lm_max_drawdown_amount = None, lm_validated_sharpe = JNull,
     lm_realized_total = None, lm_win_rate = None\<rparr>"

record health_check =
  hc_healthy :: bool
  hc_demote_to :: "string option"
  hc_reasons :: "msg list"
  hc_warnings :: "msg list"

text \<open>A JSON value as an operand of subtraction.\<close>

fun py_operand :: "json \<Rightarrow> exn + pyfloat" where
  "py_operand (JBool b) = Inr (Fin (if b then 1 else 0))"
| "py_operand (JInt n) = Inr (Fin (of_int n))"
| "py_operand (JFloat x) = Inr x"
| "py_operand _ = Inl (TypeError ''unsupported operand type(s) for -'')"

definition drawdown_trigger :: "live_metrics \<Rightarrow> health_thresholds \<Rightarrow> msg list \<times> msg list" where
  "drawdown_trigger m t =
     (case (lm_max_drawdown_pct m, lm_max_drawdown_amount m, max_live_drawdown_amount t) of
        (Some drawdown, _, _) \<Rightarrow>
          (if f_gt drawdown (max_live_drawdown_pct t)
           then [[S ''live drawdown '', F ''.1%'' drawdown, S '' of the declared capital base exceeds the '',
                  F ''.1%'' (max_live_drawdown_pct t), S '' limit'']] else [], [])
      | (None, Some amount, Some limit) \<Rightarrow>
          (if f_gt amount limit
           then [[S ''live drawdown '', F '',.2f'' amount, S '' exceeds the '', F '',.2f'' limit, S '' limit'']]
           else [], [])
      | (None, Some amount, None) \<Rightarrow>
          ([], [[S ''drawdown not checked: set LIFECYCLE_CAPITAL_BASE_USD for a percentage limit, or LIFECYCLE_MAX_LIVE_DRAWDOWN_USD for an absolute one'']])
      | (None, None, _) \<Rightarrow> ([], []))"

definition decay_trigger :: "live_metrics \<Rightarrow> health_thresholds \<Rightarrow> exn + msg list" where
  "decay_trigger m t =
     (if lm_trades m < min_live_trades_before_decay_check t then Inr []
      else
        (case (lm_sharpe_annualised m, lm_validated_sharpe m) of
           (None, _) \<Rightarrow> Inr []
         | (Some live, JNull) \<Rightarrow> Inr []
         | (Some live, expected0) \<Rightarrow>
             bindE (py_operand expected0) (\<lambda>expected.
             (let gap = f_sub expected live;
                  band = (case lm_sharpe_annualised_std_error m of
                            None \<Rightarrow> min_sharpe_decay t
                          | Some error \<Rightarrow> f_max (min_sharpe_decay t) (f_mul (sharpe_decay_sigmas t) error))
              in Inr (if f_gt gap band
                      then [[S ''live Sharpe '', F ''.2f'' live, S '' annualised is '', F ''.2f'' gap,
                             S '' below the validated '', F ''.2f'' expected, S '' over '', I (lm_trades m),
                             S '' trades (demotion band '', F ''.2f'' band, S '')'']]
                      else [])))))"

definition losing_trigger :: "live_metrics \<Rightarrow> health_thresholds \<Rightarrow> msg list" where
  "losing_trigger m t =
     (case (lm_realized_total m, lm_win_rate m) of
        (Some ttl, Some win) \<Rightarrow>
          if min_live_trades_before_decay_check t \<le> lm_trades m \<and> f_lt ttl (Fin 0) \<and>
             f_le win (max_losing_win_rate t)
          then [[S ''losing outright: '', F ''+.2f'' ttl, S '' over '', I (lm_trades m),
                 S '' trades at a '', F ''.0%'' win, S '' win rate'']]
          else []
      | _ \<Rightarrow> [])"

definition evaluate_health :: "string \<Rightarrow> live_metrics \<Rightarrow> health_thresholds \<Rightarrow> exn + health_check" where
  "evaluate_health st m t =
     (if st \<noteq> ''live'' then Inr \<lparr>hc_healthy = True, hc_demote_to = None, hc_reasons = [], hc_warnings = []\<rparr>
      else
        (case drawdown_trigger m t of (r1, warnings) \<Rightarrow>
         bindE (decay_trigger m t) (\<lambda>r2.
         (let reasons = r1 @ r2 @ losing_trigger m t in
          Inr (if reasons = []
               then \<lparr>hc_healthy = True, hc_demote_to = None, hc_reasons = [], hc_warnings = warnings\<rparr>
               else \<lparr>hc_healthy = False, hc_demote_to = Some ''probation'', hc_reasons = reasons,
                     hc_warnings = warnings\<rparr>)))))"

subsection \<open>The sweep\<close>

record sweep_result =
  sw_checked :: int
  sw_demoted :: "msg list"
  sw_journal_gaps :: "string list"
  sw_entries_blocked :: bool
  sw_errors :: "msg list"
  sw_warnings :: "msg list"

definition empty_sweep :: sweep_result where
  "empty_sweep = \<lparr>sw_checked = 0, sw_demoted = [], sw_journal_gaps = [], sw_entries_blocked = False,
     sw_errors = [], sw_warnings = []\<rparr>"

abbreviation add_error :: "msg \<Rightarrow> sweep_result \<Rightarrow> sweep_result" where
  "add_error m r \<equiv> r\<lparr>sw_errors := sw_errors r @ [m]\<rparr>"

fun scan_transitions :: "transition_row list \<Rightarrow> world \<Rightarrow> (exn + json) \<times> world" where
  "scan_transitions [] w = (Inr JNull, w)"
| "scan_transitions (t # ts) w =
     (case tr_evidence_snapshot_id t of
        None \<Rightarrow> scan_transitions ts w
      | Some i \<Rightarrow>
          if tr_to_state t \<noteq> ''live'' \<or> i = 0 then scan_transitions ts w
          else
            (case store_read (store_evidence i) w of
               (Inl e, w') \<Rightarrow> (Inl e, w')
             | (Inr None, w') \<Rightarrow> scan_transitions ts w'
             | (Inr (Some snapshot), w') \<Rightarrow> (Inr (jget (ev_metrics snapshot) ''out_of_sample_sharpe''), w')))"

definition validated_sharpe :: "sleeve \<Rightarrow> world \<Rightarrow> (exn + json) \<times> world" where
  "validated_sharpe s w =
     (case store_read (store_transitions (sl_id s) 20) w of
        (Inl e, w1) \<Rightarrow> (Inr JNull, w1)
      | (Inr ts, w1) \<Rightarrow> scan_transitions ts w1)"

definition metrics_of :: "performance \<Rightarrow> json \<Rightarrow> live_metrics" where
  "metrics_of p v = \<lparr>lm_trades = int (pf_trades p), lm_sharpe = map_option Fin (pf_sharpe p),
     lm_sharpe_annualised = map_option Fin (pf_sharpe_annualised p),
     lm_sharpe_annualised_std_error = map_option Fin (pf_sharpe_annualised_std_error p),
     lm_trades_per_year = map_option Fin (pf_trades_per_year p), lm_span_days = map_option Fin (pf_span_days p),
     lm_max_drawdown_pct = map_option Fin (pf_max_drawdown_pct p),
     lm_max_drawdown_amount = map_option Fin (pf_max_drawdown_amount p), lm_validated_sharpe = v,
     lm_realized_total = Some (Fin (pf_realized_total p)), lm_win_rate = map_option Fin (pf_win_rate p)\<rparr>"

definition live_metrics_of ::
  "(rat \<Rightarrow> rat) \<Rightarrow> exn + round_trip list \<Rightarrow> pyfloat option \<Rightarrow> sleeve \<Rightarrow> world \<Rightarrow> (exn + live_metrics) \<times> world" where
  "live_metrics_of half_pow trips base s w =
     (case trips of
        Inl e \<Rightarrow> (Inr no_metrics, w)
      | Inr ts \<Rightarrow>
          (case validated_sharpe s w of
             (Inl e, w1) \<Rightarrow> (Inl e, w1)
           | (Inr v, w1) \<Rightarrow> (Inr (metrics_of (performance_from_trades half_pow ts base) v), w1)))"

definition environment_of :: "sleeve \<Rightarrow> string" where
  "environment_of s = (if sl_position_environment s = [] then ''paper'' else sl_position_environment s)"

definition record_gap ::
  "store_settings \<Rightarrow> instant \<Rightarrow> sleeve \<Rightarrow> completeness_report \<Rightarrow> instant \<Rightarrow> instant \<Rightarrow> health_thresholds
     \<Rightarrow> sweep_result \<Rightarrow> world \<Rightarrow> sweep_result \<times> world" where
  "record_gap cfg clock s c window_start moment t r w =
     (case store_call (\<lambda>d. Inr (record_journal_health (key_of s) window_start moment
               (cp_expected_observations c) (cp_actual_observations c) (int (length (cp_gaps c)))
               (sl_strategy_id s) (sl_symbol s) (environment_of s) None d)) w of
        (Inl e, w1) \<Rightarrow> (add_error ([S (key_of s), S '': journal health not recorded: ''] @ exn_text e) r, w1)
      | (Inr _, w1) \<Rightarrow>
          (case cp_last_gap_at c of
             None \<Rightarrow> (r, w1)
           | Some gap_at \<Rightarrow>
               (let age = minutes_between gap_at moment in
                if f_lt (Fin age) (journal_gap_grace_minutes t) then (r, w1)
                else
                  (case store_call (\<lambda>d. Inr (halt_entries cfg clock (environment_of s) (environment_of s)
                            [S ''journal gap for '', S (key_of s), S '' unresolved for '', F ''.0f'' (Fin age),
                             S '' minutes (grace '', F ''.0f'' (journal_gap_grace_minutes t), S '')''] None d)) w1 of
                     (Inl e, w2) \<Rightarrow>
                       (add_error ([S (key_of s), S '': could not halt on journal gap: ''] @ exn_text e) r, w2)
                   | (Inr h, w2) \<Rightarrow> (r\<lparr>sw_entries_blocked := h_halted h\<rparr>, w2)))))"

text \<open>One sleeve: completeness, metrics, triggers, demotion.\<close>

definition sweep_sleeve ::
  "lifecycle_service \<Rightarrow> store_settings \<Rightarrow> instant \<Rightarrow> (rat \<Rightarrow> rat) \<Rightarrow> (sleeve \<Rightarrow> completeness_answer)
     \<Rightarrow> (sleeve \<Rightarrow> exn + round_trip list) \<Rightarrow> health_thresholds \<Rightarrow> instant \<Rightarrow> instant \<Rightarrow> sleeve
     \<Rightarrow> sweep_result \<Rightarrow> world \<Rightarrow> (exn + sweep_result) \<times> world" where
  "sweep_sleeve sv cfg clock half_pow complete_of trips_of t window_start moment s r0 w =
     (let r1 = r0\<lparr>sw_checked := sw_checked r0 + 1\<rparr>;
          (r2, w1) = (case complete_of s of
              Unavailable m \<Rightarrow> (r1, w)
            | Completeness c \<Rightarrow>
                if cp_complete c then (r1, w)
                else record_gap cfg clock s c window_start moment t
                       (r1\<lparr>sw_journal_gaps := sw_journal_gaps r1 @ [key_of s]\<rparr>) w)
      in case live_metrics_of half_pow (trips_of s) (capital_base t) s w1 of
           (Inl e, w2) \<Rightarrow> (Inl e, w2)
         | (Inr m, w2) \<Rightarrow>
             (case evaluate_health (sl_state s) m t of
                Inl e \<Rightarrow> (Inl e, w2)
              | Inr hc \<Rightarrow>
                  (let r3 = r2\<lparr>sw_warnings := fold (\<lambda>x ws. if x \<in> set ws then ws else ws @ [x])
                              (hc_warnings hc) (sw_warnings r2)\<rparr>;
                       reason = msg_join ''; '' (hc_reasons hc)
                   in if hc_healthy hc then (Inr r3, w2)
                      else
                        (case demote sv clock (sl_strategy_id s) (sl_symbol s)
                                (case hc_demote_to hc of None \<Rightarrow> ''probation'' | Some x \<Rightarrow> x)
                                reason ''health-sweep'' None w2 of
                           (Inl e, w3) \<Rightarrow>
                             (Inr (add_error ([S (key_of s), S '': demotion failed: ''] @ exn_text e) r3), w3)
                         | (Inr _, w3) \<Rightarrow>
                             (Inr (r3\<lparr>sw_demoted := sw_demoted r3 @ [[S (key_of s), S '': ''] @ reason]\<rparr>), w3)))))"

fun sweep_loop ::
  "(sleeve \<Rightarrow> sweep_result \<Rightarrow> world \<Rightarrow> (exn + sweep_result) \<times> world) \<Rightarrow> sleeve list \<Rightarrow> sweep_result \<Rightarrow> world
     \<Rightarrow> (exn + sweep_result) \<times> world" where
  "sweep_loop body [] r w = (Inr r, w)"
| "sweep_loop body (s # ss) r w =
     (case body s r w of
        (Inl e, w') \<Rightarrow> (Inl e, w')
      | (Inr r', w') \<Rightarrow> sweep_loop body ss r' w')"

definition run_health_sweep ::
  "lifecycle_service \<Rightarrow> (rat \<Rightarrow> rat) \<Rightarrow> bool \<Rightarrow> exn + bar_observation list
     \<Rightarrow> (instant \<Rightarrow> instant \<Rightarrow> sleeve \<Rightarrow> exn + round_trip list)
     \<Rightarrow> health_thresholds \<Rightarrow> string \<Rightarrow> rat \<Rightarrow> int \<Rightarrow> instant \<Rightarrow> world \<Rightarrow> (exn + sweep_result) \<times> world" where
  "run_health_sweep sv half_pow journal_enabled bars trips t timeframe expected_interval_minutes window_hours moment w =
     (let window_start = moment - window_hours * 3600000000 in
      case sv_store sv of
        None \<Rightarrow> (Inr (add_error [S ''no lifecycle authority configured''] empty_sweep), w)
      | Some cfg \<Rightarrow>
          (case svc_all sv None w of
             (Inl e, w1) \<Rightarrow> (Inr (add_error ([S ''roster unreadable: ''] @ exn_text e) empty_sweep), w1)
           | (Inr ss, w1) \<Rightarrow>
               sweep_loop
                 (sweep_sleeve sv cfg moment half_pow
                    (\<lambda>s. completeness journal_enabled bars (sl_symbol s) timeframe window_start moment
                           expected_interval_minutes)
                    (trips window_start moment) t window_start moment)
                 (filter (\<lambda>s. sl_state s = ''live'') ss) empty_sweep w1))"

subsection \<open>When each trigger fires\<close>

lemma drawdown_trigger_fires:
  "drawdown_trigger m t = (r, ws) \<Longrightarrow>
     r \<noteq> [] \<longleftrightarrow> (\<exists>x. lm_max_drawdown_pct m = Some x \<and> f_gt x (max_live_drawdown_pct t)) \<or>
      (lm_max_drawdown_pct m = None \<and>
        (\<exists>a l. lm_max_drawdown_amount m = Some a \<and> max_live_drawdown_amount t = Some l \<and> f_gt a l))"
  by (auto simp: drawdown_trigger_def split: option.splits if_splits)

lemma decay_trigger_fires:
  "decay_trigger m t = Inr r \<Longrightarrow>
     r \<noteq> [] \<longleftrightarrow> min_live_trades_before_decay_check t \<le> lm_trades m \<and>
        (\<exists>live x. lm_sharpe_annualised m = Some live \<and> py_operand (lm_validated_sharpe m) = Inr x \<and>
           f_gt (f_sub x live) (case lm_sharpe_annualised_std_error m of None \<Rightarrow> min_sharpe_decay t
              | Some e \<Rightarrow> f_max (min_sharpe_decay t) (f_mul (sharpe_decay_sigmas t) e)))"
  by (cases "lm_validated_sharpe m"; cases "lm_sharpe_annualised m";
      auto simp: decay_trigger_def Let_def split: option.splits if_splits)

lemma losing_trigger_fires:
  "losing_trigger m t \<noteq> [] \<longleftrightarrow> min_live_trades_before_decay_check t \<le> lm_trades m \<and>
        (\<exists>p win. lm_realized_total m = Some p \<and> f_lt p (Fin 0) \<and>
           lm_win_rate m = Some win \<and> f_le win (max_losing_win_rate t))"
  by (auto simp: losing_trigger_def split: option.splits)

subsection \<open>The sweep keeps the world lawful\<close>

lemma step_call_ok:
  assumes w: "world_ok cfg K w" and c: "store_call m w = (res, w')"
    and m: "\<And>d K x d'. m d = Inr (x, d') \<Longrightarrow> roster_step cfg (d, K) (d', K)"
  shows "\<exists>K'. K \<subseteq> K' \<and> world_ok cfg K' w'"
  using w c
proof (cases rule: store_call_cases)
  case (outage e)
  then show ?thesis by blast
next
  case (call d K')
  show ?thesis
  proof (cases "m d")
    case (Inl e)
    with call show ?thesis by (intro exI [of _ K']) (simp add: world_ok_def)
  next
    case (Inr p)
    with m [of d "fst p" "snd p" K'] call reach_step [OF call(2), of "(snd p, K')"] show ?thesis
      by (intro exI [of _ K']) (simp add: world_ok_def)
  qed
qed

lemma store_call_value:
  "store_call m w = (Inr x, w') \<Longrightarrow> \<exists>d. m d = Inr (x, w_db w')"
  by (cases w; cases "w_sched w"; cases "hd (w_sched w)") (auto simp: store_call_def split: sum.splits)

lemma halt_entries_answer: "h_halted (fst (halt_entries cfg now b e why a d))"
  using halted_halt_entries [of "latch_key cfg a b e" cfg now b e why a d]
  by (simp add: halt_entries_def Let_def h_halted_state)

lemma health_commits:
  assumes "Inr (record_journal_health k ws we ex ac g st sy en lg d) = (Inr (x, d') :: exn + _)"
  shows "roster_step cfg (d, K) (d', K)"
proof -
  from assms have "d' = snd (record_journal_health k ws we ex ac g st sy en lg d)" by auto
  then show ?thesis by (simp add: roster_step.health)
qed

lemma halt_commits:
  assumes "Inr (halt_entries cfg now b e why a d) = (Inr (x, d') :: exn + _)"
  shows "roster_step cfg (d, K) (d', K)"
proof -
  from assms have "d' = snd (halt_entries cfg now b e why a d)" by auto
  then show ?thesis by (simp add: roster_step.halt)
qed

lemma read_ok: "world_ok cfg K w \<Longrightarrow> store_read f w = (res, w') \<Longrightarrow> \<exists>K'. K \<subseteq> K' \<and> world_ok cfg K' w'"
  by (cases rule: store_read_cases) auto

lemma record_gap_ok:
  assumes "world_ok cfg K w" and "record_gap cfg clock s c ws moment t r w = (r', w')"
  shows "(\<exists>K'. K \<subseteq> K' \<and> world_ok cfg K' w') \<and> sw_demoted r' = sw_demoted r"
proof -
  let ?m1 = "\<lambda>d. Inr (record_journal_health (key_of s) ws moment (cp_expected_observations c)
      (cp_actual_observations c) (int (length (cp_gaps c))) (sl_strategy_id s) (sl_symbol s) (environment_of s) None d)"
  let ?m2 = "\<lambda>g d. Inr (halt_entries cfg clock (environment_of s) (environment_of s)
      [S ''journal gap for '', S (key_of s), S '' unresolved for '', F ''.0f'' (Fin (minutes_between g moment)),
       S '' minutes (grace '', F ''.0f'' (journal_gap_grace_minutes t), S '')''] None d)"
  obtain res1 w1 where c1: "store_call ?m1 w = (res1, w1)" by fastforce
  have "\<exists>K'. K \<subseteq> K' \<and> world_ok cfg K' w1"
    by (rule step_call_ok [OF assms(1) c1]) (erule health_commits)
  then obtain K1 where K1: "K \<subseteq> K1" "world_ok cfg K1 w1" by blast
  have halt: "\<exists>K'. K1 \<subseteq> K' \<and> world_ok cfg K' w2" if "store_call (?m2 g) w1 = (res2, w2)" for g res2 w2
    by (rule step_call_ok [OF K1(2) that]) (erule halt_commits)
  have "w' = w1 \<or> (\<exists>g res2. store_call (?m2 g) w1 = (res2, w'))" and dem: "sw_demoted r' = sw_demoted r"
    using assms(2) c1 by (auto simp: record_gap_def Let_def split: sum.splits option.splits if_splits prod.splits)
  then obtain K' where "K1 \<subseteq> K'" "world_ok cfg K' w'" using halt K1(2) by blast
  with K1(1) dem show ?thesis by (meson order_trans)
qed

lemma scan_ok:
  "scan_transitions ts w = (res, w') \<Longrightarrow> world_ok cfg K w \<Longrightarrow> \<exists>K'. K \<subseteq> K' \<and> world_ok cfg K' w'"
proof (induction ts w arbitrary: K rule: scan_transitions.induct)
  case (1 w)
  then show ?case by auto
next
  case (2 t ts w)
  show ?case
  proof (cases "\<exists>i. tr_evidence_snapshot_id t = Some i \<and> tr_to_state t = ''live'' \<and> i \<noteq> 0")
    case False
    with "2.prems"(1) have skip: "scan_transitions ts w = (res, w')" by (auto split: option.splits if_splits)
    show ?thesis
    proof (cases "tr_evidence_snapshot_id t")
      case None
      from "2.IH"(1) [OF None skip "2.prems"(2)] show ?thesis .
    next
      case (Some i)
      with False have "tr_to_state t \<noteq> ''live'' \<or> i = 0" by blast
      from "2.IH"(2) [OF Some this skip "2.prems"(2)] show ?thesis .
    qed
  next
    case True
    then obtain i where i: "tr_evidence_snapshot_id t = Some i" "tr_to_state t = ''live''" "i \<noteq> 0" by blast
    obtain res1 w1 where c: "store_read (store_evidence i) w = (res1, w1)" by fastforce
    with read_ok [OF "2.prems"(2)] obtain K1 where K1: "K \<subseteq> K1" "world_ok cfg K1 w1" by blast
    show ?thesis
    proof (cases "res1 = Inr None")
      case True
      with "2.prems"(1) i c have "scan_transitions ts w1 = (res, w')" by simp
      from "2.IH"(3) [OF i(1) _ c [symmetric] True refl this K1(2)] i(2,3)
      obtain K' where "K1 \<subseteq> K'" "world_ok cfg K' w'" by blast
      with K1(1) show ?thesis by (meson order_trans)
    next
      case False
      with "2.prems"(1) i c have "w' = w1" by (auto split: sum.splits option.splits)
      with K1 show ?thesis by blast
    qed
  qed
qed

lemma live_metrics_ok:
  assumes "live_metrics_of hp trips base s w = (res, w')" and "world_ok cfg K w"
  shows "\<exists>K'. K \<subseteq> K' \<and> world_ok cfg K' w'"
proof (cases trips)
  case (Inl e)
  with assms show ?thesis by (auto simp: live_metrics_of_def)
next
  case (Inr ts)
  obtain v w1 where v: "validated_sharpe s w = (v, w1)" by fastforce
  with assms(1) Inr have w': "w' = w1" by (auto simp: live_metrics_of_def split: sum.splits)
  obtain r w2 where r: "store_read (store_transitions (sl_id s) 20) w = (r, w2)" by fastforce
  with read_ok [OF assms(2)] obtain K2 where K2: "K \<subseteq> K2" "world_ok cfg K2 w2" by blast
  show ?thesis
  proof (cases r)
    case (Inl e)
    with v r K2 w' show ?thesis by (auto simp: validated_sharpe_def)
  next
    case (Inr l)
    with v r have "scan_transitions l w2 = (v, w1)" by (simp add: validated_sharpe_def)
    from scan_ok [OF this K2(2)] K2(1) w' show ?thesis by (meson order_trans)
  qed
qed

text \<open>A live sleeve for the witnesses: the human sleeve of \<open>demo_db3\<close>, moved up.\<close>

definition demo_live :: sleeve_row where
  "demo_live = step_to 9 ''live'' [S ''manual''] demo_human"

definition demo_db_live :: db where
  "demo_db_live = moved demo_human (step_to 9 ''live'' [S ''manual''])
     (entry 9 1 2 ''candidate'' ''live'' [S ''manual''] ''operator'' None) demo_db3"

lemma demo_rows3 [simp]: "sleeves demo_db3 = [demo_human]"
  by (simp add: demo_db3_def inserted_def empty_db_def)

lemma demo_human_sel [simp]: "sl_id demo_human = 1" "sl_version demo_human = 1" "sl_state demo_human = ''candidate''"
  "sl_origin demo_human = ''human''"
  by (simp_all add: demo_human_def)

lemma demo_rows_live [simp]: "sleeves demo_db_live = [demo_live]"
  by (simp add: demo_db_live_def moved_def update_where_def demo_live_def)

lemma demo_reachable_live:
  "reachable default_settings demo_db_live {row_to_sleeve demo_live, row_to_sleeve demo_human}"
proof -
  have t: "store_transition 9 (row_to_sleeve demo_human) ''live'' [S ''manual''] ''operator'' None None demo_db3
      = Inr (row_to_sleeve demo_live, demo_db_live)"
    by (subst store_transition_current [OF reachable_inv(1) [OF demo_reachable3]])
      (simp_all add: STATES_def demo_live_def demo_db_live_def)
  show ?thesis by (rule reach_step [OF demo_reachable3]) (rule roster_step.transition [OF _ t], simp)
qed

lemma demo_get_live:
  "store_get default_settings ''sma'' ''AAPL'' None demo_db_live = Some (row_to_sleeve demo_live)"
  by (simp add: store_get_def select_identity_def identity_def demo_live_def step_to_def
      demo_human_def born_def default_settings_def demo_upper)

text \<open>Two losing trades, and a threshold that counts two trades as enough.\<close>

definition demo_thresholds :: health_thresholds where
  "demo_thresholds = default_health\<lparr>min_live_trades_before_decay_check := 2\<rparr>"

definition demo_metrics :: live_metrics where
  "demo_metrics = metrics_of (performance_from_trades (\<lambda>x. x) [demo_trip 2 1, demo_trip 2 3] None) JNull"

lemma demo_loss: "realized_series [demo_trip 2 1, demo_trip 2 3] = [-3, -3]"
  by (simp add: realized_series_def List.map_filter_simps demo_trip_def realized_def realized_per_share_def
      leg_usable_def trip_direction_def leg_of_def demo_fill_def demo_sides num_or_def)

lemma demo_rounds: "py_round 4 (-6) = -6" "py_round 4 0 = 0"
  by code_simp+

lemma demo_performance:
  "lm_trades demo_metrics = 2" "lm_realized_total demo_metrics = Some (Fin (-6))"
  "lm_win_rate demo_metrics = Some (Fin 0)" "lm_sharpe_annualised demo_metrics = None"
  by (simp_all add: demo_metrics_def metrics_of_def performance_from_trades_def demo_loss Let_def demo_rounds
      annualised_def)

lemma demo_unhealthy:
  "\<exists>hc. evaluate_health ''live'' demo_metrics demo_thresholds = Inr hc \<and> \<not> hc_healthy hc \<and> hc_demote_to hc = Some ''probation''"
proof -
  obtain r ws where d: "drawdown_trigger demo_metrics demo_thresholds = (r, ws)" by fastforce
  then show ?thesis
    by (simp add: evaluate_health_def decay_trigger_def losing_trigger_def demo_performance Let_def
        demo_thresholds_def default_health_def f_le_def)
qed

subsection \<open>Properties\<close>

text \<open>
  the demotion triggers, exactly. For a live sleeve the check is unhealthy if and only if the
  drawdown breaches its limit (as a fraction when a capital base is declared, otherwise in currency),
  or over enough trades the annualised Sharpe is below the validated one by more than the band, or
  over enough trades the sleeve loses money at a low win rate. Any one suffices, the verdict is always
  probation, and a sleeve that is not live is never touched.
\<close>

theorem demotion_triggers_exact:
  assumes "evaluate_health st m t = Inr hc"
  shows "(\<not> hc_healthy hc \<longleftrightarrow> st = ''live'' \<and>
     ((\<exists>x. lm_max_drawdown_pct m = Some x \<and> f_gt x (max_live_drawdown_pct t)) \<or>
      (lm_max_drawdown_pct m = None \<and>
        (\<exists>a l. lm_max_drawdown_amount m = Some a \<and> max_live_drawdown_amount t = Some l \<and> f_gt a l)) \<or>
      (min_live_trades_before_decay_check t \<le> lm_trades m \<and>
        (\<exists>live x. lm_sharpe_annualised m = Some live \<and> py_operand (lm_validated_sharpe m) = Inr x \<and>
           f_gt (f_sub x live) (case lm_sharpe_annualised_std_error m of None \<Rightarrow> min_sharpe_decay t
              | Some e \<Rightarrow> f_max (min_sharpe_decay t) (f_mul (sharpe_decay_sigmas t) e)))) \<or>
      (min_live_trades_before_decay_check t \<le> lm_trades m \<and>
        (\<exists>p win. lm_realized_total m = Some p \<and> f_lt p (Fin 0) \<and>
           lm_win_rate m = Some win \<and> f_le win (max_losing_win_rate t)))))
    \<and> hc_demote_to hc = (if hc_healthy hc then None else Some ''probation'')"
proof (cases "st = ''live''")
  case False
  with assms show ?thesis by (auto simp: evaluate_health_def)
next
  case True
  obtain r1 ws where d: "drawdown_trigger m t = (r1, ws)" by fastforce
  from assms True d obtain r2 where r2: "decay_trigger m t = Inr r2"
    and hc: "hc = (if r1 @ r2 @ losing_trigger m t = []
       then \<lparr>hc_healthy = True, hc_demote_to = None, hc_reasons = [], hc_warnings = ws\<rparr>
       else \<lparr>hc_healthy = False, hc_demote_to = Some ''probation'',
             hc_reasons = r1 @ r2 @ losing_trigger m t, hc_warnings = ws\<rparr>)"
    by (auto simp: evaluate_health_def bindE_Inr_iff Let_def)
  show ?thesis
    unfolding hc
    using drawdown_trigger_fires [OF d] decay_trigger_fires [OF r2] losing_trigger_fires [of m t] True
    by auto
qed

definition demo_losing :: live_metrics where
  "demo_losing = no_metrics\<lparr>lm_trades := 25, lm_realized_total := Some (Fin (-40)), lm_win_rate := Some (Fin (1/10))\<rparr>"

theorem demotion_triggers_exact_witness:
  "\<exists>hc. evaluate_health ''live'' demo_losing default_health = Inr hc \<and> \<not> hc_healthy hc \<and>
     hc_demote_to hc = Some ''probation''"
proof -
  obtain hc where "evaluate_health ''live'' demo_losing default_health = Inr hc"
    by (simp add: evaluate_health_def drawdown_trigger_def decay_trigger_def demo_losing_def no_metrics_def Let_def)
  with demotion_triggers_exact [OF this] show ?thesis
    by (simp add: demo_losing_def no_metrics_def default_health_def f_le_def)
qed

text \<open>
  what the sweep reports as demoted is demoted. If the check of one sleeve adds to the demotions,
  then, whatever other processes committed meanwhile, the sleeve of that strategy and symbol stands in
  probation when the check ends.
\<close>

theorem sweep_demotion_lands:
  assumes "world_ok cfg K w" and "sv_store sv = Some cfg"
    and "sweep_sleeve sv cfg clock hp complete_of trips_of t ws moment s r w = (Inr r', w')"
    and "sw_demoted r' \<noteq> sw_demoted r"
  shows "\<exists>row \<in> set (sleeves (w_db w')). sl_state row = ''probation'' \<and>
    identity row = (sl_strategy_id s, upper (sl_symbol s), cfg_account_id cfg)"
proof -
  let ?r1 = "r\<lparr>sw_checked := sw_checked r + 1\<rparr>"
  let ?gap = "case complete_of s of Unavailable m \<Rightarrow> (?r1, w)
     | Completeness c \<Rightarrow> if cp_complete c then (?r1, w)
         else record_gap cfg clock s c ws moment t (?r1\<lparr>sw_journal_gaps := sw_journal_gaps ?r1 @ [key_of s]\<rparr>) w"
  obtain r2 w1 where gap: "?gap = (r2, w1)" by fastforce
  have K1: "(\<exists>K'. world_ok cfg K' w1) \<and> sw_demoted r2 = sw_demoted r"
    using gap assms(1) record_gap_ok [OF assms(1)]
    by (auto split: completeness_answer.splits if_splits) fastforce+
  obtain m w2 where m: "live_metrics_of hp (trips_of s) (capital_base t) s w1 = (m, w2)" by fastforce
  with K1 live_metrics_ok obtain K2 where K2: "world_ok cfg K2 w2" by blast
  from assms(3) gap m obtain mm where mm: "m = Inr mm"
    by (cases m) (simp_all add: sweep_sleeve_def Let_def)
  from assms(3) gap m mm obtain hc where hc: "evaluate_health (sl_state s) mm t = Inr hc"
    by (cases "evaluate_health (sl_state s) mm t") (simp_all add: sweep_sleeve_def Let_def)
  have sick: "\<not> hc_healthy hc"
    using assms(3,4) gap m mm hc K1 by (auto simp: sweep_sleeve_def Let_def)
  then have "hc_demote_to hc = Some ''probation''"
    using hc by (auto simp: evaluate_health_def bindE_Inr_iff Let_def split: if_splits prod.splits)
  with assms(3,4) gap m mm hc K1 sick obtain x
    where "demote sv clock (sl_strategy_id s) (sl_symbol s) ''probation'' (msg_join ''; '' (hc_reasons hc))
      ''health-sweep'' None w2 = (Inr x, w')"
    by (auto simp: sweep_sleeve_def Let_def split: prod.splits sum.splits)
  from demote_landed [OF K2 assms(2) this] show ?thesis by (auto simp: or_default_def)
qed

theorem sweep_demotion_lands_witness:
  "\<exists>r' w'. sweep_sleeve demo_service default_settings 20 (\<lambda>x. x) (\<lambda>_. Unavailable [])
      (\<lambda>_. Inr [demo_trip 2 1, demo_trip 2 3]) demo_thresholds 10 20 (row_to_sleeve demo_live) empty_sweep
      (quiet demo_db_live) = (Inr r', w') \<and> (\<exists>row \<in> set (sleeves (w_db w')). sl_state row = ''probation'')"
proof -
  let ?s = "row_to_sleeve demo_live" and ?w = "quiet demo_db_live"
  have sv: "sv_store demo_service = Some default_settings" by (simp add: demo_service_def)
  have sel: "sl_state demo_live = ''live''" "sl_strategy_id demo_live = ''sma''" "sl_symbol demo_live = ''AAPL''"
    "sl_id demo_live = 1"
    by (simp_all add: demo_live_def step_to_def demo_human_def born_def)
  have val: "validated_sharpe ?s ?w = (Inr JNull, ?w)"
    by (simp add: validated_sharpe_def store_transitions_def demo_db_live_def moved_def demo_db3_def inserted_def
        empty_db_def sel)
  have lm: "live_metrics_of (\<lambda>x. x) (Inr [demo_trip 2 1, demo_trip 2 3]) (capital_base demo_thresholds) ?s ?w
      = (Inr demo_metrics, ?w)"
    by (simp add: live_metrics_of_def val demo_metrics_def demo_thresholds_def default_health_def)
  obtain hc where hc: "evaluate_health ''live'' demo_metrics demo_thresholds = Inr hc" "\<not> hc_healthy hc"
    "hc_demote_to hc = Some ''probation''"
    using demo_unhealthy by blast
  obtain row where "row \<in> set (sleeves demo_db_live)" and dem:
    "demote demo_service 20 ''sma'' ''AAPL'' ''probation'' (msg_join ''; '' (hc_reasons hc)) ''health-sweep'' None ?w
      = (Inr (row_to_sleeve (step_to 20 ''probation'' (msg_join ''; '' (hc_reasons hc)) row)),
         quiet (moved row (step_to 20 ''probation'' (msg_join ''; '' (hc_reasons hc)))
           (entry 20 (sl_id row) (sl_version row + 1) (sl_state row) ''probation''
              (msg_join ''; '' (hc_reasons hc)) ''health-sweep'' None) demo_db_live))"
    using demote_quiet [OF demo_reachable_live sv demo_get_live, of "''probation''" 20 "msg_join ''; '' (hc_reasons hc)"
        "''health-sweep''"] by (auto simp: STATES_def)
  obtain r' w' where sw: "sweep_sleeve demo_service default_settings 20 (\<lambda>x. x) (\<lambda>_. Unavailable [])
      (\<lambda>_. Inr [demo_trip 2 1, demo_trip 2 3]) demo_thresholds 10 20 ?s empty_sweep ?w = (Inr r', w')"
    "sw_demoted r' \<noteq> sw_demoted empty_sweep"
    using hc dem by (simp add: sweep_sleeve_def lm sel Let_def)
  have "world_ok default_settings {?s, row_to_sleeve demo_human} ?w" by (simp add: world_ok_def demo_reachable_live)
  from sweep_demotion_lands [OF this sv sw] sw(1) show ?thesis by auto
qed

text \<open>
  a journal gap past its grace stops entries. When the last gap is at least as old as the grace
  period and both writes are answered, the latch of the sleeve's environment is closed in the database
  that the call leaves behind, and the sweep reports the block.
\<close>

theorem old_gap_halts:
  assumes "record_gap cfg clock s c ws moment t r w = (r', w')" and "sw_errors r' = sw_errors r"
    and "cp_last_gap_at c = Some g" and "\<not> f_lt (Fin (minutes_between g moment)) (journal_gap_grace_minutes t)"
  shows "halted_at (cfg_account_id cfg, environment_of s, environment_of s) (w_db w') \<and> sw_entries_blocked r'"
proof -
  let ?m1 = "\<lambda>d. Inr (record_journal_health (key_of s) ws moment (cp_expected_observations c)
      (cp_actual_observations c) (int (length (cp_gaps c))) (sl_strategy_id s) (sl_symbol s) (environment_of s) None d)"
  let ?why = "[S ''journal gap for '', S (key_of s), S '' unresolved for '', F ''.0f'' (Fin (minutes_between g moment)),
       S '' minutes (grace '', F ''.0f'' (journal_gap_grace_minutes t), S '')'']"
  let ?m2 = "\<lambda>d. Inr (halt_entries cfg clock (environment_of s) (environment_of s) ?why None d)"
  obtain res1 w1 where c1: "store_call ?m1 w = (res1, w1)" by fastforce
  obtain res2 w2 where c2: "store_call ?m2 w1 = (res2, w2)" by fastforce
  from assms c1 c2 obtain h where h: "res2 = Inr h" "w' = w2" "r' = r\<lparr>sw_entries_blocked := h_halted h\<rparr>"
    by (cases res1; cases res2) (auto simp: record_gap_def Let_def)
  from store_call_value [OF c2 [unfolded h(1)]] obtain d where
    "halt_entries cfg clock (environment_of s) (environment_of s) ?why None d = (h, w_db w2)" by auto
  with halted_halt_entries [of "(cfg_account_id cfg, environment_of s, environment_of s)" cfg clock
      "environment_of s" "environment_of s" ?why None d]
    halt_entries_answer [of cfg clock "environment_of s" "environment_of s" ?why None d]
  show ?thesis by (simp add: h or_default_def)
qed

theorem old_gap_halts_witness:
  "\<exists>r' w'. record_gap default_settings 9 (row_to_sleeve demo_live)
      \<lparr>cp_expected_observations = 96, cp_actual_observations = 90, cp_gaps = [], cp_stale_minutes = None,
       cp_stale = False, cp_complete = False, cp_last_gap_at = Some 0\<rparr> 0 3600000000 default_health empty_sweep
      (quiet demo_db_live) = (r', w') \<and> sw_entries_blocked r'"
proof -
  let ?c = "\<lparr>cp_expected_observations = 96, cp_actual_observations = 90, cp_gaps = [], cp_stale_minutes = None,
       cp_stale = False, cp_complete = False, cp_last_gap_at = Some 0\<rparr>"
  obtain r' w' where r: "record_gap default_settings 9 (row_to_sleeve demo_live) ?c 0 3600000000 default_health empty_sweep
      (quiet demo_db_live) = (r', w')" by fastforce
  then have "sw_errors r' = sw_errors empty_sweep"
    by (auto simp: record_gap_def Let_def case_prod_unfold split: if_splits)
  from old_gap_halts [OF r this, of 0] r show ?thesis
    by (simp add: minutes_between_def total_seconds_def default_health_def)
qed

text \<open>
  a live sleeve has no validated Sharpe ratio to decay from. The evidence row cited by a promotion to
  live, which is the row the decay check reads, holds no \<open>out_of_sample_sharpe\<close>.
\<close>

theorem live_evidence_lacks_validated_sharpe:
  assumes "world_ok cfg K w" and "sv_store sv = Some cfg"
    and "promote sv digest journal now st sy is c pw actor a w = (Inr (Some s', g), w')" and "allowed g"
    and "sl_state s' = ''live''"
  shows "\<exists>ts t i e. transitions_table (w_db w') = ts @ [t] \<and> tr_to_state t = ''live'' \<and>
    tr_evidence_snapshot_id t = Some i \<and> store_evidence i (w_db w') = Some e \<and>
    jget (ev_metrics e) ''out_of_sample_sharpe'' = JNull"
proof -
  obtain s w1 tgt e0 w2 scope i w3 where
    c1: "store_read (store_get cfg st sy a) w = (Inr (Some s), w1)" and
    nx: "NEXT_STATE (sl_state s) = Some tgt" and
    c2: "store_call (\<lambda>d. map_sum id (\<lambda>x. (x, d)) (assess (sv_thresholds sv) journal now is c pw s d)) w1 = (Inr (e0, g), w2)" and
    c3: "store_call (record_evidence digest now scope (de_metrics e0) (de_source_artifacts e0)) w2 = (Inr i, w3)" and
    c4: "store_call (store_transition now s (case target g of None \<Rightarrow> tgt | Some t \<Rightarrow> t)
           ([S ''promoted: ''] @ gate_reason g) actor (Some i) None) w3 = (Inr s', w')"
    by (rule promote_calls [OF assms(2-4)])
  obtain K1 where K1: "world_ok cfg K1 w1" "store_get cfg st sy a (w_db w1) = Some s"
    using store_read_Inr [OF assms(1) c1] by auto
  obtain K2 d2 where K2: "insert s K1 \<subseteq> K2" "world_ok cfg K2 w2"
    and as: "assess (sv_thresholds sv) journal now is c pw s d2 = Inr (e0, g)"
    by (rule assess_call [OF get_snapshot [OF K1] c2])
  obtain K3 e where e: "K2 \<subseteq> K3" "world_ok cfg K3 w3" "e \<in> set (evidence_table (w_db w3))" "ev_id e = i"
    "ev_metrics e = de_metrics e0"
    using evidence_call [OF K2(2) c3] by blast
  have sK: "s \<in> K3" using K2(1) e(1) by auto
  from e(2) sK c4 show ?thesis
  proof (cases rule: transition_call)
    case (1 d K' r)
    have "tgt = ''live''" using 1(6) assms(5) assess_allowed(1) [OF as assms(4) nx] by (simp add: step_to_def)
    with nx as have "jget (de_metrics e0) ''out_of_sample_sharpe'' = JNull"
      by (auto simp: NEXT_STATE_def assess_def bindE_Inr_iff dest: paper_metrics_keys split: if_splits)
    moreover have "store_evidence i (w_db w') = Some e"
      using store_evidence_unique [OF reachable_inv(3) [OF 1(2)], of e] 1(3) e(3,4)
      by (auto simp: 1(8) moved_def store_evidence_def)
    ultimately show ?thesis
      using \<open>tgt = ''live''\<close> assess_allowed(1) [OF as assms(4) nx] e(5) by (auto simp: 1(8) moved_def)
  qed
qed

text \<open>A paper sleeve with a stored correlation run and a good paper record.\<close>

definition demo_correlation :: artifact_row where
  "demo_correlation = demo_artifact\<lparr>ar_kind := ''portfolio_correlation'',
     ar_payload := Some [(''max_correlation_with_live'', JFloat (Fin (2/10)))]\<rparr>"

definition demo_db_paper :: db where
  "demo_db_paper = (moved demo_human (step_to 9 ''paper'' []) (entry 9 1 2 ''candidate'' ''paper'' [] ''operator'' None) demo_db3)
     \<lparr>artifacts := [demo_correlation\<lparr>ar_id := 1, ar_created_at := 12\<rparr>], artifact_id_seq := 2\<rparr>"

definition demo_journal :: "sleeve \<Rightarrow> instant \<Rightarrow> instant \<Rightarrow> journal_view" where
  "demo_journal _ _ _ = \<lparr>jv_execution = [(''available'', JBool True), (''orders'', JInt 40), (''fills'', JInt 22),
       (''fees'', JFloat (Fin 0)), (''mean_shortfall_bps'', JFloat (Fin (3/2)))],
     jv_performance = Inr [(''realized_total'', JFloat (Fin 120))],
     jv_completeness = [(''available'', JBool True), (''complete'', JBool True)]\<rparr>"

abbreviation demo_paper_row :: sleeve_row where
  "demo_paper_row \<equiv> step_to 9 ''paper'' [] demo_human"

lemma demo_reachable_paper:
  "reachable default_settings demo_db_paper {row_to_sleeve demo_paper_row, row_to_sleeve demo_human}"
proof -
  let ?d = "moved demo_human (step_to 9 ''paper'' []) (entry 9 1 2 ''candidate'' ''paper'' [] ''operator'' None) demo_db3"
  have t: "store_transition 9 (row_to_sleeve demo_human) ''paper'' [] ''operator'' None None demo_db3
      = Inr (row_to_sleeve demo_paper_row, ?d)"
    by (subst store_transition_current [OF reachable_inv(1) [OF demo_reachable3]]) (simp_all add: STATES_def)
  have a: "record_validation_artifact default_settings (\<lambda>_. []) 12 demo_correlation None ?d = Inr (1, demo_db_paper)"
    by (simp add: record_validation_artifact_def demo_correlation_def demo_artifact_def demo_db_paper_def demo_db3_def
        inserted_def moved_def empty_db_def known_environments_def default_settings_def demo_upper or_default_def)
  have "reachable default_settings ?d {row_to_sleeve demo_paper_row, row_to_sleeve demo_human}"
    by (rule reach_step [OF demo_reachable3]) (rule roster_step.transition [OF _ t], simp)
  then show ?thesis by (rule reach_step) (rule roster_step.artifact [OF a])
qed

lemma demo_window: "round_half_even 3456000000000 = 3456000000000" "py_round 2 40 = 40" "py_round 4 120 = 120"
  by code_simp+

lemma demo_live_assess:
  "\<exists>e g. assess default_thresholds demo_journal 99 [] (Some 1) None (row_to_sleeve demo_paper_row) demo_db_paper
     = Inr (e, g) \<and> allowed g \<and> target g = Some ''live'' \<and> (\<exists>scope. scope_kwargs (de_scope e) = Inr scope \<and>
       es_environment scope = ''paper'' \<and> es_window_start scope \<le> es_window_end scope)"
proof -
  have sel: "sl_state demo_paper_row = ''paper''" "sl_symbol demo_paper_row = ''AAPL''"
    "sl_strategy_id demo_paper_row = ''sma''" "sl_strategy_version demo_paper_row = ''v1''"
    by (simp_all add: step_to_def demo_human_def born_def)
  have corr: "derive_correlation demo_db_paper (row_to_sleeve demo_paper_row) (Some 1)
      = ([], JFloat (Fin (2/10)), [artifact_ref (demo_correlation\<lparr>ar_id := 1, ar_created_at := 12\<rparr>) False])"
    by (simp add: derive_correlation_def validation_artifact_def demo_db_paper_def demo_correlation_def
        demo_artifact_def scope_matches_def PORTFOLIO_CORRELATION_def sel demo_upper jget_def)
  have days: "paper_days (- 3455999999901) 99 = 40"
    by (simp add: paper_days_def total_seconds_def demo_window)
  have "\<exists>e. derive_paper_evidence demo_db_paper (demo_journal (row_to_sleeve demo_paper_row) (- 3455999999901) 99)
      (row_to_sleeve demo_paper_row) (- 3455999999901) 99 (Some 1) = Inr e \<and>
      de_problems e = [] \<and> num (de_metrics e) ''paper_days'' = Inr (Some (Fin 40)) \<and>
      num (de_metrics e) ''paper_orders'' = Inr (Some (Fin 40)) \<and> num (de_metrics e) ''paper_fills'' = Inr (Some (Fin 22)) \<and>
      num (de_metrics e) ''measured_shortfall_bps'' = Inr (Some (Fin (3/2))) \<and>
      jget (de_metrics e) ''journal_complete'' = JBool True \<and>
      num (de_metrics e) ''realized_pnl'' = Inr (Some (Fin 120)) \<and>
      num (de_metrics e) ''max_correlation_with_live'' = Inr (Some (Fin (2/10))) \<and>
      ds_window (de_scope e) = Some (- 3455999999901, 99) \<and> ds_environment (de_scope e) = ''paper''"
    by (simp add: derive_paper_evidence_def corr [unfolded One_nat_def] days demo_journal_def Let_def jget_def jget_default_def json_or_def
        num_def f_sub_def demo_window)
  then obtain e where e: "derive_paper_evidence demo_db_paper (demo_journal (row_to_sleeve demo_paper_row) (- 3455999999901) 99)
      (row_to_sleeve demo_paper_row) (- 3455999999901) 99 (Some 1) = Inr e"
    and m: "de_problems e = []" "num (de_metrics e) ''paper_days'' = Inr (Some (Fin 40))"
      "num (de_metrics e) ''paper_orders'' = Inr (Some (Fin 40))" "num (de_metrics e) ''paper_fills'' = Inr (Some (Fin 22))"
      "num (de_metrics e) ''measured_shortfall_bps'' = Inr (Some (Fin (3/2)))" "jget (de_metrics e) ''journal_complete'' = JBool True"
      "num (de_metrics e) ''realized_pnl'' = Inr (Some (Fin 120))"
      "num (de_metrics e) ''max_correlation_with_live'' = Inr (Some (Fin (2/10)))"
      "ds_window (de_scope e) = Some (- 3455999999901, 99)" "ds_environment (de_scope e) = ''paper''"
    by blast
  obtain g where g: "evaluate_to_live e default_thresholds = Inr g"
    using m by (simp add: evaluate_to_live_def usable_def Let_def default_thresholds_def)
  have "allowed g \<and> target g = Some ''live''"
    using evaluate_to_live_allowed [OF g] m
    by (simp add: usable_def live_bar_def figure_def figure_or_zero_def default_thresholds_def num_or_zero_def f_ge_def f_le_def)
  moreover have "assess default_thresholds demo_journal 99 [] (Some 1) None (row_to_sleeve demo_paper_row) demo_db_paper = Inr (e, g)"
    using e g by (simp add: assess_def sel default_thresholds_def demo_window)
  ultimately show ?thesis using m by (auto simp: scope_kwargs_def)
qed

theorem live_evidence_lacks_validated_sharpe_witness:
  "\<exists>s' g w' i e. promote demo_service (\<lambda>_. []) demo_journal 99 ''sma'' ''AAPL'' [] (Some 1) None ''operator'' None
     (quiet demo_db_paper) = (Inr (Some s', g), w') \<and> sl_state s' = ''live'' \<and>
     store_evidence i (w_db w') = Some e \<and> jget (ev_metrics e) ''out_of_sample_sharpe'' = JNull"
proof -
  obtain e g scope where as: "assess default_thresholds demo_journal 99 [] (Some 1) None (row_to_sleeve demo_paper_row) demo_db_paper
      = Inr (e, g)" "allowed g" "target g = Some ''live''" and
    scope: "scope_kwargs (de_scope e) = Inr scope" "es_environment scope = ''paper''"
      "es_window_start scope \<le> es_window_end scope"
    using demo_live_assess by blast
  obtain i d5 where r: "record_evidence (\<lambda>_. []) 99 scope (de_metrics e) (de_source_artifacts e) demo_db_paper = Inr (i, d5)"
    using scope by (simp add: record_evidence_def known_environments_def)
  then have i: "i \<in> ev_id ` set (evidence_table d5)" and sl: "sleeves d5 = [demo_paper_row]"
    by (auto simp: record_evidence_def Let_def demo_db_paper_def moved_def update_where_def split: if_splits)
  have r5: "reachable default_settings d5 {row_to_sleeve demo_paper_row, row_to_sleeve demo_human}"
    by (rule reach_step [OF demo_reachable_paper]) (rule roster_step.evidence [OF r])
  have get: "store_get default_settings ''sma'' ''AAPL'' None demo_db_paper = Some (row_to_sleeve demo_paper_row)"
    by (simp add: store_get_def select_identity_def identity_def demo_db_paper_def moved_def update_where_def
        step_to_def demo_human_def born_def default_settings_def demo_upper)
  have sel: "sl_state demo_paper_row = ''paper''" "sl_origin demo_paper_row = ''human''"
    by (simp_all add: step_to_def)
  obtain s' w' where p: "promote demo_service (\<lambda>_. []) demo_journal 99 ''sma'' ''AAPL'' [] (Some 1) None ''operator'' None
      (quiet demo_db_paper) = (Inr (Some s', g), w')" "sl_state s' = ''live''"
    using as scope r i sl store_transition_current [OF reachable_inv(1) [OF r5], of demo_paper_row "''live''" 99 _ "''operator''" "Some i"]
    by (auto simp: promote_def svc_require_def demo_service_def get NEXT_STATE_def sel STATES_def) (simp add: step_to_def)
  have "world_ok default_settings {row_to_sleeve demo_paper_row, row_to_sleeve demo_human} (quiet demo_db_paper)"
    by (simp add: world_ok_def demo_reachable_paper)
  from live_evidence_lacks_validated_sharpe [OF this _ p(1) as(2) p(2)] p show ?thesis by (auto simp: demo_service_def)
qed

text \<open>
  the decay trigger cannot fire in the sweep. Over any window shorter than five days, the 24 hours of
  the scheduled sweep among them, no annualised Sharpe is computed from the live trips, and the decay
  comparison is skipped whatever was validated.
\<close>

theorem decay_never_fires_in_sweep:
  assumes "\<forall>x \<in> set trips. ws \<le> lg_at (rt_exit x) \<and> lg_at (rt_exit x) \<le> moment"
    and "moment - ws < 432000000000"
  shows "decay_trigger (metrics_of (performance_from_trades hp trips cb) v) t = Inr []"
proof -
  have "total_seconds (moment - ws) / 86400 < MIN_SPAN_DAYS_TO_ANNUALISE"
    using assms(2) by (simp add: total_seconds_def MIN_SPAN_DAYS_TO_ANNUALISE_def)
  from performance_short_span [OF assms(1) this]
  show ?thesis by (simp add: decay_trigger_def metrics_of_def)
qed

theorem decay_never_fires_in_sweep_witness:
  "decay_trigger (metrics_of (performance_from_trades (\<lambda>x. x) [demo_trip 7 1, demo_trip 2 3] None) (JFloat (Fin 9)))
     default_health = Inr []"
  by (rule decay_never_fires_in_sweep [of _ 0 "86400000000"]) (simp_all add: demo_trip_def leg_of_def demo_fill_def)

text \<open>
  a series that has gone silent never halts. When the window holds no bar at all the report says
  incomplete, but it dates no gap, so however long the silence the grace period never runs out and the
  sweep leaves every latch as it was.
\<close>

theorem silent_series_never_halts:
  assumes "select_bars bs symbol timeframe ws moment = []"
  shows "\<exists>c. completeness True (Inr bs) symbol timeframe ws moment interval = Completeness c \<and> \<not> cp_complete c \<and>
    (\<forall>cfg clock s t r d. \<exists>d'. record_gap cfg clock s c ws moment t r (quiet d) = (r, quiet d') \<and>
       reconciliation d' = reconciliation d)"
  using assms
  by (simp add: completeness_def Let_def bar_gaps_def record_gap_def record_journal_health_def)

theorem silent_series_never_halts_witness:
  "\<exists>c. completeness True (Inr []) ''AAPL'' ''15m'' 0 86400000000 15 = Completeness c \<and> \<not> cp_complete c"
  using silent_series_never_halts [of "[]" "''AAPL''" "''15m''" 0 "86400000000" 15] by (auto simp: select_bars_def)

lemma bar_gaps_append:
  "bar_gaps tol (xs @ a # b # ys) = bar_gaps tol (xs @ [a]) @
     (if tol < minutes_between a b then [(a, b, py_round 2 (minutes_between a b))] else []) @ bar_gaps tol (b # ys)"
proof (induction xs)
  case (Cons x xs)
  then show ?case by (cases xs) (auto simp: bar_gaps_def)
qed (simp add: bar_gaps_def)

text \<open>
  the overnight close halts the next morning. Two consecutive bars further apart than one and a half
  intervals, as the last bar of a session and the first of the next always are, make the window
  incomplete; once the later bar is as old as the grace period, the latch closes although the series is
  fresh and every later interval is there.
\<close>

theorem session_break_halts:
  assumes "select_bars bs symbol timeframe ws moment = xs @ a # b # ys"
    and "interval * (3 / 2) < minutes_between a b" and "bar_gaps (interval * (3 / 2)) (b # ys) = []"
    and "py_round 2 (minutes_between (last (b # ys)) moment) \<le> interval * (3 / 2)"
    and "\<not> f_lt (Fin (minutes_between b moment)) (journal_gap_grace_minutes t)"
  shows "\<exists>c. completeness True (Inr bs) symbol timeframe ws moment interval = Completeness c \<and> \<not> cp_stale c \<and>
    (\<exists>r' d'. record_gap cfg clock s c ws moment t r (quiet d) = (r', quiet d') \<and> sw_entries_blocked r' \<and>
       halted_at (cfg_account_id cfg, environment_of s, environment_of s) d')"
proof -
  have gaps: "bar_gaps (interval * (3 / 2)) (xs @ a # b # ys) \<noteq> []"
    "fst (snd (last (bar_gaps (interval * (3 / 2)) (xs @ a # b # ys)))) = b"
    using assms(2,3) by (simp_all add: bar_gaps_append)
  obtain c where c: "completeness True (Inr bs) symbol timeframe ws moment interval = Completeness c"
    "\<not> cp_stale c" "cp_last_gap_at c = Some b"
    using assms(1,4) gaps by (simp add: completeness_def Let_def not_less)
  let ?why = "[S ''journal gap for '', S (key_of s), S '' unresolved for '', F ''.0f'' (Fin (minutes_between b moment)),
       S '' minutes (grace '', F ''.0f'' (journal_gap_grace_minutes t), S '')'']"
  let ?d = "snd (record_journal_health (key_of s) ws moment (cp_expected_observations c)
      (cp_actual_observations c) (int (length (cp_gaps c))) (sl_strategy_id s) (sl_symbol s) (environment_of s) None d)"
  have "record_gap cfg clock s c ws moment t r (quiet d) =
      (r\<lparr>sw_entries_blocked := h_halted (fst (halt_entries cfg clock (environment_of s) (environment_of s) ?why None ?d))\<rparr>,
       quiet (snd (halt_entries cfg clock (environment_of s) (environment_of s) ?why None ?d)))"
    using assms(5) c(3) by (simp add: record_gap_def Let_def case_prod_unfold)
  then show ?thesis
    using c halt_entries_answer halted_halt_entries by (auto simp: or_default_def)
qed

text \<open>Fifteen-minute bars: yesterday's last, today's first six, an hour and a quarter into the session.\<close>

definition demo_bars :: "bar_observation list" where
  "demo_bars = map (\<lambda>m. \<lparr>bo_symbol = ''AAPL'', bo_timeframe = ''15m'', bo_ts = m * 60000000\<rparr>)
     [0, 1050, 1065, 1080, 1095, 1110, 1125]"

theorem session_break_halts_witness:
  "\<exists>c r' d'. completeness True (Inr demo_bars) ''AAPL'' ''15m'' (-18900000000) 67500000000 15 = Completeness c \<and>
     record_gap default_settings 67500000000 (row_to_sleeve demo_live) c (-18900000000) 67500000000 default_health
       empty_sweep (quiet demo_db_live) = (r', quiet d') \<and>
     halted_at (''default'', ''live'', ''live'') d'"
proof -
  have sel: "select_bars demo_bars ''AAPL'' ''15m'' (-18900000000) 67500000000
      = [] @ 0 # 63000000000 # [63900000000, 64800000000, 65700000000, 66600000000, 67500000000]"
    by (simp add: select_bars_def demo_bars_def demo_upper)
  have env: "environment_of (row_to_sleeve demo_live) = ''live''"
    by (simp add: environment_of_def demo_live_def step_to_def roster_position_cases)
  have rnd: "py_round 2 0 = 0" by code_simp
  show ?thesis
    using session_break_halts [OF sel, of 15 default_health default_settings 67500000000 "row_to_sleeve demo_live"
        empty_sweep demo_db_live] rnd
    by (auto simp: minutes_between_def total_seconds_def bar_gaps_def default_health_def env default_settings_def)
qed

end
