(* ===== verification/Indicator_Series.thy ===== *)
theory Indicator_Series
  imports Indicators
begin

text \<open>
  \<open>services/backtest-service/src/backtest_service/indicator_series.py\<close>: the indicators at every bar in one pass,
  a rewrite of \<open>market_data/indicators.py\<close> for speed. Each loop is the fold of its body over the bar indices,
  with the local variables as its state. The square root of the Bollinger bands is an argument \<open>sq\<close>; what is
  shown holds for every such function. The theorems say that element \<open>i\<close> of each series is the value the live
  indicator computes from the first \<open>i + 1\<close> bars.
\<close>

subsection \<open>The series\<close>

definition ema_body :: "rat list \<Rightarrow> nat \<Rightarrow> nat \<Rightarrow> rat list \<times> rat \<Rightarrow> rat list \<times> rat" where
  "ema_body closes period i st =
     (case st of (out, ema) \<Rightarrow>
       (let price = closes ! i; len = i + 1 in
        if len < period then (out @ [price], ema)
        else
          (let ema' = (if len = period then sum_list (take period closes) / of_nat period
                       else (price - ema) * multiplier_of period + ema)
           in (out @ [ema'], ema'))))"

definition ema_series :: "rat list \<Rightarrow> nat \<Rightarrow> rat list" where
  "ema_series closes period = fst (fold (ema_body closes period) [0..<length closes] ([], 0))"

definition rsi_of :: "rat \<Rightarrow> rat \<Rightarrow> rat" where
  "rsi_of avg_gain avg_loss = (if avg_loss = 0 then 100 else 100 - 100 / (1 + avg_gain / avg_loss))"

definition rsi_body :: "rat list \<Rightarrow> nat \<Rightarrow> nat \<Rightarrow> rat list \<times> rat \<times> rat \<Rightarrow> rat list \<times> rat \<times> rat" where
  "rsi_body closes period i st =
     (case st of (out, avg_gain, avg_loss) \<Rightarrow>
       (let len = i + 1; delta = (\<lambda>j. closes ! j - closes ! (j - 1)) in
        if len < period + 1 then (out @ [50], avg_gain, avg_loss)
        else
          (let (g, l) =
             (if len = period + 1
              then (sum_list (map (\<lambda>j. max (delta j) 0) [1..<period + 1]) / of_nat period,
                    sum_list (map (\<lambda>j. \<bar>min (delta j) 0\<bar>) [1..<period + 1]) / of_nat period)
              else ((avg_gain * (of_nat period - 1) + max (delta i) 0) / of_nat period,
                    (avg_loss * (of_nat period - 1) + \<bar>min (delta i) 0\<bar>) / of_nat period))
           in (out @ [rsi_of g l], g, l))))"

definition rsi_series :: "rat list \<Rightarrow> nat \<Rightarrow> rat list" where
  "rsi_series closes period = fst (fold (rsi_body closes period) [0..<length closes] ([], 0, 0))"

record macd_state =
  ms_out :: "rat list"
  ms_fast :: rat
  ms_slow :: rat
  ms_values :: "rat list"
  ms_sig :: rat

definition macd_body :: "rat list \<Rightarrow> nat \<Rightarrow> nat \<Rightarrow> nat \<Rightarrow> nat \<Rightarrow> macd_state \<Rightarrow> macd_state" where
  "macd_body closes fast slow signal_period i st =
     (let price = closes ! i; len = i + 1; minimum = slow + signal_period in
      if len \<le> slow then (if len < minimum then st\<lparr>ms_out := ms_out st @ [0]\<rparr> else st)
      else
        (let (f0, s0) = (if len = slow + 1 then (sum_list (take fast closes) / of_nat fast, sum_list (take slow closes) / of_nat slow)
                         else (ms_fast st, ms_slow st));
             f = (price - f0) * multiplier_of fast + f0;
             s = (price - s0) * multiplier_of slow + s0;
             vs = ms_values st @ [f - s];
             st1 = st\<lparr>ms_fast := f, ms_slow := s, ms_values := vs\<rparr>
         in if len < minimum then st1\<lparr>ms_out := ms_out st @ [0]\<rparr>
            else
              (let sig = (if length vs = signal_period then sum_list (take signal_period vs) / of_nat signal_period
                          else (last vs - ms_sig st) * multiplier_of signal_period + ms_sig st)
               in st1\<lparr>ms_sig := sig, ms_out := ms_out st @ [last vs - sig]\<rparr>)))"

definition macd_start :: macd_state where
  "macd_start = \<lparr>ms_out = [], ms_fast = 0, ms_slow = 0, ms_values = [], ms_sig = 0\<rparr>"

definition macd_hist_series :: "rat list \<Rightarrow> nat \<Rightarrow> nat \<Rightarrow> nat \<Rightarrow> rat list" where
  "macd_hist_series closes fast slow signal_period =
     ms_out (fold (macd_body closes fast slow signal_period) [0..<length closes] macd_start)"

subsection \<open>One pass over the prefixes\<close>

text \<open>
  The contract of a one-pass computation: as long as an internal relation holds, the body at index \<open>n\<close> appends
  the reference value of index \<open>n\<close>.
\<close>

locale one_pass =
  fixes body :: "nat \<Rightarrow> 's \<Rightarrow> 's" and start :: 's and emitted :: "'s \<Rightarrow> 'v list" and ref :: "nat \<Rightarrow> 'v"
    and keeps :: "nat \<Rightarrow> 's \<Rightarrow> bool" and size :: nat
  assumes start_ok: "emitted start = []" "keeps 0 start"
    and body_ok: "n < size \<Longrightarrow> keeps n s \<Longrightarrow> emitted (body n s) = emitted s @ [ref n]"
      "n < size \<Longrightarrow> keeps n s \<Longrightarrow> keeps (Suc n) (body n s)"
begin

lemma pass: "n \<le> size \<Longrightarrow> emitted (fold body [0..<n] start) = map ref [0..<n] \<and> keeps n (fold body [0..<n] start)"
  by (induction n) (simp_all add: start_ok body_ok)

lemma whole_pass: "emitted (fold body [0..<size] start) = map ref [0..<size]"
  using pass [of size] by simp

end

lemma take_Suc_nth: "n < length xs \<Longrightarrow> take (Suc n) xs = take n xs @ [xs ! n]"
  by (rule take_Suc_conv_app_nth)

lemma ema_run_snoc: "ema_run t (xs @ [x]) a = (x - ema_run t xs a) * t + ema_run t xs a"
  by (simp add: ema_run_def)

lemma wilder_snoc: "wilder p (xs @ [x]) a = (wilder p xs a * (of_nat p - 1) + x) / of_nat p"
  by (simp add: wilder_def)

lemma compute_ema_snoc:
  assumes "p < length xs" and "0 < p"
  shows "compute_ema xs p = (last xs - compute_ema (butlast xs) p) * multiplier_of p + compute_ema (butlast xs) p"
proof -
  obtain ys y where xs: "xs = ys @ [y]" using assms by (cases xs rule: rev_cases) auto
  with assms have "p \<le> length ys" "ys \<noteq> []" by auto
  then show ?thesis by (simp add: xs compute_ema_def ema_run_snoc)
qed

interpretation ema: one_pass "ema_body closes (Suc p)" "([], 0)" fst "\<lambda>i. compute_ema (take (Suc i) closes) (Suc p)"
  "\<lambda>n st. Suc p \<le> n \<longrightarrow> snd st = compute_ema (take n closes) (Suc p)" "length closes" for closes p
proof
  fix n and st :: "rat list \<times> rat"
  assume n: "n < length closes" and inv: "Suc p \<le> n \<longrightarrow> snd st = compute_ema (take n closes) (Suc p)"
  obtain out e where st: "st = (out, e)" by (rule prod.exhaust)
  have step: "compute_ema (take (Suc n) closes) (Suc p) = (closes ! n - e) * multiplier_of (Suc p) + e" if "Suc p \<le> n"
    using compute_ema_snoc [of "Suc p" "take (Suc n) closes"] that n inv by (simp add: st take_Suc_nth)
  have small: "compute_ema (take (Suc n) closes) (Suc p) = closes ! n" if "n < p" using that n by (simp add: compute_ema_def take_Suc_nth)
  have seed: "compute_ema (take (Suc n) closes) (Suc p) = sum_list (take (Suc p) closes) / of_nat (Suc p)" if "n = p"
    using that n by (auto simp: compute_ema_def ema_run_def)
  show "fst (ema_body closes (Suc p) n st) = fst st @ [compute_ema (take (Suc n) closes) (Suc p)]"
    using small seed step by (simp add: ema_body_def st Let_def)
  show "Suc p \<le> Suc n \<longrightarrow> snd (ema_body closes (Suc p) n st) = compute_ema (take (Suc n) closes) (Suc p)"
    using seed step by (simp add: ema_body_def st Let_def)
qed simp_all

lemma ema_series_eq: "0 < p \<Longrightarrow> ema_series closes p = map (\<lambda>i. compute_ema (take (Suc i) closes) p) [0..<length closes]"
  using ema.whole_pass [of closes "p - 1"] by (simp add: ema_series_def)


subsection \<open>The relative strength index\<close>

definition changes :: "rat list \<Rightarrow> rat list" where
  "changes closes = map (\<lambda>i. closes ! i - closes ! (i - 1)) [1..<length closes]"

definition smoothed :: "(rat \<Rightarrow> rat) \<Rightarrow> nat \<Rightarrow> rat list \<Rightarrow> rat" where
  "smoothed part period closes =
     (let ds = map part (changes closes) in wilder period (drop period ds) (sum_list (take period ds) / of_nat period))"

lemma compute_rsi_smoothed:
  "compute_rsi closes period = (if length closes < period + 1 then 50
     else rsi_of (smoothed (\<lambda>d. max d 0) period closes) (smoothed (\<lambda>d. \<bar>min d 0\<bar>) period closes))"
  by (simp add: compute_rsi_def smoothed_def changes_def rsi_of_def Let_def)

lemma changes_take_map: "n \<le> length closes \<Longrightarrow> changes (take n closes) = map (\<lambda>i. closes ! i - closes ! (i - 1)) [1..<n]"
  by (auto simp: changes_def)

lemma changes_take: "n < length closes \<Longrightarrow> 0 < n \<Longrightarrow>
    changes (take (Suc n) closes) = changes (take n closes) @ [closes ! n - closes ! (n - 1)]"
  by (simp add: changes_take_map)

lemma smoothed_seed:
  "p < length closes \<Longrightarrow> smoothed part p (take (Suc p) closes)
     = sum_list (map (\<lambda>j. part (closes ! j - closes ! (j - 1))) [1..<p + 1]) / of_nat p"
  by (simp add: smoothed_def changes_take_map wilder_def Let_def comp_def)

lemma smoothed_step:
  assumes "n < length closes" and "p < n"
  shows "smoothed part p (take (Suc n) closes)
    = (smoothed part p (take n closes) * (of_nat p - 1) + part (closes ! n - closes ! (n - 1))) / of_nat p"
proof -
  have "length (changes (take n closes)) = n - 1" using assms by (simp add: changes_def)
  then show ?thesis using assms changes_take [of n closes] by (simp add: smoothed_def Let_def wilder_snoc)
qed

interpretation rsi: one_pass "rsi_body closes (Suc p)" "([], 0, 0)" fst "\<lambda>i. compute_rsi (take (Suc i) closes) (Suc p)"
  "\<lambda>n st. Suc p < n \<longrightarrow> snd st = (smoothed (\<lambda>d. max d 0) (Suc p) (take n closes), smoothed (\<lambda>d. \<bar>min d 0\<bar>) (Suc p) (take n closes))"
  "length closes" for closes p
proof
  let ?g = "\<lambda>n. smoothed (\<lambda>d. max d 0) (Suc p) (take n closes)" and ?l = "\<lambda>n. smoothed (\<lambda>d. \<bar>min d 0\<bar>) (Suc p) (take n closes)"
  fix n and st :: "rat list \<times> rat \<times> rat"
  assume n: "n < length closes" and inv: "Suc p < n \<longrightarrow> snd st = (?g n, ?l n)"
  obtain out g l where st: "st = (out, g, l)" by (rule prod_cases3)
  have few: "rsi_body closes (Suc p) n st = (out @ [50], g, l)" if "n < Suc p" using that by (simp add: rsi_body_def st Let_def)
  have enough: "rsi_body closes (Suc p) n st = (out @ [rsi_of (?g (Suc n)) (?l (Suc n))], ?g (Suc n), ?l (Suc n))" if "Suc p \<le> n"
  proof (cases "n = Suc p")
    case True
    then show ?thesis using n smoothed_seed [of "Suc p" closes] by (simp add: rsi_body_def st Let_def)
  next
    case False
    then show ?thesis using that n inv smoothed_step [of n closes "Suc p"] by (simp add: rsi_body_def st Let_def)
  qed
  show "fst (rsi_body closes (Suc p) n st) = fst st @ [compute_rsi (take (Suc n) closes) (Suc p)]"
    using few enough n by (cases "n < Suc p") (simp_all add: compute_rsi_smoothed st)
  show "Suc p < Suc n \<longrightarrow> snd (rsi_body closes (Suc p) n st) = (?g (Suc n), ?l (Suc n))" using enough by simp
qed simp_all

lemma rsi_series_eq: "0 < p \<Longrightarrow> rsi_series closes p = map (\<lambda>i. compute_rsi (take (Suc i) closes) p) [0..<length closes]"
  using rsi.whole_pass [of closes "p - 1"] by (simp add: rsi_series_def)

subsection \<open>The MACD histogram\<close>

definition macd_fold :: "rat list \<Rightarrow> nat \<Rightarrow> nat \<Rightarrow> rat \<times> rat \<times> rat list" where
  "macd_fold closes fast slow = macd_series (multiplier_of fast) (multiplier_of slow) (drop slow closes)
     (sum_list (take fast closes) / of_nat fast, sum_list (take slow closes) / of_nat slow, [])"

definition signal_line :: "nat \<Rightarrow> rat list \<Rightarrow> rat" where
  "signal_line sp vs = ema_run (multiplier_of sp) (drop sp vs) (sum_list (take sp vs) / of_nat sp)"

lemma macd_series_length: "length (snd (snd (macd_series a b prices st))) = length (snd (snd st)) + length prices"
  by (induction prices arbitrary: st) (simp_all add: macd_series_def case_prod_unfold Let_def)

lemma macd_fold_length: "length (snd (snd (macd_fold closes fast slow))) = length closes - slow"
  by (simp add: macd_fold_def macd_series_length)

lemma macd_hist_eq:
  "snd (snd (compute_macd closes fast slow sp)) =
     (if length closes < slow + sp then 0
      else (let vs = snd (snd (macd_fold closes fast slow)) in last vs - signal_line sp vs))"
  using macd_fold_length [of closes fast slow]
  by (auto simp: compute_macd_def macd_fold_def signal_line_def Let_def split: prod.splits)

lemma macd_fold_step:
  assumes "n < length closes" and "slow \<le> n" and "fast \<le> slow" and "macd_fold (take n closes) fast slow = (f, s, vs)"
  shows "macd_fold (take (Suc n) closes) fast slow =
    (let f' = (closes ! n - f) * multiplier_of fast + f; s' = (closes ! n - s) * multiplier_of slow + s in (f', s', vs @ [f' - s']))"
  using assms by (simp add: macd_fold_def macd_series_def take_Suc_nth Let_def)

lemma macd_fold_seed:
  "slow < length closes \<Longrightarrow> fast \<le> slow \<Longrightarrow> macd_fold (take slow closes) fast slow =
     (sum_list (take fast closes) / of_nat fast, sum_list (take slow closes) / of_nat slow, [])"
  by (simp add: macd_fold_def macd_series_def min_def)

lemma signal_line_snoc: "sp \<le> length vs \<Longrightarrow> signal_line sp (vs @ [v]) = (v - signal_line sp vs) * multiplier_of sp + signal_line sp vs"
  by (simp add: signal_line_def ema_run_snoc)

lemma signal_line_seed: "length vs = sp \<Longrightarrow> signal_line sp vs = sum_list vs / of_nat sp"
  by (simp add: signal_line_def ema_run_def)

text \<open>After \<open>n\<close> bars the local variables are those of the live computation on these bars.\<close>

definition macd_inv :: "rat list \<Rightarrow> nat \<Rightarrow> nat \<Rightarrow> nat \<Rightarrow> nat \<Rightarrow> macd_state \<Rightarrow> bool" where
  "macd_inv closes fast slow sp n st =
     (ms_values st = snd (snd (macd_fold (take n closes) fast slow)) \<and>
      (slow < n \<longrightarrow> (ms_fast st, ms_slow st, ms_values st) = macd_fold (take n closes) fast slow) \<and>
      (slow + sp \<le> n \<longrightarrow> ms_sig st = signal_line sp (ms_values st)))"

lemma macd_inv_slow:
  assumes "n < length closes" and "slow \<le> n" and "fast \<le> slow" and "0 < sp" and "macd_inv closes fast slow sp n st"
  defines "st' \<equiv> macd_body closes fast slow sp n st" and "m \<equiv> macd_fold (take (Suc n) closes) fast slow"
  shows "(ms_fast st', ms_slow st', ms_values st') = m \<and> (slow + sp \<le> Suc n \<longrightarrow> ms_sig st' = signal_line sp (ms_values st')) \<and>
    ms_out st' = ms_out st @ [if Suc n < slow + sp then 0 else last (snd (snd m)) - signal_line sp (snd (snd m))]"
proof -
  obtain f s vs where b: "macd_fold (take n closes) fast slow = (f, s, vs)" by (rule prod_cases3)
  have vs: "ms_values st = vs" "length vs = n - slow" using assms(5) b macd_fold_length [of "take n closes" fast slow] assms(1)
    by (simp_all add: macd_inv_def)
  have fs: "(if n = slow then (sum_list (take fast closes) / of_nat fast, sum_list (take slow closes) / of_nat slow)
      else (ms_fast st, ms_slow st)) = (f, s)"
    using assms b macd_fold_seed [of slow closes fast] by (auto simp: macd_inv_def)
  let ?f = "(closes ! n - f) * multiplier_of fast + f" and ?s = "(closes ! n - s) * multiplier_of slow + s"
  have m: "m = (?f, ?s, vs @ [?f - ?s])" unfolding m_def using macd_fold_step [OF assms(1-3) b] by (simp add: Let_def)
  have sig: "signal_line sp (vs @ [?f - ?s]) = (if Suc (length vs) = sp then sum_list (take sp (vs @ [?f - ?s])) / of_nat sp
      else ((?f - ?s) - ms_sig st) * multiplier_of sp + ms_sig st)" if "slow + sp \<le> Suc n"
    using that assms(2,5) vs signal_line_snoc [of sp vs "?f - ?s"] signal_line_seed [of "vs @ [?f - ?s]" sp]
    by (auto simp: macd_inv_def)
  show ?thesis
  proof (cases "Suc n < slow + sp")
    case True
    then show ?thesis using assms(2) fs by (simp add: st'_def macd_body_def m vs(1) Let_def)
  next
    case False
    then show ?thesis using assms(2) fs sig by (simp add: st'_def macd_body_def m vs(1) Let_def)
  qed
qed

interpretation macd: one_pass "macd_body closes fast (fast + k) (Suc sp)" macd_start ms_out
  "\<lambda>i. snd (snd (compute_macd (take (Suc i) closes) fast (fast + k) (Suc sp)))"
  "macd_inv closes fast (fast + k) (Suc sp)" "length closes" for closes fast k sp
proof
  let ?slow = "fast + k"
  show "macd_inv closes fast ?slow (Suc sp) 0 macd_start" by (simp add: macd_inv_def macd_start_def macd_fold_def macd_series_def)
  fix n st assume n: "n < length closes" and inv: "macd_inv closes fast ?slow (Suc sp) n st"
  have early: "macd_body closes fast ?slow (Suc sp) n st = st\<lparr>ms_out := ms_out st @ [0]\<rparr>" if "n < ?slow"
    using that by (simp add: macd_body_def Let_def)
  have none: "snd (snd (macd_fold (take m closes) fast ?slow)) = []" if "m \<le> ?slow" for m
    using that by (simp add: macd_fold_def macd_series_def)
  note late = macd_inv_slow [OF n _ _ _ inv]
  show "ms_out (macd_body closes fast ?slow (Suc sp) n st) = ms_out st @ [snd (snd (compute_macd (take (Suc n) closes) fast ?slow (Suc sp)))]"
    using early late n by (cases "n < ?slow") (simp_all add: macd_hist_eq Let_def)
  show "macd_inv closes fast ?slow (Suc sp) (Suc n) (macd_body closes fast ?slow (Suc sp) n st)"
  proof (cases "n < ?slow")
    case True
    then show ?thesis using inv none [of n] none [of "Suc n"] by (simp add: early macd_inv_def)
  next
    case False
    with late show ?thesis by (auto simp: macd_inv_def simp del: prod.inject dest: sym)
  qed
qed (simp add: macd_start_def)

lemma macd_hist_series_eq:
  "fast \<le> slow \<Longrightarrow> 0 < sp \<Longrightarrow> macd_hist_series closes fast slow sp =
     map (\<lambda>i. snd (snd (compute_macd (take (Suc i) closes) fast slow sp))) [0..<length closes]"
  using macd.whole_pass [of closes fast "slow - fast" "sp - 1"] by (simp add: macd_hist_series_def)


subsection \<open>Bollinger bands\<close>

definition bollinger_band :: "(rat \<Rightarrow> rat) \<Rightarrow> rat list \<Rightarrow> nat \<Rightarrow> rat \<Rightarrow> rat \<times> rat \<times> rat" where
  "bollinger_band sq window period std_dev =
     (let mean = sum_list window / of_nat period;
          variance = sum_list (map (\<lambda>p. (p - mean) ^ 2) window) / of_nat period;
          spread = std_dev * sq variance
      in (mean + spread, mean, mean - spread))"

definition compute_bollinger :: "(rat \<Rightarrow> rat) \<Rightarrow> rat list \<Rightarrow> nat \<Rightarrow> rat \<Rightarrow> rat \<times> rat \<times> rat" where
  "compute_bollinger sq closes period std_dev =
     (if length closes < period then (0, 0, 0)
      else bollinger_band sq (drop (length closes - period) closes) period std_dev)"

definition bollinger :: "(rat \<Rightarrow> rat) \<Rightarrow> rat list \<Rightarrow> nat \<Rightarrow> rat \<Rightarrow> (rat \<times> rat \<times> rat) list" where
  "bollinger sq closes period std_dev =
     map (\<lambda>i. if i + 1 < period then (0, 0, 0)
              else bollinger_band sq (take period (drop (i + 1 - period) closes)) period std_dev) [0..<length closes]"

lemma bollinger_eq:
  "bollinger sq closes period sd = map (\<lambda>i. compute_bollinger sq (take (Suc i) closes) period sd) [0..<length closes]"
  unfolding bollinger_def by (intro map_cong refl) (simp add: compute_bollinger_def min_absorb2 Suc_le_eq drop_take)

subsection \<open>The directional index\<close>

record adx_state =
  ax_out :: "rat list"
  ax_trs :: "rat list"
  ax_plus :: "rat list"
  ax_minus :: "rat list"
  ax_atr :: rat
  ax_ps :: rat
  ax_ms :: rat
  ax_count :: nat
  ax_sum :: rat
  ax_adx :: rat

definition adx_smooth :: "nat \<Rightarrow> nat \<Rightarrow> adx_state \<Rightarrow> adx_state" where
  "adx_smooth period i st =
     (let atr = ax_atr st - ax_atr st / of_nat period + last (ax_trs st);
          ps = ax_ps st - ax_ps st / of_nat period + last (ax_plus st);
          ms = ax_ms st - ax_ms st / of_nat period + last (ax_minus st);
          dx = directional atr ps ms;
          count = ax_count st + 1;
          running = ax_sum st + dx;
          adx = (if count < period then running / of_nat count
                 else if count = period then running / of_nat period
                 else (ax_adx st * (of_nat period - 1) + dx) / of_nat period)
      in st\<lparr>ax_atr := atr, ax_ps := ps, ax_ms := ms, ax_count := count, ax_sum := running, ax_adx := adx,
            ax_out := (ax_out st)[i := adx]\<rparr>)"

definition adx_body :: "rat list \<Rightarrow> rat list \<Rightarrow> rat list \<Rightarrow> nat \<Rightarrow> nat \<Rightarrow> adx_state \<Rightarrow> adx_state" where
  "adx_body highs lows closes period i st =
     (let up_move = highs ! i - highs ! (i - 1); down_move = lows ! (i - 1) - lows ! i;
          st1 = st\<lparr>ax_trs := ax_trs st @ [max (highs ! i - lows ! i) (max \<bar>highs ! i - closes ! (i - 1)\<bar> \<bar>lows ! i - closes ! (i - 1)\<bar>)],
                   ax_plus := ax_plus st @ [if down_move < up_move \<and> 0 < up_move then up_move else 0],
                   ax_minus := ax_minus st @ [if up_move < down_move \<and> 0 < down_move then down_move else 0]\<rparr>
      in if length (ax_trs st1) < period then st1
         else if length (ax_trs st1) = period
         then st1\<lparr>ax_atr := sum_list (take period (ax_trs st1)), ax_ps := sum_list (take period (ax_plus st1)),
                  ax_ms := sum_list (take period (ax_minus st1))\<rparr>
         else adx_smooth period i st1)"

definition adx_start :: "nat \<Rightarrow> adx_state" where
  "adx_start n = \<lparr>ax_out = replicate n ADX_NEUTRAL, ax_trs = [], ax_plus = [], ax_minus = [], ax_atr = 0, ax_ps = 0, ax_ms = 0,
     ax_count = 0, ax_sum = 0, ax_adx = 0\<rparr>"

definition adx_series :: "rat list \<Rightarrow> rat list \<Rightarrow> rat list \<Rightarrow> nat \<Rightarrow> rat list" where
  "adx_series highs lows closes period =
     (let n = length closes in
      if n < period + 2 then replicate n ADX_NEUTRAL
      else ax_out (fold (adx_body highs lows closes period) [1..<n] (adx_start n)))"

definition dx_pass :: "nat \<Rightarrow> rat list \<Rightarrow> rat list \<Rightarrow> rat list \<Rightarrow> rat \<times> rat \<times> rat \<times> rat list" where
  "dx_pass period trs ps ms = fold (dx_step (of_nat period)) (drop period (zip trs (zip ps ms)))
     (sum_list (take period trs), sum_list (take period ps), sum_list (take period ms), [])"

definition adx_of :: "nat \<Rightarrow> rat list \<Rightarrow> rat" where
  "adx_of period dxs = (if dxs = [] then ADX_NEUTRAL
     else wilder period (drop period dxs) (if period \<le> length dxs then sum_list (take period dxs) / of_nat period else mean_of dxs))"

lemma compute_adx_eq:
  assumes "length highs = length closes" and "length lows = length closes"
  shows "compute_adx highs lows closes period = (if length closes < period + 2 then ADX_NEUTRAL
    else adx_of period (snd (snd (snd (dx_pass period (true_ranges highs lows closes) (plus_dms highs lows (length closes))
      (minus_dms highs lows (length closes)))))))"
  using assms by (simp add: compute_adx_def dx_pass_def adx_of_def Let_def case_prod_unfold)

lemma ranges_take:
  assumes "n < length closes" and "0 < n" and "length highs = length closes" and "length lows = length closes"
  shows "true_ranges (take (Suc n) highs) (take (Suc n) lows) (take (Suc n) closes) = true_ranges (take n highs) (take n lows) (take n closes) @
      [max (highs ! n - lows ! n) (max \<bar>highs ! n - closes ! (n - 1)\<bar> \<bar>lows ! n - closes ! (n - 1)\<bar>)]"
    "plus_dms highs lows (Suc n) = plus_dms highs lows n @
      [let up_move = highs ! n - highs ! (n - 1); down_move = lows ! (n - 1) - lows ! n in if down_move < up_move \<and> 0 < up_move then up_move else 0]"
    "minus_dms highs lows (Suc n) = minus_dms highs lows n @
      [let up_move = highs ! n - highs ! (n - 1); down_move = lows ! (n - 1) - lows ! n in if up_move < down_move \<and> 0 < down_move then down_move else 0]"
  using assms by (auto simp: true_ranges_def plus_dms_def minus_dms_def)

lemma dms_take:
  assumes "n \<le> length highs" and "length lows = length highs"
  shows "plus_dms (take n highs) (take n lows) n = plus_dms highs lows n" "minus_dms (take n highs) (take n lows) n = minus_dms highs lows n"
  using assms by (auto simp: plus_dms_def minus_dms_def Let_def)


lemma dx_pass_snoc:
  "length ps = length trs \<Longrightarrow> length ms = length trs \<Longrightarrow> period \<le> length trs \<Longrightarrow>
   dx_pass period (trs @ [t]) (ps @ [p]) (ms @ [m]) = dx_step (of_nat period) (t, p, m) (dx_pass period trs ps ms)"
  by (simp add: dx_pass_def)

lemma dx_pass_early:
  "length ps = length trs \<Longrightarrow> length ms = length trs \<Longrightarrow> length trs \<le> period \<Longrightarrow>
   dx_pass period trs ps ms = (sum_list trs, sum_list ps, sum_list ms, [])"
  by (simp add: dx_pass_def)

lemma adx_of_snoc:
  assumes "0 < period"
  shows "adx_of period (dxs @ [dx]) =
    (if Suc (length dxs) < period then (sum_list dxs + dx) / of_nat (Suc (length dxs))
     else if Suc (length dxs) = period then (sum_list dxs + dx) / of_nat period
     else (adx_of period dxs * (of_nat period - 1) + dx) / of_nat period)"
proof -
  consider "Suc (length dxs) < period" | "Suc (length dxs) = period" | "period \<le> length dxs" by linarith
  then show ?thesis
  proof cases
    case 3
    with assms have "dxs \<noteq> []" by auto
    with 3 show ?thesis by (simp add: adx_of_def wilder_snoc)
  qed (simp_all add: adx_of_def mean_of_def wilder_def)
qed

text \<open>After the bars below \<open>k\<close>.\<close>

definition adx_inv :: "rat list \<Rightarrow> rat list \<Rightarrow> rat list \<Rightarrow> nat \<Rightarrow> nat \<Rightarrow> adx_state \<Rightarrow> bool" where
  "adx_inv highs lows closes period k st =
     (let trs = true_ranges (take k highs) (take k lows) (take k closes); ps = plus_dms highs lows k; ms = minus_dms highs lows k;
          (atr, p, m, dxs) = dx_pass period trs ps ms in
      ax_trs st = trs \<and> ax_plus st = ps \<and> ax_minus st = ms \<and> (period < k \<longrightarrow> (ax_atr st, ax_ps st, ax_ms st) = (atr, p, m)) \<and>
      ax_count st = length dxs \<and> ax_sum st = sum_list dxs \<and> (dxs \<noteq> [] \<longrightarrow> ax_adx st = adx_of period dxs) \<and>
      ax_out st = map (\<lambda>i. if i < k then compute_adx (take (Suc i) highs) (take (Suc i) lows) (take (Suc i) closes) period else ADX_NEUTRAL)
        [0..<length closes])"

lemma adx_out_set:
  assumes "k < length closes"
  shows "(map (\<lambda>i. if i < k then f i else c) [0..<length closes])[k := f k] = map (\<lambda>i. if i < Suc k then f i else c) [0..<length closes]"
  using assms by (auto intro!: nth_equalityI simp: nth_list_update)

lemma adx_out_same:
  assumes "f k = c"
  shows "map (\<lambda>i. if i < k then f i else c) xs = map (\<lambda>i. if i < Suc k then f i else c) xs"
  using assms by (auto simp: less_Suc_eq)

lemma adx_out_first: "f 0 = c \<Longrightarrow> replicate n c = map (\<lambda>i. if i < 1 then f i else c) [0..<n]"
  by (rule nth_equalityI) (auto simp: less_Suc_eq)

lemma adx_body_keeps:
  assumes k: "k < length closes" "0 < k" and len: "length highs = length closes" "length lows = length closes" and p: "0 < period"
    and inv: "adx_inv highs lows closes period k st"
  shows "adx_inv highs lows closes period (Suc k) (adx_body highs lows closes period k st)"
proof -
  let ?trs = "\<lambda>k. true_ranges (take k highs) (take k lows) (take k closes)" and ?ps = "plus_dms highs lows" and ?ms = "minus_dms highs lows"
  let ?ref = "\<lambda>i. compute_adx (take (Suc i) highs) (take (Suc i) lows) (take (Suc i) closes) period"
  define t where "t = max (highs ! k - lows ! k) (max \<bar>highs ! k - closes ! (k - 1)\<bar> \<bar>lows ! k - closes ! (k - 1)\<bar>)"
  define pl where "pl = (if lows ! (k - 1) - lows ! k < highs ! k - highs ! (k - 1) \<and> 0 < highs ! k - highs ! (k - 1) then highs ! k - highs ! (k - 1) else 0)"
  define mi where "mi = (if highs ! k - highs ! (k - 1) < lows ! (k - 1) - lows ! k \<and> 0 < lows ! (k - 1) - lows ! k then lows ! (k - 1) - lows ! k else 0)"
  note grow = ranges_take [OF k len, unfolded Let_def, folded t_def pl_def mi_def]
  have lens: "length (?trs j) = j - 1" "length (?ps j) = j - 1" "length (?ms j) = j - 1" if "j \<le> length closes" for j
    using that len by (simp_all add: true_ranges_def plus_dms_def minus_dms_def)
  obtain atr p m dxs where f: "dx_pass period (?trs k) (?ps k) (?ms k) = (atr, p, m, dxs)" by (rule prod_cases4)
  have st: "ax_trs st = ?trs k" "ax_plus st = ?ps k" "ax_minus st = ?ms k" "period < k \<longrightarrow> ax_atr st = atr \<and> ax_ps st = p \<and> ax_ms st = m"
    "ax_count st = length dxs" "ax_sum st = sum_list dxs" "dxs \<noteq> [] \<longrightarrow> ax_adx st = adx_of period dxs"
    "ax_out st = map (\<lambda>i. if i < k then ?ref i else ADX_NEUTRAL) [0..<length closes]"
    using inv f by (simp_all add: adx_inv_def Let_def)
  define st1 where "st1 = st\<lparr>ax_trs := ?trs (Suc k), ax_plus := ?ps (Suc k), ax_minus := ?ms (Suc k)\<rparr>"
  have body: "adx_body highs lows closes period k st = (if length (?trs (Suc k)) < period then st1
      else if length (?trs (Suc k)) = period
      then st1\<lparr>ax_atr := sum_list (take period (?trs (Suc k))), ax_ps := sum_list (take period (?ps (Suc k))), ax_ms := sum_list (take period (?ms (Suc k)))\<rparr>
      else adx_smooth period k st1)"
    unfolding adx_body_def Let_def t_def [symmetric] pl_def [symmetric] mi_def [symmetric] by (simp add: st1_def grow st)
  have ref: "?ref k = (if Suc k < period + 2 then ADX_NEUTRAL else adx_of period (snd (snd (snd (dx_pass period (?trs (Suc k)) (?ps (Suc k)) (?ms (Suc k)))))))"
    using compute_adx_eq [of "take (Suc k) highs" "take (Suc k) closes" "take (Suc k) lows" period] dms_take [of "Suc k" highs lows] k len
    by (simp add: min_absorb2 Suc_le_eq)
  show ?thesis
  proof (cases "k \<le> period")
    case True
    then have none: "dxs = []" using dx_pass_early [of "?ps k" "?trs k" "?ms k" period] lens [of k] k f by simp
    have f': "dx_pass period (?trs (Suc k)) (?ps (Suc k)) (?ms (Suc k)) = (sum_list (?trs (Suc k)), sum_list (?ps (Suc k)), sum_list (?ms (Suc k)), [])"
      using True lens [of "Suc k"] k by (intro dx_pass_early) simp_all
    have "?ref k = ADX_NEUTRAL" using True by (simp add: ref)
    then have "ax_out st = map (\<lambda>i. if i < Suc k then ?ref i else ADX_NEUTRAL) [0..<length closes]"
      unfolding st(8) by (rule adx_out_same)
    moreover have "adx_body highs lows closes period k st = (if k < period then st1
        else st1\<lparr>ax_atr := sum_list (?trs (Suc k)), ax_ps := sum_list (?ps (Suc k)), ax_ms := sum_list (?ms (Suc k))\<rparr>)"
      using True lens [of "Suc k"] k by (auto simp: body)
    ultimately show ?thesis using none st(5-7) f' by (simp add: adx_inv_def st1_def)
  next
    case False
    define atr' p' m' where "atr' = atr - atr / of_nat period + t" and "p' = p - p / of_nat period + pl" and "m' = m - m / of_nat period + mi"
    have f': "dx_pass period (?trs (Suc k)) (?ps (Suc k)) (?ms (Suc k)) = (atr', p', m', dxs @ [directional atr' p' m'])"
      using False lens [of k] k f dx_pass_snoc [of "?ps k" "?trs k" "?ms k" period t pl mi] unfolding grow
      by (simp add: dx_step_def atr'_def p'_def m'_def Let_def)
    have r: "?ref k = adx_of period (dxs @ [directional atr' p' m'])" using False f' by (simp add: ref)
    have "adx_body highs lows closes period k st = st1\<lparr>ax_trs := ?trs (Suc k), ax_plus := ?ps (Suc k), ax_minus := ?ms (Suc k),
        ax_atr := atr', ax_ps := p', ax_ms := m', ax_count := Suc (length dxs), ax_sum := sum_list dxs + directional atr' p' m',
        ax_adx := ?ref k, ax_out := (ax_out st)[k := ?ref k]\<rparr>"
      using False lens [of k] k st(4-7) p
      by (cases "dxs = []") (simp_all add: body adx_smooth_def st1_def grow Let_def atr'_def p'_def m'_def r adx_of_snoc [OF p] adx_of_snoc [OF p, of "[]", simplified])
    then show ?thesis
      using f' r adx_out_set [OF k(1), of ?ref ADX_NEUTRAL] by (simp add: adx_inv_def st1_def Let_def st(8))
  qed
qed

lemma adx_series_eq:
  assumes len: "length highs = length closes" "length lows = length closes" and p: "0 < period"
  shows "adx_series highs lows closes period =
    map (\<lambda>i. compute_adx (take (Suc i) highs) (take (Suc i) lows) (take (Suc i) closes) period) [0..<length closes]"
proof (cases "length closes < period + 2")
  case True
  then show ?thesis by (auto simp: adx_series_def compute_adx_def intro!: nth_equalityI)
next
  case False
  have "adx_inv highs lows closes period k (fold (adx_body highs lows closes period) [1..<k] (adx_start (length closes)))"
    if "1 \<le> k" "k \<le> length closes" for k
    using that
  proof (induction k rule: dec_induct)
    case base
    have one: "compute_adx (take 1 highs) (take 1 lows) (take 1 closes) period = ADX_NEUTRAL" by (simp add: compute_adx_def min_less_iff_disj)
    then have "replicate (length closes) ADX_NEUTRAL = map (\<lambda>i. if i < 1 then compute_adx (take (Suc i) highs) (take (Suc i) lows) (take (Suc i) closes) period
        else ADX_NEUTRAL) [0..<length closes]"
      by (intro adx_out_first) simp
    then show ?case by (simp add: adx_inv_def adx_start_def true_ranges_def plus_dms_def minus_dms_def dx_pass_def Let_def)
  next
    case (step k)
    then show ?case using adx_body_keeps [of k closes highs lows period] len p by simp
  qed
  from this [of "length closes"] False show ?thesis by (simp add: adx_series_def adx_inv_def Let_def split: prod.splits)
qed


subsection \<open>Properties\<close>

record indicator_series =
  is_ema_fast :: "rat list"
  is_ema_slow :: "rat list"
  is_rsi :: "rat list"
  is_macd_hist :: "rat list"

definition RSI_PERIOD :: nat where
  "RSI_PERIOD = 14"

definition MACD_FAST :: nat where
  "MACD_FAST = 12"

definition MACD_SLOW :: nat where
  "MACD_SLOW = 26"

definition MACD_SIGNAL :: nat where
  "MACD_SIGNAL = 9"

definition ADX_PERIOD :: nat where
  "ADX_PERIOD = 14"

definition build_series :: "rat list \<Rightarrow> nat \<Rightarrow> nat \<Rightarrow> indicator_series" where
  "build_series closes ema_fast_period ema_slow_period =
     \<lparr>is_ema_fast = ema_series closes ema_fast_period, is_ema_slow = ema_series closes ema_slow_period,
      is_rsi = rsi_series closes RSI_PERIOD, is_macd_hist = macd_hist_series closes MACD_FAST MACD_SLOW MACD_SIGNAL\<rparr>"

text \<open>
  C12: The one-pass series are the live indicators. At every bar the element of each series the backtester builds
  (both moving averages, the relative strength index, the MACD histogram, the directional index and the Bollinger
  bands) equals what the live indicator functions compute from the bars up to and including that one.
\<close>

theorem series_equal_live_indicators:
  assumes "0 < fast" and "0 < slow" and "length highs = length closes" and "length lows = length closes"
  shows "build_series closes fast slow =
     \<lparr>is_ema_fast = map (\<lambda>i. compute_ema (take (Suc i) closes) fast) [0..<length closes],
      is_ema_slow = map (\<lambda>i. compute_ema (take (Suc i) closes) slow) [0..<length closes],
      is_rsi = map (\<lambda>i. compute_rsi (take (Suc i) closes) 14) [0..<length closes],
      is_macd_hist = map (\<lambda>i. snd (snd (compute_macd (take (Suc i) closes) 12 26 9))) [0..<length closes]\<rparr> \<and>
    adx_series highs lows closes ADX_PERIOD =
      map (\<lambda>i. compute_adx (take (Suc i) highs) (take (Suc i) lows) (take (Suc i) closes) 14) [0..<length closes] \<and>
    bollinger sq closes period sd = map (\<lambda>i. compute_bollinger sq (take (Suc i) closes) period sd) [0..<length closes]"
  using ema_series_eq [OF assms(1), of closes] ema_series_eq [OF assms(2), of closes] rsi_series_eq [of 14 closes]
    macd_hist_series_eq [of 12 26 9 closes] adx_series_eq [OF assms(3,4), of 14] bollinger_eq [of sq closes period sd]
  by (simp add: build_series_def RSI_PERIOD_def MACD_FAST_def MACD_SLOW_def MACD_SIGNAL_def ADX_PERIOD_def)

theorem series_equal_live_indicators_witness:
  "is_ema_fast (build_series [1, 2, 4, 8] 2 3) = [compute_ema [1] 2, compute_ema [1, 2] 2, compute_ema [1, 2, 4] 2, compute_ema [1, 2, 4, 8] 2] \<and>
   is_ema_fast (build_series [1, 2, 4, 8] 2 3) = [1, 3 / 2, 19 / 6, 115 / 18]"
proof -
  have "is_ema_fast (build_series [1, 2, 4, 8] 2 3) = [1, 3 / 2, 19 / 6, 115 / 18]" by code_simp
  then show ?thesis
    using series_equal_live_indicators [of 2 3 "[1, 2, 4, 8]" "[1, 2, 4, 8]" "[1, 2, 4, 8]" id 2 1] by (simp add: upt_rec)
qed

end
