(* ===== verification/Strategies.thy ===== *)
theory Strategies
  imports Indicator_Series
begin

text \<open>
  \<open>services/backtest-service/src/backtest_service/strategies.py\<close>, \<open>entry_gates.py\<close> and the parameter models of
  \<open>models.py\<close>: the parameters of a rule with their validation and label, the grid a search may try, the two
  rules, the registry that names them and the live entry gates. The square root of the Bollinger bands is the
  argument \<open>sq\<close>. The theorems say that a signal never looks ahead and that the gates only ever take entries away.
\<close>

subsection \<open>The \<open>g\<close> format of a float\<close>

text \<open>
  \<open>f"{x:g}"\<close> of a finite float: six significant digits, trailing zeros removed, scientific notation when the
  decimal exponent is below -4 or at least 6.
\<close>

function show_pos :: "int \<Rightarrow> string" where
  "show_pos k = (if k < 10 then [char_of (48 + k)] else show_pos (k div 10) @ [char_of (48 + k mod 10)])"
  by auto
termination by (relation "measure nat") auto

declare show_pos.simps [simp del]

definition show_int :: "int \<Rightarrow> string" where
  "show_int k = (if k < 0 then ''-'' @ show_pos (- k) else show_pos k)"

definition dec_exponent :: "rat \<Rightarrow> int" where
  "dec_exponent x =
     (if 1 \<le> x then int (length (show_pos \<lfloor>x\<rfloor>)) - 1
      else (case find (\<lambda>k. 1 \<le> x * 10 ^ k) [1..<Suc (length (show_pos (snd (quotient_of x))))] of
              None \<Rightarrow> 0 | Some k \<Rightarrow> - int k))"

definition drop_zeros :: "string \<Rightarrow> string" where
  "drop_zeros s = rev (dropWhile (\<lambda>c. c = CHR ''0'') (rev s))"

definition with_point :: "string \<Rightarrow> string \<Rightarrow> string" where
  "with_point whole fraction = (if fraction = [] then whole else whole @ ''.'' @ fraction)"

definition fmt_g_pos :: "rat \<Rightarrow> string" where
  "fmt_g_pos x =
     (let e0 = dec_exponent x; m0 = round_half_even (scale10 (5 - e0) x);
          (m, e) = (if m0 = 1000000 then (100000, e0 + 1) else (m0, e0));
          ds = show_pos m
      in if -4 \<le> e \<and> e < 6
         then (if 0 \<le> e then with_point (take (nat e + 1) ds) (drop_zeros (drop (nat e + 1) ds))
               else with_point ''0'' (replicate (nat (- e) - 1) (CHR ''0'') @ drop_zeros ds))
         else with_point (take 1 ds) (drop_zeros (drop 1 ds)) @ (if e < 0 then ''e-'' else ''e+'') @
              (let s = show_pos \<bar>e\<bar> in if length s < 2 then ''0'' @ s else s))"

definition fmt_g :: "rat \<Rightarrow> string" where
  "fmt_g x = (if x = 0 then ''0'' else if x < 0 then ''-'' @ fmt_g_pos (- x) else fmt_g_pos x)"

subsection \<open>Parameters\<close>

record strategy_params =
  sp_ema_fast :: int
  sp_ema_slow :: int
  sp_rsi_buy_min :: rat
  sp_rsi_buy_max :: rat
  sp_macd_hist_min :: rat
  sp_bb_period :: int
  sp_bb_std :: rat
  sp_rsi_oversold :: rat
  sp_rsi_overbought :: rat

definition default_params :: strategy_params where
  "default_params = \<lparr>sp_ema_fast = 20, sp_ema_slow = 50, sp_rsi_buy_min = 45, sp_rsi_buy_max = 70, sp_macd_hist_min = 0,
     sp_bb_period = 20, sp_bb_std = 2, sp_rsi_oversold = 30, sp_rsi_overbought = 70\<rparr>"

definition params_in_range :: "strategy_params \<Rightarrow> bool" where
  "params_in_range p =
     (2 \<le> sp_ema_fast p \<and> sp_ema_fast p \<le> 200 \<and> 3 \<le> sp_ema_slow p \<and> sp_ema_slow p \<le> 400 \<and>
      0 \<le> sp_rsi_buy_min p \<and> sp_rsi_buy_min p \<le> 100 \<and> 0 \<le> sp_rsi_buy_max p \<and> sp_rsi_buy_max p \<le> 100 \<and>
      5 \<le> sp_bb_period p \<and> sp_bb_period p \<le> 200 \<and> 0 < sp_bb_std p \<and> sp_bb_std p \<le> 5 \<and>
      0 \<le> sp_rsi_oversold p \<and> sp_rsi_oversold p \<le> 100 \<and> 0 \<le> sp_rsi_overbought p \<and> sp_rsi_overbought p \<le> 100)"

definition check_ordering :: "strategy_params \<Rightarrow> exn + strategy_params" where
  "check_ordering p =
     (if sp_ema_slow p \<le> sp_ema_fast p
      then Inl (ValueError [S ''ema_fast ('', I (sp_ema_fast p), S '') must be below ema_slow ('', I (sp_ema_slow p),
                            S '') -- a crossover rule needs two different speeds''])
      else if sp_rsi_buy_max p \<le> sp_rsi_buy_min p
      then Inl (ValueError [S ''rsi_buy_min ('', F [] (Fin (sp_rsi_buy_min p)), S '') must be below rsi_buy_max ('',
                            F [] (Fin (sp_rsi_buy_max p)), S '') -- an empty band never triggers''])
      else if sp_rsi_overbought p \<le> sp_rsi_oversold p
      then Inl (ValueError [S ''rsi_oversold ('', F [] (Fin (sp_rsi_oversold p)), S '') must be below rsi_overbought ('',
                            F [] (Fin (sp_rsi_overbought p)), S '')''])
      else Inr p)"

text \<open>The constructor \<open>StrategyParams(...)\<close>; \<open>None\<close> is a \<open>ValidationError\<close>.\<close>

definition make_params :: "strategy_params \<Rightarrow> strategy_params option" where
  "make_params p = (if params_in_range p then (case check_ordering p of Inl _ \<Rightarrow> None | Inr q \<Rightarrow> Some q) else None)"

definition rsi_sell_min :: "strategy_params \<Rightarrow> rat" where
  "rsi_sell_min p = 100 - sp_rsi_buy_max p"

definition rsi_sell_max :: "strategy_params \<Rightarrow> rat" where
  "rsi_sell_max p = 100 - sp_rsi_buy_min p"

definition min_warmup_bars :: "strategy_params \<Rightarrow> int" where
  "min_warmup_bars p = max (sp_ema_slow p + 1) (max (sp_bb_period p + 1) 35)"

text \<open>The pieces of a label by field name, in the order of the source's dictionary; \<open>None\<close> is a folded field.\<close>

definition label_parts :: "strategy_params \<Rightarrow> (string \<times> string option) list" where
  "label_parts p =
     [(''ema_fast'', Some (''ema'' @ show_int (sp_ema_fast p) @ ''/'' @ show_int (sp_ema_slow p))),
      (''ema_slow'', None),
      (''rsi_buy_min'', Some (''rsi'' @ fmt_g (sp_rsi_buy_min p) @ ''-'' @ fmt_g (sp_rsi_buy_max p))),
      (''rsi_buy_max'', None),
      (''macd_hist_min'', Some (''macd>'' @ fmt_g (sp_macd_hist_min p))),
      (''bb_period'', Some (''bb'' @ show_int (sp_bb_period p))),
      (''bb_std'', Some (''sd'' @ fmt_g (sp_bb_std p))),
      (''rsi_oversold'', Some (''rsi<'' @ fmt_g (sp_rsi_oversold p))),
      (''rsi_overbought'', Some (''rsi>'' @ fmt_g (sp_rsi_overbought p)))]"

fun join :: "string \<Rightarrow> string list \<Rightarrow> string" where
  "join sep [] = []"
| "join sep [s] = s"
| "join sep (s # ss) = s @ sep @ join sep ss"

definition params_label :: "strategy_params \<Rightarrow> string list option \<Rightarrow> string" where
  "params_label p names =
     (let parts = label_parts p;
          selected = (case names of None \<Rightarrow> map fst parts | Some fs \<Rightarrow> fs);
          rendered = map (\<lambda>name. the (map_of parts name)) (filter (\<lambda>name. map_of parts name \<noteq> None) selected)
      in join '' '' (map the (filter (\<lambda>part. part \<noteq> None) rendered)))"

subsection \<open>The rules\<close>

definition MACD_WARMUP :: int where
  "MACD_WARMUP = 35"

definition momentum_warmup :: "strategy_params \<Rightarrow> int" where
  "momentum_warmup p = max (sp_ema_slow p + 1) MACD_WARMUP"

definition momentum_signals :: "ohlcv_bar list \<Rightarrow> strategy_params \<Rightarrow> string list" where
  "momentum_signals bars p =
     (let warmup = momentum_warmup p; closes = map ba_close bars;
          series = build_series closes (nat (sp_ema_fast p)) (nat (sp_ema_slow p))
      in map (\<lambda>i.
           if int i + 1 < warmup then ''HOLD''
           else
             (let ema_fast = is_ema_fast series ! i; ema_slow = is_ema_slow series ! i; rsi = is_rsi series ! i;
                  macd_hist = is_macd_hist series ! i;
                  buy = ema_slow < ema_fast \<and> sp_rsi_buy_min p < rsi \<and> rsi < sp_rsi_buy_max p \<and> sp_macd_hist_min p < macd_hist;
                  sell = ema_fast < ema_slow \<and> rsi_sell_min p < rsi \<and> rsi < rsi_sell_max p \<and> macd_hist < - sp_macd_hist_min p
              in if buy then ''BUY'' else if sell then ''SELL'' else ''HOLD'')) [0..<length bars])"

definition reversion_warmup :: "strategy_params \<Rightarrow> int" where
  "reversion_warmup p = max (sp_bb_period p + 1) 15"

definition reversion_signals :: "(rat \<Rightarrow> rat) \<Rightarrow> ohlcv_bar list \<Rightarrow> strategy_params \<Rightarrow> string list" where
  "reversion_signals sq bars p =
     (let warmup = reversion_warmup p; closes = map ba_close bars;
          bands = bollinger sq closes (nat (sp_bb_period p)) (sp_bb_std p);
          rsi = rsi_series closes RSI_PERIOD
      in map (\<lambda>i.
           if int i + 1 < warmup then ''HOLD''
           else
             (let close = closes ! i; (_, middle, band_low) = bands ! i;
                  buy = close < band_low \<and> rsi ! i < sp_rsi_oversold p;
                  sell = middle < close \<or> sp_rsi_overbought p < rsi ! i
              in if buy then ''BUY'' else if sell then ''SELL'' else ''HOLD'')) [0..<length bars])"

subsection \<open>The registry\<close>

record strategy =
  sg_name :: string
  sg_description :: string
  sg_signals :: "ohlcv_bar list \<Rightarrow> strategy_params \<Rightarrow> string list"
  sg_param_fields :: "string list"
  sg_warmup :: "strategy_params \<Rightarrow> int"

definition MOMENTUM_FIELDS :: "string list" where
  "MOMENTUM_FIELDS = [''ema_fast'', ''ema_slow'', ''rsi_buy_min'', ''rsi_buy_max'', ''macd_hist_min'']"

definition REVERSION_FIELDS :: "string list" where
  "REVERSION_FIELDS = [''bb_period'', ''bb_std'', ''rsi_oversold'', ''rsi_overbought'']"

definition REGISTRY :: "(rat \<Rightarrow> rat) \<Rightarrow> (string \<times> strategy) list" where
  "REGISTRY sq =
     [(''ema_rsi_macd'',
       \<lparr>sg_name = ''ema_rsi_macd'', sg_description = ''Dual-EMA trend with RSI and MACD confirmation. Buys strength.'',
        sg_signals = momentum_signals, sg_param_fields = MOMENTUM_FIELDS, sg_warmup = momentum_warmup\<rparr>),
      (''bollinger_reversion'',
       \<lparr>sg_name = ''bollinger_reversion'',
        sg_description = ''Buys a close below the lower Bollinger band with RSI oversold; exits on a return to the mean. Buys weakness.'',
        sg_signals = reversion_signals sq, sg_param_fields = REVERSION_FIELDS, sg_warmup = reversion_warmup\<rparr>)]"

definition strategy_names :: "string list" where
  "strategy_names = sort (map fst (REGISTRY id))"

definition get_strategy :: "(rat \<Rightarrow> rat) \<Rightarrow> string \<Rightarrow> exn + strategy" where
  "get_strategy sq name =
     (case map_of (REGISTRY sq) name of
        Some s \<Rightarrow> Inr s
      | None \<Rightarrow> Inl (ValueError [S ''Unknown strategy '', S [CHR 0x27], S name, S (CHR 0x27 # ''. Available: ''), S (join '', '' strategy_names)]))"

definition strategy_label :: "strategy \<Rightarrow> strategy_params \<Rightarrow> string" where
  "strategy_label s p = params_label p (Some (sg_param_fields s))"

subsection \<open>The grid\<close>

record parameter_grid =
  pg_ema_fast :: "int list"
  pg_ema_slow :: "int list"
  pg_rsi_buy_min :: "rat list"
  pg_rsi_buy_max :: "rat list"
  pg_macd_hist_min :: "rat list"
  pg_bb_period :: "int list"
  pg_bb_std :: "rat list"
  pg_rsi_oversold :: "rat list"
  pg_rsi_overbought :: "rat list"

definition default_grid :: parameter_grid where
  "default_grid = \<lparr>pg_ema_fast = [10, 20, 30], pg_ema_slow = [40, 50, 60], pg_rsi_buy_min = [40, 45, 50], pg_rsi_buy_max = [65, 70, 75],
     pg_macd_hist_min = [0], pg_bb_period = [10, 20, 30], pg_bb_std = [3 / 2, 2, 5 / 2], pg_rsi_oversold = [25, 30, 35],
     pg_rsi_overbought = [70]\<rparr>"

text \<open>A value of an axis, and the fields by name; the integer fields hold integers and the others floats.\<close>

datatype axis_value = AInt int | AFloat rat

fun av_int :: "axis_value \<Rightarrow> int" where
  "av_int (AInt k) = k"
| "av_int (AFloat x) = \<lfloor>x\<rfloor>"

fun av_rat :: "axis_value \<Rightarrow> rat" where
  "av_rat (AInt k) = of_int k"
| "av_rat (AFloat x) = x"

definition get_param :: "strategy_params \<Rightarrow> string \<Rightarrow> axis_value" where
  "get_param p name =
     (if name = ''ema_fast'' then AInt (sp_ema_fast p) else if name = ''ema_slow'' then AInt (sp_ema_slow p)
      else if name = ''rsi_buy_min'' then AFloat (sp_rsi_buy_min p) else if name = ''rsi_buy_max'' then AFloat (sp_rsi_buy_max p)
      else if name = ''macd_hist_min'' then AFloat (sp_macd_hist_min p) else if name = ''bb_period'' then AInt (sp_bb_period p)
      else if name = ''bb_std'' then AFloat (sp_bb_std p) else if name = ''rsi_oversold'' then AFloat (sp_rsi_oversold p)
      else AFloat (sp_rsi_overbought p))"

definition set_param :: "string \<Rightarrow> axis_value \<Rightarrow> strategy_params \<Rightarrow> strategy_params" where
  "set_param name v p =
     (if name = ''ema_fast'' then p\<lparr>sp_ema_fast := av_int v\<rparr> else if name = ''ema_slow'' then p\<lparr>sp_ema_slow := av_int v\<rparr>
      else if name = ''rsi_buy_min'' then p\<lparr>sp_rsi_buy_min := av_rat v\<rparr> else if name = ''rsi_buy_max'' then p\<lparr>sp_rsi_buy_max := av_rat v\<rparr>
      else if name = ''macd_hist_min'' then p\<lparr>sp_macd_hist_min := av_rat v\<rparr> else if name = ''bb_period'' then p\<lparr>sp_bb_period := av_int v\<rparr>
      else if name = ''bb_std'' then p\<lparr>sp_bb_std := av_rat v\<rparr> else if name = ''rsi_oversold'' then p\<lparr>sp_rsi_oversold := av_rat v\<rparr>
      else p\<lparr>sp_rsi_overbought := av_rat v\<rparr>)"

definition grid_axes :: "parameter_grid \<Rightarrow> (string \<times> axis_value list) list" where
  "grid_axes g =
     [(''ema_fast'', map AInt (pg_ema_fast g)), (''ema_slow'', map AInt (pg_ema_slow g)),
      (''rsi_buy_min'', map AFloat (pg_rsi_buy_min g)), (''rsi_buy_max'', map AFloat (pg_rsi_buy_max g)),
      (''macd_hist_min'', map AFloat (pg_macd_hist_min g)), (''bb_period'', map AInt (pg_bb_period g)),
      (''bb_std'', map AFloat (pg_bb_std g)), (''rsi_oversold'', map AFloat (pg_rsi_oversold g)),
      (''rsi_overbought'', map AFloat (pg_rsi_overbought g))]"

definition live_axes :: "(rat \<Rightarrow> rat) \<Rightarrow> parameter_grid \<Rightarrow> string option \<Rightarrow> exn + (string \<times> axis_value list) list" where
  "live_axes sq g strategy =
     (case strategy of
        None \<Rightarrow> Inr (grid_axes g)
      | Some name \<Rightarrow>
          bindE (get_strategy sq name) (\<lambda>s.
            Inr (map (\<lambda>(axis, vs). (axis, if axis \<in> set (sg_param_fields s) then vs else take 1 vs))
                   (filter (\<lambda>(axis, vs). vs \<noteq> []) (grid_axes g)))))"

definition params_of :: "string list \<Rightarrow> axis_value list \<Rightarrow> strategy_params option" where
  "params_of names vs = make_params (fold (\<lambda>(name, v). set_param name v) (zip names vs) default_params)"

text \<open>\<open>itertools.product\<close> is \<^const>\<open>product_lists\<close>: the last axis varies fastest.\<close>

definition combinations :: "(rat \<Rightarrow> rat) \<Rightarrow> parameter_grid \<Rightarrow> string option \<Rightarrow> exn + strategy_params list" where
  "combinations sq g strategy =
     bindE (live_axes sq g strategy) (\<lambda>axes.
       Inr (List.map_filter (params_of (map fst axes)) (product_lists (map snd axes))))"

text \<open>The neighbour at a position of an axis, when there is one and it is a new configuration.\<close>

definition try_neighbour :: "strategy_params \<Rightarrow> string \<Rightarrow> axis_value list \<Rightarrow> int \<Rightarrow>
    string list \<times> strategy_params list \<Rightarrow> string list \<times> strategy_params list" where
  "try_neighbour p name vs position st =
     (case st of (seen, found) \<Rightarrow>
        if 0 \<le> position \<and> position < int (length vs) then
          (case make_params (set_param name (vs ! nat position) p) of
             None \<Rightarrow> st
           | Some candidate \<Rightarrow>
               if params_label candidate None \<in> set seen then st
               else (params_label candidate None # seen, found @ [candidate]))
        else st)"

definition axis_neighbours :: "strategy_params \<Rightarrow> string \<times> axis_value list \<Rightarrow>
    string list \<times> strategy_params list \<Rightarrow> string list \<times> strategy_params list" where
  "axis_neighbours p axis st =
     (case axis of (name, vs) \<Rightarrow>
        if get_param p name \<notin> set vs then st
        else (let index = int (length (takeWhile (\<lambda>v. v \<noteq> get_param p name) vs))
              in try_neighbour p name vs (index + 1) (try_neighbour p name vs (index - 1) st)))"

definition neighbours :: "(rat \<Rightarrow> rat) \<Rightarrow> parameter_grid \<Rightarrow> strategy_params \<Rightarrow> string option \<Rightarrow> exn + strategy_params list" where
  "neighbours sq g p strategy =
     bindE (live_axes sq g strategy) (\<lambda>axes. Inr (snd (fold (axis_neighbours p) axes ([params_label p None], []))))"

subsection \<open>The entry gates\<close>

definition REGIME_ADX_FLOOR :: rat where
  "REGIME_ADX_FLOOR = 20"

definition VOLUME_LOOKBACK :: int where
  "VOLUME_LOOKBACK = 20"

definition regime_is_tradable :: "rat \<Rightarrow> nat \<Rightarrow> nat \<Rightarrow> bool" where
  "regime_is_tradable adx bars_count period = (if bars_count < period + 2 then False else REGIME_ADX_FLOOR \<le> adx)"

definition volume_confirms :: "rat list \<Rightarrow> int \<Rightarrow> int \<Rightarrow> bool" where
  "volume_confirms volumes index lookback =
     (if volumes = [] \<or> index < 0 \<or> int (length volumes) \<le> index then False
      else
        (let window = drop (nat (max 0 (index + 1 - lookback))) (take (nat (index + 1)) volumes) in
         if window = [] then False
         else sum_list window / of_nat (length window) < volumes ! nat index))"

definition apply_gates :: "ohlcv_bar list \<Rightarrow> string list \<Rightarrow> bool \<Rightarrow> bool \<Rightarrow> string list" where
  "apply_gates bars signals regime_gate volume_gate =
     (if \<not> (regime_gate \<or> volume_gate) \<or> bars = [] then signals
      else
        (let volumes = map ba_volume bars;
             adx = (if regime_gate then adx_series (map ba_high bars) (map ba_low bars) (map ba_close bars) ADX_PERIOD else [])
         in map (\<lambda>(i, signal).
              if signal \<noteq> ''BUY'' then signal
              else if regime_gate \<and> \<not> regime_is_tradable (adx ! i) (i + 1) ADX_PERIOD then ''HOLD''
              else if volume_gate \<and> \<not> volume_confirms volumes (int i) VOLUME_LOOKBACK then ''HOLD''
              else signal) (enumerate 0 signals)))"

subsection \<open>No look-ahead\<close>

text \<open>
  The contract of a rule that decides each bar from that bar and those before it. What a backtest of a prefix
  sees is then what a backtest of the whole series saw.
\<close>

locale causal_rule =
  fixes rule :: "ohlcv_bar list \<Rightarrow> 'v list"
  assumes per_bar: "length (rule bars) = length bars"
    and prefix: "rule (take n bars) = take n (rule bars)"
begin

lemma same_past: "take n bars = take n bars' \<Longrightarrow> take n (rule bars) = take n (rule bars')"
  by (metis prefix)

lemma at_bar: "i < length bars \<Longrightarrow> rule bars ! i = last (rule (take (Suc i) bars))"
  unfolding prefix using per_bar [of bars] by (simp add: take_Suc_nth)

end

lemma causal_map:
  assumes rule: "\<And>bars. rule bars = map (f bars) [0..<length bars]" and take: "\<And>n i bars. i < n \<Longrightarrow> f (take n bars) i = f bars i"
  shows "causal_rule rule"
proof
  fix bars n
  show "length (rule bars) = length bars" by (simp add: rule)
  show "rule (take n bars) = take n (rule bars)" unfolding rule by (rule nth_equalityI) (simp_all add: take)
qed

definition momentum_at :: "strategy_params \<Rightarrow> rat list \<Rightarrow> nat \<Rightarrow> string" where
  "momentum_at p closes i =
     (let seen = take (Suc i) closes; ema_fast = compute_ema seen (nat (sp_ema_fast p)); ema_slow = compute_ema seen (nat (sp_ema_slow p));
          rsi = compute_rsi seen 14; macd_hist = snd (snd (compute_macd seen 12 26 9)) in
      if int i + 1 < momentum_warmup p then ''HOLD''
      else if ema_slow < ema_fast \<and> sp_rsi_buy_min p < rsi \<and> rsi < sp_rsi_buy_max p \<and> sp_macd_hist_min p < macd_hist then ''BUY''
      else if ema_fast < ema_slow \<and> rsi_sell_min p < rsi \<and> rsi < rsi_sell_max p \<and> macd_hist < - sp_macd_hist_min p then ''SELL''
      else ''HOLD'')"

definition reversion_at :: "(rat \<Rightarrow> rat) \<Rightarrow> strategy_params \<Rightarrow> rat list \<Rightarrow> nat \<Rightarrow> string" where
  "reversion_at sq p closes i =
     (let seen = take (Suc i) closes; rsi = compute_rsi seen 14;
          (_, middle, band_low) = compute_bollinger sq seen (nat (sp_bb_period p)) (sp_bb_std p) in
      if int i + 1 < reversion_warmup p then ''HOLD''
      else if closes ! i < band_low \<and> rsi < sp_rsi_oversold p then ''BUY''
      else if middle < closes ! i \<or> sp_rsi_overbought p < rsi then ''SELL''
      else ''HOLD'')"

lemmas series_eqs = ema_series_eq rsi_series_eq macd_hist_series_eq bollinger_eq
lemmas series_consts = RSI_PERIOD_def MACD_FAST_def MACD_SLOW_def MACD_SIGNAL_def

lemma momentum_signals_eq:
  assumes "0 < sp_ema_fast p" and "0 < sp_ema_slow p"
  shows "momentum_signals bars p = map (momentum_at p (map ba_close bars)) [0..<length bars]"
  unfolding momentum_signals_def build_series_def Let_def momentum_at_def
  using assms by (intro map_cong refl) (simp add: series_eqs series_consts)

lemma reversion_signals_eq:
  "reversion_signals sq bars p = map (reversion_at sq p (map ba_close bars)) [0..<length bars]"
  unfolding reversion_signals_def Let_def reversion_at_def case_prod_unfold
  by (intro map_cong refl) (simp add: series_eqs series_consts)

lemma momentum_at_take: "i < n \<Longrightarrow> momentum_at p (take n closes) i = momentum_at p closes i"
  by (simp add: momentum_at_def min_absorb1 Suc_le_eq)

lemma reversion_at_take: "i < n \<Longrightarrow> reversion_at sq p (take n closes) i = reversion_at sq p closes i"
  by (simp add: reversion_at_def min_absorb1 Suc_le_eq case_prod_unfold Let_def)

text \<open>The gates bar by bar.\<close>

definition gate_at :: "bool \<Rightarrow> bool \<Rightarrow> ohlcv_bar list \<Rightarrow> nat \<Rightarrow> string \<Rightarrow> string" where
  "gate_at regime volume bars i signal =
     (let seen = take (Suc i) bars in
      if signal = ''BUY'' \<and>
         (regime \<and> \<not> regime_is_tradable (compute_adx (map ba_high seen) (map ba_low seen) (map ba_close seen) 14) (Suc i) 14 \<or>
          volume \<and> \<not> volume_confirms (map ba_volume seen) (int i) VOLUME_LOOKBACK)
      then ''HOLD'' else signal)"

lemma volume_confirms_take:
  "i < length vs \<Longrightarrow> volume_confirms (take (Suc i) vs) (int i) k = volume_confirms vs (int i) k"
  by (auto simp: volume_confirms_def Let_def nat_add_distrib)

lemma adx_at:
  "i < length bars \<Longrightarrow> adx_series (map ba_high bars) (map ba_low bars) (map ba_close bars) 14 ! i =
     compute_adx (map ba_high (take (Suc i) bars)) (map ba_low (take (Suc i) bars)) (map ba_close (take (Suc i) bars)) 14"
  by (simp add: adx_series_eq take_map)

lemma length_apply_gates [simp]: "length (apply_gates bars signals regime volume) = length signals"
  by (simp add: apply_gates_def Let_def)

lemma apply_gates_eq:
  assumes "length signals = length bars"
  shows "apply_gates bars signals regime volume = map (\<lambda>i. gate_at regime volume bars i (signals ! i)) [0..<length bars]"
proof (cases "\<not> (regime \<or> volume) \<or> bars = []")
  case True
  then show ?thesis using assms by (auto simp: apply_gates_def gate_at_def Let_def intro: nth_equalityI)
next
  case False
  show ?thesis
  proof (rule nth_equalityI)
    fix i assume "i < length (apply_gates bars signals regime volume)"
    then have i: "i < length bars" using assms by simp
    then show "apply_gates bars signals regime volume ! i = map (\<lambda>i. gate_at regime volume bars i (signals ! i)) [0..<length bars] ! i"
      using False assms volume_confirms_take [of i "map ba_volume bars" VOLUME_LOOKBACK]
      by (auto simp: apply_gates_def gate_at_def Let_def ADX_PERIOD_def adx_at nth_enumerate_eq take_map)
  qed (simp add: assms)
qed

lemma gate_at_take: "i < n \<Longrightarrow> gate_at r v (take n bars) i = gate_at r v bars i"
  by (rule ext) (simp add: gate_at_def min_absorb1 Suc_le_eq)


lemma momentum_causal:
  assumes "0 < sp_ema_fast p" and "0 < sp_ema_slow p"
  shows "causal_rule (\<lambda>bars. momentum_signals bars p)"
  by (rule causal_map [OF momentum_signals_eq [OF assms]]) (simp add: momentum_at_take flip: take_map)

interpretation reversion: causal_rule "\<lambda>bars. reversion_signals sq bars p" for sq p
  by (rule causal_map [OF reversion_signals_eq]) (simp add: reversion_at_take flip: take_map)

lemma gates_causal:
  assumes "causal_rule rule"
  shows "causal_rule (\<lambda>bars. apply_gates bars (rule bars) regime volume)"
proof (rule causal_map)
  show "apply_gates bars (rule bars) regime volume = map (\<lambda>i. gate_at regime volume bars i (rule bars ! i)) [0..<length bars]" for bars
    using causal_rule.per_bar [OF assms] by (simp add: apply_gates_eq)
  show "gate_at regime volume (take n bars) i (rule (take n bars) ! i) = gate_at regime volume bars i (rule bars ! i)" if "i < n" for n i bars
    using that by (simp add: gate_at_take causal_rule.prefix [OF assms])
qed

subsection \<open>Well-formed configurations\<close>

definition valid_params :: "strategy_params \<Rightarrow> bool" where
  "valid_params p = (params_in_range p \<and> sp_ema_fast p < sp_ema_slow p \<and> sp_rsi_buy_min p < sp_rsi_buy_max p \<and>
     sp_rsi_oversold p < sp_rsi_overbought p)"

lemma make_params_iff: "make_params p = Some q \<longleftrightarrow> q = p \<and> valid_params p"
  by (auto simp: make_params_def check_ordering_def valid_params_def not_le)

lemma valid_params_periods:
  assumes "valid_params p"
  shows "0 < sp_ema_fast p" "0 < sp_ema_slow p" "0 < sp_bb_period p"
  using assms by (auto simp: valid_params_def params_in_range_def)

lemma set_map_filter: "y \<in> set (List.map_filter f xs) \<longleftrightarrow> (\<exists>x \<in> set xs. f x = Some y)"
  by (auto simp: List.map_filter_def image_iff)

lemma combinations_valid:
  assumes "combinations sq g strategy = Inr ps" and "p \<in> set ps"
  shows "valid_params p"
  using assms by (auto simp: combinations_def bindE_Inr_iff set_map_filter params_of_def make_params_iff)

lemma get_strategy_cases:
  assumes "get_strategy sq name = Inr s"
  obtains "name = ''ema_rsi_macd''" "s = snd (hd (REGISTRY sq))" | "name = ''bollinger_reversion''" "s = snd (last (REGISTRY sq))"
  using assms by (auto simp: get_strategy_def REGISTRY_def split: option.splits if_splits)

lemma strategy_causal:
  assumes "get_strategy sq name = Inr s" and "valid_params p"
  shows "causal_rule (\<lambda>bars. sg_signals s bars p)"
  using assms(1)
  by (cases rule: get_strategy_cases)
    (simp_all add: REGISTRY_def momentum_causal valid_params_periods [OF assms(2)] reversion.causal_rule_axioms)

lemma signal_vocabulary:
  assumes "get_strategy sq name = Inr s" and "valid_params p" and "x \<in> set (sg_signals s bars p)"
  shows "x \<in> {''BUY'', ''SELL'', ''HOLD''}"
  using assms(1)
  by (cases rule: get_strategy_cases)
    (use assms(3) in \<open>auto simp: REGISTRY_def momentum_signals_eq [OF valid_params_periods(1,2) [OF assms(2)]] reversion_signals_eq
      momentum_at_def reversion_at_def Let_def case_prod_unfold split: if_splits\<close>)

lemma signal_warmup:
  assumes "get_strategy sq name = Inr s" and "valid_params p" and "int i + 1 < sg_warmup s p" and "i < length bars"
  shows "sg_signals s bars p ! i = ''HOLD''"
  using assms(1)
  by (cases rule: get_strategy_cases)
    (use assms(3,4) in \<open>auto simp: REGISTRY_def momentum_signals_eq [OF valid_params_periods(1,2) [OF assms(2)]] reversion_signals_eq
      momentum_at_def reversion_at_def Let_def\<close>)

text \<open>A configuration one step along an axis.\<close>

definition one_step :: "(string \<times> axis_value list) list \<Rightarrow> strategy_params \<Rightarrow> strategy_params \<Rightarrow> bool" where
  "one_step axes p q = (\<exists>(name, vs) \<in> set axes. \<exists>i j. i < length vs \<and> j < length vs \<and> (j = Suc i \<or> i = Suc j) \<and>
     vs ! i = get_param p name \<and> q = set_param name (vs ! j) p)"

definition neighbours_inv :: "(string \<times> axis_value list) list \<Rightarrow> strategy_params \<Rightarrow> string list \<times> strategy_params list \<Rightarrow> bool" where
  "neighbours_inv axes p st =
     (set (fst st) = insert (params_label p None) ((\<lambda>q. params_label q None) ` set (snd st)) \<and>
      distinct (map (\<lambda>q. params_label q None) (snd st)) \<and> params_label p None \<notin> (\<lambda>q. params_label q None) ` set (snd st) \<and>
      (\<forall>q \<in> set (snd st). valid_params q \<and> one_step axes p q))"

lemma try_neighbour_inv:
  assumes "neighbours_inv axes p st" and "(name, vs) \<in> set axes" and "i < length vs" and "vs ! i = get_param p name"
    and "k = int i + 1 \<or> k = int i - 1"
  shows "neighbours_inv axes p (try_neighbour p name vs k st)"
proof -
  obtain seen found where st: "st = (seen, found)" by (rule prod.exhaust)
  have step: "one_step axes p (set_param name (vs ! nat k) p)" if "0 \<le> k" "k < int (length vs)"
  proof -
    have "nat k < length vs" "nat k = Suc i \<or> i = Suc (nat k)" using that assms(5) by linarith+
    with assms(2-4) show ?thesis unfolding one_step_def by blast
  qed
  show ?thesis
    using assms(1) step by (auto simp: st try_neighbour_def neighbours_inv_def make_params_iff image_iff split: option.splits)
qed

lemma axis_neighbours_inv:
  assumes "neighbours_inv axes p st" and "axis \<in> set axes"
  shows "neighbours_inv axes p (axis_neighbours p axis st)"
proof -
  obtain name vs where axis: "axis = (name, vs)" by (rule prod.exhaust)
  define i where "i = length (takeWhile (\<lambda>v. v \<noteq> get_param p name) vs)"
  have i: "i < length vs" "vs ! i = get_param p name" if "get_param p name \<in> set vs"
  proof -
    from that show "i < length vs" unfolding i_def by (induction vs) auto
    then show "vs ! i = get_param p name" unfolding i_def using nth_length_takeWhile by fastforce
  qed
  show ?thesis
    unfolding axis axis_neighbours_def Let_def prod.case i_def [symmetric]
    using assms i by (auto simp: axis intro!: try_neighbour_inv)
qed

lemma neighbours_fold_inv:
  "set xs \<subseteq> set axes \<Longrightarrow> neighbours_inv axes p st \<Longrightarrow> neighbours_inv axes p (fold (axis_neighbours p) xs st)"
proof (induction xs arbitrary: st)
  case (Cons axis xs)
  then show ?case using axis_neighbours_inv [of axes p st axis] by simp
qed simp

lemma neighbours_ok:
  assumes "live_axes sq g strategy = Inr axes" and "neighbours sq g p strategy = Inr qs"
  shows "neighbours_inv axes p (fst (fold (axis_neighbours p) axes ([params_label p None], [])), qs)"
  using neighbours_fold_inv [of axes axes p "([params_label p None], [])"] assms
  by (auto simp: neighbours_def neighbours_inv_def)


subsection \<open>Properties\<close>

text \<open>
  C38: The search only tries well-formed configurations. Every configuration the grid yields and every neighbour
  it proposes passes the validation of \<open>StrategyParams\<close> (every field in its range, the fast average below the
  slow one, both RSI bands non-empty); the neighbours of a configuration are each one grid step away in one axis,
  are told apart by their labels, and none carries the label of the configuration itself.
\<close>

theorem search_space_well_formed:
  assumes "combinations sq g strategy = Inr ps" and "live_axes sq g strategy = Inr axes" and "neighbours sq g p strategy = Inr qs"
  shows "(\<forall>q \<in> set ps. make_params q = Some q) \<and> (\<forall>q \<in> set qs. make_params q = Some q \<and> one_step axes p q) \<and>
    distinct (map (\<lambda>q. params_label q None) (p # qs))"
  using combinations_valid [OF assms(1)] neighbours_ok [OF assms(2,3)]
  by (auto simp: make_params_iff neighbours_inv_def)

definition witness_grid :: parameter_grid where
  "witness_grid = default_grid\<lparr>pg_ema_fast := [10, 60], pg_ema_slow := [40, 50], pg_rsi_buy_min := [45], pg_rsi_buy_max := [70]\<rparr>"

theorem search_space_well_formed_witness:
  "combinations id witness_grid (Some ''ema_rsi_macd'') =
     Inr [default_params\<lparr>sp_ema_fast := 10, sp_ema_slow := 40, sp_bb_period := 10, sp_bb_std := 3 / 2, sp_rsi_oversold := 25\<rparr>,
          default_params\<lparr>sp_ema_fast := 10, sp_bb_period := 10, sp_bb_std := 3 / 2, sp_rsi_oversold := 25\<rparr>] \<and>
   neighbours id witness_grid (default_params\<lparr>sp_ema_fast := 10\<rparr>) (Some ''ema_rsi_macd'') =
     Inr [default_params\<lparr>sp_ema_fast := 10, sp_ema_slow := 40\<rparr>] \<and>
   make_params (default_params\<lparr>sp_ema_fast := 10, sp_ema_slow := 40\<rparr>) = Some (default_params\<lparr>sp_ema_fast := 10, sp_ema_slow := 40\<rparr>)"
proof -
  have c: "combinations id witness_grid (Some ''ema_rsi_macd'') =
     Inr [default_params\<lparr>sp_ema_fast := 10, sp_ema_slow := 40, sp_bb_period := 10, sp_bb_std := 3 / 2, sp_rsi_oversold := 25\<rparr>,
          default_params\<lparr>sp_ema_fast := 10, sp_bb_period := 10, sp_bb_std := 3 / 2, sp_rsi_oversold := 25\<rparr>]" by code_simp
  have n: "neighbours id witness_grid (default_params\<lparr>sp_ema_fast := 10\<rparr>) (Some ''ema_rsi_macd'') =
     Inr [default_params\<lparr>sp_ema_fast := 10, sp_ema_slow := 40\<rparr>]" by code_simp
  obtain axes where a: "live_axes id witness_grid (Some ''ema_rsi_macd'') = Inr axes"
    using n by (auto simp: neighbours_def bindE_Inr_iff)
  show ?thesis using search_space_well_formed [OF c a n] c n by simp
qed

text \<open>
  The entry gates only take entries away. A gated series keeps every SELL and HOLD; a BUY survives exactly
  when the rule gave it and each gate that is on agrees, judged on the bars up to that one alone: the regime gate
  needs a directional index that is measurable (16 bars) and at least 20 as the live indicator computes it, the
  volume gate a volume above the trailing average.
\<close>

theorem gates_only_remove_entries:
  assumes "length signals = length bars" and "i < length bars"
  shows "(apply_gates bars signals regime volume ! i = ''BUY'' \<longleftrightarrow>
      signals ! i = ''BUY'' \<and>
      (regime \<longrightarrow> 16 \<le> Suc i \<and> 20 \<le> compute_adx (map ba_high (take (Suc i) bars)) (map ba_low (take (Suc i) bars)) (map ba_close (take (Suc i) bars)) 14) \<and>
      (volume \<longrightarrow> volume_confirms (map ba_volume (take (Suc i) bars)) (int i) 20)) \<and>
    (signals ! i \<noteq> ''BUY'' \<longrightarrow> apply_gates bars signals regime volume ! i = signals ! i) \<and>
    apply_gates bars signals regime volume ! i \<in> {signals ! i, ''HOLD''}"
  using assms by (auto simp: apply_gates_eq gate_at_def Let_def regime_is_tradable_def REGIME_ADX_FLOOR_def VOLUME_LOOKBACK_def not_less)

definition witness_bar :: "rat \<Rightarrow> rat \<Rightarrow> ohlcv_bar" where
  "witness_bar px vol = \<lparr>ba_symbol = ''AAPL'', ba_timestamp = 0, ba_open = px, ba_high = px, ba_low = px, ba_close = px, ba_volume = vol\<rparr>"

theorem gates_only_remove_entries_witness:
  "apply_gates [witness_bar 10 5, witness_bar 11 9] [''SELL'', ''BUY''] False True ! 1 = ''BUY'' \<and>
   apply_gates [witness_bar 10 5, witness_bar 11 9] [''SELL'', ''BUY''] True True ! 1 \<noteq> ''BUY''"
proof -
  let ?bars = "[witness_bar 10 5, witness_bar 11 9]"
  have "volume_confirms (map ba_volume ?bars) 1 20" by code_simp
  then show ?thesis
    using gates_only_remove_entries [of "[''SELL'', ''BUY'']" ?bars 1 False True] gates_only_remove_entries [of "[''SELL'', ''BUY'']" ?bars 1 True True]
    by simp
qed


end
