(* ===== verification/Backtest_Engine.thy ===== *)
theory Backtest_Engine
  imports Strategies
begin

text \<open>
  \<open>services/backtest-service/src/backtest_service/engine.py\<close>: the simulation of one rule over a series of bars and
  the figures reported from it. The local variables of \<open>_simulate\<close> are the fields of \<open>simulation\<close>, one iteration
  of its loop is \<open>sim_step\<close>. The trading session of a moment (the time-zone database) is the argument \<open>session\<close>,
  the square root the argument \<open>sq\<close>. The theorems: a run never spends money it does not have, its books balance to
  the cent per trade, it never looks ahead, and raising the costs never raises the result.
\<close>

subsection \<open>Requests and results\<close>

definition US_SESSION_MINUTES :: rat where
  "US_SESSION_MINUTES = 390"

definition TRADING_DAYS_PER_YEAR :: rat where
  "TRADING_DAYS_PER_YEAR = 252"

definition MIN_WARMUP_BARS :: int where
  "MIN_WARMUP_BARS = 51"

record backtest_request =
  br_symbol :: string
  br_strategy :: string
  br_period_days :: int
  br_initial_capital :: rat
  br_risk_per_trade_pct :: rat
  br_atr_stop_multiplier :: rat
  br_params :: strategy_params
  br_timeframe :: string
  br_intraday_minutes :: int
  br_commission_pct :: rat
  br_spread_bps :: rat
  br_slippage_bps :: rat
  br_regime_gate :: bool
  br_volume_gate :: bool

definition request_in_range :: "backtest_request \<Rightarrow> bool" where
  "request_in_range r =
     (1 \<le> br_period_days r \<and> br_period_days r \<le> 730 \<and> 0 < br_initial_capital r \<and>
      0 < br_risk_per_trade_pct r \<and> br_risk_per_trade_pct r \<le> 1 / 20 \<and> 0 < br_atr_stop_multiplier r \<and>
      valid_params (br_params r) \<and> br_timeframe r \<in> {''daily'', ''intraday''} \<and>
      1 \<le> br_intraday_minutes r \<and> br_intraday_minutes r \<le> 390 \<and>
      0 \<le> br_commission_pct r \<and> 0 \<le> br_spread_bps r \<and> 0 \<le> br_slippage_bps r)"

definition is_intraday :: "backtest_request \<Rightarrow> bool" where
  "is_intraday r = (br_timeframe r = ''intraday'')"

definition periods_per_year :: "backtest_request \<Rightarrow> rat" where
  "periods_per_year r =
     (if br_timeframe r \<noteq> ''intraday'' then TRADING_DAYS_PER_YEAR
      else TRADING_DAYS_PER_YEAR * (US_SESSION_MINUTES / of_int (br_intraday_minutes r)))"

definition cost_per_side_pct :: "backtest_request \<Rightarrow> rat" where
  "cost_per_side_pct r = br_commission_pct r + (br_spread_bps r / 2 + br_slippage_bps r) / 10000"

record trade_record =
  bt_entry_date :: instant
  bt_exit_date :: instant
  bt_symbol :: string
  bt_action :: string
  bt_entry_price :: rat
  bt_exit_price :: rat
  bt_pnl :: rat
  bt_pnl_pct :: rat
  bt_costs :: rat
  bt_exit_reason :: string
  bt_same_day :: bool

subsection \<open>The bar size\<close>

definition infer_bar_minutes :: "ohlcv_bar list \<Rightarrow> rat option" where
  "infer_bar_minutes bars =
     (if length bars < 3 then None
      else
        (let gaps = sort (map (\<lambda>i. total_seconds (ba_timestamp (bars ! i) - ba_timestamp (bars ! (i - 1))) / 60) [1..<length bars]);
             median = gaps ! (length gaps div 2)
         in if 0 < median then Some median else None))"

definition periods_per_year_for :: "backtest_request \<Rightarrow> ohlcv_bar list \<Rightarrow> rat" where
  "periods_per_year_for r bars =
     (if \<not> is_intraday r then periods_per_year r
      else (case infer_bar_minutes bars of
              None \<Rightarrow> periods_per_year r
            | Some observed \<Rightarrow> TRADING_DAYS_PER_YEAR * (US_SESSION_MINUTES / observed)))"

subsection \<open>Signals\<close>

definition compute_signals :: "(rat \<Rightarrow> rat) \<Rightarrow> ohlcv_bar list \<Rightarrow> backtest_request \<Rightarrow> exn + string list" where
  "compute_signals sq bars r =
     bindE (get_strategy sq (br_strategy r)) (\<lambda>s.
       Inr (apply_gates bars (sg_signals s bars (br_params r)) (br_regime_gate r) (br_volume_gate r)))"

definition warmup_for :: "(rat \<Rightarrow> rat) \<Rightarrow> backtest_request \<Rightarrow> exn + int" where
  "warmup_for sq r = bindE (get_strategy sq (br_strategy r)) (\<lambda>s. Inr (sg_warmup s (br_params r)))"

subsection \<open>The simulation\<close>

record simulation =
  sm_equity :: rat
  sm_position :: rat
  sm_entry_price :: rat
  sm_entry_cost :: rat
  sm_entry_stamp :: "instant option"
  sm_stop_price :: rat
  sm_trades :: "trade_record list"
  sm_curve :: "rat list"
  sm_costs :: rat

definition sim_start :: "backtest_request \<Rightarrow> simulation" where
  "sim_start r = \<lparr>sm_equity = br_initial_capital r, sm_position = 0, sm_entry_price = 0, sm_entry_cost = 0, sm_entry_stamp = None,
     sm_stop_price = 0, sm_trades = [], sm_curve = [br_initial_capital r], sm_costs = 0\<rparr>"

definition sim_mark :: "ohlcv_bar \<Rightarrow> simulation \<Rightarrow> simulation" where
  "sim_mark next_bar st = st\<lparr>sm_curve := sm_curve st @ [sm_equity st + sm_position st * ba_open next_bar]\<rparr>"

definition bar_atr :: "ohlcv_bar list \<Rightarrow> rat" where
  "bar_atr slice = compute_atr (map ba_high slice) (map ba_low slice) (map ba_close slice) 14"

definition sim_enter :: "backtest_request \<Rightarrow> rat \<Rightarrow> ohlcv_bar list \<Rightarrow> nat \<Rightarrow> simulation \<Rightarrow> simulation" where
  "sim_enter r cost_per_side bars i st =
     (let quote = ba_open (bars ! (i + 1));
          stop_distance = bar_atr (take (i + 1) bars) * br_atr_stop_multiplier r
      in if quote \<le> 0 \<or> stop_distance \<le> 0 then st\<lparr>sm_curve := sm_curve st @ [sm_equity st]\<rparr>
         else
           (let wanted = (sm_equity st * br_risk_per_trade_pct r) / stop_distance;
                fill = quote * (1 + cost_per_side);
                shares = (if sm_equity st < wanted * fill then sm_equity st / fill else wanted)
            in if shares \<le> 0 then st\<lparr>sm_curve := sm_curve st @ [sm_equity st]\<rparr>
               else
                 (let cost = shares * quote * cost_per_side in
                  sim_mark (bars ! (i + 1)) (st\<lparr>sm_costs := sm_costs st + cost, sm_equity := sm_equity st - shares * fill,
                    sm_position := shares, sm_entry_price := quote, sm_entry_cost := cost,
                    sm_entry_stamp := Some (ba_timestamp (bars ! (i + 1))), sm_stop_price := quote - stop_distance\<rparr>))))"

text \<open>The record of a round trip closed at \<open>quote\<close>; \<open>bar_stamp\<close> stands in for a missing entry moment.\<close>

definition close_record :: "(instant \<Rightarrow> int) \<Rightarrow> backtest_request \<Rightarrow> rat \<Rightarrow> rat \<Rightarrow> instant \<Rightarrow> instant \<Rightarrow> string \<Rightarrow> simulation \<Rightarrow> trade_record" where
  "close_record session r cost_per_side quote exit_stamp bar_stamp reason st =
     (let cost = sm_position st * quote * cost_per_side;
          proceeds = sm_position st * (quote * (1 - cost_per_side));
          gross_entry = sm_position st * sm_entry_price st;
          pnl = proceeds - (gross_entry + sm_entry_cost st)
      in \<lparr>bt_entry_date = (case sm_entry_stamp st of Some t \<Rightarrow> t | None \<Rightarrow> bar_stamp), bt_exit_date = exit_stamp,
          bt_symbol = br_symbol r, bt_action = ''BUY_SELL'', bt_entry_price = py_round 4 (sm_entry_price st),
          bt_exit_price = py_round 4 quote, bt_pnl = py_round 2 pnl,
          bt_pnl_pct = py_round 4 ((quote - sm_entry_price st) / sm_entry_price st),
          bt_costs = py_round 2 (sm_entry_cost st + cost), bt_exit_reason = reason,
          bt_same_day = (case sm_entry_stamp st of Some t \<Rightarrow> session t = session exit_stamp | None \<Rightarrow> False)\<rparr>)"

definition sim_exit :: "(instant \<Rightarrow> int) \<Rightarrow> backtest_request \<Rightarrow> rat \<Rightarrow> rat \<Rightarrow> instant \<Rightarrow> instant \<Rightarrow> string \<Rightarrow> simulation \<Rightarrow> simulation" where
  "sim_exit session r cost_per_side quote exit_stamp bar_stamp reason st =
     st\<lparr>sm_costs := sm_costs st + sm_position st * quote * cost_per_side,
        sm_equity := sm_equity st + sm_position st * (quote * (1 - cost_per_side)),
        sm_trades := sm_trades st @ [close_record session r cost_per_side quote exit_stamp bar_stamp reason st],
        sm_position := 0, sm_entry_price := 0, sm_entry_cost := 0, sm_entry_stamp := None, sm_stop_price := 0\<rparr>"

definition sim_step :: "(instant \<Rightarrow> int) \<Rightarrow> backtest_request \<Rightarrow> rat \<Rightarrow> ohlcv_bar list \<Rightarrow> string list \<Rightarrow> nat \<Rightarrow> simulation \<Rightarrow> simulation" where
  "sim_step session r cost_per_side bars signals i st =
     (let bar = bars ! i; next_bar = bars ! (i + 1); signal = signals ! i in
      if sm_position st = 0 then
        (if signal = ''BUY'' then sim_enter r cost_per_side bars i st else sim_mark next_bar st)
      else if ba_low bar \<le> sm_stop_price st then
        sim_mark next_bar (sim_exit session r cost_per_side (min (sm_stop_price st) (ba_open bar)) (ba_timestamp bar) (ba_timestamp bar) ''stop'' st)
      else if signal = ''SELL'' then
        sim_mark next_bar (sim_exit session r cost_per_side (ba_open next_bar) (ba_timestamp next_bar) (ba_timestamp bar) ''signal'' st)
      else sim_mark next_bar st)"

definition sim_loop :: "(instant \<Rightarrow> int) \<Rightarrow> backtest_request \<Rightarrow> rat \<Rightarrow> ohlcv_bar list \<Rightarrow> string list \<Rightarrow> nat \<Rightarrow> simulation" where
  "sim_loop session r cost_per_side bars signals start_index =
     fold (sim_step session r cost_per_side bars signals) [start_index..<length bars - 1] (sim_start r)"

text \<open>Closing what is still open at the last bar, after the loop.\<close>

definition sim_finish :: "(instant \<Rightarrow> int) \<Rightarrow> backtest_request \<Rightarrow> rat \<Rightarrow> ohlcv_bar list \<Rightarrow> simulation \<Rightarrow> simulation" where
  "sim_finish session r cost_per_side bars st =
     (if 0 < sm_position st then
        (let final = last bars; quote = ba_close final; equity = sm_equity st + sm_position st * quote * (1 - cost_per_side) in
         st\<lparr>sm_costs := sm_costs st + sm_position st * quote * cost_per_side, sm_equity := equity,
            sm_trades := sm_trades st @
              [close_record session r cost_per_side quote (ba_timestamp final) (ba_timestamp final) ''end_of_data'' st],
            sm_curve := sm_curve st @ [equity]\<rparr>)
      else st)"

definition simulate :: "(instant \<Rightarrow> int) \<Rightarrow> backtest_request \<Rightarrow> ohlcv_bar list \<Rightarrow> string list \<Rightarrow> rat \<Rightarrow> nat \<Rightarrow> simulation" where
  "simulate session r bars signals cost_per_side start_index =
     sim_finish session r cost_per_side bars (sim_loop session r cost_per_side bars signals start_index)"

subsection \<open>Figures\<close>

definition max_day_trades_in_window :: "(instant \<Rightarrow> int) \<Rightarrow> trade_record list \<Rightarrow> ohlcv_bar list \<Rightarrow> nat \<Rightarrow> nat" where
  "max_day_trades_in_window session trades bars window =
     (let dates = map (\<lambda>t. session (bt_exit_date t)) (filter bt_same_day trades) in
      if dates = [] then 0
      else
        (let sessions = sort (remdups (map (\<lambda>b. session (ba_timestamp b)) bars)) in
         fold (\<lambda>index peak.
             (let span = drop (index + 1 - window) (take (index + 1) sessions)
              in max peak (sum_list (map (\<lambda>d. count_list dates d) span)))) [0..<length sessions] 0))"

definition curve_returns :: "rat list \<Rightarrow> rat list" where
  "curve_returns curve =
     map (\<lambda>i. (curve ! i - curve ! (i - 1)) / curve ! (i - 1)) (filter (\<lambda>i. 0 < curve ! (i - 1)) [1..<length curve])"

definition compute_sharpe :: "(rat \<Rightarrow> rat) \<Rightarrow> rat list \<Rightarrow> rat \<Rightarrow> rat" where
  "compute_sharpe sq curve periods =
     (if length curve < 2 then 0
      else
        (let returns = curve_returns curve in
         if returns = [] then 0
         else
           (let n = of_nat (length returns); mean = sum_list returns / n;
                variance = sum_list (map (\<lambda>x. (x - mean) ^ 2) returns) / n; std = sq variance
            in if std = 0 then 0 else mean / std * sq periods)))"

definition PROFIT_FACTOR_NO_LOSSES :: rat where
  "PROFIT_FACTOR_NO_LOSSES = 99999 / 100"

definition bt_profit_factor :: "trade_record list \<Rightarrow> rat" where
  "bt_profit_factor trades =
     (let gains = sum_list (map bt_pnl (filter (\<lambda>t. 0 < bt_pnl t) trades));
          losses = - sum_list (map bt_pnl (filter (\<lambda>t. bt_pnl t < 0) trades))
      in if losses \<le> 0 then (if 0 < gains then PROFIT_FACTOR_NO_LOSSES else 0)
         else min (gains / losses) PROFIT_FACTOR_NO_LOSSES)"

definition drawdown_step :: "rat \<Rightarrow> rat \<times> rat \<Rightarrow> rat \<times> rat" where
  "drawdown_step v st =
     (case st of (peak, worst) \<Rightarrow>
        (let peak' = max peak v in (peak', if 0 < peak' then max worst ((peak' - v) / peak') else worst)))"

definition bt_max_drawdown :: "rat list \<Rightarrow> rat" where
  "bt_max_drawdown curve = snd (fold drawdown_step curve (if curve = [] then 0 else hd curve, 0))"

record backtest_result =
  re_symbol :: string
  re_strategy :: string
  re_period_days :: int
  re_timeframe :: string
  re_intraday_minutes :: int
  re_bars_count :: nat
  re_initial_capital :: rat
  re_final_value :: rat
  re_total_return_pct :: rat
  re_gross_return_pct :: rat
  re_total_costs :: rat
  re_max_drawdown_pct :: rat
  re_sharpe_ratio :: rat
  re_total_trades :: nat
  re_win_rate :: rat
  re_profit_factor :: rat
  re_avg_trade_pnl :: rat
  re_day_trades :: nat
  re_max_day_trades :: nat
  re_trades :: "trade_record list"

text \<open>The report on a run at the request's costs and a second run at none.\<close>

definition backtest_report :: "(rat \<Rightarrow> rat) \<Rightarrow> (instant \<Rightarrow> int) \<Rightarrow> backtest_request \<Rightarrow> ohlcv_bar list \<Rightarrow> simulation \<Rightarrow> simulation \<Rightarrow> backtest_result" where
  "backtest_report sq session r bars result gross =
     (let capital = br_initial_capital r; trades = sm_trades result; n = of_nat (length trades)
      in \<lparr>re_symbol = br_symbol r, re_strategy = br_strategy r, re_period_days = br_period_days r, re_timeframe = br_timeframe r,
          re_intraday_minutes = (case infer_bar_minutes bars of
              Some observed \<Rightarrow> if is_intraday r then round_half_even observed else br_intraday_minutes r
            | None \<Rightarrow> br_intraday_minutes r),
          re_bars_count = length bars, re_initial_capital = capital, re_final_value = py_round 2 (sm_equity result),
          re_total_return_pct = py_round 4 ((sm_equity result - capital) / capital),
          re_gross_return_pct = py_round 4 ((sm_equity gross - capital) / capital),
          re_total_costs = py_round 2 (sm_costs result),
          re_max_drawdown_pct = py_round 4 (bt_max_drawdown (sm_curve result)),
          re_sharpe_ratio = py_round 4 (compute_sharpe sq (sm_curve result) (periods_per_year_for r bars)),
          re_total_trades = length trades,
          re_win_rate = (if trades = [] then 0 else py_round 4 (of_nat (length (filter (\<lambda>t. 0 < bt_pnl t) trades)) / n)),
          re_profit_factor = py_round 4 (bt_profit_factor trades),
          re_avg_trade_pnl = (if trades = [] then 0 else py_round 2 (sum_list (map bt_pnl trades) / n)),
          re_day_trades = length (filter bt_same_day trades),
          re_max_day_trades = max_day_trades_in_window session trades bars 5,
          re_trades = trades\<rparr>)"

definition run_backtest :: "(rat \<Rightarrow> rat) \<Rightarrow> (instant \<Rightarrow> int) \<Rightarrow> backtest_request \<Rightarrow> ohlcv_bar list \<Rightarrow> exn + backtest_result" where
  "run_backtest sq session r bars =
     bindE (warmup_for sq r) (\<lambda>warmup.
       if int (length bars) < warmup + 1
       then Inl (ValueError [S ''Need at least '', I (warmup + 1), S '' bars for indicator warm-up, got '', I (int (length bars))])
       else bindE (compute_signals sq bars r) (\<lambda>signals.
         Inr (backtest_report sq session r bars (simulate session r bars signals (cost_per_side_pct r) 0) (simulate session r bars signals 0 0))))"

subsection \<open>The cost ladder\<close>

record cost_scenario =
  cn_spread_bps :: rat
  cn_commission_pct :: rat
  cn_total_return_pct :: rat
  cn_sharpe_ratio :: rat
  cn_profit_factor :: rat
  cn_total_trades :: nat
  cn_total_costs :: rat

record cost_sensitivity_result =
  cv_symbol :: string
  cv_timeframe :: string
  cv_gross_return_pct :: rat
  cv_scenarios :: "cost_scenario list"
  cv_breakeven_spread_bps :: "rat option"

definition spread_return :: "(instant \<Rightarrow> int) \<Rightarrow> backtest_request \<Rightarrow> ohlcv_bar list \<Rightarrow> string list \<Rightarrow> rat \<Rightarrow> rat" where
  "spread_return session r bars signals spread =
     (let variant = r\<lparr>br_spread_bps := spread\<rparr>; result = simulate session variant bars signals (cost_per_side_pct variant) 0
      in (sm_equity result - br_initial_capital r) / br_initial_capital r)"

definition spread_scenario :: "(rat \<Rightarrow> rat) \<Rightarrow> (instant \<Rightarrow> int) \<Rightarrow> backtest_request \<Rightarrow> ohlcv_bar list \<Rightarrow> string list \<Rightarrow> rat \<Rightarrow> cost_scenario" where
  "spread_scenario sq session r bars signals spread =
     (let variant = r\<lparr>br_spread_bps := spread\<rparr>; result = simulate session variant bars signals (cost_per_side_pct variant) 0
      in \<lparr>cn_spread_bps = spread, cn_commission_pct = br_commission_pct variant,
          cn_total_return_pct = py_round 4 (spread_return session r bars signals spread),
          cn_sharpe_ratio = py_round 4 (compute_sharpe sq (sm_curve result) (periods_per_year_for variant bars)),
          cn_profit_factor = py_round 4 (bt_profit_factor (sm_trades result)), cn_total_trades = length (sm_trades result),
          cn_total_costs = py_round 2 (sm_costs result)\<rparr>)"

definition DEFAULT_SPREADS :: "rat list" where
  "DEFAULT_SPREADS = [0, 1, 2, 5, 10, 20, 50]"

definition run_cost_sensitivity :: "(rat \<Rightarrow> rat) \<Rightarrow> (instant \<Rightarrow> int) \<Rightarrow> backtest_request \<Rightarrow> ohlcv_bar list \<Rightarrow> rat list option \<Rightarrow>
    exn + cost_sensitivity_result" where
  "run_cost_sensitivity sq session r bars spreads_bps =
     (let ladder = (case spreads_bps of None \<Rightarrow> DEFAULT_SPREADS | Some xs \<Rightarrow> xs) in
      bindE (compute_signals sq bars r) (\<lambda>signals.
        let gross = simulate session r bars signals 0 0; capital = br_initial_capital r in
        Inr \<lparr>cv_symbol = br_symbol r, cv_timeframe = br_timeframe r,
          cv_gross_return_pct = py_round 4 ((sm_equity gross - capital) / capital),
          cv_scenarios = map (spread_scenario sq session r bars signals) (sort ladder),
          cv_breakeven_spread_bps =
            fold (\<lambda>spread breakeven. if 0 < spread_return session r bars signals spread then Some spread else breakeven) (sort ladder) None\<rparr>))"

subsection \<open>Solvency and accounting\<close>

definition priced_bars :: "ohlcv_bar list \<Rightarrow> bool" where
  "priced_bars bars = (\<forall>b \<in> set bars. 0 \<le> ba_open b \<and> 0 \<le> ba_low b \<and> 0 \<le> ba_close b)"

text \<open>The cash and the shares are never negative, and the booked profits and costs add up to within half a cent per trade.\<close>

definition books_balance :: "rat \<Rightarrow> simulation \<Rightarrow> bool" where
  "books_balance capital st =
     (\<bar>sm_equity st + sm_position st * sm_entry_price st + sm_entry_cost st - capital - sum_list (map bt_pnl (sm_trades st))\<bar>
        \<le> of_nat (length (sm_trades st)) / 200 \<and>
      \<bar>sm_costs st - sm_entry_cost st - sum_list (map bt_costs (sm_trades st))\<bar> \<le> of_nat (length (sm_trades st)) / 200)"

definition solvent :: "simulation \<Rightarrow> bool" where
  "solvent st = (0 \<le> sm_equity st \<and> 0 \<le> sm_position st \<and> 0 \<le> sm_entry_cost st \<and> sm_entry_cost st \<le> sm_costs st \<and> (\<forall>v \<in> set (sm_curve st). 0 \<le> v) \<and>
     (sm_position st = 0 \<longrightarrow> sm_entry_cost st = 0 \<and> sm_entry_price st = 0))"

lemma py_round_close: "\<bar>py_round n x - x\<bar> \<le> 1 / (2 * 10 ^ n)"
proof -
  have "py_round n x - x = (of_int (round_half_even (x * 10 ^ n)) - x * 10 ^ n) / 10 ^ n" by (simp add: py_round_def field_simps)
  then have "\<bar>py_round n x - x\<bar> = \<bar>of_int (round_half_even (x * 10 ^ n)) - x * 10 ^ n\<bar> / 10 ^ n" by (simp only: abs_divide) simp
  also have "\<dots> \<le> (1 / 2) / 10 ^ n" by (intro divide_right_mono round_half_even_close) simp
  finally show ?thesis by simp
qed

lemma cents_close: "\<bar>py_round 2 x - x\<bar> \<le> 1 / 200"
  using py_round_close [of 2 x] by simp

lemma rounding_adds: "\<bar>x - s\<bar> \<le> of_nat n / 200 \<Longrightarrow> \<bar>x + y - (s + py_round 2 y)\<bar> \<le> of_nat (Suc n) / 200"
  using cents_close [of y] unfolding of_nat_Suc add_divide_distrib by linarith

lemma sim_mark_simps [simp]:
  "sm_equity (sim_mark b st) = sm_equity st" "sm_position (sim_mark b st) = sm_position st" "sm_costs (sim_mark b st) = sm_costs st"
  "sm_entry_price (sim_mark b st) = sm_entry_price st" "sm_entry_cost (sim_mark b st) = sm_entry_cost st"
  "sm_trades (sim_mark b st) = sm_trades st" "sm_curve (sim_mark b st) = sm_curve st @ [sm_equity st + sm_position st * ba_open b]"
  "sm_stop_price (sim_mark b st) = sm_stop_price st" "sm_entry_stamp (sim_mark b st) = sm_entry_stamp st"
  by (simp_all add: sim_mark_def)

lemma solvent_mark: "solvent st \<Longrightarrow> 0 \<le> ba_open b \<Longrightarrow> solvent (sim_mark b st)"
  by (auto simp: solvent_def)

lemma balance_mark [simp]: "books_balance k (sim_mark b st) = books_balance k st"
  by (simp add: books_balance_def)

lemma solvent_exit:
  assumes "solvent st" and "0 \<le> quote" and "0 \<le> c" and "c \<le> 1"
  shows "solvent (sim_exit session r c quote t u why st)"
proof -
  have "0 \<le> sm_position st * quote * c" "0 \<le> sm_position st * (quote * (1 - c))" using assms by (simp_all add: solvent_def)
  with assms(1) show ?thesis by (auto simp: solvent_def sim_exit_def)
qed

lemma balance_close:
  assumes "books_balance k st" and st': "sm_trades st' = sm_trades st @ [close_record session r c quote t u why st]"
    "sm_equity st' = sm_equity st + sm_position st * (quote * (1 - c))" "sm_costs st' = sm_costs st + sm_position st * quote * c"
  shows "\<bar>sm_equity st' - k - sum_list (map bt_pnl (sm_trades st'))\<bar> \<le> of_nat (length (sm_trades st')) / 200"
    "\<bar>sm_costs st' - sum_list (map bt_costs (sm_trades st'))\<bar> \<le> of_nat (length (sm_trades st')) / 200"
proof -
  define pnl where "pnl = sm_position st * (quote * (1 - c)) - (sm_position st * sm_entry_price st + sm_entry_cost st)"
  define cost where "cost = sm_entry_cost st + sm_position st * quote * c"
  define held where "held = sm_equity st + sm_position st * sm_entry_price st + sm_entry_cost st - k"
  have eq: "sm_equity st' - k = held + pnl" "sm_costs st' = (sm_costs st - sm_entry_cost st) + cost" by (simp_all add: st' held_def pnl_def cost_def)
  have rec: "bt_pnl (close_record session r c quote t u why st) = py_round 2 pnl" "bt_costs (close_record session r c quote t u why st) = py_round 2 cost"
    by (simp_all add: close_record_def pnl_def cost_def Let_def)
  have b: "\<bar>held - sum_list (map bt_pnl (sm_trades st))\<bar> \<le> of_nat (length (sm_trades st)) / 200"
    "\<bar>(sm_costs st - sm_entry_cost st) - sum_list (map bt_costs (sm_trades st))\<bar> \<le> of_nat (length (sm_trades st)) / 200"
    using assms(1) by (simp_all add: books_balance_def held_def)
  show "\<bar>sm_equity st' - k - sum_list (map bt_pnl (sm_trades st'))\<bar> \<le> of_nat (length (sm_trades st')) / 200"
    unfolding eq using rounding_adds [OF b(1), of pnl] by (simp add: st'(1) rec)
  show "\<bar>sm_costs st' - sum_list (map bt_costs (sm_trades st'))\<bar> \<le> of_nat (length (sm_trades st')) / 200"
    unfolding eq using rounding_adds [OF b(2), of cost] by (simp add: st'(1) rec)
qed

lemma balance_exit: "books_balance k st \<Longrightarrow> books_balance k (sim_exit session r c quote t u why st)"
  using balance_close [of k st "sim_exit session r c quote t u why st" session r c quote t u why] by (simp add: books_balance_def sim_exit_def)


text \<open>The number of shares an entry buys, when it buys any: the risk-sized amount or what the cash pays for.\<close>

definition entry_shares :: "backtest_request \<Rightarrow> rat \<Rightarrow> rat \<Rightarrow> rat \<Rightarrow> rat \<Rightarrow> rat" where
  "entry_shares r c equity quote stop_distance = equity * min (br_risk_per_trade_pct r / stop_distance) (1 / (quote * (1 + c)))"

lemma entry_shares_eq:
  assumes "0 \<le> equity" and "0 < quote" and "0 \<le> c"
  shows "(let wanted = (equity * br_risk_per_trade_pct r) / stop_distance; fill = quote * (1 + c) in
      if equity < wanted * fill then equity / fill else wanted) = entry_shares r c equity quote stop_distance"
proof (cases "equity = 0")
  case False
  define fill where "fill = quote * (1 + c)"
  have fill: "0 < fill" using assms by (simp add: fill_def)
  define k where "k = br_risk_per_trade_pct r / stop_distance"
  have "equity < equity * k * fill \<longleftrightarrow> 1 < k * fill" using assms(1) False mult_less_cancel_left_pos [of equity 1 "k * fill"] by (simp add: mult.assoc)
  also have "\<dots> \<longleftrightarrow> 1 / fill < k" using fill by (simp add: divide_less_eq)
  finally show ?thesis by (auto simp: entry_shares_def min_def k_def fill_def [symmetric] Let_def)
qed (simp add: entry_shares_def)

lemma entry_spends:
  assumes "0 < quote" and "0 \<le> c"
  shows "entry_shares r c equity quote d * (quote * (1 + c)) = equity * min (br_risk_per_trade_pct r / d * (quote * (1 + c))) 1"
proof -
  define fill where "fill = quote * (1 + c)"
  then have "0 < fill" using assms by simp
  then have "min (br_risk_per_trade_pct r / d) (1 / fill) * fill = min (br_risk_per_trade_pct r / d * fill) 1"
    by (subst min_mult_distrib_right) simp
  then show ?thesis by (simp add: entry_shares_def fill_def [symmetric] mult.assoc)
qed

lemma entry_shares_pos:
  assumes "0 < br_risk_per_trade_pct r" and "0 < quote" and "0 < d" and "0 \<le> c" and "0 \<le> equity"
  shows "0 < entry_shares r c equity quote d \<longleftrightarrow> 0 < equity"
proof -
  have "0 < quote * (1 + c)" using assms by simp
  then have "0 < min (br_risk_per_trade_pct r / d) (1 / (quote * (1 + c)))" using assms by simp
  then show ?thesis using assms(5) by (simp add: entry_shares_def zero_less_mult_iff)
qed

lemma sim_enter_eq:
  fixes bars i
  assumes "0 \<le> sm_equity st" and "0 \<le> c" and "0 < br_risk_per_trade_pct r"
  defines "quote \<equiv> ba_open (bars ! Suc i)" and "d \<equiv> bar_atr (take (Suc i) bars) * br_atr_stop_multiplier r"
  defines "shares \<equiv> entry_shares r c (sm_equity st) quote d"
  shows "sim_enter r c bars i st = (if quote \<le> 0 \<or> d \<le> 0 \<or> sm_equity st = 0 then st\<lparr>sm_curve := sm_curve st @ [sm_equity st]\<rparr>
    else sim_mark (bars ! Suc i) (st\<lparr>sm_costs := sm_costs st + shares * quote * c, sm_equity := sm_equity st - shares * (quote * (1 + c)),
      sm_position := shares, sm_entry_price := quote, sm_entry_cost := shares * quote * c,
      sm_entry_stamp := Some (ba_timestamp (bars ! Suc i)), sm_stop_price := quote - d\<rparr>))"
proof (cases "quote \<le> 0 \<or> d \<le> 0")
  case True
  then show ?thesis by (auto simp: sim_enter_def Let_def quote_def d_def)
next
  case False
  then have pos: "0 < quote" "0 < d" by simp_all
  have "sm_equity st = 0 \<longleftrightarrow> shares \<le> 0" using entry_shares_pos [OF assms(3) pos assms(2,1)] assms(1) by (auto simp: shares_def not_less)
  then show ?thesis
    using False entry_shares_eq [OF assms(1) pos(1) assms(2), of r d, unfolded Let_def]
    by (simp add: sim_enter_def Let_def quote_def [symmetric] d_def [symmetric] shares_def)
qed


text \<open>What the proofs assume of a run: non-negative prices, a positive risk fraction and a cost between nothing and everything.\<close>

definition sane_run :: "backtest_request \<Rightarrow> rat \<Rightarrow> ohlcv_bar list \<Rightarrow> bool" where
  "sane_run r c bars = (priced_bars bars \<and> 0 < br_risk_per_trade_pct r \<and> 0 \<le> br_initial_capital r \<and> 0 \<le> c \<and> c \<le> 1)"

lemma sane_open: "sane_run r c bars \<Longrightarrow> i < length bars \<Longrightarrow> 0 \<le> ba_open (bars ! i)"
  by (simp add: sane_run_def priced_bars_def)

lemma stop_quote_nonneg:
  "sane_run r c bars \<Longrightarrow> i < length bars \<Longrightarrow> ba_low (bars ! i) \<le> stop \<Longrightarrow> 0 \<le> min stop (ba_open (bars ! i))"
  using order_trans [of 0 "ba_low (bars ! i)" stop] by (simp add: sane_run_def priced_bars_def)

lemma solvent_skip: "solvent st \<Longrightarrow> solvent (st\<lparr>sm_curve := sm_curve st @ [sm_equity st]\<rparr>)"
  by (auto simp: solvent_def)

lemma solvent_enter:
  assumes "solvent st" and "sm_position st = 0" and run: "sane_run r c bars" and "Suc i < length bars"
  shows "solvent (sim_enter r c bars i st)"
proof -
  define quote d where "quote = ba_open (bars ! Suc i)" and "d = bar_atr (take (Suc i) bars) * br_atr_stop_multiplier r"
  have eq: "0 \<le> sm_equity st" and c: "0 \<le> c" and risk: "0 < br_risk_per_trade_pct r" using assms by (simp_all add: solvent_def sane_run_def)
  note enter = sim_enter_eq [OF eq c risk, of bars i, folded quote_def d_def]
  show ?thesis
  proof (cases "quote \<le> 0 \<or> d \<le> 0 \<or> sm_equity st = 0")
    case True
    then show ?thesis unfolding enter using solvent_skip [OF assms(1)] by simp
  next
    case False
    let ?shares = "entry_shares r c (sm_equity st) quote d"
    have s: "0 < ?shares" using False entry_shares_pos [OF risk _ _ c eq, of quote d] eq by auto
    have "?shares * (quote * (1 + c)) \<le> sm_equity st * 1" using False eq by (simp add: entry_spends c mult_left_le)
    with False s c assms(1,2) show ?thesis unfolding enter by (auto simp: solvent_def quote_def)
  qed
qed

lemma balance_enter:
  assumes "books_balance k st" and "sm_position st = 0" and "solvent st" and run: "sane_run r c bars"
  shows "books_balance k (sim_enter r c bars i st)"
proof -
  have eq: "0 \<le> sm_equity st" and c: "0 \<le> c" and risk: "0 < br_risk_per_trade_pct r" and flat: "sm_entry_cost st = 0"
    using assms by (simp_all add: solvent_def sane_run_def)
  show ?thesis
    unfolding sim_enter_eq [OF eq c risk] using assms(1,2) flat by (auto simp: books_balance_def algebra_simps)
qed

lemma sim_step_ok:
  assumes "solvent st" and "books_balance k st" and run: "sane_run r c bars" and i: "Suc i < length bars"
  shows "solvent (sim_step session r c bars signals i st)" "books_balance k (sim_step session r c bars signals i st)"
proof -
  have c: "0 \<le> c" "c \<le> 1" using run by (simp_all add: sane_run_def)
  have o: "0 \<le> ba_open (bars ! Suc i)" using run i by (rule sane_open)
  have stop: "0 \<le> min (sm_stop_price st) (ba_open (bars ! i))" if "ba_low (bars ! i) \<le> sm_stop_price st"
    using stop_quote_nonneg [OF run _ that] i by simp
  show "solvent (sim_step session r c bars signals i st)"
    using assms(1) o stop solvent_enter [OF assms(1) _ run i] solvent_exit [OF assms(1) _ c]
    by (auto simp: sim_step_def Let_def simp del: min.bounded_iff intro!: solvent_mark)
  show "books_balance k (sim_step session r c bars signals i st)"
    using balance_enter [OF assms(2) _ assms(1) run] balance_exit [OF assms(2)] assms(2) by (simp add: sim_step_def Let_def)
qed

lemma sim_loop_ok:
  assumes "sane_run r c bars"
  shows "solvent (sim_loop session r c bars signals k) \<and> books_balance (br_initial_capital r) (sim_loop session r c bars signals k)"
  unfolding sim_loop_def
proof (rule fold_invariant [where Q = "\<lambda>i. Suc i < length bars"])
  show "solvent (sim_start r) \<and> books_balance (br_initial_capital r) (sim_start r)"
    using assms by (simp add: solvent_def books_balance_def sim_start_def sane_run_def)
qed (use assms sim_step_ok in auto)

lemma last_priced: "sane_run r c bars \<Longrightarrow> bars \<noteq> [] \<Longrightarrow> 0 \<le> ba_close (last bars)"
  by (simp add: sane_run_def priced_bars_def)

lemma loop_of_nothing: "length bars \<le> 1 \<Longrightarrow> sim_loop session r c bars signals k = sim_start r"
  by (simp add: sim_loop_def)


lemma simulate_ok:
  fixes session signals k
  assumes run: "sane_run r c bars"
  defines "st \<equiv> simulate session r bars signals c k"
  shows "0 \<le> sm_equity st" "\<forall>v \<in> set (sm_curve st). 0 \<le> v"
    "\<bar>sm_equity st - br_initial_capital r - sum_list (map bt_pnl (sm_trades st))\<bar> \<le> of_nat (length (sm_trades st)) / 200"
    "\<bar>sm_costs st - sum_list (map bt_costs (sm_trades st))\<bar> \<le> of_nat (length (sm_trades st)) / 200"
proof -
  define s where "s = sim_loop session r c bars signals k"
  have s: "solvent s" "books_balance (br_initial_capital r) s" using sim_loop_ok [OF run] by (simp_all add: s_def)
  have st: "st = sim_finish session r c bars s" by (simp add: st_def simulate_def s_def)
  have "0 \<le> sm_equity st \<and> (\<forall>v \<in> set (sm_curve st). 0 \<le> v) \<and>
    \<bar>sm_equity st - br_initial_capital r - sum_list (map bt_pnl (sm_trades st))\<bar> \<le> of_nat (length (sm_trades st)) / 200 \<and>
    \<bar>sm_costs st - sum_list (map bt_costs (sm_trades st))\<bar> \<le> of_nat (length (sm_trades st)) / 200"
  proof (cases "0 < sm_position s")
    case True
    then have "bars \<noteq> []" using loop_of_nothing [of bars session r c signals k] by (auto simp: s_def sim_start_def)
    then have "0 \<le> sm_position s * ba_close (last bars) * (1 - c)" using True run last_priced [OF run] by (simp add: sane_run_def)
    then have "0 \<le> sm_equity st" "\<forall>v \<in> set (sm_curve st). 0 \<le> v" using True s(1) by (auto simp: st sim_finish_def solvent_def Let_def)
    then show ?thesis
      using balance_close [OF s(2), of st session r c "ba_close (last bars)" "ba_timestamp (last bars)" "ba_timestamp (last bars)" "''end_of_data''"] True
      by (simp add: st sim_finish_def Let_def mult.assoc)
  next
    case False
    with s(1) have "sm_position s = 0" by (simp add: solvent_def)
    with s show ?thesis
      by (simp add: st sim_finish_def solvent_def books_balance_def)
  qed
  then show "0 \<le> sm_equity st" "\<forall>v \<in> set (sm_curve st). 0 \<le> v"
    "\<bar>sm_equity st - br_initial_capital r - sum_list (map bt_pnl (sm_trades st))\<bar> \<le> of_nat (length (sm_trades st)) / 200"
    "\<bar>sm_costs st - sum_list (map bt_costs (sm_trades st))\<bar> \<le> of_nat (length (sm_trades st)) / 200" by blast+
qed

subsection \<open>Costs\<close>

text \<open>The run at the lower cost is ahead: more cash and more shares, in the same trade or with the other run broke.\<close>

definition ahead :: "simulation \<Rightarrow> simulation \<Rightarrow> bool" where
  "ahead a b = (solvent a \<and> solvent b \<and> sm_equity b \<le> sm_equity a \<and> sm_position b \<le> sm_position a \<and>
     (sm_position b = 0 \<and> sm_equity b = 0 \<or>
      (sm_position a = 0 \<longleftrightarrow> sm_position b = 0) \<and> sm_stop_price a = sm_stop_price b))"

lemma entry_shares_mono:
  assumes "0 \<le> e2" and "e2 \<le> e1" and "c1 \<le> c2" and "0 \<le> c1" and "0 < quote" and "0 < d" and "0 < br_risk_per_trade_pct r"
  shows "entry_shares r c2 e2 quote d \<le> entry_shares r c1 e1 quote d"
    and "e2 - entry_shares r c2 e2 quote d * (quote * (1 + c2)) \<le> e1 - entry_shares r c1 e1 quote d * (quote * (1 + c1))"
proof -
  define w where "w = (\<lambda>c. min (br_risk_per_trade_pct r / d) (1 / (quote * (1 + c))))"
  define v where "v = (\<lambda>c. min (br_risk_per_trade_pct r / d * (quote * (1 + c))) 1)"
  have f: "0 < quote * (1 + c1)" "quote * (1 + c1) \<le> quote * (1 + c2)" using assms by simp_all
  then have "1 / (quote * (1 + c2)) \<le> 1 / (quote * (1 + c1))" by (intro divide_left_mono) simp_all
  then have "w c2 \<le> w c1" by (simp add: w_def min.coboundedI2)
  moreover have "0 \<le> w c2" using assms f by (simp add: w_def)
  ultimately have "e2 * w c2 \<le> e1 * w c1" using assms by (intro mult_mono) simp_all
  then show "entry_shares r c2 e2 quote d \<le> entry_shares r c1 e1 quote d" by (simp add: entry_shares_def w_def)
  have "br_risk_per_trade_pct r / d * (quote * (1 + c1)) \<le> br_risk_per_trade_pct r / d * (quote * (1 + c2))"
    using f(2) assms by (intro mult_left_mono) simp_all
  then have "v c1 \<le> v c2" by (auto simp: v_def min_le_iff_disj)
  then have "e2 * (1 - v c2) \<le> e1 * (1 - v c1)" using assms by (intro mult_mono) (simp_all add: v_def)
  then show "e2 - entry_shares r c2 e2 quote d * (quote * (1 + c2)) \<le> e1 - entry_shares r c1 e1 quote d * (quote * (1 + c1))"
    using assms by (simp add: entry_spends v_def right_diff_distrib)
qed


lemma ahead_solvent: "ahead a b \<Longrightarrow> solvent a" "ahead a b \<Longrightarrow> solvent b"
  by (simp_all add: ahead_def)

lemma exit_mono:
  fixes e1 :: rat
  assumes "e2 \<le> e1" and "p2 \<le> p1" and "0 \<le> p2" and "0 \<le> quote" and "c1 \<le> c2" and "c2 \<le> 1"
  shows "e2 + p2 * (quote * (1 - c2)) \<le> e1 + p1 * (quote * (1 - c1))"
  using assms by (intro add_mono mult_mono) (simp_all add: mult_left_mono)

lemma ahead_mark:
  "ahead a b \<Longrightarrow> 0 \<le> ba_open x \<Longrightarrow> ahead (sim_mark x a) (sim_mark x b)"
  by (auto simp: ahead_def intro: solvent_mark)

lemma ahead_exit:
  assumes "ahead a b" and "0 \<le> quote" and "0 \<le> c1" and "c1 \<le> c2" and "c2 \<le> 1"
  shows "ahead (sim_exit session r c1 quote t u why a) (sim_exit session r c2 quote t u why b)"
proof -
  have "solvent (sim_exit session r c1 quote t u why a)" "solvent (sim_exit session r c2 quote t u why b)"
    using assms by (auto simp: ahead_def intro: solvent_exit)
  moreover have "sm_equity b + sm_position b * (quote * (1 - c2)) \<le> sm_equity a + sm_position a * (quote * (1 - c1))"
    using assms by (intro exit_mono) (simp_all add: ahead_def solvent_def)
  ultimately show ?thesis by (simp add: ahead_def sim_exit_def)
qed

lemma ahead_enter:
  assumes "ahead a b" and flat: "sm_position a = 0" "sm_position b = 0" and run: "sane_run r c1 bars" "sane_run r c2 bars" and "c1 \<le> c2" and i: "Suc i < length bars"
  shows "ahead (sim_enter r c1 bars i a) (sim_enter r c2 bars i b)"
proof -
  define quote d where "quote = ba_open (bars ! Suc i)" and "d = bar_atr (take (Suc i) bars) * br_atr_stop_multiplier r"
  have ab: "0 \<le> sm_equity b" "sm_equity b \<le> sm_equity a" "0 \<le> sm_equity a" "solvent a" "solvent b" using assms(1) by (auto simp: ahead_def solvent_def)
  have c: "0 \<le> c1" "0 \<le> c2" and risk: "0 < br_risk_per_trade_pct r" using run by (simp_all add: sane_run_def)
  note ea = sim_enter_eq [OF ab(3) c(1) risk, of bars i, folded quote_def d_def] and eb = sim_enter_eq [OF ab(1) c(2) risk, of bars i, folded quote_def d_def]
  have sol: "solvent (sim_enter r c1 bars i a)" "solvent (sim_enter r c2 bars i b)"
    using solvent_enter [OF ab(4) flat(1) run(1) i] solvent_enter [OF ab(5) flat(2) run(2) i] by simp_all
  show ?thesis
  proof (cases "quote \<le> 0 \<or> d \<le> 0 \<or> sm_equity b = 0")
    case True
    then have "sm_equity (sim_enter r c2 bars i b) = sm_equity b" "sm_position (sim_enter r c2 bars i b) = 0"
      "sm_stop_price (sim_enter r c2 bars i b) = sm_stop_price b" by (auto simp: eb flat)
    moreover have "quote \<le> 0 \<or> d \<le> 0 \<Longrightarrow> sim_enter r c1 bars i a = a\<lparr>sm_curve := sm_curve a @ [sm_equity a]\<rparr>" by (auto simp: ea)
    ultimately show ?thesis
      using True sol assms(1) flat by (cases "quote \<le> 0 \<or> d \<le> 0") (auto simp: ahead_def solvent_def)
  next
    case False
    then have pos: "0 < quote" "0 < d" "0 < sm_equity b" "0 < sm_equity a" using ab by auto
    show ?thesis
      using sol pos entry_shares_mono [OF ab(1,2) assms(6) c(1) pos(1,2) risk]
        entry_shares_pos [OF risk pos(1,2) c(1) ab(3)] entry_shares_pos [OF risk pos(1,2) c(2) ab(1)]
      unfolding ahead_def by (simp add: ea eb)
  qed
qed

lemma broke_stays: "solvent b \<Longrightarrow> sm_position b = 0 \<Longrightarrow> sm_equity b = 0 \<Longrightarrow> sane_run r c bars \<Longrightarrow>
    sm_position (sim_step session r c bars signals i b) = 0 \<and> sm_equity (sim_step session r c bars signals i b) = 0"
  using sim_enter_eq [of b c r bars i] by (simp add: sim_step_def Let_def sane_run_def)

lemma ahead_step:
  assumes "ahead a b" and run: "sane_run r c1 bars" "sane_run r c2 bars" and "c1 \<le> c2" and i: "Suc i < length bars"
    and bal: "books_balance k a" "books_balance k b"
  shows "ahead (sim_step session r c1 bars signals i a) (sim_step session r c2 bars signals i b)"
proof (cases "sm_position b = 0 \<and> sm_equity b = 0")
  case True
  have "solvent a" "solvent b" using assms(1) by (simp_all add: ahead_def)
  with True sim_step_ok(1) [OF _ bal(1) run(1) i] sim_step_ok(1) [OF _ bal(2) run(2) i] broke_stays [OF _ _ _ run(2), of b session signals i]
  show ?thesis by (simp add: ahead_def) (simp add: solvent_def)
next
  case False
  then have same: "sm_position a = 0 \<longleftrightarrow> sm_position b = 0" "sm_stop_price a = sm_stop_price b" using assms(1) by (auto simp: ahead_def)
  have o: "0 \<le> ba_open (bars ! Suc i)" using run(1) i by (rule sane_open)
  have stop: "0 \<le> min (sm_stop_price b) (ba_open (bars ! i))" if "ba_low (bars ! i) \<le> sm_stop_price b"
    using stop_quote_nonneg [OF run(1) _ that] i by simp
  have c: "0 \<le> c1" "c2 \<le> 1" using run by (simp_all add: sane_run_def)
  show ?thesis
    using same o stop ahead_enter [OF assms(1) _ _ run assms(4) i] ahead_exit [OF assms(1) _ c(1) assms(4) c(2)] assms(1)
    by (auto simp: sim_step_def Let_def simp del: min.bounded_iff intro!: ahead_mark)
qed

lemma ahead_loop:
  assumes run: "sane_run r c1 bars" "sane_run r c2 bars" and "c1 \<le> c2"
  shows "ahead (sim_loop session r c1 bars signals k) (sim_loop session r c2 bars signals k)"
proof -
  define ok where "ok = (\<lambda>ab. ahead (fst ab) (snd ab) \<and> books_balance (br_initial_capital r) (fst ab) \<and> books_balance (br_initial_capital r) (snd ab))"
  let ?f = "\<lambda>i ab. (sim_step session r c1 bars signals i (fst ab), sim_step session r c2 bars signals i (snd ab))"
  have pair: "fold ?f xs (a, b) = (fold (sim_step session r c1 bars signals) xs a, fold (sim_step session r c2 bars signals) xs b)" for xs a b
    by (induction xs arbitrary: a b) simp_all
  have "ok (fold ?f [k..<length bars - 1] (sim_start r, sim_start r))"
  proof (rule fold_invariant [where Q = "\<lambda>i. Suc i < length bars"])
    show "ok (sim_start r, sim_start r)" using run by (simp add: ok_def ahead_def solvent_def sim_start_def sane_run_def books_balance_def)
    show "ok (?f i ab)" if "Suc i < length bars" "ok ab" for i ab
      using that ahead_step [OF _ run assms(3) that(1)] sim_step_ok(2) [OF _ _ run(1) that(1)] sim_step_ok(2) [OF _ _ run(2) that(1)]
      by (simp add: ok_def) (blast dest: ahead_solvent)
  qed auto
  then show ?thesis by (simp add: ok_def pair sim_loop_def)
qed

lemma costs_only_hurt_final:
  assumes run: "sane_run r c1 bars" "sane_run r c2 bars" and "c1 \<le> c2"
  shows "sm_equity (simulate session r bars signals c2 k) \<le> sm_equity (simulate session r bars signals c1 k)"
proof -
  define a b where "a = sim_loop session r c1 bars signals k" and "b = sim_loop session r c2 bars signals k"
  have ab: "ahead a b" using ahead_loop [OF assms] by (simp add: a_def b_def)
  show ?thesis
  proof (cases "0 < sm_position a")
    case True
    then have "bars \<noteq> []" using loop_of_nothing [of bars session r c1 signals k] by (auto simp: a_def sim_start_def)
    then have "sm_equity b + sm_position b * (ba_close (last bars) * (1 - c2)) \<le> sm_equity a + sm_position a * (ba_close (last bars) * (1 - c1))"
      using ab assms(3) run last_priced [OF run(1)] by (intro exit_mono) (simp_all add: ahead_def solvent_def sane_run_def)
    moreover have "sm_position b = 0" if "\<not> 0 < sm_position b" using that ab by (simp add: ahead_def solvent_def)
    ultimately show ?thesis using True by (auto simp: simulate_def sim_finish_def a_def [symmetric] b_def [symmetric] Let_def mult.assoc)
  next
    case False
    then show ?thesis using ab by (auto simp: simulate_def sim_finish_def a_def [symmetric] b_def [symmetric] ahead_def solvent_def)
  qed
qed


subsection \<open>No look-ahead\<close>

lemma sim_step_take:
  assumes "Suc i < n"
  shows "sim_step session r c (take n bars) (take n signals) i = sim_step session r c bars signals i"
  using assms by (intro ext) (simp add: sim_step_def sim_enter_def Let_def min_absorb1)

lemma sim_step_extends:
  "\<exists>v ts. sm_curve (sim_step session r c bars signals i st) = sm_curve st @ [v] \<and> sm_trades (sim_step session r c bars signals i st) = sm_trades st @ ts"
  by (auto simp: sim_step_def sim_enter_def sim_exit_def Let_def)

lemma sim_fold_extends:
  "\<exists>vs ts. sm_curve (fold (sim_step session r c bars signals) xs st) = sm_curve st @ vs \<and> length vs = length xs \<and>
     sm_trades (fold (sim_step session r c bars signals) xs st) = sm_trades st @ ts"
proof (induction xs arbitrary: st)
  case (Cons i xs)
  obtain v ts where "sm_curve (sim_step session r c bars signals i st) = sm_curve st @ [v]" "sm_trades (sim_step session r c bars signals i st) = sm_trades st @ ts"
    using sim_step_extends by blast
  with Cons.IH [of "sim_step session r c bars signals i st"] show ?case by fastforce
qed simp

lemma sim_loop_take:
  assumes "n \<le> length bars"
  shows "sim_loop session r c (take n bars) (take n signals) k = fold (sim_step session r c bars signals) [k..<n - 1] (sim_start r)"
  unfolding sim_loop_def using assms by (auto intro!: fold_cong simp: sim_step_take)

lemma compute_signals_causal:
  assumes "compute_signals sq bars r = Inr signals" and "valid_params (br_params r)"
  shows "compute_signals sq (take n bars) r = Inr (take n signals)" and "length signals = length bars"
proof -
  from assms(1) obtain s where s: "get_strategy sq (br_strategy r) = Inr s"
    and sig: "signals = apply_gates bars (sg_signals s bars (br_params r)) (br_regime_gate r) (br_volume_gate r)"
    by (auto simp: compute_signals_def bindE_Inr_iff)
  note causal = gates_causal [OF strategy_causal [OF s assms(2)]]
  show "compute_signals sq (take n bars) r = Inr (take n signals)" using causal_rule.prefix [OF causal] by (simp add: compute_signals_def s sig)
  show "length signals = length bars" using causal_rule.per_bar [OF causal] by (simp add: sig)
qed

lemma loop_prefix:
  assumes "n \<le> length bars"
  shows "\<exists>vs ts. sm_curve (sim_loop session r c bars signals k) = sm_curve (sim_loop session r c (take n bars) (take n signals) k) @ vs \<and>
    sm_trades (sim_loop session r c bars signals k) = sm_trades (sim_loop session r c (take n bars) (take n signals) k) @ ts"
proof (cases "k \<le> n - 1")
  case True
  then have "[k..<length bars - 1] = [k..<n - 1] @ [n - 1..<length bars - 1]"
    using assms upt_add_eq_append [of k "n - 1" "length bars - n"] by (cases n) auto
  then show ?thesis
    using sim_fold_extends [of session r c bars signals "[n - 1..<length bars - 1]"] by (simp add: sim_loop_take [OF assms]) (simp add: sim_loop_def, blast)
next
  case False
  then show ?thesis using sim_fold_extends [of session r c bars signals "[k..<length bars - 1]" "sim_start r"]
    by (simp add: sim_loop_take [OF assms]) (simp add: sim_loop_def, blast)
qed

subsection \<open>Drawdown\<close>

lemma drawdown_fold:
  assumes "\<forall>v \<in> set xs. 0 \<le> v" and "0 \<le> p" and "0 \<le> w" and "w \<le> 1"
  shows "0 \<le> snd (fold drawdown_step xs (p, w)) \<and> w \<le> snd (fold drawdown_step xs (p, w)) \<and> snd (fold drawdown_step xs (p, w)) \<le> 1 \<and>
    (\<forall>v \<in> set xs. p - v \<le> snd (fold drawdown_step xs (p, w)) * p)"
  using assms
proof (induction xs arbitrary: p w)
  case (Cons v xs)
  define p' where "p' = max p v"
  define w' where "w' = (if 0 < p' then max w ((p' - v) / p') else w)"
  have v: "0 \<le> v" and p': "p \<le> p'" "v \<le> p'" "0 \<le> p'" using Cons.prems by (auto simp: p'_def)
  have w': "0 \<le> w'" "w' \<le> 1" "w \<le> w'" using Cons.prems(3,4) v by (auto simp: w'_def divide_le_eq)
  define out where "out = fold drawdown_step xs (p', w')"
  have IH: "0 \<le> snd out" "w' \<le> snd out" "snd out \<le> 1" "\<forall>x \<in> set xs. p' - x \<le> snd out * p'"
    using Cons.IH [of p' w'] Cons.prems(1) p'(3) w'(1,2) unfolding out_def by auto
  have below: "p - x \<le> snd out * p" if "p' - x \<le> snd out * p'" for x
  proof -
    have "snd out * (p' - p) \<le> p' - p" using IH(1,3) p' by (intro mult_left_le_one_le) simp_all
    with that show ?thesis by (simp add: right_diff_distrib)
  qed
  have "p' - v \<le> snd out * p'"
  proof (cases "0 < p'")
    case True
    then have "(p' - v) / p' \<le> snd out" using IH(2) by (simp add: w'_def)
    then show ?thesis using True by (simp add: divide_le_eq)
  qed (use p' v in simp)
  moreover have "fold drawdown_step (v # xs) (p, w) = out" by (simp add: out_def p'_def w'_def drawdown_step_def Let_def)
  ultimately show ?case using IH w'(3) below by auto
qed simp

lemma drawdown_bounds:
  assumes "\<forall>v \<in> set curve. 0 \<le> v"
  shows "0 \<le> bt_max_drawdown curve" "bt_max_drawdown curve \<le> 1"
  using drawdown_fold [OF assms, of "if curve = [] then 0 else hd curve" 0] assms by (auto simp: bt_max_drawdown_def)


subsection \<open>Properties\<close>

lemma cost_nonneg: "request_in_range r \<Longrightarrow> 0 \<le> cost_per_side_pct r"
  by (simp add: request_in_range_def cost_per_side_pct_def)

lemma sane_request: "request_in_range r \<Longrightarrow> priced_bars bars \<Longrightarrow> 0 \<le> c \<Longrightarrow> c \<le> 1 \<Longrightarrow> sane_run r c bars"
  by (simp add: request_in_range_def sane_run_def)

lemma spread_not_read: "simulate session (r\<lparr>br_spread_bps := x\<rparr>) bars signals c k = simulate session r bars signals c k"
proof -
  have "sim_step session (r\<lparr>br_spread_bps := x\<rparr>) c bars signals = sim_step session r c bars signals"
    by (intro ext) (simp add: sim_step_def sim_enter_def sim_exit_def close_record_def Let_def)
  then show ?thesis by (simp add: simulate_def sim_loop_def sim_finish_def sim_start_def close_record_def Let_def)
qed

lemma spread_return_mono:
  assumes r: "request_in_range r" "priced_bars bars" and "0 \<le> x" and "x \<le> y" and "cost_per_side_pct (r\<lparr>br_spread_bps := y\<rparr>) \<le> 1"
  shows "spread_return session r bars signals y \<le> spread_return session r bars signals x"
proof -
  have c: "0 \<le> cost_per_side_pct (r\<lparr>br_spread_bps := x\<rparr>)" "cost_per_side_pct (r\<lparr>br_spread_bps := x\<rparr>) \<le> cost_per_side_pct (r\<lparr>br_spread_bps := y\<rparr>)"
    using assms by (simp_all add: cost_per_side_pct_def request_in_range_def divide_right_mono)
  then show ?thesis
    using costs_only_hurt_final [OF sane_request [OF r] sane_request [OF r] c(2), of session signals 0] assms r
    by (simp add: spread_return_def spread_not_read Let_def request_in_range_def divide_right_mono)
qed

lemma fold_last_match:
  "fold (\<lambda>x best. if P x then Some x else best) xs acc = (if filter P xs = [] then acc else Some (last (filter P xs)))"
  by (induction xs arbitrary: acc) auto

lemma sorted_le_last: "sorted xs \<Longrightarrow> x \<in> set xs \<Longrightarrow> x \<le> last xs"
  by (induction xs rule: rev_induct) (auto simp: sorted_append)

text \<open>
  C11: A backtest's books balance. Over non-negative prices and a one-way cost between 0 and 1, a simulation never
  spends cash it does not have: neither the cash nor any point of the equity curve is negative. The final equity is the
  initial capital plus the profits of the recorded trades, and the total costs are the costs they record, each to
  within the half cent per trade that rounding to two decimals can lose.
\<close>

theorem backtest_books_balance:
  assumes "sane_run r c bars"
  shows "0 \<le> sm_equity (simulate session r bars signals c k) \<and>
    (\<forall>v \<in> set (sm_curve (simulate session r bars signals c k)). 0 \<le> v) \<and>
    \<bar>sm_equity (simulate session r bars signals c k) - br_initial_capital r - sum_list (map bt_pnl (sm_trades (simulate session r bars signals c k)))\<bar>
      \<le> of_nat (length (sm_trades (simulate session r bars signals c k))) / 200 \<and>
    \<bar>sm_costs (simulate session r bars signals c k) - sum_list (map bt_costs (sm_trades (simulate session r bars signals c k)))\<bar>
      \<le> of_nat (length (sm_trades (simulate session r bars signals c k))) / 200"
  using simulate_ok [OF assms] by blast

definition sample_request :: backtest_request where
  "sample_request = \<lparr>br_symbol = ''AAPL'', br_strategy = ''ema_rsi_macd'', br_period_days = 180, br_initial_capital = 1000,
     br_risk_per_trade_pct = 1 / 100, br_atr_stop_multiplier = 2, br_params = default_params, br_timeframe = ''daily'', br_intraday_minutes = 15,
     br_commission_pct = 0, br_spread_bps = 5, br_slippage_bps = 1, br_regime_gate = False, br_volume_gate = False\<rparr>"

definition sample_bar :: "int \<Rightarrow> rat \<Rightarrow> ohlcv_bar" where
  "sample_bar day px = \<lparr>ba_symbol = ''AAPL'', ba_timestamp = day * 86400000000, ba_open = px, ba_high = px + 1, ba_low = px - 1, ba_close = px, ba_volume = 100\<rparr>"

definition sample_bars :: "ohlcv_bar list" where
  "sample_bars = [sample_bar 0 10, sample_bar 1 10, sample_bar 2 12, sample_bar 3 13, sample_bar 4 4]"

theorem backtest_books_balance_witness:
  "let st = simulate id sample_request sample_bars [''BUY'', ''HOLD'', ''SELL'', ''BUY'', ''HOLD''] (1 / 100) 0 in
     length (sm_trades st) = 2 \<and> \<bar>sm_equity st - 1000 - sum_list (map bt_pnl (sm_trades st))\<bar> \<le> 2 / 200"
proof -
  have "sane_run sample_request (1 / 100) sample_bars" by code_simp
  from backtest_books_balance [OF this, of id "[''BUY'', ''HOLD'', ''SELL'', ''BUY'', ''HOLD'']" 0]
  have "\<bar>sm_equity st - 1000 - sum_list (map bt_pnl (sm_trades st))\<bar> \<le> of_nat (length (sm_trades st)) / 200"
    if "st = simulate id sample_request sample_bars [''BUY'', ''HOLD'', ''SELL'', ''BUY'', ''HOLD''] (1 / 100) 0" for st
    unfolding that by (simp add: sample_request_def)
  moreover have "length (sm_trades (simulate id sample_request sample_bars [''BUY'', ''HOLD'', ''SELL'', ''BUY'', ''HOLD''] (1 / 100) 0)) = 2" by code_simp
  ultimately show ?thesis by (simp add: Let_def)
qed

text \<open>
  C22: Costs only ever hurt. For any bars with non-negative prices and any signals, a simulation at a higher one-way
  cost ends with no more equity than the same simulation at a lower one; so the gross return the report puts beside
  the net return is never the smaller of the two, and the reported drawdown lies between 0 and 1.
\<close>

theorem costs_only_hurt:
  assumes "request_in_range r" and "priced_bars bars"
  shows "(\<forall>c d. 0 \<le> c \<and> c \<le> d \<and> d \<le> 1 \<longrightarrow>
      sm_equity (simulate session r bars signals d k) \<le> sm_equity (simulate session r bars signals c k)) \<and>
    (\<forall>res. cost_per_side_pct r \<le> 1 \<and> run_backtest sq session r bars = Inr res \<longrightarrow>
      re_total_return_pct res \<le> re_gross_return_pct res \<and> 0 \<le> re_max_drawdown_pct res \<and> re_max_drawdown_pct res \<le> 1)"
proof (intro conjI allI impI)
  note sane = sane_request [OF assms]
  fix c d :: rat assume "0 \<le> c \<and> c \<le> d \<and> d \<le> 1"
  then show "sm_equity (simulate session r bars signals d k) \<le> sm_equity (simulate session r bars signals c k)"
    by (intro costs_only_hurt_final sane) simp_all
next
  note sane = sane_request [OF assms]
  fix res assume res: "cost_per_side_pct r \<le> 1 \<and> run_backtest sq session r bars = Inr res"
  then obtain signals where "res = backtest_report sq session r bars (simulate session r bars signals (cost_per_side_pct r) 0) (simulate session r bars signals 0 0)"
    by (auto simp: run_backtest_def bindE_Inr_iff split: if_splits)
  then have ret: "re_total_return_pct res = py_round 4 ((sm_equity (simulate session r bars signals (cost_per_side_pct r) 0) - br_initial_capital r) / br_initial_capital r)"
      "re_gross_return_pct res = py_round 4 ((sm_equity (simulate session r bars signals 0 0) - br_initial_capital r) / br_initial_capital r)"
    and dd: "re_max_drawdown_pct res = py_round 4 (bt_max_drawdown (sm_curve (simulate session r bars signals (cost_per_side_pct r) 0)))"
    by (simp_all add: backtest_report_def Let_def)
  have c: "cost_per_side_pct r \<le> 1" using res by simp
  note run = sane [OF cost_nonneg [OF assms(1)] c] and free = sane [of 0, simplified]
  have "0 < br_initial_capital r" using assms(1) by (simp add: request_in_range_def)
  then show "re_total_return_pct res \<le> re_gross_return_pct res"
    using costs_only_hurt_final [OF free run cost_nonneg [OF assms(1)]] unfolding ret by (intro py_round_mono divide_right_mono diff_right_mono) simp_all
  note bounds = drawdown_bounds [OF simulate_ok(2) [OF run]]
  have "py_round 4 1 = 1" using round_half_even_int [of 10000] by (simp add: py_round_def)
  then show "0 \<le> re_max_drawdown_pct res" "re_max_drawdown_pct res \<le> 1"
    unfolding dd using py_round_nonneg [OF bounds(1), of 4] py_round_mono [OF bounds(2), of 4] by simp_all
qed

theorem costs_only_hurt_witness:
  "sm_equity (simulate id sample_request sample_bars [''BUY'', ''HOLD'', ''SELL'', ''BUY'', ''HOLD''] (1 / 50) 0) \<le>
     sm_equity (simulate id sample_request sample_bars [''BUY'', ''HOLD'', ''SELL'', ''BUY'', ''HOLD''] (1 / 100) 0)"
proof -
  have "request_in_range sample_request" "priced_bars sample_bars" by code_simp+
  from costs_only_hurt [OF this, of id _ 0 id] show ?thesis by simp
qed


text \<open>
  The break-even spread splits the ladder. When the sweep names a break-even, it is a spread of the ladder at
  which the strategy still makes money, every cheaper spread of the ladder makes money too, and no dearer one does;
  when it names none, no spread of the ladder makes money.
\<close>

theorem breakeven_splits_ladder:
  assumes "request_in_range r" and "priced_bars bars" and "run_cost_sensitivity sq session r bars (Some ladder) = Inr res"
    and "compute_signals sq bars r = Inr signals" and "\<forall>x \<in> set ladder. 0 \<le> x \<and> cost_per_side_pct (r\<lparr>br_spread_bps := x\<rparr>) \<le> 1"
  shows "case cv_breakeven_spread_bps res of
      None \<Rightarrow> \<forall>x \<in> set ladder. spread_return session r bars signals x \<le> 0
    | Some b \<Rightarrow> b \<in> set ladder \<and> (\<forall>x \<in> set ladder. 0 < spread_return session r bars signals x \<longleftrightarrow> x \<le> b)"
proof -
  let ?P = "\<lambda>x. 0 < spread_return session r bars signals x"
  define good where "good = filter ?P (sort ladder)"
  have "cv_breakeven_spread_bps res = (if good = [] then None else Some (last good))"
    using assms(3,4) by (auto simp: run_cost_sensitivity_def Let_def fold_last_match good_def)
  moreover have "?P x \<longleftrightarrow> x \<le> last good" if "good \<noteq> []" "x \<in> set ladder" for x
  proof
    have g: "last good \<in> set ladder" "?P (last good)" using last_in_set [OF that(1)] by (simp_all add: good_def)
    show "x \<le> last good" if "?P x" using that \<open>x \<in> set ladder\<close> by (intro sorted_le_last) (auto simp: good_def sorted_wrt_filter)
    show "?P x" if "x \<le> last good"
      using spread_return_mono [OF assms(1,2) _ that, of session signals] assms(5) g \<open>x \<in> set ladder\<close> by force
  qed
  moreover have "last good \<in> set ladder" if "good \<noteq> []" using last_in_set [OF that] by (simp add: good_def)
  moreover have "\<forall>x \<in> set ladder. spread_return session r bars signals x \<le> 0" if "good = []"
    using that by (simp add: good_def filter_empty_conv not_less)
  ultimately show ?thesis by (cases "good = []") simp_all
qed

theorem breakeven_splits_ladder_witness:
  "\<exists>res. run_cost_sensitivity id id sample_request sample_bars (Some [0, 10]) = Inr res \<and> cv_breakeven_spread_bps res = None"
proof -
  have r: "request_in_range sample_request" "priced_bars sample_bars" by code_simp+
  have c: "\<forall>x \<in> set [0, 10]. 0 \<le> x \<and> cost_per_side_pct (sample_request\<lparr>br_spread_bps := x\<rparr>) \<le> 1" by code_simp
  have s: "compute_signals id sample_bars sample_request = Inr [''HOLD'', ''HOLD'', ''HOLD'', ''HOLD'', ''HOLD'']" by code_simp
  have zero: "\<forall>x \<in> set [0, 10]. spread_return id sample_request sample_bars [''HOLD'', ''HOLD'', ''HOLD'', ''HOLD'', ''HOLD''] x = 0" by code_simp
  obtain res where res: "run_cost_sensitivity id id sample_request sample_bars (Some [0, 10]) = Inr res"
    using s by (simp add: run_cost_sensitivity_def Let_def)
  from breakeven_splits_ladder [OF r res s c] zero have "cv_breakeven_spread_bps res = None"
    by (cases "cv_breakeven_spread_bps res") auto
  with res show ?thesis by blast
qed

text \<open>
  C37: A backtest never looks ahead. The signals of the first \<open>n\<close> bars are what the same request computes from
  these bars alone, and the equity curve and the trades of the loop over all bars begin with those of the loop over
  the first \<open>n\<close>: nothing that happens later changes what was decided or earned before.
\<close>

theorem backtest_never_looks_ahead:
  assumes "compute_signals sq bars r = Inr signals" and "valid_params (br_params r)" and "n \<le> length bars"
  shows "compute_signals sq (take n bars) r = Inr (take n signals) \<and>
    (\<exists>vs ts. sm_curve (sim_loop session r c bars signals k) = sm_curve (sim_loop session r c (take n bars) (take n signals) k) @ vs \<and>
      sm_trades (sim_loop session r c bars signals k) = sm_trades (sim_loop session r c (take n bars) (take n signals) k) @ ts)"
  using compute_signals_causal(1) [OF assms(1,2), of n] loop_prefix [OF assms(3)] by blast

theorem backtest_never_looks_ahead_witness:
  "compute_signals id (take 2 sample_bars) sample_request = Inr [''HOLD'', ''HOLD'']"
proof -
  have s: "compute_signals id sample_bars sample_request = Inr [''HOLD'', ''HOLD'', ''HOLD'', ''HOLD'', ''HOLD'']" by code_simp
  have "valid_params (br_params sample_request)" "2 \<le> length sample_bars" by code_simp+
  from backtest_never_looks_ahead [OF s this] show ?thesis by (simp add: numeral_2_eq_2)
qed

text \<open>
  An entry risks the budget and no more. When an iteration opens a position, the signal was a BUY, the fill is the
  next bar's open, the stop lies below it, the loss from the fill down to the stop is at most the configured fraction
  of the equity before the trade, and the purchase with its costs does not exceed that equity.
\<close>

theorem entry_risks_the_budget:
  assumes "solvent st" and "sm_position st = 0" and "sane_run r c bars" and "Suc i < length bars"
    and "sm_position (sim_step session r c bars signals i st) \<noteq> 0"
  shows "let st' = sim_step session r c bars signals i st in
    signals ! i = ''BUY'' \<and> 0 < sm_position st' \<and> sm_entry_price st' = ba_open (bars ! Suc i) \<and> sm_stop_price st' < sm_entry_price st' \<and>
    sm_position st' * (sm_entry_price st' - sm_stop_price st') \<le> br_risk_per_trade_pct r * sm_equity st \<and>
    sm_position st' * sm_entry_price st' + sm_entry_cost st' \<le> sm_equity st"
proof -
  define quote d where "quote = ba_open (bars ! Suc i)" and "d = bar_atr (take (Suc i) bars) * br_atr_stop_multiplier r"
  have eq: "0 \<le> sm_equity st" and c: "0 \<le> c" and risk: "0 < br_risk_per_trade_pct r" using assms by (simp_all add: solvent_def sane_run_def)
  note enter = sim_enter_eq [OF eq c risk, of bars i, folded quote_def d_def]
  have buy: "signals ! i = ''BUY''" using assms(2,5) by (auto simp: sim_step_def Let_def split: if_splits)
  have pos: "0 < quote" "0 < d" "0 < sm_equity st"
    using assms(2,5) eq by (auto simp: sim_step_def buy enter Let_def split: if_splits)
  let ?n = "entry_shares r c (sm_equity st) quote d"
  have "?n \<le> sm_equity st * (br_risk_per_trade_pct r / d)" unfolding entry_shares_def using eq by (intro mult_left_mono) simp_all
  then have "?n * d \<le> br_risk_per_trade_pct r * sm_equity st" using pos by (simp add: field_simps)
  moreover have "?n * (quote * (1 + c)) \<le> sm_equity st" using pos c by (simp add: entry_spends mult_left_le)
  moreover have "0 < ?n" using entry_shares_pos [OF risk pos(1,2) c eq] pos(3) by simp
  ultimately show ?thesis using assms(2) buy pos by (simp add: sim_step_def enter Let_def quote_def [symmetric] algebra_simps)
qed

theorem entry_risks_the_budget_witness:
  "sm_position (sim_step id sample_request (1 / 100) sample_bars [''BUY'', ''HOLD'', ''SELL'', ''BUY'', ''HOLD''] 0 (sim_start sample_request)) * (10 - 6) \<le> 10"
proof -
  let ?st = "sim_step id sample_request (1 / 100) sample_bars [''BUY'', ''HOLD'', ''SELL'', ''BUY'', ''HOLD''] 0 (sim_start sample_request)"
  have "solvent (sim_start sample_request)" "sm_position (sim_start sample_request) = 0" "sane_run sample_request (1 / 100) sample_bars"
    "Suc 0 < length sample_bars" "sm_position ?st \<noteq> 0" by code_simp+
  from entry_risks_the_budget [OF this, unfolded Let_def]
  have "sm_position ?st * (sm_entry_price ?st - sm_stop_price ?st) \<le> br_risk_per_trade_pct sample_request * sm_equity (sim_start sample_request)" by blast
  moreover have "sm_entry_price ?st = 10" "sm_stop_price ?st = 6" "br_risk_per_trade_pct sample_request * sm_equity (sim_start sample_request) = 10" by code_simp+
  ultimately show ?thesis by simp
qed


end
