(* ===== verification/Validation.thy ===== *)
theory Validation
  imports Backtest_Engine
begin

text \<open>
  \<open>services/backtest-service/src/backtest_service/stats.py\<close> and \<open>validation.py\<close>: the statistics a result is judged by,
  the train and test windows, the cache of signals, the scoring of a configuration, walk-forward selection and
  parameter sensitivity. What Python's \<open>math\<close> module computes (\<open>sqrt\<close>, \<open>erf\<close>, \<open>e\<close>, all of them doubles) is the
  argument \<open>m\<close>. The theorems: the bisection ends and brackets the quantile, the windows never overlap and keep
  their embargo, and the configuration a fold selects is the one an uncached search over the training bars alone
  selects.
\<close>

record py_math =
  pm_sqrt :: "rat \<Rightarrow> rat"
  pm_erf :: "rat \<Rightarrow> rat"
  pm_e :: rat

subsection \<open>Statistics\<close>

definition EULER_MASCHERONI :: rat where
  "EULER_MASCHERONI = 5772156649015329 / 10000000000000000"

definition normal_cdf :: "py_math \<Rightarrow> rat \<Rightarrow> rat" where
  "normal_cdf m z = 1 / 2 * (1 + pm_erf m (z / pm_sqrt m 2))"

definition PPF_TOLERANCE :: rat where
  "PPF_TOLERANCE = 1 / 1000000000000"

lemma halving_measure:
  fixes x :: rat
  assumes "1 < x"
  shows "nat \<lceil>x / 2\<rceil> < nat \<lceil>x\<rceil>"
proof -
  have two: "2 \<le> \<lceil>x\<rceil>" using assms by linarith
  then have "2 \<le> (of_int \<lceil>x\<rceil> :: rat)" by linarith
  then have "x / 2 \<le> of_int (\<lceil>x\<rceil> - 1)" using le_of_int_ceiling [of x] unfolding of_int_diff of_int_1 by linarith
  then have "\<lceil>x / 2\<rceil> \<le> \<lceil>x\<rceil> - 1" by (rule ceiling_le)
  then show ?thesis using two by linarith
qed

function ppf_loop :: "(rat \<Rightarrow> rat) \<Rightarrow> rat \<Rightarrow> rat \<Rightarrow> rat \<Rightarrow> rat" where
  "ppf_loop cdf p low high =
     (if PPF_TOLERANCE < high - low
      then (let mid = (low + high) / 2 in if cdf mid < p then ppf_loop cdf p mid high else ppf_loop cdf p low mid)
      else (low + high) / 2)"
  by auto
termination
proof (relation "measure (\<lambda>(_, _, low, high). nat \<lceil>(high - low) / PPF_TOLERANCE\<rceil>)")
  fix cdf :: "rat \<Rightarrow> rat" and p low high mid :: rat
  assume wide: "PPF_TOLERANCE < high - low" and mid: "mid = (low + high) / 2"
  have "1 < (high - low) / PPF_TOLERANCE" using wide by (simp add: PPF_TOLERANCE_def)
  moreover have "(high - mid) / PPF_TOLERANCE = (high - low) / PPF_TOLERANCE / 2" "(mid - low) / PPF_TOLERANCE = (high - low) / PPF_TOLERANCE / 2"
    by (simp_all add: mid field_simps)
  ultimately show "((cdf, p, mid, high), cdf, p, low, high) \<in> measure (\<lambda>(_, _, low, high). nat \<lceil>(high - low) / PPF_TOLERANCE\<rceil>)"
    "((cdf, p, low, mid), cdf, p, low, high) \<in> measure (\<lambda>(_, _, low, high). nat \<lceil>(high - low) / PPF_TOLERANCE\<rceil>)"
    using halving_measure [of "(high - low) / PPF_TOLERANCE"] by simp_all
qed simp

declare ppf_loop.simps [simp del]

definition normal_ppf :: "py_math \<Rightarrow> rat \<Rightarrow> exn + rat" where
  "normal_ppf m p =
     (if \<not> (0 < p \<and> p < 1) then Inl (ValueError [S ''normal_ppf needs 0 < p < 1, got '', F [] (Fin p)])
      else Inr (ppf_loop (normal_cdf m) p (- 40) 40))"

definition stat_mean :: "rat list \<Rightarrow> rat" where
  "stat_mean xs = (if xs = [] then 0 else sum_list xs / of_nat (length xs))"

definition stdev :: "py_math \<Rightarrow> rat list \<Rightarrow> rat" where
  "stdev m xs =
     (if length xs < 2 then 0
      else (let mu = stat_mean xs in pm_sqrt m (sum_list (map (\<lambda>v. (v - mu) ^ 2) xs) / of_nat (length xs))))"

definition skewness :: "py_math \<Rightarrow> rat list \<Rightarrow> rat" where
  "skewness m xs =
     (if length xs < 3 then 0
      else
        (let sigma = stdev m xs; mu = stat_mean xs in
         if sigma = 0 then 0 else sum_list (map (\<lambda>v. ((v - mu) / sigma) ^ 3) xs) / of_nat (length xs)))"

definition kurtosis :: "py_math \<Rightarrow> rat list \<Rightarrow> rat" where
  "kurtosis m xs =
     (if length xs < 4 then 3
      else
        (let sigma = stdev m xs; mu = stat_mean xs in
         if sigma = 0 then 3 else sum_list (map (\<lambda>v. ((v - mu) / sigma) ^ 4) xs) / of_nat (length xs)))"

definition sharpe_ratio :: "py_math \<Rightarrow> rat list \<Rightarrow> rat" where
  "sharpe_ratio m returns =
     (if length returns < 2 then 0
      else (let sigma = stdev m returns in if sigma = 0 then 0 else stat_mean returns / sigma))"

definition annualise :: "py_math \<Rightarrow> rat \<Rightarrow> rat \<Rightarrow> rat" where
  "annualise m per_period_sharpe periods = per_period_sharpe * pm_sqrt m periods"

definition probabilistic_sharpe_ratio :: "py_math \<Rightarrow> rat list \<Rightarrow> rat \<Rightarrow> rat option" where
  "probabilistic_sharpe_ratio m returns benchmark =
     (let n = length returns in
      if n < 4 then None
      else
        (let observed = sharpe_ratio m returns in
         if observed = 0 \<and> stdev m returns = 0 then None
         else
           (let variance_term = 1 - skewness m returns * observed + (kurtosis m returns - 1) / 4 * observed ^ 2 in
            if variance_term \<le> 0 then None
            else Some (normal_cdf m ((observed - benchmark) * pm_sqrt m (of_nat n - 1) / pm_sqrt m variance_term)))))"

definition expected_max_sharpe :: "py_math \<Rightarrow> nat \<Rightarrow> rat \<Rightarrow> exn + rat" where
  "expected_max_sharpe m n_trials variance =
     (if n_trials \<le> 1 \<or> variance \<le> 0 then Inr 0
      else
        bindE (normal_ppf m (1 - 1 / of_nat n_trials)) (\<lambda>a.
        bindE (normal_ppf m (1 - 1 / (of_nat n_trials * pm_e m))) (\<lambda>b.
          Inr (pm_sqrt m variance * ((1 - EULER_MASCHERONI) * a + EULER_MASCHERONI * b)))))"

definition deflated_sharpe_ratio :: "py_math \<Rightarrow> rat list \<Rightarrow> rat list \<Rightarrow> nat option \<Rightarrow> exn + rat option" where
  "deflated_sharpe_ratio m returns trial_sharpes n_trials =
     (if length returns < 4 then Inr None
      else if trial_sharpes = [] then Inr (probabilistic_sharpe_ratio m returns 0)
      else
        (let count = (case n_trials of None \<Rightarrow> length trial_sharpes | Some n \<Rightarrow> max n (length trial_sharpes)) in
         bindE (expected_max_sharpe m count (stdev m trial_sharpes ^ 2)) (\<lambda>benchmark.
           Inr (probabilistic_sharpe_ratio m returns benchmark))))"

definition returns_from_equity :: "rat list \<Rightarrow> rat list" where
  "returns_from_equity curve =
     map (\<lambda>i. (curve ! i - curve ! (i - 1)) / curve ! (i - 1)) (filter (\<lambda>i. 0 < curve ! (i - 1)) [1..<length curve])"

subsection \<open>Windows\<close>

definition MIN_TRADES_TO_SELECT :: nat where
  "MIN_TRADES_TO_SELECT = 3"

definition MIN_OOS_TRADES_FOR_CONFIDENCE :: nat where
  "MIN_OOS_TRADES_FOR_CONFIDENCE = 30"

record data_fold =
  fd_index :: nat
  fd_train_end :: int
  fd_test_start :: int
  fd_test_end :: int

definition fold_at :: "int \<Rightarrow> int \<Rightarrow> int \<Rightarrow> int \<Rightarrow> int \<Rightarrow> int \<Rightarrow> int \<Rightarrow> data_fold list \<Rightarrow> data_fold list" where
  "fold_at n_bars n_splits warmup embargo_bars min_train_bars window k folds =
     (let test_start = warmup + min_train_bars + k * window;
          test_end = (if k < n_splits - 1 then test_start + window else n_bars);
          train_end = max 0 (test_start - embargo_bars)
      in if train_end < warmup + min_train_bars div 2 \<or> test_end - test_start < 2 then folds
         else folds @ [\<lparr>fd_index = length folds, fd_train_end = train_end, fd_test_start = test_start, fd_test_end = test_end\<rparr>])"

definition make_folds :: "int \<Rightarrow> int \<Rightarrow> int \<Rightarrow> int \<Rightarrow> int \<Rightarrow> exn + data_fold list" where
  "make_folds n_bars n_splits warmup embargo_bars min_train_bars =
     (if n_splits < 1 then Inl (ValueError [S ''n_splits must be at least 1, got '', I n_splits])
      else
        (let tradeable = n_bars - warmup in
         if tradeable \<le> 0 then Inr []
         else
           (let test_total = tradeable - min_train_bars in
            if test_total \<le> 0 then Inr []
            else
              (let window = test_total div n_splits in
               if window < 2 then Inr []
               else Inr (fold (\<lambda>k. fold_at n_bars n_splits warmup embargo_bars min_train_bars window (int k)) [0..<nat n_splits] [])))))"

subsection \<open>Scoring\<close>

text \<open>A loop whose body may raise.\<close>

primrec foldE :: "('a \<Rightarrow> 's \<Rightarrow> exn + 's) \<Rightarrow> 'a list \<Rightarrow> 's \<Rightarrow> exn + 's" where
  "foldE f [] st = Inr st"
| "foldE f (x # xs) st = bindE (f x st) (foldE f xs)"

text \<open>\<open>_SignalCache\<close>: the signals over all bars by the full label of the configuration.\<close>

type_synonym signal_cache = "(string \<times> string list) list"

definition for_params :: "py_math \<Rightarrow> backtest_request \<Rightarrow> ohlcv_bar list \<Rightarrow> strategy_params \<Rightarrow> signal_cache \<Rightarrow> exn + string list \<times> signal_cache" where
  "for_params m r bars p cache =
     (case map_of cache (params_label p None) of
        Some signals \<Rightarrow> Inr (signals, cache)
      | None \<Rightarrow>
          bindE (compute_signals (pm_sqrt m) bars (r\<lparr>br_params := p\<rparr>)) (\<lambda>signals.
            Inr (signals, AList.update (params_label p None) signals cache)))"

record window_score =
  ws_sharpe :: rat
  ws_total_return :: rat
  ws_trades :: nat
  ws_profit_factor :: rat
  ws_returns :: "rat list"

definition score_run :: "py_math \<Rightarrow> (instant \<Rightarrow> int) \<Rightarrow> backtest_request \<Rightarrow> ohlcv_bar list \<Rightarrow> string list \<Rightarrow> nat \<Rightarrow> window_score" where
  "score_run m session variant window signals start_index =
     (let result = simulate session variant window signals (cost_per_side_pct variant) start_index;
          returns = returns_from_equity (sm_curve result); capital = br_initial_capital variant
      in \<lparr>ws_sharpe = sharpe_ratio m returns, ws_total_return = (sm_equity result - capital) / capital,
          ws_trades = length (sm_trades result), ws_profit_factor = bt_profit_factor (sm_trades result), ws_returns = returns\<rparr>)"

definition score_cached :: "py_math \<Rightarrow> (instant \<Rightarrow> int) \<Rightarrow> backtest_request \<Rightarrow> ohlcv_bar list \<Rightarrow> strategy_params \<Rightarrow> nat \<Rightarrow> nat \<Rightarrow>
    signal_cache \<Rightarrow> exn + window_score \<times> signal_cache" where
  "score_cached m session r bars p start_index end_index cache =
     bindE (for_params m r bars p cache) (\<lambda>(signals, cache').
       Inr (score_run m session (r\<lparr>br_params := p\<rparr>) (take end_index bars) (take end_index signals) start_index, cache'))"

text \<open>\<open>_score\<close> without a cache.\<close>

definition score_plain :: "py_math \<Rightarrow> (instant \<Rightarrow> int) \<Rightarrow> backtest_request \<Rightarrow> ohlcv_bar list \<Rightarrow> strategy_params \<Rightarrow> nat \<Rightarrow> nat \<Rightarrow> exn + window_score" where
  "score_plain m session r bars p start_index end_index =
     (let variant = r\<lparr>br_params := p\<rparr>; window = take end_index bars in
      bindE (compute_signals (pm_sqrt m) window variant) (\<lambda>signals.
        Inr (score_run m session variant window (take end_index signals) start_index)))"

definition objective_value :: "string \<Rightarrow> window_score \<Rightarrow> rat" where
  "objective_value objective s =
     (if objective = ''return'' then ws_total_return s else if objective = ''profit_factor'' then ws_profit_factor s else ws_sharpe s)"

type_synonym best_so_far = "(rat \<times> strategy_params \<times> rat \<times> nat) option"

definition consider_score :: "string \<Rightarrow> strategy_params \<Rightarrow> window_score \<Rightarrow> best_so_far \<Rightarrow> best_so_far" where
  "consider_score objective p s best =
     (if ws_trades s < MIN_TRADES_TO_SELECT then best
      else
        (let v = objective_value objective s; candidate = Some (v, p, ws_sharpe s, ws_trades s) in
         case best of None \<Rightarrow> candidate | Some (v0, _) \<Rightarrow> if v0 < v then candidate else best))"

definition select_params :: "py_math \<Rightarrow> (instant \<Rightarrow> int) \<Rightarrow> backtest_request \<Rightarrow> ohlcv_bar list \<Rightarrow> strategy_params list \<Rightarrow> nat \<Rightarrow> string \<Rightarrow> nat \<Rightarrow>
    signal_cache \<Rightarrow> exn + best_so_far \<times> signal_cache" where
  "select_params m session r bars combos warmup objective train_end cache =
     foldE (\<lambda>p (best, cache).
         bindE (score_cached m session r bars p warmup train_end cache) (\<lambda>(s, cache').
           Inr (consider_score objective p s best, cache'))) combos (None, cache)"

subsection \<open>Walk-forward\<close>

record fold_result =
  fr_fold :: nat
  fr_train_bars :: int
  fr_test_bars :: int
  fr_train_end :: instant
  fr_test_start :: instant
  fr_test_end :: instant
  fr_selected_params :: strategy_params
  fr_selected_label :: string
  fr_in_sample_sharpe :: rat
  fr_in_sample_trades :: nat
  fr_out_of_sample_sharpe :: rat
  fr_out_of_sample_return_pct :: rat
  fr_out_of_sample_trades :: nat
  fr_out_of_sample_profit_factor :: rat

record walk_state =
  wk_folds :: "fold_result list"
  wk_oos_returns :: "rat list"
  wk_in_sample_sharpes :: "rat list"
  wk_selected :: "strategy_params list"
  wk_warnings :: "msg list"
  wk_cache :: signal_cache

definition fold_report :: "py_math \<Rightarrow> ohlcv_bar list \<Rightarrow> strategy \<Rightarrow> rat \<Rightarrow> data_fold \<Rightarrow> strategy_params \<Rightarrow> rat \<Rightarrow> nat \<Rightarrow> window_score \<Rightarrow> fold_result" where
  "fold_report m bars strategy periods fd p is_sharpe is_trades oos =
     \<lparr>fr_fold = fd_index fd, fr_train_bars = fd_train_end fd, fr_test_bars = fd_test_end fd - fd_test_start fd,
      fr_train_end = ba_timestamp (bars ! nat (max 0 (fd_train_end fd - 1))), fr_test_start = ba_timestamp (bars ! nat (fd_test_start fd)),
      fr_test_end = ba_timestamp (bars ! nat (min (fd_test_end fd) (int (length bars)) - 1)),
      fr_selected_params = p, fr_selected_label = strategy_label strategy p,
      fr_in_sample_sharpe = py_round 4 (annualise m is_sharpe periods), fr_in_sample_trades = is_trades,
      fr_out_of_sample_sharpe = py_round 4 (annualise m (ws_sharpe oos) periods),
      fr_out_of_sample_return_pct = py_round 4 (ws_total_return oos), fr_out_of_sample_trades = ws_trades oos,
      fr_out_of_sample_profit_factor = py_round 4 (ws_profit_factor oos)\<rparr>"

definition walk_fold :: "py_math \<Rightarrow> (instant \<Rightarrow> int) \<Rightarrow> backtest_request \<Rightarrow> ohlcv_bar list \<Rightarrow> strategy \<Rightarrow> strategy_params list \<Rightarrow> nat \<Rightarrow> string \<Rightarrow>
    rat \<Rightarrow> data_fold \<Rightarrow> walk_state \<Rightarrow> exn + walk_state" where
  "walk_fold m session r bars strategy combos warmup objective periods fd st =
     bindE (select_params m session r bars combos warmup objective (nat (fd_train_end fd)) (wk_cache st)) (\<lambda>(best, cache).
       case best of
         None \<Rightarrow> Inr (st\<lparr>wk_cache := cache, wk_warnings := wk_warnings st @
             [[S ''Fold '', I (int (fd_index fd)), S '': no configuration traded at least '', I (int MIN_TRADES_TO_SELECT),
               S '' times in training -- fold skipped.'']]\<rparr>)
       | Some (_, p, is_sharpe, is_trades) \<Rightarrow>
           bindE (score_cached m session r bars p (nat (fd_test_start fd)) (nat (fd_test_end fd)) cache) (\<lambda>(oos, cache').
             Inr (st\<lparr>wk_cache := cache', wk_selected := wk_selected st @ [p], wk_in_sample_sharpes := wk_in_sample_sharpes st @ [is_sharpe],
               wk_oos_returns := wk_oos_returns st @ ws_returns oos,
               wk_folds := wk_folds st @ [fold_report m bars strategy periods fd p is_sharpe is_trades oos]\<rparr>)))"

definition compound :: "rat list \<Rightarrow> rat list" where
  "compound returns = map (\<lambda>n. prod_list (map (\<lambda>x. 1 + x) (take n returns))) [0..<Suc (length returns)]"

definition parameter_stability :: "strategy_params list \<Rightarrow> string list option \<Rightarrow> rat" where
  "parameter_stability selected names =
     (if selected = [] then 0
      else (let keys = map (\<lambda>p. params_label p names) selected
            in of_nat (Max (set (map (count_list keys) keys))) / of_nat (length selected)))"

record walk_forward_result =
  wf_symbol :: string
  wf_timeframe :: string
  wf_bars_count :: nat
  wf_n_folds :: nat
  wf_n_trials :: nat
  wf_trial_sharpes :: "rat list"
  wf_out_of_sample_returns :: "rat list"
  wf_objective :: string
  wf_embargo_bars :: int
  wf_folds :: "fold_result list"
  wf_in_sample_sharpe :: rat
  wf_out_of_sample_sharpe :: rat
  wf_out_of_sample_return_pct :: rat
  wf_out_of_sample_max_drawdown_pct :: rat
  wf_out_of_sample_trades :: nat
  wf_sharpe_degradation :: rat
  wf_probabilistic_sharpe_ratio :: "rat option"
  wf_deflated_sharpe_ratio :: "rat option"
  wf_trial_sharpe_dispersion :: rat
  wf_parameter_stability :: rat
  wf_warnings :: "msg list"

definition rounded :: "rat option \<Rightarrow> rat option" where
  "rounded x = map_option (py_round 4) x"

definition walk_warnings :: "walk_state \<Rightarrow> rat \<Rightarrow> msg list" where
  "walk_warnings st stability =
     (let total = sum_list (map fr_out_of_sample_trades (wk_folds st)) in
      wk_warnings st @
      (if total < MIN_OOS_TRADES_FOR_CONFIDENCE
       then [[S ''Only '', I (int total), S '' out-of-sample trades. A Sharpe ratio computed from a handful of round trips is dominated by which ones they happened to be -- treat every figure here as an anecdote, not a measurement.'']]
       else []) @
      (if stability < 1 / 2 \<and> 1 < length (wk_selected st)
       then [[S ''Parameter stability '', F ''.0%'' (Fin stability), S '': the folds disagree about which configuration is best, which is what fitting to noise looks like.'']]
       else []))"

definition walk_report :: "py_math \<Rightarrow> backtest_request \<Rightarrow> ohlcv_bar list \<Rightarrow> strategy \<Rightarrow> nat \<Rightarrow> string \<Rightarrow> int \<Rightarrow> rat list \<Rightarrow> walk_state \<Rightarrow> exn + walk_forward_result" where
  "walk_report m r bars strategy n_trials objective embargo trial_sharpes st =
     (let periods = periods_per_year_for r bars; oos = wk_oos_returns st; curve = compound oos;
          oos_sharpe = sharpe_ratio m oos; is_mean = sum_list (wk_in_sample_sharpes st) / of_nat (length (wk_in_sample_sharpes st));
          stability = parameter_stability (wk_selected st) (Some (sg_param_fields strategy))
      in bindE (deflated_sharpe_ratio m oos trial_sharpes None) (\<lambda>deflated.
           Inr \<lparr>wf_symbol = br_symbol r, wf_timeframe = br_timeframe r, wf_bars_count = length bars, wf_n_folds = length (wk_folds st),
             wf_n_trials = n_trials, wf_trial_sharpes = map (py_round 8) trial_sharpes, wf_out_of_sample_returns = map (py_round 10) oos,
             wf_objective = objective, wf_embargo_bars = embargo, wf_folds = wk_folds st,
             wf_in_sample_sharpe = py_round 4 (annualise m is_mean periods),
             wf_out_of_sample_sharpe = py_round 4 (annualise m oos_sharpe periods),
             wf_out_of_sample_return_pct = py_round 4 (last curve - 1),
             wf_out_of_sample_max_drawdown_pct = py_round 4 (bt_max_drawdown curve),
             wf_out_of_sample_trades = sum_list (map fr_out_of_sample_trades (wk_folds st)),
             wf_sharpe_degradation = py_round 4 (annualise m (is_mean - oos_sharpe) periods),
             wf_probabilistic_sharpe_ratio = rounded (probabilistic_sharpe_ratio m oos 0),
             wf_deflated_sharpe_ratio = rounded deflated,
             wf_trial_sharpe_dispersion = py_round 4 (annualise m (stdev m trial_sharpes) periods),
             wf_parameter_stability = py_round 4 stability, wf_warnings = walk_warnings st stability\<rparr>))"

definition trial_scores :: "py_math \<Rightarrow> (instant \<Rightarrow> int) \<Rightarrow> backtest_request \<Rightarrow> ohlcv_bar list \<Rightarrow> strategy_params list \<Rightarrow> nat \<Rightarrow> signal_cache \<Rightarrow>
    exn + (strategy_params \<times> window_score) list \<times> signal_cache" where
  "trial_scores m session r bars combos warmup cache =
     foldE (\<lambda>p (xs, cache).
         bindE (score_cached m session r bars p warmup (length bars) cache) (\<lambda>(s, cache').
           Inr (xs @ [(p, s)], cache'))) combos ([], cache)"

text \<open>The longest warm-up of the configurations; the grid is not empty where this is used.\<close>

definition grid_warmup :: "strategy \<Rightarrow> strategy_params list \<Rightarrow> int" where
  "grid_warmup strategy combos = Max (set (map (sg_warmup strategy) combos))"

definition walk_start :: "int \<Rightarrow> data_fold list \<Rightarrow> walk_state" where
  "walk_start n_splits folds =
     \<lparr>wk_folds = [], wk_oos_returns = [], wk_in_sample_sharpes = [], wk_selected = [],
      wk_warnings = (if int (length folds) < n_splits
        then [[S ''Only '', I (int (length folds)), S '' of '', I n_splits, S '' folds had enough data; the rest were dropped.'']]
        else []),
      wk_cache = []\<rparr>"

definition walk_finish :: "py_math \<Rightarrow> (instant \<Rightarrow> int) \<Rightarrow> backtest_request \<Rightarrow> ohlcv_bar list \<Rightarrow> strategy \<Rightarrow> strategy_params list \<Rightarrow> nat \<Rightarrow> string \<Rightarrow> int \<Rightarrow>
    walk_state \<Rightarrow> exn + walk_forward_result" where
  "walk_finish m session r bars strategy combos warmup objective embargo st =
     (if wk_folds st = []
      then Inl (ValueError [S ''No fold produced a usable result -- no configuration traded enough in any training window. The strategy may be too selective for this data.''])
      else
        bindE (trial_scores m session r bars combos warmup (wk_cache st)) (\<lambda>(scores, _).
          walk_report m r bars strategy (length combos) objective embargo (map (ws_sharpe \<circ> snd) scores) st))"

definition walk_forward :: "py_math \<Rightarrow> (instant \<Rightarrow> int) \<Rightarrow> backtest_request \<Rightarrow> ohlcv_bar list \<Rightarrow> parameter_grid \<Rightarrow> int \<Rightarrow> int option \<Rightarrow> string \<Rightarrow>
    exn + walk_forward_result" where
  "walk_forward m session r bars grid n_splits embargo_bars objective =
     bindE (combinations (pm_sqrt m) grid (Some (br_strategy r))) (\<lambda>combos.
       if combos = [] then Inl (ValueError [S ''Parameter grid is empty -- every combination was invalid''])
       else
         bindE (get_strategy (pm_sqrt m) (br_strategy r)) (\<lambda>strategy.
           let warmup = grid_warmup strategy combos;
               embargo = (case embargo_bars of None \<Rightarrow> warmup | Some e \<Rightarrow> e);
               min_train = max (warmup * 2) 60
           in bindE (make_folds (int (length bars)) n_splits warmup embargo min_train) (\<lambda>folds.
                if folds = []
                then Inl (ValueError [S ''Not enough data for '', I n_splits, S '' walk-forward folds: '', I (int (length bars)), S '' bars, '',
                       I warmup, S '' needed for warm-up and '', I min_train,
                       S '' for the first training window. Increase period_days or reduce n_splits.''])
                else
                  bindE (foldE (walk_fold m session r bars strategy combos (nat warmup) objective (periods_per_year_for r bars)) folds
                         (walk_start n_splits folds)) (walk_finish m session r bars strategy combos (nat warmup) objective embargo))))"

subsection \<open>Parameter sensitivity\<close>

record param_score =
  pr_params :: strategy_params
  pr_label :: string
  pr_sharpe_ratio :: rat
  pr_total_return_pct :: rat
  pr_total_trades :: nat
  pr_profit_factor :: rat

record sensitivity_result =
  pv_symbol :: string
  pv_timeframe :: string
  pv_grid_size :: nat
  pv_best :: param_score
  pv_worst :: param_score
  pv_scores :: "param_score list"
  pv_profitable_count :: nat
  pv_profitable_fraction :: rat
  pv_neighbour_count :: nat
  pv_neighbour_mean_sharpe :: "rat option"
  pv_plateau_ratio :: "rat option"
  pv_sharpe_dispersion :: rat
  pv_warnings :: "msg list"

definition score_entry :: "py_math \<Rightarrow> strategy \<Rightarrow> rat \<Rightarrow> strategy_params \<Rightarrow> window_score \<Rightarrow> param_score" where
  "score_entry m strategy periods p s =
     \<lparr>pr_params = p, pr_label = strategy_label strategy p, pr_sharpe_ratio = py_round 4 (annualise m (ws_sharpe s) periods),
      pr_total_return_pct = py_round 4 (ws_total_return s), pr_total_trades = ws_trades s, pr_profit_factor = py_round 4 (ws_profit_factor s)\<rparr>"

definition sensitivity_warnings :: "rat option \<Rightarrow> rat option \<Rightarrow> param_score \<Rightarrow> nat \<Rightarrow> nat \<Rightarrow> msg list" where
  "sensitivity_warnings plateau_ratio neighbour_mean best profitable n =
     (case (plateau_ratio, neighbour_mean) of
        (Some ratio, Some mean) \<Rightarrow>
          if ratio < 1 / 2
          then [[S ''The best configuration's neighbours average '', F ''.2f'' (Fin mean), S '' Sharpe against its own '', F ''.2f'' (Fin (pr_sharpe_ratio best)),
                 S ''. That is a spike, not a plateau: one step away in any single parameter and most of the result is gone.'']]
          else []
      | _ \<Rightarrow> []) @
     (if of_nat profitable / of_nat n < (1 / 4 :: rat)
      then [[S ''Only '', I (int profitable), S ''/'', I (int n), S '' configurations were profitable. The winner is being drawn from a mostly losing population.'']]
      else [])"

definition parameter_sensitivity :: "py_math \<Rightarrow> (instant \<Rightarrow> int) \<Rightarrow> backtest_request \<Rightarrow> ohlcv_bar list \<Rightarrow> parameter_grid \<Rightarrow> exn + sensitivity_result" where
  "parameter_sensitivity m session r bars grid =
     bindE (combinations (pm_sqrt m) grid (Some (br_strategy r))) (\<lambda>combos.
       if combos = [] then Inl (ValueError [S ''Parameter grid is empty -- every combination was invalid''])
       else
         bindE (get_strategy (pm_sqrt m) (br_strategy r)) (\<lambda>strategy.
           let warmup = grid_warmup strategy combos in
           if int (length bars) \<le> warmup + 2
           then Inl (ValueError [S ''Need more than '', I (warmup + 2), S '' bars to score this grid, got '', I (int (length bars))])
           else
             bindE (trial_scores m session r bars combos (nat warmup) []) (\<lambda>(results, _).
               let periods = periods_per_year_for r bars;
                   scores = fold (\<lambda>(p, s). AList.update (strategy_label strategy p) (score_entry m strategy periods p s)) results [];
                   ranked = sort_key (\<lambda>x. - pr_sharpe_ratio x) (map snd scores);
                   best = hd ranked;
                   profitable = length (filter (\<lambda>x. 0 < pr_total_return_pct x) (map snd scores))
               in bindE (neighbours (pm_sqrt m) grid (pr_params best) (Some (br_strategy r))) (\<lambda>around.
                    let found = List.map_filter (\<lambda>n. map_of scores (strategy_label strategy n)) around;
                        neighbour_mean = (if found = [] then None else Some (sum_list (map pr_sharpe_ratio found) / of_nat (length found)));
                        plateau_ratio = (case neighbour_mean of
                            Some mean \<Rightarrow> if 0 < pr_sharpe_ratio best then Some (py_round 4 (mean / pr_sharpe_ratio best)) else None
                          | None \<Rightarrow> None)
                    in Inr \<lparr>pv_symbol = br_symbol r, pv_timeframe = br_timeframe r, pv_grid_size = length combos, pv_best = best, pv_worst = last ranked,
                         pv_scores = ranked, pv_profitable_count = profitable,
                         pv_profitable_fraction = py_round 4 (of_nat profitable / of_nat (length scores)),
                         pv_neighbour_count = length found, pv_neighbour_mean_sharpe = rounded neighbour_mean, pv_plateau_ratio = plateau_ratio,
                         pv_sharpe_dispersion = py_round 4 (stdev m (map (pr_sharpe_ratio \<circ> snd) scores)),
                         pv_warnings = sensitivity_warnings plateau_ratio neighbour_mean best profitable (length scores)\<rparr>))))"

subsection \<open>The bisection\<close>

lemma ppf_loop_brackets:
  "cdf low < p \<Longrightarrow> p \<le> cdf high \<Longrightarrow>
   \<exists>l h. ppf_loop cdf p low high = (l + h) / 2 \<and> h - l \<le> PPF_TOLERANCE \<and> cdf l < p \<and> p \<le> cdf h"
proof (induction cdf p low high rule: ppf_loop.induct)
  case (1 cdf p low high)
  show ?case
  proof (cases "PPF_TOLERANCE < high - low")
    case True
    then show ?thesis using 1 by (subst ppf_loop.simps) (auto simp: Let_def not_less)
  next
    case False
    then have "ppf_loop cdf p low high = (low + high) / 2" "high - low \<le> PPF_TOLERANCE" by (simp_all add: ppf_loop.simps)
    with "1.prems" show ?thesis by blast
  qed
qed

subsection \<open>The windows\<close>

definition fold_from :: "int \<Rightarrow> int \<Rightarrow> int \<Rightarrow> int \<Rightarrow> int \<Rightarrow> nat \<Rightarrow> data_fold \<Rightarrow> bool" where
  "fold_from n_bars n base embargo window k f =
     (fd_test_start f = base + int k * window \<and> fd_test_end f = (if int k < n - 1 then base + (int k + 1) * window else n_bars) \<and>
      fd_train_end f = max 0 (fd_test_start f - embargo))"

lemma fold_loop:
  fixes n_bars n w e mt window
  assumes "0 \<le> window"
  defines "go \<equiv> \<lambda>k. fold (\<lambda>k. fold_at n_bars n w e mt window (int k)) [0..<k] []"
  shows "int k \<le> n \<Longrightarrow>
    map fd_index (go k) = [0..<length (go k)] \<and> sorted_wrt (\<lambda>f g. fd_test_end f \<le> fd_test_start g) (go k) \<and>
    (\<forall>f \<in> set (go k). w + mt div 2 \<le> fd_train_end f \<and> 2 \<le> fd_test_end f - fd_test_start f \<and> (\<exists>j < k. fold_from n_bars n (w + mt) e window j f))"
proof (induction k)
  case 0
  show ?case by (simp add: go_def)
next
  case (Suc k)
  let ?P = "\<lambda>k f. w + mt div 2 \<le> fd_train_end f \<and> 2 \<le> fd_test_end f - fd_test_start f \<and> (\<exists>j < k. fold_from n_bars n (w + mt) e window j f)"
  have k: "int k \<le> n" "int k < n" using Suc.prems by simp_all
  note IH = Suc.IH [OF k(1)]
  have old: "fd_test_end f \<le> w + mt + int k * window" if "f \<in> set (go k)" for f
  proof -
    from IH that obtain j where j: "j < k" "fold_from n_bars n (w + mt) e window j f" by blast
    then have "fd_test_end f = w + mt + (int j + 1) * window" using k by (simp add: fold_from_def)
    also have "\<dots> \<le> w + mt + int k * window" using j(1) assms(1) by (intro add_left_mono mult_right_mono) simp_all
    finally show ?thesis .
  qed
  define f where "f = \<lparr>fd_index = length (go k), fd_train_end = max 0 (w + mt + int k * window - e), fd_test_start = w + mt + int k * window,
    fd_test_end = (if int k < n - 1 then w + mt + int k * window + window else n_bars)\<rparr>"
  have go: "go (Suc k) = (if fd_train_end f < w + mt div 2 \<or> fd_test_end f - fd_test_start f < 2 then go k else go k @ [f])"
    by (simp add: go_def fold_at_def f_def Let_def)
  have "fold_from n_bars n (w + mt) e window k f" by (simp add: fold_from_def f_def algebra_simps)
  then have new: "?P (Suc k) f" if "\<not> (fd_train_end f < w + mt div 2 \<or> fd_test_end f - fd_test_start f < 2)" using that by auto
  have older: "?P (Suc k) g" if "g \<in> set (go k)" for g using IH that less_Suc_eq by blast
  show ?case
  proof (cases "fd_train_end f < w + mt div 2 \<or> fd_test_end f - fd_test_start f < 2")
    case True
    then show ?thesis using IH older by (simp add: go)
  next
    case False
    moreover have "fd_index f = length (go k)" "fd_test_start f = w + mt + int k * window" by (simp_all add: f_def)
    ultimately show ?thesis using IH older new [OF False] old by (simp add: go sorted_wrt_append)
  qed
qed

lemma fold_loop_full:
  fixes n_bars n w e mt window
  assumes "\<And>k. int k < n \<Longrightarrow> w + mt div 2 \<le> max 0 (w + mt + int k * window - e) \<and>
      2 \<le> (if int k < n - 1 then w + mt + int k * window + window else n_bars) - (w + mt + int k * window)"
  shows "int k \<le> n \<Longrightarrow> length (fold (\<lambda>k. fold_at n_bars n w e mt window (int k)) [0..<k] []) = k"
proof (induction k)
  case (Suc k)
  then have "int k < n" by simp
  from assms [OF this] have "length (fold_at n_bars n w e mt window (int k) fs) = Suc (length fs)" for fs
    by (auto simp: fold_at_def Let_def)
  with Suc show ?case by simp
qed simp

subsection \<open>The cache\<close>

text \<open>What the cache holds was computed for a configuration of the search that has this label.\<close>

definition good_cache :: "py_math \<Rightarrow> backtest_request \<Rightarrow> ohlcv_bar list \<Rightarrow> strategy_params list \<Rightarrow> signal_cache \<Rightarrow> bool" where
  "good_cache m r bars combos cache =
     (\<forall>(key, signals) \<in> set cache. \<exists>p \<in> set combos. key = params_label p None \<and> compute_signals (pm_sqrt m) bars (r\<lparr>br_params := p\<rparr>) = Inr signals)"

definition told_apart :: "strategy_params list \<Rightarrow> bool" where
  "told_apart combos = (\<forall>p \<in> set combos. \<forall>q \<in> set combos. params_label p None = params_label q None \<longrightarrow> p = q)"

lemma for_params_ok:
  assumes "told_apart combos" and "p \<in> set combos" and "good_cache m r bars combos cache" and "for_params m r bars p cache = Inr (signals, cache')"
  shows "compute_signals (pm_sqrt m) bars (r\<lparr>br_params := p\<rparr>) = Inr signals" "good_cache m r bars combos cache'"
proof -
  have "compute_signals (pm_sqrt m) bars (r\<lparr>br_params := p\<rparr>) = Inr signals \<and> good_cache m r bars combos cache'"
  proof (cases "map_of cache (params_label p None)")
    case None
    then show ?thesis using assms(2-4)
      by (auto simp: for_params_def good_cache_def bindE_Inr_iff dest!: alist_update_mem)
  next
    case (Some sigs)
    from map_of_SomeD [OF this] assms(3) obtain q where "q \<in> set combos" "params_label p None = params_label q None"
      "compute_signals (pm_sqrt m) bars (r\<lparr>br_params := q\<rparr>) = Inr sigs" unfolding good_cache_def by blast
    moreover from this assms(1,2) have "q = p" unfolding told_apart_def by blast
    ultimately show ?thesis using Some assms(3,4) by (simp add: for_params_def)
  qed
  then show "compute_signals (pm_sqrt m) bars (r\<lparr>br_params := p\<rparr>) = Inr signals" "good_cache m r bars combos cache'" by blast+
qed

lemma score_cached_ok:
  assumes "told_apart combos" and "p \<in> set combos" and "valid_params p" and "good_cache m r bars combos cache"
    and "score_cached m session r bars p k e cache = Inr (s, cache')"
  shows "score_plain m session r (take e bars) p k (length (take e bars)) = Inr s" "good_cache m r bars combos cache'"
proof -
  from assms(5) obtain signals where f: "for_params m r bars p cache = Inr (signals, cache')"
    and s: "s = score_run m session (r\<lparr>br_params := p\<rparr>) (take e bars) (take e signals) k"
    by (auto simp: score_cached_def bindE_Inr_iff)
  note ok = for_params_ok [OF assms(1,2,4) f]
  have v: "valid_params (br_params (r\<lparr>br_params := p\<rparr>))" using assms(3) by simp
  show "good_cache m r bars combos cache'" by (rule ok(2))
  show "score_plain m session r (take e bars) p k (length (take e bars)) = Inr s"
    using compute_signals_causal [OF ok(1) v] by (simp add: score_plain_def s min_def)
qed

text \<open>The search over the given bars and nothing else, with no cache.\<close>

definition select_plain :: "py_math \<Rightarrow> (instant \<Rightarrow> int) \<Rightarrow> backtest_request \<Rightarrow> ohlcv_bar list \<Rightarrow> strategy_params list \<Rightarrow> nat \<Rightarrow> string \<Rightarrow> best_so_far \<Rightarrow>
    exn + best_so_far" where
  "select_plain m session r bars combos warmup objective best =
     foldE (\<lambda>p best. bindE (score_plain m session r bars p warmup (length bars)) (\<lambda>s. Inr (consider_score objective p s best))) combos best"

lemma select_params_loop:
  assumes "told_apart combos" and "\<forall>p \<in> set combos. valid_params p"
  shows "set ps \<subseteq> set combos \<Longrightarrow> good_cache m r bars combos cache \<Longrightarrow>
    foldE (\<lambda>p (best, cache). bindE (score_cached m session r bars p warmup e cache) (\<lambda>(s, cache'). Inr (consider_score objective p s best, cache')))
      ps (best, cache) = Inr (best', cache') \<Longrightarrow>
    select_plain m session r (take e bars) ps warmup objective best = Inr best' \<and> good_cache m r bars combos cache'"
proof (induction ps arbitrary: best cache)
  case (Cons p ps)
  from Cons.prems(3) obtain s c where sc: "score_cached m session r bars p warmup e cache = Inr (s, c)"
    and rest: "foldE (\<lambda>p (best, cache). bindE (score_cached m session r bars p warmup e cache) (\<lambda>(s, cache'). Inr (consider_score objective p s best, cache')))
      ps (consider_score objective p s best, c) = Inr (best', cache')"
    by (auto simp: bindE_Inr_iff)
  have p: "p \<in> set combos" "set ps \<subseteq> set combos" using Cons.prems(1) by auto
  note ok = score_cached_ok [OF assms(1) p(1) _ Cons.prems(2) sc]
  show ?case using Cons.IH [OF p(2) _ rest] ok assms(2) p(1) by (simp add: select_plain_def)
qed (simp add: select_plain_def)

lemma select_params_ok:
  assumes "told_apart combos" and "\<forall>p \<in> set combos. valid_params p" and "good_cache m r bars combos cache"
    and "select_params m session r bars combos warmup objective e cache = Inr (best, cache')"
  shows "select_plain m session r (take e bars) combos warmup objective None = Inr best" "good_cache m r bars combos cache'"
  using select_params_loop [OF assms(1,2) subset_refl assms(3), of session warmup e objective None best cache'] assms(4)
  unfolding select_params_def by simp_all

lemma consider_mem:
  "consider_score objective p s best = Some (v, q, sh, t) \<Longrightarrow> q = p \<or> best = Some (v, q, sh, t)"
  by (auto simp: consider_score_def Let_def split: if_splits option.splits)

lemma select_plain_mem:
  "select_plain m session r bars ps warmup objective best = Inr (Some (v, q, sh, t)) \<Longrightarrow> q \<in> set ps \<or> best = Some (v, q, sh, t)"
proof (induction ps arbitrary: best)
  case (Cons p ps)
  then show ?case by (auto simp: select_plain_def bindE_Inr_iff dest: consider_mem)
qed (simp add: select_plain_def)

text \<open>A fold's report comes from an uncached search over its training bars and an uncached score over its test bars.\<close>

definition honest_fold :: "py_math \<Rightarrow> (instant \<Rightarrow> int) \<Rightarrow> backtest_request \<Rightarrow> ohlcv_bar list \<Rightarrow> strategy_params list \<Rightarrow> nat \<Rightarrow> string \<Rightarrow>
    rat \<Rightarrow> data_fold \<Rightarrow> fold_result \<Rightarrow> bool" where
  "honest_fold m session r bars combos warmup objective periods fd f =
     (fr_fold f = fd_index fd \<and> fr_train_bars f = fd_train_end fd \<and>
      (\<exists>v sharpe. select_plain m session r (take (nat (fd_train_end fd)) bars) combos warmup objective None =
         Inr (Some (v, fr_selected_params f, sharpe, fr_in_sample_trades f)) \<and> fr_in_sample_sharpe f = py_round 4 (annualise m sharpe periods)) \<and>
      (\<exists>oos. score_plain m session r (take (nat (fd_test_end fd)) bars) (fr_selected_params f) (nat (fd_test_start fd)) (length (take (nat (fd_test_end fd)) bars)) = Inr oos \<and>
         fr_out_of_sample_trades f = ws_trades oos \<and> fr_out_of_sample_return_pct f = py_round 4 (ws_total_return oos) \<and>
         fr_out_of_sample_sharpe f = py_round 4 (annualise m (ws_sharpe oos) periods) \<and>
         fr_out_of_sample_profit_factor f = py_round 4 (ws_profit_factor oos)))"

lemma walk_fold_ok:
  assumes "told_apart combos" and v: "\<forall>p \<in> set combos. valid_params p" and "good_cache m r bars combos (wk_cache st)"
    and "walk_fold m session r bars strategy combos warmup objective periods fd st = Inr st'"
  shows "good_cache m r bars combos (wk_cache st') \<and>
    (wk_folds st' = wk_folds st \<or> (\<exists>f. wk_folds st' = wk_folds st @ [f] \<and> honest_fold m session r bars combos warmup objective periods fd f))"
proof -
  from assms(4) obtain best cache where sel: "select_params m session r bars combos warmup objective (nat (fd_train_end fd)) (wk_cache st) = Inr (best, cache)"
    by (auto simp: walk_fold_def bindE_Inr_iff)
  note ok = select_params_ok [OF assms(1-3) sel]
  show ?thesis
  proof (cases best)
    case None
    then show ?thesis using assms(4) sel ok by (auto simp: walk_fold_def)
  next
    case (Some b)
    obtain x p sh t where b: "b = (x, p, sh, t)" by (cases b) auto
    have p: "p \<in> set combos" using select_plain_mem [of m session r _ combos warmup objective None] ok(1) by (auto simp: Some b)
    from assms(4) obtain oos c where sc: "score_cached m session r bars p (nat (fd_test_start fd)) (nat (fd_test_end fd)) cache = Inr (oos, c)"
      and st': "wk_cache st' = c" "wk_folds st' = wk_folds st @ [fold_report m bars strategy periods fd p sh t oos]"
      using sel by (auto simp: walk_fold_def Some b bindE_Inr_iff)
    note sc' = score_cached_ok [OF assms(1) p _ ok(2) sc]
    show ?thesis using sc' p v ok(1) by (auto simp: st' honest_fold_def fold_report_def Some b)
  qed
qed

lemma walk_loop_ok:
  assumes "told_apart combos" and "\<forall>p \<in> set combos. valid_params p"
  shows "foldE (walk_fold m session r bars strategy combos warmup objective periods) fds st = Inr st' \<Longrightarrow> good_cache m r bars combos (wk_cache st) \<Longrightarrow>
    set fds \<subseteq> set folds \<Longrightarrow> \<forall>f \<in> set (wk_folds st). \<exists>fd \<in> set folds. honest_fold m session r bars combos warmup objective periods fd f \<Longrightarrow>
    \<forall>f \<in> set (wk_folds st'). \<exists>fd \<in> set folds. honest_fold m session r bars combos warmup objective periods fd f"
proof (induction fds arbitrary: st)
  case (Cons fd fds)
  from Cons.prems(1) obtain s where s: "walk_fold m session r bars strategy combos warmup objective periods fd st = Inr s"
    and rest: "foldE (walk_fold m session r bars strategy combos warmup objective periods) fds s = Inr st'" by (auto simp: bindE_Inr_iff)
  note ok = walk_fold_ok [OF assms Cons.prems(2) s]
  have "\<forall>f \<in> set (wk_folds s). \<exists>fd \<in> set folds. honest_fold m session r bars combos warmup objective periods fd f"
    using ok Cons.prems(3,4) by auto
  with Cons.IH [OF rest] ok Cons.prems(3) show ?case by simp
qed simp


text \<open>The folds of a whole run.\<close>

lemma walk_finish_folds: "walk_finish m session r bars strategy combos w objective e st = Inr res \<Longrightarrow> wf_folds res = wk_folds st"
  by (auto simp: walk_finish_def walk_report_def Let_def bindE_Inr_iff split: if_splits)

lemma walk_forward_folds:
  assumes "walk_forward m session r bars grid n_splits embargo_bars objective = Inr res"
    and "combinations (pm_sqrt m) grid (Some (br_strategy r)) = Inr combos" and "told_apart combos"
  obtains strategy folds where "get_strategy (pm_sqrt m) (br_strategy r) = Inr strategy"
    and "make_folds (int (length bars)) n_splits (grid_warmup strategy combos)
      (case embargo_bars of None \<Rightarrow> grid_warmup strategy combos | Some e \<Rightarrow> e) (max (grid_warmup strategy combos * 2) 60) = Inr folds"
    and "\<forall>f \<in> set (wf_folds res). \<exists>fd \<in> set folds. honest_fold m session r bars combos (nat (grid_warmup strategy combos)) objective (periods_per_year_for r bars) fd f"
proof -
  from assms(1,2) obtain strategy where strategy: "get_strategy (pm_sqrt m) (br_strategy r) = Inr strategy"
    by (auto simp: walk_forward_def bindE_Inr_iff split: if_splits)
  define w where "w = grid_warmup strategy combos"
  define e where "e = (case embargo_bars of None \<Rightarrow> w | Some e \<Rightarrow> e)"
  have "combos \<noteq> []" using assms(1,2) by (auto simp: walk_forward_def)
  with assms(1,2) strategy obtain folds st where folds: "make_folds (int (length bars)) n_splits w e (max (w * 2) 60) = Inr folds"
    and loop: "foldE (walk_fold m session r bars strategy combos (nat w) objective (periods_per_year_for r bars)) folds (walk_start n_splits folds) = Inr st"
    and fin: "walk_finish m session r bars strategy combos (nat w) objective e st = Inr res"
    unfolding walk_forward_def Let_def w_def e_def by (simp add: bindE_Inr_iff split: if_splits) blast
  have "wf_folds res = wk_folds st" using fin by (rule walk_finish_folds)
  moreover have "\<forall>p \<in> set combos. valid_params p" using combinations_valid [OF assms(2)] by blast
  ultimately have "\<forall>f \<in> set (wf_folds res). \<exists>fd \<in> set folds. honest_fold m session r bars combos (nat w) objective (periods_per_year_for r bars) fd f"
    using walk_loop_ok [OF assms(3) _ loop, of folds] by (simp add: good_cache_def walk_start_def)
  then show thesis by (rule that [OF strategy folds [unfolded e_def w_def], folded w_def])
qed

subsection \<open>Properties\<close>

text \<open>
  The train and test windows keep their distance. With a non-negative embargo and a positive warm-up and initial
  training window, every fold trains on the bars before \<open>train_end\<close>, the embargo separates these from the first
  test bar, the test window has at least two bars inside the data, the test windows follow one another without
  overlap, and the folds are numbered in order. With the default embargo, when a search has any folds at all it has
  every one asked for.
\<close>

theorem folds_keep_their_distance:
  assumes "make_folds n_bars n_splits warmup embargo min_train = Inr folds" and "0 \<le> embargo" and "0 < warmup" and "0 \<le> min_train"
  shows "(\<forall>f \<in> set folds. 0 < fd_train_end f \<and> fd_train_end f + embargo = fd_test_start f \<and> fd_test_start f + 2 \<le> fd_test_end f \<and> fd_test_end f \<le> n_bars) \<and>
    sorted_wrt (\<lambda>f g. fd_test_end f \<le> fd_test_start g) folds \<and> map fd_index folds = [0..<length folds] \<and>
    (embargo = warmup \<and> min_train = max (warmup * 2) 60 \<and> folds \<noteq> [] \<longrightarrow> int (length folds) = n_splits)"
proof (cases "folds = []")
  case False
  define window where "window = (n_bars - warmup - min_train) div n_splits"
  from assms(1) False have n: "1 \<le> n_splits" and win: "2 \<le> window" and folds: "folds = fold (\<lambda>k. fold_at n_bars n_splits warmup embargo min_train window (int k)) [0..<nat n_splits] []"
    by (auto simp: make_folds_def window_def Let_def split: if_splits)
  have total: "n_splits * window \<le> n_bars - warmup - min_train"
    using n minus_mod_eq_mult_div [of "n_bars - warmup - min_train" n_splits] pos_mod_sign [of n_splits "n_bars - warmup - min_train"]
    unfolding window_def by linarith
  have ends: "warmup + min_train + (int k + 1) * window \<le> n_bars" if "int k < n_splits" for k
  proof -
    have "(int k + 1) * window \<le> n_splits * window" using that win by (intro mult_right_mono) simp_all
    with total show ?thesis by simp
  qed
  note loop = fold_loop [of window "nat n_splits" n_splits n_bars warmup embargo min_train, folded folds]
  have each: "0 < fd_train_end f \<and> fd_train_end f + embargo = fd_test_start f \<and> fd_test_start f + 2 \<le> fd_test_end f \<and> fd_test_end f \<le> n_bars"
    if "f \<in> set folds" for f
  proof -
    from loop win n that obtain j where f: "warmup + min_train div 2 \<le> fd_train_end f" "2 \<le> fd_test_end f - fd_test_start f" "j < nat n_splits"
      "fold_from n_bars n_splits (warmup + min_train) embargo window j f" by auto
    have "0 < fd_train_end f" using f(1) assms(3,4) by (simp add: order_less_le_trans)
    then show ?thesis using f ends [of j] by (auto simp: fold_from_def max_def split: if_splits)
  qed
  have "length folds = nat n_splits" if "embargo = warmup" "min_train = max (warmup * 2) 60"
    unfolding folds
  proof (rule fold_loop_full)
    fix k assume k: "int k < n_splits"
    have "0 \<le> int k * window" using win by simp
    moreover have "warmup + min_train div 2 \<le> min_train" using that by linarith
    ultimately have "warmup + min_train div 2 \<le> warmup + min_train + int k * window - embargo" using that(1) by linarith
    moreover have "2 \<le> (if int k < n_splits - 1 then warmup + min_train + int k * window + window else n_bars) - (warmup + min_train + int k * window)"
      using win ends [OF k] by (auto simp: algebra_simps)
    ultimately show "warmup + min_train div 2 \<le> max 0 (warmup + min_train + int k * window - embargo) \<and>
      2 \<le> (if int k < n_splits - 1 then warmup + min_train + int k * window + window else n_bars) - (warmup + min_train + int k * window)"
      by (simp only: le_max_iff_disj simp_thms)
  qed (use n in simp)
  then show ?thesis using each loop win n by auto
qed simp

theorem folds_keep_their_distance_witness:
  "make_folds 200 2 51 51 102 = Inr [\<lparr>fd_index = 0, fd_train_end = 102, fd_test_start = 153, fd_test_end = 176\<rparr>,
       \<lparr>fd_index = 1, fd_train_end = 125, fd_test_start = 176, fd_test_end = 200\<rparr>] \<and> (102 :: int) + 51 = 153"
proof -
  have "make_folds 200 2 51 51 102 = Inr [\<lparr>fd_index = 0, fd_train_end = 102, fd_test_start = 153, fd_test_end = 176\<rparr>,
       \<lparr>fd_index = 1, fd_train_end = 125, fd_test_start = 176, fd_test_end = 200\<rparr>]" by code_simp
  from this folds_keep_their_distance [OF this] show ?thesis by simp
qed

text \<open>
  The inverse normal is found. For every probability strictly between 0 and 1 the bisection ends, and when the
  distribution function is below it at -40 and at or above it at 40, the result is the middle of an interval no wider
  than the tolerance across which the function passes the probability; any other probability is a \<open>ValueError\<close>.
\<close>

theorem quantile_is_bracketed:
  "(\<forall>p. normal_ppf m p \<noteq> Inl (ValueError [S ''normal_ppf needs 0 < p < 1, got '', F [] (Fin p)]) \<longleftrightarrow> 0 < p \<and> p < 1) \<and>
   (\<forall>p. 0 < p \<and> p < 1 \<and> normal_cdf m (- 40) < p \<and> p \<le> normal_cdf m 40 \<longrightarrow>
      (\<exists>low high. normal_ppf m p = Inr ((low + high) / 2) \<and> high - low \<le> 1 / 10 ^ 12 \<and> normal_cdf m low < p \<and> p \<le> normal_cdf m high))"
  using ppf_loop_brackets [of "normal_cdf m" "- 40" _ 40] by (auto simp: normal_ppf_def PPF_TOLERANCE_def)

theorem quantile_is_bracketed_witness:
  "\<exists>low high. normal_ppf \<lparr>pm_sqrt = id, pm_erf = (\<lambda>x. if x < 0 then - 1 else 1), pm_e = 3\<rparr> (1 / 2) = Inr ((low + high) / 2) \<and> high - low \<le> 1 / 10 ^ 12"
proof -
  let ?m = "\<lparr>pm_sqrt = id, pm_erf = (\<lambda>x. if x < 0 then - 1 else 1), pm_e = 3\<rparr>"
  have "normal_cdf ?m (- 40) < 1 / 2" "1 / 2 \<le> normal_cdf ?m 40" by (simp_all add: normal_cdf_def)
  with conjunct2 [OF quantile_is_bracketed [of ?m], THEN spec [of _ "1 / 2"]] show ?thesis by fastforce
qed


text \<open>
  C23: A fold is chosen on the past and judged on what followed, as long as the full labels tell the configurations of the
  search apart (floats that agree in six digits share one). Then every figure a fold of the walk-forward reports is that of an
  uncached search given nothing but the bars before \<open>train_end\<close>: the selected configuration, its trade count and its
  in-sample Sharpe ratio come from there, and the out-of-sample trades, return, Sharpe ratio and profit factor are those of
  that configuration run on the bars up to the end of the test window, trading only from its start. The shared signal
  cache, computed over all bars, leaks nothing.
\<close>

theorem fold_selected_on_the_past:
  assumes "told_apart combos" and "\<forall>p \<in> set combos. make_params p = Some p" and "good_cache m r bars combos (wk_cache st)"
    and "walk_fold m session r bars strategy combos warmup objective periods fd st = Inr st'" and "f \<in> set (wk_folds st')" and "f \<notin> set (wk_folds st)"
  shows "fr_train_bars f = fd_train_end fd \<and>
    (\<exists>v sharpe. select_plain m session r (take (nat (fd_train_end fd)) bars) combos warmup objective None =
       Inr (Some (v, fr_selected_params f, sharpe, fr_in_sample_trades f)) \<and> fr_in_sample_sharpe f = py_round 4 (annualise m sharpe periods)) \<and>
    (\<exists>oos. score_plain m session r (take (nat (fd_test_end fd)) bars) (fr_selected_params f) (nat (fd_test_start fd)) (length (take (nat (fd_test_end fd)) bars)) = Inr oos \<and>
       fr_out_of_sample_trades f = ws_trades oos \<and> fr_out_of_sample_return_pct f = py_round 4 (ws_total_return oos) \<and>
       fr_out_of_sample_sharpe f = py_round 4 (annualise m (ws_sharpe oos) periods) \<and>
       fr_out_of_sample_profit_factor f = py_round 4 (ws_profit_factor oos))"
proof -
  have "\<forall>p \<in> set combos. valid_params p" using assms(2) by (simp add: make_params_iff)
  from walk_fold_ok [OF assms(1) this assms(3,4)] assms(5,6) show ?thesis by (auto simp: honest_fold_def)
qed

definition falling_bar :: "int \<Rightarrow> ohlcv_bar" where
  "falling_bar k = \<lparr>ba_symbol = ''AAPL'', ba_timestamp = k, ba_open = of_int (200 - k), ba_high = of_int (200 - k), ba_low = of_int (199 - k),
     ba_close = of_int (199 - k), ba_volume = 100\<rparr>"

definition falling_bars :: "ohlcv_bar list" where
  "falling_bars = map (\<lambda>k. falling_bar (int k)) [0..<23]"

definition flat_math :: py_math where
  "flat_math = \<lparr>pm_sqrt = (\<lambda>_. 0), pm_erf = (\<lambda>_. 0), pm_e = 3\<rparr>"

definition reversion_request :: backtest_request where
  "reversion_request = sample_request\<lparr>br_strategy := ''bollinger_reversion'', br_atr_stop_multiplier := 1 / 2, br_spread_bps := 0, br_slippage_bps := 0\<rparr>"

definition reversion_params :: strategy_params where
  "reversion_params = default_params\<lparr>sp_bb_period := 5\<rparr>"

definition sample_fold :: data_fold where
  "sample_fold = \<lparr>fd_index = 0, fd_train_end = 21, fd_test_start = 21, fd_test_end = 23\<rparr>"

lemma falling_signals:
  "compute_signals (pm_sqrt flat_math) falling_bars (reversion_request\<lparr>br_params := reversion_params\<rparr>) = Inr (replicate 14 ''HOLD'' @ replicate 9 ''BUY'')"
  by code_simp

lemma falling_trades:
  "length (sm_trades (simulate id (reversion_request\<lparr>br_params := reversion_params\<rparr>) (take 21 falling_bars)
     (take 21 (replicate 14 ''HOLD'' @ replicate 9 ''BUY'')) 0 15)) = 3"
  by code_simp

theorem fold_selected_on_the_past_witness:
  "\<exists>v sharpe. select_plain flat_math id reversion_request (take 21 falling_bars) [reversion_params] 15 ''return'' None =
     Inr (Some (v, reversion_params, sharpe, 3))"
proof -
  let ?st = "walk_start 1 [sample_fold]" and ?strategy = "snd (last (REGISTRY (pm_sqrt flat_math)))"
  let ?run = "walk_fold flat_math id reversion_request falling_bars ?strategy [reversion_params] 15 ''return'' 252 sample_fold ?st"
  have free: "cost_per_side_pct (reversion_request\<lparr>br_params := reversion_params\<rparr>) = 0"
    by (simp add: cost_per_side_pct_def reversion_request_def sample_request_def)
  have three: "ws_trades (score_run flat_math id (reversion_request\<lparr>br_params := reversion_params\<rparr>) (take 21 falling_bars)
     (take 21 (replicate 14 ''HOLD'' @ replicate 9 ''BUY'')) 15) = 3"
    unfolding score_run_def Let_def free by (simp only: window_score.simps falling_trades)
  have "\<exists>st' f. ?run = Inr st' \<and> wk_folds st' = [f] \<and> fr_selected_params f = reversion_params \<and> fr_in_sample_trades f = 3"
    using falling_signals three
    by (simp add: walk_fold_def select_params_def score_cached_def for_params_def consider_score_def sample_fold_def walk_start_def Let_def
        MIN_TRADES_TO_SELECT_def fold_report_def)
  then obtain st' f where run: "?run = Inr st'" and f: "wk_folds st' = [f]" "fr_selected_params f = reversion_params" "fr_in_sample_trades f = 3" by blast
  have hyps: "told_apart [reversion_params]" "\<forall>p \<in> set [reversion_params]. make_params p = Some p"
    "good_cache flat_math reversion_request falling_bars [reversion_params] (wk_cache ?st)" "f \<in> set (wk_folds st')" "f \<notin> set (wk_folds ?st)"
    using f(1) by (simp_all add: told_apart_def good_cache_def walk_start_def make_params_iff valid_params_def params_in_range_def reversion_params_def default_params_def)
  from fold_selected_on_the_past [OF hyps(1-3) run hyps(4,5)] show ?thesis by (simp add: f sample_fold_def) blast
qed

text \<open>
  The labels do not always tell configurations apart: a float is rendered with six significant digits, so two
  thresholds that agree in these share a label, and with it an entry of the cache.
\<close>

lemma labels_can_collide:
  "\<not> told_apart [default_params\<lparr>sp_macd_hist_min := 12345671 / 100000000\<rparr>, default_params\<lparr>sp_macd_hist_min := 12345672 / 100000000\<rparr>]"
proof -
  have "params_label (default_params\<lparr>sp_macd_hist_min := 12345671 / 100000000\<rparr>) None =
      params_label (default_params\<lparr>sp_macd_hist_min := 12345672 / 100000000\<rparr>) None" by code_simp
  moreover have "default_params\<lparr>sp_macd_hist_min := 12345671 / 100000000\<rparr> \<noteq> default_params\<lparr>sp_macd_hist_min := 12345672 / 100000000\<rparr>"
    by (simp add: default_params_def)
  ultimately show ?thesis by (auto simp: told_apart_def)
qed


end
