(* ===== verification/Backtest_Portfolio.thy ===== *)
theory Backtest_Portfolio
  imports Validation
begin

text \<open>
  \<open>services/backtest-service/src/backtest_service/portfolio.py\<close> and the endpoints of \<open>main.py\<close>: several sleeves
  simulated alone, aligned by timestamp and combined by weight, and the service around the engine. What the market
  data provider answers is the argument \<open>fetch\<close>. The theorems: the weights are a split of the capital, so the
  combined return of a bar lies between the worst and the best sleeve's, and the backtest endpoint answers exactly
  when there are bars enough for the rule.
\<close>

subsection \<open>Sleeves\<close>

definition HIGH_CORRELATION :: rat where
  "HIGH_CORRELATION = 7 / 10"

definition ALLOCATIONS :: "string list" where
  "ALLOCATIONS = [''equal'', ''inverse_volatility'']"

definition SHARPE_COMPARISON_MARGIN :: rat where
  "SHARPE_COMPARISON_MARGIN = 1 / 1000"

record port_sleeve =
  ps_strategy :: string
  ps_symbol :: string
  ps_params :: "strategy_params option"

definition port_label :: "port_sleeve \<Rightarrow> string" where
  "port_label s = ps_symbol s @ '':'' @ ps_strategy s"

definition build_sleeves :: "(rat \<Rightarrow> rat) \<Rightarrow> string list \<Rightarrow> string list \<Rightarrow> strategy_params option \<Rightarrow> exn + port_sleeve list" where
  "build_sleeves sq symbols strategies p =
     bindE (foldE (\<lambda>name _. bindE (get_strategy sq name) (\<lambda>_. Inr ())) strategies ()) (\<lambda>_.
       Inr (concat (map (\<lambda>symbol. map (\<lambda>strategy. \<lparr>ps_strategy = strategy, ps_symbol = upper symbol, ps_params = p\<rparr>) strategies) symbols)))"

text \<open>The return of each equity step by the moment of its bar, in order; a later bar of the same moment replaces the value.\<close>

definition timestamped_returns :: "ohlcv_bar list \<Rightarrow> nat \<Rightarrow> rat list \<Rightarrow> (instant \<times> rat) list" where
  "timestamped_returns bars start_index curve =
     (let stamps = map ba_timestamp (drop start_index bars) in
      if stamps = [] then []
      else
        (let vs = (if length stamps < length curve then take (length stamps - 1) curve @ [last curve] else curve)
         in fold (\<lambda>k returns. if 0 < vs ! (k - 1) then AList.update (stamps ! k) ((vs ! k - vs ! (k - 1)) / vs ! (k - 1)) returns else returns)
              [1..<min (length vs) (length stamps)] []))"

definition correlation :: "py_math \<Rightarrow> rat list \<Rightarrow> rat list \<Rightarrow> rat option" where
  "correlation m left right =
     (if length left < 2 \<or> length left \<noteq> length right then None
      else
        (let left_sd = stdev m left; right_sd = stdev m right in
         if left_sd = 0 \<or> right_sd = 0 then None
         else
           (let left_mean = stat_mean left; right_mean = stat_mean right;
                covariance = sum_list (map (\<lambda>(a, b). (a - left_mean) * (b - right_mean)) (zip left right)) / of_nat (length left)
            in Some (covariance / (left_sd * right_sd)))))"

definition weights_of :: "string \<Rightarrow> rat list \<Rightarrow> rat list" where
  "weights_of allocation volatilities =
     (let count = length volatilities; even_split = replicate count (1 / of_nat count) in
      if allocation = ''inverse_volatility'' then
        (let inverses = map (\<lambda>v. if 0 < v then 1 / v else 0) volatilities; total = sum_list inverses
         in if 0 < total then map (\<lambda>i. i / total) inverses else even_split)
      else even_split)"

record sleeve_result =
  sv_label :: string
  sv_symbol :: string
  sv_strategy :: string
  sv_params :: strategy_params
  sv_total_return_pct :: rat
  sv_sharpe_ratio :: rat
  sv_max_drawdown_pct :: rat
  sv_total_trades :: nat
  sv_profit_factor :: rat
  sv_volatility :: rat

record combine_state =
  po_results :: "sleeve_result list"
  po_returns :: "(instant \<times> rat) list list"
  po_warnings :: "msg list"

definition run_sleeve :: "py_math \<Rightarrow> (instant \<Rightarrow> int) \<Rightarrow> backtest_request \<Rightarrow> (string \<times> ohlcv_bar list) list \<Rightarrow> rat \<Rightarrow> port_sleeve \<Rightarrow>
    combine_state \<Rightarrow> exn + combine_state" where
  "run_sleeve m session r bars_by_symbol periods sleeve st =
     (let bars = (case map_of bars_by_symbol (ps_symbol sleeve) of None \<Rightarrow> [] | Some bs \<Rightarrow> bs) in
      if bars = []
      then Inr (st\<lparr>po_warnings := po_warnings st @ [[S (port_label sleeve), S '': no bars supplied -- sleeve dropped.'']]\<rparr>)
      else
        bindE (get_strategy (pm_sqrt m) (ps_strategy sleeve)) (\<lambda>strategy.
          let p = (case ps_params sleeve of None \<Rightarrow> br_params r | Some q \<Rightarrow> q); warmup = sg_warmup strategy p in
          if int (length bars) \<le> warmup + 2
          then Inr (st\<lparr>po_warnings := po_warnings st @ [[S (port_label sleeve), S '': '', I (int (length bars)), S '' bars is not enough for a '',
                 I warmup, S ''-bar warm-up -- sleeve dropped.'']]\<rparr>)
          else
            (let variant = r\<lparr>br_symbol := ps_symbol sleeve, br_strategy := ps_strategy sleeve, br_params := p\<rparr> in
             bindE (compute_signals (pm_sqrt m) bars variant) (\<lambda>signals.
               let result = simulate session variant bars signals (cost_per_side_pct variant) (nat warmup);
                   by_stamp = timestamped_returns bars (nat warmup) (sm_curve result);
                   series = map snd by_stamp; capital = br_initial_capital variant
               in Inr (st\<lparr>po_returns := po_returns st @ [by_stamp],
                    po_results := po_results st @
                      [\<lparr>sv_label = port_label sleeve, sv_symbol = ps_symbol sleeve, sv_strategy = ps_strategy sleeve, sv_params = p,
                        sv_total_return_pct = py_round 4 ((sm_equity result - capital) / capital),
                        sv_sharpe_ratio = py_round 4 (annualise m (sharpe_ratio m series) periods),
                        sv_max_drawdown_pct = py_round 4 (bt_max_drawdown (sm_curve result)), sv_total_trades = length (sm_trades result),
                        sv_profit_factor = py_round 4 (bt_profit_factor (sm_trades result)),
                        sv_volatility = py_round 6 (annualise m (stdev m series) periods)\<rparr>]\<rparr>)))))"

subsection \<open>The combination\<close>

record correlation_pair =
  cp_left :: string
  cp_right :: string
  cp_correlation :: rat

definition correlation_pairs :: "py_math \<Rightarrow> sleeve_result list \<Rightarrow> rat list list \<Rightarrow> correlation_pair list" where
  "correlation_pairs m results aligned =
     sort_key (\<lambda>p. - cp_correlation p)
       (List.map_filter (\<lambda>(i, j). map_option
            (\<lambda>v. \<lparr>cp_left = sv_label (results ! i), cp_right = sv_label (results ! j), cp_correlation = py_round 4 v\<rparr>)
            (correlation m (aligned ! i) (aligned ! j)))
          (concat (map (\<lambda>i. map (\<lambda>j. (i, j)) [i + 1..<length aligned]) [0..<length aligned])))"

definition correlation_warnings :: "correlation_pair list \<Rightarrow> msg list" where
  "correlation_warnings pairs =
     map (\<lambda>p. [S (cp_left p), S '' and '', S (cp_right p), S '' correlate at '', F ''.2f'' (Fin (cp_correlation p)),
               S ''. They will lose money at the same time, so holding both is one position in two accounts, paying two sets of costs.''])
       (filter (\<lambda>p. HIGH_CORRELATION \<le> cp_correlation p) pairs)"

definition timeline_of :: "(instant \<times> rat) list list \<Rightarrow> instant list" where
  "timeline_of maps = sort (remdups (concat (map (map fst) maps)))"

definition align :: "instant list \<Rightarrow> (instant \<times> rat) list \<Rightarrow> rat list" where
  "align timeline mapping = map (\<lambda>stamp. case map_of mapping stamp of None \<Rightarrow> 0 | Some v \<Rightarrow> v) timeline"

definition combine_returns :: "rat list \<Rightarrow> rat list list \<Rightarrow> nat \<Rightarrow> rat list" where
  "combine_returns weights aligned n =
     map (\<lambda>i. sum_list (map (\<lambda>(weight, series). weight * series ! i) (zip weights aligned))) [0..<n]"

text \<open>\<open>max(xs, key=...)\<close>: the first of the greatest.\<close>

fun best_by :: "('a \<Rightarrow> rat) \<Rightarrow> 'a \<Rightarrow> 'a list \<Rightarrow> 'a" where
  "best_by key b [] = b"
| "best_by key b (x # xs) = best_by key (if key b < key x then x else b) xs"

record portfolio_result =
  pt_timeframe :: string
  pt_allocation :: string
  pt_sleeves :: "sleeve_result list"
  pt_weights :: "rat list"
  pt_aligned_bars :: nat
  pt_total_return_pct :: rat
  pt_sharpe_ratio :: rat
  pt_max_drawdown_pct :: rat
  pt_best_sleeve_label :: string
  pt_best_sleeve_sharpe :: rat
  pt_weighted_sleeve_sharpe :: rat
  pt_diversification_ratio :: "rat option"
  pt_correlations :: "correlation_pair list"
  pt_max_correlation :: "rat option"
  pt_probabilistic_sharpe_ratio :: "rat option"
  pt_deflated_sharpe_ratio :: "rat option"
  pt_n_trials :: nat
  pt_warnings :: "msg list"

definition combination_warnings :: "rat \<Rightarrow> sleeve_result \<Rightarrow> rat option \<Rightarrow> msg list" where
  "combination_warnings combined_sharpe best diversification =
     (if combined_sharpe < sv_sharpe_ratio best - SHARPE_COMPARISON_MARGIN
      then [[S ''The combination ('', F ''.2f'' (Fin combined_sharpe), S '' Sharpe) did worse than its best single sleeve, '', S (sv_label best), S '' ('',
             F ''.2f'' (Fin (sv_sharpe_ratio best)),
             S ''). Picking that sleeve in hindsight is not a strategy, but neither is paying costs on the others for nothing.'']]
      else []) @
     (case diversification of
        Some ratio \<Rightarrow> if ratio < 105 / 100
          then [[S ''Diversification ratio '', F ''.2f'' (Fin ratio), S '': the sleeves are moving together, so the portfolio is carrying the cost of several strategies and the risk of one.'']]
          else []
      | None \<Rightarrow> [])"

definition portfolio_report :: "py_math \<Rightarrow> backtest_request \<Rightarrow> string \<Rightarrow> rat \<Rightarrow> nat option \<Rightarrow> combine_state \<Rightarrow> exn + portfolio_result" where
  "portfolio_report m r allocation periods n_trials st =
     (let results = po_results st; timeline = timeline_of (po_returns st); aligned = map (align timeline) (po_returns st);
          volatilities = map (stdev m) aligned; weights = weights_of allocation volatilities;
          combined = combine_returns weights aligned (length timeline); curve = compound combined;
          combined_sharpe = annualise m (sharpe_ratio m combined) periods;
          best = best_by sv_sharpe_ratio (hd results) (tl results);
          portfolio_vol = stdev m combined; weighted_vol = sum_list (map (\<lambda>(w, v). w * v) (zip weights volatilities));
          diversification = (if 0 < portfolio_vol then Some (py_round 4 (weighted_vol / portfolio_vol)) else None);
          pairs = correlation_pairs m results aligned;
          trials = (case n_trials of Some n \<Rightarrow> n | None \<Rightarrow> length results)
      in bindE (deflated_sharpe_ratio m combined (map (sharpe_ratio m) aligned) (Some trials)) (\<lambda>deflated.
           Inr \<lparr>pt_timeframe = br_timeframe r, pt_allocation = allocation, pt_sleeves = results, pt_weights = map (py_round 4) weights,
             pt_aligned_bars = length timeline, pt_total_return_pct = py_round 4 (last curve - 1), pt_sharpe_ratio = py_round 4 combined_sharpe,
             pt_max_drawdown_pct = py_round 4 (bt_max_drawdown curve), pt_best_sleeve_label = sv_label best, pt_best_sleeve_sharpe = sv_sharpe_ratio best,
             pt_weighted_sleeve_sharpe = py_round 4 (sum_list (map (\<lambda>(w, s). w * sv_sharpe_ratio s) (zip weights results))),
             pt_diversification_ratio = diversification, pt_correlations = pairs,
             pt_max_correlation = (if pairs = [] then None else Some (Max (set (map cp_correlation pairs)))),
             pt_probabilistic_sharpe_ratio = rounded (probabilistic_sharpe_ratio m combined 0), pt_deflated_sharpe_ratio = rounded deflated,
             pt_n_trials = trials,
             pt_warnings = po_warnings st @ correlation_warnings pairs @ combination_warnings combined_sharpe best diversification\<rparr>))"

definition run_portfolio :: "py_math \<Rightarrow> (instant \<Rightarrow> int) \<Rightarrow> backtest_request \<Rightarrow> port_sleeve list \<Rightarrow> (string \<times> ohlcv_bar list) list \<Rightarrow> string \<Rightarrow> nat option \<Rightarrow>
    exn + portfolio_result" where
  "run_portfolio m session r sleeves bars_by_symbol allocation n_trials =
     (if sleeves = [] then Inl (ValueError [S ''A portfolio needs at least one sleeve''])
      else if allocation \<notin> set ALLOCATIONS
      then Inl (ValueError [S ''Unknown allocation '', S [CHR 0x27], S allocation, S (CHR 0x27 # ''. Available: ''), S (join '', '' ALLOCATIONS)])
      else if bars_by_symbol = [] then Inl (ValueError [S ''No bars supplied for any symbol''])
      else
        (let periods = periods_per_year_for r (snd (hd bars_by_symbol)) in
         bindE (foldE (run_sleeve m session r bars_by_symbol periods) sleeves \<lparr>po_results = [], po_returns = [], po_warnings = []\<rparr>) (\<lambda>st.
           if po_results st = [] then Inl (ValueError [S ''No sleeve produced a result -- check symbols and bar counts''])
           else portfolio_report m r allocation periods n_trials st)))"

subsection \<open>The endpoints\<close>

text \<open>What a request for bars comes back with.\<close>

datatype fetched = Bars "ohlcv_bar list" | DataUnavailable msg | FetchFailed msg

text \<open>\<open>load_bars\<close>: an empty intraday answer is \<open>DataUnavailableError\<close>.\<close>

definition load_bars :: "backtest_request \<Rightarrow> fetched \<Rightarrow> fetched" where
  "load_bars r answer =
     (if br_timeframe r = ''intraday'' \<and> answer = Bars []
      then DataUnavailable [S ''No intraday bars for '', S (br_symbol r), S ''. Providers cap intraday history -- Yahoo serves 1-minute bars for 7 days and most other resolutions for 60.'']
      else answer)"

definition bars_or_422 :: "backtest_request \<Rightarrow> fetched \<Rightarrow> exn + ohlcv_bar list" where
  "bars_or_422 r answer =
     (case load_bars r answer of
        DataUnavailable e \<Rightarrow> Inl (HTTPException 503 ([S ''Market data unavailable: ''] @ e))
      | FetchFailed e \<Rightarrow> Inl (HTTPException 500 e)
      | Bars bars \<Rightarrow>
          if int (length bars) < MIN_WARMUP_BARS + 1
          then Inl (HTTPException 422 [S ''Insufficient data: '', I (int (length bars)), S '' bars returned, need at least '', I (MIN_WARMUP_BARS + 1),
                 S '' for indicator warm-up. Increase period_days or use a smaller intraday_minutes.''])
          else Inr bars)"

text \<open>\<open>except ValueError\<close> around the call of the engine.\<close>

definition value_error_422 :: "exn + 'a \<Rightarrow> exn + 'a" where
  "value_error_422 out = (case out of Inl (ValueError e) \<Rightarrow> Inl (HTTPException 422 e) | _ \<Rightarrow> out)"

definition backtest_endpoint :: "py_math \<Rightarrow> (instant \<Rightarrow> int) \<Rightarrow> backtest_request \<Rightarrow> fetched \<Rightarrow> exn + backtest_result" where
  "backtest_endpoint m session r answer =
     bindE (bars_or_422 r answer) (\<lambda>bars. value_error_422 (run_backtest (pm_sqrt m) session r bars))"

definition cost_sensitivity_endpoint :: "py_math \<Rightarrow> (instant \<Rightarrow> int) \<Rightarrow> backtest_request \<Rightarrow> fetched \<Rightarrow> exn + cost_sensitivity_result" where
  "cost_sensitivity_endpoint m session r answer =
     bindE (bars_or_422 r answer) (\<lambda>bars. value_error_422 (run_cost_sensitivity (pm_sqrt m) session r bars None))"

definition walk_forward_endpoint :: "py_math \<Rightarrow> (instant \<Rightarrow> int) \<Rightarrow> backtest_request \<Rightarrow> parameter_grid \<Rightarrow> int \<Rightarrow> int option \<Rightarrow> string \<Rightarrow> fetched \<Rightarrow>
    exn + walk_forward_result" where
  "walk_forward_endpoint m session r grid n_splits embargo_bars objective answer =
     bindE (bars_or_422 r answer) (\<lambda>bars. value_error_422 (walk_forward m session r bars grid n_splits embargo_bars objective))"

definition parameter_sensitivity_endpoint :: "py_math \<Rightarrow> (instant \<Rightarrow> int) \<Rightarrow> backtest_request \<Rightarrow> parameter_grid \<Rightarrow> fetched \<Rightarrow> exn + sensitivity_result" where
  "parameter_sensitivity_endpoint m session r grid answer =
     bindE (bars_or_422 r answer) (\<lambda>bars. value_error_422 (parameter_sensitivity m session r bars grid))"

definition list_strategies :: "(string \<times> string \<times> string list) list" where
  "list_strategies = map (\<lambda>name. case map_of (REGISTRY id) name of Some s \<Rightarrow> (sg_name s, sg_description s, sg_param_fields s) | None \<Rightarrow> ([], [], [])) strategy_names"

text \<open>
  The bars of every requested symbol, by upper-cased symbol; a later answer for the same symbol replaces the earlier. Only
  \<open>DataUnavailableError\<close> is handled here: any other failure of the provider leaves the handler and becomes the framework's 500.
\<close>

definition portfolio_bars :: "backtest_request \<Rightarrow> (string \<Rightarrow> fetched) \<Rightarrow> string list \<Rightarrow> exn + (string \<times> ohlcv_bar list) list" where
  "portfolio_bars r fetch symbols =
     foldE (\<lambda>symbol acc.
         case load_bars (r\<lparr>br_symbol := symbol\<rparr>) (fetch symbol) of
           Bars bars \<Rightarrow> Inr (AList.update (upper symbol) bars acc)
         | DataUnavailable e \<Rightarrow> Inl (HTTPException 503 ([S ''Market data unavailable for '', S symbol, S '': ''] @ e))
         | FetchFailed e \<Rightarrow> Inl (HTTPException 500 [S ''Internal Server Error''])) symbols []"

definition portfolio_endpoint :: "py_math \<Rightarrow> (instant \<Rightarrow> int) \<Rightarrow> backtest_request \<Rightarrow> string list \<Rightarrow> string list \<Rightarrow> string \<Rightarrow> nat option \<Rightarrow> (string \<Rightarrow> fetched) \<Rightarrow>
    exn + portfolio_result" where
  "portfolio_endpoint m session r symbols strategies allocation considered_count fetch =
     (case find (\<lambda>name. map_of (REGISTRY (pm_sqrt m)) name = None) strategies of
        Some name \<Rightarrow> Inl (HTTPException 422 [S ''Unknown strategy '', S [CHR 0x27], S name, S (CHR 0x27 # ''. Available: ''), S (join '', '' strategy_names)])
      | None \<Rightarrow>
          if allocation \<notin> set ALLOCATIONS then Inl (HTTPException 422 [S ''Unknown allocation '', S [CHR 0x27], S allocation, S [CHR 0x27]])
          else
            bindE (portfolio_bars r fetch symbols) (\<lambda>bars_by_symbol.
            bindE (build_sleeves (pm_sqrt m) symbols strategies (Some (br_params r))) (\<lambda>sleeves.
              value_error_422 (run_portfolio m session r sleeves bars_by_symbol allocation
                (Some (case considered_count of Some n \<Rightarrow> n | None \<Rightarrow> length sleeves))))))"

subsection \<open>Properties\<close>

lemma weights_split:
  assumes "volatilities \<noteq> []"
  shows "length (weights_of allocation volatilities) = length volatilities" "\<forall>w \<in> set (weights_of allocation volatilities). 0 \<le> w"
    "sum_list (weights_of allocation volatilities) = 1"
proof -
  define inverses where "inverses = map (\<lambda>v. if 0 < v then 1 / v else 0) volatilities"
  have eq: "weights_of allocation volatilities = (if allocation = ''inverse_volatility'' \<and> 0 < sum_list inverses
      then map (\<lambda>i. i / sum_list inverses) inverses else replicate (length volatilities) (1 / of_nat (length volatilities)))"
    by (simp add: weights_of_def inverses_def Let_def)
  have scaled: "sum_list (map (\<lambda>i. i / t) xs) = sum_list xs / t" for t :: rat and xs by (induction xs) (simp_all add: add_divide_distrib)
  have "length inverses = length volatilities" "\<forall>i \<in> set inverses. 0 \<le> i" by (auto simp: inverses_def)
  then show "length (weights_of allocation volatilities) = length volatilities" "\<forall>w \<in> set (weights_of allocation volatilities). 0 \<le> w"
    "sum_list (weights_of allocation volatilities) = 1"
    using assms by (auto simp: eq scaled sum_list_replicate)
qed

lemma weighted_between:
  assumes "length ws = length xs" and "\<forall>w \<in> set ws. (0 :: rat) \<le> w" and "\<forall>x \<in> set xs. lo \<le> x \<and> x \<le> hi"
  shows "lo * sum_list ws \<le> sum_list (map (\<lambda>(w, x). w * x) (zip ws xs)) \<and> sum_list (map (\<lambda>(w, x). w * x) (zip ws xs)) \<le> hi * sum_list ws"
  using assms
proof (induction ws xs rule: list_induct2)
  case (Cons w ws x xs)
  then have "w * lo \<le> w * x" "w * x \<le> w * hi" by (auto intro: mult_left_mono)
  with Cons show ?case by (simp add: distrib_left mult.commute [of lo w] mult.commute [of hi w] add_mono)
qed simp

text \<open>
  A portfolio is a split of its capital. Under either allocation the weights are as many as the sleeves, none is
  negative and they sum to one; so at every moment the combined return lies between any bounds that hold for all
  sleeves at that moment.
\<close>

theorem portfolio_is_a_split:
  assumes "aligned \<noteq> []"
  shows "let weights = weights_of allocation (map (stdev m) aligned) in
    length weights = length aligned \<and> (\<forall>w \<in> set weights. 0 \<le> w) \<and> sum_list weights = 1 \<and>
    (\<forall>i < n. \<forall>lo hi. (\<forall>series \<in> set aligned. lo \<le> series ! i \<and> series ! i \<le> hi) \<longrightarrow>
       lo \<le> combine_returns weights aligned n ! i \<and> combine_returns weights aligned n ! i \<le> hi)"
proof -
  define ws where "ws = weights_of allocation (map (stdev m) aligned)"
  have ws: "length ws = length aligned" "\<forall>w \<in> set ws. 0 \<le> w" "sum_list ws = 1" using weights_split [of "map (stdev m) aligned" allocation] assms by (simp_all add: ws_def)
  have "lo \<le> combine_returns ws aligned n ! i \<and> combine_returns ws aligned n ! i \<le> hi"
    if "i < n" "\<forall>series \<in> set aligned. lo \<le> series ! i \<and> series ! i \<le> hi" for i lo hi
  proof -
    have "combine_returns ws aligned n ! i = sum_list (map (\<lambda>(w, x). w * x) (zip ws (map (\<lambda>series. series ! i) aligned)))"
      using that(1) by (simp add: combine_returns_def zip_map2 comp_def case_prod_unfold)
    then show ?thesis using weighted_between [of ws "map (\<lambda>series. series ! i) aligned" lo hi] ws that(2) by simp
  qed
  then show ?thesis unfolding ws_def [symmetric] Let_def using ws by blast
qed

theorem portfolio_is_a_split_witness:
  "sum_list (weights_of ''inverse_volatility'' (map (stdev flat_math) [[1 / 100, 2 / 100], [3 / 100, 1 / 100]])) = 1 \<and>
   1 / 100 \<le> combine_returns (weights_of ''inverse_volatility'' (map (stdev flat_math) [[1 / 100, 2 / 100], [3 / 100, 1 / 100]])) [[1 / 100, 2 / 100], [3 / 100, 1 / 100]] 2 ! 0"
proof -
  have "[[1 / 100, 2 / 100 :: rat], [3 / 100, 1 / 100]] \<noteq> []" by simp
  note split = portfolio_is_a_split [OF this, of "''inverse_volatility''" flat_math 2, unfolded Let_def]
  have "\<forall>series \<in> set [[1 / 100, 2 / 100 :: rat], [3 / 100, 1 / 100]]. 1 / 100 \<le> series ! 0 \<and> series ! 0 \<le> 3 / 100" by simp
  with split show ?thesis by (metis zero_less_numeral)
qed

lemma get_strategy_error: "get_strategy sq name = Inl e \<Longrightarrow> \<exists>d. e = ValueError d"
  by (auto simp: get_strategy_def split: option.splits)

lemma get_strategy_known:
  "get_strategy sq ''ema_rsi_macd'' = Inr (snd (hd (REGISTRY sq)))" "get_strategy sq ''bollinger_reversion'' = Inr (snd (last (REGISTRY sq)))"
  by (simp_all add: get_strategy_def REGISTRY_def)

lemma run_backtest_answers:
  "(\<exists>res. run_backtest sq session r bars = Inr res) \<longleftrightarrow> (\<exists>s. get_strategy sq (br_strategy r) = Inr s \<and> sg_warmup s (br_params r) < int (length bars))"
  by (cases "get_strategy sq (br_strategy r)") (auto simp: run_backtest_def warmup_for_def compute_signals_def)

lemma run_backtest_error: "run_backtest sq session r bars = Inl e \<Longrightarrow> \<exists>d. e = ValueError d"
  by (auto simp: run_backtest_def warmup_for_def compute_signals_def bindE_def dest: get_strategy_error split: sum.splits if_splits)

text \<open>
  The backtest endpoint answers exactly when there are bars enough. For a known provider answer it returns a
  report if and only if at least 52 bars arrived, the strategy is one of the two registered ones and the bars
  outnumber that rule's own warm-up; every refusal is an HTTP error 422 for the request or 500 or 503 for the data.
\<close>

theorem backtest_answers_exactly:
  "((\<exists>res. backtest_endpoint m session r (Bars bars) = Inr res) \<longleftrightarrow>
      52 \<le> length bars \<and>
      (br_strategy r = ''ema_rsi_macd'' \<and> momentum_warmup (br_params r) < int (length bars) \<or>
       br_strategy r = ''bollinger_reversion'' \<and> reversion_warmup (br_params r) < int (length bars))) \<and>
   (\<forall>e answer. backtest_endpoint m session r answer = Inl e \<longrightarrow> (\<exists>code d. e = HTTPException code d \<and> code \<in> {422, 500, 503}))"
proof (intro conjI allI impI)
  have load: "bars_or_422 r (Bars bars) = Inr bs \<longleftrightarrow> bs = bars \<and> 52 \<le> length bars" for bs
    by (auto simp: bars_or_422_def load_bars_def MIN_WARMUP_BARS_def)
  have "(\<exists>s. get_strategy (pm_sqrt m) (br_strategy r) = Inr s \<and> sg_warmup s (br_params r) < int (length bars)) \<longleftrightarrow>
      (br_strategy r = ''ema_rsi_macd'' \<and> momentum_warmup (br_params r) < int (length bars) \<or>
       br_strategy r = ''bollinger_reversion'' \<and> reversion_warmup (br_params r) < int (length bars))"
    by (auto elim!: get_strategy_cases simp: get_strategy_known) (simp_all add: REGISTRY_def)
  moreover have "(\<exists>res. value_error_422 out = Inr res) \<longleftrightarrow> (\<exists>res. out = Inr res)" for out :: "exn + backtest_result"
    by (auto simp: value_error_422_def split: sum.splits exn.splits)
  ultimately show "(\<exists>res. backtest_endpoint m session r (Bars bars) = Inr res) \<longleftrightarrow>
      52 \<le> length bars \<and>
      (br_strategy r = ''ema_rsi_macd'' \<and> momentum_warmup (br_params r) < int (length bars) \<or>
       br_strategy r = ''bollinger_reversion'' \<and> reversion_warmup (br_params r) < int (length bars))"
    using run_backtest_answers [of "pm_sqrt m" session r bars] by (auto simp: backtest_endpoint_def bindE_Inr_iff load)
  fix e answer assume e: "backtest_endpoint m session r answer = Inl e"
  show "\<exists>code d. e = HTTPException code d \<and> code \<in> {422, 500, 503}"
  proof (cases "bars_or_422 r answer")
    case (Inl x)
    then show ?thesis using e by (auto simp: backtest_endpoint_def bars_or_422_def split: fetched.splits if_splits)
  next
    case (Inr bs)
    then obtain d where "run_backtest (pm_sqrt m) session r bs = Inl (ValueError d)"
      using e run_backtest_error [of "pm_sqrt m" session r bs] by (cases "run_backtest (pm_sqrt m) session r bs") (auto simp: backtest_endpoint_def value_error_422_def)
    then show ?thesis using e Inr by (auto simp: backtest_endpoint_def value_error_422_def)
  qed
qed

theorem backtest_answers_exactly_witness:
  "\<exists>code d. backtest_endpoint flat_math id sample_request (Bars []) = Inl (HTTPException code d) \<and> code \<in> {422, 500, 503}"
proof -
  have "\<not> (\<exists>res. backtest_endpoint flat_math id sample_request (Bars []) = Inr res)"
    using conjunct1 [OF backtest_answers_exactly [of flat_math id sample_request "[]"]] by simp
  then obtain e where "backtest_endpoint flat_math id sample_request (Bars []) = Inl e"
    by (cases "backtest_endpoint flat_math id sample_request (Bars [])") auto
  with conjunct2 [OF backtest_answers_exactly [of flat_math id sample_request "[]"]] show ?thesis by blast
qed


end
