(* ===== verification/Access_Control.thy ===== *)
theory Access_Control
  imports Execution_Service
begin

text \<open>
  \<open>libs/contracts/src/contracts/auth.py\<close>, \<open>rate_limit.py\<close> and the amount check of \<open>sanitize.py\<close>: who may call a
  service, how often, and with what amount. The process environment is an argument \<open>env\<close>; a clock reading
  (\<open>time.monotonic\<close>) is a number of seconds. The theorems: authentication fails closed, and no client gets more than
  the bucket and its refill through.
\<close>

subsection \<open>Authentication\<close>

type_synonym process_env = "string \<Rightarrow> string option"

definition env_get :: "process_env \<Rightarrow> string \<Rightarrow> string \<Rightarrow> string" where
  "env_get env name d = (case env name of None \<Rightarrow> d | Some v \<Rightarrow> v)"

definition insecure_development_bypass_enabled :: "process_env \<Rightarrow> bool" where
  "insecure_development_bypass_enabled env =
     (let app_env = lower (strip (env_get env ''APP_ENV'' []));
          broker = lower (strip (env_get env ''BROKER'' ''paper''));
          allowed = lower (strip (env_get env ''ALLOW_INSECURE_DEV_AUTH'' ''false''))
      in app_env \<in> {''development'', ''test''} \<and> broker = ''paper'' \<and> allowed = ''true'')"

definition required_secret :: "process_env \<Rightarrow> string \<Rightarrow> exn + string option" where
  "required_secret env name =
     (let secret = env_get env name [] in
      if secret \<noteq> [] then Inr (Some secret)
      else if insecure_development_bypass_enabled env then Inr None
      else Inl (HTTPException 503 [S name, S '' is not configured; authentication fails closed'']))"

text \<open>
  \<open>hmac.compare_digest\<close> compares two strings; that it does so in constant time is outside the model. Keys are ASCII: on any
  other string it raises \<open>TypeError\<close>, so a call with such a key fails, whether or not it is the configured one.
\<close>

definition matches :: "string option \<Rightarrow> string \<Rightarrow> bool" where
  "matches supplied expected = (supplied = Some expected)"

definition verify_internal_key :: "process_env \<Rightarrow> string option \<Rightarrow> exn + unit" where
  "verify_internal_key env x_internal_key =
     bindE (required_secret env ''INTERNAL_API_KEY'') (\<lambda>expected.
       case expected of
         None \<Rightarrow> Inr ()
       | Some key \<Rightarrow> if matches x_internal_key key then Inr () else Inl (HTTPException 401 [S ''Invalid internal API key'']))"

definition verify_admin_key :: "process_env \<Rightarrow> string option \<Rightarrow> string option \<Rightarrow> exn + unit" where
  "verify_admin_key env x_internal_key x_admin_key =
     bindE (verify_internal_key env x_internal_key) (\<lambda>_.
     bindE (required_secret env ''INTERNAL_API_KEY'') (\<lambda>expected_internal.
     bindE (required_secret env ''ADMIN_API_KEY'') (\<lambda>expected_admin.
       case (expected_internal, expected_admin) of
         (Some internal, Some admin) \<Rightarrow>
           if internal = admin then Inl (HTTPException 503 [S ''ADMIN_API_KEY must be distinct from INTERNAL_API_KEY''])
           else if matches x_admin_key admin then Inr ()
           else Inl (HTTPException 401 [S ''Invalid admin API key''])
       | _ \<Rightarrow> Inr ())))"

subsection \<open>Rate limit\<close>

type_synonym buckets = "(string \<times> rat \<times> rat) list"

record token_bucket =
  tb_max :: rat
  tb_rate :: rat
  tb_buckets :: buckets

definition make_bucket :: "nat \<Rightarrow> nat \<Rightarrow> token_bucket" where
  "make_bucket max_tokens refill_rate_per_minute =
     \<lparr>tb_max = of_nat max_tokens, tb_rate = of_nat refill_rate_per_minute / 60, tb_buckets = []\<rparr>"

text \<open>A key seen for the first time starts full, refilled at this moment.\<close>

definition consume :: "rat \<Rightarrow> string \<Rightarrow> token_bucket \<Rightarrow> bool \<times> token_bucket" where
  "consume now key tb =
     (let (tokens0, last_refill) = (case map_of (tb_buckets tb) key of Some b \<Rightarrow> b | None \<Rightarrow> (tb_max tb, now));
          elapsed = now - last_refill;
          tokens = min (tb_max tb) (tokens0 + elapsed * tb_rate tb)
      in if tokens < 1 then (False, tb\<lparr>tb_buckets := AList.update key (tokens, now) (tb_buckets tb)\<rparr>)
         else (True, tb\<lparr>tb_buckets := AList.update key (tokens - 1, now) (tb_buckets tb)\<rparr>))"

definition write_bucket :: token_bucket where
  "write_bucket = make_bucket 10 10"

definition rate_limit_write :: "rat \<Rightarrow> string option \<Rightarrow> token_bucket \<Rightarrow> (exn + unit) \<times> token_bucket" where
  "rate_limit_write now client tb =
     (let ip = (case client of Some host \<Rightarrow> host | None \<Rightarrow> ''unknown''); (ok, tb') = consume now ip tb in
      (if ok then Inr () else Inl (HTTPException 429 [S ''Rate limit exceeded. Max 10 write requests per minute.'']), tb'))"

subsection \<open>Amounts\<close>

definition validate_positive_amount :: "rat \<Rightarrow> string \<Rightarrow> exn + rat" where
  "validate_positive_amount x field_name =
     (if x \<le> 0 then Inl (HTTPException 422 [S field_name, S '' must be positive'']) else Inr (py_round 2 x))"

subsection \<open>What a bucket lets through\<close>

definition tokens_at :: "token_bucket \<Rightarrow> string \<Rightarrow> rat \<Rightarrow> rat" where
  "tokens_at tb key now =
     (case map_of (tb_buckets tb) key of
        Some (tokens, last_refill) \<Rightarrow> min (tb_max tb) (tokens + (now - last_refill) * tb_rate tb)
      | None \<Rightarrow> tb_max tb)"

definition bucket_ok :: "token_bucket \<Rightarrow> bool" where
  "bucket_ok tb = (0 \<le> tb_max tb \<and> 0 \<le> tb_rate tb \<and> (\<forall>(k, tokens, t) \<in> set (tb_buckets tb). 0 \<le> tokens \<and> tokens \<le> tb_max tb))"

text \<open>The clock does not run backwards for a key.\<close>

definition clock_ok :: "token_bucket \<Rightarrow> string \<Rightarrow> rat \<Rightarrow> bool" where
  "clock_ok tb key now = (\<forall>tokens t. map_of (tb_buckets tb) key = Some (tokens, t) \<longrightarrow> t \<le> now)"

lemma consume_tokens:
  assumes "bucket_ok tb"
  shows "consume now key tb = (1 \<le> tokens_at tb key now,
    tb\<lparr>tb_buckets := AList.update key (tokens_at tb key now - (if 1 \<le> tokens_at tb key now then 1 else 0), now) (tb_buckets tb)\<rparr>)"
  using assms by (cases "map_of (tb_buckets tb) key") (auto simp: consume_def tokens_at_def Let_def not_less)

lemma tokens_bounds:
  assumes "bucket_ok tb" and "clock_ok tb key now"
  shows "0 \<le> tokens_at tb key now" "tokens_at tb key now \<le> tb_max tb"
proof -
  have "0 \<le> tokens_at tb key now \<and> tokens_at tb key now \<le> tb_max tb"
  proof (cases "map_of (tb_buckets tb) key")
    case None
    then show ?thesis using assms(1) by (simp add: tokens_at_def bucket_ok_def)
  next
    case (Some b)
    obtain tokens t where b: "b = (tokens, t)" by (rule prod.exhaust)
    have "0 \<le> tokens" "0 \<le> (now - t) * tb_rate tb" "0 \<le> tb_max tb"
      using map_of_SomeD [OF Some] assms Some by (auto simp: b bucket_ok_def clock_ok_def)
    then show ?thesis by (simp add: tokens_at_def Some b)
  qed
  then show "0 \<le> tokens_at tb key now" "tokens_at tb key now \<le> tb_max tb" by simp_all
qed

lemma consume_keeps:
  assumes "bucket_ok tb" and "clock_ok tb key now"
  shows "bucket_ok (snd (consume now key tb))"
proof -
  note t = tokens_bounds [OF assms]
  then show ?thesis using assms(1) by (auto simp: consume_tokens [OF assms(1)] bucket_ok_def dest!: alist_update_mem)
qed

lemma consume_after:
  assumes "bucket_ok tb" and "now \<le> later"
  shows "tokens_at (snd (consume now key tb)) key later \<le> tokens_at tb key now - of_bool (fst (consume now key tb)) + (later - now) * tb_rate tb"
  by (simp add: consume_tokens [OF assms(1)] tokens_at_def [of "_\<lparr>tb_buckets := _\<rparr>"] update_conv')

text \<open>A client's calls at the given moments, and how many got through.\<close>

fun granted :: "string \<Rightarrow> rat list \<Rightarrow> token_bucket \<Rightarrow> nat" where
  "granted key [] tb = 0"
| "granted key (t # ts) tb = (let (ok, tb') = consume t key tb in (if ok then 1 else 0) + granted key ts tb')"

lemma granted_bound:
  assumes "bucket_ok tb" and "sorted (t # ts)" and "clock_ok tb key t"
  shows "of_nat (granted key (t # ts) tb) \<le> tokens_at tb key t + (last (t # ts) - t) * tb_rate tb"
  using assms
proof (induction ts arbitrary: t tb)
  case Nil
  then show ?case using tokens_bounds [OF Nil(1,3)] by (simp add: consume_tokens)
next
  case (Cons u us)
  define tb' where "tb' = snd (consume t key tb)"
  have tu: "t \<le> u" and s: "sorted (u # us)" using Cons.prems(2) by simp_all
  have ok: "bucket_ok tb'" using consume_keeps [OF Cons.prems(1,3)] by (simp add: tb'_def)
  have clock: "clock_ok tb' key u" using tu by (simp add: tb'_def consume_tokens [OF Cons.prems(1)] clock_ok_def update_conv')
  have rate: "tb_rate tb' = tb_rate tb" by (simp add: tb'_def consume_tokens [OF Cons.prems(1)])
  have "granted key (t # u # us) tb = of_bool (fst (consume t key tb)) + granted key (u # us) tb'"
    by (simp add: tb'_def case_prod_unfold Let_def del: granted.simps) (simp add: case_prod_unfold Let_def)
  then have "of_nat (granted key (t # u # us) tb) = of_bool (fst (consume t key tb)) + (of_nat (granted key (u # us) tb') :: rat)" by simp
  also have "\<dots> \<le> of_bool (fst (consume t key tb)) + (tokens_at tb' key u + (last (u # us) - u) * tb_rate tb)"
    using Cons.IH [OF ok s clock] rate by simp
  also have "\<dots> \<le> tokens_at tb key t + (u - t) * tb_rate tb + (last (u # us) - u) * tb_rate tb"
    using consume_after [OF Cons.prems(1) tu, of key] by (simp add: tb'_def)
  finally show ?case by (simp add: algebra_simps)
qed

subsection \<open>Properties\<close>

lemma secret_Some: "required_secret env name = Inr (Some key) \<longleftrightarrow> env name = Some key \<and> key \<noteq> []"
  by (auto simp: required_secret_def env_get_def Let_def split: option.splits)

lemma secret_None: "required_secret env name = Inr None \<longleftrightarrow> env_get env name [] = [] \<and> insecure_development_bypass_enabled env"
  by (auto simp: required_secret_def Let_def)

lemma internal_key_iff:
  "verify_internal_key env k = Inr () \<longleftrightarrow>
     (\<exists>key. key \<noteq> [] \<and> env ''INTERNAL_API_KEY'' = Some key \<and> k = Some key) \<or>
     env_get env ''INTERNAL_API_KEY'' [] = [] \<and> insecure_development_bypass_enabled env"
  by (auto simp: verify_internal_key_def bindE_Inr_iff secret_Some secret_None matches_def split: option.splits if_splits)

text \<open>
  C29: Authentication fails closed. A call passes the internal check only with the configured, non-empty key, or with
  no key configured and the development bypass on. Without the bypass (which needs a development or test
  environment, the paper broker and an explicit opt-in) a privileged call passes only when both keys are configured,
  differ, and are both supplied.
\<close>

theorem auth_fails_closed:
  "(verify_internal_key env k = Inr () \<longleftrightarrow>
      (\<exists>key. key \<noteq> [] \<and> env ''INTERNAL_API_KEY'' = Some key \<and> k = Some key) \<or>
      env_get env ''INTERNAL_API_KEY'' [] = [] \<and> insecure_development_bypass_enabled env) \<and>
   (insecure_development_bypass_enabled env \<longrightarrow> lower (strip (env_get env ''BROKER'' ''paper'')) = ''paper'') \<and>
   (\<not> insecure_development_bypass_enabled env \<longrightarrow>
      (verify_admin_key env k a = Inr () \<longleftrightarrow>
        (\<exists>internal admin. internal \<noteq> [] \<and> admin \<noteq> [] \<and> internal \<noteq> admin \<and> env ''INTERNAL_API_KEY'' = Some internal \<and>
           env ''ADMIN_API_KEY'' = Some admin \<and> k = Some internal \<and> a = Some admin)))"
proof (intro conjI impI)
  show "insecure_development_bypass_enabled env \<Longrightarrow> lower (strip (env_get env ''BROKER'' ''paper'')) = ''paper''"
    by (simp add: insecure_development_bypass_enabled_def Let_def)
  assume off: "\<not> insecure_development_bypass_enabled env"
  show "verify_admin_key env k a = Inr () \<longleftrightarrow>
      (\<exists>internal admin. internal \<noteq> [] \<and> admin \<noteq> [] \<and> internal \<noteq> admin \<and> env ''INTERNAL_API_KEY'' = Some internal \<and>
         env ''ADMIN_API_KEY'' = Some admin \<and> k = Some internal \<and> a = Some admin)"
  proof -
    define i d where "i = env_get env ''INTERNAL_API_KEY'' []" and "d = env_get env ''ADMIN_API_KEY'' []"
    have given: "env n = Some key \<and> key \<noteq> [] \<longleftrightarrow> env_get env n [] = key \<and> key \<noteq> []" for n key
      by (auto simp: env_get_def split: option.splits)
    have "verify_admin_key env k a = Inr () \<longleftrightarrow> i \<noteq> [] \<and> d \<noteq> [] \<and> i \<noteq> d \<and> k = Some i \<and> a = Some d"
      using off by (cases "i = []"; cases "d = []") (auto simp: verify_admin_key_def verify_internal_key_def required_secret_def matches_def Let_def i_def d_def)
    also have "\<dots> \<longleftrightarrow> (\<exists>internal admin. (env ''INTERNAL_API_KEY'' = Some internal \<and> internal \<noteq> []) \<and> (env ''ADMIN_API_KEY'' = Some admin \<and> admin \<noteq> []) \<and>
        internal \<noteq> admin \<and> k = Some internal \<and> a = Some admin)" unfolding given i_def d_def by auto
    also have "\<dots> \<longleftrightarrow> (\<exists>internal admin. internal \<noteq> [] \<and> admin \<noteq> [] \<and> internal \<noteq> admin \<and> env ''INTERNAL_API_KEY'' = Some internal \<and>
         env ''ADMIN_API_KEY'' = Some admin \<and> k = Some internal \<and> a = Some admin)" by blast
    finally show ?thesis .
  qed
qed (rule internal_key_iff)

theorem auth_fails_closed_witness:
  "verify_admin_key [''INTERNAL_API_KEY'' \<mapsto> ''i'', ''ADMIN_API_KEY'' \<mapsto> ''a''] (Some ''i'') (Some ''a'') = Inr () \<and>
   verify_admin_key [''INTERNAL_API_KEY'' \<mapsto> ''i'', ''ADMIN_API_KEY'' \<mapsto> ''i''] (Some ''i'') (Some ''i'') \<noteq> Inr ()"
proof -
  have off: "\<not> insecure_development_bypass_enabled [''INTERNAL_API_KEY'' \<mapsto> ''i'', ''ADMIN_API_KEY'' \<mapsto> x]" for x
    by (simp add: insecure_development_bypass_enabled_def env_get_def Let_def strip_def lower_def)
  show ?thesis
    using auth_fails_closed [of "[''INTERNAL_API_KEY'' \<mapsto> ''i'', ''ADMIN_API_KEY'' \<mapsto> ''a'']" "Some ''i''" "Some ''a''"] off [of "''a''"]
      auth_fails_closed [of "[''INTERNAL_API_KEY'' \<mapsto> ''i'', ''ADMIN_API_KEY'' \<mapsto> ''i'']" "Some ''i''" "Some ''i''"] off [of "''i''"] by simp
qed

text \<open>
  The rate limit is a bound. However a client spaces its write requests, over any stretch of its calls no more
  get through than ten plus one for every six seconds of that stretch, and a refused call costs it nothing.
\<close>

theorem rate_limit_is_a_bound:
  assumes "bucket_ok tb" and "tb_max tb = 10" and "tb_rate tb = 10 / 60" and "sorted (t # ts)" and "clock_ok tb key t"
  shows "of_nat (granted key (t # ts) tb) \<le> 10 + (last (t # ts) - t) / 6 \<and>
    (\<not> fst (consume t key tb) \<longrightarrow> tokens_at (snd (consume t key tb)) key t = tokens_at tb key t)"
proof (intro conjI impI)
  show "of_nat (granted key (t # ts) tb) \<le> 10 + (last (t # ts) - t) / 6"
    using granted_bound [OF assms(1,4,5)] tokens_bounds(2) [OF assms(1,5)] unfolding assms(2,3) by (simp add: field_simps)
  show "tokens_at (snd (consume t key tb)) key t = tokens_at tb key t" if "\<not> fst (consume t key tb)"
    using that tokens_bounds(2) [OF assms(1,5)] by (simp add: consume_tokens [OF assms(1)] tokens_at_def [of "_\<lparr>tb_buckets := _\<rparr>"] update_conv')
qed

theorem rate_limit_is_a_bound_witness:
  "granted ''10.0.0.1'' (replicate 12 0) write_bucket = 10"
proof -
  have "bucket_ok write_bucket" "tb_max write_bucket = 10" "tb_rate write_bucket = 10 / 60" "sorted (0 # replicate 11 (0 :: rat))"
    "clock_ok write_bucket ''10.0.0.1'' 0" by (simp_all add: write_bucket_def make_bucket_def bucket_ok_def clock_ok_def eval_nat_numeral)
  from conjunct1 [OF rate_limit_is_a_bound [OF this]] have "granted ''10.0.0.1'' (replicate 12 0) write_bucket \<le> 10" by (simp add: eval_nat_numeral del: granted.simps)
  moreover have "10 \<le> granted ''10.0.0.1'' (replicate 12 0) write_bucket" by code_simp
  ultimately show ?thesis by simp
qed

text \<open>The bound is met: twenty writes of one client get through within a minute.\<close>

lemma twenty_in_a_minute: "granted ''10.0.0.1'' (replicate 10 0 @ [6, 12, 18, 24, 30, 36, 42, 48, 54, 60]) write_bucket = 20"
  by code_simp

text \<open>An amount below half a cent passes the check for positive amounts and becomes zero.\<close>

lemma positive_amount_becomes_zero: "validate_positive_amount (4 / 1000) ''amount_usd'' = Inr 0"
  by code_simp


end
