(* ===== verification/Approvals.thy ===== *)
theory Approvals
  imports Access_Control
begin

text \<open>
  \<open>services/approval-gateway/src/approval_gateway/main.py\<close>: the queue of trades that wait for a person. The state is
  the table and the write bucket. Clock readings (\<open>datetime.now\<close> in microseconds, \<open>time.monotonic\<close> in seconds), the
  fresh identifier of a record and the soft timeout read from the policy file are arguments; a call that reads the
  clock twice takes both readings. The theorems: a decision is taken once and never changes, and what is decided was
  asked for; a lost update between two reviewers is shown as well.
\<close>

record approval_request =
  aq_signal_id :: string
  aq_symbol :: string
  aq_action :: string
  aq_amount_usd :: rat
  aq_tier :: int
  aq_reason :: string
  aq_metadata :: jdict

record approval_record =
  av_approval_id :: string
  av_signal_id :: string
  av_symbol :: string
  av_action :: string
  av_amount_usd :: rat
  av_tier :: int
  av_reason :: string
  av_metadata :: jdict
  av_status :: string
  av_created_at :: instant
  av_expires_at :: "instant option"
  av_reviewed_at :: "instant option"

record gateway =
  gw_rows :: "approval_record list"
  gw_bucket :: token_bucket

text \<open>What a request carries besides its body.\<close>

record gateway_call =
  gc_env :: process_env
  gc_key :: "string option"
  gc_client :: "string option"
  gc_clock :: rat
  gc_now :: instant
  gc_later :: instant

definition find_approval :: "string \<Rightarrow> approval_record list \<Rightarrow> approval_record option" where
  "find_approval approval_id rows = find (\<lambda>r. av_approval_id r = approval_id) rows"

subsection \<open>Operations\<close>

text \<open>The two dependencies of a write endpoint, in their order: a call with a wrong key costs no token.\<close>

definition guard_write :: "gateway_call \<Rightarrow> token_bucket \<Rightarrow> (exn + unit) \<times> token_bucket" where
  "guard_write call tb =
     (case verify_internal_key (gc_env call) (gc_key call) of
        Inl e \<Rightarrow> (Inl e, tb)
      | Inr _ \<Rightarrow> rate_limit_write (gc_clock call) (gc_client call) tb)"

definition expire_soft_timeouts :: "instant \<Rightarrow> approval_record list \<Rightarrow> approval_record list" where
  "expire_soft_timeouts now rows =
     update_where (\<lambda>r. av_status r = ''PENDING'' \<and> (case av_expires_at r of None \<Rightarrow> False | Some t \<Rightarrow> t \<le> now))
       (\<lambda>r. r\<lparr>av_status := ''EXPIRED'', av_reviewed_at := Some now\<rparr>) rows"

definition new_record :: "int \<Rightarrow> string \<Rightarrow> instant \<Rightarrow> approval_request \<Rightarrow> string \<Rightarrow> rat \<Rightarrow> approval_record" where
  "new_record timeout_minutes fresh now q symbol amount =
     \<lparr>av_approval_id = fresh, av_signal_id = aq_signal_id q, av_symbol = upper symbol, av_action = upper (aq_action q),
      av_amount_usd = amount, av_tier = aq_tier q, av_reason = aq_reason q, av_metadata = aq_metadata q, av_status = ''PENDING'',
      av_created_at = now, av_expires_at = (if aq_tier q = 2 then Some (now + timeout_minutes * 60000000) else None), av_reviewed_at = None\<rparr>"

definition create_approval :: "int \<Rightarrow> string \<Rightarrow> gateway_call \<Rightarrow> approval_request \<Rightarrow> gateway \<Rightarrow> (exn + approval_record) \<times> gateway" where
  "create_approval timeout_minutes fresh call q g =
     (case guard_write call (gw_bucket g) of
        (Inl e, tb) \<Rightarrow> (Inl e, g\<lparr>gw_bucket := tb\<rparr>)
      | (Inr _, tb) \<Rightarrow>
          (let g' = g\<lparr>gw_bucket := tb\<rparr> in
           case bindE (sanitize_symbol (aq_symbol q)) (\<lambda>symbol. bindE (validate_positive_amount (aq_amount_usd q) ''amount_usd'') (\<lambda>amount. Inr (symbol, amount))) of
             Inl e \<Rightarrow> (Inl e, g')
           | Inr (symbol, amount) \<Rightarrow>
               if find_approval fresh (gw_rows g) \<noteq> None then (Inl (IntegrityError ''approvals.approval_id''), g')
               else (let r = new_record timeout_minutes fresh (gc_now call) q symbol amount in (Inr r, g'\<lparr>gw_rows := gw_rows g @ [r]\<rparr>))))"

text \<open>\<open>order_by(created_at.desc())\<close>; rows of one moment come in no particular order, here the later insertion first.\<close>

definition list_pending :: "instant \<Rightarrow> string option \<Rightarrow> gateway \<Rightarrow> approval_record list \<times> gateway" where
  "list_pending now status g =
     (let rows = expire_soft_timeouts now (gw_rows g);
          chosen = (case status of None \<Rightarrow> rows | Some s \<Rightarrow> if s = [] then rows else filter (\<lambda>r. av_status r = upper s) rows)
      in (rev (sort_key av_created_at chosen), g\<lparr>gw_rows := rows\<rparr>))"

definition get_approval :: "instant \<Rightarrow> string \<Rightarrow> gateway \<Rightarrow> (exn + approval_record) \<times> gateway" where
  "get_approval now approval_id g =
     (let rows = expire_soft_timeouts now (gw_rows g) in
      (case find_approval approval_id rows of
         None \<Rightarrow> Inl (HTTPException 404 [S ''Approval not found''])
       | Some r \<Rightarrow> Inr r, g\<lparr>gw_rows := rows\<rparr>))"

definition set_status :: "string \<Rightarrow> string \<Rightarrow> instant \<Rightarrow> approval_record list \<Rightarrow> approval_record list" where
  "set_status approval_id status later rows =
     update_where (\<lambda>r. av_approval_id r = approval_id) (\<lambda>r. r\<lparr>av_status := status, av_reviewed_at := Some later\<rparr>) rows"

definition approval_transition :: "instant \<Rightarrow> instant \<Rightarrow> string \<Rightarrow> string \<Rightarrow> gateway \<Rightarrow> (exn + approval_record) \<times> gateway" where
  "approval_transition now later approval_id status g =
     (let rows = expire_soft_timeouts now (gw_rows g); g' = g\<lparr>gw_rows := rows\<rparr> in
      case find_approval approval_id rows of
        None \<Rightarrow> (Inl (HTTPException 404 [S ''Approval not found'']), g')
      | Some r \<Rightarrow>
          if av_status r \<noteq> ''PENDING'' then (Inr r, g')
          else (Inr (r\<lparr>av_status := status, av_reviewed_at := Some later\<rparr>), g'\<lparr>gw_rows := set_status approval_id status later rows\<rparr>))"

definition review :: "string \<Rightarrow> gateway_call \<Rightarrow> string \<Rightarrow> gateway \<Rightarrow> (exn + approval_record) \<times> gateway" where
  "review status call approval_id g =
     (case guard_write call (gw_bucket g) of
        (Inl e, tb) \<Rightarrow> (Inl e, g\<lparr>gw_bucket := tb\<rparr>)
      | (Inr _, tb) \<Rightarrow> approval_transition (gc_now call) (gc_later call) approval_id status (g\<lparr>gw_bucket := tb\<rparr>))"

definition approve_approval :: "gateway_call \<Rightarrow> string \<Rightarrow> gateway \<Rightarrow> (exn + approval_record) \<times> gateway" where
  "approve_approval = review ''APPROVED''"

definition reject_approval :: "gateway_call \<Rightarrow> string \<Rightarrow> gateway \<Rightarrow> (exn + approval_record) \<times> gateway" where
  "reject_approval = review ''REJECTED''"

subsection \<open>The gateway as a machine\<close>

inductive gateway_step :: "gateway \<Rightarrow> gateway \<Rightarrow> bool" where
  step_create: "gateway_step g (snd (create_approval timeout fresh call q g))"
| step_list: "gateway_step g (snd (list_pending now status g))"
| step_get: "gateway_step g (snd (get_approval now approval_id g))"
| step_approve: "gateway_step g (snd (approve_approval call approval_id g))"
| step_reject: "gateway_step g (snd (reject_approval call approval_id g))"

text \<open>The content of a request, which no review changes.\<close>

definition asked :: "approval_record \<Rightarrow> approval_record" where
  "asked r = r\<lparr>av_status := [], av_reviewed_at := None\<rparr>"

definition approval_ok :: "approval_record \<Rightarrow> bool" where
  "approval_ok r = (av_status r \<in> {''PENDING'', ''APPROVED'', ''REJECTED'', ''EXPIRED''} \<and>
     (av_reviewed_at r = None \<longleftrightarrow> av_status r = ''PENDING'') \<and>
     (av_expires_at r \<noteq> None \<longleftrightarrow> av_tier r = 2) \<and>
     (av_status r = ''EXPIRED'' \<longrightarrow> (\<exists>t u. av_expires_at r = Some t \<and> av_reviewed_at r = Some u \<and> t \<le> u)))"

definition gateway_ok :: "gateway \<Rightarrow> bool" where
  "gateway_ok g = (distinct (map av_approval_id (gw_rows g)) \<and> (\<forall>r \<in> set (gw_rows g). approval_ok r))"

text \<open>What one step does to one row: nothing, or a first decision.\<close>

definition moves :: "approval_record \<Rightarrow> approval_record \<Rightarrow> bool" where
  "moves r r' = (r' = r \<or> av_status r = ''PENDING'' \<and> av_status r' \<in> {''APPROVED'', ''REJECTED'', ''EXPIRED''} \<and> asked r' = asked r)"

lemma asked_id: "asked r' = asked r \<Longrightarrow> av_approval_id r' = av_approval_id r"
  by (cases r; cases r') (simp add: asked_def)

lemma moves_id: "moves r r' \<Longrightarrow> av_approval_id r' = av_approval_id r"
  by (auto simp: moves_def dest: asked_id)

lemma moves_refl [simp]: "moves r r"
  by (simp add: moves_def)

lemma moves_trans: "moves r s \<Longrightarrow> moves s t \<Longrightarrow> moves r t"
  by (auto simp: moves_def)

lemma moves_list_refl: "list_all2 moves rows rows"
  by (simp add: list.rel_refl)

lemma moves_list_trans: "list_all2 moves xs ys \<Longrightarrow> list_all2 moves ys zs \<Longrightarrow> list_all2 moves xs zs"
  by (rule list_all2_trans [OF moves_trans])

lemma moves_ids: "list_all2 moves xs ys \<Longrightarrow> map av_approval_id ys = map av_approval_id xs"
  by (induction xs ys rule: list_all2_induct) (simp_all add: moves_id)

lemma update_where_moves:
  assumes "\<And>r. r \<in> set rows \<Longrightarrow> p r \<Longrightarrow> moves r (f r)"
  shows "list_all2 moves rows (update_where p f rows)"
  using assms by (induction rows) (simp_all add: update_where_def)

lemma expire_moves: "list_all2 moves rows (expire_soft_timeouts now rows)"
  unfolding expire_soft_timeouts_def by (rule update_where_moves) (auto simp: moves_def asked_def)

lemma expire_approval_ok: "\<forall>r \<in> set rows. approval_ok r \<Longrightarrow> \<forall>r \<in> set (expire_soft_timeouts now rows). approval_ok r"
  by (auto simp: expire_soft_timeouts_def table_simps approval_ok_def split: option.splits)

lemma same_row: "distinct (map k rows) \<Longrightarrow> r \<in> set rows \<Longrightarrow> r' \<in> set rows \<Longrightarrow> k r = k r' \<Longrightarrow> r = r'"
  by (simp add: distinct_map inj_on_def)

lemma found_pending:
  assumes "distinct (map av_approval_id rows)" and "find_approval i rows = Some r" and "r' \<in> set rows" and "av_approval_id r' = i"
  shows "r' = r"
  using assms same_row [OF assms(1)] by (simp add: find_approval_def find_key_eq)

lemma set_status_moves:
  assumes "distinct (map av_approval_id rows)" and "find_approval i rows = Some r" and "av_status r = ''PENDING''" and "s \<in> {''APPROVED'', ''REJECTED''}"
  shows "list_all2 moves rows (set_status i s later rows)"
  unfolding set_status_def by (rule update_where_moves) (use found_pending [OF assms(1,2)] assms(3,4) in \<open>auto simp: moves_def asked_def\<close>)

lemma set_status_approval_ok:
  assumes "\<forall>r \<in> set rows. approval_ok r" and "s \<in> {''APPROVED'', ''REJECTED''}"
  shows "\<forall>r \<in> set (set_status i s later rows). approval_ok r"
  using assms by (auto simp: set_status_def table_simps approval_ok_def)

text \<open>The contract of one step on the table: the rows move, and new ones come after them.\<close>

definition table_step :: "approval_record list \<Rightarrow> approval_record list \<Rightarrow> bool" where
  "table_step rows rows' = (\<exists>olds news. rows' = olds @ news \<and> list_all2 moves rows olds \<and> distinct (map av_approval_id rows') \<and> (\<forall>r \<in> set rows'. approval_ok r))"

lemma table_step_moves:
  assumes "list_all2 moves rows rows'" and "distinct (map av_approval_id rows)" and "\<forall>r \<in> set rows'. approval_ok r"
  shows "table_step rows rows'"
  unfolding table_step_def using assms moves_ids [OF assms(1)] by (intro exI [of _ rows'] exI [of _ "[]"]) simp

lemma expire_step: "gateway_ok g \<Longrightarrow> table_step (gw_rows g) (expire_soft_timeouts now (gw_rows g))"
  by (rule table_step_moves) (auto simp: gateway_ok_def expire_moves intro: expire_approval_ok [THEN bspec])

lemma create_step: "gateway_ok g \<Longrightarrow> table_step (gw_rows g) (gw_rows (snd (create_approval timeout fresh call q g)))"
proof -
  assume g: "gateway_ok g"
  have same: "table_step (gw_rows g) (gw_rows g)" using g by (intro table_step_moves) (simp_all add: moves_list_refl gateway_ok_def)
  have new: "table_step (gw_rows g) (gw_rows g @ [new_record timeout fresh (gc_now call) q symbol amount])" if "find_approval fresh (gw_rows g) = None" for symbol amount
    unfolding table_step_def
    by (intro exI [of _ "gw_rows g"] exI [of _ "[new_record timeout fresh (gc_now call) q symbol amount]"])
      (use g that in \<open>auto simp: moves_list_refl gateway_ok_def new_record_def approval_ok_def find_approval_def find_None_iff\<close>)
  show ?thesis using same new by (auto simp: create_approval_def Let_def split: prod.splits sum.splits)
qed

lemma transition_step:
  assumes "gateway_ok g" and "s \<in> {''APPROVED'', ''REJECTED''}"
  shows "table_step (gw_rows g) (gw_rows (snd (approval_transition now later i s g)))"
proof -
  define rows where "rows = expire_soft_timeouts now (gw_rows g)"
  have m: "list_all2 moves (gw_rows g) rows" by (simp add: rows_def expire_moves)
  have ok: "\<forall>r \<in> set rows. approval_ok r" using assms(1) by (auto simp: rows_def gateway_ok_def intro: expire_approval_ok [THEN bspec])
  have d: "distinct (map av_approval_id rows)" "distinct (map av_approval_id (gw_rows g))" using assms(1) moves_ids [OF m] by (simp_all add: gateway_ok_def)
  have "table_step (gw_rows g) rows" using m d(2) ok by (rule table_step_moves)
  moreover have "table_step (gw_rows g) (set_status i s later rows)" if "find_approval i rows = Some r" "av_status r = ''PENDING''" for r
    using moves_list_trans [OF m set_status_moves [OF d(1) that assms(2)]] d(2) set_status_approval_ok [OF ok assms(2)] by (rule table_step_moves)
  ultimately show ?thesis by (auto simp: approval_transition_def rows_def [symmetric] Let_def split: option.splits)
qed

lemma gateway_step_table:
  assumes "gateway_step g g'" and "gateway_ok g"
  shows "table_step (gw_rows g) (gw_rows g')"
  using assms(1)
proof (cases rule: gateway_step.cases)
  case (step_create timeout fresh call q)
  then show ?thesis using create_step [OF assms(2)] by simp
next
  case (step_list now status)
  then show ?thesis using expire_step [OF assms(2)] by (simp add: list_pending_def Let_def)
next
  case (step_get now i)
  then show ?thesis using expire_step [OF assms(2)] by (simp add: get_approval_def Let_def)
next
  case (step_approve call i)
  have "table_step (gw_rows g) (gw_rows g)" using assms(2) by (intro table_step_moves) (simp_all add: moves_list_refl gateway_ok_def)
  with transition_step [of "g\<lparr>gw_bucket := b\<rparr>" "''APPROVED''" for b] assms(2) step_approve show ?thesis
    by (auto simp: approve_approval_def review_def gateway_ok_def split: prod.splits sum.splits)
next
  case (step_reject call i)
  have "table_step (gw_rows g) (gw_rows g)" using assms(2) by (intro table_step_moves) (simp_all add: moves_list_refl gateway_ok_def)
  with transition_step [of "g\<lparr>gw_bucket := b\<rparr>" "''REJECTED''" for b] assms(2) step_reject show ?thesis
    by (auto simp: reject_approval_def review_def gateway_ok_def split: prod.splits sum.splits)
qed

definition fresh_gateway :: "gateway \<Rightarrow> bool" where
  "fresh_gateway g = (gw_rows g = [] \<and> gw_bucket g = write_bucket)"

interpretation approvals: invariant_system fresh_gateway gateway_step gateway_ok
proof
  show "fresh_gateway g \<Longrightarrow> gateway_ok g" for g by (simp add: fresh_gateway_def gateway_ok_def)
  show "gateway_ok g \<Longrightarrow> gateway_step g g' \<Longrightarrow> gateway_ok g'" for g g'
    using gateway_step_table [of g g'] by (auto simp: table_step_def gateway_ok_def)
qed

lemma steps_move:
  assumes "gateway_step\<^sup>*\<^sup>* g g'" and "gateway_ok g" and "r \<in> set (gw_rows g)"
  shows "\<exists>r' \<in> set (gw_rows g'). moves r r'"
  using assms(1)
proof (induction rule: rtranclp_induct)
  case base
  then show ?case using assms(3) by (auto intro: moves_refl)
next
  case (step y z)
  then obtain r1 where r1: "r1 \<in> set (gw_rows y)" "moves r r1" by blast
  have "gateway_ok y" using approvals.steps_inv [OF step.hyps(1) assms(2)] .
  then obtain olds news where t: "gw_rows z = olds @ news" "list_all2 moves (gw_rows y) olds"
    using gateway_step_table [OF step.hyps(2)] by (auto simp: table_step_def)
  then obtain r2 where "r2 \<in> set olds" "moves r1 r2" using r1(1) by (metis in_set_conv_nth list_all2_conv_all_nth)
  with r1(2) t(1) show ?case using moves_trans by auto
qed

subsection \<open>Two reviewers at once\<close>

text \<open>
  \<open>_transition\<close> reads the row in one statement and writes it in another, and the \<open>UPDATE\<close> names only the primary
  key. \<open>review_read\<close> and \<open>review_commit\<close> are its two halves; the response carries what this reviewer wrote.
\<close>

definition review_read :: "instant \<Rightarrow> string \<Rightarrow> gateway \<Rightarrow> approval_record option \<times> gateway" where
  "review_read now approval_id g =
     (let rows = expire_soft_timeouts now (gw_rows g) in (find_approval approval_id rows, g\<lparr>gw_rows := rows\<rparr>))"

definition review_commit :: "instant \<Rightarrow> string \<Rightarrow> approval_record \<Rightarrow> gateway \<Rightarrow> approval_record \<times> gateway" where
  "review_commit later status r g =
     (if av_status r \<noteq> ''PENDING'' then (r, g)
      else (r\<lparr>av_status := status, av_reviewed_at := Some later\<rparr>, g\<lparr>gw_rows := set_status (av_approval_id r) status later (gw_rows g)\<rparr>))"

lemma transition_halves:
  "approval_transition now later i s g =
     (case review_read now i g of (None, g') \<Rightarrow> (Inl (HTTPException 404 [S ''Approval not found'']), g')
      | (Some r, g') \<Rightarrow> (case review_commit later s r g' of (r', g'') \<Rightarrow> (Inr r', g'')))"
  by (auto simp: approval_transition_def review_read_def review_commit_def Let_def find_approval_def split: option.splits dest: find_Some_mem)

subsection \<open>Properties\<close>

text \<open>
  C17: A trade is decided once. From any well-formed gateway, through any sequence of requests, every record stays in
  the table under its identifier with the content it was created with; one that is pending may become approved,
  rejected or expired, and one that is decided never changes again, neither in status nor in the time of its review.
\<close>

theorem approval_decided_once:
  assumes "gateway_step\<^sup>*\<^sup>* g g'" and "gateway_ok g" and "r \<in> set (gw_rows g)"
  shows "\<exists>r' \<in> set (gw_rows g'). av_approval_id r' = av_approval_id r \<and> asked r' = asked r \<and>
    (av_status r \<noteq> ''PENDING'' \<longrightarrow> r' = r) \<and>
    (\<forall>r'' \<in> set (gw_rows g'). av_approval_id r'' = av_approval_id r \<longrightarrow> r'' = r')"
proof -
  obtain r' where r': "r' \<in> set (gw_rows g')" "moves r r'" using steps_move [OF assms] by blast
  have "gateway_ok g'" by (rule approvals.steps_inv [OF assms(1,2)])
  then have "r'' = r'" if "r'' \<in> set (gw_rows g')" "av_approval_id r'' = av_approval_id r" for r''
    using that r' moves_id [OF r'(2)] same_row [of av_approval_id "gw_rows g'" r'' r'] by (simp add: gateway_ok_def)
  moreover have "asked r' = asked r" "av_status r \<noteq> ''PENDING'' \<longrightarrow> r' = r" using r'(2) by (auto simp: moves_def)
  ultimately show ?thesis using r'(1) moves_id [OF r'(2)] by blast
qed

definition sample_call :: gateway_call where
  "sample_call = \<lparr>gc_env = [''INTERNAL_API_KEY'' \<mapsto> ''i''], gc_key = Some ''i'', gc_client = Some ''10.0.0.1'', gc_clock = 0, gc_now = 0, gc_later = 1\<rparr>"

definition sample_ask :: approval_request where
  "sample_ask = \<lparr>aq_signal_id = ''s1'', aq_symbol = ''aapl'', aq_action = ''buy'', aq_amount_usd = 600, aq_tier = 3, aq_reason = [], aq_metadata = []\<rparr>"

definition empty_gateway :: gateway where
  "empty_gateway = \<lparr>gw_rows = [], gw_bucket = write_bucket\<rparr>"

theorem approval_decided_once_witness:
  "let g = snd (approve_approval sample_call ''a1'' (snd (create_approval 15 ''a1'' sample_call sample_ask empty_gateway)));
       g' = snd (reject_approval (sample_call\<lparr>gc_now := 9, gc_later := 9\<rparr>) ''a1'' g)
   in map av_status (gw_rows g) = [''APPROVED''] \<and> (\<exists>r \<in> set (gw_rows g'). av_status r = ''APPROVED'' \<and> av_approval_id r = ''a1'')"
proof -
  define g where "g = snd (approve_approval sample_call ''a1'' (snd (create_approval 15 ''a1'' sample_call sample_ask empty_gateway)))"
  define g' where "g' = snd (reject_approval (sample_call\<lparr>gc_now := 9, gc_later := 9\<rparr>) ''a1'' g)"
  have rows: "map (\<lambda>r. (av_status r, av_approval_id r)) (gw_rows g) = [(''APPROVED'', ''a1'')]" unfolding g_def by code_simp
  have "gateway_step\<^sup>*\<^sup>* empty_gateway g" unfolding g_def by (rule rtranclp_trans [OF r_into_rtranclp r_into_rtranclp]) (rule gateway_step.intros)+
  moreover have "gateway_ok empty_gateway" by (simp add: gateway_ok_def empty_gateway_def)
  ultimately have ok: "gateway_ok g" by (rule approvals.steps_inv)
  obtain r where r: "gw_rows g = [r]" "av_status r = ''APPROVED''" "av_approval_id r = ''a1''" using rows by auto
  have "gateway_step\<^sup>*\<^sup>* g g'" unfolding g'_def by (rule r_into_rtranclp) (rule step_reject)
  from approval_decided_once [OF this ok, of r] r have "\<exists>r \<in> set (gw_rows g'). av_status r = ''APPROVED'' \<and> av_approval_id r = ''a1''" by auto
  then show ?thesis using rows by (simp add: g_def [symmetric] g'_def [symmetric] Let_def split: list.splits) auto
qed

text \<open>
  What the queue holds is well-formed. In every state reachable from an empty table the identifiers are distinct,
  each record is pending, approved, rejected or expired, has a review time exactly when it is not pending, has a
  deadline exactly when it is of tier 2, and is expired only at or after its deadline.
\<close>

theorem approvals_well_formed:
  assumes "reach fresh_gateway gateway_step g"
  shows "distinct (map av_approval_id (gw_rows g)) \<and>
    (\<forall>r \<in> set (gw_rows g). av_status r \<in> {''PENDING'', ''APPROVED'', ''REJECTED'', ''EXPIRED''} \<and>
      (av_reviewed_at r = None \<longleftrightarrow> av_status r = ''PENDING'') \<and> (av_expires_at r \<noteq> None \<longleftrightarrow> av_tier r = 2) \<and>
      (av_status r = ''EXPIRED'' \<longrightarrow> (\<exists>t u. av_expires_at r = Some t \<and> av_reviewed_at r = Some u \<and> t \<le> u)))"
  using approvals.reach_inv [OF assms] by (simp add: gateway_ok_def approval_ok_def)

theorem approvals_well_formed_witness:
  "\<exists>g. reach fresh_gateway gateway_step g \<and> map av_status (gw_rows g) = [''EXPIRED''] \<and>
     (\<forall>r \<in> set (gw_rows g). av_reviewed_at r \<noteq> None)"
proof -
  let ?g = "snd (list_pending 1000000000 None (snd (create_approval 15 ''a1'' sample_call (sample_ask\<lparr>aq_tier := 2\<rparr>) empty_gateway)))"
  have "reach fresh_gateway gateway_step empty_gateway" by (rule reach_init) (simp add: fresh_gateway_def empty_gateway_def)
  then have "reach fresh_gateway gateway_step (snd (create_approval 15 ''a1'' sample_call (sample_ask\<lparr>aq_tier := 2\<rparr>) empty_gateway))"
    using step_create by (rule reach_step)
  then have reach: "reach fresh_gateway gateway_step ?g" using step_list by (rule reach_step)
  have st: "map av_status (gw_rows ?g) = [''EXPIRED'']" by code_simp
  then obtain r where r: "gw_rows ?g = [r]" "av_status r = ''EXPIRED''" by auto
  then have "\<forall>r \<in> set (gw_rows ?g). av_reviewed_at r \<noteq> None" using approvals_well_formed [OF reach] by force
  then show ?thesis using reach st by (intro exI [of _ ?g] conjI)
qed

text \<open>
  The update can be lost: two reviewers read the same pending record, one approves and is told so, the other rejects,
  and the table ends rejected.
\<close>

lemma approval_can_be_overwritten:
  "let g = snd (create_approval 15 ''a1'' sample_call sample_ask empty_gateway);
       (seen1, g1) = review_read 1 ''a1'' g; (seen2, g2) = review_read 2 ''a1'' g1;
       (told1, g3) = review_commit 3 ''APPROVED'' (the seen1) g2; (told2, g4) = review_commit 4 ''REJECTED'' (the seen2) g3
   in av_status told1 = ''APPROVED'' \<and> map av_status (gw_rows g3) = [''APPROVED''] \<and> map av_status (gw_rows g4) = [''REJECTED'']"
  by code_simp


end
