(* ===== verification/Audit_Log.thy ===== *)
theory Audit_Log
  imports Access_Control
begin

text \<open>
  \<open>services/audit-logger/src/audit_logger/main.py\<close>: the append-only log of what the system decided, its queries and
  its summary, and the week's spending that the orchestrator and the policy service read from it
  (\<open>_weekly_spend\<close> in \<open>autonomy_orchestrator/main.py\<close> and \<open>policy_service/rules.py\<close>). The fresh identifier and the
  clock are arguments. The theorems: the log only grows and gives back what was written, and the week's spending is
  what the recent trade events record, up to the thousand rows a query returns.
\<close>

record audit_post =
  apo_event_id :: "string option"
  apo_event_type :: string
  apo_symbol :: "string option"
  apo_signal_id :: "string option"
  apo_decision :: "string option"
  apo_reasoning :: string
  apo_metadata :: jdict
  apo_timestamp :: instant

record audit_row =
  al_event_id :: string
  al_event_type :: string
  al_symbol :: "string option"
  al_signal_id :: "string option"
  al_decision :: "string option"
  al_reasoning :: string
  al_metadata :: jdict
  al_timestamp :: instant

subsection \<open>Endpoints\<close>

definition event_row :: "string \<Rightarrow> audit_post \<Rightarrow> audit_row" where
  "event_row fresh e =
     \<lparr>al_event_id = or_default (apo_event_id e) fresh, al_event_type = apo_event_type e,
      al_symbol = (case apo_symbol e of None \<Rightarrow> None | Some s \<Rightarrow> if s = [] then None else Some (upper s)),
      al_signal_id = apo_signal_id e, al_decision = apo_decision e, al_reasoning = apo_reasoning e, al_metadata = apo_metadata e,
      al_timestamp = apo_timestamp e\<rparr>"

definition create_log :: "process_env \<Rightarrow> string option \<Rightarrow> string \<Rightarrow> audit_post \<Rightarrow> audit_row list \<Rightarrow> (exn + audit_row) \<times> audit_row list" where
  "create_log env key fresh e log_rows =
     (case verify_internal_key env key of
        Inl x \<Rightarrow> (Inl x, log_rows)
      | Inr _ \<Rightarrow>
          (let r = event_row fresh e in
           if al_event_id r \<in> set (map al_event_id log_rows) then (Inl (IntegrityError ''audit_events.event_id''), log_rows)
           else (Inr r, log_rows @ [r])))"

text \<open>\<open>order_by(timestamp.desc())\<close>; the later insertion first among equals. An empty filter string is no filter.\<close>

definition list_logs :: "string option \<Rightarrow> string option \<Rightarrow> instant option \<Rightarrow> nat \<Rightarrow> audit_row list \<Rightarrow> audit_row list" where
  "list_logs symbol event_type since limit log_rows =
     take limit (rev (sort_key al_timestamp (filter (\<lambda>r.
       (case symbol of None \<Rightarrow> True | Some s \<Rightarrow> s = [] \<or> al_symbol r = Some (upper s)) \<and>
       (case event_type of None \<Rightarrow> True | Some t \<Rightarrow> t = [] \<or> al_event_type r = t) \<and>
       (case since of None \<Rightarrow> True | Some t \<Rightarrow> t \<le> al_timestamp r)) log_rows)))"

definition get_log :: "string \<Rightarrow> audit_row list \<Rightarrow> exn + audit_row" where
  "get_log event_id log_rows =
     (case find (\<lambda>r. al_event_id r = event_id) log_rows of
        None \<Rightarrow> Inl (HTTPException 404 [S ''Audit event not found''])
      | Some r \<Rightarrow> Inr r)"

subsection \<open>Summary\<close>

text \<open>\<open>float(v)\<close> of a JSON value; \<open>None\<close> is an exception.\<close>

fun json_to_float :: "json \<Rightarrow> pyfloat option" where
  "json_to_float (JInt k) = Some (Fin (of_int k))"
| "json_to_float (JFloat x) = Some x"
| "json_to_float (JBool b) = Some (Fin (if b then 1 else 0))"
| "json_to_float (JStr s) = float_of_string s"
| "json_to_float _ = None"

definition metadata_number :: "audit_row \<Rightarrow> string \<Rightarrow> pyfloat option" where
  "metadata_number r field = (case map_of (al_metadata r) field of None \<Rightarrow> Some (Fin 0) | Some v \<Rightarrow> json_to_float v)"

definition DAY :: int where
  "DAY = 86400000000"

definition today_start :: "instant \<Rightarrow> instant" where
  "today_start now = now div DAY * DAY"

text \<open>1970-01-01 was a Thursday, weekday 3.\<close>

definition week_start :: "instant \<Rightarrow> instant" where
  "week_start now = today_start now - (now div DAY + 3) mod 7 * DAY"

record audit_summary =
  as_total_trades :: nat
  as_approved_today :: nat
  as_rejected_today :: nat
  as_weekly_spend :: pyfloat
  as_top_symbols :: "string list"

fun f_round2 :: "pyfloat \<Rightarrow> pyfloat" where
  "f_round2 (Fin x) = Fin (py_round 2 x)"
| "f_round2 x = x"

definition trade_kind :: "audit_row \<Rightarrow> bool" where
  "trade_kind r = (al_event_type r \<in> {''order.submitted'', ''signal.approved''})"

definition get_summary :: "instant \<Rightarrow> audit_row list \<Rightarrow> audit_summary" where
  "get_summary now log_rows =
     (let today = today_start now; week = week_start now;
          spend = fold (\<lambda>r acc. if al_event_type r = ''order.submitted'' \<and> week \<le> al_timestamp r
              then (case metadata_number r ''notional_usd'' of None \<Rightarrow> acc | Some x \<Rightarrow> f_add acc x) else acc) log_rows (Fin 0);
          symbols = List.map_filter (\<lambda>r. if trade_kind r then (case al_symbol r of Some s \<Rightarrow> if s = [] then None else Some s | None \<Rightarrow> None) else None) log_rows;
          seen = rev (remdups (rev symbols))
      in \<lparr>as_total_trades = length (filter trade_kind log_rows),
          as_approved_today = length (filter (\<lambda>r. al_event_type r = ''signal.approved'' \<and> today \<le> al_timestamp r) log_rows),
          as_rejected_today = length (filter (\<lambda>r. al_event_type r = ''signal.rejected'' \<and> today \<le> al_timestamp r) log_rows),
          as_weekly_spend = f_round2 spend,
          as_top_symbols = take 5 (sort_key (\<lambda>s. - int (count_list symbols s)) seen)\<rparr>)"

subsection \<open>The week's spending\<close>

definition WEEKLY_ROWS :: nat where
  "WEEKLY_ROWS = 1000"

definition spend_rows :: "instant \<Rightarrow> audit_row list \<Rightarrow> audit_row list" where
  "spend_rows now log_rows = list_logs None (Some ''trade.executed'') (Some (now - 7 * DAY)) WEEKLY_ROWS log_rows"

text \<open>The sum over the returned rows; \<open>None\<close> when some row holds no number.\<close>

fun sum_amounts :: "audit_row list \<Rightarrow> pyfloat \<Rightarrow> pyfloat option" where
  "sum_amounts [] acc = Some acc"
| "sum_amounts (r # rs) acc = (case metadata_number r ''amount_usd'' of None \<Rightarrow> None | Some x \<Rightarrow> sum_amounts rs (f_add acc x))"

text \<open>The orchestrator's reading: the sum stands outside its exception handler, so a row without a number raises.\<close>

definition orchestrator_weekly_spend :: "bool \<Rightarrow> instant \<Rightarrow> audit_row list \<Rightarrow> exn + pyfloat" where
  "orchestrator_weekly_spend answered now log_rows =
     (if \<not> answered then Inr (Fin 0)
      else (case sum_amounts (spend_rows now log_rows) (Fin 0) of
              None \<Rightarrow> Inl (ValueError [S ''could not convert amount_usd to float''])
            | Some x \<Rightarrow> Inr (f_round2 x)))"

text \<open>The policy service's: any failure reads as no spending.\<close>

definition policy_weekly_spend :: "bool \<Rightarrow> instant \<Rightarrow> audit_row list \<Rightarrow> pyfloat" where
  "policy_weekly_spend answered now log_rows =
     (if \<not> answered then Fin 0 else (case sum_amounts (spend_rows now log_rows) (Fin 0) of None \<Rightarrow> Fin 0 | Some x \<Rightarrow> x))"

subsection \<open>The log as a machine\<close>

inductive log_step :: "audit_row list \<Rightarrow> audit_row list \<Rightarrow> bool" where
  step_log: "log_step rows (snd (create_log env key fresh e rows))"

inductive_simps log_step_iff: "log_step rows rows'"

definition log_ok :: "audit_row list \<Rightarrow> bool" where
  "log_ok rows = distinct (map al_event_id rows)"

lemma create_log_keeps: "log_ok rows \<Longrightarrow> log_ok (snd (create_log env key fresh e rows))"
  by (auto simp: create_log_def log_ok_def Let_def split: sum.splits)

interpretation audit: invariant_system "\<lambda>rows. rows = []" log_step log_ok
  by standard (auto simp: log_ok_def log_step_iff create_log_keeps [unfolded log_ok_def])

lemma log_grows: "log_step\<^sup>*\<^sup>* rows rows' \<Longrightarrow> \<exists>more. rows' = rows @ more"
proof (induction rule: rtranclp_induct)
  case (step y z)
  then show ?case by (auto simp: log_step_iff create_log_def Let_def split: sum.splits)
qed simp

lemma sum_amounts_Fin:
  assumes "\<forall>r \<in> set rows. metadata_number r ''amount_usd'' = Some (Fin (amount r))"
  shows "sum_amounts rows (Fin t) = Some (Fin (t + sum_list (map amount rows)))"
  using assms by (induction rows arbitrary: t) (simp_all add: add.assoc)

lemma sum_list_perm:
  fixes f :: "audit_row \<Rightarrow> rat"
  shows "sum_list (map f (rev (sort_key al_timestamp rows))) = sum_list (map f rows)"
  using sum_list_sort [of f "\<lambda>_. True" al_timestamp rows] by (simp add: rev_map [symmetric] sum_list.rev)

definition week_trades :: "instant \<Rightarrow> audit_row list \<Rightarrow> audit_row list" where
  "week_trades now rows = filter (\<lambda>r. al_event_type r = ''trade.executed'' \<and> now - 7 * DAY \<le> al_timestamp r) rows"

lemma spend_rows_eq: "spend_rows now rows = take WEEKLY_ROWS (rev (sort_key al_timestamp (week_trades now rows)))"
  by (simp add: spend_rows_def list_logs_def week_trades_def)

subsection \<open>Properties\<close>

text \<open>
  The audit log keeps what it is told. Once an event has been accepted, its row can be fetched under its
  identifier, with the event's content, in the state that acceptance leaves and in every later one.
\<close>

theorem audit_log_keeps:
  assumes "log_ok rows" and "create_log env key fresh e rows = (Inr r, rows')" and "log_step\<^sup>*\<^sup>* rows' rows''"
  shows "get_log (al_event_id r) rows'' = Inr r \<and> al_event_type r = apo_event_type e \<and> al_metadata r = apo_metadata e \<and> al_timestamp r = apo_timestamp e"
proof -
  have r: "r = event_row fresh e" "rows' = rows @ [r]" using assms(2) by (auto simp: create_log_def Let_def split: sum.splits if_splits)
  have "log_ok rows'" using create_log_keeps [OF assms(1), of env key fresh e] assms(2) by simp
  then have "log_ok rows''" by (rule audit.steps_inv [OF assms(3)])
  moreover obtain more where "rows'' = rows' @ more" using log_grows [OF assms(3)] by blast
  ultimately have "find (\<lambda>x. al_event_id x = al_event_id r) rows'' = Some r" by (intro Prelude.find_key) (simp_all add: log_ok_def r(2))
  then show ?thesis by (simp add: get_log_def r(1) event_row_def)
qed

definition sample_event :: audit_post where
  "sample_event = \<lparr>apo_event_id = None, apo_event_type = ''trade.executed'', apo_symbol = Some ''aapl'', apo_signal_id = None, apo_decision = None, apo_reasoning = [],
     apo_metadata = [(''amount_usd'', JInt 250)], apo_timestamp = 5\<rparr>"

theorem audit_log_keeps_witness:
  "case create_log [''INTERNAL_API_KEY'' \<mapsto> ''i''] (Some ''i'') ''u1'' sample_event [] of
     (Inr r, rows) \<Rightarrow> get_log ''u1'' (snd (create_log [''INTERNAL_API_KEY'' \<mapsto> ''i''] (Some ''i'') ''u2'' sample_event rows)) = Inr r
   | _ \<Rightarrow> False"
proof -
  let ?env = "[''INTERNAL_API_KEY'' \<mapsto> ''i'']"
  have key: "verify_internal_key ?env (Some ''i'') = Inr ()" by (simp add: internal_key_iff)
  have made: "create_log ?env (Some ''i'') ''u1'' sample_event [] = (Inr (event_row ''u1'' sample_event), [event_row ''u1'' sample_event])"
    by (simp add: create_log_def key Let_def)
  have "log_step\<^sup>*\<^sup>* [event_row ''u1'' sample_event] (snd (create_log ?env (Some ''i'') ''u2'' sample_event [event_row ''u1'' sample_event]))"
    by (rule r_into_rtranclp) (rule step_log)
  note kept = audit_log_keeps [OF _ made this]
  have "al_event_id (event_row ''u1'' sample_event) = ''u1''" by (simp add: event_row_def sample_event_def)
  then show ?thesis using kept by (simp add: made log_ok_def)
qed

text \<open>
  The week's spending is what the trade events record. When every trade event of the last seven days carries a
  finite amount and there are at most a thousand of them, the policy service reads exactly the sum of their amounts
  and the orchestrator that sum to the cent; no other event and no older one contributes.
\<close>

theorem weekly_spend_is_recorded:
  assumes "\<forall>r \<in> set (week_trades now rows). metadata_number r ''amount_usd'' = Some (Fin (amount r))" and "length (week_trades now rows) \<le> 1000"
  shows "policy_weekly_spend True now rows = Fin (sum_list (map amount (week_trades now rows))) \<and>
    orchestrator_weekly_spend True now rows = Inr (Fin (py_round 2 (sum_list (map amount (week_trades now rows)))))"
proof -
  have "spend_rows now rows = rev (sort_key al_timestamp (week_trades now rows))" using assms(2) by (simp add: spend_rows_eq WEEKLY_ROWS_def)
  moreover have "sum_amounts (rev (sort_key al_timestamp (week_trades now rows))) (Fin 0) = Some (Fin (sum_list (map amount (week_trades now rows))))"
    using sum_amounts_Fin [of "rev (sort_key al_timestamp (week_trades now rows))" amount 0] assms(1) sum_list_perm [of amount] by simp
  ultimately show ?thesis by (simp add: policy_weekly_spend_def orchestrator_weekly_spend_def)
qed

theorem weekly_spend_is_recorded_witness:
  "policy_weekly_spend True 9 [event_row ''u1'' sample_event, event_row ''u2'' (sample_event\<lparr>apo_event_type := ''trade.closed''\<rparr>)] = Fin 250"
proof -
  let ?rows = "[event_row ''u1'' sample_event, event_row ''u2'' (sample_event\<lparr>apo_event_type := ''trade.closed''\<rparr>)]"
  have w: "week_trades 9 ?rows = [event_row ''u1'' sample_event]" by (simp add: week_trades_def event_row_def sample_event_def DAY_def)
  then have "\<forall>r \<in> set (week_trades 9 ?rows). metadata_number r ''amount_usd'' = Some (Fin ((\<lambda>_. 250) r))"
    by (simp add: metadata_number_def event_row_def sample_event_def)
  from weekly_spend_is_recorded [OF this] w show ?thesis by simp
qed

text \<open>
  The summary and the producers do not meet: it counts \<open>order.submitted\<close> and \<open>signal.approved\<close> events and sums
  \<open>notional_usd\<close>, while the only service that writes to the log names its events as below and records \<open>amount_usd\<close>.
\<close>

definition ORCHESTRATOR_EVENTS :: "string list" where
  "ORCHESTRATOR_EVENTS = [''lifecycle.demoted'', ''orchestrator.validation'', ''orchestrator.live_mode'', ''signal.rejected'', ''signal.paper_only'',
     ''trade.executed'', ''signal.review'', ''orchestrator.cycle'', ''reconciliation.break'', ''approval.stale_rejected'', ''trade.executed.approval'', ''trade.closed'']"

lemma summary_sees_no_trade:
  assumes "\<forall>r \<in> set rows. al_event_type r \<in> set ORCHESTRATOR_EVENTS"
  shows "as_total_trades (get_summary now rows) = 0 \<and> as_weekly_spend (get_summary now rows) = Fin 0 \<and> as_top_symbols (get_summary now rows) = []"
proof -
  have kinds: "\<not> trade_kind r" "al_event_type r \<noteq> ''order.submitted''" if "r \<in> set rows" for r
    using assms that by (auto simp: trade_kind_def ORCHESTRATOR_EVENTS_def)
  have "filter trade_kind rows = []" using kinds(1) by (simp add: filter_empty_conv)
  moreover have "List.map_filter (\<lambda>r. if trade_kind r then f r else None) rows = []" for f :: "audit_row \<Rightarrow> string option"
    using kinds(1) by (auto simp: List.map_filter_def filter_empty_conv)
  moreover have "fold (\<lambda>r acc. if al_event_type r = ''order.submitted'' \<and> w \<le> al_timestamp r then g r acc else acc) rows x = x" for w x and g :: "audit_row \<Rightarrow> pyfloat \<Rightarrow> pyfloat"
    using kinds(2) by (induction rows) auto
  moreover have "py_round 2 0 = 0" by (simp add: py_round_def round_half_even_def)
  ultimately show ?thesis by (simp add: get_summary_def Let_def)
qed

end
