(* ===== verification/Rule_Engine.thy ===== *)
theory Rule_Engine
  imports Strategies Evidence Risk_Engine
begin

text \<open>
  The live signal: \<open>build_ta_summary\<close> of \<open>market_data/indicators.py\<close>, the rule of
  \<open>strategy_service/rule_engine.py\<close> with the champion's or a challenger's thresholds, and the candidates
  \<open>strategy_service/ai_pipeline.py\<close> makes of it. The square root of the Bollinger bands, the clock, fresh
  identifiers, the answers of the research, sentiment and model services and \<open>json.loads\<close> are arguments. Challenger
  parameters come from a database column, so they are JSON values and every conversion may raise. The theorems relate
  the live rule to the one the backtest validates, bound what a candidate carries, and show that no data means no trade.
\<close>

subsection \<open>The technical summary\<close>

record technical_indicators =
  ti_rsi_14 :: rat
  ti_macd_line :: rat
  ti_macd_signal :: rat
  ti_macd_histogram :: rat
  ti_bb_upper :: rat
  ti_bb_middle :: rat
  ti_bb_lower :: rat
  ti_bb_position :: rat
  ti_ema_20 :: rat
  ti_ema_50 :: rat

definition default_indicators :: technical_indicators where
  "default_indicators = \<lparr>ti_rsi_14 = 50, ti_macd_line = 0, ti_macd_signal = 0, ti_macd_histogram = 0, ti_bb_upper = 0,
     ti_bb_middle = 0, ti_bb_lower = 0, ti_bb_position = 1 / 2, ti_ema_20 = 0, ti_ema_50 = 0\<rparr>"

record ta_summary =
  ta_symbol :: string
  ta_as_of :: instant
  ta_bars_count :: nat
  ta_indicators :: technical_indicators
  ta_adx :: rat
  ta_patterns :: "string list"
  ta_signal_tags :: "string list"
  ta_trend_direction :: string
  ta_data_source :: string
  ta_current_price :: "rat option"

definition build_ta_summary :: "(rat \<Rightarrow> rat) \<Rightarrow> instant \<Rightarrow> string \<Rightarrow> ohlcv_bar list \<Rightarrow> string \<Rightarrow> ta_summary" where
  "build_ta_summary sq now symbol bars data_source =
     (if bars = [] then
        \<lparr>ta_symbol = symbol, ta_as_of = now, ta_bars_count = 0, ta_indicators = default_indicators, ta_adx = ADX_NEUTRAL,
         ta_patterns = [], ta_signal_tags = [], ta_trend_direction = ''neutral'', ta_data_source = data_source,
         ta_current_price = None\<rparr>
      else
        (let opens = map ba_open bars; highs = map ba_high bars; lows = map ba_low bars; closes = map ba_close bars;
             price = last closes; rsi = compute_rsi closes 14;
             (macd_line, macd_sig, macd_hist) = compute_macd closes 12 26 9;
             (bb_up, bb_mid, bb_low) = compute_bollinger sq closes 20 2;
             ema_20 = compute_ema closes 20; ema_50 = compute_ema closes 50;
             adx = compute_adx highs lows closes 14; bb_pos = bb_position price bb_up bb_low
         in \<lparr>ta_symbol = symbol, ta_as_of = ba_timestamp (last bars), ta_bars_count = length bars,
             ta_indicators = \<lparr>ti_rsi_14 = py_round 4 rsi, ti_macd_line = py_round 6 macd_line, ti_macd_signal = py_round 6 macd_sig,
               ti_macd_histogram = py_round 6 macd_hist, ti_bb_upper = py_round 4 bb_up, ti_bb_middle = py_round 4 bb_mid,
               ti_bb_lower = py_round 4 bb_low, ti_bb_position = py_round 4 bb_pos, ti_ema_20 = py_round 4 ema_20,
               ti_ema_50 = py_round 4 ema_50\<rparr>,
             ta_adx = py_round 4 adx, ta_patterns = detect_patterns opens highs lows closes,
             ta_signal_tags = derive_signal_tags price rsi macd_hist ema_20 ema_50 bb_pos,
             ta_trend_direction = derive_trend rsi macd_hist ema_20 ema_50 price, ta_data_source = data_source,
             ta_current_price = Some (py_round 4 price)\<rparr>))"

subsection \<open>The rule\<close>

record rule_signal =
  rs_action :: string
  rs_confidence :: rat
  rs_risk_score :: string
  rs_reasoning :: msg
  rs_size_pct :: rat

definition SIZE_BY_RISK :: "string \<rightharpoonup> rat" where
  "SIZE_BY_RISK = [''LOW'' \<mapsto> 2 / 100, ''MEDIUM'' \<mapsto> 15 / 1000, ''HIGH'' \<mapsto> 5 / 1000]"

definition CHAMPION_PARAMETERS :: jdict where
  "CHAMPION_PARAMETERS = [(''ema_fast'', JFloat (Fin 20)), (''ema_slow'', JFloat (Fin 50)), (''rsi_buy_min'', JFloat (Fin 45)),
     (''rsi_buy_max'', JFloat (Fin 70)), (''macd_hist_min'', JFloat (Fin 0))]"

text \<open>\<open>int(v)\<close> of a JSON value.\<close>

fun py_int :: "json \<Rightarrow> exn + int" where
  "py_int (JBool b) = Inr (if b then 1 else 0)"
| "py_int (JInt n) = Inr n"
| "py_int (JFloat (Fin x)) = Inr (py_trunc x)"
| "py_int (JFloat x) = Inl (ValueError [S ''cannot convert float to integer''])"
| "py_int (JStr s) = (case int_of_string s of None \<Rightarrow> Inl (ValueError [S ''invalid literal for int()'']) | Some n \<Rightarrow> Inr n)"
| "py_int _ = Inl (TypeError ''int() argument must be a string or a real number'')"

text \<open>\<open>{**CHAMPION_PARAMETERS, **(parameters or {})}[name]\<close>.\<close>

definition active_parameter :: "jdict option \<Rightarrow> string \<Rightarrow> json" where
  "active_parameter parameters name =
     (case map_of (case parameters of None \<Rightarrow> [] | Some d \<Rightarrow> d) name of Some v \<Rightarrow> v | None \<Rightarrow> jget CHAMPION_PARAMETERS name)"

text \<open>
  \<open>compute_ema\<close> for a period that need not be positive: Python's slices count from the end, and the periods 0 and -1
  divide by zero.
\<close>

definition compute_ema_int :: "rat list \<Rightarrow> int \<Rightarrow> exn + rat" where
  "compute_ema_int closes period =
     (if 0 < period \<or> closes = [] then Inr (compute_ema closes (nat period))
      else if period = 0 \<or> period = - 1 then Inl (ValueError [S ''division by zero''])
      else
        (let cut = length closes - nat (- period)
         in Inr (ema_run (2 / (of_int period + 1)) (drop cut closes) (sum_list (take cut closes) / of_int period))))"

definition not_evaluated :: "int \<Rightarrow> int \<Rightarrow> nat \<Rightarrow> rule_signal" where
  "not_evaluated fast slow have_bars = \<lparr>rs_action = ''HOLD'', rs_confidence = 0, rs_risk_score = ''HIGH'',
     rs_reasoning = [S ''EMA('', I fast, S ''/'', I slow, S '') needs '', I slow, S '' bars, have '', I (int have_bars), S '' - not evaluated''],
     rs_size_pct = 0\<rparr>"

definition rule_action :: "rat \<Rightarrow> rat \<Rightarrow> rat \<Rightarrow> rat \<Rightarrow> pyfloat \<Rightarrow> pyfloat \<Rightarrow> pyfloat \<Rightarrow> string" where
  "rule_action ema_fast ema_slow rsi macd_hist buy_min buy_max hist_min =
     (let sell_min = f_sub (Fin 100) buy_max; sell_max = f_sub (Fin 100) buy_min in
      if ema_slow < ema_fast \<and> f_lt buy_min (Fin rsi) \<and> f_lt (Fin rsi) buy_max \<and> f_gt (Fin macd_hist) hist_min then ''BUY''
      else if ema_fast < ema_slow \<and> f_lt sell_min (Fin rsi) \<and> f_lt (Fin rsi) sell_max \<and> f_lt (Fin macd_hist) (f_neg hist_min)
      then ''SELL'' else ''HOLD'')"

definition rule_confidence :: "string \<Rightarrow> rat \<Rightarrow> rat \<Rightarrow> rat \<Rightarrow> rat \<Rightarrow> rat \<Rightarrow> rat" where
  "rule_confidence action ema_fast ema_slow rsi macd_hist adx =
     min (65 / 100 + (if 25 < adx then 10 / 100 else 0) +
          (if action = ''BUY'' \<and> 50 < rsi \<and> 0 < macd_hist \<and> ema_slow < ema_fast then 5 / 100
           else if action = ''SELL'' \<and> rsi < 50 \<and> macd_hist < 0 \<and> ema_fast < ema_slow then 5 / 100 else 0)) (95 / 100)"

definition rule_risk :: "rat \<Rightarrow> rat \<Rightarrow> string" where
  "rule_risk rsi adx = (if 70 < rsi \<or> rsi < 30 then ''HIGH'' else if 25 < adx \<and> 45 < rsi \<and> rsi < 65 then ''LOW'' else ''MEDIUM'')"

definition bullish_patterns :: "string list" where
  "bullish_patterns = [''bullish_engulfing'', ''hammer'']"

definition bearish_patterns :: "string list" where
  "bearish_patterns = [''bearish_engulfing'', ''shooting_star'']"

text \<open>The last three bars; the matches in sorted order.\<close>

definition matched_patterns :: "ohlcv_bar list \<Rightarrow> string list \<Rightarrow> string list" where
  "matched_patterns bars wanted_patterns =
     (let window = drop (length bars - 3) bars;
          found = detect_patterns (map ba_open window) (map ba_high window) (map ba_low window) (map ba_close window)
      in filter (\<lambda>p. p \<in> set found) wanted_patterns)"

definition pattern_bonus :: "ohlcv_bar list option \<Rightarrow> string \<times> rat \<times> msg \<Rightarrow> string \<times> rat \<times> msg" where
  "pattern_bonus bars verdict =
     (case verdict of (action, confidence, reasoning) \<Rightarrow>
       (case bars of
          None \<Rightarrow> verdict
        | Some bs \<Rightarrow>
            if length bs < 2 then verdict
            else
              (let hits = (if action = ''BUY'' then matched_patterns bs bullish_patterns
                           else if action = ''SELL'' then matched_patterns bs bearish_patterns else [])
               in if hits = [] then verdict
                  else (action, min (95 / 100) (confidence + 10 / 100), reasoning @ [S '' | Pattern: '', J (JList (map JStr hits))]))))"

text \<open>
  The score is compared as it is. It comes from a JSON answer, so it may be any value: None is no score, a number is compared, and
  with anything else the comparison raises, which only a BUY reaches.
\<close>

definition json_type :: "json \<Rightarrow> string" where
  "json_type v = (case v of JStr _ \<Rightarrow> ''str'' | JList _ \<Rightarrow> ''list'' | JObj _ \<Rightarrow> ''dict'' | JBool _ \<Rightarrow> ''bool'' | JInt _ \<Rightarrow> ''int''
     | JFloat _ \<Rightarrow> ''float'' | JNull \<Rightarrow> ''NoneType'')"

fun number_of :: "json \<Rightarrow> pyfloat option" where
  "number_of (JBool b) = Some (Fin (if b then 1 else 0))"
| "number_of (JInt n) = Some (Fin (of_int n))"
| "number_of (JFloat x) = Some x"
| "number_of _ = None"

definition compared_score :: "string \<Rightarrow> json option \<Rightarrow> exn + pyfloat option" where
  "compared_score action score =
     (case score of
        None \<Rightarrow> Inr None
      | Some v \<Rightarrow>
          if v = JNull \<or> action \<noteq> ''BUY'' \<or> number_of v \<noteq> None then Inr (number_of v)
          else Inl (TypeError (''not supported between instances of '' @ json_type v @ '' and float'')))"

definition sentiment_gate :: "rat \<Rightarrow> pyfloat option \<Rightarrow> string \<times> rat \<times> msg \<Rightarrow> string \<times> rat \<times> msg" where
  "sentiment_gate threshold score verdict =
     (case verdict of (action, confidence, reasoning) \<Rightarrow>
       (case score of
          None \<Rightarrow> verdict
        | Some s \<Rightarrow>
            if action = ''BUY'' \<and> f_lt s (Fin threshold)
            then (''HOLD'', min confidence (55 / 100),
                  reasoning @ [S '' | Sentiment gate blocked BUY (score='', F ''.2f'' s, S '' < '', F '''' (Fin threshold), S '')''])
            else verdict))"

text \<open>The part after the averages are known.\<close>

definition rule_verdict ::
  "ta_summary \<Rightarrow> rat option \<Rightarrow> pyfloat option \<Rightarrow> ohlcv_bar list option \<Rightarrow> int \<Rightarrow> int \<Rightarrow> pyfloat \<Rightarrow> pyfloat \<Rightarrow> pyfloat \<Rightarrow> rat \<Rightarrow> rat
     \<Rightarrow> rule_signal" where
  "rule_verdict ta config sentiment_score bars fast slow buy_min buy_max hist_min ema_fast ema_slow =
     (let rsi = ti_rsi_14 (ta_indicators ta); macd_hist = ti_macd_histogram (ta_indicators ta); adx = ta_adx ta;
          action = rule_action ema_fast ema_slow rsi macd_hist buy_min buy_max hist_min;
          risk = rule_risk rsi adx;
          reasoning = [S ''EMA'', I fast, S ''='', F ''.2f'' (Fin ema_fast), S (if ema_slow < ema_fast then '' > '' else '' <= ''),
            S ''EMA'', I slow, S ''='', F ''.2f'' (Fin ema_slow), S '', RSI='', F ''.1f'' (Fin rsi), S '', MACD_hist='',
            F ''.6f'' (Fin macd_hist), S '', ADX='', F ''.1f'' (Fin adx), S '' -> '', S action];
          (final, confidence, why) = pattern_bonus bars (sentiment_gate (case config of None \<Rightarrow> - 3 / 10 | Some t \<Rightarrow> t) sentiment_score
            (action, rule_confidence action ema_fast ema_slow rsi macd_hist adx, reasoning))
      in \<lparr>rs_action = final, rs_confidence = py_round 4 confidence, rs_risk_score = risk, rs_reasoning = why,
          rs_size_pct = get_or (SIZE_BY_RISK risk) 0\<rparr>)"

definition rule_answer ::
  "ta_summary \<Rightarrow> rat option \<Rightarrow> json option \<Rightarrow> ohlcv_bar list option \<Rightarrow> int \<Rightarrow> int \<Rightarrow> pyfloat \<Rightarrow> pyfloat \<Rightarrow> pyfloat \<Rightarrow> rat \<Rightarrow> rat
     \<Rightarrow> exn + rule_signal" where
  "rule_answer ta config sentiment_score bars fast slow buy_min buy_max hist_min ema_fast ema_slow =
     map_sum id (\<lambda>score. rule_verdict ta config score bars fast slow buy_min buy_max hist_min ema_fast ema_slow)
       (compared_score (rule_action ema_fast ema_slow (ti_rsi_14 (ta_indicators ta)) (ti_macd_histogram (ta_indicators ta)) buy_min buy_max hist_min)
          sentiment_score)"

definition evaluate_rules ::
  "ta_summary \<Rightarrow> rat option \<Rightarrow> json option \<Rightarrow> ohlcv_bar list option \<Rightarrow> jdict option \<Rightarrow> exn + rule_signal" where
  "evaluate_rules ta config sentiment_score bars parameters =
     (let ind = ta_indicators ta;
          closes = filter (\<lambda>c. c \<noteq> 0) (map ba_close (case bars of None \<Rightarrow> [] | Some bs \<Rightarrow> bs)) in
      bindE (py_float (active_parameter parameters ''rsi_buy_min'')) (\<lambda>buy_min.
      bindE (py_float (active_parameter parameters ''rsi_buy_max'')) (\<lambda>buy_max.
      bindE (py_float (active_parameter parameters ''macd_hist_min'')) (\<lambda>hist_min.
      bindE (py_int (active_parameter parameters ''ema_fast'')) (\<lambda>fast.
      bindE (py_int (active_parameter parameters ''ema_slow'')) (\<lambda>slow.
        if fast = 20 \<and> slow = 50
        then rule_answer ta config sentiment_score bars fast slow buy_min buy_max hist_min (ti_ema_20 ind) (ti_ema_50 ind)
        else if int (length closes) < slow then Inr (not_evaluated fast slow (length closes))
        else
          bindE (compute_ema_int closes fast) (\<lambda>ema_fast.
          bindE (compute_ema_int closes slow) (\<lambda>ema_slow.
            rule_answer ta config sentiment_score bars fast slow buy_min buy_max hist_min ema_fast ema_slow))))))))"

subsection \<open>Candidates\<close>

record ta_contract =
  tc_symbol :: string
  tc_trend_direction :: string
  tc_signal_tags :: "string list"
  tc_rsi_14 :: rat
  tc_macd_histogram :: rat
  tc_bb_position :: rat
  tc_data_source :: string
  tc_as_of :: instant

definition ta_contract_of :: "string \<Rightarrow> ta_summary \<Rightarrow> ta_contract" where
  "ta_contract_of symbol ta = \<lparr>tc_symbol = symbol, tc_trend_direction = ta_trend_direction ta, tc_signal_tags = ta_signal_tags ta,
     tc_rsi_14 = ti_rsi_14 (ta_indicators ta), tc_macd_histogram = ti_macd_histogram (ta_indicators ta),
     tc_bb_position = ti_bb_position (ta_indicators ta), tc_data_source = ta_data_source ta, tc_as_of = ta_as_of ta\<rparr>"

record strategy_signal = signal_candidate +
  ss_horizon :: string
  ss_source :: string
  ss_model_version :: string
  ss_ta_summary :: "ta_contract option"

fun action_of_json :: "json \<Rightarrow> candidate_action option" where
  "action_of_json (JStr s) =
     (if s = ''BUY'' then Some BUY else if s = ''SELL'' then Some SELL else if s = ''HOLD'' then Some HOLD
      else if s = ''EXIT'' then Some EXIT else None)"
| "action_of_json _ = None"

text \<open>\<open>SignalCandidate(...)\<close> with the constraints of the contract; a violation is a \<open>ValidationError\<close>.\<close>

definition make_signal ::
  "string \<Rightarrow> string \<Rightarrow> instant \<Rightarrow> json \<Rightarrow> pyfloat \<Rightarrow> rat \<Rightarrow> string \<Rightarrow> json \<Rightarrow> ta_contract option \<Rightarrow> string option
     \<Rightarrow> exn + strategy_signal" where
  "make_signal signal_id symbol now action confidence size_pct model_version risk_score ta research =
     (case (action_of_json action, confidence, risk_score) of
        (Some a, Fin c, JStr risk) \<Rightarrow>
          if 0 \<le> c \<and> c \<le> 1 \<and> 0 < size_pct \<and> size_pct \<le> 1
          then Inr \<lparr>sg_signal_id = signal_id, sg_symbol = symbol, sg_ts = now, sg_candidate_action = a, sg_confidence = c,
                    sg_size_pct = size_pct, sg_risk_score = risk, sg_strategy = ''ema_rsi_macd'', sg_ta_as_of = map_option tc_as_of ta,
                    sg_research_summary = research, ss_horizon = ''intraday'', ss_source = ''strategy-service'',
                    ss_model_version = model_version, ss_ta_summary = ta\<rparr>
          else Inl (ValueError [S ''validation error for SignalCandidate''])
      | _ \<Rightarrow> Inl (ValueError [S ''validation error for SignalCandidate'']))"

definition signal_of_rule ::
  "string \<Rightarrow> string \<Rightarrow> instant \<Rightarrow> string \<Rightarrow> ta_contract option \<Rightarrow> rule_signal \<Rightarrow> exn + strategy_signal" where
  "signal_of_rule signal_id symbol now model_version ta r =
     make_signal signal_id symbol now (JStr (rs_action r)) (Fin (rs_confidence r)) (rs_size_pct r) model_version
       (JStr (rs_risk_score r)) ta None"

definition build_deterministic_signal ::
  "string \<Rightarrow> instant \<Rightarrow> rat \<Rightarrow> string \<Rightarrow> ta_summary option \<Rightarrow> json option \<Rightarrow> ohlcv_bar list option \<Rightarrow> exn + strategy_signal" where
  "build_deterministic_signal signal_id now threshold symbol ta sentiment_score bars =
     (case ta of
        Some t \<Rightarrow> bindE (evaluate_rules t (Some threshold) sentiment_score bars None)
                    (signal_of_rule signal_id (upper symbol) now ''strategy-rule-v1'' None)
      | None \<Rightarrow> make_signal signal_id (upper symbol) now (JStr ''HOLD'') (Fin 0) (5 / 1000) ''strategy-rule-v1/no-data'' (JStr ''HIGH'')
                  None (Some ''market_data_unavailable''))"

subsection \<open>The model-backed pipeline\<close>

record research_report =
  re_headline_summary :: string
  re_confidence_modifier :: rat

record ai_settings =
  as_prefer_deterministic :: bool
  as_fallback_to_deterministic :: bool
  as_sentiment_block_threshold :: rat
  as_sentiment_weight :: rat
  as_claude_model :: string
  as_prompt_sha256 :: string

text \<open>
  What one call sees of the outside: two fetches of bars, the research and sentiment services (\<open>None\<close> when the answer
  is missing or unusable), the score the fallback asks for itself, which is taken from the answer without validation (\<open>None\<close>
  when there is no answer of status 200 that is an object), the text of the model or its failure, and \<open>json.loads\<close>.
\<close>

record ai_env =
  ai_now :: instant
  ai_new_id :: string
  ai_sqrt :: "rat \<Rightarrow> rat"
  ai_fetch :: "exn + ohlcv_bar list"
  ai_refetch :: "exn + ohlcv_bar list"
  ai_fetcher :: string
  ai_research :: "research_report option"
  ai_sentiment :: "rat option"
  ai_fallback_sentiment :: "json option"
  ai_answer :: "exn + string"
  ai_loads :: "string \<Rightarrow> json option"

definition ta_of_fetch :: "ai_env \<Rightarrow> string \<Rightarrow> string \<Rightarrow> exn + ohlcv_bar list \<Rightarrow> (ta_summary \<times> ohlcv_bar list) option" where
  "ta_of_fetch env symbol source fetched =
     (case fetched of Inl e \<Rightarrow> None
      | Inr bars \<Rightarrow> if bars = [] then None else Some (build_ta_summary (ai_sqrt env) (ai_now env) symbol bars source, bars))"

text \<open>The brace-delimited span the regular expression finds: from the first opening brace to the last closing one after it.\<close>

definition json_span :: "string \<Rightarrow> string option" where
  "json_span text =
     (let from = dropWhile (\<lambda>c. c \<noteq> CHR 0x7B) text;
          upto = rev (dropWhile (\<lambda>c. c \<noteq> CHR 0x7D) (rev from))
      in if upto = [] then None else Some upto)"

definition parse_json :: "(string \<Rightarrow> json option) \<Rightarrow> string \<Rightarrow> json" where
  "parse_json loads text =
     (let fallback = JObj [(''action'', JStr ''HOLD''), (''confidence'', JFloat (Fin (1 / 2))), (''risk_score'', JStr ''MEDIUM''),
                           (''reasoning'', JStr ''parse error'')]
      in case loads (strip text) of
           Some v \<Rightarrow> v
         | None \<Rightarrow> (case json_span text of None \<Rightarrow> fallback | Some t \<Rightarrow> (case loads t of Some v \<Rightarrow> v | None \<Rightarrow> fallback)))"

text \<open>Python's two-argument \<open>min\<close>, and \<open>max(0.0, min(hi, x))\<close>.\<close>

definition f_min :: "pyfloat \<Rightarrow> pyfloat \<Rightarrow> pyfloat" where
  "f_min a b = (if f_lt b a then b else a)"

definition clamp_float :: "rat \<Rightarrow> pyfloat \<Rightarrow> pyfloat" where
  "clamp_float hi x = f_max (Fin 0) (f_min (Fin hi) x)"

definition blended_confidence :: "rat \<Rightarrow> pyfloat \<Rightarrow> rat \<Rightarrow> rat \<Rightarrow> pyfloat" where
  "blended_confidence weight0 raw modifier score =
     (let technical = clamp_float (95 / 100) (f_add raw (Fin modifier));
          component = clamp_float 1 (Fin ((score + 1) / 2));
          weight = max 0 (min 1 weight0)
      in clamp_float (95 / 100) (f_add (f_mul (Fin (1 - weight)) technical) (f_mul (Fin weight) component)))"

definition signal_of_answer ::
  "ai_settings \<Rightarrow> ai_env \<Rightarrow> string \<Rightarrow> ta_summary option \<Rightarrow> rat \<Rightarrow> json \<Rightarrow> exn + strategy_signal" where
  "signal_of_answer st env symbol ta score answer =
     (case answer of
        JObj d \<Rightarrow>
          bindE (py_float (jget_default d ''confidence'' (JFloat (Fin (6 / 10))))) (\<lambda>raw.
            (let risk = jget_default d ''risk_score'' (JStr ''MEDIUM'') in
             make_signal (ai_new_id env) (upper symbol) (ai_now env) (jget_default d ''action'' (JStr ''HOLD''))
               (f_round 4 (blended_confidence (as_sentiment_weight st) raw
                  (case ai_research env of None \<Rightarrow> 0 | Some r \<Rightarrow> re_confidence_modifier r) score))
               (case risk of JStr r \<Rightarrow> get_or (SIZE_BY_RISK r) (15 / 1000) | _ \<Rightarrow> 15 / 1000)
               (''strategy-ai-v1/'' @ as_claude_model st @ ''/prompt-'' @ take 12 (as_prompt_sha256 st)) risk
               (map_option (ta_contract_of (upper symbol)) ta)
               (case ai_research env of None \<Rightarrow> None
                | Some r \<Rightarrow> if re_headline_summary r = [] then None else Some (take 200 (re_headline_summary r)))))
      | _ \<Rightarrow> Inl (TypeError ''the answer is not an object''))"

definition do_generate :: "ai_settings \<Rightarrow> ai_env \<Rightarrow> string \<Rightarrow> exn + strategy_signal" where
  "do_generate st env symbol =
     (let seen = ta_of_fetch env symbol (ai_fetcher env) (ai_fetch env);
          ta = map_option fst seen; bars = map_option snd seen;
          score = (case ai_sentiment env of None \<Rightarrow> 0 | Some s \<Rightarrow> s);
          ask = bindE (ai_answer env) (\<lambda>text. signal_of_answer st env symbol ta score (parse_json (ai_loads env) text))
      in case ta of
           None \<Rightarrow> ask
         | Some t \<Rightarrow>
             if as_prefer_deterministic st then
               bindE (evaluate_rules t (Some (as_sentiment_block_threshold st)) (Some (JFloat (Fin score))) bars None) (\<lambda>r.
                 if 75 / 100 \<le> rs_confidence r
                 then signal_of_rule (ai_new_id env) (upper symbol) (ai_now env) ''strategy-rule-v1''
                        (Some (ta_contract_of (upper symbol) t)) r
                 else ask)
             else ask)"

definition generate_signal_ai :: "ai_settings \<Rightarrow> ai_env \<Rightarrow> string \<Rightarrow> exn + strategy_signal" where
  "generate_signal_ai st env symbol =
     (case do_generate st env symbol of
        Inr s \<Rightarrow> Inr s
      | Inl e \<Rightarrow>
          if \<not> as_fallback_to_deterministic st then Inl e
          else
            (let seen = ta_of_fetch env symbol ''unknown'' (ai_refetch env) in
             build_deterministic_signal (ai_new_id env) (ai_now env) (as_sentiment_block_threshold st) symbol
               (map_option fst seen) (ai_fallback_sentiment env)
               (case ai_refetch env of Inl _ \<Rightarrow> None | Inr bs \<Rightarrow> Some bs)))"

subsection \<open>The live rule against the backtested one\<close>

text \<open>
  The summary rounds its indicators and the backtest does not. A threshold that is itself a multiple of the rounding
  step cannot be crossed by rounding, so rounding can only lose signals.
\<close>

definition on_grid :: "nat \<Rightarrow> rat \<Rightarrow> bool" where
  "on_grid n t = (of_int \<lfloor>t * 10 ^ n\<rfloor> = t * 10 ^ n)"

lemma on_grid_round: "on_grid n t \<Longrightarrow> py_round n t = t"
  unfolding on_grid_def py_round_def by (metis nonzero_mult_div_cancel_right power_not_zero round_half_even_int zero_neq_numeral)

lemma on_gridI: "t * 10 ^ n = of_int k \<Longrightarrow> on_grid n t"
  by (simp add: on_grid_def)

lemma on_gridE:
  assumes "on_grid n t"
  obtains k where "t * 10 ^ n = of_int k"
  using assms by (metis on_grid_def)

lemma on_grid_diff: "on_grid n t \<Longrightarrow> on_grid n (of_int c - t)"
  by (erule on_gridE, rule on_gridI [of _ _ "c * 10 ^ n - k" for k]) (simp add: algebra_simps)

lemma round_above: "on_grid n t \<Longrightarrow> t < py_round n x \<Longrightarrow> t < x"
  by (metis linorder_not_le on_grid_round py_round_mono)

lemma round_below: "on_grid n t \<Longrightarrow> py_round n x < t \<Longrightarrow> x < t"
  by (metis linorder_not_le on_grid_round py_round_mono)

lemma round_less: "py_round n x < py_round n y \<Longrightarrow> x < y"
  by (metis linorder_not_le py_round_mono)

definition params_dict :: "strategy_params \<Rightarrow> jdict" where
  "params_dict p = [(''ema_fast'', JFloat (Fin (of_int (sp_ema_fast p)))), (''ema_slow'', JFloat (Fin (of_int (sp_ema_slow p)))),
     (''rsi_buy_min'', JFloat (Fin (sp_rsi_buy_min p))), (''rsi_buy_max'', JFloat (Fin (sp_rsi_buy_max p))),
     (''macd_hist_min'', JFloat (Fin (sp_macd_hist_min p)))]"

definition runs_on :: "strategy_params \<Rightarrow> jdict option \<Rightarrow> bool" where
  "runs_on p parameters = (parameters = Some (params_dict p) \<or> parameters = None \<and> p = default_params)"

lemma py_trunc_int [simp]: "py_trunc (of_int k) = k"
  by (simp add: py_trunc_def)

lemma runs_on_reads:
  assumes "runs_on p parameters"
  shows "py_float (active_parameter parameters ''rsi_buy_min'') = Inr (Fin (sp_rsi_buy_min p))"
    and "py_float (active_parameter parameters ''rsi_buy_max'') = Inr (Fin (sp_rsi_buy_max p))"
    and "py_float (active_parameter parameters ''macd_hist_min'') = Inr (Fin (sp_macd_hist_min p))"
    and "py_int (active_parameter parameters ''ema_fast'') = Inr (sp_ema_fast p)"
    and "py_int (active_parameter parameters ''ema_slow'') = Inr (sp_ema_slow p)"
  using assms py_trunc_int [of 20] py_trunc_int [of 50]
  by (auto simp: runs_on_def params_dict_def active_parameter_def CHAMPION_PARAMETERS_def jget_def default_params_def)

lemma gates_keep_action:
  "fst (pattern_bonus bars (sentiment_gate t score (a, c, m))) = a \<or> fst (pattern_bonus bars (sentiment_gate t score (a, c, m))) = ''HOLD''"
  by (auto simp: pattern_bonus_def sentiment_gate_def Let_def split: option.splits)

lemma verdict_action:
  "rs_action (rule_verdict ta config score bars fast slow lo hi h ef es) \<noteq> ''HOLD'' \<Longrightarrow>
   rs_action (rule_verdict ta config score bars fast slow lo hi h ef es) =
     rule_action ef es (ti_rsi_14 (ta_indicators ta)) (ti_macd_histogram (ta_indicators ta)) lo hi h"
  unfolding rule_verdict_def Let_def case_prod_unfold using gates_keep_action by (metis rule_signal.select_convs(1))

lemma verdict_action_unscored:
  "rs_action (rule_verdict ta config None bars fast slow lo hi h ef es) =
     rule_action ef es (ti_rsi_14 (ta_indicators ta)) (ti_macd_histogram (ta_indicators ta)) lo hi h"
  by (auto simp: rule_verdict_def Let_def case_prod_unfold pattern_bonus_def sentiment_gate_def split: option.splits)

lemma map_sum_Inr: "map_sum f g x = Inr y \<longleftrightarrow> (\<exists>z. x = Inr z \<and> y = g z)"
  by (cases x) auto

lemma compared_score_simps [simp]:
  "compared_score a None = Inr None" "compared_score a (Some JNull) = Inr None" "compared_score a (Some (JFloat x)) = Inr (Some x)"
  by (simp_all add: compared_score_def)

lemma compared_score_Inr: "compared_score a score = Inr x \<Longrightarrow> x = (case score of None \<Rightarrow> None | Some v \<Rightarrow> number_of v)"
  by (auto simp: compared_score_def split: option.splits if_splits)

text \<open>The only scores the comparison refuses, once the rule says BUY.\<close>

definition not_comparable :: "json option \<Rightarrow> bool" where
  "not_comparable score = (case score of Some (JStr _) \<Rightarrow> True | Some (JList _) \<Rightarrow> True | Some (JObj _) \<Rightarrow> True | _ \<Rightarrow> False)"

lemma compared_score_cases:
  "(if a = ''BUY'' \<and> not_comparable score
    then compared_score a score = Inl (TypeError (''not supported between instances of '' @ json_type (the score) @ '' and float''))
    else compared_score a score = Inr (case score of None \<Rightarrow> None | Some v \<Rightarrow> number_of v))"
  by (cases score; cases "the score") (auto simp: compared_score_def not_comparable_def)

lemma evaluate_rules_cases [consumes 4, case_names champion short other]:
  assumes "evaluate_rules ta config score bars parameters = Inr r" and "runs_on p parameters"
    and "0 < sp_ema_fast p" and "0 < sp_ema_slow p"
  defines "closes \<equiv> filter (\<lambda>c. c \<noteq> 0) (map ba_close (get_or bars []))"
    and "verdict \<equiv> rule_verdict ta config (case score of None \<Rightarrow> None | Some v \<Rightarrow> number_of v) bars (sp_ema_fast p) (sp_ema_slow p) (Fin (sp_rsi_buy_min p)) (Fin (sp_rsi_buy_max p))
           (Fin (sp_macd_hist_min p))"
  obtains "sp_ema_fast p = 20" "sp_ema_slow p = 50" "r = verdict (ti_ema_20 (ta_indicators ta)) (ti_ema_50 (ta_indicators ta))"
  | "rs_action r = ''HOLD''" "rs_size_pct r = 0" "int (length closes) < sp_ema_slow p"
  | "r = verdict (compute_ema closes (nat (sp_ema_fast p))) (compute_ema closes (nat (sp_ema_slow p)))"
proof -
  have same: "(case bars of None \<Rightarrow> [] | Some bs \<Rightarrow> bs) = get_or bars []" by (simp add: get_or_def)
  show thesis
    using assms(1,3,4) that
    unfolding evaluate_rules_def runs_on_reads [OF assms(2)] bindE_simps Let_def same closes_def [symmetric] verdict_def
    by (auto simp: compute_ema_int_def not_evaluated_def rule_answer_def map_sum_Inr dest: compared_score_Inr split: if_splits)
qed

text \<open>What the summary shows of the bars it was built from.\<close>

lemma summary_indicators:
  fixes sq now symbol source
  assumes "bars \<noteq> []"
  defines "closes \<equiv> map ba_close bars" and "ind \<equiv> ta_indicators (build_ta_summary sq now symbol bars source)"
  shows "ti_rsi_14 ind = py_round 4 (compute_rsi closes 14)" and "ti_ema_20 ind = py_round 4 (compute_ema closes 20)"
    and "ti_ema_50 ind = py_round 4 (compute_ema closes 50)"
    and "ti_macd_histogram ind = py_round 6 (snd (snd (compute_macd closes 12 26 9)))"
  using assms(1) by (simp_all add: ind_def closes_def build_ta_summary_def Let_def case_prod_unfold)

lemma rule_action_unrounded:
  fixes ef es ef' es' :: rat
  assumes "on_grid 4 lo" and "on_grid 4 hi" and "on_grid 6 h" and buy: "es' < ef' \<Longrightarrow> es < ef" and sell: "ef' < es' \<Longrightarrow> ef < es"
    and a: "rule_action ef' es' (py_round 4 rsi) (py_round 6 m) (Fin lo) (Fin hi) (Fin h) = a" "a \<noteq> ''HOLD''"
  shows "(if es < ef \<and> lo < rsi \<and> rsi < hi \<and> h < m then ''BUY''
     else if ef < es \<and> 100 - hi < rsi \<and> rsi < 100 - lo \<and> m < - h then ''SELL'' else ''HOLD'') = a"
proof -
  have grid: "on_grid 4 (100 - lo)" "on_grid 4 (100 - hi)" "on_grid 6 (- h)"
    using on_grid_diff [of 4 lo 100] on_grid_diff [of 4 hi 100] on_grid_diff [of 6 h 0] assms(1-3) by simp_all
  from a consider "a = ''BUY''" "es' < ef'" "lo < py_round 4 rsi" "py_round 4 rsi < hi" "h < py_round 6 m"
    | "a = ''SELL''" "ef' < es'" "100 - hi < py_round 4 rsi" "py_round 4 rsi < 100 - lo" "py_round 6 m < - h"
    by (auto simp: rule_action_def f_gt_def f_sub_def split: if_splits)
  then show ?thesis
  proof cases
    case 1
    with buy assms(1-3) show ?thesis by (simp add: round_above round_below)
  next
    case 2
    with sell have "ef < es" by simp
    then show ?thesis using 2 grid by (auto simp: round_above round_below)
  qed
qed

lemma verdict_is_momentum:
  assumes "bars \<noteq> []" and "momentum_warmup p \<le> int (length bars)"
    and "on_grid 4 (sp_rsi_buy_min p)" and "on_grid 4 (sp_rsi_buy_max p)" and "on_grid 6 (sp_macd_hist_min p)"
    and r: "r = rule_verdict (build_ta_summary sq now symbol bars source) config score bs fast slow (Fin (sp_rsi_buy_min p))
              (Fin (sp_rsi_buy_max p)) (Fin (sp_macd_hist_min p)) ef' es'" and "rs_action r \<noteq> ''HOLD''"
    and "es' < ef' \<Longrightarrow> compute_ema (map ba_close bars) (nat (sp_ema_slow p)) < compute_ema (map ba_close bars) (nat (sp_ema_fast p))"
    and "ef' < es' \<Longrightarrow> compute_ema (map ba_close bars) (nat (sp_ema_fast p)) < compute_ema (map ba_close bars) (nat (sp_ema_slow p))"
  shows "momentum_at p (map ba_close bars) (length bars - 1) = rs_action r"
proof -
  have warm: "\<not> int (length bars - 1) + 1 < momentum_warmup p" and all: "take (Suc (length bars - 1)) (map ba_close bars) = map ba_close bars"
    using assms(1,2) by auto
  have "rule_action ef' es' (py_round 4 (compute_rsi (map ba_close bars) 14)) (py_round 6 (snd (snd (compute_macd (map ba_close bars) 12 26 9))))
    (Fin (sp_rsi_buy_min p)) (Fin (sp_rsi_buy_max p)) (Fin (sp_macd_hist_min p)) = rs_action r"
    using verdict_action [of "build_ta_summary sq now symbol bars source" config score bs fast slow] assms(7)
    unfolding r summary_indicators [OF assms(1)] by metis
  from rule_action_unrounded [OF assms(3-5,8,9) this assms(7)] show ?thesis
    unfolding momentum_at_def Let_def all rsi_sell_min_def rsi_sell_max_def using warm by simp
qed

lemma momentum_backed:
  assumes "runs_on p parameters" and "0 < sp_ema_fast p" and "0 < sp_ema_slow p"
    and "on_grid 4 (sp_rsi_buy_min p)" and "on_grid 4 (sp_rsi_buy_max p)" and "on_grid 6 (sp_macd_hist_min p)"
    and "\<forall>b\<in>set bars. 0 < ba_close b" and "momentum_warmup p \<le> int (length bars)"
    and "evaluate_rules (build_ta_summary sq now symbol bars source) config score (Some bars) parameters = Inr r"
    and "rs_action r \<noteq> ''HOLD''"
  shows "last (momentum_signals bars p) = rs_action r"
proof -
  have bars: "bars \<noteq> []" using assms(8) by (auto simp: momentum_warmup_def MACD_WARMUP_def)
  have closes: "filter (\<lambda>c. c \<noteq> 0) (map ba_close (get_or (Some bars) [])) = map ba_close bars"
    using assms(7) by (auto simp: get_or_def filter_id_conv)
  note ind = summary_indicators [OF bars, of sq now symbol source]
  have "momentum_at p (map ba_close bars) (length bars - 1) = rs_action r"
    using assms(9,1-3)
  proof (cases rule: evaluate_rules_cases)
    case champion
    show ?thesis
      by (rule verdict_is_momentum [OF bars assms(8,4-6) champion(3) assms(10)]) (simp_all add: ind champion(1,2) round_less)
  next
    case short
    with assms(10) show ?thesis by simp
  next
    case other
    show ?thesis by (rule verdict_is_momentum [OF bars assms(8,4-6) other [unfolded closes] assms(10)])
  qed
  then show ?thesis
    using bars unfolding momentum_signals_eq [OF assms(2,3)] by (simp add: last_map)
qed

text \<open>
  Every entry or exit the live rule signals is one the backtested rule signals on the same bars. The live rule
  reads rounded indicators for the champion and recomputed averages for a challenger, while the backtest reads the unrounded
  series; as long as the thresholds are multiples of the rounding step and the series is past the rule's warm-up, a
  live BUY or SELL is also the backtest's signal at the last bar, whatever the sentiment score and the patterns are.
\<close>

theorem live_signal_is_backtested:
  assumes "runs_on p parameters" and "0 < sp_ema_fast p" and "0 < sp_ema_slow p"
    and "on_grid 4 (sp_rsi_buy_min p)" and "on_grid 4 (sp_rsi_buy_max p)" and "on_grid 6 (sp_macd_hist_min p)"
    and "\<forall>b\<in>set bars. 0 < ba_close b" and "momentum_warmup p \<le> int (length bars)"
    and "evaluate_rules (build_ta_summary sq now symbol bars source) config score (Some bars) parameters = Inr r"
    and "rs_action r \<noteq> ''HOLD''"
  shows "last (momentum_signals bars p) = rs_action r"
  using assms by (rule momentum_backed)

text \<open>A flat market that rises by two and gives back one: the rule with short averages buys.\<close>

definition demo_params :: strategy_params where
  "demo_params = default_params\<lparr>sp_ema_fast := 2, sp_ema_slow := 3\<rparr>"

definition demo_closes :: "rat list" where
  "demo_closes = [100, 100, 100, 100, 100, 100, 100, 100, 100, 100, 100, 100, 100, 100, 100, 100, 100, 100, 100, 100, 100, 100, 100, 100, 100, 100, 100, 100, 100, 100, 100, 100, 100, 102, 101]"

definition demo_rise :: "ohlcv_bar list" where
  "demo_rise = map (\<lambda>c. \<lparr>ba_symbol = ''SPY'', ba_timestamp = 0, ba_open = c, ba_high = c, ba_low = c, ba_close = c, ba_volume = 100\<rparr>)
     demo_closes"

lemma demo_rise_closes: "map ba_close demo_rise = demo_closes"
  by (simp add: demo_rise_def comp_def)

lemma demo_values:
  "compute_rsi demo_closes 14 = 65" "compute_ema demo_closes 2 = 910 / 9" "compute_ema demo_closes 3 = 101"
  "snd (snd (compute_macd demo_closes 12 26 9)) = 180376 / 1108809"
  by (simp_all add: compute_rsi_def demo_closes_def Let_def wilder_def upt_rec compute_ema_def compute_macd_def macd_series_def
      multiplier_of_def ema_run_def)

lemma demo_rounded: "py_round 4 65 = 65" "py_round 6 (180376 / 1108809) = 162675 / 1000000"
  by code_simp+

lemma demo_rise_buys:
  obtains r where "evaluate_rules (build_ta_summary id 0 ''SPY'' demo_rise ''daily'') None None (Some demo_rise)
      (Some (params_dict demo_params)) = Inr r" and "rs_action r = ''BUY''"
proof -
  have "demo_rise \<noteq> []" and "filter (\<lambda>c. c \<noteq> 0) demo_closes = demo_closes" and "length demo_closes = 35"
    by (simp_all add: demo_rise_def demo_closes_def)
  then have "evaluate_rules (build_ta_summary id 0 ''SPY'' demo_rise ''daily'') None None (Some demo_rise) (Some (params_dict demo_params)) =
    Inr (rule_verdict (build_ta_summary id 0 ''SPY'' demo_rise ''daily'') None None (Some demo_rise) 2 3 (Fin 45) (Fin 70) (Fin 0) (910 / 9) 101)"
    by (simp add: evaluate_rules_def rule_answer_def runs_on_reads [of demo_params] runs_on_def Let_def demo_rise_closes compute_ema_int_def demo_values)
      (auto simp: demo_params_def default_params_def demo_values)
  then show thesis
    by (rule that) (simp add: verdict_action_unscored summary_indicators [OF \<open>demo_rise \<noteq> []\<close>] demo_rise_closes demo_values demo_rounded
      rule_action_def f_gt_def)
qed

theorem live_signal_is_backtested_witness:
  "last (momentum_signals demo_rise demo_params) = ''BUY''"
proof -
  obtain r where r: "evaluate_rules (build_ta_summary id 0 ''SPY'' demo_rise ''daily'') None None (Some demo_rise)
      (Some (params_dict demo_params)) = Inr r" and buy: "rs_action r = ''BUY''"
    by (rule demo_rise_buys)
  have "last (momentum_signals demo_rise demo_params) = rs_action r"
    by (rule live_signal_is_backtested [OF _ _ _ _ _ _ _ _ r])
      (simp_all add: buy runs_on_def demo_params_def default_params_def on_grid_def demo_rise_def demo_closes_def momentum_warmup_def
        MACD_WARMUP_def)
  then show ?thesis by (simp add: buy)
qed

text \<open>
  The hypothesis on the warm-up is needed. With fewer bars than its slow average spans, the champion compares its fast
  average with the last close and trades; a challenger in the same position is not evaluated, and the backtest waits.
\<close>

definition early_closes :: "rat list" where
  "early_closes = [100, 100, 100, 100, 100, 100, 100, 100, 100, 100, 100, 100, 100, 100, 100, 100, 100, 100, 100, 100, 100, 100, 100, 100, 100, 100, 100, 100, 100, 100, 100, 100, 100, 98, 999 / 10]"

definition early_bars :: "ohlcv_bar list" where
  "early_bars = map (\<lambda>c. \<lparr>ba_symbol = ''SPY'', ba_timestamp = 0, ba_open = c, ba_high = c, ba_low = c, ba_close = c, ba_volume = 100\<rparr>)
     early_closes"

lemma early_values:
  "compute_rsi early_closes 14 = 13300 / 263" "compute_ema early_closes 20 = 220099 / 2205" "compute_ema early_closes 50 = 999 / 10"
  "snd (snd (compute_macd early_closes 12 26 9)) = - (548072 / 5544045)"
  by (simp_all add: compute_rsi_def early_closes_def Let_def wilder_def upt_rec compute_ema_def compute_macd_def macd_series_def
      multiplier_of_def ema_run_def)

lemma early_rounded: "py_round 4 (13300 / 263) = 505703 / 10000" "py_round 4 (220099 / 2205) = 998181 / 10000" "py_round 4 (999 / 10) = 999 / 10"
  "py_round 6 (- (548072 / 5544045)) = - 98858 / 1000000"
  by code_simp+

lemma champion_trades_in_warmup:
  "map_sum id rs_action (evaluate_rules (build_ta_summary sq now symbol early_bars source) config None (Some early_bars) None) = Inr ''SELL'' \<and>
   last (momentum_signals early_bars default_params) = ''HOLD''"
proof -
  have bars: "early_bars \<noteq> []" "length early_bars = 35" "map ba_close early_bars = early_closes"
    by (simp_all add: early_bars_def early_closes_def comp_def)
  have champ: "runs_on default_params None" by (simp add: runs_on_def)
  have "map_sum id rs_action (evaluate_rules (build_ta_summary sq now symbol early_bars source) config None (Some early_bars) None) = Inr ''SELL''"
    unfolding evaluate_rules_def runs_on_reads [OF champ] bindE_simps Let_def
    by (simp add: default_params_def rule_answer_def verdict_action_unscored summary_indicators [OF bars(1)] bars early_values early_rounded rule_action_def
        f_gt_def f_sub_def)
  moreover have "int 34 + 1 < momentum_warmup default_params" by (simp add: momentum_warmup_def default_params_def)
  then have "momentum_at default_params early_closes 34 = ''HOLD''" by (simp add: momentum_at_def Let_def)
  ultimately show ?thesis
    using bars by (subst momentum_signals_eq) (simp_all add: default_params_def last_map)
qed

subsection \<open>What a candidate carries\<close>

definition sound_signal :: "strategy_signal \<Rightarrow> bool" where
  "sound_signal s = (0 \<le> sg_confidence s \<and> sg_confidence s \<le> 95 / 100 \<and> sg_size_pct s \<in> {5 / 1000, 15 / 1000, 2 / 100})"

lemma size_by_risk: "get_or (SIZE_BY_RISK (rule_risk rsi adx)) 0 \<in> {5 / 1000, 15 / 1000, 2 / 100}"
  by (simp add: rule_risk_def SIZE_BY_RISK_def get_or_def)

lemma size_by_any_risk: "get_or (SIZE_BY_RISK r) (15 / 1000) \<in> {5 / 1000, 15 / 1000, 2 / 100}"
  by (simp add: SIZE_BY_RISK_def get_or_def)

lemma confidence_within: "0 \<le> c \<Longrightarrow> c \<le> 95 / 100 \<Longrightarrow> 0 \<le> py_round 4 c \<and> py_round 4 c \<le> 95 / 100"
  using py_round_mono [of c "95 / 100" 4] on_grid_round [of 4 "95 / 100"] py_round_nonneg [of c 4]
  by (simp add: on_grid_def)

lemma gated_confidence:
  assumes "0 \<le> c" and "c \<le> 95 / 100"
  shows "0 \<le> fst (snd (pattern_bonus bars (sentiment_gate t score (a, c, m)))) \<and>
         fst (snd (pattern_bonus bars (sentiment_gate t score (a, c, m)))) \<le> 95 / 100"
  using assms by (auto simp: pattern_bonus_def sentiment_gate_def Let_def min_def split: option.splits)

lemma rounded_confidence:
  "0 \<le> c \<Longrightarrow> c \<le> 95 / 100 \<Longrightarrow> 0 \<le> py_round 4 (fst (snd (pattern_bonus bars (sentiment_gate t score (a, c, m))))) \<and>
     py_round 4 (fst (snd (pattern_bonus bars (sentiment_gate t score (a, c, m))))) \<le> 95 / 100"
  using gated_confidence by (intro confidence_within) blast+

lemma verdict_sound:
  fixes ta config score bars fast slow lo hi h ef es
  defines "r \<equiv> rule_verdict ta config score bars fast slow lo hi h ef es"
  shows "0 \<le> rs_confidence r" and "rs_confidence r \<le> 95 / 100" and "rs_size_pct r \<in> {5 / 1000, 15 / 1000, 2 / 100}"
    and "rs_action r \<in> {''BUY'', ''SELL'', ''HOLD''}"
proof -
  have "0 \<le> rule_confidence a ef es rsi m adx \<and> rule_confidence a ef es rsi m adx \<le> 95 / 100" for a rsi m adx
    by (simp add: rule_confidence_def)
  then have "0 \<le> rs_confidence r \<and> rs_confidence r \<le> 95 / 100"
    unfolding r_def rule_verdict_def Let_def case_prod_unfold rule_signal.select_convs by (intro rounded_confidence) blast+
  then show "0 \<le> rs_confidence r" and "rs_confidence r \<le> 95 / 100" by blast+
  show "rs_size_pct r \<in> {5 / 1000, 15 / 1000, 2 / 100}"
    unfolding r_def rule_verdict_def Let_def case_prod_unfold rule_signal.select_convs by (rule size_by_risk)
  have "rule_action ef es x y lo hi h \<in> {''BUY'', ''SELL'', ''HOLD''}" for x y by (simp add: rule_action_def Let_def)
  then show "rs_action r \<in> {''BUY'', ''SELL'', ''HOLD''}"
    using verdict_action [of ta config score bars fast slow lo hi h ef es] unfolding r_def by (metis insertCI)
qed

lemma verdict_not_blocked:
  "rs_action (rule_verdict ta (Some t) (Some x) bars fast slow lo hi h ef es) = ''BUY'' \<Longrightarrow> \<not> f_lt x (Fin t)"
  by (auto simp: rule_verdict_def Let_def case_prod_unfold pattern_bonus_def sentiment_gate_def split: option.splits if_splits)

lemma signal_of_verdict:
  fixes ta config score bars fast slow lo hi h ef es
  defines "r \<equiv> rule_verdict ta config score bars fast slow lo hi h ef es"
  shows "\<exists>s. signal_of_rule sid symbol now version tc r = Inr s \<and> sound_signal s \<and> action_of_json (JStr (rs_action r)) = Some (sg_candidate_action s)"
  using verdict_sound [of ta config score bars fast slow lo hi h ef es, folded r_def]
  by (auto simp: signal_of_rule_def make_signal_def sound_signal_def)

lemma rule_signal_sound:
  "signal_of_rule sid symbol now version tc (rule_verdict ta config score bars fast slow lo hi h ef es) = Inr s \<Longrightarrow> sound_signal s"
  by (metis signal_of_verdict sum.inject(2))

text \<open>What the champion's rule says of a summary before the sentiment is asked.\<close>

definition champion_action :: "ta_summary \<Rightarrow> string" where
  "champion_action ta = rule_action (ti_ema_20 (ta_indicators ta)) (ti_ema_50 (ta_indicators ta)) (ti_rsi_14 (ta_indicators ta))
     (ti_macd_histogram (ta_indicators ta)) (Fin 45) (Fin 70) (Fin 0)"

lemma champion_verdict:
  "evaluate_rules ta config score bars None =
     map_sum id (\<lambda>x. rule_verdict ta config x bars 20 50 (Fin 45) (Fin 70) (Fin 0) (ti_ema_20 (ta_indicators ta)) (ti_ema_50 (ta_indicators ta)))
       (compared_score (champion_action ta) score)"
proof -
  have "runs_on default_params None" by (simp add: runs_on_def)
  from runs_on_reads [OF this] show ?thesis
    by (simp add: evaluate_rules_def default_params_def rule_answer_def champion_action_def Let_def)
qed

text \<open>The one input on which the rule raises: it says BUY and the score is a string, a list or an object.\<close>

definition score_breaks :: "ta_summary option \<Rightarrow> json option \<Rightarrow> bool" where
  "score_breaks ta score = (not_comparable score \<and> (case ta of None \<Rightarrow> False | Some t \<Rightarrow> champion_action t = ''BUY''))"

lemma deterministic_breaks:
  "score_breaks ta score \<Longrightarrow> build_deterministic_signal sid now threshold symbol ta score bars
     = Inl (TypeError (''not supported between instances of '' @ json_type (the score) @ '' and float''))"
  using compared_score_cases [of "champion_action (the ta)" score]
  by (auto simp: score_breaks_def build_deterministic_signal_def champion_verdict split: option.splits)

lemma deterministic_answer:
  assumes "\<not> score_breaks ta score"
  shows "\<exists>s. build_deterministic_signal sid now threshold symbol ta score bars = Inr s \<and> sound_signal s \<and> sg_symbol s = upper symbol \<and>
     (ta = None \<longrightarrow> sg_candidate_action s = HOLD \<and> sg_confidence s = 0) \<and>
     (\<forall>v x. score = Some v \<and> number_of v = Some x \<and> sg_candidate_action s = BUY \<longrightarrow> \<not> f_lt x (Fin threshold))"
proof (cases ta)
  case None
  then show ?thesis by (simp add: build_deterministic_signal_def make_signal_def sound_signal_def)
next
  case (Some t)
  let ?x = "case score of None \<Rightarrow> None | Some v \<Rightarrow> number_of v"
  let ?r = "rule_verdict t (Some threshold) ?x bars 20 50 (Fin 45) (Fin 70) (Fin 0) (ti_ema_20 (ta_indicators t)) (ti_ema_50 (ta_indicators t))"
  obtain s where s: "signal_of_rule sid (upper symbol) now ''strategy-rule-v1'' None ?r = Inr s" "sound_signal s"
    "action_of_json (JStr (rs_action ?r)) = Some (sg_candidate_action s)"
    using signal_of_verdict by blast
  then have "sg_symbol s = upper symbol"
    by (auto simp: signal_of_rule_def make_signal_def split: option.splits if_splits)
  moreover have "sg_candidate_action s = BUY \<longrightarrow> rs_action ?r = ''BUY''" using s(3) by (auto split: if_splits)
  moreover have "compared_score (champion_action t) score = Inr ?x"
    using assms Some compared_score_cases [of "champion_action t" score] by (auto simp: score_breaks_def split: if_splits)
  then have "build_deterministic_signal sid now threshold symbol ta score bars = Inr s"
    using s(1) Some by (simp add: build_deterministic_signal_def champion_verdict)
  ultimately show ?thesis
    using s(2) Some verdict_not_blocked [of t threshold _ bars] by (auto split: option.splits)
qed

text \<open>
  The deterministic signal is bounded, and total but for one input. Whatever the summary, the bars, the sentiment score and the block
  threshold are, unless the rule says BUY and the score is a string, a list or an object, a candidate is returned and passes the
  contract: confidence between 0 and 0.95, size one of the three of the risk table. Without a summary it is a HOLD of
  confidence 0, and a BUY is never returned against a sentiment score below the threshold.
\<close>

theorem deterministic_signal_total:
  "\<not> score_breaks ta score \<Longrightarrow>
   \<exists>s. build_deterministic_signal sid now threshold symbol ta score bars = Inr s \<and> sound_signal s \<and> sg_symbol s = upper symbol \<and>
     (ta = None \<longrightarrow> sg_candidate_action s = HOLD \<and> sg_confidence s = 0) \<and>
     (\<forall>v x. score = Some v \<and> number_of v = Some x \<and> sg_candidate_action s = BUY \<longrightarrow> \<not> f_lt x (Fin threshold))"
  by (rule deterministic_answer)

theorem deterministic_signal_total_witness:
  "\<exists>s. build_deterministic_signal ''s1'' 5 (- 3 / 10) ''spy'' None (Some (JInt (- 1))) None = Inr s \<and> sg_symbol s = ''SPY'' \<and>
     sg_candidate_action s = HOLD \<and> sg_confidence s = 0"
proof -
  have "upper ''spy'' = ''SPY''" by code_simp
  then show ?thesis
    using deterministic_signal_total [of None "Some (JInt (- 1))" "''s1''" 5 "- 3 / 10" "''spy''" None] by (auto simp: score_breaks_def)
qed

text \<open>Whatever \<open>float\<close> makes of the model's confidence, clamping leaves a number.\<close>

lemma clamp_float_cases:
  "0 \<le> hi \<Longrightarrow> \<exists>c. clamp_float hi x = Fin c \<and> 0 \<le> c \<and> c \<le> hi"
  by (cases x) (auto simp: clamp_float_def f_min_def f_max_def f_gt_def split: if_splits)

lemma blended_within:
  obtains c where "f_round 4 (blended_confidence w raw m score) = Fin c" and "0 \<le> c" and "c \<le> 95 / 100"
proof -
  obtain c where "blended_confidence w raw m score = Fin c" and "0 \<le> c" and "c \<le> 95 / 100"
    unfolding blended_confidence_def Let_def using clamp_float_cases [of "95 / 100"] by fastforce
  with confidence_within [of c] show thesis by (intro that [of "py_round 4 c"]) auto
qed

lemma make_signal_Inr:
  assumes "make_signal sid symbol now action confidence size_pct version risk_score ta research = Inr s"
  obtains risk where "confidence = Fin (sg_confidence s)" and "risk_score = JStr risk" and "sg_size_pct s = size_pct"
    and "action_of_json action = Some (sg_candidate_action s)"
  using assms by (auto simp: make_signal_def split: option.splits pyfloat.splits json.splits if_splits)

lemma answer_sound:
  assumes "signal_of_answer st env symbol ta score v = Inr s"
  shows "sound_signal s"
proof -
  from assms obtain d raw where "v = JObj d"
    and s: "make_signal (ai_new_id env) (upper symbol) (ai_now env) (jget_default d ''action'' (JStr ''HOLD''))
          (f_round 4 (blended_confidence (as_sentiment_weight st) raw (case ai_research env of None \<Rightarrow> 0 | Some r \<Rightarrow> re_confidence_modifier r) score))
          (case jget_default d ''risk_score'' (JStr ''MEDIUM'') of JStr r \<Rightarrow> get_or (SIZE_BY_RISK r) (15 / 1000) | _ \<Rightarrow> 15 / 1000)
          (''strategy-ai-v1/'' @ as_claude_model st @ ''/prompt-'' @ take 12 (as_prompt_sha256 st))
          (jget_default d ''risk_score'' (JStr ''MEDIUM'')) (map_option (ta_contract_of (upper symbol)) ta)
          (case ai_research env of None \<Rightarrow> None
           | Some r \<Rightarrow> if re_headline_summary r = [] then None else Some (take 200 (re_headline_summary r))) = Inr s"
    by (auto simp: signal_of_answer_def bindE_Inr_iff Let_def split: json.splits)
  obtain c where c: "f_round 4 (blended_confidence (as_sentiment_weight st) raw
      (case ai_research env of None \<Rightarrow> 0 | Some r \<Rightarrow> re_confidence_modifier r) score) = Fin c" and "0 \<le> c" and "c \<le> 95 / 100"
    by (rule blended_within)
  from s show ?thesis
  proof (rule make_signal_Inr)
    fix risk
    assume "f_round 4 (blended_confidence (as_sentiment_weight st) raw (case ai_research env of None \<Rightarrow> 0 | Some r \<Rightarrow> re_confidence_modifier r) score)
        = Fin (sg_confidence s)" and "jget_default d ''risk_score'' (JStr ''MEDIUM'') = JStr risk"
      and "sg_size_pct s = (case jget_default d ''risk_score'' (JStr ''MEDIUM'') of JStr r \<Rightarrow> get_or (SIZE_BY_RISK r) (15 / 1000) | _ \<Rightarrow> 15 / 1000)"
    with \<open>0 \<le> c\<close> \<open>c \<le> 95 / 100\<close> c size_by_any_risk [of risk] show ?thesis by (simp add: sound_signal_def)
  qed
qed

lemma do_generate_sound:
  assumes "do_generate st env symbol = Inr s"
  shows "sound_signal s"
proof -
  define seen where "seen = ta_of_fetch env symbol (ai_fetcher env) (ai_fetch env)"
  define score where "score = (case ai_sentiment env of None \<Rightarrow> 0 | Some s \<Rightarrow> s)"
  define ask where "ask = bindE (ai_answer env) (\<lambda>text. signal_of_answer st env symbol (map_option fst seen) score (parse_json (ai_loads env) text))"
  have ask: "sound_signal s" if "ask = Inr s" using that by (auto simp: ask_def bindE_Inr_iff intro: answer_sound)
  note run = assms [unfolded do_generate_def champion_verdict bindE_simps Let_def, folded seen_def score_def, folded ask_def]
  show ?thesis
  proof (cases seen)
    case None
    with run ask show ?thesis by simp
  next
    case (Some seen')
    with run ask show ?thesis
      by (simp only: option.map option.case compared_score_simps map_sum.simps bindE_simps split: if_splits) (rule rule_signal_sound)
  qed
qed

text \<open>
  The fallback is broken by its own sentiment score: the pipeline failed, the bars it fetched again make the rule say BUY, and the
  score in the answer of the sentiment service is a string, a list or an object.
\<close>

definition fallback_breaks :: "ai_settings \<Rightarrow> ai_env \<Rightarrow> string \<Rightarrow> bool" where
  "fallback_breaks st env symbol =
     (isl (do_generate st env symbol) \<and>
      score_breaks (map_option fst (ta_of_fetch env symbol ''unknown'' (ai_refetch env))) (ai_fallback_sentiment env))"

text \<open>
  C31: When the model-backed pipeline answers. With the deterministic fallback enabled, \<open>generate\<close> returns a candidate whose
  confidence and size are within the same bounds as the rule's, for every answer of the model (text that is no JSON, a
  non-object, an unknown action, a confidence that is not a number), every failure of the model call and every failure of
  the fetches, with one exception, which is exact: when the model's path failed, the rule says BUY on the bars of the second
  fetch and the sentiment service answered with a score that is a string, a list or an object, the comparison with
  the threshold raises \<open>TypeError\<close> out of the fallback and the caller gets no candidate.
\<close>

theorem pipeline_always_answers:
  assumes "as_fallback_to_deterministic st"
  shows "if fallback_breaks st env symbol then \<exists>m. generate_signal_ai st env symbol = Inl (TypeError m)
    else \<exists>s. generate_signal_ai st env symbol = Inr s \<and> sound_signal s"
proof (cases "do_generate st env symbol")
  case (Inl e)
  let ?ta = "map_option fst (ta_of_fetch env symbol ''unknown'' (ai_refetch env))"
  show ?thesis
  proof (cases "score_breaks ?ta (ai_fallback_sentiment env)")
    case True
    with Inl assms show ?thesis
      by (simp add: generate_signal_ai_def fallback_breaks_def Let_def deterministic_breaks [OF True])
  next
    case False
    from deterministic_answer [OF this] obtain s where
      "build_deterministic_signal (ai_new_id env) (ai_now env) (as_sentiment_block_threshold st) symbol ?ta (ai_fallback_sentiment env)
         (case ai_refetch env of Inl _ \<Rightarrow> None | Inr bs \<Rightarrow> Some bs) = Inr s" "sound_signal s" by blast
    with False Inl assms show ?thesis by (simp add: generate_signal_ai_def fallback_breaks_def Let_def)
  qed
next
  case (Inr s)
  then show ?thesis by (simp add: generate_signal_ai_def fallback_breaks_def do_generate_sound)
qed

text \<open>The model answers with prose around an object whose confidence is \<open>NaN\<close>.\<close>

definition demo_ai :: ai_settings where
  "demo_ai = \<lparr>as_prefer_deterministic = False, as_fallback_to_deterministic = True, as_sentiment_block_threshold = - 3 / 10,
     as_sentiment_weight = 0, as_claude_model = ''m'', as_prompt_sha256 = ''0123456789abcdef''\<rparr>"

definition demo_ai_env :: ai_env where
  "demo_ai_env = \<lparr>ai_now = 5, ai_new_id = ''s1'', ai_sqrt = id, ai_fetch = Inr [], ai_refetch = Inr [], ai_fetcher = ''Mock'', ai_research = None,
     ai_sentiment = None, ai_fallback_sentiment = None, ai_answer = Inr ''buy'',
     ai_loads = (\<lambda>t. Some (JObj [(''action'', JStr ''BUY''), (''confidence'', JFloat NaN)]))\<rparr>"

theorem pipeline_always_answers_witness:
  "(\<exists>s. generate_signal_ai demo_ai demo_ai_env ''spy'' = Inr s \<and> sound_signal s) \<and>
   map_sum id (\<lambda>s. (sg_candidate_action s, sg_confidence s)) (generate_signal_ai demo_ai demo_ai_env ''spy'') = Inr (BUY, 95 / 100)"
proof -
  have "map_sum id (\<lambda>s. (sg_candidate_action s, sg_confidence s)) (generate_signal_ai demo_ai demo_ai_env ''spy'') = Inr (BUY, 95 / 100)"
    by code_simp
  then have "\<not> isl (generate_signal_ai demo_ai demo_ai_env ''spy'')" by (cases "generate_signal_ai demo_ai demo_ai_env ''spy''") auto
  then show ?thesis
    using \<open>map_sum _ _ _ = _\<close> pipeline_always_answers [of demo_ai demo_ai_env "''spy''"] by (auto simp: demo_ai_def split: if_splits)
qed

text \<open>
  Two consequences of how the pieces are combined. A confidence that is not a number is clamped to the largest one.
  And an unreachable sentiment service, answered for by a score of 0, still takes its weight: it pulls every confidence
  towards one half.
\<close>

lemma nan_confidence_is_maximal: "blended_confidence 0 NaN m score = Fin (95 / 100)"
  by (simp add: blended_confidence_def clamp_float_def f_min_def f_max_def f_gt_def Let_def)

lemma absent_sentiment_still_counts: "blended_confidence (3 / 10) (Fin (9 / 10)) 0 0 = Fin (78 / 100)"
  by (simp add: blended_confidence_def clamp_float_def f_min_def f_max_def f_gt_def Let_def)

end
