(* ===== verification/Trade_Worker.thy ===== *)
theory Trade_Worker
  imports Rule_Engine Cycle_Safety
begin

text \<open>
  The trade worker (\<open>services/strategy-service/src/strategy_service/worker.py\<close>), the second component that sends
  orders: it posts to the execution service directly, for the champion and for every paper challenger. The execution
  service, the lifecycle service and their shared database are the modelled ones, and the position the worker asks
  for is the answer of the modelled \<open>/v1/positions/exposure\<close>. Bars, prices, clocks, fresh identifiers, the earnings
  gate, the policy service's answer and whether a service can be reached are the record \<open>worker_env\<close>. Concurrency:
  the worker's own requests run one after the other; other requests and commits are the schedule of \<open>world\<close>.
\<close>

subsection \<open>The exposure endpoint\<close>

definition sleeve_exposure :: "bool \<Rightarrow> string \<Rightarrow> string \<Rightarrow> string \<Rightarrow> journal \<Rightarrow> exn + (string \<times> rat) list" where
  "sleeve_exposure read_ok symbol strategy_id account_id j =
     bindE (sanitize_symbol symbol) (\<lambda>clean.
       (case (net_position read_ok strategy_id clean ''paper'' account_id j, net_position read_ok strategy_id clean ''live'' account_id j) of
          (Some p, Some l) \<Rightarrow> Inr [(''paper'', p), (''live'', l)]
        | _ \<Rightarrow> Inl (HTTPException 503 [S ''position_unknowable''])))"

subsection \<open>Inputs and progress\<close>

record held_position =
  hp_symbol :: string
  hp_net_qty :: int
  hp_average_cost :: rat
  hp_opened_at :: "instant option"
  hp_updated_at :: "instant option"
  hp_market_value :: rat

record worker_settings =
  wk_watchlist :: "string list"
  wk_use_ai :: bool
  wk_sentiment_block_threshold :: rat
  wk_volume_confirm_enabled :: bool
  wk_stop_loss_pct :: rat
  wk_take_profit_pct :: rat
  wk_max_hold_hours :: int
  wk_is_intraday :: bool
  wk_intraday_minutes :: int
  wk_use_limit_orders :: bool
  wk_limit_tolerance_bps :: rat
  wk_max_adv_participation :: rat

record worker_env =
  we_settings :: worker_settings
  we_now :: instant
  we_new_id :: "string \<Rightarrow> string \<Rightarrow> string"
  we_sqrt :: "rat \<Rightarrow> rat"
  we_fetch_bars :: "string \<Rightarrow> exn + ohlcv_bar list"
  we_ai_settings :: ai_settings
  we_ai_env :: "string \<Rightarrow> ai_env"
  we_price :: "string \<Rightarrow> rat option"
  we_snapshot_age :: "string \<Rightarrow> rat option"
  we_market_open :: bool
  we_blackout :: "string \<Rightarrow> exn + bool"
  we_buying_power :: "rat option"
  we_positions :: "held_position list option"
  we_exposure_up :: "string \<Rightarrow> bool"
  we_journal_read :: bool
  we_policy :: "policy_request \<Rightarrow> exn + policy_decision"
  we_lifecycle :: lifecycle_service
  we_online :: "string \<Rightarrow> bool"
  we_call :: "string \<Rightarrow> call"
  we_signals_up :: bool

record worker_run =
  wr_symbols_processed :: nat
  wr_signals_generated :: nat
  wr_orders_submitted :: nat
  wr_orders_gated :: nat
  wr_errors :: "msg list"
  wr_gated_decisions :: "(string \<times> string \<times> msg) list"
  wr_signals :: "(strategy_signal \<times> bool) list"
  wr_st :: exec_state

definition note_error :: "msg \<Rightarrow> worker_run \<Rightarrow> worker_run" where
  "note_error m run = run\<lparr>wr_errors := wr_errors run @ [m]\<rparr>"

definition count_signal :: "worker_run \<Rightarrow> worker_run" where
  "count_signal run = run\<lparr>wr_signals_generated := wr_signals_generated run + 1\<rparr>"

subsection \<open>The market snapshot and the entry gates\<close>

definition market_snapshot :: "worker_env \<Rightarrow> string \<Rightarrow> ta_summary option \<times> ohlcv_bar list" where
  "market_snapshot env symbol =
     (case we_fetch_bars env symbol of
        Inl e \<Rightarrow> (None, [])
      | Inr bars \<Rightarrow>
          if bars = [] then (None, [])
          else (Some (build_ta_summary (we_sqrt env) (we_now env) symbol bars
                  (if wk_is_intraday (we_settings env) then ''intraday'' else ''daily'')), bars))"

definition volume_below_average :: "ohlcv_bar list \<Rightarrow> bool" where
  "volume_below_average bars =
     (let volumes = map ba_volume bars; recent = drop (length volumes - 20) volumes
      in last volumes \<le> sum_list recent / of_nat (min (length volumes) 20))"

definition apply_entry_gates :: "worker_settings \<Rightarrow> ta_summary option \<Rightarrow> ohlcv_bar list \<Rightarrow> strategy_signal \<Rightarrow> strategy_signal" where
  "apply_entry_gates st ta bars sg =
     (let bars_count = (case ta of None \<Rightarrow> 0 | Some t \<Rightarrow> ta_bars_count t); adx = (case ta of None \<Rightarrow> ADX_NEUTRAL | Some t \<Rightarrow> ta_adx t) in
      if sg_candidate_action sg \<noteq> BUY then sg
      else if \<not> adx_is_computable bars_count ADX_PERIOD then sg\<lparr>sg_candidate_action := HOLD\<rparr>
      else if adx < 20 then sg\<lparr>sg_candidate_action := HOLD\<rparr>
      else if wk_volume_confirm_enabled st \<and> bars \<noteq> [] \<and> volume_below_average bars then sg\<lparr>sg_candidate_action := HOLD\<rparr>
      else sg)"

subsection \<open>What the pipeline asks before an order\<close>

text \<open>\<open>None\<close> when the answer is missing: unknowable is not flat.\<close>

definition get_sleeve_position :: "worker_env \<Rightarrow> string \<Rightarrow> string \<Rightarrow> exec_state \<Rightarrow> (string \<times> rat) list option" where
  "get_sleeve_position env symbol strategy_id st =
     (if \<not> we_exposure_up env symbol then None
      else (case sleeve_exposure (we_journal_read env) symbol strategy_id ''default'' (xs_journal st) of
              Inl e \<Rightarrow> None | Inr nets \<Rightarrow> Some nets))"

definition already_positioned :: "(string \<times> rat) list \<Rightarrow> string \<Rightarrow> bool" where
  "already_positioned held action =
     list_ex (\<lambda>(_, net). (0 < net \<and> action = ''BUY'') \<or> (net < 0 \<and> action = ''SELL'')) held"

definition get_buying_power :: "worker_env \<Rightarrow> rat" where
  "get_buying_power env = get_or (we_buying_power env) 100000"

definition gross_exposure :: "worker_env \<Rightarrow> rat" where
  "gross_exposure env =
     (case we_positions env of None \<Rightarrow> 0
      | Some ps \<Rightarrow> py_round 4 (min (sum_list (map (\<lambda>p. \<bar>hp_market_value p\<bar>) ps) / 100000) 1))"

definition data_age :: "worker_env \<Rightarrow> string \<Rightarrow> ohlcv_bar list \<Rightarrow> int" where
  "data_age env symbol bars =
     (case we_snapshot_age env symbol of
        Some age \<Rightarrow> py_trunc age
      | None \<Rightarrow> if bars = [] then 10000 else py_trunc (total_seconds (we_now env - ba_timestamp (last bars))))"

text \<open>\<open>MarketContext\<close> refuses a negative age, which a bar stamped in the future gives.\<close>

definition worker_policy_request :: "worker_env \<Rightarrow> strategy_signal \<Rightarrow> string \<Rightarrow> ohlcv_bar list \<Rightarrow> exn + policy_request" where
  "worker_policy_request env sg symbol bars =
     bindE (we_blackout env symbol) (\<lambda>blackout.
       (let age = data_age env symbol bars in
        if age < 0 then Inl (ValueError [S ''validation error for MarketContext''])
        else Inr \<lparr>pq_signal_id = sg_signal_id sg, pq_symbol = sg_symbol sg, pq_candidate_action = sg_candidate_action sg,
                  pq_confidence = sg_confidence sg, pq_size_pct = sg_size_pct sg, pq_data_age_seconds = age,
                  pq_market_open = we_market_open env, pq_event_blackout_active = blackout, pq_liquidity_score = 95 / 100,
                  pq_symbol_allowed = True, pq_gross_exposure_pct = gross_exposure env, pq_daily_drawdown_pct = 0,
                  pq_risk_score = sg_risk_score sg\<rparr>))"

definition call_policy :: "worker_env \<Rightarrow> policy_request \<Rightarrow> policy_decision" where
  "call_policy env q =
     (case we_policy env q of
        Inr d \<Rightarrow> d
      | Inl e \<Rightarrow> \<lparr>pd_signal_id = pq_signal_id q, pd_decision = ''REJECT'', pd_reasons = [''policy_call_failed''],
                   pd_approved_size_pct = 0, pd_tier = 1\<rparr>)"

definition compute_qty :: "rat \<Rightarrow> rat \<Rightarrow> rat option \<Rightarrow> int" where
  "compute_qty size_pct buying_power reference_price =
     (case reference_price of
        None \<Rightarrow> 0
      | Some p \<Rightarrow> if p \<le> 0 then 0 else py_trunc (size_pct * buying_power / p))"

definition reference_price :: "worker_env \<Rightarrow> string \<Rightarrow> ohlcv_bar list \<Rightarrow> rat option" where
  "reference_price env symbol bars =
     (case we_price env symbol of Some p \<Rightarrow> Some p | None \<Rightarrow> if bars = [] then None else Some (ba_close (last bars)))"

definition worker_qty :: "worker_env \<Rightarrow> string \<Rightarrow> ohlcv_bar list \<Rightarrow> policy_decision \<Rightarrow> int" where
  "worker_qty env symbol bars decision =
     (let st = we_settings env;
          qty = compute_qty (pd_approved_size_pct decision) (get_buying_power env) (reference_price env symbol bars);
          bars_per_day = (if wk_is_intraday st then max 1 (390 / of_int (max 1 (wk_intraday_minutes st))) else 1)
      in participation_capped_qty qty (average_daily_volume (map (\<lambda>b. Some (ba_volume b)) bars) (Some bars_per_day))
           (wk_max_adv_participation st))"

definition order_fields :: "string list" where
  "order_fields = [''signal_id'', ''symbol'', ''side'', ''qty'', ''order_type'', ''time_in_force'', ''stop_loss_rate'',
     ''take_profit_rate'', ''limit_price'', ''decision_price'', ''strategy_id'', ''account_id'', ''reduce_only'']"

text \<open>The whole model is dumped, so every field arrives as set.\<close>

definition worker_order :: "strategy_signal \<Rightarrow> string \<Rightarrow> int \<Rightarrow> rat option \<Rightarrow> rat option \<Rightarrow> execution_order_request" where
  "worker_order sg strategy_id qty price limit_price =
     \<lparr>rq_signal_id = sg_signal_id sg, rq_symbol = sg_symbol sg, rq_side = side_of (sg_candidate_action sg), rq_qty = qty,
      rq_order_type = (if limit_price = None then ''MARKET'' else ''LIMIT''),
      rq_time_in_force = (if limit_price = None then ''DAY'' else ''IOC''), rq_stop_loss_rate = None, rq_take_profit_rate = None,
      rq_limit_price = limit_price, rq_decision_price = price, rq_strategy_id = strategy_id, rq_account_id = ''default'',
      rq_reduce_only = False, rq_fields_set = order_fields\<rparr>"

definition worker_key :: "strategy_signal \<Rightarrow> string" where
  "worker_key sg = ''worker-'' @ sg_signal_id sg"

subsection \<open>From a signal to an order\<close>

text \<open>\<open>_submit_order\<close>: a refusal, an error answer and an unreachable service are all \<open>False\<close>.\<close>

definition submit_worker_order :: "worker_env \<Rightarrow> execution_order_request \<Rightarrow> string \<Rightarrow> exec_state \<Rightarrow> bool \<times> exec_state" where
  "submit_worker_order env r key st =
     (if \<not> we_online env key then (False, st)
      else (case create_order (we_call env key) (\<lambda>s. s) r key st of
              (Inl e, st') \<Rightarrow> (False, st')
            | (Inr resp, st') \<Rightarrow> (True, st')))"

definition place_worker_order ::
  "worker_env \<Rightarrow> strategy_signal \<Rightarrow> string \<Rightarrow> string \<Rightarrow> int \<Rightarrow> rat option \<Rightarrow> worker_run \<Rightarrow> exn option \<times> worker_run" where
  "place_worker_order env sg strategy_id symbol qty price run =
     (case (if wk_use_limit_orders (we_settings env)
            then marketable_limit_price price (side_of (sg_candidate_action sg)) (wk_limit_tolerance_bps (we_settings env))
            else Inr None) of
        Inl e \<Rightarrow> (Some e, run)
      | Inr limit_price \<Rightarrow>
          (let r = worker_order sg strategy_id qty price limit_price in
           if \<not> order_valid r then (Some (ValueError [S ''validation error for ExecutionOrderRequest'']), run)
           else
             (case submit_worker_order env r (worker_key sg) (wr_st run) of
                (True, st) \<Rightarrow> (None, run\<lparr>wr_st := st, wr_orders_submitted := wr_orders_submitted run + 1\<rparr>)
              | (False, st) \<Rightarrow>
                  (None, note_error [S symbol, S '': order submission failed ('', S strategy_id, S '')''] (run\<lparr>wr_st := st\<rparr>)))))"

definition execute_signal ::
  "worker_env \<Rightarrow> strategy_signal \<Rightarrow> string \<Rightarrow> ohlcv_bar list \<Rightarrow> string \<Rightarrow> worker_run \<Rightarrow> exn option \<times> worker_run" where
  "execute_signal env sg symbol bars strategy_id run =
     (case get_sleeve_position env symbol strategy_id (wr_st run) of
        None \<Rightarrow> (None, note_error [S symbol, S '': position unknowable, entry not submitted ('', S strategy_id, S '')''] run)
      | Some held \<Rightarrow>
          if already_positioned held (side_of (sg_candidate_action sg)) then (None, run)
          else
            (case worker_policy_request env sg symbol bars of
               Inl e \<Rightarrow> (Some e, run)
             | Inr q \<Rightarrow>
                 (let decision = call_policy env q; qty = worker_qty env symbol bars decision; price = reference_price env symbol bars in
                  if pd_decision decision \<noteq> ''APPROVE'' then (None, run)
                  else if qty < 1 then (None, run)
                  else
                    (case may_open (we_lifecycle env) strategy_id (sg_symbol sg) None (xs_lifecycle (wr_st run)) of
                       (answer, w) \<Rightarrow>
                         (let run1 = run\<lparr>wr_st := (wr_st run)\<lparr>xs_lifecycle := w\<rparr>\<rparr> in
                          if \<not> permitted answer
                          then (None, run1\<lparr>wr_gated_decisions := wr_gated_decisions run @ [(symbol, sg_signal_id sg, answer_reason answer)],
                                          wr_orders_gated := wr_orders_gated run + 1\<rparr>)
                          else place_worker_order env sg strategy_id symbol qty price run1)))))"

subsection \<open>Challengers\<close>

definition challenger_signal :: "worker_env \<Rightarrow> sleeve \<Rightarrow> string \<Rightarrow> ta_summary \<Rightarrow> ohlcv_bar list \<Rightarrow> jdict \<Rightarrow> exn + strategy_signal" where
  "challenger_signal env s symbol ta bars parameters =
     bindE (evaluate_rules ta (Some (wk_sentiment_block_threshold (we_settings env))) None (Some bars) (Some parameters))
       (\<lambda>r. map_sum id (apply_entry_gates (we_settings env) (Some ta) bars)
              (signal_of_rule (we_new_id env (sl_strategy_id s) symbol) (upper symbol) (we_now env)
                 (''challenger:'' @ sl_strategy_version s) None r))"

definition process_one_challenger ::
  "worker_env \<Rightarrow> string \<Rightarrow> ta_summary \<Rightarrow> ohlcv_bar list \<Rightarrow> sleeve \<Rightarrow> worker_run \<Rightarrow> exn option \<times> worker_run" where
  "process_one_challenger env symbol ta bars s run =
     (case challenger_parameters (we_lifecycle env) (sl_strategy_version s) (xs_lifecycle (wr_st run)) of
        (parameters, w) \<Rightarrow>
          (let run1 = run\<lparr>wr_st := (wr_st run)\<lparr>xs_lifecycle := w\<rparr>\<rparr> in
           case parameters of
             None \<Rightarrow> (None, run1)
           | Some ps \<Rightarrow>
               (case challenger_signal env s symbol ta bars ps of
                  Inl e \<Rightarrow> (Some e, run1)
                | Inr sg \<Rightarrow>
                    if sg_candidate_action sg = HOLD then (None, count_signal run1)
                    else execute_signal env sg symbol bars (sl_strategy_id s) (count_signal run1))))"

text \<open>An exception of one challenger is logged and the next one runs.\<close>

definition process_challengers :: "worker_env \<Rightarrow> string \<Rightarrow> ta_summary option \<Rightarrow> ohlcv_bar list \<Rightarrow> worker_run \<Rightarrow> worker_run" where
  "process_challengers env symbol ta bars run =
     (if wk_use_ai (we_settings env) then run
      else
        (case ta of
           None \<Rightarrow> run
         | Some t \<Rightarrow>
             (case svc_paper_challengers (we_lifecycle env) symbol (xs_lifecycle (wr_st run)) of
                (found, w) \<Rightarrow>
                  fold (\<lambda>s run. snd (process_one_challenger env symbol t bars s run)) found
                    (run\<lparr>wr_st := (wr_st run)\<lparr>xs_lifecycle := w\<rparr>\<rparr>))))"

subsection \<open>One symbol\<close>

definition champion_signal :: "worker_env \<Rightarrow> string \<Rightarrow> exn + strategy_signal" where
  "champion_signal env symbol =
     (let (ta, bars) = market_snapshot env symbol in
      map_sum id (apply_entry_gates (we_settings env) ta bars)
        (if wk_use_ai (we_settings env) then generate_signal_ai (we_ai_settings env) (we_ai_env env symbol) symbol
         else build_deterministic_signal (we_new_id env DEFAULT_LIVE_STRATEGY symbol) (we_now env)
                (wk_sentiment_block_threshold (we_settings env)) symbol ta None (Some bars)))"

definition process_champion :: "worker_env \<Rightarrow> string \<Rightarrow> worker_run \<Rightarrow> exn option \<times> worker_run" where
  "process_champion env symbol run =
     (case champion_signal env symbol of
        Inl e \<Rightarrow> (Some e, run)
      | Inr sg \<Rightarrow>
          if sg_candidate_action sg = HOLD then (None, count_signal run)
          else execute_signal env sg symbol (snd (market_snapshot env symbol)) DEFAULT_LIVE_STRATEGY (count_signal run))"

definition process_symbol :: "worker_env \<Rightarrow> string \<Rightarrow> worker_run \<Rightarrow> exn option \<times> worker_run" where
  "process_symbol env symbol run =
     (case process_champion env symbol run of
        (Some e, run') \<Rightarrow> (Some e, run')
      | (None, run') \<Rightarrow>
          (let (ta, bars) = market_snapshot env symbol in (None, process_challengers env symbol ta bars run')))"

definition worker_symbol :: "worker_env \<Rightarrow> string \<Rightarrow> worker_run \<Rightarrow> worker_run" where
  "worker_symbol env symbol run =
     (let run1 = (case process_symbol env symbol run of
                    (None, r) \<Rightarrow> r
                  | (Some e, r) \<Rightarrow> note_error ([S symbol, S '': ''] @ exn_text e) r)
      in run1\<lparr>wr_symbols_processed := wr_symbols_processed run1 + 1\<rparr>)"

subsection \<open>Exit signals\<close>

definition exit_reasons :: "worker_env \<Rightarrow> held_position \<Rightarrow> ta_summary \<Rightarrow> string list" where
  "exit_reasons env p ta =
     (let st = we_settings env; cost = hp_average_cost p; rsi = ti_rsi_14 (ta_indicators ta);
          price = (case we_price env (upper (hp_symbol p)) of Some x \<Rightarrow> x | None \<Rightarrow> get_or (ta_current_price ta) 0);
          opened = (case hp_opened_at p of Some t \<Rightarrow> Some t | None \<Rightarrow> hp_updated_at p)
      in (if 0 < cost \<and> price < cost * (1 - wk_stop_loss_pct st) then [''stop_loss_hit''] else []) @
         (if 0 < cost \<and> cost * (1 + wk_take_profit_pct st) < price then [''take_profit_hit''] else []) @
         (if 0 < hp_net_qty p \<and> 70 < rsi then [''signal_reversal''] else []) @
         (if hp_net_qty p < 0 \<and> rsi < 30 then [''signal_reversal''] else []) @
         (case opened of None \<Rightarrow> []
          | Some t \<Rightarrow> if wk_max_hold_hours st * 3600000000 < we_now env - t then [''max_hold_time''] else []))"

definition build_exit_signal :: "worker_env \<Rightarrow> held_position \<Rightarrow> strategy_signal option" where
  "build_exit_signal env p =
     (let symbol = upper (hp_symbol p) in
      if symbol = [] then None
      else
        (case fst (market_snapshot env symbol) of
           None \<Rightarrow> None
         | Some ta \<Rightarrow>
             (let reasons = exit_reasons env p ta in
              if reasons = [] then None
              else Some \<lparr>sg_signal_id = we_new_id env ''exit'' symbol, sg_symbol = symbol, sg_ts = we_now env, sg_candidate_action = EXIT,
                         sg_confidence = 95 / 100, sg_size_pct = 1, sg_risk_score = ''LOW'', sg_strategy = ''ema_rsi_macd'',
                         sg_ta_as_of = Some (ta_as_of ta), sg_research_summary = Some (join '', '' reasons), ss_horizon = ''swing'',
                         ss_source = ''strategy-service'', ss_model_version = ''strategy-exit-v1'',
                         ss_ta_summary = Some (ta_contract_of symbol ta)\<rparr>)))"

definition signal_exists :: "string \<Rightarrow> candidate_action \<Rightarrow> (strategy_signal \<times> bool) list \<Rightarrow> bool" where
  "signal_exists symbol action rows =
     list_ex (\<lambda>(sg, acted). sg_symbol sg = symbol \<and> sg_candidate_action sg = action \<and> \<not> acted) rows"

text \<open>The loop over the positions; the table of signals raises when its database is down.\<close>

fun generate_exit_signals :: "worker_env \<Rightarrow> held_position list \<Rightarrow> worker_run \<Rightarrow> exn option \<times> nat \<times> worker_run" where
  "generate_exit_signals env [] run = (None, 0, run)"
| "generate_exit_signals env (p # ps) run =
     (case build_exit_signal env p of
        None \<Rightarrow> generate_exit_signals env ps run
      | Some sg \<Rightarrow>
          if \<not> we_signals_up env then (Some (DatabaseError ''signals''), 0, run)
          else if signal_exists (sg_symbol sg) (sg_candidate_action sg) (wr_signals run) then generate_exit_signals env ps run
          else
            (case generate_exit_signals env ps (run\<lparr>wr_signals := wr_signals run @ [(sg, False)]\<rparr>) of
               (e, n, run') \<Rightarrow> (e, Suc n, run')))"

definition open_rows :: "worker_env \<Rightarrow> held_position list" where
  "open_rows env = filter (\<lambda>p. hp_net_qty p \<noteq> 0) (get_or (we_positions env) [])"

subsection \<open>A cycle\<close>

record worker_state =
  ws_last_run_at :: "instant option"
  ws_next_run_at :: "instant option"
  ws_is_running :: bool
  ws_last_run_error :: "msg option"

definition fresh_run :: "(strategy_signal \<times> bool) list \<Rightarrow> exec_state \<Rightarrow> worker_run" where
  "fresh_run signals st = \<lparr>wr_symbols_processed = 0, wr_signals_generated = 0, wr_orders_submitted = 0, wr_orders_gated = 0, wr_errors = [],
     wr_gated_decisions = [], wr_signals = signals, wr_st = st\<rparr>"

definition run_worker_cycle ::
  "worker_env \<Rightarrow> worker_state \<Rightarrow> (strategy_signal \<times> bool) list \<Rightarrow> exec_state \<Rightarrow> worker_state \<times> worker_run" where
  "run_worker_cycle env ws signals st =
     (let run = (case generate_exit_signals env (open_rows env) (fresh_run signals st) of
                   (Some e, _, run1) \<Rightarrow> run1
                 | (None, n, run1) \<Rightarrow>
                     fold (worker_symbol env) (wk_watchlist (we_settings env))
                       (run1\<lparr>wr_signals_generated := wr_signals_generated run1 + n\<rparr>))
      in (ws\<lparr>ws_last_run_at := Some (we_now env), ws_is_running := False,
             ws_last_run_error := (if wr_errors run = [] then None else Some (msg_join '', '' (wr_errors run)))\<rparr>, run))"

text \<open>\<open>_run_job\<close> of \<open>scheduler.py\<close>: a tick that finds a cycle still running, or the market closed, does nothing.\<close>

definition is_market_hours_et :: "(int \<times> int) option \<Rightarrow> bool" where
  "is_market_hours_et now_et =
     (case now_et of None \<Rightarrow> True
      | Some (day_of_week, micros) \<Rightarrow> day_of_week < 5 \<and> 34200000000 \<le> micros \<and> micros \<le> 57600000000)"

definition scheduler_tick ::
  "(int \<times> int) option \<Rightarrow> worker_env \<Rightarrow> worker_state \<Rightarrow> (strategy_signal \<times> bool) list \<Rightarrow> exec_state
     \<Rightarrow> worker_state \<times> (strategy_signal \<times> bool) list \<times> exec_state" where
  "scheduler_tick now_et env ws signals st =
     (if ws_is_running ws \<or> \<not> is_market_hours_et now_et then (ws, signals, st)
      else (case run_worker_cycle env ws signals st of (ws', run) \<Rightarrow> (ws', wr_signals run, wr_st run)))"

subsection \<open>Every order of the worker passed every gate\<close>

lemma is_space_upper: "is_space (upper_char c) = is_space c"
  by (auto simp: is_space_def upper_char_def Let_def of_char_of_nat)

lemma strip_upper: "strip (upper s) = upper (strip s)"
proof -
  have "dropWhile is_space (map upper_char xs) = map upper_char (dropWhile is_space xs)" for xs
    by (induction xs) (simp_all add: is_space_upper)
  then show ?thesis by (simp add: strip_def upper_def rev_map)
qed

lemma sanitize_upper: "sanitize_symbol (upper s) = Inr x \<longleftrightarrow> sanitize_symbol s = Inr x"
  by (simp add: sanitize_symbol_def strip_upper Let_def)

text \<open>
  What an order says about the moment it was sent: the journal knew the sleeve's position in both environments and
  neither is in the order's direction; the policy service approved the request the worker builds for a signal of that
  identity, side and symbol on the current market data; the shares cost no more than the approved share of the buying
  power; and the lifecycle authority, asked about that sleeve in the database as it is at this moment, permitted it to open.
\<close>

definition worker_cleared :: "worker_env \<Rightarrow> exec_state \<Rightarrow> execution_order_request \<Rightarrow> bool" where
  "worker_cleared env st r =
     ((\<forall>environment \<in> {''paper'', ''live''}. \<exists>held. net_position (we_journal_read env) (rq_strategy_id r) (rq_symbol r) environment ''default'' (xs_journal st) = Some held \<and>
         (rq_side r = ''BUY'' \<longrightarrow> held \<le> 0) \<and> (rq_side r = ''SELL'' \<longrightarrow> 0 \<le> held)) \<and>
      (\<exists>sg symbol q. sg_signal_id sg = rq_signal_id r \<and> side_of (sg_candidate_action sg) = rq_side r \<and>
         sanitize_symbol symbol = Inr (rq_symbol r) \<and> sanitize_symbol (sg_symbol sg) = Inr (rq_symbol r) \<and>
         worker_policy_request env sg symbol (snd (market_snapshot env symbol)) = Inr q \<and>
         pd_decision (call_policy env q) = ''APPROVE'' \<and>
         (\<exists>price. rq_decision_price r = Some price \<and> 0 < price \<and> 1 \<le> rq_qty r \<and>
            of_int (rq_qty r) * price \<le> pd_approved_size_pct (call_policy env q) * get_buying_power env) \<and>
         permitted (fst (may_open (we_lifecycle env) (rq_strategy_id r) (sg_symbol sg) None (xs_lifecycle st)))))"

text \<open>
  The steps of a worker: the three reads it makes of the lifecycle database, each leaving the database in the state that
  very read leaves (others may commit meanwhile), and a cleared order, created in the state its own question left.
\<close>

definition gate_asked :: "worker_env \<Rightarrow> string \<Rightarrow> string \<Rightarrow> exec_state \<Rightarrow> exec_state" where
  "gate_asked env strategy_id symbol st =
     st\<lparr>xs_lifecycle := snd (may_open (we_lifecycle env) strategy_id symbol None (xs_lifecycle st))\<rparr>"

inductive worker_step :: "worker_env \<Rightarrow> exec_state \<Rightarrow> exec_state \<Rightarrow> bool" for env where
  ask: "worker_step env st (gate_asked env strategy_id symbol st)"
| list_challengers: "worker_step env st (st\<lparr>xs_lifecycle := snd (svc_paper_challengers (we_lifecycle env) symbol (xs_lifecycle st))\<rparr>)"
| read_parameters: "worker_step env st (st\<lparr>xs_lifecycle := snd (challenger_parameters (we_lifecycle env) version (xs_lifecycle st))\<rparr>)"
| order: "worker_cleared env st (r\<lparr>rq_symbol := sy\<rparr>) \<Longrightarrow> sanitize_symbol (rq_symbol r) = Inr sy \<Longrightarrow>
    create_order (we_call env key) (\<lambda>s. s) r key (gate_asked env (rq_strategy_id r) (rq_symbol r) st) = (res, st') \<Longrightarrow> worker_step env st st'"

abbreviation worker_steps :: "worker_env \<Rightarrow> exec_state \<Rightarrow> exec_state \<Rightarrow> bool" where
  "worker_steps env \<equiv> (worker_step env)\<^sup>*\<^sup>*"

lemma gate_asked_keeps [simp]: "xs_sent (gate_asked env s y st) = xs_sent st"
  by (simp add: gate_asked_def)

lemma worker_step_sends:
  assumes "worker_step env s t" and "xs_sent t \<noteq> xs_sent s"
  shows "\<exists>key a r. xs_sent t = xs_sent s @ [(key, a, r)] \<and> worker_cleared env s r"
  using assms
proof cases
  case (order sy r key res)
  let ?s = "gate_asked env (rq_strategy_id r) (rq_symbol r) s"
  from assms(2) have sent: "xs_sent t \<noteq> xs_sent ?s" by simp
  from order(3) sent obtain sy' routed a rt w' where "sanitize_symbol (rq_symbol r) = Inr sy'"
    "submit_order (we_call env key) (\<lambda>s. s) (r\<lparr>rq_symbol := sy'\<rparr>) key (cl_digest (we_call env key) (r\<lparr>rq_symbol := sy'\<rparr>)) routed a
       (moved_on ?s rt w') = (res, t)"
    by (rule sent_submits)
  with order(1,2) show ?thesis
    using submit_sends [of "we_call env key" "\<lambda>s. s" "r\<lparr>rq_symbol := sy'\<rparr>" key "cl_digest (we_call env key) (r\<lparr>rq_symbol := sy'\<rparr>)" routed a
      "moved_on ?s rt w'"] by auto
qed simp_all

text \<open>Along a run, each order was sent by one of its steps, from the state the steps before it reached.\<close>

lemma worker_sends:
  assumes "worker_steps env s0 s1"
  shows "\<exists>new. xs_sent s1 = xs_sent s0 @ new \<and>
    (\<forall>i < length new. \<exists>s t. worker_steps env s0 s \<and> worker_step env s t \<and> worker_steps env t s1 \<and>
       xs_sent s = xs_sent s0 @ take i new \<and> worker_cleared env s (snd (snd (new ! i))))"
  using assms
proof (induction rule: rtranclp_induct)
  case base
  then show ?case by simp
next
  case (step s t)
  from step.IH obtain new where new: "xs_sent s = xs_sent s0 @ new"
    "\<forall>i < length new. \<exists>x y. worker_steps env s0 x \<and> worker_step env x y \<and> worker_steps env y s \<and>
       xs_sent x = xs_sent s0 @ take i new \<and> worker_cleared env x (snd (snd (new ! i)))" by blast
  have old: "\<forall>i < length new. \<exists>x y. worker_steps env s0 x \<and> worker_step env x y \<and> worker_steps env y t \<and>
       xs_sent x = xs_sent s0 @ take i new \<and> worker_cleared env x (snd (snd (new ! i)))"
    using new(2) step.hyps(2) by (meson rtranclp.rtrancl_into_rtrancl)
  show ?case
  proof (cases "xs_sent t = xs_sent s")
    case True
    with new(1) old show ?thesis by auto
  next
    case False
    with worker_step_sends [OF step.hyps(2)] obtain key a r where
      sent: "xs_sent t = xs_sent s @ [(key, a, r)]" "worker_cleared env s r" by blast
    have "\<exists>x y. worker_steps env s0 x \<and> worker_step env x y \<and> worker_steps env y t \<and>
       xs_sent x = xs_sent s0 @ take i (new @ [(key, a, r)]) \<and> worker_cleared env x (snd (snd ((new @ [(key, a, r)]) ! i)))"
      if "i < Suc (length new)" for i
    proof (cases "i < length new")
      case True
      with old show ?thesis by (simp add: nth_append)
    next
      case False
      with that have "i = length new" by simp
      with sent(2) new(1) step.hyps show ?thesis by (intro exI [of _ s] exI [of _ t]) simp
    qed
    with sent(1) new(1) show ?thesis by (intro exI [of _ "new @ [(key, a, r)]"]) simp
  qed
qed

lemma worker_qty_within_budget:
  assumes "1 \<le> worker_qty env symbol bars d"
  obtains price where "reference_price env symbol bars = Some price" and "0 < price"
    and "of_int (worker_qty env symbol bars d) * price \<le> pd_approved_size_pct d * get_buying_power env"
proof -
  let ?q = "compute_qty (pd_approved_size_pct d) (get_buying_power env) (reference_price env symbol bars)"
  have le: "worker_qty env symbol bars d \<le> max 0 ?q"
    by (auto simp: worker_qty_def participation_capped_qty_def Let_def split: option.splits)
  with assms have q: "worker_qty env symbol bars d \<le> ?q" "0 < ?q" by auto
  from q(2) obtain price where p: "reference_price env symbol bars = Some price" "0 < price"
    "?q = py_trunc (pd_approved_size_pct d * get_buying_power env / price)"
    by (auto simp: compute_qty_def split: option.splits if_splits)
  with q(2) have "of_int ?q \<le> pd_approved_size_pct d * get_buying_power env / price" by (auto simp: py_trunc_def split: if_splits)
  with q(1) have "of_int (worker_qty env symbol bars d) \<le> pd_approved_size_pct d * get_buying_power env / price"
    by (meson of_int_le_iff order_trans)
  then show thesis using p by (intro that [OF p(1,2)]) (simp add: pos_le_divide_eq)
qed

lemma exposure_known:
  assumes "get_sleeve_position env symbol strategy_id st = Some held" and "\<not> already_positioned held side"
  obtains clean where "sanitize_symbol symbol = Inr clean"
    and "\<forall>environment \<in> {''paper'', ''live''}. \<exists>n. net_position (we_journal_read env) strategy_id clean environment ''default'' (xs_journal st) = Some n \<and>
           (side = ''BUY'' \<longrightarrow> n \<le> 0) \<and> (side = ''SELL'' \<longrightarrow> 0 \<le> n)"
proof -
  from assms(1) obtain clean p l where clean: "sanitize_symbol symbol = Inr clean"
    and p: "net_position (we_journal_read env) strategy_id clean ''paper'' ''default'' (xs_journal st) = Some p"
    and l: "net_position (we_journal_read env) strategy_id clean ''live'' ''default'' (xs_journal st) = Some l"
    and held: "held = [(''paper'', p), (''live'', l)]"
    unfolding get_sleeve_position_def sleeve_exposure_def
    by (cases "sanitize_symbol symbol") (auto split: if_splits sum.splits option.splits)
  show thesis using that [OF clean] p l assms(2) by (auto simp: held already_positioned_def not_less)
qed

lemma execute_signal_step:
  assumes run: "execute_signal env sg symbol bars strategy_id run = (e, run')" and "sg_symbol sg = upper symbol"
    and bars: "bars = snd (market_snapshot env symbol)"
  shows "worker_steps env (wr_st run) (wr_st run')"
proof -
  let ?asked = "gate_asked env strategy_id (sg_symbol sg) (wr_st run)"
  have asked: "worker_steps env (wr_st run) ?asked" by (rule r_into_rtranclp) (rule ask)
  consider "wr_st run' = wr_st run" | "wr_st run' = ?asked"
    | held q lim b where "get_sleeve_position env symbol strategy_id (wr_st run) = Some held"
        "\<not> already_positioned held (side_of (sg_candidate_action sg))" "worker_policy_request env sg symbol bars = Inr q"
        "pd_decision (call_policy env q) = ''APPROVE''" "1 \<le> worker_qty env symbol bars (call_policy env q)"
        "permitted (fst (may_open (we_lifecycle env) strategy_id (sg_symbol sg) None (xs_lifecycle (wr_st run))))"
        "submit_worker_order env (worker_order sg strategy_id (worker_qty env symbol bars (call_policy env q)) (reference_price env symbol bars) lim)
           (worker_key sg) ?asked = (b, wr_st run')"
    using run
    by (auto simp: execute_signal_def place_worker_order_def note_error_def gate_asked_def Let_def not_less
        split: option.splits sum.splits prod.splits if_splits bool.splits)
  then show ?thesis
  proof cases
    case 2
    with asked show ?thesis by simp
  next
    case (3 held q lim b)
    let ?r = "worker_order sg strategy_id (worker_qty env symbol bars (call_policy env q)) (reference_price env symbol bars) lim"
    obtain clean where clean: "sanitize_symbol symbol = Inr clean"
      "\<forall>environment \<in> {''paper'', ''live''}. \<exists>n. net_position (we_journal_read env) strategy_id clean environment ''default'' (xs_journal (wr_st run)) = Some n \<and>
         (side_of (sg_candidate_action sg) = ''BUY'' \<longrightarrow> n \<le> 0) \<and> (side_of (sg_candidate_action sg) = ''SELL'' \<longrightarrow> 0 \<le> n)"
      using 3(1,2) by (rule exposure_known)
    obtain price where price: "reference_price env symbol bars = Some price" "0 < price"
      "of_int (worker_qty env symbol bars (call_policy env q)) * price \<le> pd_approved_size_pct (call_policy env q) * get_buying_power env"
      using 3(5) by (rule worker_qty_within_budget)
    have sy: "sanitize_symbol (sg_symbol sg) = Inr clean"
      using clean(1) assms(2) by (simp add: sanitize_upper)
    have "worker_cleared env (wr_st run) (?r\<lparr>rq_symbol := clean\<rparr>)"
      unfolding worker_cleared_def using clean 3(3-6) price sy
      by (intro conjI exI [of _ sg] exI [of _ symbol] exI [of _ q]) (simp_all add: worker_order_def bars)
    then have "worker_step env (wr_st run) t" if "create_order (we_call env (worker_key sg)) (\<lambda>s. s) ?r (worker_key sg) ?asked = (x, t)" for x t
      using sy that by (intro worker_step.order [where r = ?r and key = "worker_key sg" and res = x and sy = clean]) (simp_all add: worker_order_def)
    then show ?thesis
      using 3(7) asked
      by (cases "we_online env (worker_key sg)") (auto simp: submit_worker_order_def split: prod.splits sum.splits)
  qed simp
qed

lemma execute_steps:
  "sg_symbol sg = upper symbol \<Longrightarrow> bars = snd (market_snapshot env symbol) \<Longrightarrow>
   worker_steps env (wr_st run) (wr_st (snd (execute_signal env sg symbol bars strategy_id run)))"
  by (rule execute_signal_step [OF prod.collapse [symmetric]])

lemma gates_keep_identity [simp]:
  "sg_symbol (apply_entry_gates st ta bars sg) = sg_symbol sg" "sg_signal_id (apply_entry_gates st ta bars sg) = sg_signal_id sg"
  by (simp_all add: apply_entry_gates_def Let_def)

lemma make_signal_symbol: "make_signal sid symbol now a c z v k ta m = Inr s \<Longrightarrow> sg_symbol s = symbol"
  by (auto simp: make_signal_def split: option.splits pyfloat.splits json.splits if_splits)

lemma rule_signal_symbol: "signal_of_rule sid symbol now v ta r = Inr s \<Longrightarrow> sg_symbol s = symbol"
  by (simp add: signal_of_rule_def make_signal_symbol)

lemma deterministic_signal_symbol: "build_deterministic_signal sid now t symbol ta score bars = Inr s \<Longrightarrow> sg_symbol s = upper symbol"
  by (auto simp: build_deterministic_signal_def bindE_Inr_iff dest: make_signal_symbol rule_signal_symbol split: option.splits)

lemma answer_symbol: "signal_of_answer st env symbol ta score v = Inr s \<Longrightarrow> sg_symbol s = upper symbol"
  by (auto simp: signal_of_answer_def bindE_Inr_iff Let_def dest: make_signal_symbol split: json.splits)

lemma ai_signal_symbol:
  assumes "generate_signal_ai st env symbol = Inr s"
  shows "sg_symbol s = upper symbol"
proof (cases "do_generate st env symbol")
  case (Inl e)
  with assms show ?thesis by (auto simp: generate_signal_ai_def Let_def dest: deterministic_signal_symbol split: if_splits)
next
  case (Inr s')
  have ask: "sg_symbol s' = upper symbol" if "bindE (ai_answer env) (\<lambda>text. signal_of_answer st env symbol ta score (parse_json (ai_loads env) text)) = Inr s'" for ta score
    using that by (auto simp: bindE_Inr_iff dest: answer_symbol)
  note run = Inr [unfolded do_generate_def champion_verdict bindE_simps Let_def]
  have "sg_symbol s' = upper symbol"
  proof (cases "ta_of_fetch env symbol (ai_fetcher env) (ai_fetch env)")
    case None
    with run ask show ?thesis by simp
  next
    case (Some seen)
    with run ask show ?thesis
      by (simp only: option.map option.case compared_score_simps map_sum.simps bindE_simps split: if_splits) (erule rule_signal_symbol)
  qed
  with Inr assms show ?thesis by (simp add: generate_signal_ai_def)
qed

lemma champion_symbol: "champion_signal env symbol = Inr sg \<Longrightarrow> sg_symbol sg = upper symbol"
  by (auto simp: champion_signal_def case_prod_unfold Let_def map_sum_Inr dest: ai_signal_symbol deterministic_signal_symbol split: if_splits)

lemma challenger_symbol: "challenger_signal env s symbol ta bars ps = Inr sg \<Longrightarrow> sg_symbol sg = upper symbol"
  by (auto simp: challenger_signal_def bindE_Inr_iff map_sum_Inr dest: rule_signal_symbol)

lemma count_signal_st [simp]: "wr_st (count_signal run) = wr_st run"
  by (simp add: count_signal_def)

lemma note_error_st [simp]: "wr_st (note_error m run) = wr_st run"
  by (simp add: note_error_def)

lemma challenger_steps:
  assumes bars: "bars = snd (market_snapshot env symbol)"
  shows "worker_steps env (wr_st run) (wr_st (snd (process_one_challenger env symbol ta bars s run)))"
proof -
  obtain ps w where ps: "challenger_parameters (we_lifecycle env) (sl_strategy_version s) (xs_lifecycle (wr_st run)) = (ps, w)"
    by (rule prod.exhaust)
  let ?run = "run\<lparr>wr_st := (wr_st run)\<lparr>xs_lifecycle := w\<rparr>\<rparr>"
  have look: "worker_steps env (wr_st run) (wr_st ?run)"
    using worker_step.read_parameters [of env "wr_st run" "sl_strategy_version s"] by (simp add: ps r_into_rtranclp)
  have "worker_steps env (wr_st ?run) (wr_st (snd (execute_signal env sg symbol bars (sl_strategy_id s) (count_signal ?run))))"
    if "challenger_signal env s symbol ta bars d = Inr sg" for d sg
    using execute_steps [OF challenger_symbol [OF that] bars, of "count_signal ?run"] by simp
  with look show ?thesis
    by (auto simp: process_one_challenger_def ps Let_def split: option.splits sum.splits intro: rtranclp_trans)
qed

lemma fold_steps:
  assumes "\<And>x run. worker_steps env (wr_st run) (wr_st (f x run))"
  shows "worker_steps env (wr_st run) (wr_st (fold f xs run))"
  using assms by (induction xs arbitrary: run) (auto intro: rtranclp_trans)

lemma challengers_steps:
  assumes bars: "bars = snd (market_snapshot env symbol)"
  shows "worker_steps env (wr_st run) (wr_st (process_challengers env symbol ta bars run))"
proof -
  obtain found w where f: "svc_paper_challengers (we_lifecycle env) symbol (xs_lifecycle (wr_st run)) = (found, w)" by (rule prod.exhaust)
  let ?run = "run\<lparr>wr_st := (wr_st run)\<lparr>xs_lifecycle := w\<rparr>\<rparr>"
  have "worker_steps env (wr_st run) (wr_st ?run)"
    using worker_step.list_challengers [of env "wr_st run" symbol] by (simp add: f r_into_rtranclp)
  moreover have "worker_steps env (wr_st ?run) (wr_st (fold (\<lambda>s run. snd (process_one_challenger env symbol t bars s run)) found ?run))" for t
    by (rule fold_steps) (rule challenger_steps [OF bars])
  ultimately show ?thesis
    by (auto simp: process_challengers_def f split: option.splits intro: rtranclp_trans)
qed

lemma champion_steps: "worker_steps env (wr_st run) (wr_st (snd (process_champion env symbol run)))"
  using execute_steps [OF champion_symbol refl, of env symbol _ env "count_signal run" DEFAULT_LIVE_STRATEGY] by (auto simp: process_champion_def split: sum.splits)

lemma symbol_steps: "worker_steps env (wr_st run) (wr_st (worker_symbol env symbol run))"
proof -
  have "worker_steps env (wr_st run) (wr_st (snd (process_symbol env symbol run)))"
    using champion_steps [of env run symbol] challengers_steps [of _ env symbol]
    by (auto simp: process_symbol_def case_prod_unfold Let_def split: prod.splits option.splits intro: rtranclp_trans)
  then show ?thesis by (auto simp: worker_symbol_def Let_def split: prod.splits option.splits)
qed

lemma exits_touch_signals: "generate_exit_signals env ps run = (e, n, run') \<Longrightarrow> \<exists>rows. run' = run\<lparr>wr_signals := rows\<rparr>"
proof (induction env ps run arbitrary: e n run' rule: generate_exit_signals.induct)
  case (1 env run)
  then show ?case by (intro exI [of _ "wr_signals run"]) simp
next
  case (2 env p ps run)
  show ?case
  proof (cases "build_exit_signal env p")
    case None
    with 2 show ?thesis by simp
  next
    case (Some sg)
    obtain e1 n1 run1 where rest: "generate_exit_signals env ps (run\<lparr>wr_signals := wr_signals run @ [(sg, False)]\<rparr>) = (e1, n1, run1)"
      by (rule prod_cases3)
    consider "\<not> we_signals_up env" | "we_signals_up env" "signal_exists (sg_symbol sg) (sg_candidate_action sg) (wr_signals run)"
      | "we_signals_up env" "\<not> signal_exists (sg_symbol sg) (sg_candidate_action sg) (wr_signals run)" by blast
    then show ?thesis
    proof cases
      case 1
      with 2(4) Some show ?thesis by (intro exI [of _ "wr_signals run"]) simp
    next
      case c: 2
      with 2 Some show ?thesis by simp
    next
      case 3
      from 2(3) [OF Some _ 3(2) rest] 3(1) obtain rows where "run1 = run\<lparr>wr_signals := rows\<rparr>" by auto
      with 2(4) Some 3 rest show ?thesis by auto
    qed
  qed
qed

lemma exits_keep_state: "generate_exit_signals env ps run = (e, n, run') \<Longrightarrow> wr_st run' = wr_st run"
  using exits_touch_signals by fastforce

text \<open>
  C14: Every order of a worker cycle passed every gate, for the champion and the challengers alike. A cycle is a sequence
  of its own reads of the lifecycle database and of cleared orders, and each order it handed to a broker was handed over by
  one of these steps, in order, from the state the steps before it had reached. In that state the execution journal knew
  the sleeve's position in both environments and neither was already in the order's direction, the policy service
  approved the request built for that signal on the current market data, the shares at the decision price cost no
  more than the approved share of the buying power, and the lifecycle authority, asked in the database as the cycle
  had it at that moment, permitted the sleeve to open.
\<close>

theorem worker_orders_are_cleared:
  assumes "run_worker_cycle env ws signals st = (ws', run)"
  shows "worker_steps env st (wr_st run) \<and>
    (\<exists>new. xs_sent (wr_st run) = xs_sent st @ new \<and>
       (\<forall>i < length new. \<exists>s t. worker_steps env st s \<and> worker_step env s t \<and> worker_steps env t (wr_st run) \<and>
          xs_sent s = xs_sent st @ take i new \<and> worker_cleared env s (snd (snd (new ! i)))))"
proof -
  obtain e n run1 where x: "generate_exit_signals env (open_rows env) (fresh_run signals st) = (e, n, run1)" by (rule prod_cases3)
  from exits_keep_state [OF x] have st: "wr_st run1 = st" by (simp add: fresh_run_def)
  have "worker_steps env (wr_st run2) (wr_st (fold (worker_symbol env) ss run2))" for ss run2 by (rule fold_steps) (rule symbol_steps)
  from this [of "run1\<lparr>wr_signals_generated := wr_signals_generated run1 + n\<rparr>" "wk_watchlist (we_settings env)"] assms x st
  have "worker_steps env st (wr_st run)" by (auto simp: run_worker_cycle_def Let_def split: option.splits)
  then show ?thesis using worker_sends by blast
qed

text \<open>The champion's sleeve on paper, and a model that says sell.\<close>

definition demo_champion :: sleeve_row where
  "demo_champion = born 0 1 ''ema_rsi_macd'' ''AAPL'' ''v1'' ''equity'' ''default'' ''human''"

definition demo_champion_db :: db where
  "demo_champion_db = moved demo_champion (step_to 5 ''paper'' [S ''promoted''])
     (entry 5 1 2 ''candidate'' ''paper'' [S ''promoted''] ''operator'' None)
     (inserted demo_champion (entry 0 1 1 ''none'' ''candidate'' [S ''registered''] ''operator'' None) empty_db)"

definition demo_worker_settings :: worker_settings where
  "demo_worker_settings = \<lparr>wk_watchlist = [''AAPL''], wk_use_ai = True, wk_sentiment_block_threshold = - 3 / 10,
     wk_volume_confirm_enabled = True, wk_stop_loss_pct = 3 / 100, wk_take_profit_pct = 6 / 100, wk_max_hold_hours = 48,
     wk_is_intraday = False, wk_intraday_minutes = 15, wk_use_limit_orders = True, wk_limit_tolerance_bps = 10,
     wk_max_adv_participation = 1 / 100\<rparr>"

definition demo_worker :: worker_env where
  "demo_worker = \<lparr>we_settings = demo_worker_settings, we_now = 0, we_new_id = (\<lambda>_ s. s), we_sqrt = id, we_fetch_bars = (\<lambda>_. Inr []),
     we_ai_settings = demo_ai,
     we_ai_env = (\<lambda>s. demo_ai_env\<lparr>ai_new_id := s, ai_loads := (\<lambda>_. Some (JObj [(''action'', JStr ''SELL'')]))\<rparr>),
     we_price = (\<lambda>_. Some 5), we_snapshot_age = (\<lambda>_. Some 2), we_market_open = True, we_blackout = (\<lambda>_. Inr False),
     we_buying_power = Some 150, we_positions = Some [], we_exposure_up = (\<lambda>_. True), we_journal_read = True, we_policy = (\<lambda>_. Inr demo_decision),
     we_lifecycle = demo_service, we_online = (\<lambda>_. True), we_call = (\<lambda>key. demo_call key), we_signals_up = True\<rparr>"

definition idle_worker :: worker_state where
  "idle_worker = \<lparr>ws_last_run_at = None, ws_next_run_at = None, ws_is_running = False, ws_last_run_error = None\<rparr>"

definition demo_worker_run :: worker_run where
  "demo_worker_run = snd (run_worker_cycle demo_worker idle_worker [] (demo_exec\<lparr>xs_lifecycle := quiet demo_champion_db\<rparr>))"

lemma demo_worker_sends: "map (\<lambda>(key, a, r). (key, rq_side r, rq_qty r)) (xs_sent (wr_st demo_worker_run)) = [(''worker-AAPL'', ''SELL'', 3)]"
  by code_simp

theorem worker_orders_are_cleared_witness:
  "\<exists>x s. xs_sent (wr_st demo_worker_run) = [x] \<and> rq_side (snd (snd x)) = ''SELL'' \<and>
     worker_steps demo_worker (demo_exec\<lparr>xs_lifecycle := quiet demo_champion_db\<rparr>) s \<and> worker_cleared demo_worker s (snd (snd x))"
proof -
  let ?st = "demo_exec\<lparr>xs_lifecycle := quiet demo_champion_db\<rparr>"
  obtain x where x: "xs_sent (wr_st demo_worker_run) = [x]" "rq_side (snd (snd x)) = ''SELL''"
    using demo_worker_sends by (auto simp: case_prod_unfold)
  have none: "xs_sent ?st = []" by (simp add: demo_exec_def)
  from worker_orders_are_cleared [of demo_worker idle_worker "[]" ?st _ demo_worker_run,
      OF prod.collapse [symmetric, of "run_worker_cycle demo_worker idle_worker [] ?st", folded demo_worker_run_def]]
  obtain new where "xs_sent (wr_st demo_worker_run) = new"
    "\<forall>i < length new. \<exists>s. worker_steps demo_worker ?st s \<and> worker_cleared demo_worker s (snd (snd (new ! i)))"
    unfolding none by auto
  with x show ?thesis by auto
qed

subsection \<open>No data, no order\<close>

lemma no_snapshot:
  assumes "\<And>bars. we_fetch_bars env symbol = Inr bars \<Longrightarrow> bars = []"
  shows "market_snapshot env symbol = (None, [])"
  using assms by (auto simp: market_snapshot_def split: sum.splits)

text \<open>
  Without market data the worker does not trade a symbol. In deterministic mode, when the bars cannot be fetched or
  there are none, processing the symbol leaves orders, fills, journal, broker and lifecycle database as they are,
  submits nothing for the champion or any challenger, and records no error.
\<close>

theorem no_data_no_trade:
  assumes "\<not> wk_use_ai (we_settings env)" and "\<And>bars. we_fetch_bars env symbol = Inr bars \<Longrightarrow> bars = []"
  shows "wr_st (worker_symbol env symbol run) = wr_st run \<and> wr_orders_submitted (worker_symbol env symbol run) = wr_orders_submitted run \<and>
         wr_errors (worker_symbol env symbol run) = wr_errors run"
proof -
  obtain s where s: "build_deterministic_signal (we_new_id env DEFAULT_LIVE_STRATEGY symbol) (we_now env)
      (wk_sentiment_block_threshold (we_settings env)) symbol None None (Some []) = Inr s" and hold: "sg_candidate_action s = HOLD"
    by (auto simp: build_deterministic_signal_def make_signal_def)
  have "sg_candidate_action (apply_entry_gates (we_settings env) None [] s) = HOLD" by (simp add: apply_entry_gates_def hold Let_def)
  then have "process_champion env symbol run = (None, count_signal run)"
    by (simp add: process_champion_def champion_signal_def no_snapshot [OF assms(2)] assms(1) s)
  then show ?thesis
    by (simp add: worker_symbol_def process_symbol_def no_snapshot [OF assms(2)] process_challengers_def assms(1) count_signal_def)
qed

theorem no_data_no_trade_witness:
  "wr_st (worker_symbol (demo_worker\<lparr>we_settings := demo_worker_settings\<lparr>wk_use_ai := False\<rparr>\<rparr>) ''AAPL'' (fresh_run [] demo_exec)) = demo_exec"
  using no_data_no_trade [of "demo_worker\<lparr>we_settings := demo_worker_settings\<lparr>wk_use_ai := False\<rparr>\<rparr>" "''AAPL''" "fresh_run [] demo_exec"]
  by (simp add: demo_worker_def fresh_run_def)

subsection \<open>Every symbol gets its turn\<close>

lemma executed_counts:
  "wr_symbols_processed (snd (execute_signal env sg symbol bars strategy_id run)) = wr_symbols_processed run"
  "wr_signals (snd (execute_signal env sg symbol bars strategy_id run)) = wr_signals run"
  by (auto simp: execute_signal_def place_worker_order_def note_error_def Let_def
      split: option.splits sum.splits prod.splits if_splits bool.splits)

lemma count_signal_sel [simp]:
  "wr_symbols_processed (count_signal run) = wr_symbols_processed run" "wr_signals (count_signal run) = wr_signals run"
  by (simp_all add: count_signal_def)

lemma challenger_counts:
  "wr_symbols_processed (snd (process_one_challenger env symbol ta bars s run)) = wr_symbols_processed run \<and>
   wr_signals (snd (process_one_challenger env symbol ta bars s run)) = wr_signals run"
  by (auto simp: process_one_challenger_def executed_counts Let_def split: prod.splits option.splits sum.splits)

lemma challengers_counts:
  "wr_symbols_processed (process_challengers env symbol ta bars run) = wr_symbols_processed run \<and>
   wr_signals (process_challengers env symbol ta bars run) = wr_signals run"
proof -
  have "wr_symbols_processed (fold (\<lambda>s run. snd (process_one_challenger env symbol t bars s run)) ss run1) = wr_symbols_processed run1 \<and>
    wr_signals (fold (\<lambda>s run. snd (process_one_challenger env symbol t bars s run)) ss run1) = wr_signals run1" for t ss run1
    by (induction ss arbitrary: run1) (simp_all add: challenger_counts)
  then show ?thesis by (simp add: process_challengers_def split: prod.splits option.splits)
qed

lemma champion_counts:
  "wr_symbols_processed (snd (process_champion env symbol run)) = wr_symbols_processed run \<and>
   wr_signals (snd (process_champion env symbol run)) = wr_signals run"
  by (auto simp: process_champion_def executed_counts split: sum.splits)

lemma symbol_counts:
  "wr_symbols_processed (worker_symbol env symbol run) = Suc (wr_symbols_processed run)"
  "wr_signals (worker_symbol env symbol run) = wr_signals run"
  using champion_counts [of env symbol run] challengers_counts
  by (auto simp: worker_symbol_def process_symbol_def note_error_def case_prod_unfold Let_def split: prod.splits option.splits)

lemma watchlist_counts:
  "wr_symbols_processed (fold (worker_symbol env) ss run) = wr_symbols_processed run + length ss \<and>
   wr_signals (fold (worker_symbol env) ss run) = wr_signals run"
  by (induction ss arbitrary: run) (simp_all add: symbol_counts)

lemma exits_raise: "generate_exit_signals env ps run = (e, n, run') \<Longrightarrow> we_signals_up env \<Longrightarrow> e = None"
  by (induction env ps run arbitrary: e n run' rule: generate_exit_signals.induct) (force split: option.splits if_splits prod.splits)+

lemma exits_counts: "generate_exit_signals env ps run = (e, n, run') \<Longrightarrow> wr_symbols_processed run' = wr_symbols_processed run"
  using exits_touch_signals by fastforce

text \<open>At most one pending exit signal per symbol.\<close>

definition pending_exits :: "(strategy_signal \<times> bool) list \<Rightarrow> string list" where
  "pending_exits rows = map (sg_symbol \<circ> fst) (filter (\<lambda>(sg, acted). sg_candidate_action sg = EXIT \<and> \<not> acted) rows)"

lemma exit_signal_action: "build_exit_signal env p = Some sg \<Longrightarrow> sg_candidate_action sg = EXIT"
  by (auto simp: build_exit_signal_def Let_def split: option.splits if_splits)

lemma exits_distinct:
  "generate_exit_signals env ps run = (e, n, run') \<Longrightarrow> distinct (pending_exits (wr_signals run)) \<Longrightarrow> distinct (pending_exits (wr_signals run'))"
proof (induction env ps run arbitrary: e n run' rule: generate_exit_signals.induct)
  case (2 env p ps run)
  show ?case
  proof (cases "build_exit_signal env p")
    case None
    with 2 show ?thesis by simp
  next
    case (Some sg)
    note exit = exit_signal_action [OF Some]
    have new: "distinct (pending_exits (wr_signals run @ [(sg, False)]))" if "\<not> signal_exists (sg_symbol sg) (sg_candidate_action sg) (wr_signals run)"
      using that 2(5) exit by (force simp: pending_exits_def signal_exists_def list_ex_iff)
    show ?thesis
    proof (cases "\<not> we_signals_up env \<or> signal_exists (sg_symbol sg) (sg_candidate_action sg) (wr_signals run)")
      case True
      with 2 Some show ?thesis by (auto split: if_splits)
    next
      case False
      obtain e1 n1 run1 where rest: "generate_exit_signals env ps (run\<lparr>wr_signals := wr_signals run @ [(sg, False)]\<rparr>) = (e1, n1, run1)"
        by (rule prod_cases3)
      with 2(4) Some False have "run' = run1" by simp
      moreover from 2(3) [OF Some _ _ rest] False new have "distinct (pending_exits (wr_signals run1))" by simp
      ultimately show ?thesis by simp
    qed
  qed
qed simp

text \<open>
  A worker cycle always ends, and reaches the whole watchlist. It leaves the running flag cleared; when the
  signal table can be read, every symbol of the watchlist is processed exactly once whatever happened to the ones
  before it, and otherwise nothing was traded at all. If no symbol had two pending exit signals before, none has after.
\<close>

theorem worker_cycle_reaches_everyone:
  assumes "run_worker_cycle env ws signals st = (ws', run)"
  shows "\<not> ws_is_running ws' \<and>
    (wr_symbols_processed run = length (wk_watchlist (we_settings env)) \<or> \<not> we_signals_up env \<and> wr_st run = st) \<and>
    (distinct (pending_exits signals) \<longrightarrow> distinct (pending_exits (wr_signals run)))"
proof -
  obtain e n run1 where x: "generate_exit_signals env (open_rows env) (fresh_run signals st) = (e, n, run1)" by (rule prod_cases3)
  from exits_keep_state [OF x] exits_counts [OF x] have st: "wr_st run1 = st" "wr_symbols_processed run1 = 0" by (simp_all add: fresh_run_def)
  have d: "distinct (pending_exits (wr_signals run1))" if "distinct (pending_exits signals)"
    using exits_distinct [OF x] that by (simp add: fresh_run_def)
  show ?thesis
    using assms x st d exits_raise [OF x] watchlist_counts
    by (auto simp: run_worker_cycle_def Let_def split: option.splits)
qed

theorem worker_cycle_reaches_everyone_witness:
  "wr_symbols_processed demo_worker_run = 1"
  using worker_cycle_reaches_everyone [of demo_worker idle_worker "[]" "demo_exec\<lparr>xs_lifecycle := quiet demo_champion_db\<rparr>" _ demo_worker_run,
      OF prod.collapse [symmetric, of "run_worker_cycle demo_worker idle_worker [] (demo_exec\<lparr>xs_lifecycle := quiet demo_champion_db\<rparr>)",
        folded demo_worker_run_def]]
  by (simp add: demo_worker_def demo_worker_settings_def)

text \<open>
  What the status does not say: the error of a cycle that failed as a whole is overwritten before it returns.
\<close>

lemma cycle_error_is_lost:
  assumes "generate_exit_signals env (open_rows env) (fresh_run signals st) = (Some e, n, run1)"
  shows "ws_last_run_error (fst (run_worker_cycle env ws signals st)) = None"
proof -
  from exits_touch_signals [OF assms] obtain rows where "run1 = (fresh_run signals st)\<lparr>wr_signals := rows\<rparr>" by blast
  with assms show ?thesis by (simp add: run_worker_cycle_def fresh_run_def Let_def)
qed

text \<open>
  The exit thresholds do not look at the side: a short position is closed as stopped out when the price has fallen
  by the stop distance, and as a profit when it has risen by the target distance.
\<close>

lemma short_exits_are_swapped:
  assumes "hp_net_qty p < 0" and "0 < hp_average_cost p" and "0 \<le> wk_take_profit_pct (we_settings env)"
    and "we_price env (upper (hp_symbol p)) = Some (hp_average_cost p * (1 - d))" and "wk_stop_loss_pct (we_settings env) < d"
  shows "''stop_loss_hit'' \<in> set (exit_reasons env p ta)"
  using assms by (simp add: exit_reasons_def Let_def)

text \<open>An answer of the model that says \<open>EXIT\<close> is never held back by the position check, and sells.\<close>

lemma exit_answer_sells:
  "\<not> already_positioned held (side_of EXIT) \<and> signed_request (worker_order (sg\<lparr>sg_candidate_action := EXIT\<rparr>) strategy_id qty price limit) = - of_int qty"
proof -
  have "upper ''EXIT'' \<noteq> ''BUY''" by code_simp
  then show ?thesis by (simp add: already_positioned_def signed_request_def worker_order_def list_ex_iff)
qed

text \<open>A challenger with too short a history is meant to hold; the candidate of size 0 is refused by its contract.\<close>

lemma not_evaluated_is_refused: "isl (signal_of_rule sid symbol now version ta (not_evaluated fast slow n))"
  by (simp add: signal_of_rule_def make_signal_def not_evaluated_def)

subsection \<open>The live champion against its backtest\<close>

lemma volume_gates_agree:
  assumes "bars \<noteq> []"
  shows "volume_below_average bars \<longleftrightarrow> \<not> volume_confirms (map ba_volume bars) (int (length bars) - 1) VOLUME_LOOKBACK"
proof -
  define volumes where "volumes = map ba_volume bars"
  have n: "0 < length volumes" and len: "length bars = length volumes" using assms by (simp_all add: volumes_def)
  have window: "drop (nat (max 0 (int (length volumes) - 1 + 1 - 20))) (take (nat (int (length volumes) - 1 + 1)) volumes) = drop (length volumes - 20) volumes"
    by (simp add: nat_diff_distrib' max_def)
  have size: "of_nat (length (drop (length volumes - 20) volumes)) = (of_nat (min (length volumes) 20) :: rat)" by (simp add: min_def)
  have at: "volumes ! nat (int (length volumes) - 1) = last volumes" using n by (simp add: last_conv_nth nat_diff_distrib')
  have "length volumes - 20 < length volumes" using n by simp
  then have ne: "volumes \<noteq> []" "drop (length volumes - 20) volumes \<noteq> []" by auto
  show ?thesis
    unfolding volume_below_average_def volume_confirms_def VOLUME_LOOKBACK_def len volumes_def [symmetric] Let_def window size at
    using n ne by (simp add: not_less)
qed

lemma live_gates_pass:
  assumes "bars \<noteq> []" and "sg_candidate_action (apply_entry_gates st (Some (build_ta_summary sq now symbol bars source)) bars sg) = BUY"
    and "let adx = compute_adx (map ba_high bars) (map ba_low bars) (map ba_close bars) 14 in 20 \<le> adx \<or> adx < 20 - 1 / 10000"
  shows "gate_at True (wk_volume_confirm_enabled st) bars (length bars - 1) ''BUY'' = ''BUY''"
proof -
  let ?adx = "compute_adx (map ba_high bars) (map ba_low bars) (map ba_close bars) 14"
  have summary: "ta_adx (build_ta_summary sq now symbol bars source) = py_round 4 ?adx" "ta_bars_count (build_ta_summary sq now symbol bars source) = length bars"
    using assms(1) by (simp_all add: build_ta_summary_def Let_def case_prod_unfold)
  from assms(2) have gates: "adx_is_computable (length bars) 14" "20 \<le> py_round 4 ?adx"
    "wk_volume_confirm_enabled st \<longrightarrow> \<not> volume_below_average bars"
    using assms(1) by (auto simp: apply_entry_gates_def summary Let_def ADX_PERIOD_def split: if_splits)
  have "20 \<le> ?adx"
  proof (rule ccontr)
    assume "\<not> 20 \<le> ?adx"
    with assms(3) have "?adx \<le> 20 - 1 / 10000" by (simp add: Let_def)
    then have "py_round 4 ?adx \<le> py_round 4 (20 - 1 / 10000)" by (rule py_round_mono)
    also have "py_round 4 (20 - 1 / 10000) = 199999 / 10000" by code_simp
    finally show False using gates(2) by simp
  qed
  moreover have "Suc (length bars - 1) = length bars" and "int (length bars - 1) = int (length bars) - 1" using assms(1) by (simp_all add: of_nat_diff Suc_le_eq)
  ultimately show ?thesis
    using gates volume_gates_agree [OF assms(1)]
    by (auto simp: gate_at_def Let_def regime_is_tradable_def REGIME_ADX_FLOOR_def adx_is_computable_def)
qed

text \<open>
  C15: What the worker buys live, the backtest buys. When the champion's signal for a symbol is BUY after the entry
  gates, the backtest of the champion's default parameters with the same gates also ends in BUY on the bars the worker
  fetched, provided the series is past the warm-up, the prices are positive and the trend strength is not within a
  ten-thousandth below its floor, where the rounding of the live summary could lift it.
\<close>

theorem live_entry_is_backtested:
  assumes "\<not> wk_use_ai (we_settings env)" and "we_fetch_bars env symbol = Inr bars" and "\<forall>b\<in>set bars. 0 < ba_close b"
    and "momentum_warmup default_params \<le> int (length bars)"
    and "let adx = compute_adx (map ba_high bars) (map ba_low bars) (map ba_close bars) 14 in 20 \<le> adx \<or> adx < 20 - 1 / 10000"
    and "champion_signal env symbol = Inr sg" and "sg_candidate_action sg = BUY"
  shows "last (apply_gates bars (momentum_signals bars default_params) True (wk_volume_confirm_enabled (we_settings env))) = ''BUY''"
proof -
  let ?ta = "build_ta_summary (we_sqrt env) (we_now env) symbol bars (if wk_is_intraday (we_settings env) then ''intraday'' else ''daily'')"
  have bars: "bars \<noteq> []" using assms(4) by (auto simp: momentum_warmup_def MACD_WARMUP_def)
  then have snap: "market_snapshot env symbol = (Some ?ta, bars)" by (simp add: market_snapshot_def assms(2))
  from assms(6) snap assms(1) obtain s where s: "build_deterministic_signal (we_new_id env DEFAULT_LIVE_STRATEGY symbol) (we_now env)
      (wk_sentiment_block_threshold (we_settings env)) symbol (Some ?ta) None (Some bars) = Inr s"
    and sg: "sg = apply_entry_gates (we_settings env) (Some ?ta) bars s"
    by (auto simp: champion_signal_def map_sum_Inr)
  from assms(7) sg have buy: "sg_candidate_action s = BUY" by (auto simp: apply_entry_gates_def Let_def split: if_splits)
  from s obtain r where r: "evaluate_rules ?ta (Some (wk_sentiment_block_threshold (we_settings env))) None (Some bars) None = Inr r"
    and "signal_of_rule (we_new_id env DEFAULT_LIVE_STRATEGY symbol) (upper symbol) (we_now env) ''strategy-rule-v1'' None r = Inr s"
    by (auto simp: build_deterministic_signal_def bindE_Inr_iff)
  then have "rs_action r = ''BUY''"
    using buy by (auto simp: signal_of_rule_def elim!: make_signal_Inr split: if_splits)
  moreover have "last (momentum_signals bars default_params) = rs_action r"
    by (rule momentum_backed [OF _ _ _ _ _ _ assms(3,4) r]) (simp_all add: runs_on_def default_params_def on_grid_def \<open>rs_action r = ''BUY''\<close>)
  ultimately have "last (momentum_signals bars default_params) = ''BUY''" by simp
  moreover have len: "length (momentum_signals bars default_params) = length bars" by (simp add: momentum_signals_eq default_params_def)
  moreover have "gate_at True (wk_volume_confirm_enabled (we_settings env)) bars (length bars - 1) ''BUY'' = ''BUY''"
    using live_gates_pass [OF bars _ assms(5)] assms(7) sg by blast
  moreover have "momentum_signals bars default_params ! (length bars - 1) = last (momentum_signals bars default_params)"
    using bars len by (metis last_conv_nth length_0_conv)
  ultimately show ?thesis
    using bars by (simp add: apply_gates_eq [OF len] last_map)
qed

text \<open>A flat close that rises by two and gives back one, inside a range that climbs steadily.\<close>

definition demo_climb :: "ohlcv_bar list" where
  "demo_climb = map (\<lambda>(i, c, v). \<lparr>ba_symbol = ''AAPL'', ba_timestamp = 0, ba_open = c, ba_high = 1000 + i, ba_low = i, ba_close = c, ba_volume = v\<rparr>)
     [(0, 100, 100), (1, 100, 100), (2, 100, 100), (3, 100, 100), (4, 100, 100), (5, 100, 100), (6, 100, 100), (7, 100, 100), (8, 100, 100), (9, 100, 100), (10, 100, 100), (11, 100, 100), (12, 100, 100), (13, 100, 100), (14, 100, 100), (15, 100, 100), (16, 100, 100), (17, 100, 100), (18, 100, 100), (19, 100, 100), (20, 100, 100), (21, 100, 100), (22, 100, 100), (23, 100, 100), (24, 100, 100), (25, 100, 100), (26, 100, 100), (27, 100, 100), (28, 100, 100), (29, 100, 100), (30, 100, 100), (31, 100, 100), (32, 100, 100), (33, 100, 100), (34, 100, 100), (35, 100, 100), (36, 100, 100), (37, 100, 100), (38, 100, 100), (39, 100, 100), (40, 100, 100), (41, 100, 100), (42, 100, 100), (43, 100, 100), (44, 100, 100), (45, 100, 100), (46, 100, 100), (47, 100, 100), (48, 100, 100), (49, 102, 100), (50, 101, 200)]"

lemma climb_values:
  "compute_rsi (map ba_close demo_climb) 14 = 65"
  "compute_ema (map ba_close demo_climb) 20 = 44218 / 441" "compute_ema (map ba_close demo_climb) 50 = 42533 / 425"
  "snd (snd (compute_macd (map ba_close demo_climb) 12 26 9)) = 421456 / 3080025"
  "compute_adx (map ba_high demo_climb) (map ba_low demo_climb) (map ba_close demo_climb) 14 = 100"
  by (simp_all add: demo_climb_def compute_rsi_def compute_ema_def compute_macd_def macd_series_def multiplier_of_def ema_run_def Let_def
      wilder_def upt_rec compute_adx_def true_ranges_def plus_dms_def minus_dms_def directional_def dx_step_def mean_of_def)

lemma climb_rounded:
  "py_round 4 65 = 65" "py_round 4 100 = 100" "py_round 4 (44218 / 441) = 1002676 / 10000" "py_round 4 (42533 / 425) = 1000776 / 10000" "py_round 6 (421456 / 3080025) = 136835 / 1000000"
  by code_simp+

definition climb_worker :: worker_env where
  "climb_worker = demo_worker\<lparr>we_settings := demo_worker_settings\<lparr>wk_use_ai := False\<rparr>, we_fetch_bars := (\<lambda>_. Inr demo_climb)\<rparr>"

lemma climb_shape: "demo_climb \<noteq> []" "length demo_climb = 51" "\<forall>b\<in>set demo_climb. 0 < ba_close b"
  by (simp_all add: demo_climb_def)

lemma climb_volume: "\<not> volume_below_average demo_climb"
  by (simp add: volume_below_average_def demo_climb_def)

lemma climb_buys:
  obtains sg where "champion_signal climb_worker ''AAPL'' = Inr sg" and "sg_candidate_action sg = BUY"
proof -
  let ?ta = "build_ta_summary id 0 ''AAPL'' demo_climb ''daily''"
  have snap: "market_snapshot climb_worker ''AAPL'' = (Some ?ta, demo_climb)"
    by (simp add: market_snapshot_def climb_worker_def demo_worker_def demo_worker_settings_def climb_shape)
  let ?r = "rule_verdict ?ta (Some (- 3 / 10)) None (Some demo_climb) 20 50 (Fin 45) (Fin 70) (Fin 0) (ti_ema_20 (ta_indicators ?ta)) (ti_ema_50 (ta_indicators ?ta))"
  have "rs_action ?r = ''BUY''"
    by (simp add: verdict_action_unscored summary_indicators [OF climb_shape(1)] climb_values climb_rounded rule_action_def f_gt_def)
  then obtain s where s: "signal_of_rule ''AAPL'' (upper ''AAPL'') 0 ''strategy-rule-v1'' None ?r = Inr s" and buy: "sg_candidate_action s = BUY"
    using signal_of_verdict [of "''AAPL''" "upper ''AAPL''" 0 "''strategy-rule-v1''" None ?ta "Some (- 3 / 10)" None "Some demo_climb" 20 50 "Fin 45" "Fin 70" "Fin 0"
      "ti_ema_20 (ta_indicators ?ta)" "ti_ema_50 (ta_indicators ?ta)"] by auto
  have "champion_signal climb_worker ''AAPL'' = Inr (apply_entry_gates (we_settings climb_worker) (Some ?ta) demo_climb s)"
    using s by (simp add: champion_signal_def snap) (simp add: climb_worker_def demo_worker_def demo_worker_settings_def build_deterministic_signal_def champion_verdict)
  moreover have "ta_adx ?ta = 100" and "ta_bars_count ?ta = 51"
    by (simp_all add: build_ta_summary_def Let_def case_prod_unfold climb_shape climb_values climb_rounded)
  then have "apply_entry_gates (we_settings climb_worker) (Some ?ta) demo_climb s = s"
    by (simp add: apply_entry_gates_def adx_is_computable_def ADX_PERIOD_def climb_volume)
  ultimately show thesis using that buy by simp
qed

text \<open>
  A score sent as text: the model cannot be reached, the rule would buy, and instead of a candidate the caller gets the
  \<open>TypeError\<close> of the fallback.
\<close>

lemma text_score_breaks_fallback:
  "\<exists>m. generate_signal_ai demo_ai (demo_ai_env\<lparr>ai_answer := Inl (ValueError []), ai_refetch := Inr demo_climb,
     ai_fallback_sentiment := Some (JStr ''0.4'')\<rparr>) ''AAPL'' = Inl (TypeError m)"
proof -
  let ?env = "demo_ai_env\<lparr>ai_answer := Inl (ValueError []), ai_refetch := Inr demo_climb, ai_fallback_sentiment := Some (JStr ''0.4'')\<rparr>"
  let ?ta = "build_ta_summary id 5 ''AAPL'' demo_climb ''unknown''"
  have "do_generate demo_ai ?env ''AAPL'' = Inl (ValueError [])"
    by (simp add: do_generate_def ta_of_fetch_def demo_ai_env_def Let_def)
  moreover have "champion_action ?ta = ''BUY''"
    by (simp add: champion_action_def summary_indicators [OF climb_shape(1)] climb_values climb_rounded rule_action_def f_gt_def)
  then have "score_breaks (Some ?ta) (Some (JStr ''0.4''))" by (simp add: score_breaks_def not_comparable_def)
  note deterministic_breaks [OF this]
  ultimately show ?thesis
    by (simp add: generate_signal_ai_def demo_ai_def) (simp add: ta_of_fetch_def demo_ai_env_def climb_shape)
qed

theorem live_entry_is_backtested_witness:
  "last (apply_gates demo_climb (momentum_signals demo_climb default_params) True True) = ''BUY''"
proof -
  obtain sg where sg: "champion_signal climb_worker ''AAPL'' = Inr sg" "sg_candidate_action sg = BUY" by (rule climb_buys)
  have "wk_volume_confirm_enabled (we_settings climb_worker)" by (simp add: climb_worker_def demo_worker_settings_def)
  then show ?thesis
    using live_entry_is_backtested [OF _ _ climb_shape(3) _ _ sg]
    by (simp add: climb_worker_def demo_worker_def climb_shape momentum_warmup_def MACD_WARMUP_def default_params_def climb_values Let_def)
qed

end
