(* ===== verification/Earnings_Gate.thy ===== *)
theory Earnings_Gate
  imports Prelude
begin

text \<open>
  \<open>services/strategy-service/src/strategy_service/earnings_calendar.py\<close>: the earnings blackout gate with its cache of
  verdicts and its configured failure posture. What the calendar answers (dates as day numbers, or an exception), today's
  date and the monotonic clock are arguments of a call. The list of consultations is a ghost component: it records
  what the calendar was asked and said, and no operation reads it. Log lines are left out.
\<close>

subsection \<open>The gate\<close>

definition SUCCESS_TTL_SECONDS :: rat where
  "SUCCESS_TTL_SECONDS = 21600"

definition FAILURE_TTL_SECONDS :: rat where
  "FAILURE_TTL_SECONDS = 600"

record blackout_check =
  bk_active :: bool
  bk_checked :: bool
  bk_reason :: msg

type_synonym gate_key = "string \<times> int"

record earnings_gate =
  eg_cache :: "gate_key \<rightharpoonup> rat \<times> blackout_check"
  eg_warned_open :: "string list"
  eg_consults :: "(gate_key \<times> rat \<times> int \<times> (exn + int list)) list"

definition reset_earnings_gate :: "earnings_gate \<Rightarrow> earnings_gate" where
  "reset_earnings_gate g = g\<lparr>eg_cache := Map.empty, eg_warned_open := []\<rparr>"

definition gate_fail_closed :: "(string \<Rightarrow> string option) \<Rightarrow> exn + bool" where
  "gate_fail_closed environ =
     (let raw = lower (strip (case environ ''EARNINGS_GATE_FAIL_CLOSED'' of None \<Rightarrow> ''false'' | Some s \<Rightarrow> s)) in
      if raw \<noteq> ''true'' \<and> raw \<noteq> ''false'' then Inl (ValueError [S ''EARNINGS_GATE_FAIL_CLOSED must be 'true' or 'false', got '', J (JStr raw)])
      else Inr (raw = ''true''))"

definition note_recovered :: "string \<Rightarrow> earnings_gate \<Rightarrow> earnings_gate" where
  "note_recovered symbol g = g\<lparr>eg_warned_open := removeAll symbol (eg_warned_open g)\<rparr>"

definition unanswered :: "string \<Rightarrow> exn \<Rightarrow> bool \<Rightarrow> earnings_gate \<Rightarrow> blackout_check \<times> earnings_gate" where
  "unanswered symbol e fail_closed g =
     (if fail_closed
      then (\<lparr>bk_active = True, bk_checked = False, bk_reason = [S ''calendar unreachable, fail-closed: ''] @ exn_text e\<rparr>, g)
      else (\<lparr>bk_active = False, bk_checked = False, bk_reason = [S ''calendar unreachable, failing open: ''] @ exn_text e\<rparr>,
            g\<lparr>eg_warned_open := List.insert symbol (eg_warned_open g)\<rparr>))"

definition consult_calendar ::
  "string \<Rightarrow> int \<Rightarrow> bool \<Rightarrow> int \<Rightarrow> exn + int list \<Rightarrow> earnings_gate \<Rightarrow> blackout_check \<times> earnings_gate" where
  "consult_calendar symbol blackout_days fail_closed today answer g =
     (case answer of
        Inl e \<Rightarrow> unanswered symbol e fail_closed g
      | Inr dates \<Rightarrow>
          (case find (\<lambda>d. \<bar>d - today\<bar> \<le> blackout_days) dates of
             Some d \<Rightarrow> (\<lparr>bk_active = True, bk_checked = True, bk_reason = [S ''earnings '', I d, S '' ('', I \<bar>d - today\<bar>, S ''d away)'']\<rparr>,
                        note_recovered symbol g)
           | None \<Rightarrow> (\<lparr>bk_active = False, bk_checked = True, bk_reason = [S ''no earnings inside the blackout window'']\<rparr>,
                      note_recovered symbol g)))"

definition check_earnings_blackout ::
  "(string \<Rightarrow> string option) \<Rightarrow> string \<Rightarrow> int \<Rightarrow> rat \<Rightarrow> int \<Rightarrow> exn + int list \<Rightarrow> earnings_gate \<Rightarrow> (exn + blackout_check) \<times> earnings_gate" where
  "check_earnings_blackout environ symbol blackout_days now today answer g =
     (case gate_fail_closed environ of
        Inl e \<Rightarrow> (Inl e, g)
      | Inr fail_closed \<Rightarrow>
          (let key = (upper symbol, blackout_days);
               fresh = (let (c, g') = consult_calendar (upper symbol) blackout_days fail_closed today answer g;
                            ttl = (if bk_checked c then SUCCESS_TTL_SECONDS else FAILURE_TTL_SECONDS)
                        in (Inr c, g'\<lparr>eg_cache := (eg_cache g')(key \<mapsto> (now + ttl, c)),
                                       eg_consults := eg_consults g' @ [(key, now, today, answer)]\<rparr>))
           in case eg_cache g key of
                Some (expiry, c) \<Rightarrow> if now < expiry then (Inr c, g) else fresh
              | None \<Rightarrow> fresh))"

definition is_earnings_blackout ::
  "(string \<Rightarrow> string option) \<Rightarrow> string \<Rightarrow> int \<Rightarrow> rat \<Rightarrow> int \<Rightarrow> exn + int list \<Rightarrow> earnings_gate \<Rightarrow> (exn + bool) \<times> earnings_gate" where
  "is_earnings_blackout environ symbol blackout_days now today answer g =
     (case check_earnings_blackout environ symbol blackout_days now today answer g of (r, g') \<Rightarrow> (map_sum id bk_active r, g'))"

subsection \<open>A gate that fails closed\<close>

text \<open>Calls with a clock that does not go back and the posture configured to fail closed.\<close>

inductive gate_step :: "rat \<times> earnings_gate \<Rightarrow> rat \<times> earnings_gate \<Rightarrow> bool" where
  call: "t \<le> now \<Longrightarrow> gate_fail_closed environ = Inr True \<Longrightarrow>
    check_earnings_blackout environ symbol days now today answer g = (res, g') \<Longrightarrow> gate_step (t, g) (now, g')"
| reset: "gate_step (t, g) (t, reset_earnings_gate g)"

definition gate_init :: "rat \<times> earnings_gate \<Rightarrow> bool" where
  "gate_init s = (eg_cache (snd s) = Map.empty)"

text \<open>A verdict that lets entries through was the calendar's own.\<close>

definition clear_answer :: "gate_key \<Rightarrow> rat \<Rightarrow> earnings_gate \<Rightarrow> bool" where
  "clear_answer key t g = (\<exists>today dates. (key, t, today, Inr dates) \<in> set (eg_consults g) \<and> (\<forall>d \<in> set dates. snd key < \<bar>d - today\<bar>))"

definition gate_honest :: "rat \<times> earnings_gate \<Rightarrow> bool" where
  "gate_honest s = (\<forall>key expiry c. eg_cache (snd s) key = Some (expiry, c) \<longrightarrow> \<not> bk_active c \<longrightarrow>
     expiry - SUCCESS_TTL_SECONDS \<le> fst s \<and> clear_answer key (expiry - SUCCESS_TTL_SECONDS) (snd s))"

lemma consult_clear:
  assumes "consult_calendar symbol days True today answer g = (c, g')" and "\<not> bk_active c"
  obtains dates where "answer = Inr dates" and "\<forall>d \<in> set dates. days < \<bar>d - today\<bar>" and "bk_checked c"
  using assms by (auto simp: consult_calendar_def unanswered_def find_None_iff not_le split: sum.splits option.splits)

lemma consult_keeps:
  "consult_calendar symbol days fc today answer g = (c, g') \<Longrightarrow> eg_cache g' = eg_cache g \<and> eg_consults g' = eg_consults g"
  by (auto simp: consult_calendar_def unanswered_def note_recovered_def split: sum.splits option.splits if_splits)

lemma check_honest:
  assumes "gate_honest (t, g)" and "t \<le> now" and "gate_fail_closed environ = Inr True"
    and "check_earnings_blackout environ symbol days now today answer g = (res, g')"
  shows "gate_honest (now, g') \<and> (\<forall>c. res = Inr c \<and> \<not> bk_active c \<longrightarrow>
           (\<exists>asked. asked \<le> now \<and> now < asked + SUCCESS_TTL_SECONDS \<and> clear_answer (upper symbol, days) asked g'))"
proof -
  let ?key = "(upper symbol, days)"
  obtain c1 g1 where consult: "consult_calendar (upper symbol) days True today answer g = (c1, g1)" by (rule prod.exhaust)
  consider (hit) expiry c where "eg_cache g ?key = Some (expiry, c)" "now < expiry" "res = Inr c" "g' = g"
    | (fresh) "res = Inr c1" "g' = g1\<lparr>eg_cache := (eg_cache g1)(?key \<mapsto> (now + (if bk_checked c1 then SUCCESS_TTL_SECONDS else FAILURE_TTL_SECONDS), c1)),
        eg_consults := eg_consults g1 @ [(?key, now, today, answer)]\<rparr>"
    using assms(3,4) consult by (auto simp: check_earnings_blackout_def Let_def split: option.splits if_splits)
  then show ?thesis
  proof cases
    case hit
    with assms(1,2) show ?thesis
      by (fastforce simp: gate_honest_def intro: exI [of _ "expiry - SUCCESS_TTL_SECONDS"])
  next
    case fresh
    have old: "clear_answer key x g'" if "clear_answer key x g" for key x
      using that consult_keeps [OF consult] fresh(2) by (auto simp: clear_answer_def)
    have new: "clear_answer ?key now g' \<and> bk_checked c1" if "\<not> bk_active c1"
      using consult that by (rule consult_clear) (auto simp: clear_answer_def fresh(2))
    have "gate_honest (now, g')"
      unfolding gate_honest_def
    proof (intro allI impI)
      fix key expiry c
      assume c: "eg_cache (snd (now, g')) key = Some (expiry, c)" "\<not> bk_active c"
      show "expiry - SUCCESS_TTL_SECONDS \<le> fst (now, g') \<and> clear_answer key (expiry - SUCCESS_TTL_SECONDS) (snd (now, g'))"
      proof (cases "key = ?key")
        case True
        with c new fresh(2) show ?thesis by auto
      next
        case False
        with c fresh(2) consult_keeps [OF consult] have "eg_cache g key = Some (expiry, c)" by auto
        with assms(1) c(2) have "expiry - SUCCESS_TTL_SECONDS \<le> t \<and> clear_answer key (expiry - SUCCESS_TTL_SECONDS) g"
          unfolding gate_honest_def by (cases key) simp
        with assms(2) old show ?thesis by auto
      qed
    qed
    moreover have "0 < SUCCESS_TTL_SECONDS" by (simp add: SUCCESS_TTL_SECONDS_def)
    ultimately show ?thesis using new fresh(1) by (auto intro!: exI [of _ now])
  qed
qed

interpretation gate: invariant_system gate_init gate_step gate_honest
proof unfold_locales
  show "gate_honest s" if "gate_init s" for s using that by (simp add: gate_init_def gate_honest_def)
  show "gate_honest t" if "gate_honest s" and "gate_step s t" for s t
    using that(2,1)
  proof cases
    case (call u now environ symbol days today answer g res g')
    with that(1) check_honest show ?thesis by blast
  next
    case (reset u g)
    then show ?thesis by (simp add: gate_honest_def reset_earnings_gate_def)
  qed
qed

text \<open>
  C30: A gate configured to fail closed never lets an entry through on silence. After any sequence of calls with a
  clock that does not go back, a verdict that is not a blackout means that the calendar itself was asked for this
  symbol and window within the last six hours, answered, and named no date inside the window; outages, cached
  failures and resets never produce one.
\<close>

theorem fail_closed_gate_is_honest:
  assumes "reach gate_init gate_step (t, g)" and "t \<le> now" and "gate_fail_closed environ = Inr True"
    and "check_earnings_blackout environ symbol days now today answer g = (Inr c, g')" and "\<not> bk_active c"
  shows "\<exists>asked. asked \<le> now \<and> now < asked + SUCCESS_TTL_SECONDS \<and> clear_answer (upper symbol, days) asked g'"
  using check_honest [OF gate.reach_inv [OF assms(1)] assms(2-4)] assms(5) by blast

definition closed_env :: "string \<Rightarrow> string option" where
  "closed_env v = (if v = ''EARNINGS_GATE_FAIL_CLOSED'' then Some '' True '' else None)"

definition empty_gate :: earnings_gate where
  "empty_gate = \<lparr>eg_cache = Map.empty, eg_warned_open = [], eg_consults = []\<rparr>"

text \<open>Asked once; an hour later the calendar is down and the cached answer stands.\<close>

definition asked_gate :: earnings_gate where
  "asked_gate = snd (check_earnings_blackout closed_env ''aapl'' 2 10 100 (Inr [103, 190]) empty_gate)"

theorem fail_closed_gate_is_honest_witness:
  "map_sum id bk_active (fst (check_earnings_blackout closed_env ''AAPL'' 2 3610 100 (Inl (DatabaseError ''down'')) asked_gate)) = Inr False \<and>
   (\<exists>asked. asked \<le> 3610 \<and> 3610 < asked + SUCCESS_TTL_SECONDS \<and> clear_answer (''AAPL'', 2) asked asked_gate)"
proof -
  let ?call = "check_earnings_blackout closed_env ''AAPL'' 2 3610 100 (Inl (DatabaseError ''down'')) asked_gate"
  have env: "gate_fail_closed closed_env = Inr True" by code_simp
  have up: "upper ''AAPL'' = ''AAPL''" "upper ''aapl'' = ''AAPL''" by code_simp+
  have out: "map_sum id bk_active (fst ?call) = Inr False" by code_simp
  have same: "snd ?call = asked_gate"
    by (simp add: asked_gate_def check_earnings_blackout_def env Let_def case_prod_unfold up consult_calendar_def note_recovered_def
        empty_gate_def SUCCESS_TTL_SECONDS_def)
  have "reach gate_init gate_step (0, empty_gate)" by (rule reach_init) (simp add: gate_init_def empty_gate_def)
  then have r: "reach gate_init gate_step (10, asked_gate)"
    by (rule reach_step) (rule call [of 0 10 closed_env "''aapl''" 2 100 "Inr [103, 190]" empty_gate, OF _ env], simp,
        simp add: asked_gate_def prod_eq_iff)
  from out obtain c where c: "fst ?call = Inr c" "\<not> bk_active c" by (cases "fst ?call") auto
  with same have "?call = (Inr c, asked_gate)" by (simp add: prod_eq_iff)
  from fail_closed_gate_is_honest [OF r _ env this c(2)] out show ?thesis by (simp add: up)
qed

text \<open>With the shipped posture the same silence is an open gate.\<close>

lemma default_gate_fails_open:
  "map_sum id (\<lambda>c. (bk_active c, bk_checked c)) (fst (check_earnings_blackout (\<lambda>_. None) ''AAPL'' 2 10 100 (Inl (DatabaseError ''down'')) empty_gate))
     = Inr (False, False)"
  by code_simp

end
