(* ===== verification/Archive.thy ===== *)
theory Archive
  imports Health Execution_Journal Risk_Monitors Risk_Engine
begin

text \<open>
  The point-in-time archive of \<open>libs/journal/src/journal/store.py\<close> and its tables in \<open>models.py\<close>: bars, prices,
  sentiment, headlines, research and decisions, the writes that append to them and the reads that answer "what did
  this system know at a moment". A table is the list of its rows in insertion order; rows that an \<open>ORDER BY\<close> does not
  tell apart keep that order. Whether SQLite answers is an argument, as the code swallows every failure; the digest of
  a bar's values, the clock and fresh identifiers are arguments.
\<close>

subsection \<open>Tables\<close>

record archived_bar = bar_observation +
  ab_open :: rat
  ab_high :: rat
  ab_low :: rat
  ab_close :: rat
  ab_volume :: rat
  ab_source :: string
  ab_recorded_at :: instant
  ab_observed_at :: instant
  ab_payload_hash :: string
  ab_revision :: nat
  ab_provider_meta :: jdict

record price_observation =
  po_symbol :: string
  po_price :: rat
  po_price_ts :: instant
  po_observed_at :: instant
  po_age_seconds :: rat
  po_source :: string
  po_accepted :: bool

record sentiment_observation =
  so_symbol :: string
  so_score :: rat
  so_confidence :: rat
  so_sources :: string
  so_observed_at :: instant

record headline_observation =
  ho_symbol :: string
  ho_headline :: string
  ho_source :: string
  ho_published_at :: "instant option"
  ho_observed_at :: instant

text \<open>
  The risk factors are a JSON text cut at 4000 characters; \<open>None\<close> is a text that was cut, which \<open>json.loads\<close> refuses.
\<close>

record research_observation =
  ro_symbol :: string
  ro_sentiment :: string
  ro_headline_summary :: string
  ro_risk_factors :: "string list option"
  ro_confidence_modifier :: rat
  ro_model_version :: string
  ro_generated_at :: instant
  ro_observed_at :: instant

record decision =
  dn_decision_id :: string
  dn_correlation_id :: string
  dn_ts :: instant
  dn_symbol :: string
  dn_stage :: string
  dn_action :: string
  dn_outcome :: string
  dn_reason :: string
  dn_inputs :: jdict
  dn_outputs :: jdict

record archive =
  pa_enabled :: bool
  pa_bars :: "archived_bar list"
  pa_prices :: "price_observation list"
  pa_sentiment :: "sentiment_observation list"
  pa_headlines :: "headline_observation list"
  pa_research :: "research_observation list"
  pa_decisions :: "decision list"

subsection \<open>Writes\<close>

definition record_decision ::
  "bool \<Rightarrow> string \<Rightarrow> instant \<Rightarrow> string \<Rightarrow> string \<Rightarrow> string \<Rightarrow> string \<Rightarrow> string \<Rightarrow> jdict \<Rightarrow> jdict \<Rightarrow> string \<Rightarrow> instant option
     \<Rightarrow> archive \<Rightarrow> string \<times> archive" where
  "record_decision write_ok fresh now stage outcome symbol action reason inputs outputs correlation_id ts a =
     (fresh,
      if \<not> pa_enabled a \<or> \<not> write_ok then a
      else a\<lparr>pa_decisions := pa_decisions a @
        [\<lparr>dn_decision_id = fresh, dn_correlation_id = (if correlation_id = [] then fresh else correlation_id),
          dn_ts = (case ts of None \<Rightarrow> now | Some t \<Rightarrow> t), dn_symbol = upper symbol, dn_stage = stage, dn_action = action,
          dn_outcome = outcome, dn_reason = take 2000 reason, dn_inputs = inputs, dn_outputs = outputs\<rparr>]\<rparr>)"

text \<open>
  A bar as a provider hands it over: its market time when it has one, its four prices when \<open>float\<close> accepts them, and its
  volume.
\<close>

record raw_bar =
  rb_timestamp :: "instant option"
  rb_prices :: "(rat \<times> rat \<times> rat \<times> rat) option"
  rb_volume :: "rat option"

definition bar_row ::
  "(rat list \<Rightarrow> string) \<Rightarrow> instant \<Rightarrow> string \<Rightarrow> string \<Rightarrow> string \<Rightarrow> jdict \<Rightarrow> raw_bar \<Rightarrow> archived_bar option" where
  "bar_row digest now symbol timeframe source meta b =
     (case (rb_timestamp b, rb_prices b) of
        (Some ts, Some (op, hi, lo, cl)) \<Rightarrow>
          (let vol = (case rb_volume b of None \<Rightarrow> 0 | Some v \<Rightarrow> v) in
           Some \<lparr>bo_symbol = upper symbol, bo_timeframe = timeframe, bo_ts = ts, ab_open = op, ab_high = hi, ab_low = lo,
                 ab_close = cl, ab_volume = vol, ab_source = source, ab_recorded_at = now, ab_observed_at = now,
                 ab_payload_hash = digest [op, hi, lo, cl, vol], ab_revision = 0, ab_provider_meta = meta\<rparr>)
      | _ \<Rightarrow> None)"

definition same_bar :: "archived_bar \<Rightarrow> archived_bar \<Rightarrow> bool" where
  "same_bar r x = (bo_symbol x = bo_symbol r \<and> bo_timeframe x = bo_timeframe r \<and> bo_ts x = bo_ts r)"

text \<open>The unique constraint \<open>uq_bar_observation\<close>.\<close>

definition same_observation :: "archived_bar \<Rightarrow> archived_bar \<Rightarrow> bool" where
  "same_observation r x = (same_bar r x \<and> ab_payload_hash x = ab_payload_hash r)"

text \<open>A failed count leaves the numbers at 0.\<close>

definition number_revisions :: "bool \<Rightarrow> archived_bar list \<Rightarrow> archived_bar list \<Rightarrow> archived_bar list" where
  "number_revisions read_ok stored rows =
     (if read_ok then map (\<lambda>r. r\<lparr>ab_revision := length (filter (same_bar r) stored)\<rparr>) rows else rows)"

definition insert_observation :: "archived_bar \<Rightarrow> archived_bar list \<Rightarrow> archived_bar list" where
  "insert_observation r stored = (if list_ex (same_observation r) stored then stored else stored @ [r])"

definition insert_ignoring_duplicates :: "bool \<Rightarrow> archived_bar list \<Rightarrow> archive \<Rightarrow> nat \<times> archive" where
  "insert_ignoring_duplicates write_ok rows a =
     (if \<not> pa_enabled a \<or> \<not> write_ok then (0, a)
      else (let stored = fold insert_observation rows (pa_bars a)
            in (length stored - length (pa_bars a), a\<lparr>pa_bars := stored\<rparr>)))"

record bar_io =
  io_decision :: bool
  io_count :: bool
  io_write :: bool

definition record_rejected_bars :: "bool \<Rightarrow> string \<Rightarrow> instant \<Rightarrow> string \<Rightarrow> string \<Rightarrow> nat \<Rightarrow> archive \<Rightarrow> archive" where
  "record_rejected_bars write_ok fresh now symbol timeframe n a =
     snd (record_decision write_ok fresh now ''data_quality'' ''bars_rejected'' symbol [] ''missing_or_invalid_market_timestamp''
       [(''timeframe'', JStr timeframe), (''rejected'', JInt (int n))] [] [] None a)"

definition record_bars ::
  "(rat list \<Rightarrow> string) \<Rightarrow> bar_io \<Rightarrow> string \<Rightarrow> instant \<Rightarrow> string \<Rightarrow> string \<Rightarrow> raw_bar list \<Rightarrow> string \<Rightarrow> jdict \<Rightarrow> archive \<Rightarrow> nat \<times> archive" where
  "record_bars digest io fresh now symbol timeframe bars source meta a =
     (if \<not> pa_enabled a \<or> bars = [] then (0, a)
      else
        (let rows = List.map_filter (bar_row digest now symbol timeframe source meta) bars;
             rejected = length bars - length rows;
             a1 = (if rejected = 0 then a else record_rejected_bars (io_decision io) fresh now symbol timeframe rejected a)
         in if rows = [] then (0, a1)
            else insert_ignoring_duplicates (io_write io) (number_revisions (io_count io) (pa_bars a1) rows) a1))"

definition record_price ::
  "bool \<Rightarrow> instant \<Rightarrow> string \<Rightarrow> rat \<Rightarrow> instant option \<Rightarrow> string \<Rightarrow> bool \<Rightarrow> archive \<Rightarrow> archive" where
  "record_price write_ok now symbol price price_ts source took a =
     (if \<not> pa_enabled a \<or> \<not> write_ok then a
      else (let stamp = (case price_ts of None \<Rightarrow> now | Some t \<Rightarrow> t) in
            a\<lparr>pa_prices := pa_prices a @
              [\<lparr>po_symbol = upper symbol, po_price = price, po_price_ts = stamp, po_observed_at = now,
                po_age_seconds = max 0 (total_seconds (now - stamp)), po_source = source, po_accepted = took\<rparr>]\<rparr>))"

definition record_sentiment ::
  "bool \<Rightarrow> instant \<Rightarrow> string \<Rightarrow> rat \<Rightarrow> rat \<Rightarrow> string list \<Rightarrow> archive \<Rightarrow> archive" where
  "record_sentiment write_ok now symbol score confidence sources a =
     (if \<not> pa_enabled a \<or> \<not> write_ok then a
      else a\<lparr>pa_sentiment := pa_sentiment a @
        [\<lparr>so_symbol = upper symbol, so_score = score, so_confidence = confidence, so_sources = take 256 (comma_join sources), so_observed_at = now\<rparr>]\<rparr>)"

text \<open>One insert per headline; an empty text is skipped. \<open>write_ok\<close> answers for each insert.\<close>

fun record_headlines ::
  "(nat \<Rightarrow> bool) \<Rightarrow> instant \<Rightarrow> string \<Rightarrow> (string \<times> instant option) list \<Rightarrow> string \<Rightarrow> archive \<Rightarrow> archive" where
  "record_headlines write_ok now symbol [] source a = a"
| "record_headlines write_ok now symbol ((headline, published) # items) source a =
     (let body = strip headline;
          a1 = (if \<not> pa_enabled a \<or> body = [] \<or> \<not> write_ok (length items) then a
                else a\<lparr>pa_headlines := pa_headlines a @
                  [\<lparr>ho_symbol = upper symbol, ho_headline = take 1000 body, ho_source = take 32 source,
                    ho_published_at = published, ho_observed_at = now\<rparr>]\<rparr>)
      in record_headlines write_ok now symbol items source a1)"

text \<open>\<open>json.dumps\<close> of a list of strings with its default separators.\<close>

definition json_list_text :: "string list \<Rightarrow> string" where
  "json_list_text ss = CHR ''['' # comma_join (case map json_string ss of [] \<Rightarrow> [] | s # rest \<Rightarrow> s # map (Cons (CHR '' '')) rest) @ [CHR '']'']"

definition record_research ::
  "bool \<Rightarrow> instant \<Rightarrow> string \<Rightarrow> string \<Rightarrow> string \<Rightarrow> string list \<Rightarrow> rat \<Rightarrow> string \<Rightarrow> instant option \<Rightarrow> archive \<Rightarrow> archive" where
  "record_research write_ok now symbol sentiment summary risks modifier version generated_at a =
     (if \<not> pa_enabled a \<or> \<not> write_ok then a
      else a\<lparr>pa_research := pa_research a @
        [\<lparr>ro_symbol = upper symbol, ro_sentiment = take 16 sentiment, ro_headline_summary = take 4000 summary,
          ro_risk_factors = (if length (json_list_text risks) \<le> 4000 then Some risks else None), ro_confidence_modifier = modifier, ro_model_version = take 64 version,
          ro_generated_at = (case generated_at of None \<Rightarrow> now | Some t \<Rightarrow> t), ro_observed_at = now\<rparr>]\<rparr>)"

subsection \<open>Reads\<close>

text \<open>\<open>xs[-limit:]\<close>; a limit of 0 is the whole list.\<close>

definition last_slice :: "nat \<Rightarrow> 'a list \<Rightarrow> 'a list" where
  "last_slice limit xs = (if limit = 0 then xs else drop (length xs - limit) xs)"

text \<open>The first row of each market time, in order of appearance: the dictionary \<open>latest\<close>.\<close>

definition keep_first :: "archived_bar \<Rightarrow> archived_bar list \<Rightarrow> archived_bar list" where
  "keep_first r latest = (if bo_ts r \<in> set (map bo_ts latest) then latest else latest @ [r])"

definition known_bars :: "string \<Rightarrow> string \<Rightarrow> instant \<Rightarrow> archived_bar list \<Rightarrow> archived_bar list" where
  "known_bars symbol timeframe cutoff rows =
     filter (\<lambda>r. bo_symbol r = upper symbol \<and> bo_timeframe r = timeframe \<and> ab_observed_at r \<le> cutoff) rows"

definition bars_as_of :: "bool \<Rightarrow> string \<Rightarrow> string \<Rightarrow> instant \<Rightarrow> nat \<Rightarrow> archive \<Rightarrow> archived_bar list" where
  "bars_as_of read_ok symbol timeframe as_of limit a =
     (if \<not> pa_enabled a \<or> \<not> read_ok then []
      else (let rows = sort_key (\<lambda>r. (- bo_ts r, - ab_observed_at r)) (known_bars symbol timeframe as_of (pa_bars a));
                latest = fold keep_first rows []
            in last_slice limit (sort_key bo_ts latest)))"

definition bar_revisions :: "bool \<Rightarrow> string \<Rightarrow> string \<Rightarrow> instant \<Rightarrow> archive \<Rightarrow> archived_bar list" where
  "bar_revisions read_ok symbol timeframe ts a =
     (if \<not> pa_enabled a \<or> \<not> read_ok then []
      else sort_key ab_observed_at (filter (\<lambda>r. bo_symbol r = upper symbol \<and> bo_timeframe r = timeframe \<and> bo_ts r = ts) (pa_bars a)))"

text \<open>
  The shape the three windowed reads share: rows of a symbol seen inside the window, newest first, cut at the limit,
  then turned round.
\<close>

definition newest :: "('r \<Rightarrow> instant) \<Rightarrow> nat \<Rightarrow> 'r list \<Rightarrow> 'r list" where
  "newest stamp limit rows = rev (take limit (sort_key (\<lambda>r. - stamp r) rows))"

definition day_us :: int where
  "day_us = 86400000000"

text \<open>Each row with its sources as the reader gets them, split again at the commas.\<close>

definition sources_of :: "sentiment_observation \<Rightarrow> string list" where
  "sources_of r = filter (\<lambda>s. s \<noteq> []) (split_on (CHR '','') (so_sources r))"

definition sentiment_as_of ::
  "bool \<Rightarrow> string \<Rightarrow> instant \<Rightarrow> int \<Rightarrow> nat \<Rightarrow> archive \<Rightarrow> (sentiment_observation \<times> string list) list" where
  "sentiment_as_of read_ok symbol as_of window_days limit a =
     (if \<not> pa_enabled a \<or> \<not> read_ok then []
      else map (\<lambda>r. (r, sources_of r))
             (newest so_observed_at limit (filter (\<lambda>r. so_symbol r = upper symbol \<and> so_observed_at r \<le> as_of \<and>
               as_of - window_days * day_us \<le> so_observed_at r) (pa_sentiment a))))"

definition headlines_as_of :: "bool \<Rightarrow> string \<Rightarrow> instant \<Rightarrow> int \<Rightarrow> nat \<Rightarrow> archive \<Rightarrow> headline_observation list" where
  "headlines_as_of read_ok symbol as_of window_days limit a =
     (if \<not> pa_enabled a \<or> \<not> read_ok then []
      else newest ho_observed_at limit (filter (\<lambda>r. ho_symbol r = upper symbol \<and> ho_observed_at r \<le> as_of \<and>
             as_of - window_days * day_us \<le> ho_observed_at r) (pa_headlines a)))"

definition research_as_of :: "bool \<Rightarrow> string \<Rightarrow> instant \<Rightarrow> int \<Rightarrow> nat \<Rightarrow> archive \<Rightarrow> research_observation list" where
  "research_as_of read_ok symbol as_of window_days limit a =
     (if \<not> pa_enabled a \<or> \<not> read_ok then []
      else (let rows = newest ro_observed_at limit (filter (\<lambda>r. ro_symbol r = upper symbol \<and> ro_observed_at r \<le> as_of \<and>
                         as_of - window_days * day_us \<le> ro_observed_at r) (pa_research a))
            in if list_ex (\<lambda>r. ro_risk_factors r = None) rows then [] else rows))"

definition decisions_as_of ::
  "bool \<Rightarrow> instant \<Rightarrow> string option \<Rightarrow> string option \<Rightarrow> instant option \<Rightarrow> nat \<Rightarrow> archive \<Rightarrow> decision list" where
  "decisions_as_of read_ok as_of symbol stage window_start limit a =
     (if \<not> pa_enabled a \<or> \<not> read_ok then []
      else take limit (sort_key dn_ts (filter (\<lambda>r. dn_ts r \<le> as_of \<and> wanted symbol (\<lambda>s. dn_symbol r = upper s) \<and>
             wanted stage (\<lambda>s. dn_stage r = s) \<and> wanted window_start (\<lambda>t. t \<le> dn_ts r)) (pa_decisions a))))"

definition recent_decisions :: "bool \<Rightarrow> nat \<Rightarrow> string option \<Rightarrow> archive \<Rightarrow> decision list" where
  "recent_decisions read_ok limit symbol a =
     (if \<not> pa_enabled a \<or> \<not> read_ok then []
      else take limit (sort_key (\<lambda>r. - dn_ts r)
             (filter (\<lambda>r. wanted symbol (\<lambda>s. s = [] \<or> dn_symbol r = upper s)) (pa_decisions a))))"

definition bar_timeframes :: "bool \<Rightarrow> string \<Rightarrow> archive \<Rightarrow> (string \<times> nat) list" where
  "bar_timeframes read_ok symbol a =
     (if \<not> pa_enabled a \<or> \<not> read_ok then []
      else (let rows = filter (\<lambda>r. bo_symbol r = upper symbol) (pa_bars a)
            in map (\<lambda>tf. (tf, length (filter (\<lambda>r. bo_timeframe r = tf) rows))) (remdups (map bo_timeframe rows))))"

subsection \<open>Execution figures of one scope\<close>

text \<open>The counts of cancelled and rejected orders are left out: no caller of \<open>record_execution\<close> sets these columns.\<close>

record execution_metrics =
  em_orders :: nat
  em_fills :: nat
  em_misses :: nat
  em_partial_fills :: nat
  em_execution_cash_effect :: rat
  em_fees :: rat
  em_mean_shortfall_bps :: "rat option"
  em_worst_shortfall_bps :: "rat option"
  em_fill_rate :: "rat option"
  em_first_at :: "instant option"
  em_last_at :: "instant option"

definition in_scope :: "string \<Rightarrow> string \<Rightarrow> string \<Rightarrow> string \<Rightarrow> string option \<Rightarrow> instant option \<Rightarrow> instant option \<Rightarrow> execution_quality \<Rightarrow> bool" where
  "in_scope strategy_id symbol venue account_id strategy_version window_start window_end r =
     (eq_strategy_id r = strategy_id \<and> eq_symbol r = upper symbol \<and> eq_environment r = venue \<and> eq_account_id r = account_id \<and>
      wanted strategy_version (\<lambda>v. eq_strategy_version r = v) \<and> wanted window_start (\<lambda>t. t \<le> eq_recorded_at r) \<and>
      wanted window_end (\<lambda>t. eq_recorded_at r \<le> t))"

text \<open>The cash a fill cost against the price it was decided at; zero prices and quantities are falsy.\<close>

definition cash_effect :: "execution_quality \<Rightarrow> rat" where
  "cash_effect r =
     (case (eq_decision_price r, eq_fill_price r) of
        (Some d, Some f) \<Rightarrow>
          if d = 0 \<or> f = 0 then 0
          else (if upper (eq_side r) = ''SELL'' then 1 else - 1) * (f - d) * (if eq_filled_qty r \<noteq> 0 then eq_filled_qty r else eq_qty r)
      | _ \<Rightarrow> 0)"

definition figures_of :: "execution_quality list \<Rightarrow> execution_metrics" where
  "figures_of rows =
     (let fills = filter eq_filled rows; shortfalls = List.map_filter eq_shortfall_bps rows; stamps = map eq_recorded_at rows in
      \<lparr>em_orders = length rows, em_fills = length fills, em_misses = length rows - length fills,
       em_partial_fills = length (filter (\<lambda>r. eq_filled_qty r \<noteq> 0 \<and> eq_qty r \<noteq> 0 \<and> eq_filled_qty r < eq_qty r) fills),
       em_execution_cash_effect = py_round 4 (sum_list (map cash_effect fills)), em_fees = py_round 4 (sum_list (map eq_fees rows)),
       em_mean_shortfall_bps = (if shortfalls = [] then None else Some (py_round 4 (sum_list shortfalls / of_nat (length shortfalls)))),
       em_worst_shortfall_bps = (if shortfalls = [] then None else Some (py_round 4 (Max (set shortfalls)))),
       em_fill_rate = (if rows = [] then None else Some (py_round 4 (of_nat (length fills) / of_nat (length rows)))),
       em_first_at = (if rows = [] then None else Some (Min (set stamps))), em_last_at = (if rows = [] then None else Some (Max (set stamps)))\<rparr>)"

definition scoped_execution_metrics ::
  "exn option \<Rightarrow> string \<Rightarrow> string \<Rightarrow> string \<Rightarrow> string \<Rightarrow> string option \<Rightarrow> instant option \<Rightarrow> instant option \<Rightarrow> journal \<Rightarrow> msg + execution_metrics" where
  "scoped_execution_metrics failure strategy_id symbol venue account_id strategy_version window_start window_end j =
     (if \<not> jn_enabled j then Inl [S ''journal_disabled'']
      else (case failure of
              Some e \<Rightarrow> Inl (exn_text e)
            | None \<Rightarrow> Inr (figures_of (filter (in_scope strategy_id symbol venue account_id strategy_version window_start window_end) (jn_executions j)))))"

text \<open>
  An order filed under another strategy, symbol, environment or account never enters the figures of a scope, so paper
  fills cannot support a live figure nor one sleeve another.
\<close>

lemma metrics_stay_in_scope:
  assumes "\<not> in_scope st sy en acc v since til (execution_row_of now rep)"
  shows "scoped_execution_metrics f st sy en acc v since til (snd (record_execution now ok rep j)) = scoped_execution_metrics f st sy en acc v since til j"
  using assms by (simp add: scoped_execution_metrics_def record_execution_def Let_def split: option.splits)

lemma metrics_consistent:
  assumes "scoped_execution_metrics f st sy en acc v since til j = Inr m"
  shows "em_fills m + em_misses m = em_orders m" and "em_partial_fills m \<le> em_fills m"
proof -
  from assms obtain rows where m: "m = figures_of rows" by (auto simp: scoped_execution_metrics_def split: if_splits option.splits)
  show "em_fills m + em_misses m = em_orders m" by (simp add: m figures_of_def Let_def)
  show "em_partial_fills m \<le> em_fills m"
    by (simp only: m figures_of_def Let_def execution_metrics.select_convs length_filter_le)
qed

subsection \<open>The past does not change\<close>

text \<open>
  The contract of an append-only table: a write made at a moment only adds rows, and stamps them with that moment.
\<close>

locale append_only =
  fixes rows :: "'s \<Rightarrow> 'r list"
    and stamp :: "'r \<Rightarrow> instant"
    and wrote :: "instant \<Rightarrow> 's \<Rightarrow> 's \<Rightarrow> bool"
  assumes appends: "wrote now s t \<Longrightarrow> \<exists>new. rows t = rows s @ new \<and> (\<forall>r \<in> set new. stamp r = now)"
begin

lemma past_fixed1:
  assumes "wrote now s t" and "cutoff < now"
  shows "filter (\<lambda>r. P r \<and> stamp r \<le> cutoff) (rows t) = filter (\<lambda>r. P r \<and> stamp r \<le> cutoff) (rows s)"
  using appends [OF assms(1)] assms(2) by (auto simp: filter_empty_conv)

lemma past_fixed:
  assumes "(\<lambda>s t. \<exists>now. cutoff < now \<and> wrote now s t)\<^sup>*\<^sup>* s t"
  shows "filter (\<lambda>r. P r \<and> stamp r \<le> cutoff) (rows t) = filter (\<lambda>r. P r \<and> stamp r \<le> cutoff) (rows s)"
  using assms by (induction rule: rtranclp_induct) (simp, metis past_fixed1)

lemma stamps_grow:
  assumes "wrote now s t" and "\<forall>r \<in> set (rows s). stamp r \<le> now"
  shows "\<forall>r \<in> set (rows t). stamp r \<le> now"
  using appends [OF assms(1)] assms(2) by auto

end

text \<open>
  Everything the program does to the archive. A decision is filed under the moment it is recorded: no caller in the
  repository passes \<open>ts\<close>.
\<close>

inductive archive_write :: "instant \<Rightarrow> archive \<Rightarrow> archive \<Rightarrow> bool" where
  bars: "archive_write now a (snd (record_bars digest io fresh now symbol timeframe bs source meta a))"
| price: "archive_write now a (record_price ok now symbol p ts source took a)"
| sentiment: "archive_write now a (record_sentiment ok now symbol score confidence sources a)"
| headlines: "archive_write now a (record_headlines oks now symbol items source a)"
| research: "archive_write now a (record_research ok now symbol tone summary risks modifier version generated a)"
| decision: "archive_write now a (snd (record_decision ok fresh now stage outcome symbol action reason inputs outputs correlation None a))"

text \<open>How a write extends each table; the remaining tables and the switch are untouched.\<close>

definition extends :: "('r \<Rightarrow> instant) \<Rightarrow> instant \<Rightarrow> 'r list \<Rightarrow> 'r list \<Rightarrow> bool" where
  "extends stamp now xs ys = (\<exists>new. ys = xs @ new \<and> (\<forall>r \<in> set new. stamp r = now))"

lemma extends_refl [simp]: "extends stamp now xs xs"
  by (simp add: extends_def)

lemma extends_snoc [simp]: "extends stamp now xs (xs @ [r]) \<longleftrightarrow> stamp r = now"
  by (simp add: extends_def)

lemma extends_trans: "extends stamp now xs ys \<Longrightarrow> extends stamp now ys zs \<Longrightarrow> extends stamp now xs zs"
  by (force simp: extends_def)

lemma inserted_extends:
  "\<forall>r \<in> set rows. ab_observed_at r = now \<Longrightarrow> extends ab_observed_at now stored (fold insert_observation rows stored)"
proof (induction rows arbitrary: stored)
  case (Cons r rows)
  then have "extends ab_observed_at now stored (insert_observation r stored)" by (simp add: insert_observation_def)
  with Cons show ?case using extends_trans by fastforce
qed simp

lemma bar_row_stamp: "bar_row digest now symbol tf source meta b = Some r \<Longrightarrow> ab_observed_at r = now"
  by (auto simp: bar_row_def Let_def split: option.splits prod.splits)

lemma new_rows_stamp:
  "\<forall>r \<in> set (number_revisions ok stored (List.map_filter (bar_row digest now symbol tf source meta) bs)). ab_observed_at r = now"
  by (auto simp: number_revisions_def map_filter_def bar_row_stamp)

lemma headlines_write:
  "\<exists>hs. record_headlines oks now symbol items source a = a\<lparr>pa_headlines := hs\<rparr> \<and> extends ho_observed_at now (pa_headlines a) hs"
proof (induction oks now symbol items source a rule: record_headlines.induct)
  case (1 oks now symbol source a)
  show ?case by (rule exI [of _ "pa_headlines a"]) simp
next
  case (2 oks now symbol headline published items source a)
  show ?case
  proof (cases "\<not> pa_enabled a \<or> strip headline = [] \<or> \<not> oks (length items)")
    case True
    with 2 [OF refl refl] show ?thesis by (simp add: Let_def)
  next
    case False
    with 2 [OF refl refl] obtain hs where "record_headlines oks now symbol ((headline, published) # items) source a = a\<lparr>pa_headlines := hs\<rparr>"
      and "extends ho_observed_at now (pa_headlines a @ [\<lparr>ho_symbol = upper symbol, ho_headline = take 1000 (strip headline),
             ho_source = take 32 source, ho_published_at = published, ho_observed_at = now\<rparr>]) hs"
      by (auto simp: Let_def)
    then show ?thesis by (intro exI [of _ hs]) (auto intro: extends_trans [rotated])
  qed
qed

lemma decision_write:
  "\<exists>ds. snd (record_decision ok fresh now stage outcome symbol action reason inputs outputs correlation None a) = a\<lparr>pa_decisions := ds\<rparr> \<and>
     extends dn_ts now (pa_decisions a) ds"
  by (rule exI [of _ "pa_decisions (snd (record_decision ok fresh now stage outcome symbol action reason inputs outputs correlation None a))"])
    (simp add: record_decision_def)

lemma rejected_write:
  "\<exists>ds. record_rejected_bars ok fresh now symbol tf n a = a\<lparr>pa_decisions := ds\<rparr> \<and> extends dn_ts now (pa_decisions a) ds"
  unfolding record_rejected_bars_def by (rule decision_write)

lemma insert_write:
  assumes "\<forall>r \<in> set rows. ab_observed_at r = now"
  shows "\<exists>bs. snd (insert_ignoring_duplicates ok rows a) = a\<lparr>pa_bars := bs\<rparr> \<and> extends ab_observed_at now (pa_bars a) bs"
proof (cases "pa_enabled a \<and> ok")
  case True
  then show ?thesis
    using inserted_extends [OF assms]
    by (intro exI [of _ "fold insert_observation rows (pa_bars a)"]) (simp add: insert_ignoring_duplicates_def Let_def)
next
  case False
  then show ?thesis by (intro exI [of _ "pa_bars a"]) (auto simp: insert_ignoring_duplicates_def)
qed

lemma bars_write:
  "\<exists>ds bs'. snd (record_bars digest io fresh now symbol tf bs source meta a) = a\<lparr>pa_bars := bs', pa_decisions := ds\<rparr> \<and>
     extends dn_ts now (pa_decisions a) ds \<and> extends ab_observed_at now (pa_bars a) bs'"
proof -
  define rows where "rows = List.map_filter (bar_row digest now symbol tf source meta) bs"
  define a1 where "a1 = (if length bs - length rows = 0 then a
    else record_rejected_bars (io_decision io) fresh now symbol tf (length bs - length rows) a)"
  have "\<exists>ds. a1 = a\<lparr>pa_decisions := ds\<rparr> \<and> extends dn_ts now (pa_decisions a) ds"
    using rejected_write [of "io_decision io" fresh now symbol tf "length bs - length rows" a]
    by (cases "length bs - length rows = 0") (auto simp: a1_def intro!: exI [of _ "pa_decisions a"])
  then obtain ds where a1: "a1 = a\<lparr>pa_decisions := ds\<rparr>" and ds: "extends dn_ts now (pa_decisions a) ds" by blast
  obtain bs' where ins: "snd (insert_ignoring_duplicates (io_write io) (number_revisions (io_count io) (pa_bars a1) rows) a1) = a1\<lparr>pa_bars := bs'\<rparr>"
    and bs': "extends ab_observed_at now (pa_bars a1) bs'"
    using insert_write [OF new_rows_stamp, of "io_write io"] unfolding rows_def by blast
  show ?thesis
  proof (cases "\<not> pa_enabled a \<or> bs = []")
    case True
    then show ?thesis by (intro exI [of _ "pa_decisions a"] exI [of _ "pa_bars a"]) (auto simp: record_bars_def)
  next
    case False
    then have "record_bars digest io fresh now symbol tf bs source meta a =
        (if rows = [] then (0, a1) else insert_ignoring_duplicates (io_write io) (number_revisions (io_count io) (pa_bars a1) rows) a1)"
      unfolding record_bars_def Let_def a1_def rows_def by simp
    then have "snd (record_bars digest io fresh now symbol tf bs source meta a) = (if rows = [] then a1 else a1\<lparr>pa_bars := bs'\<rparr>)"
      using ins by simp
    also have "\<dots> = a\<lparr>pa_bars := (if rows = [] then pa_bars a else bs'), pa_decisions := ds\<rparr>" by (simp add: a1)
    finally show ?thesis
      using ds bs' a1 by (intro exI [of _ ds] exI [of _ "if rows = [] then pa_bars a else bs'"]) simp
  qed
qed

lemma archive_write_extends:
  assumes "archive_write now a b"
  shows "pa_enabled b = pa_enabled a" and "extends ab_observed_at now (pa_bars a) (pa_bars b)"
    and "extends po_observed_at now (pa_prices a) (pa_prices b)" and "extends so_observed_at now (pa_sentiment a) (pa_sentiment b)"
    and "extends ho_observed_at now (pa_headlines a) (pa_headlines b)" and "extends ro_observed_at now (pa_research a) (pa_research b)"
    and "extends dn_ts now (pa_decisions a) (pa_decisions b)"
proof -
  have "pa_enabled b = pa_enabled a \<and> extends ab_observed_at now (pa_bars a) (pa_bars b) \<and>
    extends po_observed_at now (pa_prices a) (pa_prices b) \<and> extends so_observed_at now (pa_sentiment a) (pa_sentiment b) \<and>
    extends ho_observed_at now (pa_headlines a) (pa_headlines b) \<and> extends ro_observed_at now (pa_research a) (pa_research b) \<and>
    extends dn_ts now (pa_decisions a) (pa_decisions b)"
    using assms
  proof cases
    case (bars digest io fresh symbol timeframe bs source meta)
    with bars_write [of digest io fresh now symbol timeframe bs source meta a] show ?thesis by auto
  next
    case (headlines oks symbol items source)
    with headlines_write [of oks now symbol items source a] show ?thesis by auto
  next
    case (decision ok fresh stage outcome symbol action reason inputs outputs correlation)
    with decision_write [of ok fresh now stage outcome symbol action reason inputs outputs correlation a] show ?thesis by auto
  qed (simp_all add: record_price_def record_sentiment_def record_research_def Let_def)
  then show "pa_enabled b = pa_enabled a" and "extends ab_observed_at now (pa_bars a) (pa_bars b)"
    and "extends po_observed_at now (pa_prices a) (pa_prices b)" and "extends so_observed_at now (pa_sentiment a) (pa_sentiment b)"
    and "extends ho_observed_at now (pa_headlines a) (pa_headlines b)" and "extends ro_observed_at now (pa_research a) (pa_research b)"
    and "extends dn_ts now (pa_decisions a) (pa_decisions b)" by blast+
qed

interpretation bar_table: append_only pa_bars ab_observed_at archive_write
  by unfold_locales (simp add: archive_write_extends(2) [unfolded extends_def])

interpretation price_table: append_only pa_prices po_observed_at archive_write
  by unfold_locales (simp add: archive_write_extends(3) [unfolded extends_def])

interpretation sentiment_table: append_only pa_sentiment so_observed_at archive_write
  by unfold_locales (simp add: archive_write_extends(4) [unfolded extends_def])

interpretation headline_table: append_only pa_headlines ho_observed_at archive_write
  by unfold_locales (simp add: archive_write_extends(5) [unfolded extends_def])

interpretation research_table: append_only pa_research ro_observed_at archive_write
  by unfold_locales (simp add: archive_write_extends(6) [unfolded extends_def])

interpretation decision_table: append_only pa_decisions dn_ts archive_write
  by unfold_locales (simp add: archive_write_extends(7) [unfolded extends_def])

text \<open>Any run of writes made after a moment.\<close>

abbreviation written_after :: "instant \<Rightarrow> archive \<Rightarrow> archive \<Rightarrow> bool" where
  "written_after cutoff \<equiv> (\<lambda>a b. \<exists>now. cutoff < now \<and> archive_write now a b)\<^sup>*\<^sup>*"

lemma enabled_fixed: "written_after cutoff a b \<Longrightarrow> pa_enabled b = pa_enabled a"
  by (induction rule: rtranclp_induct) (auto dest: archive_write_extends(1))

text \<open>
  C9: Nothing written later changes what the archive says about the past. After any run of recorded bars (revisions and
  rejected ones included), prices, scores, headlines, reports and decisions, all made after a moment, every read as of
  that moment (the bars of any symbol and cadence, the scores, headlines and reports of any window, the decisions of
  any filter, each with any limit) returns exactly what it returned before.
\<close>

theorem past_is_fixed:
  assumes "written_after as_of a b"
  shows "bars_as_of ok symbol timeframe as_of limit b = bars_as_of ok symbol timeframe as_of limit a \<and>
    sentiment_as_of ok symbol as_of days limit b = sentiment_as_of ok symbol as_of days limit a \<and>
    headlines_as_of ok symbol as_of days limit b = headlines_as_of ok symbol as_of days limit a \<and>
    research_as_of ok symbol as_of days limit b = research_as_of ok symbol as_of days limit a \<and>
    decisions_as_of ok as_of sy stage since limit b = decisions_as_of ok as_of sy stage since limit a"
proof -
  have window: "filter (\<lambda>r. P r \<and> stamp r \<le> as_of \<and> Q r) xs = filter Q (filter (\<lambda>r. P r \<and> stamp r \<le> as_of) xs)"
    for P Q :: "'r \<Rightarrow> bool" and stamp :: "'r \<Rightarrow> instant" and xs
    by (simp add: conj_commute conj_left_commute)
  have "known_bars symbol timeframe as_of (pa_bars b) = known_bars symbol timeframe as_of (pa_bars a)"
    using bar_table.past_fixed [OF assms, of "\<lambda>r. bo_symbol r = upper symbol \<and> bo_timeframe r = timeframe"]
    by (simp add: known_bars_def)
  moreover have "filter (\<lambda>r. dn_ts r \<le> as_of \<and> Q r) (pa_decisions b) = filter (\<lambda>r. dn_ts r \<le> as_of \<and> Q r) (pa_decisions a)" for Q
    using decision_table.past_fixed [OF assms, of Q] by (simp add: conj_commute)
  ultimately show ?thesis
    using enabled_fixed [OF assms] sentiment_table.past_fixed [OF assms, of "\<lambda>r. so_symbol r = upper symbol"]
      headline_table.past_fixed [OF assms, of "\<lambda>r. ho_symbol r = upper symbol"]
      research_table.past_fixed [OF assms, of "\<lambda>r. ro_symbol r = upper symbol"]
    unfolding bars_as_of_def sentiment_as_of_def headlines_as_of_def research_as_of_def decisions_as_of_def window by simp
qed

text \<open>A bar on record, then its revision and a score an hour later.\<close>

definition demo_digest :: "rat list \<Rightarrow> string" where
  "demo_digest vs = concat (map (\<lambda>v. if v < 100 then ''a'' else if v < 200 then ''b'' else ''c'') vs)"

definition demo_io :: bar_io where
  "demo_io = \<lparr>io_decision = True, io_count = True, io_write = True\<rparr>"

definition demo_raw :: "rat \<Rightarrow> raw_bar" where
  "demo_raw c = \<lparr>rb_timestamp = Some 1000, rb_prices = Some (c, c, c, c), rb_volume = Some 10\<rparr>"

definition empty_archive :: archive where
  "empty_archive = \<lparr>pa_enabled = True, pa_bars = [], pa_prices = [], pa_sentiment = [], pa_headlines = [], pa_research = [], pa_decisions = []\<rparr>"

abbreviation demo_record :: "instant \<Rightarrow> rat \<Rightarrow> archive \<Rightarrow> archive" where
  "demo_record now c \<equiv> \<lambda>a. snd (record_bars demo_digest demo_io ''d'' now ''spy'' ''1d'' [demo_raw c] ''feed'' [] a)"

theorem past_is_fixed_witness:
  "map ab_close (bars_as_of True ''SPY'' ''1d'' 2000 0 (record_sentiment True 4000 ''spy'' 0 0 [] (demo_record 3000 150 (demo_record 2000 50 empty_archive)))) = [50] \<and>
   map ab_close (bars_as_of True ''SPY'' ''1d'' 3000 0 (record_sentiment True 4000 ''spy'' 0 0 [] (demo_record 3000 150 (demo_record 2000 50 empty_archive)))) = [150]"
proof -
  let ?a = "demo_record 2000 50 empty_archive"
  let ?b = "record_sentiment True 4000 ''spy'' 0 0 [] (demo_record 3000 150 ?a)"
  have "written_after 2000 ?a (demo_record 3000 150 ?a)" by (rule r_into_rtranclp) (auto intro!: exI [of _ 3000] archive_write.bars)
  then have "written_after 2000 ?a ?b" by (rule rtranclp.rtrancl_into_rtrancl) (auto intro!: exI [of _ 4000] archive_write.sentiment)
  then have "bars_as_of True ''SPY'' ''1d'' 2000 0 ?b = bars_as_of True ''SPY'' ''1d'' 2000 0 ?a"
    using past_is_fixed [where days = 0 and since = None and stage = None and sy = None] by blast
  moreover have "map ab_close (bars_as_of True ''SPY'' ''1d'' 2000 0 ?a) = [50]" by code_simp
  moreover have "map ab_close (bars_as_of True ''SPY'' ''1d'' 3000 0 ?b) = [150]" by code_simp
  ultimately show ?thesis by simp
qed

subsection \<open>What a read of the bars returns\<close>

text \<open>One row per market time: the first in the order of the query, which is the newest.\<close>

lemma keep_grows: "set latest \<subseteq> set (fold keep_first rows latest)"
proof (induction rows arbitrary: latest)
  case (Cons r rows)
  have "set latest \<subseteq> set (keep_first r latest)" by (auto simp: keep_first_def)
  with Cons show ?case by fastforce
qed simp

lemma latest_props:
  assumes "sorted_wrt (\<lambda>x y. bo_ts x = bo_ts y \<longrightarrow> ab_observed_at y \<le> ab_observed_at x) (rows :: archived_bar list)"
    and "distinct (map bo_ts latest)"
    and "\<forall>r \<in> set latest. \<forall>x \<in> set rows. bo_ts x = bo_ts r \<longrightarrow> ab_observed_at x \<le> ab_observed_at r"
  shows "distinct (map bo_ts (fold keep_first rows latest)) \<and> bo_ts ` set (fold keep_first rows latest) = bo_ts ` (set latest \<union> set rows) \<and>
    set (fold keep_first rows latest) \<subseteq> set latest \<union> set rows \<and>
    (\<forall>r \<in> set (fold keep_first rows latest). \<forall>x \<in> set rows. bo_ts x = bo_ts r \<longrightarrow> ab_observed_at x \<le> ab_observed_at r)"
  using assms
proof (induction rows arbitrary: latest)
  case (Cons r rows)
  have d: "distinct (map bo_ts (keep_first r latest))" using Cons.prems(2) by (auto simp: keep_first_def)
  have m: "\<forall>s \<in> set (keep_first r latest). \<forall>x \<in> set rows. bo_ts x = bo_ts s \<longrightarrow> ab_observed_at x \<le> ab_observed_at s"
    using Cons.prems(1,3) by (auto simp: keep_first_def)
  have k: "set (keep_first r latest) \<subseteq> insert r (set latest)" "bo_ts ` set (keep_first r latest) = insert (bo_ts r) (bo_ts ` set latest)"
    by (auto simp: keep_first_def)
  have first: "\<forall>s \<in> set (keep_first r latest). bo_ts r = bo_ts s \<longrightarrow> ab_observed_at r \<le> ab_observed_at s"
    using Cons.prems(3) by (auto simp: keep_first_def)
  show ?case
  proof (intro conjI)
    note IH = Cons.IH [OF _ d m]
    show "distinct (map bo_ts (fold keep_first (r # rows) latest))" using IH Cons.prems(1) by simp
    show "bo_ts ` set (fold keep_first (r # rows) latest) = bo_ts ` (set latest \<union> set (r # rows))"
      using IH Cons.prems(1) k(2) by (auto simp: image_Un)
    show "set (fold keep_first (r # rows) latest) \<subseteq> set latest \<union> set (r # rows)" using IH Cons.prems(1) k(1) by auto
    show "\<forall>s \<in> set (fold keep_first (r # rows) latest). \<forall>x \<in> set (r # rows). bo_ts x = bo_ts s \<longrightarrow> ab_observed_at x \<le> ab_observed_at s"
    proof (intro ballI impI)
      fix s x
      assume s: "s \<in> set (fold keep_first (r # rows) latest)" and x: "x \<in> set (r # rows)" "bo_ts x = bo_ts s"
      show "ab_observed_at x \<le> ab_observed_at s"
      proof (cases "x \<in> set rows")
        case True
        with IH Cons.prems(1) s x show ?thesis by auto
      next
        case False
        with x have "bo_ts s = bo_ts r" and r: "x = r" by auto
        with k(2) obtain s0 where s0: "s0 \<in> set (keep_first r latest)" "bo_ts s0 = bo_ts r" by (metis imageE insertI1)
        with keep_grows have "s0 \<in> set (fold keep_first rows (keep_first r latest))" by blast
        with s s0(2) \<open>bo_ts s = bo_ts r\<close> IH Cons.prems(1) have "s = s0" by (auto simp: distinct_map inj_on_def)
        with first s0 r show ?thesis by auto
      qed
    qed
  qed
qed simp

lemma query_order:
  "sorted_wrt (\<lambda>x y. bo_ts x = bo_ts y \<longrightarrow> ab_observed_at y \<le> ab_observed_at x)
     (sort_key (\<lambda>r :: archived_bar. (- bo_ts r, - ab_observed_at r)) rows)"
proof -
  let ?k = "\<lambda>r :: archived_bar. (- bo_ts r, - ab_observed_at r)"
  have "sorted_wrt (\<lambda>x y. ?k x \<le> ?k y) (sort_key ?k rows)" using sorted_sort_key [of ?k rows] by (simp only: sorted_map)
  then show ?thesis by (rule sorted_wrt_mono_rel [rotated]) (auto simp: less_eq_prod_def)
qed

text \<open>The rows a read has to choose from, and the market times it has to show.\<close>

definition known :: "string \<Rightarrow> string \<Rightarrow> instant \<Rightarrow> archive \<Rightarrow> archived_bar set" where
  "known symbol timeframe as_of a = {r \<in> set (pa_bars a). bo_symbol r = upper symbol \<and> bo_timeframe r = timeframe \<and> ab_observed_at r \<le> as_of}"

lemma strictly_sorted: "sorted xs \<Longrightarrow> distinct xs \<Longrightarrow> sorted_wrt (<) (xs :: int list)"
  by (simp add: strict_sorted_iff)

lemma map_last_slice: "map f (last_slice n xs) = last_slice n (map f xs)"
  by (simp add: last_slice_def drop_map)

lemma set_last_slice: "set (last_slice n xs) \<subseteq> set xs"
  by (auto simp: last_slice_def dest: in_set_dropD)

lemma bars_exact:
  assumes "pa_enabled a"
  shows "map bo_ts (bars_as_of True symbol timeframe as_of limit a) = last_slice limit (sorted_list_of_set (bo_ts ` known symbol timeframe as_of a)) \<and>
    (\<forall>r \<in> set (bars_as_of True symbol timeframe as_of limit a). r \<in> known symbol timeframe as_of a \<and>
       (\<forall>x \<in> known symbol timeframe as_of a. bo_ts x = bo_ts r \<longrightarrow> ab_observed_at x \<le> ab_observed_at r))"
proof -
  define rows where "rows = sort_key (\<lambda>r :: archived_bar. (- bo_ts r, - ab_observed_at r)) (known_bars symbol timeframe as_of (pa_bars a))"
  define latest where "latest = fold keep_first rows []"
  have bars: "bars_as_of True symbol timeframe as_of limit a = last_slice limit (sort_key bo_ts latest)"
    using assms by (simp add: bars_as_of_def rows_def latest_def Let_def)
  have set: "set rows = known symbol timeframe as_of a" by (auto simp: rows_def known_bars_def known_def)
  have *: "distinct (map bo_ts latest) \<and> bo_ts ` set latest = bo_ts ` known symbol timeframe as_of a \<and> set latest \<subseteq> known symbol timeframe as_of a \<and>
      (\<forall>r \<in> set latest. \<forall>x \<in> known symbol timeframe as_of a. bo_ts x = bo_ts r \<longrightarrow> ab_observed_at x \<le> ab_observed_at r)"
    using latest_props [OF query_order, of "[]" "known_bars symbol timeframe as_of (pa_bars a)", folded rows_def]
    by (simp add: latest_def set)
  have "map bo_ts (sort_key bo_ts latest) = sorted_list_of_set (bo_ts ` set latest)"
  proof (rule sorted_distinct_set_unique)
    show "distinct (map bo_ts (sort_key bo_ts latest))" using * by (simp add: distinct_map)
  qed (simp_all)
  with * bars show ?thesis using set_last_slice [of limit "sort_key bo_ts latest"] by (auto simp: map_last_slice)
qed

text \<open>
  C21: A read of the bars as of a moment is exactly what was known then. For every symbol, cadence, moment and limit it
  shows each market time of which an observation had been made by that moment, once, in increasing order (the latest
  ones when there are more than the limit), and for each the newest of the observations made by then.
\<close>

theorem bars_as_of_exact:
  assumes "pa_enabled a"
  shows "map bo_ts (bars_as_of True symbol timeframe as_of limit a) = last_slice limit (sorted_list_of_set (bo_ts ` known symbol timeframe as_of a)) \<and>
    (\<forall>r \<in> set (bars_as_of True symbol timeframe as_of limit a). r \<in> known symbol timeframe as_of a \<and>
       (\<forall>x \<in> known symbol timeframe as_of a. bo_ts x = bo_ts r \<longrightarrow> ab_observed_at x \<le> ab_observed_at r))"
  using assms by (rule bars_exact)

theorem bars_as_of_exact_witness:
  "map bo_ts (bars_as_of True ''spy'' ''1d'' 3000 5 (demo_record 3000 150 (demo_record 2000 50 empty_archive))) =
     last_slice 5 (sorted_list_of_set (bo_ts ` known ''spy'' ''1d'' 3000 (demo_record 3000 150 (demo_record 2000 50 empty_archive)))) \<and>
   map (\<lambda>r. (ab_close r, ab_revision r)) (bars_as_of True ''spy'' ''1d'' 3000 5 (demo_record 3000 150 (demo_record 2000 50 empty_archive))) = [(150, 1)]"
proof -
  let ?a = "demo_record 3000 150 (demo_record 2000 50 empty_archive)"
  have "pa_enabled ?a" by code_simp
  from bars_as_of_exact [OF this] have "map bo_ts (bars_as_of True ''spy'' ''1d'' 3000 5 ?a) =
     last_slice 5 (sorted_list_of_set (bo_ts ` known ''spy'' ''1d'' 3000 ?a))" by blast
  moreover have "map (\<lambda>r. (ab_close r, ab_revision r)) (bars_as_of True ''spy'' ''1d'' 3000 5 ?a) = [(150, 1)]" by code_simp
  ultimately show ?thesis by blast
qed

subsection \<open>What was recorded is read back\<close>

lemma inserted_between: "set stored \<subseteq> set (fold insert_observation rows stored) \<and> set (fold insert_observation rows stored) \<subseteq> set stored \<union> set rows"
proof (induction rows arbitrary: stored)
  case (Cons r rows)
  have "set stored \<subseteq> set (insert_observation r stored) \<and> set (insert_observation r stored) \<subseteq> insert r (set stored)"
    by (auto simp: insert_observation_def)
  with Cons.IH [of "insert_observation r stored"] show ?case by (simp only: fold_Cons o_apply) fastforce
qed simp

lemma same_observation_refl [simp]: "same_observation r r"
  by (simp add: same_observation_def same_bar_def)

lemma inserted_covers: "r \<in> set rows \<Longrightarrow> \<exists>x \<in> set (fold insert_observation rows stored). same_observation r x"
proof (induction rows arbitrary: stored)
  case (Cons s rows)
  show ?case
  proof (cases "r = s")
    case True
    have "\<exists>x \<in> set (insert_observation s stored). same_observation s x" by (auto simp: insert_observation_def list_ex_iff)
    with True inserted_between [of "insert_observation s stored" rows] show ?thesis by auto
  next
    case False
    with Cons show ?thesis by simp
  qed
qed simp

lemma insert_known: "\<forall>r \<in> set rows. \<exists>x \<in> set stored. same_observation r x \<Longrightarrow> fold insert_observation rows stored = stored"
  by (induction rows) (auto simp: insert_observation_def list_ex_iff)

lemma map_filter_mem: "x \<in> set (List.map_filter f xs) \<longleftrightarrow> (\<exists>b \<in> set xs. f b = Some x)"
  by (auto simp: map_filter_def) force

text \<open>The bars after a write that went through.\<close>

lemma recorded_bars:
  assumes "pa_enabled a" and "io_write io" and "b \<in> set bs" and "bar_row digest now symbol tf source meta b = Some r"
  shows "pa_bars (snd (record_bars digest io fresh now symbol tf bs source meta a)) =
    fold insert_observation (number_revisions (io_count io) (pa_bars a) (List.map_filter (bar_row digest now symbol tf source meta) bs)) (pa_bars a)"
proof -
  let ?rows = "List.map_filter (bar_row digest now symbol tf source meta) bs"
  have "r \<in> set ?rows" using assms(3,4) by (auto simp: map_filter_mem)
  then have ne: "?rows \<noteq> []" "bs \<noteq> []" using assms(3) by auto
  obtain ds where "record_rejected_bars (io_decision io) fresh now symbol tf (length bs - length ?rows) a = a\<lparr>pa_decisions := ds\<rparr>"
    using rejected_write by blast
  with ne assms(1,2) show ?thesis by (simp add: record_bars_def insert_ignoring_duplicates_def Let_def)
qed

lemma numbered_mem:
  assumes "x \<in> set (number_revisions ok stored (List.map_filter (bar_row digest now symbol tf source meta) bs))"
  obtains b r where "b \<in> set bs" and "bar_row digest now symbol tf source meta b = Some r" and "same_observation r x" and "rb_timestamp b = Some (bo_ts x)"
    and "ab_observed_at x = now"
proof -
  from assms obtain r n where r: "r \<in> set (List.map_filter (bar_row digest now symbol tf source meta) bs)" and x: "x = r\<lparr>ab_revision := n\<rparr> \<or> x = r"
    by (auto simp: number_revisions_def split: if_splits)
  from r obtain b where "b \<in> set bs" "bar_row digest now symbol tf source meta b = Some r" by (auto simp: map_filter_mem)
  with x show thesis by (intro that [of b r]) (auto simp: bar_row_def same_observation_def same_bar_def Let_def split: option.splits)
qed

lemma numbered_row:
  assumes "b \<in> set bs" and "bar_row digest now symbol tf source meta b = Some r"
  obtains x where "x \<in> set (number_revisions ok stored (List.map_filter (bar_row digest now symbol tf source meta) bs))" and "same_observation r x"
proof -
  have "r \<in> set (List.map_filter (bar_row digest now symbol tf source meta) bs)" using assms by (auto simp: map_filter_mem)
  then show thesis
    by (intro that [of "if ok then r\<lparr>ab_revision := length (filter (same_bar r) stored)\<rparr> else r"])
      (auto simp: number_revisions_def same_observation_def same_bar_def)
qed

text \<open>
  C35: A recorded bar is what a read then shows. After a write that goes through, at a moment later than every earlier
  observation, a read as of that moment shows for each market time of the batch the payload just recorded, whether it
  was new, a revision or a repetition of the current one; the batch must not hold two bars of that time, and the
  payload must not be an older version that something has since replaced.
\<close>

theorem recorded_bar_reads_back:
  assumes "pa_enabled a" and "io_write io" and "b \<in> set bs" and row: "bar_row digest now symbol tf source meta b = Some r"
    and single: "\<forall>c \<in> set bs. rb_timestamp c = rb_timestamp b \<longrightarrow> c = b"
    and clock: "\<forall>x \<in> set (pa_bars a). ab_observed_at x < now"
    and current: "\<forall>x \<in> set (pa_bars a). same_observation r x \<longrightarrow>
       (\<forall>y \<in> set (pa_bars a). same_bar r y \<longrightarrow> y = x \<or> ab_observed_at y < ab_observed_at x)"
  shows "\<exists>s \<in> set (bars_as_of True symbol tf now 0 (snd (record_bars digest io fresh now symbol tf bs source meta a))).
    bo_ts s = bo_ts r \<and> ab_payload_hash s = ab_payload_hash r"
proof -
  let ?new = "number_revisions (io_count io) (pa_bars a) (List.map_filter (bar_row digest now symbol tf source meta) bs)"
  define a' where "a' = snd (record_bars digest io fresh now symbol tf bs source meta a)"
  have bars: "pa_bars a' = fold insert_observation ?new (pa_bars a)" unfolding a'_def by (rule recorded_bars [OF assms(1-4)])
  have en: "pa_enabled a'" using assms(1) archive_write_extends(1) [OF archive_write.bars] unfolding a'_def by simp
  obtain x where x: "x \<in> set (pa_bars a')" "same_observation r x"
  proof -
    obtain n where "n \<in> set ?new" "same_observation r n" using numbered_row [OF assms(3,4)] by blast
    with inserted_covers [of n ?new "pa_bars a"] bars that show thesis by (auto simp: same_observation_def same_bar_def)
  qed
  have scope: "bo_symbol r = upper symbol" "bo_timeframe r = tf" "rb_timestamp b = Some (bo_ts r)"
    using row by (auto simp: bar_row_def Let_def split: option.splits)
  have in_new: "ab_observed_at y = now \<or> y \<in> set (pa_bars a)" if "y \<in> set (pa_bars a')" for y
    using that inserted_between [of "pa_bars a" ?new] bars
      new_rows_stamp [of "io_count io" "pa_bars a" digest now symbol tf source meta bs] by auto
  have "x \<in> known symbol tf now a'"
    using x scope in_new [OF x(1)] clock by (auto simp: known_def same_observation_def same_bar_def)
  then have ts: "bo_ts r \<in> bo_ts ` known symbol tf now a'" using x(2) by (intro image_eqI [of _ _ x]) (simp_all add: same_observation_def same_bar_def)
  have fin: "finite (bo_ts ` known symbol tf now a')" by (simp add: known_def)
  note exact = bars_exact [OF en, of symbol tf now 0]
  have "bo_ts r \<in> set (map bo_ts (bars_as_of True symbol tf now 0 a'))"
    using exact ts fin by (simp add: last_slice_def)
  then obtain s where s: "s \<in> set (bars_as_of True symbol tf now 0 a')" "bo_ts s = bo_ts r" by auto
  with exact x have known_s: "s \<in> known symbol tf now a'" and newest_s: "ab_observed_at x \<le> ab_observed_at s"
    using \<open>x \<in> known symbol tf now a'\<close> by (auto simp: same_observation_def same_bar_def)
  have "ab_payload_hash s = ab_payload_hash r"
  proof (cases "s \<in> set (pa_bars a)")
    case True
    with clock newest_s in_new [OF x(1)] have "x \<in> set (pa_bars a)" by force
    with current x(2) True s(2) known_s scope newest_s have "s = x" by (force simp: known_def same_bar_def)
    with x(2) show ?thesis by (simp add: same_observation_def)
  next
    case False
    with known_s bars inserted_between [of "pa_bars a" ?new] have "s \<in> set ?new" by (auto simp: known_def)
    then obtain c q where "c \<in> set bs" "bar_row digest now symbol tf source meta c = Some q" "same_observation q s" "rb_timestamp c = Some (bo_ts s)"
      by (rule numbered_mem)
    with single scope(3) s(2) row show ?thesis by (auto simp: same_observation_def)
  qed
  with s show ?thesis unfolding a'_def by blast
qed

theorem recorded_bar_reads_back_witness:
  "\<exists>s \<in> set (bars_as_of True ''spy'' ''1d'' 3000 0 (demo_record 3000 150 (demo_record 2000 50 empty_archive))).
     bo_ts s = 1000 \<and> ab_payload_hash s = ''bbbba''"
proof -
  let ?a = "demo_record 2000 50 empty_archive"
  let ?row = "bar_row demo_digest 3000 ''spy'' ''1d'' ''feed'' [] (demo_raw 150)"
  have u: "upper ''spy'' = ''SPY''" by code_simp
  have a: "pa_enabled ?a" "map (\<lambda>x. (ab_observed_at x, ab_payload_hash x)) (pa_bars ?a) = [(2000, ''aaaaa'')]" by code_simp+
  have row: "map_option (\<lambda>r. (bo_ts r, ab_payload_hash r)) ?row = Some (1000, ''bbbba'')" by code_simp
  then obtain r where r: "?row = Some r" "bo_ts r = 1000" "ab_payload_hash r = ''bbbba''" by auto
  from a(2) have old: "ab_observed_at x < 3000 \<and> ab_payload_hash x = ''aaaaa''" if "x \<in> set (pa_bars ?a)" for x
    using that by (auto simp: map_eq_Cons_conv)
  show ?thesis
    using recorded_bar_reads_back [OF a(1) _ _ r(1), of demo_io "[demo_raw 150]" "''d''"] r old
    by (auto simp: demo_io_def same_observation_def)
qed

text \<open>Fetching the same bars again writes nothing.\<close>

lemma refetch_writes_nothing:
  assumes "pa_enabled a" and "\<forall>b \<in> set bs. bar_row digest now' symbol tf source meta b \<noteq> None"
    and "\<forall>b \<in> set bs. \<forall>r. bar_row digest now' symbol tf source meta b = Some r \<longrightarrow> (\<exists>x \<in> set (pa_bars a). same_observation r x)"
  shows "fst (record_bars digest io fresh now' symbol tf bs source meta a) = 0"
proof -
  let ?rows = "List.map_filter (bar_row digest now' symbol tf source meta) bs"
  have "length ?rows = length bs" using assms(2) by (induction bs) (auto simp: map_filter_simps)
  moreover have "fold insert_observation (number_revisions (io_count io) (pa_bars a) ?rows) (pa_bars a) = pa_bars a"
  proof (rule insert_known)
    show "\<forall>r \<in> set (number_revisions (io_count io) (pa_bars a) ?rows). \<exists>x \<in> set (pa_bars a). same_observation r x"
      using assms(3) by (auto elim!: numbered_mem simp: same_observation_def same_bar_def)
  qed
  ultimately show ?thesis by (simp add: record_bars_def insert_ignoring_duplicates_def Let_def)
qed

text \<open>
  The condition on older versions is needed. The identity of an observation leaves out when it was made: a provider that
  revises a bar and then withdraws the revision stays on record with the withdrawn value, although both fetches after
  it returned the original one.
\<close>

lemma withdrawn_revision_stays:
  "map ab_close (bars_as_of True ''SPY'' ''1d'' 5000 0
     (demo_record 4000 50 (demo_record 3000 150 (demo_record 2000 50 empty_archive)))) = [150]"
  by code_simp

text \<open>The three windowed reads keep the newest rows when there are too many; the decisions keep the oldest.\<close>

lemma windowed_reads_keep_newest:
  assumes "length rows = n + limit"
  shows "newest stamp limit rows = drop n (rev (sort_key (\<lambda>r. - stamp r) rows))"
  using assms by (simp add: newest_def take_rev [symmetric] rev_take)

definition demo_decisions :: archive where
  "demo_decisions = fold (\<lambda>t a. snd (record_decision True ''d'' t ''signal'' ''approved'' ''spy'' [] [] [] [] [] None a)) [1, 2, 3] empty_archive"

lemma decisions_keep_oldest:
  "map dn_ts (decisions_as_of True 9 (Some ''spy'') None None 2 demo_decisions) = [1, 2]"
  "map dn_ts (recent_decisions True 2 (Some ''spy'') demo_decisions) = [3, 2]"
  by code_simp+

text \<open>
  A report whose risk factors do not fit the column hides every other one: the cut text raises when it is read, and the
  whole read answers with nothing.
\<close>

lemma long_report_hides_the_others:
  assumes "pa_enabled a" and "4000 < length (json_list_text risks)" and "0 \<le> days" and "length (pa_research a) < limit"
  shows "research_as_of True symbol now days limit (record_research True now symbol tone summary risks modifier version gen a) = []"
proof -
  let ?b = "record_research True now symbol tone summary risks modifier version gen a"
  let ?rows = "filter (\<lambda>r. ro_symbol r = upper symbol \<and> ro_observed_at r \<le> now \<and> now - days * day_us \<le> ro_observed_at r) (pa_research ?b)"
  have "0 \<le> days * day_us" using assms(3) by (simp add: day_us_def)
  then have "list_ex (\<lambda>r. ro_risk_factors r = None) ?rows" using assms(1,2) by (simp add: record_research_def)
  moreover have "length ?rows \<le> limit"
  proof -
    have "length ?rows \<le> length (pa_research ?b)" by (rule length_filter_le)
    then show ?thesis using assms(1,4) by (simp add: record_research_def)
  qed
  then have "set (newest ro_observed_at limit ?rows) = set ?rows" by (simp add: newest_def)
  ultimately show ?thesis by (simp add: research_as_of_def Let_def list_ex_iff)
qed

text \<open>Completeness is judged on market times alone, so a bar that arrives later closes a gap of the past.\<close>

lemma late_bar_fills_past_gap:
  "let minute = 60000000; bar = (\<lambda>t now a. snd (record_bars demo_digest demo_io ''d'' now ''spy'' ''1m'' [(demo_raw 50)\<lparr>rb_timestamp := Some t\<rparr>] ''feed'' [] a));
       before = bar (2 * minute) (2 * minute) (bar 0 0 empty_archive); later = bar minute (900 * minute) before;
       ask = (\<lambda>a. case completeness True (Inr (map bar_observation.truncate (pa_bars a))) ''spy'' ''1m'' 0 (2 * minute) 1 of
                     Unavailable m \<Rightarrow> None | Completeness c \<Rightarrow> Some (cp_complete c))
   in ask before = Some False \<and> ask later = Some True"
  by code_simp

end
