(* ===== verification/Veto.thy ===== *)
theory Veto
  imports Archive
begin

text \<open>
  The veto (\<open>libs/veto/src/veto\<close>: \<open>decision.py\<close>, \<open>policy.py\<close>, \<open>review.py\<close>), over the archive of theory \<open>Archive\<close> and the
  execution records of theory \<open>Execution_Journal\<close>. The journal's own reads swallow their errors, so whether each of
  the three reads succeeds is an argument, and so is the \<open>rejected\<close> column, which the rows of theory \<open>Round_Trips\<close> leave out.
\<close>

subsection \<open>Decision and policy\<close>

record objection =
  ob_rule :: string
  ob_detail :: msg
  ob_measure :: "pyfloat option"
  ob_threshold :: "pyfloat option"

record veto_decision =
  vd_subject :: string
  vd_as_of :: instant
  vd_policy_version :: string
  vd_objections :: "objection list"
  vd_unchecked :: "string list"

definition vd_rejected :: "veto_decision \<Rightarrow> bool" where
  "vd_rejected d = (vd_objections d \<noteq> [])"

definition vd_verdict :: "veto_decision \<Rightarrow> string" where
  "vd_verdict d = (if vd_objections d \<noteq> [] then ''REJECTED'' else ''NO_OBJECTION'')"

definition POLICY_VERSION :: string where
  "POLICY_VERSION = ''1''"

record veto_policy =
  vp_min_archived_bars :: int
  vp_max_stale_minutes :: pyfloat
  vp_max_gap_count :: int
  vp_window_hours :: pyfloat
  vp_expected_interval_minutes :: pyfloat
  vp_max_recent_rejected_orders :: int

definition default_veto_policy :: veto_policy where
  "default_veto_policy = \<lparr>vp_min_archived_bars = 60, vp_max_stale_minutes = Fin 120, vp_max_gap_count = 3, vp_window_hours = Fin 48,
     vp_expected_interval_minutes = Fin 15, vp_max_recent_rejected_orders = 5\<rparr>"

definition veto_policy_from_env :: "os_environ \<Rightarrow> exn + veto_policy" where
  "veto_policy_from_env env =
     (let flt = override float_of_string ''float'' env; num = override int_of_string ''int'' env; d = default_veto_policy in
      bindE (num ''VETO_MIN_ARCHIVED_BARS'' (vp_min_archived_bars d)) (\<lambda>least.
      bindE (flt ''VETO_MAX_STALE_MINUTES'' (vp_max_stale_minutes d)) (\<lambda>stale.
      bindE (num ''VETO_MAX_GAP_COUNT'' (vp_max_gap_count d)) (\<lambda>gaps.
      bindE (flt ''VETO_WINDOW_HOURS'' (vp_window_hours d)) (\<lambda>hours.
      bindE (flt ''VETO_EXPECTED_INTERVAL_MINUTES'' (vp_expected_interval_minutes d)) (\<lambda>interval.
      bindE (num ''VETO_MAX_REJECTED_ORDERS'' (vp_max_recent_rejected_orders d)) (\<lambda>rejected.
      Inr \<lparr>vp_min_archived_bars = least, vp_max_stale_minutes = stale, vp_max_gap_count = gaps, vp_window_hours = hours,
           vp_expected_interval_minutes = interval, vp_max_recent_rejected_orders = rejected\<rparr>)))))))"

subsection \<open>Review\<close>

record journal_reads =
  rd_bars :: bool
  rd_completeness :: "exn option"
  rd_executions :: bool
  rd_rejected :: "exec_row \<Rightarrow> bool"

definition other_timeframes_hint :: "bool \<Rightarrow> string \<Rightarrow> string \<Rightarrow> archive \<Rightarrow> msg" where
  "other_timeframes_hint read_ok symbol timeframe a =
     (let held = filter (\<lambda>(tf, n). tf \<noteq> timeframe \<and> n \<noteq> 0) (bar_timeframes read_ok symbol a) in
      if held = [] then []
      else [S '' (the archive does hold ''] @ msg_join '', '' (map (\<lambda>(tf, n). [I (int n), S '' at '', S tf]) (sort_key fst held)) @
        [S '' -- was this the intended timeframe?)''])"

definition staleness_minutes :: "archived_bar list \<Rightarrow> instant \<Rightarrow> rat option" where
  "staleness_minutes bars moment =
     (if bars = [] then None else Some (py_round 2 (total_seconds (moment - Max (set (map bo_ts bars))) / 60)))"

text \<open>
  The number of interior gaps, \<open>None\<close> when completeness is unavailable. A window that is not a finite number of hours
  raises in \<open>timedelta\<close> (a finite one is taken to be in its range); with an interval that is not finite the gaps follow from comparisons with NaN and infinities.
\<close>

definition gap_count :: "exn option \<Rightarrow> string \<Rightarrow> string \<Rightarrow> instant \<Rightarrow> veto_policy \<Rightarrow> archive \<Rightarrow> nat option" where
  "gap_count failure symbol timeframe moment p a =
     (case vp_window_hours p of
        Fin hours \<Rightarrow>
          (let since = moment - round_half_even (hours * 3600000000);
               bars = map bar_observation.truncate (pa_bars a)
           in if \<not> pa_enabled a \<or> failure \<noteq> None then None
              else
                (case vp_expected_interval_minutes p of
                   Fin interval \<Rightarrow>
                     (case completeness True (Inr bars) symbol timeframe since moment interval of
                        Unavailable m \<Rightarrow> None | Completeness c \<Rightarrow> Some (length (cp_gaps c)))
                 | NInf \<Rightarrow> Some (length (select_bars bars symbol timeframe since moment) - 1)
                 | _ \<Rightarrow> Some 0))
      | _ \<Rightarrow> None)"

definition history_rule :: "bool \<Rightarrow> veto_policy \<Rightarrow> string \<Rightarrow> string \<Rightarrow> archive \<Rightarrow> archived_bar list \<Rightarrow> objection list" where
  "history_rule read_ok p subject timeframe a bars =
     (if int (length bars) < vp_min_archived_bars p
      then [\<lparr>ob_rule = ''insufficient_history'',
             ob_detail = [I (int (length bars)), S '' archived bars for '', S subject, S '' at '', S timeframe,
               S ''; nothing downstream can rest on fewer than '', I (vp_min_archived_bars p)] @ other_timeframes_hint read_ok subject timeframe a,
             ob_measure = Some (Fin (of_nat (length bars))), ob_threshold = Some (Fin (of_int (vp_min_archived_bars p)))\<rparr>]
      else [])"

definition stale_rule :: "veto_policy \<Rightarrow> string \<Rightarrow> rat option \<Rightarrow> objection list" where
  "stale_rule p subject stale =
     (case stale of
        Some m \<Rightarrow> if f_gt (Fin m) (vp_max_stale_minutes p)
                  then [\<lparr>ob_rule = ''stale_series'', ob_detail = [S ''the freshest bar for '', S subject, S '' is '', F ''.0f'' (Fin m),
                           S '' minutes old; this is reasoning about a memory''],
                         ob_measure = Some (Fin m), ob_threshold = Some (vp_max_stale_minutes p)\<rparr>]
                  else []
      | None \<Rightarrow> [])"

definition gap_rule :: "veto_policy \<Rightarrow> string \<Rightarrow> nat option \<Rightarrow> objection list" where
  "gap_rule p subject gaps =
     (case gaps of
        Some n \<Rightarrow> if vp_max_gap_count p < int n
                  then [\<lparr>ob_rule = ''gapped_series'', ob_detail = [I (int n), S '' interior gaps in the last '', F ''.0f'' (vp_window_hours p),
                           S ''h of '', S subject, S ''; the series cannot support a claim about continuity''],
                         ob_measure = Some (Fin (of_nat n)), ob_threshold = Some (Fin (of_int (vp_max_gap_count p)))\<rparr>]
                  else []
      | None \<Rightarrow> [])"

definition rejection_rule :: "(exec_row \<Rightarrow> bool) \<Rightarrow> veto_policy \<Rightarrow> string \<Rightarrow> exec_row list \<Rightarrow> objection list" where
  "rejection_rule is_rejected p subject rows =
     (let n = length (filter is_rejected rows) in
      if vp_max_recent_rejected_orders p < int n
      then [\<lparr>ob_rule = ''orders_keep_being_rejected'', ob_detail = [I (int n), S '' rejected orders for '', S subject, S '' in the archive; something is wrong with the instrument, a permission or a halt, and research that ignores it is research about a symbol the system cannot trade''],
             ob_measure = Some (Fin (of_nat n)), ob_threshold = Some (Fin (of_int (vp_max_recent_rejected_orders p)))\<rparr>]
      else [])"

definition veto_review :: "journal_reads \<Rightarrow> veto_policy \<Rightarrow> string \<Rightarrow> instant \<Rightarrow> string \<Rightarrow> archive \<Rightarrow> journal \<Rightarrow> veto_decision" where
  "veto_review rd p subject moment timeframe a j =
     (let bars = bars_as_of (rd_bars rd) subject timeframe moment 1000 a;
          stale = staleness_minutes bars moment;
          gaps = gap_count (rd_completeness rd) subject timeframe moment p a;
          rows = execution_rows (rd_executions rd) None None (Some subject) None (Some ''default'') None (Some moment) 5000 j
      in \<lparr>vd_subject = subject, vd_as_of = moment, vd_policy_version = POLICY_VERSION,
          vd_objections = history_rule (rd_bars rd) p subject timeframe a bars @ stale_rule p subject stale @ gap_rule p subject gaps @
            rejection_rule (rd_rejected rd) p subject rows,
          vd_unchecked = (if stale = None then [''freshness: no dateable bar in the archive''] else []) @
            (if gaps = None then [''coverage: completeness could not be computed''] else [])\<rparr>)"

subsection \<open>What a clean review says\<close>

lemma stale_rule_iff: "stale_rule p subject stale \<noteq> [] \<longleftrightarrow> (\<exists>m. stale = Some m \<and> f_gt (Fin m) (vp_max_stale_minutes p))"
  by (auto simp: stale_rule_def split: option.splits)

lemma gap_rule_iff: "gap_rule p subject gaps \<noteq> [] \<longleftrightarrow> (\<exists>n. gaps = Some n \<and> vp_max_gap_count p < int n)"
  by (auto simp: gap_rule_def split: option.splits)

lemma rejection_rule_dead: "0 \<le> vp_max_recent_rejected_orders p \<Longrightarrow> rejection_rule (\<lambda>_. False) p subject rows = []"
  by (simp add: rejection_rule_def)

lemma Max_sorted: "sorted xs \<Longrightarrow> xs \<noteq> [] \<Longrightarrow> Max (set xs) = last (xs :: int list)"
  by (induction xs rule: rev_induct) (auto simp: sorted_append intro!: Max_eqI)

lemma last_slice_last: "xs \<noteq> [] \<Longrightarrow> last_slice n xs \<noteq> [] \<and> last (last_slice n xs) = last xs"
  by (cases xs) (auto simp: last_slice_def)

lemma last_slice_Nil: "last_slice n xs \<noteq> [] \<Longrightarrow> xs \<noteq> []"
  by (auto simp: last_slice_def split: if_splits)

lemma newest_bar:
  assumes "bars_as_of ok subject timeframe moment limit a \<noteq> []"
  shows "Max (set (map bo_ts (bars_as_of ok subject timeframe moment limit a))) = Max (bo_ts ` known subject timeframe moment a)"
proof -
  let ?all = "sorted_list_of_set (bo_ts ` known subject timeframe moment a)"
  have "pa_enabled a" and ok using assms by (auto simp: bars_as_of_def split: if_splits)
  then have ts: "map bo_ts (bars_as_of ok subject timeframe moment limit a) = last_slice limit ?all" using bars_exact by simp
  with assms have ne: "last_slice limit ?all \<noteq> []" by (metis map_is_Nil_conv)
  then have all: "?all \<noteq> []" by (rule last_slice_Nil)
  have "sorted (last_slice limit ?all)" by (simp add: last_slice_def sorted_wrt_drop)
  with ne all have "Max (set (last_slice limit ?all)) = Max (set ?all)" using last_slice_last [of ?all limit] by (simp add: Max_sorted)
  then show ?thesis by (simp add: ts known_def)
qed

text \<open>
  A review without objections and without unchecked rules certifies the data, and certified data has such a review:
  the archive could be read, at least the required number of bars was known at the moment, the freshest of them is not
  older than the limit allows (with a limit that is a number), completeness was computed and reports no more interior
  gaps than tolerated, and no more of the orders read are marked rejected than tolerated.
\<close>

theorem clean_review_certifies:
  assumes "0 < vp_min_archived_bars p"
  shows "vd_objections (veto_review rd p subject moment timeframe a j) = [] \<and> vd_unchecked (veto_review rd p subject moment timeframe a j) = [] \<longleftrightarrow>
    pa_enabled a \<and> rd_bars rd \<and>
    vp_min_archived_bars p \<le> int (length (bars_as_of True subject timeframe moment 1000 a)) \<and>
    \<not> f_gt (Fin (py_round 2 (total_seconds (moment - Max (bo_ts ` known subject timeframe moment a)) / 60))) (vp_max_stale_minutes p) \<and>
    (\<exists>n. gap_count (rd_completeness rd) subject timeframe moment p a = Some n \<and> int n \<le> vp_max_gap_count p) \<and>
    int (length (filter (rd_rejected rd) (execution_rows (rd_executions rd) None None (Some subject) None (Some ''default'') None (Some moment) 5000 j)))
      \<le> vp_max_recent_rejected_orders p"
proof -
  let ?bars = "bars_as_of (rd_bars rd) subject timeframe moment 1000 a"
  have read: "?bars \<noteq> [] \<Longrightarrow> pa_enabled a \<and> rd_bars rd" by (auto simp: bars_as_of_def split: if_splits)
  show ?thesis
  proof (cases "?bars = []")
    case True
    with assms show ?thesis by (auto simp: veto_review_def Let_def staleness_minutes_def)
  next
    case False
    with read newest_bar [OF False] show ?thesis
      by (auto simp: veto_review_def Let_def history_rule_def gap_rule_def stale_rule_def rejection_rule_def staleness_minutes_def
          split: option.splits if_splits)
  qed
qed

text \<open>Two quarter-hourly bars, and a review ten minutes after the second.\<close>

definition minute_us :: int where
  "minute_us = 60000000"

definition archived_demo :: "string \<Rightarrow> instant list \<Rightarrow> archive" where
  "archived_demo timeframe stamps = fold (\<lambda>t a. snd (record_bars demo_digest demo_io ''d'' t ''spy'' timeframe [(demo_raw 50)\<lparr>rb_timestamp := Some t\<rparr>] ''feed'' [] a))
     stamps empty_archive"

definition lenient_policy :: veto_policy where
  "lenient_policy = default_veto_policy\<lparr>vp_min_archived_bars := 2\<rparr>"

definition demo_reads :: journal_reads where
  "demo_reads = \<lparr>rd_bars = True, rd_completeness = None, rd_executions = True, rd_rejected = (\<lambda>_. False)\<rparr>"

definition no_orders :: journal where
  "no_orders = \<lparr>jn_enabled = True, jn_executions = []\<rparr>"

theorem clean_review_certifies_witness:
  "vd_objections (veto_review demo_reads lenient_policy ''spy'' (40 * minute_us) ''15m'' (archived_demo ''15m'' [15 * minute_us, 30 * minute_us]) no_orders) = [] \<and>
   (\<exists>n. gap_count None ''spy'' ''15m'' (40 * minute_us) lenient_policy (archived_demo ''15m'' [15 * minute_us, 30 * minute_us]) = Some n \<and> int n \<le> 3)"
proof -
  let ?a = "archived_demo ''15m'' [15 * minute_us, 30 * minute_us]"
  let ?r = "veto_review demo_reads lenient_policy ''spy'' (40 * minute_us) ''15m'' ?a no_orders"
  have clean: "vd_objections ?r = [] \<and> vd_unchecked ?r = []" by code_simp
  have p: "0 < vp_min_archived_bars lenient_policy" "vp_max_gap_count lenient_policy = 3"
    "rd_completeness demo_reads = None" by code_simp+
  from clean_review_certifies [OF p(1), of demo_reads "''spy''" "40 * minute_us" "''15m''" ?a no_orders] clean
  show ?thesis unfolding p(2,3) by blast
qed

text \<open>
  Four ways the review says less than it means to. A journal that fails to return its execution records answers with
  none, so the rule on tradeability counts as checked. No caller of \<open>record_execution\<close> passes \<open>rejected\<close>, so no order is ever stored as rejected and that rule cannot fire
  at all (\<open>rejection_rule_dead\<close>). A limit of NaN is accepted from the environment and switches the freshness rule off. The limits
  are those of a quarter-hourly series whatever series is read, so a complete daily series is refused as stale two
  hours after its last stamp.
\<close>

lemma unreadable_executions_pass:
  "vd_unchecked (veto_review (demo_reads\<lparr>rd_executions := False\<rparr>) lenient_policy ''spy'' (40 * minute_us) ''15m'' (archived_demo ''15m'' [15 * minute_us, 30 * minute_us]) no_orders) = []"
  by code_simp

lemma nan_limit_accepts_any_age:
  "map_sum id vp_max_stale_minutes (veto_policy_from_env ((\<lambda>_. None)(''VETO_MAX_STALE_MINUTES'' := Some ''nan''))) = Inr NaN"
  "stale_rule (p\<lparr>vp_max_stale_minutes := NaN\<rparr>) subject stale = []"
  by code_simp (auto simp: stale_rule_def f_gt_def split: option.splits)

lemma daily_series_is_stale:
  "map ob_rule (vd_objections (veto_review demo_reads lenient_policy ''spy'' ((2 * 1440 + 121) * minute_us) ''1d''
     (archived_demo ''1d'' [0, 1440 * minute_us, 2 * 1440 * minute_us]) no_orders)) = [''stale_series'']"
  by code_simp

end
