(* ===== verification/Challengers.thy ===== *)
theory Challengers
  imports Validation Lifecycle_Service Veto
begin

text \<open>
  The learner's library (\<open>libs/challengers/src/challengers\<close>): the bounds a proposal may not leave, the construction of a
  challenger, the one-axis perturbations of a champion, the campaign that judges them against their pooled trials, the
  comparison on paper, and the learning cycle over the lifecycle store. Parameter values are finite numbers. The validated
  \<open>StrategyParams\<close> they come from refuses NaN in every bounded field, not in \<open>macd_hist_min\<close>; Python's \<open>min\<close> and \<open>max\<close>
  would let that NaN through the clamp, and what keeps it from the table is that the column is JSONB, which has no NaN. The walk-forward and the deflation a campaign is given, the hashes and the
  reachability of the store are arguments.
\<close>

subsection \<open>Bounds\<close>

record bound =
  bd_low :: rat
  bd_high :: rat
  bd_integer :: bool

definition clamp :: "bound \<Rightarrow> rat \<Rightarrow> rat \<times> bool" where
  "clamp b x =
     (let pulled = min (max x (bd_low b)) (bd_high b);
          pulled = (if bd_integer b then min (max (of_int (round_half_even pulled)) (bd_low b)) (bd_high b) else pulled)
      in (pulled, pulled \<noteq> x))"

record challenger_bounds =
  cb_parameters :: "(string \<times> bound) list"
  cb_max_challengers_per_campaign :: nat

definition default_bounds :: challenger_bounds where
  "default_bounds = \<lparr>cb_parameters =
     [(''ema_fast'', \<lparr>bd_low = 5, bd_high = 50, bd_integer = True\<rparr>), (''ema_slow'', \<lparr>bd_low = 20, bd_high = 120, bd_integer = True\<rparr>),
      (''rsi_buy_min'', \<lparr>bd_low = 30, bd_high = 55, bd_integer = False\<rparr>), (''rsi_buy_max'', \<lparr>bd_low = 60, bd_high = 85, bd_integer = False\<rparr>),
      (''macd_hist_min'', \<lparr>bd_low = 0, bd_high = 1 / 2, bd_integer = False\<rparr>), (''bb_period'', \<lparr>bd_low = 8, bd_high = 40, bd_integer = True\<rparr>),
      (''bb_std'', \<lparr>bd_low = 1, bd_high = 3, bd_integer = False\<rparr>), (''rsi_oversold'', \<lparr>bd_low = 15, bd_high = 40, bd_integer = False\<rparr>),
      (''rsi_overbought'', \<lparr>bd_low = 60, bd_high = 85, bd_integer = False\<rparr>)],
     cb_max_challengers_per_campaign = 8\<rparr>"

definition bound_allows :: "challenger_bounds \<Rightarrow> string \<Rightarrow> bool" where
  "bound_allows bs name = (map_of (cb_parameters bs) name \<noteq> None)"

definition BOUNDS_VERSION :: string where
  "BOUNDS_VERSION = ''1''"

subsection \<open>Proposals\<close>

record clamp_note =
  km_parameter :: string
  km_requested :: rat
  km_applied :: rat

record proposal =
  pp_strategy_id :: string
  pp_symbol :: string
  pp_base_version :: string
  pp_parameters :: "(string \<times> rat) list"
  pp_rationale :: string
  pp_clamped :: "clamp_note list"
  pp_bounds_version :: string
  pp_generated_at :: "instant option"
  pp_generator :: string

type_synonym id_digest = "string \<times> string \<times> string \<times> (string \<times> rat) list \<Rightarrow> string"

definition proposal_id :: "id_digest \<Rightarrow> proposal \<Rightarrow> string" where
  "proposal_id digest p = ''chal-'' @ take 12 (digest (pp_strategy_id p, pp_symbol p, pp_base_version p, pp_parameters p))"

text \<open>The loop over the sorted parameters: what is applied, and what moved.\<close>

fun clamp_all :: "challenger_bounds \<Rightarrow> (string \<times> rat) list \<Rightarrow> exn + (string \<times> rat) list \<times> clamp_note list" where
  "clamp_all bs [] = Inr ([], [])"
| "clamp_all bs ((name, x) # rest) =
     (case map_of (cb_parameters bs) name of
        None \<Rightarrow> Inl (ValueError [S name, S '' has no declared bound, so it cannot be proposed. Bounded parameters: '', S (join '', '' (sort (map fst (cb_parameters bs))))])
      | Some b \<Rightarrow>
          bindE (clamp_all bs rest) (\<lambda>(applied, notes).
            (let (y, moved) = clamp b x in
             Inr ((name, y) # applied, (if moved then [\<lparr>km_parameter = name, km_requested = x, km_applied = y\<rparr>] else []) @ notes))))"

definition build_challenger ::
  "challenger_bounds \<Rightarrow> string \<Rightarrow> string \<Rightarrow> string \<Rightarrow> (string \<times> rat) list \<Rightarrow> string \<Rightarrow> instant option \<Rightarrow> exn + proposal" where
  "build_challenger bs strategy_id symbol base_version parameters rationale generated_at =
     (if strip rationale = [] then Inl (ValueError [S ''a challenger needs a rationale: a proposal nobody can argue with is one that gets approved by default''])
      else
        bindE (clamp_all bs (sort_key fst parameters)) (\<lambda>(applied, notes).
          Inr \<lparr>pp_strategy_id = strategy_id, pp_symbol = symbol, pp_base_version = base_version, pp_parameters = applied,
               pp_rationale = strip rationale, pp_clamped = notes, pp_bounds_version = BOUNDS_VERSION, pp_generated_at = generated_at,
               pp_generator = ''deterministic:perturbation/1''\<rparr>))"

subsection \<open>Perturbations\<close>

definition DEFAULT_STEPS :: "rat list" where
  "DEFAULT_STEPS = [- 2 / 10, 2 / 10]"

text \<open>\<open>f"{step:+.0%}"\<close>.\<close>

definition fmt_percent :: "rat \<Rightarrow> string" where
  "fmt_percent x = (if 0 \<le> x then ''+'' else ''-'') @ show_int \<bar>round_half_even (x * 100)\<bar> @ [CHR 0x25]"

definition perturbation_rationale :: "string \<Rightarrow> rat \<Rightarrow> rat \<Rightarrow> string" where
  "perturbation_rationale axis step base =
     axis @ '' '' @ fmt_percent step @ '' from the champion'' @ CHR 0x27 # ''s '' @ fmt_g base @
     ''. Asks whether that value is a peak or a point on a slope -- a champion sitting on a spike is fitted to the sample that chose it.''"

definition bounded_champion :: "challenger_bounds \<Rightarrow> (string \<times> rat) list \<Rightarrow> (string \<times> rat) list" where
  "bounded_champion bs champion = sort_key fst (filter (\<lambda>(k, _). bound_allows bs k) champion)"

text \<open>One axis moved by one step; skipped when it clamps back onto the champion or is already there.\<close>

definition perturb ::
  "id_digest \<Rightarrow> challenger_bounds \<Rightarrow> string \<Rightarrow> string \<Rightarrow> string \<Rightarrow> (string \<times> rat) list \<Rightarrow> instant option \<Rightarrow> string \<times> rat
     \<Rightarrow> proposal list \<Rightarrow> exn + proposal list" where
  "perturb digest bs strategy_id symbol base_version champion generated_at = (\<lambda>(axis, step) out.
     (case map_of champion axis of
        None \<Rightarrow> Inl (ValueError [S ''KeyError'', S axis])
      | Some base \<Rightarrow>
          bindE (build_challenger bs strategy_id symbol base_version
                   (filter (\<lambda>(k, _). bound_allows bs k) (AList.update axis (base * (1 + step)) champion))
                   (perturbation_rationale axis step base) generated_at) (\<lambda>p.
            Inr (if pp_parameters p = bounded_champion bs champion then out
                 else if proposal_id digest p \<in> set (map (proposal_id digest) out) then out
                 else out @ [p]))))"

definition perturbations ::
  "id_digest \<Rightarrow> challenger_bounds \<Rightarrow> string \<Rightarrow> string \<Rightarrow> string \<Rightarrow> (string \<times> rat) list \<Rightarrow> string list \<Rightarrow> rat list \<Rightarrow> instant option
     \<Rightarrow> exn + proposal list" where
  "perturbations digest bs strategy_id symbol base_version champion axes steps generated_at =
     (let candidates = filter (bound_allows bs) (if axes = [] then sort (map fst champion) else axes) in
      bindE (foldE (perturb digest bs strategy_id symbol base_version champion generated_at)
               (concat (map (\<lambda>axis. map (Pair axis) steps) candidates)) []) (\<lambda>out.
        Inr (if cb_max_challengers_per_campaign bs < length out
             then take (cb_max_challengers_per_campaign bs) (sort_key (proposal_id digest) out) else out)))"

subsection \<open>Campaigns\<close>

record challenger_result =
  ct_challenger :: proposal
  ct_out_of_sample_sharpe :: "rat option"
  ct_out_of_sample_trades :: nat
  ct_parameter_stability :: "rat option"
  ct_deflated_sharpe_own_search :: "rat option"
  ct_deflated_sharpe_campaign :: "rat option"
  ct_trials_own_search :: nat
  ct_trials_campaign :: nat
  ct_error :: "msg option"

record campaign_result =
  cn_results :: "challenger_result list"
  cn_pooled_trials :: nat
  cn_min_deflated_sharpe :: rat

definition blank_result :: "proposal \<Rightarrow> challenger_result" where
  "blank_result p = \<lparr>ct_challenger = p, ct_out_of_sample_sharpe = None, ct_out_of_sample_trades = 0, ct_parameter_stability = None,
     ct_deflated_sharpe_own_search = None, ct_deflated_sharpe_campaign = None, ct_trials_own_search = 0, ct_trials_campaign = 0, ct_error = None\<rparr>"

text \<open>The first pass: one entry per distinct identifier, with the outcome when the walk-forward answered.\<close>

fun campaign_runs :: "id_digest \<Rightarrow> (proposal \<Rightarrow> exn + walk_forward_result) \<Rightarrow> proposal list \<Rightarrow> string list
     \<Rightarrow> (proposal \<times> (exn + walk_forward_result)) list" where
  "campaign_runs digest run_walk_forward [] seen = []"
| "campaign_runs digest run_walk_forward (p # ps) seen =
     (if proposal_id digest p \<in> set seen then campaign_runs digest run_walk_forward ps seen
      else (p, run_walk_forward p) # campaign_runs digest run_walk_forward ps (proposal_id digest p # seen))"

definition pooled_sharpes :: "(proposal \<times> (exn + walk_forward_result)) list \<Rightarrow> rat list" where
  "pooled_sharpes runs = concat (map (\<lambda>(p, o'). case o' of Inl e \<Rightarrow> [] | Inr w \<Rightarrow> wf_trial_sharpes w) runs)"

text \<open>The second pass, on one entry: deflation against everything the campaign tried.\<close>

definition judge ::
  "(rat list \<Rightarrow> rat list \<Rightarrow> exn + rat option) \<Rightarrow> rat list \<Rightarrow> proposal \<times> (exn + walk_forward_result) \<Rightarrow> exn + challenger_result" where
  "judge deflate pooled = (\<lambda>(p, o').
     (case o' of
        Inl e \<Rightarrow> Inr ((blank_result p)\<lparr>ct_error := Some (exn_text e)\<rparr>)
      | Inr w \<Rightarrow>
          bindE (if wf_out_of_sample_returns w = [] \<or> pooled = [] then Inr None else deflate (wf_out_of_sample_returns w) pooled) (\<lambda>d.
            Inr ((blank_result p)\<lparr>ct_out_of_sample_sharpe := Some (wf_out_of_sample_sharpe w), ct_out_of_sample_trades := wf_out_of_sample_trades w,
                   ct_parameter_stability := Some (wf_parameter_stability w), ct_deflated_sharpe_own_search := wf_deflated_sharpe_ratio w,
                   ct_deflated_sharpe_campaign := d, ct_trials_own_search := wf_n_trials w, ct_trials_campaign := length pooled\<rparr>))))"

fun judge_all ::
  "(rat list \<Rightarrow> rat list \<Rightarrow> exn + rat option) \<Rightarrow> rat list \<Rightarrow> (proposal \<times> (exn + walk_forward_result)) list \<Rightarrow> exn + challenger_result list" where
  "judge_all deflate pooled [] = Inr []"
| "judge_all deflate pooled (r # rs) = bindE (judge deflate pooled r) (\<lambda>x. bindE (judge_all deflate pooled rs) (\<lambda>xs. Inr (x # xs)))"

definition evaluate_campaign ::
  "id_digest \<Rightarrow> proposal list \<Rightarrow> (proposal \<Rightarrow> exn + walk_forward_result) \<Rightarrow> (rat list \<Rightarrow> rat list \<Rightarrow> exn + rat option) \<Rightarrow> rat \<Rightarrow> exn + campaign_result" where
  "evaluate_campaign digest ps run_walk_forward deflate min_deflated =
     (let runs = campaign_runs digest run_walk_forward ps []; pooled = pooled_sharpes runs in
      bindE (judge_all deflate pooled runs) (\<lambda>results.
        Inr \<lparr>cn_results = results, cn_pooled_trials = length pooled, cn_min_deflated_sharpe = min_deflated\<rparr>))"

definition survivors :: "campaign_result \<Rightarrow> challenger_result list" where
  "survivors c = filter (\<lambda>r. ct_error r = None \<and> (case ct_deflated_sharpe_campaign r of None \<Rightarrow> False | Some d \<Rightarrow> cn_min_deflated_sharpe c \<le> d)) (cn_results c)"

subsection \<open>The learning cycle\<close>

record learning_thresholds =
  lt_min_paper_round_trips :: int
  lt_min_out_of_sample_trades :: int
  lt_min_parameter_stability :: rat
  lt_min_deflated_sharpe :: rat

definition default_learning :: learning_thresholds where
  "default_learning = \<lparr>lt_min_paper_round_trips = 20, lt_min_out_of_sample_trades = 30, lt_min_parameter_stability = 1 / 2,
     lt_min_deflated_sharpe = 95 / 100\<rparr>"

definition is_qualified :: "challenger_result \<Rightarrow> learning_thresholds \<Rightarrow> bool" where
  "is_qualified r t =
     (ct_error r = None \<and>
      (case ct_deflated_sharpe_campaign r of None \<Rightarrow> False | Some d \<Rightarrow> lt_min_deflated_sharpe t \<le> d) \<and>
      (case ct_out_of_sample_sharpe r of None \<Rightarrow> False | Some x \<Rightarrow> 0 < x) \<and>
      lt_min_out_of_sample_trades t \<le> int (ct_out_of_sample_trades r) \<and>
      (case ct_parameter_stability r of None \<Rightarrow> False | Some x \<Rightarrow> lt_min_parameter_stability t \<le> x))"

text \<open>\<open>Challenger.to_dict\<close>, as the store takes it.\<close>

definition challenger_dict :: "id_digest \<Rightarrow> proposal \<Rightarrow> challenger" where
  "challenger_dict digest p = \<lparr>ch_challenger_id = proposal_id digest p, ch_strategy_id = pp_strategy_id p, ch_symbol = pp_symbol p,
     ch_base_version = pp_base_version p, ch_parameters = JObj (map (\<lambda>(k, x). (k, JFloat (Fin x))) (pp_parameters p)),
     ch_rationale = pp_rationale p, ch_clamped = map km_parameter (pp_clamped p), ch_bounds_version = pp_bounds_version p,
     ch_generator = pp_generator p\<rparr>"

record cycle_report =
  cy_report :: learning_report
  cy_campaign :: "campaign_result option"
  cy_qualified :: "string list"
  cy_recorded :: "nat list"

text \<open>What the learner is run with. \<open>ln_up n\<close> tells whether the store answers its \<open>n\<close>-th call from the end.\<close>

record learner =
  ln_digest :: id_digest
  ln_campaign_digest :: "string \<times> string \<times> string \<times> (string \<times> rat) list \<times> instant \<Rightarrow> string"
  ln_content_hash :: "learning_report \<Rightarrow> string"
  ln_walk_forward :: "proposal \<Rightarrow> exn + walk_forward_result"
  ln_deflate :: "rat list \<Rightarrow> rat list \<Rightarrow> exn + rat option"
  ln_store :: "store_settings option"
  ln_up :: "nat \<Rightarrow> bool"
  ln_clock :: instant

definition campaign_id_of :: "learner \<Rightarrow> string \<Rightarrow> string \<Rightarrow> string \<Rightarrow> (string \<times> rat) list \<Rightarrow> instant \<Rightarrow> string" where
  "campaign_id_of lw strategy_id symbol base_version champion as_of =
     ''learn-'' @ take 16 (ln_campaign_digest lw (strategy_id, upper symbol, base_version, champion, as_of))"

definition cycle_report_of :: "learner \<Rightarrow> string \<Rightarrow> string \<Rightarrow> string \<Rightarrow> string \<Rightarrow> string \<Rightarrow> instant \<Rightarrow> learning_report" where
  "cycle_report_of lw campaign_id status strategy_id symbol base_version as_of =
     (let r = \<lparr>lr_campaign_id = campaign_id, lr_strategy_id = strategy_id, lr_symbol = upper symbol, lr_base_version = base_version,
               lr_status = status, lr_as_of = as_of, lr_content_hash = None, lr_deployment_authority = Some False,
               lr_promotion_authority = Some False\<rparr>
      in r\<lparr>lr_content_hash := Some (ln_content_hash lw r)\<rparr>)"

definition finish_cycle ::
  "learner \<Rightarrow> string \<Rightarrow> learning_report \<Rightarrow> campaign_result option \<Rightarrow> string list \<Rightarrow> nat list \<Rightarrow> db \<Rightarrow> (exn + cycle_report) \<times> db" where
  "finish_cycle lw account_id report campaign qualified recorded d =
     (let answer = \<lparr>cy_report = report, cy_campaign = campaign, cy_qualified = qualified, cy_recorded = recorded\<rparr> in
      case ln_store lw of
        None \<Rightarrow> (Inr answer, d)
      | Some cfg \<Rightarrow>
          if \<not> ln_up lw 0 then (Inl (DatabaseError ''learning_cycle''), d)
          else (case record_learning_cycle cfg (ln_clock lw) report (Some account_id) d of
                  Inl e \<Rightarrow> (Inl e, d)
                | Inr (_, d') \<Rightarrow> (Inr answer, d')))"

fun record_proposals ::
  "learner \<Rightarrow> store_settings \<Rightarrow> string \<Rightarrow> string \<Rightarrow> nat \<Rightarrow> string list \<Rightarrow> challenger_result list \<Rightarrow> db \<Rightarrow> (exn + nat list) \<times> db" where
  "record_proposals lw cfg campaign_id account_id pooled qualified [] d = (Inr [], d)"
| "record_proposals lw cfg campaign_id account_id pooled qualified (r # rs) d =
     (if \<not> ln_up lw (Suc (length rs)) then (Inl (DatabaseError ''challenger_proposal''), d)
      else
        (case record_challenger_proposal cfg (ln_clock lw) campaign_id (challenger_dict (ln_digest lw) (ct_challenger r))
                (map_option Fin (ct_deflated_sharpe_campaign r)) (map_option Fin (ct_deflated_sharpe_own_search r)) (int pooled)
                (map_option Fin (ct_out_of_sample_sharpe r)) (proposal_id (ln_digest lw) (ct_challenger r) \<in> set qualified) (Some account_id) d of
           (n, d') \<Rightarrow>
             (case record_proposals lw cfg campaign_id account_id pooled qualified rs d' of
                (Inl e, d'') \<Rightarrow> (Inl e, d'')
              | (Inr ns, d'') \<Rightarrow> (Inr (n # ns), d''))))"

definition run_learning_cycle ::
  "learner \<Rightarrow> learning_thresholds \<Rightarrow> challenger_bounds \<Rightarrow> string \<Rightarrow> string \<Rightarrow> string \<Rightarrow> (string \<times> rat) list \<Rightarrow> nat \<Rightarrow> veto_decision
     \<Rightarrow> string \<Rightarrow> instant \<Rightarrow> db \<Rightarrow> (exn + cycle_report) \<times> db" where
  "run_learning_cycle lw t bs strategy_id symbol base_version champion paper_trades veto account_id moment d =
     (let campaign_id = campaign_id_of lw strategy_id symbol base_version champion moment;
          report = (\<lambda>status. cycle_report_of lw campaign_id status strategy_id symbol base_version moment);
          stop = (\<lambda>status. finish_cycle lw account_id (report status) None [] [] d)
      in if vd_rejected veto then stop ''VETOED''
         else if vd_unchecked veto \<noteq> [] then stop ''VETO_INCOMPLETE''
         else if int paper_trades < lt_min_paper_round_trips t then stop ''INSUFFICIENT_PAPER_EVIDENCE''
         else
           (case perturbations (ln_digest lw) bs strategy_id symbol base_version champion [] DEFAULT_STEPS (Some moment) of
              Inl e \<Rightarrow> (Inl e, d)
            | Inr ps \<Rightarrow>
                if ps = [] then stop ''NO_CHALLENGERS''
                else
                  (case evaluate_campaign (ln_digest lw) ps (ln_walk_forward lw) (ln_deflate lw) (lt_min_deflated_sharpe t) of
                     Inl e \<Rightarrow> (Inl e, d)
                   | Inr c \<Rightarrow>
                       (let qualified = map (\<lambda>r. proposal_id (ln_digest lw) (ct_challenger r)) (filter (\<lambda>r. is_qualified r t) (cn_results c)) in
                        case ln_store lw of
                          None \<Rightarrow> finish_cycle lw account_id (report ''EVALUATED_UNRECORDED'') (Some c) qualified [] d
                        | Some cfg \<Rightarrow>
                            (case record_proposals lw cfg campaign_id account_id (cn_pooled_trials c) qualified (cn_results c) d of
                               (Inl e, d') \<Rightarrow> (Inl e, d')
                             | (Inr ns, d') \<Rightarrow> finish_cycle lw account_id (report ''RECORDED'') (Some c) qualified ns d')))))"

subsection \<open>Every proposal is inside the bounds\<close>

definition within_bound :: "challenger_bounds \<Rightarrow> string \<Rightarrow> rat \<Rightarrow> bool" where
  "within_bound bs name x = (\<exists>b. map_of (cb_parameters bs) name = Some b \<and> bd_low b \<le> x \<and> x \<le> bd_high b)"

text \<open>The bounds themselves are intervals.\<close>

definition proper_bounds :: "challenger_bounds \<Rightarrow> bool" where
  "proper_bounds bs = (\<forall>(_, b) \<in> set (cb_parameters bs). bd_low b \<le> bd_high b)"

lemma default_bounds_proper: "proper_bounds default_bounds"
  by (simp add: proper_bounds_def default_bounds_def)

lemma clamp_within: "bd_low b \<le> bd_high b \<Longrightarrow> bd_low b \<le> fst (clamp b x) \<and> fst (clamp b x) \<le> bd_high b"
  by (auto simp: clamp_def Let_def min_def max_def)

lemma clamp_inside: "bd_low b \<le> x \<Longrightarrow> x \<le> bd_high b \<Longrightarrow> \<not> bd_integer b \<Longrightarrow> clamp b x = (x, False)"
  by (simp add: clamp_def Let_def)

lemma clamp_all_within:
  assumes "clamp_all bs ps = Inr (applied, ks)" and "proper_bounds bs"
  shows "map fst applied = map fst ps \<and> (\<forall>(k, x) \<in> set applied. within_bound bs k x)"
  using assms(1)
proof (induction ps arbitrary: applied ks)
  case (Cons p ps)
  obtain name x where p: "p = (name, x)" by (cases p)
  from Cons.prems p obtain b rest ks' where b: "map_of (cb_parameters bs) name = Some b" and rest: "clamp_all bs ps = Inr (rest, ks')"
    and applied: "applied = (name, fst (clamp b x)) # rest"
    by (auto simp: bindE_Inr_iff case_prod_unfold Let_def split: option.splits)
  from b assms(2) have "bd_low b \<le> bd_high b" by (auto simp: proper_bounds_def dest: map_of_SomeD)
  with clamp_within b have "within_bound bs name (fst (clamp b x))" by (auto simp: within_bound_def)
  with Cons.IH [OF rest] applied p show ?case by simp
qed auto

lemma built_within:
  assumes "build_challenger bs sid sy v ps why at' = Inr p" and "proper_bounds bs"
  shows "(\<forall>(k, x) \<in> set (pp_parameters p). within_bound bs k x) \<and> map fst (pp_parameters p) = map fst (sort_key fst ps) \<and>
    pp_strategy_id p = sid \<and> pp_symbol p = sy \<and> pp_base_version p = v"
  using assms clamp_all_within [OF _ assms(2), of "sort_key fst ps"]
  by (auto simp: build_challenger_def bindE_Inr_iff split: if_splits prod.splits)

lemma clamp_all_values:
  "clamp_all bs ps = Inr (applied, ks) \<Longrightarrow> (k, x) \<in> set applied \<Longrightarrow> \<exists>y b. (k, y) \<in> set ps \<and> map_of (cb_parameters bs) k = Some b \<and> x = fst (clamp b y)"
proof (induction bs ps arbitrary: applied ks rule: clamp_all.induct)
  case (2 bs name z rest)
  then obtain b applied' ks' where b: "map_of (cb_parameters bs) name = Some b" and rest: "clamp_all bs rest = Inr (applied', ks')"
    and applied: "applied = (name, fst (clamp b z)) # applied'"
    by (auto simp: bindE_Inr_iff case_prod_unfold Let_def split: option.splits)
  show ?case
  proof (cases "(k, x) = (name, fst (clamp b z))")
    case True
    with b show ?thesis by auto
  next
    case False
    with 2(3) applied have "(k, x) \<in> set applied'" by auto
    from 2(1) [OF b rest this] show ?thesis by auto
  qed
qed simp

text \<open>The champion's own values survive the clamp.\<close>

definition champion_inside :: "challenger_bounds \<Rightarrow> (string \<times> rat) list \<Rightarrow> bool" where
  "champion_inside bs champion = (\<forall>(k, x) \<in> set champion. \<forall>b. map_of (cb_parameters bs) k = Some b \<longrightarrow> fst (clamp b x) = x)"

lemma champion_inside_eq:
  "champion_inside bs champion = list_all (\<lambda>(k, x). case map_of (cb_parameters bs) k of None \<Rightarrow> True | Some b \<Rightarrow> fst (clamp b x) = x) champion"
  by (auto simp: champion_inside_def list_all_iff split: option.splits)

definition one_axis :: "(string \<times> rat) list \<Rightarrow> proposal \<Rightarrow> bool" where
  "one_axis champion p = (\<exists>axis. \<forall>(k, x) \<in> set (pp_parameters p). k \<noteq> axis \<longrightarrow> (k, x) \<in> set champion)"

definition fair_proposal :: "challenger_bounds \<Rightarrow> (string \<times> rat) list \<Rightarrow> proposal \<Rightarrow> bool" where
  "fair_proposal bs champion p =
     ((\<forall>(k, x) \<in> set (pp_parameters p). within_bound bs k x) \<and> pp_parameters p \<noteq> bounded_champion bs champion \<and>
      (champion_inside bs champion \<longrightarrow> one_axis champion p))"

lemma built_one_axis:
  assumes "build_challenger bs sid sy v (filter (\<lambda>(k, _). bound_allows bs k) (AList.update axis y champion)) why at' = Inr p"
    and "champion_inside bs champion"
  shows "one_axis champion p"
proof -
  let ?ps = "filter (\<lambda>(k, _). bound_allows bs k) (AList.update axis y champion)"
  from assms(1) obtain ks where c: "clamp_all bs (sort_key fst ?ps) = Inr (pp_parameters p, ks)"
    by (auto simp: build_challenger_def bindE_Inr_iff split: if_splits)
  have "(k, x) \<in> set champion" if kx: "(k, x) \<in> set (pp_parameters p)" and ne: "k \<noteq> axis" for k x
  proof -
    from clamp_all_values [OF c kx] obtain z b where z: "(k, z) \<in> set ?ps" and b: "map_of (cb_parameters bs) k = Some b" and x: "x = fst (clamp b z)" by auto
    from z ne alist_update_mem have "(k, z) \<in> set champion" by fastforce
    with b x assms(2) show ?thesis by (auto simp: champion_inside_def)
  qed
  then show ?thesis by (auto simp: one_axis_def)
qed

lemma foldE_inv:
  "foldE f xs s = Inr t \<Longrightarrow> P s \<Longrightarrow> (\<And>x s t. P s \<Longrightarrow> f x s = Inr t \<Longrightarrow> P t) \<Longrightarrow> P t"
  by (induction xs arbitrary: s) (auto simp: bindE_Inr_iff)

lemma foldE_total: "(\<And>x s. x \<in> set xs \<Longrightarrow> \<exists>t. f x s = Inr t) \<Longrightarrow> \<exists>t. foldE f xs s = Inr t"
proof (induction xs arbitrary: s)
  case (Cons x xs)
  then obtain t where "f x s = Inr t" by (meson list.set_intros(1))
  with Cons show ?case by simp
qed simp

lemma perturb_fair:
  assumes "perturb digest bs sid sy v champion at' ax out = Inr out'" and "proper_bounds bs"
    and "(\<forall>p \<in> set out. fair_proposal bs champion p) \<and> distinct (map (proposal_id digest) out)"
  shows "(\<forall>p \<in> set out'. fair_proposal bs champion p) \<and> distinct (map (proposal_id digest) out')"
proof -
  obtain axis step where ax: "ax = (axis, step)" by (cases ax)
  from assms(1) ax obtain base p where p: "build_challenger bs sid sy v
        (filter (\<lambda>(k, _). bound_allows bs k) (AList.update axis (base * (1 + step)) champion)) (perturbation_rationale axis step base) at' = Inr p"
    and out': "out' = (if pp_parameters p = bounded_champion bs champion \<or> proposal_id digest p \<in> set (map (proposal_id digest) out) then out else out @ [p])"
    by (auto simp: perturb_def bindE_Inr_iff split: option.splits if_splits)
  have "fair_proposal bs champion p" if "pp_parameters p \<noteq> bounded_champion bs champion"
    using built_within [OF p assms(2)] built_one_axis [OF p] that by (simp add: fair_proposal_def)
  with out' assms(3) show ?thesis by auto
qed

lemma perturbations_fair:
  assumes "perturbations digest bs sid sy v champion axes steps at' = Inr ps" and "proper_bounds bs"
  shows "length ps \<le> cb_max_challengers_per_campaign bs \<and> distinct (map (proposal_id digest) ps) \<and> (\<forall>p \<in> set ps. fair_proposal bs champion p)"
proof -
  let ?P = "\<lambda>out. (\<forall>p \<in> set out. fair_proposal bs champion p) \<and> distinct (map (proposal_id digest) out)"
  from assms(1) obtain xs out where out: "foldE (perturb digest bs sid sy v champion at') xs [] = Inr out"
    and ps: "ps = (if cb_max_challengers_per_campaign bs < length out
                   then take (cb_max_challengers_per_campaign bs) (sort_key (proposal_id digest) out) else out)"
    by (auto simp: perturbations_def bindE_Inr_iff Let_def)
  have "?P out" using out by (rule foldE_inv) (simp, rule perturb_fair [OF _ assms(2)], assumption+)
  moreover have "distinct (map (proposal_id digest) (sort_key (proposal_id digest) out))" if "distinct (map (proposal_id digest) out)"
    using that by (simp add: distinct_map)
  ultimately show ?thesis unfolding ps by (auto simp: take_map [symmetric] dest: in_set_takeD)
qed

lemma strip_Nil: "strip w = [] \<longleftrightarrow> (\<forall>c \<in> set w. is_space c)"
proof -
  have "strip w = [] \<longleftrightarrow> (\<forall>c \<in> set (dropWhile is_space w). is_space c)" by (simp add: strip_def dropWhile_eq_Nil_conv)
  then show ?thesis by (metis dropWhile_eq_Nil_conv hd_dropWhile hd_in_set set_dropWhileD)
qed

lemma clamp_all_total: "\<forall>(k, x) \<in> set ps. bound_allows bs k \<Longrightarrow> \<exists>r. clamp_all bs ps = Inr r"
  by (induction bs ps rule: clamp_all.induct) (auto simp: bound_allows_def Let_def split: prod.splits)

lemma perturb_total:
  assumes "axis \<in> set (map fst champion)"
  shows "\<exists>out'. perturb digest bs sid sy v champion at' (axis, step) out = Inr out'"
proof -
  obtain base where base: "map_of champion axis = Some base" using assms by (metis list.set_map map_of_eq_None_iff not_Some_eq)
  have "strip (perturbation_rationale axis step base) \<noteq> []"
    unfolding strip_Nil perturbation_rationale_def set_append by (auto simp: is_space_def)
  moreover obtain r where "clamp_all bs (sort_key fst (filter (\<lambda>(k, _). bound_allows bs k) (AList.update axis (base * (1 + step)) champion))) = Inr r"
    using clamp_all_total [of "sort_key fst (filter (\<lambda>(k, _). bound_allows bs k) (AList.update axis (base * (1 + step)) champion))" bs] by auto
  ultimately show ?thesis by (simp add: perturb_def base build_challenger_def case_prod_unfold)
qed

lemma perturbations_total: "\<exists>ps. perturbations digest bs sid sy v champion [] steps at' = Inr ps"
proof -
  have "\<exists>out. foldE (perturb digest bs sid sy v champion at') (concat (map (\<lambda>axis. map (Pair axis) steps) (filter (bound_allows bs) (sort (map fst champion))))) [] = Inr out"
    by (rule foldE_total) (force intro!: perturb_total)
  then show ?thesis by (auto simp: perturbations_def Let_def)
qed

text \<open>
  The generator stays inside its bounds. For every champion whose values the bounds allow, it always answers, with no
  more proposals than the cap, no two of them with the same identifier, each value within its declared interval, none of
  them the champion itself, and each differing from the champion in at most one parameter.
\<close>

theorem proposals_stay_in_bounds:
  assumes "proper_bounds bs" and "champion_inside bs champion"
  shows "\<exists>ps. perturbations digest bs strategy_id symbol base_version champion [] steps at' = Inr ps \<and>
    length ps \<le> cb_max_challengers_per_campaign bs \<and> distinct (map (proposal_id digest) ps) \<and>
    (\<forall>p \<in> set ps. (\<forall>(k, x) \<in> set (pp_parameters p). within_bound bs k x) \<and> pp_parameters p \<noteq> bounded_champion bs champion \<and> one_axis champion p)"
proof -
  obtain ps where ps: "perturbations digest bs strategy_id symbol base_version champion [] steps at' = Inr ps" using perturbations_total by blast
  with perturbations_fair [OF ps assms(1)] assms(2) show ?thesis by (auto simp: fair_proposal_def)
qed

definition champion_values :: "(string \<times> rat) list" where
  "champion_values = [(''ema_fast'', 20), (''ema_slow'', 50), (''rsi_buy_min'', 45), (''rsi_buy_max'', 70), (''macd_hist_min'', 0)]"

definition demo_ids :: id_digest where
  "demo_ids = (\<lambda>(a, b, c, ps). concat (map (\<lambda>(k, x). show_int \<lfloor>x\<rfloor>) ps))"

theorem proposals_stay_in_bounds_witness:
  "\<exists>ps. perturbations demo_ids default_bounds ''ema_rsi_macd'' ''SPY'' ''v1'' champion_values [] DEFAULT_STEPS None = Inr ps \<and> length ps \<le> 8 \<and>
    (\<forall>p \<in> set ps. one_axis champion_values p)"
proof -
  have inside: "champion_inside default_bounds champion_values"
    unfolding champion_inside_eq by code_simp
  have "cb_max_challengers_per_campaign default_bounds = 8" by (simp add: default_bounds_def)
  with proposals_stay_in_bounds [OF default_bounds_proper inside, of demo_ids "''ema_rsi_macd''" "''SPY''" "''v1''" DEFAULT_STEPS None]
  show ?thesis by auto
qed

subsection \<open>A campaign judges everything against everything it tried\<close>

definition trials_of :: "exn + walk_forward_result \<Rightarrow> rat list" where
  "trials_of o' = (case o' of Inl e \<Rightarrow> [] | Inr w \<Rightarrow> wf_trial_sharpes w)"

lemma runs_outcome: "(p, o') \<in> set (campaign_runs digest run ps seen) \<Longrightarrow> o' = run p \<and> p \<in> set ps \<and> proposal_id digest p \<notin> set seen"
  by (induction digest run ps seen rule: campaign_runs.induct) (auto split: if_splits)

lemma runs_distinct: "distinct (map (\<lambda>(p, _). proposal_id digest p) (campaign_runs digest run ps seen))"
  by (induction digest run ps seen rule: campaign_runs.induct) (auto dest: runs_outcome)

lemma runs_cover: "p \<in> set ps \<Longrightarrow> proposal_id digest p \<in> set seen \<union> (\<lambda>(p, _). proposal_id digest p) ` set (campaign_runs digest run ps seen)"
  by (induction digest run ps seen rule: campaign_runs.induct) auto

lemma judge_all_map:
  "judge_all deflate pooled rs = Inr results \<Longrightarrow> length results = length rs \<and> (\<forall>i < length rs. judge deflate pooled (rs ! i) = Inr (results ! i))"
proof (induction rs arbitrary: results)
  case (Cons r rs)
  then obtain x xs where "judge deflate pooled r = Inr x" "judge_all deflate pooled rs = Inr xs" "results = x # xs" by (auto simp: bindE_Inr_iff)
  with Cons.IH [of xs] show ?case by (auto simp: nth_Cons split: nat.splits)
qed simp

lemma judge_meaning:
  "judge deflate pooled (p, o') = Inr r \<Longrightarrow> ct_challenger r = p \<and>
     (case o' of
        Inl e \<Rightarrow> ct_deflated_sharpe_campaign r = None \<and> ct_error r = Some (exn_text e)
      | Inr w \<Rightarrow> ct_trials_campaign r = length pooled \<and>
          (if wf_out_of_sample_returns w = [] \<or> pooled = [] then ct_deflated_sharpe_campaign r = None
           else deflate (wf_out_of_sample_returns w) pooled = Inr (ct_deflated_sharpe_campaign r)))"
  by (auto simp: judge_def blank_result_def bindE_Inr_iff split: sum.splits if_splits)

lemmas judge_challenger = judge_meaning [THEN conjunct1]

lemma judged_challengers:
  assumes "judge_all deflate pooled rs = Inr results"
  shows "map ct_challenger results = map fst rs"
proof (rule nth_equalityI)
  show "length (map ct_challenger results) = length (map fst rs)" using judge_all_map [OF assms] by simp
  fix i assume "i < length (map ct_challenger results)"
  with judge_all_map [OF assms] have "judge deflate pooled (fst (rs ! i), snd (rs ! i)) = Inr (results ! i)" "i < length rs" by auto
  then show "map ct_challenger results ! i = map fst rs ! i" using judge_all_map [OF assms] judge_challenger by fastforce
qed

text \<open>
  C24: Every challenger of a campaign is judged against all trials of the campaign. The results hold every proposed
  identifier once, the pooled count is the number of trial Sharpe ratios of all the runs that answered, and the figure
  the gate reads is the deflation of that challenger's own out-of-sample returns against exactly this pool, never against
  its own search; a challenger whose run failed adds no trial and has no figure.
\<close>

theorem campaign_pools_every_trial:
  assumes "evaluate_campaign digest ps run deflate least = Inr c"
  defines "pooled \<equiv> concat (map (\<lambda>r. trials_of (run (ct_challenger r))) (cn_results c))"
  shows "proposal_id digest ` set ps = set (map (\<lambda>r. proposal_id digest (ct_challenger r)) (cn_results c)) \<and>
    distinct (map (\<lambda>r. proposal_id digest (ct_challenger r)) (cn_results c)) \<and> cn_pooled_trials c = length pooled \<and>
    (\<forall>r \<in> set (cn_results c). case run (ct_challenger r) of
       Inl e \<Rightarrow> ct_deflated_sharpe_campaign r = None \<and> ct_error r = Some (exn_text e)
     | Inr w \<Rightarrow> ct_trials_campaign r = cn_pooled_trials c \<and>
         (if wf_out_of_sample_returns w = [] \<or> pooled = [] then ct_deflated_sharpe_campaign r = None
          else deflate (wf_out_of_sample_returns w) pooled = Inr (ct_deflated_sharpe_campaign r)))"
proof -
  define runs where "runs = campaign_runs digest run ps []"
  from assms(1) have judged: "judge_all deflate (pooled_sharpes runs) runs = Inr (cn_results c)" and count: "cn_pooled_trials c = length (pooled_sharpes runs)"
    by (auto simp: evaluate_campaign_def bindE_Inr_iff runs_def Let_def)
  have fst: "map ct_challenger (cn_results c) = map fst runs" using judged by (rule judged_challengers)
  have snd: "snd x = run (fst x)" if "x \<in> set runs" for x using that runs_outcome [of "fst x" "snd x"] by (auto simp: runs_def)
  have "pooled = concat (map (\<lambda>p. trials_of (run p)) (map ct_challenger (cn_results c)))" by (simp add: pooled_def o_def)
  also have "\<dots> = pooled_sharpes runs"
    unfolding fst pooled_sharpes_def trials_of_def by (auto simp: case_prod_unfold o_def snd intro!: arg_cong [where f = concat])
  finally have pool: "pooled = pooled_sharpes runs" .
  have ids: "map (\<lambda>r. proposal_id digest (ct_challenger r)) (cn_results c) = map (\<lambda>(p, _). proposal_id digest p) runs"
    using arg_cong [OF fst, of "map (proposal_id digest)"] by (simp add: o_def case_prod_unfold)
  have "proposal_id digest ` set ps = set (map (\<lambda>(p, _). proposal_id digest p) runs)"
    using runs_cover [of _ ps digest "[]" run] runs_outcome [of _ _ digest run ps "[]"] by (force simp: runs_def)
  moreover have "distinct (map (\<lambda>(p, _). proposal_id digest p) runs)" unfolding runs_def by (rule runs_distinct)
  moreover have "case run (ct_challenger r) of
       Inl e \<Rightarrow> ct_deflated_sharpe_campaign r = None \<and> ct_error r = Some (exn_text e)
     | Inr w \<Rightarrow> ct_trials_campaign r = cn_pooled_trials c \<and>
         (if wf_out_of_sample_returns w = [] \<or> pooled = [] then ct_deflated_sharpe_campaign r = None
          else deflate (wf_out_of_sample_returns w) pooled = Inr (ct_deflated_sharpe_campaign r))"
    if r: "r \<in> set (cn_results c)" for r
  proof -
    from r obtain i where i: "i < length (cn_results c)" "r = cn_results c ! i" by (auto simp: in_set_conv_nth)
    with judge_all_map [OF judged] have len: "i < length runs" and j: "judge deflate (pooled_sharpes runs) (runs ! i) = Inr r" by auto
    have "snd (runs ! i) = run (fst (runs ! i))" using snd [OF nth_mem [OF len]] .
    with j have "judge deflate pooled (fst (runs ! i), run (fst (runs ! i))) = Inr r" by (simp add: pool) (metis prod.collapse)
    from judge_meaning [OF this] show ?thesis unfolding count pool by metis
  qed
  ultimately show ?thesis using count pool ids by simp
qed

text \<open>Two proposals and a repetition of the first; the second one cannot be evaluated.\<close>

definition demo_outcome :: walk_forward_result where
  "demo_outcome = \<lparr>wf_symbol = ''SPY'', wf_timeframe = ''daily'', wf_bars_count = 500, wf_n_folds = 4, wf_n_trials = 1, wf_trial_sharpes = [1 / 10],
     wf_out_of_sample_returns = [1 / 100], wf_objective = ''sharpe'', wf_embargo_bars = 50, wf_folds = [], wf_in_sample_sharpe = 1,
     wf_out_of_sample_sharpe = 1, wf_out_of_sample_return_pct = 0, wf_out_of_sample_max_drawdown_pct = 0, wf_out_of_sample_trades = 40,
     wf_sharpe_degradation = 0, wf_probabilistic_sharpe_ratio = None, wf_deflated_sharpe_ratio = None, wf_trial_sharpe_dispersion = 0,
     wf_parameter_stability = 1, wf_warnings = []\<rparr>"

definition demo_proposal :: "rat \<Rightarrow> proposal" where
  "demo_proposal x = \<lparr>pp_strategy_id = ''ema_rsi_macd'', pp_symbol = ''SPY'', pp_base_version = ''v1'', pp_parameters = [(''ema_fast'', x)],
     pp_rationale = ''why'', pp_clamped = [], pp_bounds_version = ''1'', pp_generated_at = None, pp_generator = ''test''\<rparr>"

definition demo_run :: "proposal \<Rightarrow> exn + walk_forward_result" where
  "demo_run p = (if pp_parameters p = [(''ema_fast'', 16)] then Inr demo_outcome else Inl (ValueError [S ''not enough data'']))"

theorem campaign_pools_every_trial_witness:
  "\<exists>c. evaluate_campaign demo_ids [demo_proposal 16, demo_proposal 24, demo_proposal 16] demo_run (\<lambda>_ pool. Inr (Some (of_nat (length pool)))) (95 / 100) = Inr c \<and>
     cn_pooled_trials c = 1 \<and> distinct (map (\<lambda>r. proposal_id demo_ids (ct_challenger r)) (cn_results c))"
proof -
  let ?e = "evaluate_campaign demo_ids [demo_proposal 16, demo_proposal 24, demo_proposal 16] demo_run (\<lambda>_ pool. Inr (Some (of_nat (length pool)))) (95 / 100)"
  have "map_sum id cn_pooled_trials ?e = Inr 1" by code_simp
  then obtain c where "?e = Inr c" "cn_pooled_trials c = 1" by (cases ?e) auto
  with campaign_pools_every_trial [of demo_ids _ demo_run _ _ c] show ?thesis by blast
qed

subsection \<open>The learner only appends\<close>

text \<open>What a learning cycle may do to the lifecycle database: nothing but new proposals and one new report.\<close>

definition only_learned :: "db \<Rightarrow> db \<Rightarrow> bool" where
  "only_learned d d' =
     (sleeves d' = sleeves d \<and> transitions_table d' = transitions_table d \<and> evidence_table d' = evidence_table d \<and> artifacts d' = artifacts d \<and>
      environment d' = environment d \<and> reconciliation d' = reconciliation d \<and> journal_health d' = journal_health d \<and>
      (\<exists>cs. challengers d' = challengers d @ cs) \<and> (\<exists>cyc. learning_cycle_table d' = learning_cycle_table d @ cyc))"

lemma only_learned_refl [simp]: "only_learned d d"
  by (simp add: only_learned_def)

lemma only_learned_trans: "only_learned a b \<Longrightarrow> only_learned b c \<Longrightarrow> only_learned a c"
  by (force simp: only_learned_def)

text \<open>The proposals a step has added: at most so many, with parameters among those given.\<close>

definition adds_proposals :: "nat \<Rightarrow> json set \<Rightarrow> db \<Rightarrow> db \<Rightarrow> bool" where
  "adds_proposals n ps d d' =
     (only_learned d d' \<and> length (challengers d') \<le> length (challengers d) + n \<and>
      (\<forall>r \<in> set (challengers d'). r \<in> set (challengers d) \<or> ch_parameters (cr_challenger r) \<in> ps))"

lemma adds_nothing [simp]: "adds_proposals n ps d d"
  by (simp add: adds_proposals_def)

lemma adds_trans: "adds_proposals m ps a b \<Longrightarrow> adds_proposals n qs b c \<Longrightarrow> adds_proposals (m + n) (ps \<union> qs) a c"
  by (auto simp: adds_proposals_def dest: only_learned_trans)

lemma adds_mono: "adds_proposals m ps a b \<Longrightarrow> m \<le> n \<Longrightarrow> ps \<subseteq> qs \<Longrightarrow> adds_proposals n qs a b"
  by (auto simp: adds_proposals_def)

lemma proposal_recorded:
  "record_challenger_proposal cfg now cid c x y n z s acc d = (k, d') \<Longrightarrow> adds_proposals 1 {ch_parameters c} d d'"
  by (auto simp: record_challenger_proposal_def adds_proposals_def only_learned_def split: option.splits)

lemma cycle_recorded: "record_learning_cycle cfg now rep acc d = Inr (k, d') \<Longrightarrow> adds_proposals 0 {} d d'"
  by (auto simp: record_learning_cycle_def Let_def adds_proposals_def only_learned_def split: if_splits option.splits)

lemma finish_recorded: "finish_cycle lw acc rep c q ns d = (res, d') \<Longrightarrow> adds_proposals 0 {} d d'"
  by (auto simp: finish_cycle_def Let_def dest: cycle_recorded split: option.splits if_splits sum.splits)

definition params_json :: "proposal \<Rightarrow> json" where
  "params_json p = JObj (map (\<lambda>(k, x). (k, JFloat (Fin x))) (pp_parameters p))"

lemma proposals_recorded:
  "record_proposals lw cfg cid acc n q rs d = (res, d') \<Longrightarrow> adds_proposals (length rs) ((\<lambda>r. params_json (ct_challenger r)) ` set rs) d d'"
proof (induction lw cfg cid acc n q rs d arbitrary: res d' rule: record_proposals.induct)
  case (2 lw cfg cid acc n q r rs d)
  show ?case
  proof (cases "ln_up lw (Suc (length rs))")
    case True
    obtain k d1 where one: "record_challenger_proposal cfg (ln_clock lw) cid (challenger_dict (ln_digest lw) (ct_challenger r))
        (map_option Fin (ct_deflated_sharpe_campaign r)) (map_option Fin (ct_deflated_sharpe_own_search r)) (int n)
        (map_option Fin (ct_out_of_sample_sharpe r)) (proposal_id (ln_digest lw) (ct_challenger r) \<in> set q) (Some acc) d = (k, d1)"
      by (rule prod.exhaust)
    obtain res1 d2 where rest: "record_proposals lw cfg cid acc n q rs d1 = (res1, d2)" by (rule prod.exhaust)
    from 2 (2) True one rest have "d' = d2" by (auto split: sum.splits)
    moreover have "adds_proposals 1 {params_json (ct_challenger r)} d d1"
      using proposal_recorded [OF one] by (simp add: challenger_dict_def params_json_def)
    moreover have "adds_proposals (length rs) ((\<lambda>r. params_json (ct_challenger r)) ` set rs) d1 d2" using 2 (1) True one rest by simp
    ultimately show ?thesis using adds_trans by fastforce
  next
    case False
    with 2 (2) show ?thesis by auto
  qed
qed simp

lemma campaign_members:
  assumes "evaluate_campaign digest ps run deflate least = Inr c"
  shows "ct_challenger ` set (cn_results c) \<subseteq> set ps" and "length (cn_results c) \<le> length ps"
proof -
  from assms obtain pooled where judged: "judge_all deflate pooled (campaign_runs digest run ps []) = Inr (cn_results c)"
    by (auto simp: evaluate_campaign_def bindE_Inr_iff Let_def)
  from arg_cong [OF judged_challengers [OF this], of set] show "ct_challenger ` set (cn_results c) \<subseteq> set ps"
    using runs_outcome [of _ _ digest run ps "[]"] by auto
  have "length (campaign_runs digest run ps seen) \<le> length ps" for seen
    by (induction digest run ps seen rule: campaign_runs.induct) auto
  with judge_all_map [OF judged] show "length (cn_results c) \<le> length ps" by simp
qed

lemma learner_adds:
  assumes "run_learning_cycle lw t bs strategy_id symbol base_version champion trades veto account_id moment d = (res, d')" and "proper_bounds bs"
  shows "only_learned d d' \<and> length (challengers d') \<le> length (challengers d) + cb_max_challengers_per_campaign bs \<and>
    (\<forall>r \<in> set (challengers d'). r \<in> set (challengers d) \<or>
       (\<exists>ps. ch_parameters (cr_challenger r) = JObj (map (\<lambda>(k, x). (k, JFloat (Fin x))) ps) \<and> (\<forall>(k, x) \<in> set ps. within_bound bs k x))) \<and>
    (challengers d' \<noteq> challengers d \<longrightarrow> \<not> vd_rejected veto \<and> vd_unchecked veto = [] \<and> lt_min_paper_round_trips t \<le> int trades)"
proof -
  let ?ok = "\<not> vd_rejected veto \<and> vd_unchecked veto = [] \<and> lt_min_paper_round_trips t \<le> int trades"
  let ?good = "{params_json p |p. \<forall>(k, x) \<in> set (pp_parameters p). within_bound bs k x}"
  have same: "challengers d' = challengers d" if "adds_proposals 0 {} d d'"
    using that by (auto simp: adds_proposals_def only_learned_def)
  have "adds_proposals (cb_max_challengers_per_campaign bs) ?good d d' \<and> (challengers d' = challengers d \<or> ?ok)"
  proof (cases "adds_proposals 0 {} d d'")
    case True
    then show ?thesis using same adds_mono [OF True] by blast
  next
    case False
    let ?id = "campaign_id_of lw strategy_id symbol base_version champion moment"
    from assms(1) False obtain ps c cfg q res1 d1 where ok: ?ok
      and ps: "perturbations (ln_digest lw) bs strategy_id symbol base_version champion [] DEFAULT_STEPS (Some moment) = Inr ps"
      and c: "evaluate_campaign (ln_digest lw) ps (ln_walk_forward lw) (ln_deflate lw) (lt_min_deflated_sharpe t) = Inr c"
      and rec: "record_proposals lw cfg ?id account_id (cn_pooled_trials c) q (cn_results c) d = (res1, d1)"
      and fin: "adds_proposals 0 {} d1 d'"
      by (auto simp: run_learning_cycle_def Let_def not_less dest: finish_recorded split: if_splits sum.splits option.splits prod.splits)
    have fair: "length ps \<le> cb_max_challengers_per_campaign bs" "\<forall>p \<in> set ps. fair_proposal bs champion p"
      using perturbations_fair [OF ps assms(2)] by blast+
    have "adds_proposals (length (cn_results c) + 0) ((\<lambda>r. params_json (ct_challenger r)) ` set (cn_results c) \<union> {}) d d'"
      using proposals_recorded [OF rec] fin by (rule adds_trans)
    then have "adds_proposals (cb_max_challengers_per_campaign bs) ?good d d'"
    proof (rule adds_mono)
      show "length (cn_results c) + 0 \<le> cb_max_challengers_per_campaign bs" using campaign_members(2) [OF c] fair(1) by simp
      show "(\<lambda>r. params_json (ct_challenger r)) ` set (cn_results c) \<union> {} \<subseteq> ?good"
        using campaign_members(1) [OF c] fair(2) by (fastforce simp: fair_proposal_def)
    qed
    with ok show ?thesis by blast
  qed
  then show ?thesis unfolding adds_proposals_def params_json_def by fast
qed

lemmas learner_bounded = learner_adds [THEN conjunct2, THEN conjunct2, THEN conjunct1]

text \<open>
  The learner has no authority. Whatever its inputs, the walk-forward, the deflation and the outages of the store
  are, a learning cycle leaves the roster, its log, the evidence, the artifacts, the live switch, the halts and the
  journal health of the lifecycle database as they were and removes nothing; it adds no more proposals than the cap,
  all of them with every parameter inside its declared bound, and it adds none at all unless the veto neither objected nor left a
  rule unchecked and the paper record has the required number of round trips.
\<close>

theorem learner_only_proposes:
  assumes "run_learning_cycle lw t bs strategy_id symbol base_version champion trades veto account_id moment d = (res, d')" and "proper_bounds bs"
  shows "only_learned d d' \<and> length (challengers d') \<le> length (challengers d) + cb_max_challengers_per_campaign bs \<and>
    (\<forall>r \<in> set (challengers d'). r \<in> set (challengers d) \<or>
       (\<exists>ps. ch_parameters (cr_challenger r) = JObj (map (\<lambda>(k, x). (k, JFloat (Fin x))) ps) \<and> (\<forall>(k, x) \<in> set ps. within_bound bs k x))) \<and>
    (challengers d' \<noteq> challengers d \<longrightarrow> \<not> vd_rejected veto \<and> vd_unchecked veto = [] \<and> lt_min_paper_round_trips t \<le> int trades)"
  using assms by (rule learner_adds)

definition demo_learner :: learner where
  "demo_learner = \<lparr>ln_digest = demo_ids, ln_campaign_digest = (\<lambda>_. ''c''), ln_content_hash = (\<lambda>_. replicate 64 CHR ''0''), ln_walk_forward = demo_run,
     ln_deflate = (\<lambda>_ pool. Inr (Some (of_nat (length pool)))), ln_store = Some (default_settings), ln_up = (\<lambda>_. True), ln_clock = 5\<rparr>"

definition demo_veto :: veto_decision where
  "demo_veto = \<lparr>vd_subject = ''SPY'', vd_as_of = 5, vd_policy_version = ''1'', vd_objections = [], vd_unchecked = []\<rparr>"

theorem learner_only_proposes_witness:
  "\<exists>res d'. run_learning_cycle demo_learner default_learning default_bounds ''ema_rsi_macd'' ''SPY'' ''v1'' champion_values 25 demo_veto ''default'' 5 empty_db = (res, d') \<and>
     only_learned empty_db d' \<and> length (challengers d') \<le> 8 \<and> sleeves d' = []"
proof -
  obtain res d' where run: "run_learning_cycle demo_learner default_learning default_bounds ''ema_rsi_macd'' ''SPY'' ''v1'' champion_values 25 demo_veto ''default'' 5 empty_db = (res, d')"
    by (rule prod.exhaust)
  have "cb_max_challengers_per_campaign default_bounds = 8" by (simp add: default_bounds_def)
  with learner_only_proposes [OF run default_bounds_proper] run show ?thesis
    by (intro exI conjI) (auto simp: only_learned_def empty_db_def)
qed

subsection \<open>Comparison on paper\<close>

definition DERIVED_MARKER :: char where
  "DERIVED_MARKER = CHR 0x40"

definition derived_strategy_id :: "string \<Rightarrow> string \<Rightarrow> exn + string" where
  "derived_strategy_id champion challenger_id =
     (if DERIVED_MARKER \<in> set champion then Inl (ValueError [S champion, S '' already looks derived; a challenger of a challenger is not a comparison, it is a search nobody is counting''])
      else Inr (champion @ [DERIVED_MARKER] @ challenger_id))"

definition is_derived :: "string \<Rightarrow> bool" where
  "is_derived strategy_id = (DERIVED_MARKER \<in> set strategy_id)"

definition champion_of :: "string \<Rightarrow> string" where
  "champion_of strategy_id = takeWhile (\<lambda>c. c \<noteq> DERIVED_MARKER) strategy_id"

text \<open>The name a challenger trades under leads back to its champion, and two champions never share one.\<close>

lemma derived_id_reverses:
  "derived_strategy_id champion cid = Inr sid \<Longrightarrow> champion_of sid = champion \<and> is_derived sid \<and> \<not> is_derived champion"
proof -
  assume d: "derived_strategy_id champion cid = Inr sid"
  then have "DERIVED_MARKER \<notin> set champion" "sid = champion @ DERIVED_MARKER # cid" by (auto simp: derived_strategy_id_def split: if_splits)
  moreover from this have "takeWhile (\<lambda>c. c \<noteq> DERIVED_MARKER) (champion @ DERIVED_MARKER # cid) = champion" by (subst takeWhile_append2) auto
  ultimately show ?thesis by (simp add: champion_of_def is_derived_def)
qed

record comparison_side =
  sd_label :: string
  sd_strategy_id :: string
  sd_performance :: performance

record comparison =
  cx_symbol :: string
  cx_champion :: comparison_side
  cx_challenger :: comparison_side
  cx_cautions :: "msg list"

definition MIN_TRADES_TO_COMPARE :: nat where
  "MIN_TRADES_TO_COMPARE = 20"

definition compare_side ::
  "(rat \<Rightarrow> rat) \<Rightarrow> bool \<Rightarrow> string \<Rightarrow> string \<Rightarrow> string \<Rightarrow> string \<Rightarrow> string \<Rightarrow> instant option \<Rightarrow> instant option \<Rightarrow> journal \<Rightarrow> comparison_side" where
  "compare_side half_pow read_ok label strategy_id symbol venue account_id window_start window_end j =
     \<lparr>sd_label = label, sd_strategy_id = strategy_id,
      sd_performance = performance_from_trades half_pow
        (load_round_trips read_ok (Some strategy_id) None (Some symbol) (Some venue) account_id window_start window_end 5000 j) None\<rparr>"

text \<open>No side is declared better: the report is the two sides and what speaks against reading them.\<close>

definition compare ::
  "(rat \<Rightarrow> rat) \<Rightarrow> bool \<Rightarrow> string \<Rightarrow> string \<Rightarrow> string \<Rightarrow> string \<Rightarrow> instant option \<Rightarrow> instant option \<Rightarrow> string \<Rightarrow> journal \<Rightarrow> comparison" where
  "compare half_pow read_ok symbol champion_id challenger_id account_id window_start window_end venue j =
     (let one = compare_side half_pow read_ok ''champion'' champion_id symbol venue account_id window_start window_end j;
          two = compare_side half_pow read_ok ''challenger'' challenger_id symbol venue account_id window_start window_end j;
          trades = (\<lambda>s. pf_trades (sd_performance s));
          thin = map sd_label (filter (\<lambda>s. trades s < MIN_TRADES_TO_COMPARE) [one, two]);
          spans = filter (\<lambda>x. x \<noteq> 0) (List.map_filter (\<lambda>s. pf_span_days (sd_performance s)) [one, two]);
          apart = (case spans of [x, y] \<Rightarrow> 0 < max x y \<and> min x y / max x y < 8 / 10 | _ \<Rightarrow> False)
      in \<lparr>cx_symbol = symbol, cx_champion = one, cx_challenger = two,
          cx_cautions = (if thin = [] then [] else [[S (join '' and '' thin), S '' has fewer than '', I (int MIN_TRADES_TO_COMPARE), S '' closed trades; a difference over this sample is dominated by which trades they happened to be'']]) @
            (if apart then [[S ''the two sides did not trade over comparable spans, so they did not face the same market'']] else []) @
            (if trades one = 0 \<or> trades two = 0 then [[S ''one side has no closed trades, so there is nothing to compare -- not a result in either direction'']] else [])\<rparr>)"

lemma thin_comparison_is_cautioned:
  "pf_trades (sd_performance (cx_champion (compare h ok sy a b acc s e v j))) < MIN_TRADES_TO_COMPARE \<or>
   pf_trades (sd_performance (cx_challenger (compare h ok sy a b acc s e v j))) < MIN_TRADES_TO_COMPARE \<Longrightarrow>
   cx_cautions (compare h ok sy a b acc s e v j) \<noteq> []"
  by (auto simp: compare_def Let_def)

subsection \<open>What a challenger can ever trade\<close>

text \<open>
  The life of the proposal table: learning cycles with the shipped bounds, and everything else the store does, none of
  which touches it (\<open>record_challenger_proposal\<close> has no other caller).
\<close>

inductive learning_step :: "db \<Rightarrow> db \<Rightarrow> bool" where
  cycle: "run_learning_cycle lw t default_bounds strategy_id symbol base_version champion trades veto account_id moment d = (res, d') \<Longrightarrow> learning_step d d'"
| other: "challengers d' = challengers d \<Longrightarrow> learning_step d d'"

definition no_proposals :: "db \<Rightarrow> bool" where
  "no_proposals d = (challengers d = [])"

definition bounded_table :: "db \<Rightarrow> bool" where
  "bounded_table d = (\<forall>r \<in> set (challengers d). \<exists>ps. ch_parameters (cr_challenger r) = JObj (map (\<lambda>(k, x). (k, JFloat (Fin x))) ps) \<and>
     (\<forall>(k, x) \<in> set ps. within_bound default_bounds k x))"

interpretation learning: invariant_system no_proposals learning_step bounded_table
proof unfold_locales
  show "bounded_table d" if "no_proposals d" for d using that by (simp add: no_proposals_def bounded_table_def)
  show "bounded_table d'" if "bounded_table d" and "learning_step d d'" for d d'
    using that(2,1)
  proof cases
    case (cycle lw t strategy_id symbol base_version champion trades veto account_id moment res)
    have "r \<in> set (challengers d) \<or> (\<exists>ps. ch_parameters (cr_challenger r) = JObj (map (\<lambda>(k, x). (k, JFloat (Fin x))) ps) \<and>
        (\<forall>(k, x) \<in> set ps. within_bound default_bounds k x))" if "r \<in> set (challengers d')" for r
      using learner_bounded [OF cycle default_bounds_proper] that by blast
    with that(1) show ?thesis unfolding bounded_table_def by blast
  next
    case other
    with that(1) show ?thesis by (simp add: bounded_table_def)
  qed
qed

text \<open>
  C10: Whatever the learner has done, a challenger can only trade bounded parameters. In every database that learning
  cycles and the other operations of the store can produce, the parameters the worker reads for a challenger
  (\<open>challenger_parameters\<close>, from the recorded proposal and nowhere else) are numbers inside their declared bounds, and none of
  them is a parameter without one.
\<close>

theorem challenger_trades_within_bounds:
  assumes "reach no_proposals learning_step d" and "challenger_parameters sv challenger_id (quiet d) = (Some ps, w)"
  shows "\<forall>(k, v) \<in> set ps. \<exists>x. v = JFloat (Fin x) \<and> within_bound default_bounds k x"
proof -
  from assms(2) obtain r where r: "r \<in> set (challenger_proposals None None None (Some challenger_id) None 1 d)" and ps: "ch_parameters (cr_challenger r) = JObj ps"
    by (auto simp: challenger_parameters_def split: option.splits list.splits json.splits)
  from r have "r \<in> set (challengers d)" by (auto simp: challenger_proposals_def Let_def dest!: in_set_takeD)
  with learning.reach_inv [OF assms(1)] ps show ?thesis unfolding bounded_table_def by fastforce
qed

theorem challenger_trades_within_bounds_witness:
  "\<exists>d sv ps w. challenger_parameters sv ''chal-16'' (quiet d) = (Some ps, w) \<and> ps \<noteq> [] \<and>
     (\<forall>(k, v) \<in> set ps. \<exists>x. v = JFloat (Fin x) \<and> within_bound default_bounds k x)"
proof -
  let ?run = "run_learning_cycle demo_learner default_learning default_bounds ''ema_rsi_macd'' ''SPY'' ''v1'' [(''ema_fast'', 20)] 25 demo_veto ''default'' 5 empty_db"
  let ?sv = "\<lparr>sv_store = Some default_settings, sv_thresholds = default_thresholds\<rparr>"
  have "learning_step empty_db (snd ?run)" by (rule cycle [OF prod.collapse [symmetric]])
  moreover have "reach no_proposals learning_step empty_db" by (rule reach_init) (simp add: no_proposals_def empty_db_def)
  ultimately have r: "reach no_proposals learning_step (snd ?run)" by (meson reach_step)
  have "fst (challenger_parameters ?sv ''chal-16'' (quiet (snd ?run))) = Some [(''ema_fast'', JFloat (Fin 16))]" by code_simp
  then obtain w where p: "challenger_parameters ?sv ''chal-16'' (quiet (snd ?run)) = (Some [(''ema_fast'', JFloat (Fin 16))], w)" by (metis prod.collapse)
  with challenger_trades_within_bounds [OF r p] show ?thesis by blast
qed

end
