(* ===== verification/Learning.thy ===== *)
theory Learning
  imports Challengers Rule_Engine
begin

text \<open>
  The scheduled learner (\<open>services/autonomy-orchestrator/src/autonomy_orchestrator/learning_worker.py\<close>): it loads the champion's
  artifact, has the veto review the archive, pairs the paper fills, walks every challenger forward over the archived
  bars and runs the learning cycle on the lifecycle store. The artifact files, pydantic's reading of their parameters, the
  environment, the session calendar and Python's \<open>math\<close> are arguments.
\<close>

subsection \<open>The champion's artifact\<close>

record strategy_artifact =
  sa_strategy_id :: string
  sa_strategy_version :: string
  sa_timeframe :: string
  sa_parameters :: jdict
  sa_sha256 :: string

definition id_char :: "char \<Rightarrow> bool" where
  "id_char c = (let n = (of_char c :: nat) in 48 \<le> n \<and> n \<le> 57 \<or> 65 \<le> n \<and> n \<le> 90 \<or> 97 \<le> n \<and> n \<le> 122)"

definition safe_id :: "string \<Rightarrow> bool" where
  "safe_id s = (case s of [] \<Rightarrow> False | c # cs \<Rightarrow> id_char c \<and> length cs \<le> 63 \<and> list_all (\<lambda>x. id_char x \<or> x \<in> {CHR ''_'', CHR ''.'', CHR ''-''}) cs)"

definition timeframe_ok :: "string \<Rightarrow> bool" where
  "timeframe_ok tf = (tf = ''1d'' \<or>
     (case tf of [] \<Rightarrow> False | c # cs \<Rightarrow> is_digit c \<and> c \<noteq> CHR ''0'' \<and> cs \<noteq> [] \<and> last cs = CHR ''m'' \<and> list_all is_digit (butlast cs)))"

text \<open>A file of the registry: its size, its digest and the JSON it holds. \<open>None\<close> when it cannot be read.\<close>

record registry_file =
  rf_size :: nat
  rf_sha256 :: string
  rf_json :: "exn + json"

text \<open>
  The environment of a run. The three limits are \<open>int(os.getenv(...))\<close>, which raises on text that is no number;
  \<open>le_store_all\<close> is the failure of \<open>store.all()\<close>, if it fails.
\<close>

record learning_env =
  le_registry :: "string \<Rightarrow> (exn + registry_file)"
  le_expected_sha256 :: "string option"
  le_params :: "jdict \<Rightarrow> exn + strategy_params"
  le_math :: py_math
  le_half_pow :: "rat \<Rightarrow> rat"
  le_session :: "instant \<Rightarrow> int"
  le_wf_splits :: "exn + int"
  le_min_paper_trades :: "exn + int"
  le_max_sleeves :: "exn + int"
  le_store_all :: "exn option"
  le_policy :: "exn + veto_policy"
  le_reads :: journal_reads
  le_learner :: learner

definition artifact_path :: "string \<Rightarrow> string \<Rightarrow> string" where
  "artifact_path strategy_id strategy_version = strategy_id @ ''--'' @ strategy_version @ ''.json''"

definition load_strategy_artifact :: "learning_env \<Rightarrow> string \<Rightarrow> string \<Rightarrow> exn + strategy_artifact" where
  "load_strategy_artifact env strategy_id strategy_version =
     (if \<not> safe_id strategy_id \<or> \<not> safe_id strategy_version then Inl (ValueError [S ''unsafe strategy artifact identity''])
      else
        bindE (le_registry env (artifact_path strategy_id strategy_version)) (\<lambda>f.
          let expected = lower (strip (get_or (le_expected_sha256 env) [])) in
          if 64 * 1024 < rf_size f then Inl (ValueError [S ''strategy artifact is too large''])
          else if expected \<noteq> [] \<and> rf_sha256 f \<noteq> expected then Inl (ValueError [S ''strategy artifact digest mismatch''])
          else
            bindE (rf_json f) (\<lambda>v.
              (case v of
                 JObj payload \<Rightarrow>
                   if jget payload ''strategy_id'' \<noteq> JStr strategy_id then Inl (ValueError [S ''strategy artifact id mismatch''])
                   else if jget payload ''strategy_version'' \<noteq> JStr strategy_version then Inl (ValueError [S ''strategy artifact version mismatch''])
                   else
                     (case jget payload ''timeframe'' of
                        JStr tf \<Rightarrow>
                          if \<not> timeframe_ok tf then Inl (ValueError [S ''unsupported strategy artifact timeframe''])
                          else
                            (case jget payload ''parameters'' of
                               JObj ps \<Rightarrow>
                                 bindE (le_params env ps) (\<lambda>_.
                                   Inr \<lparr>sa_strategy_id = strategy_id, sa_strategy_version = strategy_version, sa_timeframe = tf,
                                        sa_parameters = ps, sa_sha256 = rf_sha256 f\<rparr>)
                             | _ \<Rightarrow> Inl (ValueError [S ''strategy artifact parameters must be an object'']))
                      | _ \<Rightarrow> Inl (ValueError [S ''unsupported strategy artifact timeframe'']))
               | _ \<Rightarrow> Inl (TypeError ''get'')))))"

subsection \<open>One sleeve\<close>

definition archived_ohlcv :: "string \<Rightarrow> archived_bar \<Rightarrow> ohlcv_bar" where
  "archived_ohlcv symbol r = \<lparr>ba_symbol = symbol, ba_timestamp = bo_ts r, ba_open = ab_open r, ba_high = ab_high r, ba_low = ab_low r,
     ba_close = ab_close r, ba_volume = ab_volume r\<rparr>"

definition one_point_grid :: "strategy_params \<Rightarrow> parameter_grid" where
  "one_point_grid p = \<lparr>pg_ema_fast = [sp_ema_fast p], pg_ema_slow = [sp_ema_slow p], pg_rsi_buy_min = [sp_rsi_buy_min p],
     pg_rsi_buy_max = [sp_rsi_buy_max p], pg_macd_hist_min = [sp_macd_hist_min p], pg_bb_period = [sp_bb_period p], pg_bb_std = [sp_bb_std p],
     pg_rsi_oversold = [sp_rsi_oversold p], pg_rsi_overbought = [sp_rsi_overbought p]\<rparr>"

definition learning_request :: "sleeve \<Rightarrow> strategy_artifact \<Rightarrow> backtest_request" where
  "learning_request s a = \<lparr>br_symbol = sl_symbol s, br_strategy = sl_strategy_id s, br_period_days = 180, br_initial_capital = 100000,
     br_risk_per_trade_pct = 1 / 100, br_atr_stop_multiplier = 2, br_params = default_params,
     br_timeframe = (if sa_timeframe a = ''1d'' then ''daily'' else ''intraday''), br_intraday_minutes = 15, br_commission_pct = 0,
     br_spread_bps = 5, br_slippage_bps = 1, br_regime_gate = False, br_volume_gate = False\<rparr>"

definition integer_fields :: "string list" where
  "integer_fields = [''ema_fast'', ''ema_slow'', ''bb_period'']"

text \<open>\<open>StrategyParams(**merged)\<close>: an integer field refuses a number with a fraction.\<close>

definition merge_params :: "strategy_params \<Rightarrow> (string \<times> rat) list \<Rightarrow> exn + strategy_params" where
  "merge_params champion ps =
     (if list_ex (\<lambda>(k, x). k \<in> set integer_fields \<and> of_int \<lfloor>x\<rfloor> \<noteq> x) ps then Inl (ValueError [S ''validation error for StrategyParams''])
      else (case make_params (fold (\<lambda>(k, x). set_param k (AFloat x)) ps champion) of
              None \<Rightarrow> Inl (ValueError [S ''validation error for StrategyParams''])
            | Some p \<Rightarrow> Inr p))"

definition evaluate_candidate :: "learning_env \<Rightarrow> backtest_request \<Rightarrow> strategy_params \<Rightarrow> ohlcv_bar list \<Rightarrow> proposal \<Rightarrow> exn + walk_forward_result" where
  "evaluate_candidate env r champion bars p =
     bindE (merge_params champion (pp_parameters p)) (\<lambda>params.
       bindE (le_wf_splits env) (\<lambda>splits.
         walk_forward (le_math env) (le_session env) (r\<lparr>br_params := params\<rparr>) bars (one_point_grid params)
           (max 2 (min 10 splits)) None ''sharpe''))"

datatype sleeve_outcome = Skipped string | Cycle cycle_report

definition run_sleeve_learning_cycle ::
  "learning_env \<Rightarrow> sleeve \<Rightarrow> archive \<Rightarrow> journal \<Rightarrow> instant \<Rightarrow> db \<Rightarrow> (exn + sleeve_outcome) \<times> db" where
  "run_sleeve_learning_cycle env s a j moment d =
     (if sl_state s \<noteq> ''paper'' then (Inr (Skipped ''SKIPPED_NOT_PAPER''), d)
      else if sl_origin s \<noteq> ''human'' then (Inr (Skipped ''SKIPPED_CHALLENGER_ORIGIN''), d)
      else if sl_strategy_version s = [] then (Inr (Skipped ''SKIPPED_UNVERSIONED''), d)
      else
        (case bindE (load_strategy_artifact env (sl_strategy_id s) (sl_strategy_version s)) (\<lambda>art.
                bindE (le_params env (sa_parameters art)) (\<lambda>model.
                  bindE (get_strategy (pm_sqrt (le_math env)) (sl_strategy_id s)) (\<lambda>st.
                    bindE (le_policy env) (\<lambda>policy.
                      bindE (le_min_paper_trades env) (\<lambda>least. Inr (art, model, st, policy, least)))))) of
           Inl e \<Rightarrow> (Inl e, d)
         | Inr (art, model, st, policy, least) \<Rightarrow>
             (let champion = map (\<lambda>name. (name, av_rat (get_param model name))) (sg_param_fields st);
                  veto = veto_review (le_reads env) policy (sl_symbol s) moment (sa_timeframe art) a j;
                  trips = load_round_trips (rd_executions (le_reads env)) (Some (sl_strategy_id s)) (Some (sl_strategy_version s)) (Some (sl_symbol s))
                            (Some ''paper'') (sl_account_id s) None (Some moment) 5000 j;
                  feedback = performance_from_trades (le_half_pow env) trips None;
                  bars = map (archived_ohlcv (sl_symbol s)) (bars_as_of (rd_bars (le_reads env)) (sl_symbol s) (sa_timeframe art) moment 1000 a);
                  lw = (le_learner env)\<lparr>ln_walk_forward := evaluate_candidate env (learning_request s art) model bars,
                         ln_deflate := (\<lambda>returns pool. deflated_sharpe_ratio (le_math env) returns pool None)\<rparr>;
                  t = default_learning\<lparr>lt_min_paper_round_trips := max 20 least\<rparr>
              in (case run_learning_cycle lw t default_bounds (sl_strategy_id s) (sl_symbol s) (sl_strategy_version s) champion
                         (pf_trades feedback) veto (sl_account_id s) moment d of
                    (Inl e, d') \<Rightarrow> (Inl e, d')
                  | (Inr r, d') \<Rightarrow> (Inr (Cycle r), d')))))"

text \<open>The batch: an exception of one sleeve is reported and the next one runs.\<close>

definition learn_one :: "learning_env \<Rightarrow> archive \<Rightarrow> journal \<Rightarrow> instant \<Rightarrow> sleeve \<Rightarrow> sleeve_outcome list \<times> db \<Rightarrow> sleeve_outcome list \<times> db" where
  "learn_one env a j moment s = (\<lambda>(out, d).
     (case run_sleeve_learning_cycle env s a j moment d of
        (Inl e, d') \<Rightarrow> (out @ [Skipped ''SKIPPED_INVALID_ARTIFACT_OR_EVIDENCE''], d')
      | (Inr r, d') \<Rightarrow> (out @ [r], d')))"

definition run_paper_learning_cycles ::
  "learning_env \<Rightarrow> store_settings \<Rightarrow> archive \<Rightarrow> journal \<Rightarrow> instant \<Rightarrow> db \<Rightarrow> (exn + sleeve_outcome list) \<times> db" where
  "run_paper_learning_cycles env cfg a j moment d =
     (case le_max_sleeves env of
        Inl e \<Rightarrow> (Inl e, d)
      | Inr n \<Rightarrow>
          (case le_store_all env of
             Some e \<Rightarrow> (Inl e, d)
           | None \<Rightarrow>
               (let chosen = take (nat (max 1 (min 50 n)))
                               (filter (\<lambda>s. sl_state s = ''paper'' \<and> sl_origin s = ''human'') (store_all cfg None d))
                in (case fold (learn_one env a j moment) chosen ([], d) of (out, d') \<Rightarrow> (Inr out, d')))))"

subsection \<open>The batch only proposes\<close>

lemma sleeve_only_learns:
  assumes "run_sleeve_learning_cycle env s a j moment d = (res, d')"
  shows "learning_step d d' \<and> only_learned d d' \<and> length (challengers d') \<le> length (challengers d) + 8"
proof (cases "d' = d")
  case True
  then show ?thesis by (simp add: other)
next
  case False
  with assms obtain lw t sid sy v champion trades veto acc res1 where run: "run_learning_cycle lw t default_bounds sid sy v champion trades veto acc moment d = (res1, d')"
    by (auto simp: run_sleeve_learning_cycle_def Let_def split: if_splits sum.splits prod.splits)
  have "cb_max_challengers_per_campaign default_bounds = 8" by (simp add: default_bounds_def)
  with learner_adds [OF run default_bounds_proper] cycle [OF run] show ?thesis by simp
qed

lemma batch_only_learns:
  "fold (learn_one env a j moment) ss (out, d) = (out', d') \<Longrightarrow>
   learning_step\<^sup>*\<^sup>* d d' \<and> only_learned d d' \<and> length (challengers d') \<le> length (challengers d) + 8 * length ss \<and> length out' = length out + length ss"
proof (induction ss arbitrary: out d)
  case (Cons s ss)
  obtain res d1 where one: "run_sleeve_learning_cycle env s a j moment d = (res, d1)" by (rule prod.exhaust)
  then obtain out1 where step: "learn_one env a j moment s (out, d) = (out1, d1)" "length out1 = Suc (length out)"
    by (cases res) (auto simp: learn_one_def)
  with Cons.prems have "fold (learn_one env a j moment) ss (out1, d1) = (out', d')" by simp
  from Cons.IH [OF this] sleeve_only_learns [OF one] step(2) show ?case
    by (auto intro: converse_rtranclp_into_rtranclp only_learned_trans)
qed simp

text \<open>
  C16: The scheduled learner proposes and nothing else. A batch raises only when its limit is no number or the roster
  cannot be read, and then it has done nothing; otherwise it ends with one outcome for each of the at most fifty sleeves it
  chose, whatever their artifacts, archives, vetoes, walk-forwards and store outages are. In every case the roster,
  its log, the evidence, the artifacts, the live switch, the halts and the journal health are as before, no proposal or report
  is removed or changed, at most eight proposals are added per sleeve, and if every stored proposal was inside the
  bounds before, every one is after.
\<close>

theorem learning_batch_only_proposes:
  assumes "run_paper_learning_cycles env cfg a j moment d = (res, d')"
  shows "only_learned d d' \<and> (bounded_table d \<longrightarrow> bounded_table d') \<and>
    (case res of
       Inl e \<Rightarrow> d' = d \<and> (le_max_sleeves env = Inl e \<or> le_store_all env = Some e)
     | Inr out \<Rightarrow> (\<exists>n. le_max_sleeves env = Inr n) \<and> le_store_all env = None \<and> length out \<le> 50 \<and>
         length (challengers d') \<le> length (challengers d) + 8 * length out)"
proof (cases res)
  case (Inl e)
  with assms have "d' = d" "le_max_sleeves env = Inl e \<or> le_store_all env = Some e"
    by (auto simp: run_paper_learning_cycles_def Let_def split: sum.splits option.splits prod.splits)
  then show ?thesis using Inl by (simp add: only_learned_refl)
next
  case (Inr out)
  then obtain n where n: "le_max_sleeves env = Inr n" "le_store_all env = None"
    using assms by (auto simp: run_paper_learning_cycles_def split: sum.splits option.splits)
  let ?chosen = "take (nat (max 1 (min 50 n))) (filter (\<lambda>s. sl_state s = ''paper'' \<and> sl_origin s = ''human'') (store_all cfg None d))"
  from assms have "fold (learn_one env a j moment) ?chosen ([], d) = (out, d')"
    by (auto simp: run_paper_learning_cycles_def n Inr Let_def split: prod.splits)
  from batch_only_learns [OF this] have b: "learning_step\<^sup>*\<^sup>* d d'" "only_learned d d'" "length (challengers d') \<le> length (challengers d) + 8 * length ?chosen"
    "length out = length ?chosen" by simp_all
  moreover have "length ?chosen \<le> 50" by (simp add: le_nat_iff)
  moreover have "bounded_table d \<longrightarrow> bounded_table d'" using learning.steps_inv [OF b(1)] by blast
  ultimately show ?thesis using n by (simp add: Inr)
qed

text \<open>A human sleeve on paper whose artifact file is missing.\<close>

definition learning_db :: db where
  "learning_db = demo_db3\<lparr>sleeves := [demo_human\<lparr>sl_state := ''paper''\<rparr>]\<rparr>"

definition missing_artifact :: learning_env where
  "missing_artifact = \<lparr>le_registry = (\<lambda>_. Inl (DatabaseError ''no such file'')), le_expected_sha256 = None, le_params = (\<lambda>_. Inr default_params),
     le_math = flat_math, le_half_pow = (\<lambda>x. x), le_session = (\<lambda>t. t div day_us), le_wf_splits = Inr 4, le_min_paper_trades = Inr 20, le_max_sleeves = Inr 10, le_store_all = None,
     le_policy = Inr default_veto_policy, le_reads = demo_reads, le_learner = demo_learner\<rparr>"

theorem learning_batch_only_proposes_witness:
  "\<exists>d'. run_paper_learning_cycles missing_artifact default_settings empty_archive no_orders 5 learning_db =
       (Inr [Skipped ''SKIPPED_INVALID_ARTIFACT_OR_EVIDENCE''], d') \<and> only_learned learning_db d' \<and> bounded_table d'"
proof -
  let ?run = "run_paper_learning_cycles missing_artifact default_settings empty_archive no_orders 5 learning_db"
  have skip: "learn_one missing_artifact empty_archive no_orders 5 s (out, d) = (out @ [Skipped ''SKIPPED_INVALID_ARTIFACT_OR_EVIDENCE''], d)"
    if "sl_state s = ''paper''" "sl_origin s = ''human''" "sl_strategy_version s \<noteq> []" for s out d
  proof -
    obtain e where "load_strategy_artifact missing_artifact (sl_strategy_id s) (sl_strategy_version s) = Inl e"
      by (cases "\<not> safe_id (sl_strategy_id s) \<or> \<not> safe_id (sl_strategy_version s)") (simp_all add: load_strategy_artifact_def missing_artifact_def)
    with that show ?thesis by (simp add: learn_one_def run_sleeve_learning_cycle_def)
  qed
  have chosen: "map (\<lambda>s. (sl_state s, sl_origin s, sl_strategy_version s)) (store_all default_settings None learning_db) = [(''paper'', ''human'', ''v1'')]" by code_simp
  then obtain s where s: "store_all default_settings None learning_db = [s]" "sl_state s = ''paper''" "sl_origin s = ''human''" "sl_strategy_version s = ''v1''"
    by (auto simp: map_eq_Cons_conv)
  have out: "fst ?run = Inr [Skipped ''SKIPPED_INVALID_ARTIFACT_OR_EVIDENCE'']"
    using s skip [of s] by (simp add: run_paper_learning_cycles_def) (simp add: missing_artifact_def case_prod_unfold)
  have "challengers learning_db = []" by code_simp
  then have "bounded_table learning_db" by (simp add: bounded_table_def)
  moreover have "?run = (Inr [Skipped ''SKIPPED_INVALID_ARTIFACT_OR_EVIDENCE''], snd ?run)" using out by (metis prod.collapse)
  ultimately show ?thesis using learning_batch_only_proposes [OF \<open>?run = (Inr [Skipped ''SKIPPED_INVALID_ARTIFACT_OR_EVIDENCE''], snd ?run)\<close>] by blast
qed

text \<open>
  The clamp of \<open>bounds.py\<close> on Python's floats: on numbers it is the one of the model, and a NaN, which an artifact may hold in
  its unconstrained \<open>macd_hist_min\<close>, comes out unclamped and unnoticed by the comparisons.
\<close>

lemma clamp_passes_nan:
  "f_min (f_max (Fin x) (Fin lo)) (Fin hi) = Fin (min (max x lo) hi)"
  "f_min (f_max NaN (Fin lo)) (Fin hi) = NaN"
  by (auto simp: f_min_def f_max_def f_gt_def min_def max_def)

text \<open>The name of an artifact never leaves the registry.\<close>

lemma artifact_stays_in_registry: "safe_id a \<Longrightarrow> safe_id b \<Longrightarrow> CHR ''/'' \<notin> set (artifact_path a b)"
  by (auto simp: safe_id_def artifact_path_def id_char_def list_all_iff split: list.splits)

text \<open>
  The worker evaluates every challenger with the momentum rule, whose parameters it completes from the champion. A challenger of
  the reversion strategy has none of them, so it trades the momentum champion, and the comparison and its paper
  evidence record a strategy nobody proposed.
\<close>

lemma reversion_challenger_trades_momentum:
  assumes "set (map fst ps) \<subseteq> set REVERSION_FIELDS"
  shows "evaluate_rules ta config score bars (Some ps) = evaluate_rules ta config score bars None"
proof -
  have "active_parameter (Some ps) name = active_parameter None name" if "name \<notin> set REVERSION_FIELDS" for name
  proof -
    have "map_of ps name = None" using assms that by (auto simp: map_of_eq_None_iff)
    then show ?thesis by (simp add: active_parameter_def)
  qed
  then have "\<forall>name \<in> set MOMENTUM_FIELDS. active_parameter (Some ps) name = active_parameter None name"
    by (auto simp: MOMENTUM_FIELDS_def REVERSION_FIELDS_def)
  then show ?thesis by (simp add: evaluate_rules_def MOMENTUM_FIELDS_def)
qed

end
