(* ===== verification/Spec2Isabelle.thy ===== *)
theory Spec2Isabelle
  imports Cycle_Safety Health Backtest_Portfolio Approvals Audit_Log Trade_Worker Earnings_Gate Learning
begin

text \<open>
  Trade Pilot: an automated trading system for equities, as a set of Python services over shared libraries.

  \<^bold>\<open>The parts and how they meet.\<close> A strategy service proposes signals. The autonomy orchestrator
  (\<open>src/services/autonomy-orchestrator\<close>) runs a cycle over them: day-trade budget, risk engine, policy service, the
  lifecycle gate of the sleeve (a strategy on a symbol in an environment), then an order to the execution service,
  with stop and target registered for what was opened; orders of the highest tier wait in the approval gateway, and
  everything decided goes to the audit logger. The execution service (\<open>src/services/execution-service\<close>) keeps one
  order per idempotency key, caps the position of a sleeve by its journal, asks the lifecycle store which venue an
  order may reach and hands it to the simulator or a live adapter. The portfolio service derives positions from the
  recorded fills; the reconciler compares them with the broker's and latches a halt. Sleeves are promoted only on
  evidence the server derives from backtests and the journal, and demoted by a health sweep. The backtest service
  produces that evidence: the rule that trades live, simulated over history with costs, and judged out of sample. The
  strategy service's worker reads snapshots, evaluates the rule or asks a model, gates entries and submits orders of its
  own for the champion and its paper challengers. What the system saw is kept in an append-only archive; a scheduled
  learner reads it as of a moment, has the veto review it and records bounded proposals, which never trade real money.

  \<^bold>\<open>Theories.\<close> Each opens with the source files it models; a definition carries the name of the function it translates.

  \<^item> \<open>Prelude\<close>: Python values (strings, floats with NaN and infinities, JSON, messages, exceptions as values of a sum), rounding,
    keyed tables, and the locale \<open>invariant_system\<close> that every state machine below interprets.
  \<^item> Lifecycle (\<open>src/libs/lifecycle\<close>): \<open>Routing\<close>, \<open>Lifecycle_Store\<close>, \<open>Halt_Latch\<close>, \<open>Roster\<close>, \<open>Evidence\<close>, \<open>Gates\<close>,
    \<open>Lifecycle_Service\<close>, \<open>Health\<close>. The database is a record of tables, a store method is a function on it, and \<open>Roster\<close> has
    one rule per writing method with any number of readers holding old snapshots. Shown: the transition log replays to
    the roster, no update is lost, a challenger is never live, a halt stays latched, promotion needs evidence that
    clears every threshold and writes nothing when refused.
  \<^item> Execution: \<open>Order_Pricing\<close> (\<open>src/libs/contracts/src/contracts/execution.py\<close>), \<open>Paper_Broker\<close>, \<open>Live_Adapters\<close>
    (\<open>src/libs/brokers\<close>), \<open>Broker_Router\<close>, \<open>Execution_Service\<close>, \<open>Order_Flow\<close>, \<open>Order_Books\<close>
    (\<open>src/services/execution-service\<close>), \<open>Execution_Journal\<close> (\<open>src/libs/journal\<close>), \<open>Round_Trips\<close>
    (\<open>src/libs/attribution\<close>). Shown: an entry reaches real money only under a licence, exits follow the position, the
    simulator conserves cash, cost and profit, one order per key, the cap on the journal's book over any run of orders, agreement
    of simulator and journal where closes hit the symbol they name, and that pairing fills into round trips neither loses nor
    invents money in any scope.
  \<^item> Portfolio and reconciliation: \<open>Portfolio\<close> (\<open>src/services/portfolio-service\<close>), \<open>Reconciliation\<close>. Shown: every fill is
    accounted for, and entries are blocked exactly while breaks persist.
  \<^item> Orchestrator (\<open>src/services/autonomy-orchestrator\<close>) and policy (\<open>src/services/policy-service\<close>): \<open>Day_Trades\<close>, \<open>Risk_Monitors\<close>,
    \<open>Risk_Engine\<close>, \<open>Policy_Rules\<close>, \<open>Risk_Jobs\<close>, \<open>Trading_Cycle\<close>, \<open>Cycle_Safety\<close>. Shown: an order of a cycle has passed
    every gate, the day-trade budget holds over cycles, jobs, days and restarts, protection lies on the right side of
    the entry, checks fire exactly, and protection survives a restart.
  \<^item> Indicators and backtests: \<open>Indicators\<close> (\<open>src/libs/market_data/src/market_data/indicators.py\<close>), \<open>Indicator_Series\<close>,
    \<open>Strategies\<close>, \<open>Backtest_Engine\<close>, \<open>Validation\<close>, \<open>Backtest_Portfolio\<close> (\<open>src/services/backtest-service\<close>). Shown: the one-pass
    series equal the live indicators at every bar (locale \<open>one_pass\<close>), signals are causal (locale \<open>causal_rule\<close>) and so
    are curve and trades, a run is solvent and its books balance, costs only hurt, the break-even splits the ladder,
    windows keep their embargo, a fold is selected on its training bars alone, the bisection ends, weights split the
    capital.
  \<^item> Strategy service (\<open>src/services/strategy-service\<close>): \<open>Rule_Engine\<close> (\<open>rule_engine.py\<close>, \<open>ai_pipeline.py\<close>), \<open>Trade_Worker\<close>
    (\<open>worker.py\<close>, \<open>scheduler.py\<close>), \<open>Earnings_Gate\<close> (\<open>earnings_calendar.py\<close>). Shown: the pipeline answers whatever the model and
    the fetches do, but for one exactly described score of the sentiment service, an order of the worker has passed the position
    check, the policy and the lifecycle gate at the state its run had reached, what it enters past the warm-up is what the
    backtested rule enters, and a fail-closed calendar never reports a symbol clear on an answer it lacks.
  \<^item> Archive and learning: \<open>Archive\<close> (\<open>src/libs/journal/src/journal/store.py\<close>, \<open>models.py\<close>), \<open>Veto\<close> (\<open>src/libs/veto\<close>),
    \<open>Challengers\<close> (\<open>src/libs/challengers\<close>), \<open>Learning\<close>
    (\<open>src/services/autonomy-orchestrator/src/autonomy_orchestrator/learning_worker.py\<close>). A table of the archive is the list of its
    rows, and the locale \<open>append_only\<close> is interpreted on each of the six. Shown: later writes never change a read of
    the past, a read shows exactly the newest version known, a recorded bar reads back, a clean review certifies the
    data, a campaign is judged against all its trials, and the learner adds bounded proposals and changes nothing else, so a
    challenger can only trade parameters inside the declared bounds.
  \<^item> Shared services: \<open>Access_Control\<close> (\<open>src/libs/contracts\<close>), \<open>Approvals\<close> (\<open>src/services/approval-gateway\<close>), \<open>Audit_Log\<close>
    (\<open>src/services/audit-logger\<close>). Shown: authentication fails closed, the rate limit is a bound, an approval is decided
    once, the log keeps what it is told, and the week's spending is what it records.

  \<^bold>\<open>Numbers, time, loops.\<close> Floats that are compared with limits are \<open>pyfloat\<close>, comparisons as in IEEE 754; where code
  only adds and multiplies finite quantities the model uses exact rationals, so the rounding of doubles is outside the
  model and the rounding the code asks for (\<open>round(x, n)\<close>) inside. A moment is a count of microseconds. Every loop is a
  total function: structural recursion, a fold over the list the source iterates, or a function with a termination
  proof (the rolling window of \<open>Day_Trades\<close>, the bisection of \<open>Validation\<close>, decimal rendering in \<open>Strategies\<close>); no fuel is used.

  \<^bold>\<open>Arguments that stand for what is outside.\<close> The clock, fresh identifiers, the environment, the answers of other
  services, of venues and of data providers, the time-zone database (sessions), hashes, and the functions of Python's
  \<open>math\<close> are arguments of the definitions that use them; where a result depends on them a theorem holds for all.

  \<^bold>\<open>Concurrency.\<close> Database transactions are atomic steps. Where a handler reads and writes in separate statements the two
  halves are separate functions, and the interleavings that break a promise are exhibited (\<open>Halt_Latch\<close>, \<open>Order_Books\<close>,
  \<open>Approvals\<close>); the lifecycle service is run against an explicit schedule of rival commits and outages.

  \<^bold>\<open>Not modelled.\<close> Network clients, web frameworks, schedulers, start-up and logging; the language-model calls of the
  strategy, research, sentiment and specialist code; the prompt texts; the dashboard; command-line scripts; migrations
  beyond the constraints the store relies on. The attribution reports, regimes and counterfactuals and the specialists' reports are
  left out as well: nothing that trades, gates or promotes reads them. So are the endpoints that only list or store rows (signals of
  the strategy service, orders, positions and account of the execution service, status pages of the orchestrator), the
  notification, research and sentiment services, and the feeds, caches and streams of market data.
\<close>

end
